(* ===== verification/Prelude.thy ===== *)
theory Prelude
  imports Main "HOL-Library.Sublist"
begin

text \<open>
  The shared vocabulary of the development.

  \<^item> \<open>json\<close>: the JSON-shaped Python values that payloads, command arguments and \<open>jsonb\<close>
    columns hold, with Python's \<open>d.get(k)\<close> and \<open>d[k]\<close>.  \<open>None\<close> is \<open>JNull\<close>.  Numbers are
    the integers.  A \<open>char\<close> stands for one code point below 256.
  \<^item> \<open>exn\<close>: the exceptions the code raises, as values; \<open>Diverges\<close> is no exception of the code but
    the outcome of a loop whose fuel ran out.
  \<^item> \<open>('s, 'a) prog\<close>: a Python function that reads and writes the state \<open>'s\<close> (the database
    behind \<open>conn\<close>) and returns a value or raises.  A raise keeps the writes made so far, as a
    Python exception does; \<open>savepoint\<close> is the block that undoes them.
  \<^item> \<open>keeps R m\<close>: every run of \<open>m\<close>, returning or raising, ends in a state related to its
    first state.  The locale \<open>state_rel\<close> proves once, for every reflexive and transitive
    relation, that the combinators keep it; each component interprets it on its own relation.
\<close>

named_theorems prog_simps \<open>unfolding rules of the program combinators\<close>
named_theorems keeps_intro \<open>composition rules for relations that every run keeps\<close>

subsection \<open>JSON-shaped values\<close>

datatype json =
    JNull
  | JBool bool
  | JInt int
  | JStr string
  | JArr "json list"
  | JObj "(string \<times> json) list"

text \<open>Python's truth value of a JSON-shaped value (\<open>if v:\<close>, \<open>not v\<close>, \<open>v or w\<close>).\<close>

fun truthy :: "json \<Rightarrow> bool" where
  "truthy JNull = False"
| "truthy (JBool b) = b"
| "truthy (JInt n) = (n \<noteq> 0)"
| "truthy (JStr s) = (s \<noteq> [])"
| "truthy (JArr xs) = (xs \<noteq> [])"
| "truthy (JObj kvs) = (kvs \<noteq> [])"

type_synonym dict = "(string \<times> json) list"

text \<open>\<open>d.get(k)\<close> and \<open>d.get(k, default)\<close>.\<close>

definition dget :: "dict \<Rightarrow> string \<Rightarrow> json" where
  "dget d k = (case map_of d k of None \<Rightarrow> JNull | Some v \<Rightarrow> v)"

definition dget_or :: "dict \<Rightarrow> string \<Rightarrow> json \<Rightarrow> json" where
  "dget_or d k v = (case map_of d k of None \<Rightarrow> v | Some w \<Rightarrow> w)"

definition has_key :: "dict \<Rightarrow> string \<Rightarrow> bool" where
  "has_key d k \<longleftrightarrow> map_of d k \<noteq> None"

fun ostr :: "string option \<Rightarrow> json" where
  "ostr None = JNull"
| "ostr (Some s) = JStr s"

fun oint :: "int option \<Rightarrow> json" where
  "oint None = JNull"
| "oint (Some n) = JInt n"

text \<open>Reading a JSON value back at the type an annotation names; \<open>None\<close> is the null value.\<close>

fun as_ostr :: "json \<Rightarrow> string option" where
  "as_ostr (JStr s) = Some s"
| "as_ostr _ = None"

fun as_oint :: "json \<Rightarrow> int option" where
  "as_oint (JInt n) = Some n"
| "as_oint _ = None"

fun as_strs :: "json \<Rightarrow> string list" where
  "as_strs (JArr xs) = List.map_filter as_ostr xs"
| "as_strs _ = []"

fun as_dict :: "json \<Rightarrow> dict" where
  "as_dict (JObj kvs) = kvs"
| "as_dict _ = []"

lemma as_ostr_ostr [simp]: "as_ostr (ostr x) = x"
  by (cases x) auto

lemma as_oint_oint [simp]: "as_oint (oint x) = x"
  by (cases x) auto

lemma map_filter_JStr [simp]: "List.map_filter as_ostr (map JStr xs) = xs"
  by (induction xs) (auto simp: map_filter_simps)

lemma dget_Cons [simp]: "dget ((k, v) # d) k' = (if k = k' then v else dget d k')"
  by (simp add: dget_def)

lemma dget_Nil [simp]: "dget [] k = JNull"
  by (simp add: dget_def)

lemma dget_or_Cons [simp]: "dget_or ((k, v) # d) k' w = (if k = k' then v else dget_or d k' w)"
  by (simp add: dget_or_def)

lemma dget_or_Nil [simp]: "dget_or [] k w = w"
  by (simp add: dget_or_def)

lemma has_key_Cons [simp]: "has_key ((k, v) # d) k' \<longleftrightarrow> k = k' \<or> has_key d k'"
  by (simp add: has_key_def)

lemma has_key_Nil [simp]: "\<not> has_key [] k"
  by (simp add: has_key_def)

subsection \<open>Exceptions\<close>

datatype exn =
    ConcurrencyError
  | SchemaValidationError
  | InlinePIIError
  | KeyError
  | IndexError
  | ValueError
  | TypeError
  | IdentityError string
  | GuardExprError
  | TransitionTableError
  | PredicateRegistrationError
  | MigrationError
  | DagViolationError
  | DocumentValidationError
  | RuntimeError
  | QueueIdempotencyConflict
  | ProjectionApplyError string string string
  | GateError
  | IneligibleResponderError
  | ResponseNotAllowedError
  | SoDViolationError string
  | AuditKeyNotConfigured
  | AuditReadDenied
  | BreakGlassError
  | GovernanceAttributeError
  | DisallowedTimerCommand
  | DraftValidationError
  | BlobNotFoundError
  | UnroutedOutboxTopic
  | OutboxIdempotencyConflict
  | BackpressureError
  | HighCostWithoutDedup
  | HandlerTimeout
  | OverflowError
  | CostConfigError
  | NumericValueOutOfRange
  | InFailedSqlTransaction
  | FactValidationError string
  | OverlayCommandError
  | OverlayConfigError
  | PermissionError
  | UniqueViolation string
  | NotNullViolation
  | CheckViolation string
  | ForeignKeyViolation
  | Diverges

subsection \<open>Texts and numbers\<close>

text \<open>An optional argument that the code goes on to use as a text or \<open>None\<close>.\<close>

fun opt_str :: "json \<Rightarrow> exn + string option" where
  "opt_str JNull = Inr None"
| "opt_str (JStr s) = Inr (Some s)"
| "opt_str _ = Inl TypeError"

text \<open>\<open>x or d\<close> on an optional text.\<close>

definition str_or :: "string option \<Rightarrow> string \<Rightarrow> string" where
  "str_or x d = (case x of None \<Rightarrow> d | Some v \<Rightarrow> if v = [] then d else v)"

text \<open>The decimal text of a number, \<open>f"{n}"\<close>.\<close>

fun dec :: "nat \<Rightarrow> string" where
  "dec n = (if n < 10 then [char_of (48 + n)] else dec (n div 10) @ [char_of (48 + n mod 10)])"

declare dec.simps [simp del]

definition int_text :: "int \<Rightarrow> string" where
  "int_text n = (if n < 0 then ''-'' @ dec (nat (- n)) else dec (nat n))"

text \<open>
  \<open>int(v)\<close>: a text is digits, with single underscores between them, an optional sign and white
  space around.
\<close>

fun digits_value :: "int \<Rightarrow> bool \<Rightarrow> string \<Rightarrow> int option" where
  "digits_value acc after_digit [] = (if after_digit then Some acc else None)"
| "digits_value acc after_digit (c # cs) =
     (if c \<in> set ''0123456789'' then digits_value (acc * 10 + (int (of_char c) - 48)) True cs
      else if c = CHR ''_'' \<and> after_digit then digits_value acc False cs else None)"

definition is_blank :: "char \<Rightarrow> bool" where
  "is_blank c \<longleftrightarrow> (of_char c :: nat) \<in> {9, 10, 11, 12, 13, 28, 29, 30, 31, 32, 133, 160}"

fun py_int :: "json \<Rightarrow> exn + int" where
  "py_int (JInt n) = Inr n"
| "py_int (JBool b) = Inr (if b then 1 else 0)"
| "py_int (JStr s) =
     (let t = rev (dropWhile is_blank (rev (dropWhile is_blank s)));
          v = (case t of CHR ''-'' # u \<Rightarrow> map_option uminus (digits_value 0 False u)
               | CHR ''+'' # u \<Rightarrow> digits_value 0 False u | u \<Rightarrow> digits_value 0 False u)
      in case v of None \<Rightarrow> Inl ValueError | Some n \<Rightarrow> Inr n)"
| "py_int _ = Inl TypeError"

subsection \<open>Programs over a state, with exceptions\<close>

type_synonym ('s, 'a) prog = "'s \<Rightarrow> (exn + 'a) \<times> 's"

definition ret :: "'a \<Rightarrow> ('s, 'a) prog" where
  [prog_simps]: "ret x = (\<lambda>s. (Inr x, s))"

definition throw :: "exn \<Rightarrow> ('s, 'a) prog" where
  [prog_simps]: "throw e = (\<lambda>s. (Inl e, s))"

definition andthen :: "('s, 'a) prog \<Rightarrow> ('a \<Rightarrow> ('s, 'b) prog) \<Rightarrow> ('s, 'b) prog" where
  [prog_simps]: "andthen m f = (\<lambda>s. case m s of (Inl e, s') \<Rightarrow> (Inl e, s') | (Inr x, s') \<Rightarrow> f x s')"

definition query :: "('s \<Rightarrow> 'a) \<Rightarrow> ('s, 'a) prog" where
  [prog_simps]: "query f = (\<lambda>s. (Inr (f s), s))"

definition update :: "('s \<Rightarrow> 's) \<Rightarrow> ('s, unit) prog" where
  [prog_simps]: "update f = (\<lambda>s. (Inr (), f s))"

definition lift :: "exn + 'a \<Rightarrow> ('s, 'a) prog" where
  [prog_simps]: "lift r = (\<lambda>s. (r, s))"

definition require :: "bool \<Rightarrow> exn \<Rightarrow> ('s, unit) prog" where
  [prog_simps]: "require b e = (\<lambda>s. (if b then Inr () else Inl e, s))"

text \<open>\<open>for x in xs: out.append(f(x))\<close>, stopping at the first exception.\<close>

primrec for_each :: "'b list \<Rightarrow> ('b \<Rightarrow> ('s, 'a) prog) \<Rightarrow> ('s, 'a list) prog" where
  "for_each [] f = ret []"
| "for_each (x # xs) f = andthen (f x) (\<lambda>y. andthen (for_each xs f) (\<lambda>ys. ret (y # ys)))"

text \<open>
  \<open>with conn.transaction():\<close> inside an open transaction is a savepoint: an exception leaves with
  the state \<open>undo s s'\<close>, where \<open>s\<close> is the state at entry and \<open>s'\<close> the state at the raise.
  What \<open>undo\<close> keeps of \<open>s'\<close> is what PostgreSQL does not roll back (sequence values).
\<close>

definition savepoint :: "('s \<Rightarrow> 's \<Rightarrow> 's) \<Rightarrow> ('s, 'a) prog \<Rightarrow> ('s, 'a) prog" where
  [prog_simps]: "savepoint undo m = (\<lambda>s. case m s of (Inl e, s') \<Rightarrow> (Inl e, undo s s') | r \<Rightarrow> r)"

text \<open>\<open>try: m  except e: h(e)\<close>.\<close>

definition catch :: "('s, 'a) prog \<Rightarrow> (exn \<Rightarrow> ('s, 'a) prog) \<Rightarrow> ('s, 'a) prog" where
  [prog_simps]: "catch m h = (\<lambda>s. case m s of (Inl e, s') \<Rightarrow> h e s' | r \<Rightarrow> r)"

text \<open>The outcome of a \<open>try\<close> block as a value, for code that goes on in each handler.\<close>

definition attempt :: "('s, 'a) prog \<Rightarrow> ('s, exn + 'a) prog" where
  [prog_simps]: "attempt m = (\<lambda>s. case m s of (r, s') \<Rightarrow> (Inr r, s'))"

text \<open>\<open>d[k]\<close>: raises when the key is missing.\<close>

definition dict_item :: "dict \<Rightarrow> string \<Rightarrow> exn + json" where
  "dict_item d k = (case map_of d k of None \<Rightarrow> Inl KeyError | Some v \<Rightarrow> Inr v)"

text \<open>\<open>d[k]\<close> where the code goes on to use the value as a string.\<close>

definition dict_str :: "dict \<Rightarrow> string \<Rightarrow> exn + string" where
  "dict_str d k = (case map_of d k of None \<Rightarrow> Inl KeyError | Some (JStr v) \<Rightarrow> Inr v | Some _ \<Rightarrow> Inl TypeError)"

text \<open>Sequencing of pure steps that may raise.\<close>

definition chain :: "exn + 'a \<Rightarrow> ('a \<Rightarrow> exn + 'b) \<Rightarrow> exn + 'b" where
  "chain r f = (case r of Inl e \<Rightarrow> Inl e | Inr x \<Rightarrow> f x)"

lemma chain_simps [simp]: "chain (Inl e) f = Inl e" "chain (Inr x) f = f x"
  by (simp_all add: chain_def)

lemma chain_eq_Inr: "chain r f = Inr y \<longleftrightarrow> (\<exists>x. r = Inr x \<and> f x = Inr y)"
  by (cases r) simp_all

text \<open>\<open>for x in xs\<close> over a pure step that may raise.\<close>

primrec map_chain :: "('a \<Rightarrow> exn + 'b) \<Rightarrow> 'a list \<Rightarrow> exn + 'b list" where
  "map_chain f [] = Inr []"
| "map_chain f (x # xs) = chain (f x) (\<lambda>y. chain (map_chain f xs) (\<lambda>ys. Inr (y # ys)))"

lemma map_chain_Inr: "(\<And>x. x \<in> set xs \<Longrightarrow> f x = Inr (g x)) \<Longrightarrow> map_chain f xs = Inr (map g xs)"
  by (induction xs) auto

lemma map_chain_total:
  "(\<And>x. x \<in> set xs \<Longrightarrow> \<exists>y. f x = Inr y) \<Longrightarrow> map_chain f xs = Inr (map (projr \<circ> f) xs)"
  by (induction xs) fastforce+

lemma dict_item_Cons [simp]:
  "dict_item ((k, v) # d) k' = (if k = k' then Inr v else dict_item d k')"
  by (simp add: dict_item_def)

lemma dict_item_Nil [simp]: "dict_item [] k = Inl KeyError"
  by (simp add: dict_item_def)

lemma dict_str_Cons [simp]:
  "dict_str ((k, v) # d) k' =
     (if k = k' then (case v of JStr s \<Rightarrow> Inr s | _ \<Rightarrow> Inl TypeError) else dict_str d k')"
  by (simp add: dict_str_def)

lemma dict_str_Nil [simp]: "dict_str [] k = Inl KeyError"
  by (simp add: dict_str_def)

lemma andthen_Inl: "m s = (Inl e, s') \<Longrightarrow> andthen m f s = (Inl e, s')"
  by (simp add: andthen_def)

lemma andthen_Inr: "m s = (Inr x, s') \<Longrightarrow> andthen m f s = f x s'"
  by (simp add: andthen_def)

lemma andthen_eq_Inr:
  "andthen m f s = (Inr y, s'') \<longleftrightarrow> (\<exists>x s'. m s = (Inr x, s') \<and> f x s' = (Inr y, s''))"
  by (auto simp: andthen_def split: prod.splits sum.splits)

lemma andthen_ret [simp]: "andthen (ret x) f = f x"
  by (simp add: andthen_def ret_def)

lemma andthen_query [simp]: "andthen (query g) f s = f (g s) s"
  by (simp add: andthen_def query_def)

lemma andthen_update [simp]: "andthen (update g) f s = f () (g s)"
  by (simp add: andthen_def update_def)

lemma andthen_lift_Inr [simp]: "andthen (lift (Inr x)) f = f x"
  by (simp add: andthen_def lift_def)

lemma andthen_lift_Inl [simp]: "andthen (lift (Inl e)) f = throw e"
  by (simp add: andthen_def lift_def throw_def)

lemma andthen_throw [simp]: "andthen (throw e) f = throw e"
  by (simp add: andthen_def throw_def)

lemma andthen_require [simp]: "andthen (require b e) f = (if b then f () else throw e)"
  by (auto simp: andthen_def require_def throw_def)

lemma query_apply [simp]: "query f s = (Inr (f s), s)"
  by (simp add: query_def)

lemma ret_apply [simp]: "ret x s = (Inr x, s)"
  by (simp add: ret_def)

lemma throw_apply [simp]: "throw e s = (Inl e, s)"
  by (simp add: throw_def)

lemma update_apply [simp]: "update f s = (Inr (), f s)"
  by (simp add: update_def)

lemma lift_apply [simp]: "lift r s = (r, s)"
  by (simp add: lift_def)

subsection \<open>Relations that every run keeps\<close>

definition keeps :: "('s \<Rightarrow> 's \<Rightarrow> bool) \<Rightarrow> ('s, 'a) prog \<Rightarrow> bool" where
  "keeps R m \<longleftrightarrow> (\<forall>s. R s (snd (m s)))"

lemma keepsI: "(\<And>s. R s (snd (m s))) \<Longrightarrow> keeps R m"
  by (simp add: keeps_def)

lemma keepsD: "keeps R m \<Longrightarrow> m s = (r, s') \<Longrightarrow> R s s'"
  unfolding keeps_def by (metis snd_conv)

locale state_rel =
  fixes R :: "'s \<Rightarrow> 's \<Rightarrow> bool"
  assumes rel_refl: "R s s"
    and rel_trans: "R s t \<Longrightarrow> R t u \<Longrightarrow> R s u"
begin

lemma keeps_ret: "keeps R (ret x)"
  by (simp add: keeps_def rel_refl)

lemma keeps_throw: "keeps R (throw e)"
  by (simp add: keeps_def rel_refl)

lemma keeps_query: "keeps R (query f)"
  by (simp add: keeps_def rel_refl)

lemma keeps_lift: "keeps R (lift r)"
  by (simp add: keeps_def rel_refl)

lemma keeps_require: "keeps R (require b e)"
  by (simp add: keeps_def require_def rel_refl)

lemma keeps_update: "(\<And>s. R s (f s)) \<Longrightarrow> keeps R (update f)"
  by (simp add: keeps_def)

lemma keeps_andthen: "keeps R m \<Longrightarrow> (\<And>x. keeps R (f x)) \<Longrightarrow> keeps R (andthen m f)"
  unfolding keeps_def andthen_def
  by (auto split: prod.splits sum.splits) (metis rel_trans snd_conv)+

lemma keeps_if: "(b \<Longrightarrow> keeps R m) \<Longrightarrow> (\<not> b \<Longrightarrow> keeps R n) \<Longrightarrow> keeps R (if b then m else n)"
  by simp

lemma keeps_for_each: "(\<And>x. keeps R (f x)) \<Longrightarrow> keeps R (for_each xs f)"
  by (induction xs) (auto intro!: keeps_ret keeps_andthen)

lemma keeps_catch: "keeps R m \<Longrightarrow> (\<And>e. keeps R (h e)) \<Longrightarrow> keeps R (catch m h)"
  unfolding keeps_def catch_def
  by (auto split: prod.splits sum.splits) (metis rel_trans snd_conv)+

lemma keeps_attempt: "keeps R m \<Longrightarrow> keeps R (attempt m)"
  unfolding keeps_def attempt_def by (auto split: prod.split) (metis snd_conv)

lemma keeps_sum:
  "(\<And>e. keeps R (f e)) \<Longrightarrow> (\<And>x. keeps R (g x)) \<Longrightarrow> keeps R (case r of Inl e \<Rightarrow> f e | Inr x \<Rightarrow> g x)"
  by (cases r) simp_all

lemma keeps_savepoint:
  "(\<And>s s'. R s s' \<Longrightarrow> R s (undo s s')) \<Longrightarrow> keeps R m \<Longrightarrow> keeps R (savepoint undo m)"
  unfolding keeps_def savepoint_def
  by (auto split: prod.splits sum.splits) (metis snd_conv)+

lemma keeps_option:
  "keeps R m \<Longrightarrow> (\<And>x. keeps R (f x)) \<Longrightarrow> keeps R (case y of None \<Rightarrow> m | Some x \<Rightarrow> f x)"
  by (cases y) simp_all

lemma keeps_prod: "(\<And>a b. keeps R (f a b)) \<Longrightarrow> keeps R (case p of (a, b) \<Rightarrow> f a b)"
  by (cases p) simp

lemma keeps_let: "(\<And>x. keeps R (f x)) \<Longrightarrow> keeps R (let x = a in f x)"
  by simp

lemma keeps_list:
  "keeps R m \<Longrightarrow> (\<And>x xs. keeps R (f x xs)) \<Longrightarrow> keeps R (case ys of [] \<Rightarrow> m | x # xs \<Rightarrow> f x xs)"
  by (cases ys) simp_all

lemma keeps_json:
  "keeps R m1 \<Longrightarrow> (\<And>b. keeps R (m2 b)) \<Longrightarrow> (\<And>n. keeps R (m3 n)) \<Longrightarrow> (\<And>s. keeps R (m4 s)) \<Longrightarrow>
     (\<And>xs. keeps R (m5 xs)) \<Longrightarrow> (\<And>kvs. keeps R (m6 kvs)) \<Longrightarrow>
     keeps R (case j of JNull \<Rightarrow> m1 | JBool b \<Rightarrow> m2 b | JInt n \<Rightarrow> m3 n | JStr s \<Rightarrow> m4 s | JArr xs \<Rightarrow> m5 xs | JObj kvs \<Rightarrow> m6 kvs)"
  by (cases j) simp_all

text \<open>The same composition from one given state, for code whose later step relies on an earlier check.\<close>

lemma step_andthen:
  assumes "R s (snd (m s))" "\<And>x s'. m s = (Inr x, s') \<Longrightarrow> R s' (snd (f x s'))"
  shows "R s (snd (andthen m f s))"
  using assms rel_trans [of s]
  by (cases "m s") (auto simp: andthen_def split: sum.splits)

lemmas keeps_rules =
  keeps_ret keeps_throw keeps_query keeps_lift keeps_require keeps_andthen keeps_if
  keeps_for_each keeps_option keeps_prod keeps_let keeps_list keeps_json keeps_sum keeps_attempt

end

end
