(* ===== verification/Canonical_Json.thy ===== *)
theory Canonical_Json
  imports Prelude "HOL-Library.Char_ord" "HOL-Library.List_Lexorder"
begin

text \<open>
  \<open>json.dumps(v, sort_keys=True, separators=(",", ":"), ensure_ascii=False)\<close>: the text over which the
  audit chain computes its keyed digest, and the same call with \<open>ensure_ascii\<close> at its default.  The main result is that the text determines the value up
  to the order of object members (\<open>json_dumps_inject\<close>), so that a digest over the text is a digest
  over the value.
\<close>

definition hex_digit :: "nat \<Rightarrow> char" where
  "hex_digit n = ''0123456789abcdef'' ! n"

definition escape_char :: "bool \<Rightarrow> char \<Rightarrow> string" where
  "escape_char ascii c =
     (if c = CHR 0x22 then [CHR 0x5C, CHR 0x22]
      else if c = CHR 0x5C then [CHR 0x5C, CHR 0x5C]
      else if c = CHR 0x0A then [CHR 0x5C, CHR ''n'']
      else if c = CHR 0x0D then [CHR 0x5C, CHR ''r'']
      else if c = CHR 0x09 then [CHR 0x5C, CHR ''t'']
      else if c = CHR 0x08 then [CHR 0x5C, CHR ''b'']
      else if c = CHR 0x0C then [CHR 0x5C, CHR ''f'']
      else if (of_char c :: nat) < 32 \<or> ascii \<and> (of_char c :: nat) > 126
        then [CHR 0x5C, CHR ''u'', CHR ''0'', CHR ''0'', hex_digit (of_char c div 16), hex_digit (of_char c mod 16)]
      else [c])"

definition quote :: "bool \<Rightarrow> string \<Rightarrow> string" where
  "quote ascii s = [CHR 0x22] @ concat (map (escape_char ascii) s) @ [CHR 0x22]"

fun commas :: "string list \<Rightarrow> string" where
  "commas [] = []"
| "commas [x] = x"
| "commas (x # y # zs) = x @ CHR '','' # commas (y # zs)"

fun json_raw :: "bool \<Rightarrow> json \<Rightarrow> string" where
  "json_raw ascii JNull = ''null''"
| "json_raw ascii (JBool b) = (if b then ''true'' else ''false'')"
| "json_raw ascii (JInt n) = int_text n"
| "json_raw ascii (JStr s) = quote ascii s"
| "json_raw ascii (JArr xs) = CHR ''['' # commas (map (json_raw ascii) xs) @ [CHR '']'']"
| "json_raw ascii (JObj kvs) =
     CHR ''{'' # commas (map (\<lambda>(k, v). quote ascii k @ CHR '':'' # json_raw ascii v) kvs) @ [CHR ''}'']"

text \<open>Object members in the order of their keys, at every level.\<close>

fun sort_keys :: "json \<Rightarrow> json" where
  "sort_keys (JArr xs) = JArr (map sort_keys xs)"
| "sort_keys (JObj kvs) = JObj (sort_key fst (map (\<lambda>(k, v). (k, sort_keys v)) kvs))"
| "sort_keys j = j"

definition json_dumps :: "json \<Rightarrow> string" where
  "json_dumps j = json_raw False (sort_keys j)"

text \<open>The same call with \<open>ensure_ascii\<close> left at its default, \<open>True\<close>.\<close>

definition json_dumps_ascii :: "json \<Rightarrow> string" where
  "json_dumps_ascii j = json_raw True (sort_keys j)"

subsection \<open>Texts of numbers and strings can be read back\<close>

definition digit :: "char \<Rightarrow> bool" where
  "digit c \<longleftrightarrow> c \<in> set ''0123456789''"

lemma digit_chars: "\<forall>k \<in> set [0..<10]. digit (char_of (48 + k :: nat))"
  by code_simp

lemma digit_char: "k < 10 \<Longrightarrow> digit (char_of (48 + k :: nat))"
  using digit_chars by (simp del: upt_conv_Cons)

lemma digit_not [simp]: "\<not> digit CHR ''-''" "\<not> digit CHR '',''" "\<not> digit CHR '']''" "\<not> digit CHR ''}''"
  "\<not> digit CHR ''n''" "\<not> digit CHR ''t''" "\<not> digit CHR ''f''" "\<not> digit CHR ''['' " "\<not> digit CHR ''{''" "\<not> digit CHR 0x22"
  by code_simp+

lemma dec_digits: "c \<in> set (dec n) \<Longrightarrow> digit c"
proof (induction n rule: dec.induct)
  case (1 n)
  show ?case
    using 1 by (subst (asm) dec.simps) (auto simp: digit_char split: if_splits)
qed

fun dec_value :: "string \<Rightarrow> nat" where
  "dec_value [] = 0"
| "dec_value (c # cs) = (of_char c - 48) * 10 ^ length cs + dec_value cs"

lemma dec_value_snoc: "dec_value (cs @ [c]) = dec_value cs * 10 + (of_char c - 48)"
  by (induction cs) (auto simp: algebra_simps)

lemma dec_value_dec: "dec_value (dec n) = n"
proof (induction n rule: dec.induct)
  case (1 n)
  show ?case
    using 1 by (subst dec.simps) (auto simp: dec_value_snoc)
qed

lemma dec_nonempty: "dec n \<noteq> []"
  by (subst dec.simps) simp

text \<open>What may follow a value: nothing, or a character that ends it.\<close>

definition stops :: "string \<Rightarrow> bool" where
  "stops r \<longleftrightarrow> r = [] \<or> hd r \<in> {CHR '','', CHR '']'', CHR ''}''}"

lemma takeWhile_digits: "stops r \<Longrightarrow> takeWhile digit (dec n @ r) = dec n"
  using dec_digits [of _ n] by (cases r) (auto simp: takeWhile_append stops_def)

lemma dec_split: "dec m @ r = dec n @ r' \<Longrightarrow> stops r \<Longrightarrow> stops r' \<Longrightarrow> m = n \<and> r = r'"
  using takeWhile_digits [of r m] takeWhile_digits [of r' n] dec_value_dec by (metis append_same_eq same_append_eq)

lemma int_text_hd: "\<exists>c cs. int_text n = c # cs \<and> (c = CHR ''-'' \<or> digit c)"
  using dec_nonempty [of "nat n"] dec_digits [of "hd (dec (nat n))" "nat n"]
  by (auto simp: int_text_def neq_Nil_conv)

lemma dec_no_minus: "dec n @ x \<noteq> CHR ''-'' # y"
  using dec_digits [of "CHR ''-''" n] dec_nonempty [of n] by (cases "dec n") auto

lemma int_split:
  assumes "int_text m @ r = int_text n @ r'" "stops r" "stops r'"
  shows "m = n \<and> r = r'"
proof (cases "m < 0"; cases "n < 0")
  assume "m < 0" "n < 0"
  then show ?thesis
    using assms dec_split [of "nat (- m)" r "nat (- n)" r'] by (simp add: int_text_def) linarith
next
  assume "m < 0" "\<not> n < 0"
  then show ?thesis
    using assms(1) dec_no_minus [of "nat n" r'] by (simp add: int_text_def) (metis append_Cons)
next
  assume "\<not> m < 0" "n < 0"
  then show ?thesis
    using assms(1) dec_no_minus [of "nat m" r] by (simp add: int_text_def)
next
  assume "\<not> m < 0" "\<not> n < 0"
  then show ?thesis
    using assms dec_split [of "nat m" r "nat n" r'] by (simp add: int_text_def) linarith
qed

definition hex_value :: "char \<Rightarrow> nat" where
  "hex_value c = length (takeWhile (\<lambda>d. d \<noteq> c) ''0123456789abcdef'')"

fun unescape :: "string \<Rightarrow> (char \<times> string) option" where
  "unescape [] = None"
| "unescape (c # cs) =
     (if c \<noteq> CHR 0x5C then Some (c, cs)
      else case cs of
        [] \<Rightarrow> None
      | d # ds \<Rightarrow>
          if d = CHR ''n'' then Some (CHR 0x0A, ds) else if d = CHR ''r'' then Some (CHR 0x0D, ds)
          else if d = CHR ''t'' then Some (CHR 0x09, ds) else if d = CHR ''b'' then Some (CHR 0x08, ds)
          else if d = CHR ''f'' then Some (CHR 0x0C, ds)
          else if d = CHR ''u'' then
            (case ds of _ # _ # h # l # es \<Rightarrow>
               Some (char_of (16 * hex_value h + hex_value l), es) | _ \<Rightarrow> None)
          else Some (d, ds))"

lemma hex_values: "\<forall>n \<in> set [0..<16]. hex_value (hex_digit n) = n"
  by code_simp

lemma hex_value_digit: "n < 16 \<Longrightarrow> hex_value (hex_digit n) = n"
  using hex_values by (simp del: upt_conv_Cons)

lemma unescape_escape: "unescape (escape_char q c @ x) = Some (c, x)"
proof -
  have "of_char c div 16 < (16 :: nat)"
    using nat_of_char_less_256 [of c] by (simp add: less_mult_imp_div_less)
  then have "char_of (16 * hex_value (hex_digit (of_char c div 16)) + hex_value (hex_digit (of_char c mod 16))) = c"
    by (simp add: hex_value_digit)
  then show ?thesis
    by (simp add: escape_char_def)
qed

lemma escape_not_quote: "escape_char q c @ x \<noteq> CHR 0x22 # y"
  by (simp add: escape_char_def)

lemma quote_split: "quote q s @ r = quote q t @ r' \<Longrightarrow> s = t \<and> r = r'"
proof (induction s arbitrary: t)
  case Nil
  then show ?case
    using escape_not_quote [symmetric] by (cases t) (auto simp: quote_def)
next
  case (Cons c s)
  show ?case
  proof (cases t)
    case Nil
    with Cons.prems show ?thesis
      using escape_not_quote [symmetric] escape_not_quote by (auto simp: quote_def)
  next
    case (Cons d t')
    have "escape_char q c @ (concat (map (escape_char q) s) @ CHR 0x22 # r) = escape_char q d @ (concat (map (escape_char q) t') @ CHR 0x22 # r')"
      using Cons.prems Cons by (simp add: quote_def)
    then have "c = d" "concat (map (escape_char q) s) @ CHR 0x22 # r = concat (map (escape_char q) t') @ CHR 0x22 # r'"
      by (metis option.inject prod.inject unescape_escape)+
    then show ?thesis
      using Cons.IH [of t'] Cons by (simp add: quote_def)
  qed
qed

subsection \<open>The text determines the value\<close>

text \<open>A printer whose texts can be told apart when something that stops a value follows.\<close>

definition readable :: "('a \<Rightarrow> string) \<Rightarrow> 'a \<Rightarrow> bool" where
  "readable f x \<longleftrightarrow> (\<forall>y r r'. f x @ r = f y @ r' \<longrightarrow> stops r \<longrightarrow> stops r' \<longrightarrow> x = y \<and> r = r')"

lemma readableD: "readable f x \<Longrightarrow> f x @ r = f y @ r' \<Longrightarrow> stops r \<Longrightarrow> stops r' \<Longrightarrow> x = y \<and> r = r'"
  by (simp add: readable_def)

lemma stops_Cons [simp]: "stops (c # r) \<longleftrightarrow> c \<in> {CHR '','', CHR '']'', CHR ''}''}"
  by (simp add: stops_def)

lemma commas_split:
  assumes "\<forall>x \<in> set xs. readable f x" "e \<in> {CHR '']'', CHR ''}''}" "\<And>x. f x \<noteq> [] \<and> hd (f x) \<noteq> e"
    and "commas (map f xs) @ e # r = commas (map f ys) @ e # r'"
  shows "xs = ys \<and> r = r'"
proof -
  have no: "commas (map f (y # ys')) @ e # a \<noteq> e # b" for y ys' a b
    using assms(3) [of y] by (cases ys'; cases "f y") auto
  show ?thesis
    using assms(1,4)
proof (induction xs arbitrary: ys rule: induct_list012)
  case 1
  show ?case
  proof (cases ys)
    case Nil
    with 1 show ?thesis by simp
  next
    case (Cons y ys')
    with 1 no [of y ys' r' r] show ?thesis by simp
  qed
next
  case (2 x)
  have "ys \<noteq> []"
    using 2(2) no [of x "[]" r r'] by fastforce
  then obtain y ys' where ys: "ys = y # ys'"
    by (meson neq_Nil_conv)
  show ?case
  proof (cases ys')
    case Nil
    then show ?thesis
      using readableD [of f x "e # r" y "e # r'"] 2 ys assms(2) by auto
  next
    case (Cons z zs)
    have "f x @ e # r = f y @ CHR '','' # (commas (map f (z # zs)) @ e # r')"
      using 2(2) ys Cons by simp
    then have "e # r = CHR '','' # (commas (map f (z # zs)) @ e # r')"
      using readableD [of f x "e # r" y] 2(1) assms(2) by auto
    then show ?thesis
      using assms(2) by auto
  qed
next
  case (3 x x2 xs)
  have "ys \<noteq> []"
    using 3(4) no [of x "x2 # xs" r r'] by fastforce
  then obtain y ys' where ys: "ys = y # ys'"
    by (meson neq_Nil_conv)
  let ?rest = "commas (map f (x2 # xs)) @ e # r"
  show ?case
  proof (cases ys')
    case Nil
    then have "f x @ CHR '','' # ?rest = f y @ e # r'"
      using 3(4) ys by simp
    then have "CHR '','' # ?rest = e # r'"
      using readableD [of f x "CHR '','' # ?rest" y "e # r'"] 3(3) assms(2) by auto
    then show ?thesis
      using assms(2) by auto
  next
    case (Cons z zs)
    have "f x @ CHR '','' # ?rest = f y @ CHR '','' # (commas (map f ys') @ e # r')"
      using 3(4) ys Cons by simp
    then have "x = y \<and> CHR '','' # ?rest = CHR '','' # (commas (map f ys') @ e # r')"
      using readableD [of f x "CHR '','' # ?rest" y "CHR '','' # (commas (map f ys') @ e # r')"] 3(3) by auto
    then show ?thesis
      using 3(2) [of ys'] 3(3) ys by simp
  qed
qed
qed

text \<open>The first character tells the constructor.\<close>

fun starts_with :: "json \<Rightarrow> char \<Rightarrow> bool" where
  "starts_with JNull c = (c = CHR ''n'')"
| "starts_with (JBool b) c = (c = CHR ''t'' \<or> c = CHR ''f'')"
| "starts_with (JInt n) c = (c = CHR ''-'' \<or> digit c)"
| "starts_with (JStr s) c = (c = CHR 0x22)"
| "starts_with (JArr xs) c = (c = CHR ''['')"
| "starts_with (JObj kvs) c = (c = CHR ''{'')"

lemma json_raw_opening: "\<exists>c cs. json_raw q j = c # cs \<and> starts_with j c"
  using int_text_hd by (cases j) (auto simp: quote_def)

lemma json_raw_hd: "json_raw q j \<noteq> [] \<and> hd (json_raw q j) \<notin> {CHR '']'', CHR ''}'', CHR '',''}"
  using json_raw_opening [of q j] by (cases j) auto

lemma opening_same:
  assumes "json_raw q a @ r = json_raw q b @ r'"
  shows "\<exists>c. starts_with a c \<and> starts_with b c"
  using json_raw_opening [of q a] json_raw_opening [of q b] assms by auto

lemma readable_member: "readable (json_raw q) v \<Longrightarrow> readable (\<lambda>(k, v). quote q k @ CHR '':'' # json_raw q v) (k, v)"
  unfolding readable_def by (auto dest!: quote_split)

lemma member_hd: "(\<lambda>(k, v). quote q k @ CHR '':'' # json_raw q v) kv \<noteq> [] \<and> hd ((\<lambda>(k, v). quote q k @ CHR '':'' # json_raw q v) kv) \<noteq> CHR ''}''"
  by (cases kv) (simp add: quote_def)

lemma json_raw_readable: "readable (json_raw q) a"
proof (induction a)
  case (JInt n)
  show ?case
    unfolding readable_def
  proof (intro allI impI)
    fix y r r' assume a: "json_raw q (JInt n) @ r = json_raw q y @ r'" "stops r" "stops r'"
    then obtain m where "y = JInt m"
      using opening_same [OF a(1)] by (cases y) auto
    with a int_split [of n r m r'] show "JInt n = y \<and> r = r'" by simp
  qed
next
  case (JArr xs)
  show ?case
    unfolding readable_def
  proof (intro allI impI)
    fix y r r' assume a: "json_raw q (JArr xs) @ r = json_raw q y @ r'"
    then obtain ys where "y = JArr ys"
      using opening_same [OF a] by (cases y) auto
    with a JArr show "JArr xs = y \<and> r = r'"
      using commas_split [of xs "json_raw q" "CHR '']''" r ys r'] json_raw_hd by auto
  qed
next
  case (JObj kvs)
  let ?f = "\<lambda>(k, v). quote q k @ CHR '':'' # json_raw q v"
  have m: "\<forall>kv \<in> set kvs. readable ?f kv"
    using JObj readable_member by fastforce
  show ?case
    unfolding readable_def
  proof (intro allI impI)
    fix y r r' assume a: "json_raw q (JObj kvs) @ r = json_raw q y @ r'"
    then obtain ys where "y = JObj ys"
      using opening_same [OF a] by (cases y) auto
    with a m show "JObj kvs = y \<and> r = r'"
      using commas_split [of kvs ?f "CHR ''}''" r ys r'] member_hd by auto
  qed
next
  case JNull
  show ?case
    unfolding readable_def
  proof (intro allI impI)
    fix y r r' assume a: "json_raw q JNull @ r = json_raw q y @ r'"
    then have "y = JNull"
      using opening_same [OF a] by (cases y) auto
    with a show "JNull = y \<and> r = r'" by simp
  qed
next
  case (JBool b)
  show ?case
    unfolding readable_def
  proof (intro allI impI)
    fix y r r' assume a: "json_raw q (JBool b) @ r = json_raw q y @ r'"
    then obtain b' where "y = JBool b'"
      using opening_same [OF a] by (cases y) auto
    with a show "JBool b = y \<and> r = r'" by (simp split: if_splits)
  qed
next
  case (JStr s)
  show ?case
    unfolding readable_def
  proof (intro allI impI)
    fix y r r' assume a: "json_raw q (JStr s) @ r = json_raw q y @ r'"
    then obtain t where "y = JStr t"
      using opening_same [OF a] by (cases y) auto
    with a quote_split [of q s r t r'] show "JStr s = y \<and> r = r'" by simp
  qed
qed

lemma json_raw_inject: "json_raw q a = json_raw q b \<longleftrightarrow> a = b"
  using readableD [OF json_raw_readable [of q a], of "[]" b "[]"] by (auto simp: stops_def)

lemma json_dumps_inject: "json_dumps a = json_dumps b \<longleftrightarrow> sort_keys a = sort_keys b"
  by (simp add: json_dumps_def json_raw_inject)

lemma json_dumps_ascii_inject: "json_dumps_ascii a = json_dumps_ascii b \<longleftrightarrow> sort_keys a = sort_keys b"
  by (simp add: json_dumps_ascii_def json_raw_inject)

text \<open>Members with different keys are the same in the sorted object as in the object.\<close>

lemma map_of_sorted:
  assumes "distinct (map fst kvs)"
  shows "map_of (sort_key fst kvs) = map_of kvs"
proof
  fix k
  have "distinct (map fst (sort_key fst kvs))"
    using assms by (simp add: distinct_map)
  then have "map_of (sort_key fst kvs) k = Some v \<longleftrightarrow> map_of kvs k = Some v" for v
    using assms by simp
  then show "map_of (sort_key fst kvs) k = map_of kvs k"
    by (metis not_Some_eq)
qed

lemma json_dumps_object:
  assumes "json_dumps (JObj d) = json_dumps (JObj d')" "distinct (map fst d)" "distinct (map fst d')"
  shows "map_option sort_keys (map_of d k) = map_option sort_keys (map_of d' k)"
proof -
  let ?m = "map (\<lambda>(k, v). (k, sort_keys v))"
  have keys: "map fst (?m xs) = map fst xs" for xs :: dict
    by (induction xs) auto
  have "map_of (?m xs) k = map_option sort_keys (map_of xs k)" for xs
    by (induction xs) auto
  moreover have "map_of (?m d) = map_of (?m d')"
    using assms map_of_sorted [of "?m d"] map_of_sorted [of "?m d'"] unfolding json_dumps_inject keys by simp
  ultimately show ?thesis by metis
qed

end
