(* ===== verification/Contracts.thy ===== *)
theory Contracts
  imports Prelude
begin

text \<open>
  The shared data contracts of \<open>contracts/envelopes.py\<close>, \<open>contracts/provenance.py\<close> and
  \<open>contracts/documents.py\<close>: one record per frozen dataclass and one datatype per enum, with the
  fields in the source's order.  Timestamps are integers (microseconds); a JSON-shaped
  \<open>Mapping[str, Any]\<close> is a \<open>dict\<close>.
\<close>

record IdentityEnvelope =
  subject :: string
  actor_kind :: string
  authenticated :: bool
  auth_method :: string
  role_claims :: "string list"
  groups :: "string list"
  tenant :: "string option"
  on_behalf_of :: "string option"
  impersonation :: "string option"
  break_glass :: bool
  source_of_authority :: "string option"
  attestation :: "string option"

record ProvenanceEnvelope =
  pv_artifact_type :: string
  pv_schema_version :: int
  pv_producing_component :: string
  pv_tool_versions :: "(string \<times> string) list"
  pv_dsl_operation_catalog_version :: "string option"
  pv_source_snapshots :: "string list"
  pv_event_registry_snapshot :: "string option"
  pv_doc_registry_snapshot :: "string option"
  pv_evaluation_dataset_ref :: "string option"
  pv_holdout_partition_spec :: "string option"
  pv_random_seed :: "int option"
  pv_candidates_explored_count :: "int option"
  pv_external_refs :: "string list"

record EventEnvelope =
  ev_event_id :: string
  ev_global_seq :: int
  ev_aggregate :: string
  ev_aggregate_id :: string
  ev_stream_version :: int
  ev_type :: string
  ev_schema_version :: int
  ev_table_version :: int
  ev_actor :: IdentityEnvelope
  ev_payload :: dict
  ev_provenance :: ProvenanceEnvelope
  ev_occurred_at :: int
  ev_recorded_at :: int
  ev_request_id :: "string option"
  ev_feature_id :: "string option"
  ev_run_id :: "string option"
  ev_overlay_fact_id :: "string option"
  ev_feature_contract_id :: "string option"
  ev_caused_by :: "string option"

record NewEvent =
  ne_aggregate :: string
  ne_aggregate_id :: "string option"
  ne_type :: string
  ne_schema_version :: int
  ne_payload :: dict
  ne_actor :: IdentityEnvelope
  ne_provenance :: ProvenanceEnvelope
  ne_request_id :: "string option"
  ne_feature_id :: "string option"
  ne_run_id :: "string option"
  ne_overlay_fact_id :: "string option"
  ne_feature_contract_id :: "string option"
  ne_caused_by :: "string option"
  ne_occurred_at :: "int option"

record NewDocument =
  nd_doc_id :: string
  nd_stage :: string
  nd_schema_version :: int
  nd_branch_role :: string
  nd_content_hash :: string
  nd_body_classification :: string
  nd_provenance :: ProvenanceEnvelope
  nd_body_ref :: "string option"
  nd_derived_from :: "string list"
  nd_supersedes :: "string list"
  nd_reject_reason :: "string option"

datatype Disposition = OK | RETRYABLE | PERMANENT

record NewExternalCommand =
  xc_integration :: string
  xc_idempotency_key :: string
  xc_request_payload :: dict
  xc_expected_run_id :: "string option"
  xc_expected_stream_version :: "int option"
  xc_expected_task_id :: "string option"
  xc_job_handle :: "string option"
  xc_dedup_supported :: bool

record NewTimer =
  nt_kind :: string
  nt_fire_at :: int
  nt_idempotency_key :: string
  nt_task_id :: "string option"
  nt_business_calendar :: "string option"
  nt_cas_task_version :: "int option"
  nt_payload :: dict

record NewActivation =
  na_feature_id :: string
  na_feature_version_id :: string
  na_use_case :: string
  na_base_feature_version_id :: "string option"
  na_approval_type :: string
  na_expires_at :: "int option"
  na_provenance :: "ProvenanceEnvelope option"

record HandlerResult =
  hr_disposition :: Disposition
  hr_new_events :: "NewEvent list"
  hr_document :: "NewDocument option"
  hr_external_commands :: "NewExternalCommand list"
  hr_timers :: "NewTimer list"
  hr_activations :: "NewActivation list"
  hr_error :: "string option"

record Command =
  cm_action :: string
  cm_aggregate :: string
  cm_aggregate_id :: "string option"
  cm_args :: dict
  cm_actor :: IdentityEnvelope
  cm_idempotency_key :: string
  cm_expected_version :: "int option"

record CommandResult =
  accepted :: bool
  cr_aggregate_id :: "string option"
  produced_event_ids :: "string list"
  denied_reason :: "string option"

record GuardOutcome =
  go_passed :: bool
  go_resolved_inputs :: dict
  go_per_predicate :: "(string \<times> bool) list"

record GateTaskSpec =
  gs_gate :: string
  gs_required_inputs :: "string list"
  gs_eligible_assignees :: dict
  gs_allowed_responses :: "string list"
  gs_run_id :: "string option"
  gs_feature_id :: "string option"
  gs_quorum_required :: int
  gs_quorum_of_role :: "string option"
  gs_delegation_allowed :: bool
  gs_sla :: "string option"
  gs_fact_key :: "string option"
  gs_draft_event_id :: "string option"
  gs_target_event_id :: "string option"
  gs_evidence_ref :: "string option"

record SignalResult =
  sr_task_id :: string
  sr_status :: string
  sr_counted :: bool
  sr_quorum_met :: bool

text \<open>\<open>CommandResult(accepted=True, ...)\<close> and \<open>CommandResult(accepted=False, denied_reason=...)\<close>.\<close>

abbreviation accept :: "string option \<Rightarrow> string list \<Rightarrow> CommandResult" where
  "accept aid ids \<equiv> \<lparr>accepted = True, cr_aggregate_id = aid, produced_event_ids = ids, denied_reason = None\<rparr>"

abbreviation refuse :: "string option \<Rightarrow> string \<Rightarrow> CommandResult" where
  "refuse aid why \<equiv> \<lparr>accepted = False, cr_aggregate_id = aid, produced_event_ids = [], denied_reason = Some why\<rparr>"

definition STAGES :: "string list" where
  "STAGES = [''DRAFT_CONTRACT'', ''ASSUMPTION_LEDGER'', ''CONFIRMED_CONTRACT'', ''MAPPED_CONTRACT'',
    ''FEATURE_PLAN'', ''CANDIDATE_SQL'', ''VALIDATION_REPORT'', ''SANDBOX_RESULT'', ''DQ_REPORT'',
    ''EVALUATION_REPORT'', ''RISK_ASSESSMENT'', ''EXPLAINABILITY'', ''MONITORING_SPEC'', ''APPROVAL_RECORD'']"

definition BRANCH_ROLES :: "string list" where
  "BRANCH_ROLES = [''candidate'', ''primary'', ''rejected'', ''repair'']"

definition BODY_CLASSIFICATIONS :: "string list" where
  "BODY_CLASSIFICATIONS = [''pii-erasable'', ''governance-retained'']"

end
