(* ===== verification/Identity.thy ===== *)
theory Identity
  imports Contracts
begin

text \<open>
  Who is acting: \<open>identity/_trust.py\<close> and \<open>identity/build.py\<close>.  The trust capability is a
  module-private object compared by identity (\<open>is\<close>), so the only thing the code observes of the
  \<open>_capability\<close> argument is whether it is that object: the model passes that bit.
\<close>

definition mint_trusted_identity :: "IdentityEnvelope \<Rightarrow> IdentityEnvelope" where
  "mint_trusted_identity common = common\<lparr>authenticated := True\<rparr>"

definition validate_identity :: "IdentityEnvelope \<Rightarrow> exn + unit" where
  "validate_identity env =
     (if \<not> authenticated env then Inl (IdentityError ''actor not authenticated'')
      else if actor_kind env = ''service'' then
        (if auth_method env \<notin> {''workload-identity'', ''internal''}
         then Inl (IdentityError ''service actor must authenticate via workload-identity or internal trust root'')
         else if attestation env = None \<or> attestation env = Some []
         then Inl (IdentityError ''service role_claims must be attested by a signed deploy identity, not self-asserted'')
         else Inr ())
      else if actor_kind env = ''human'' then
        (if auth_method env \<notin> {''oidc'', ''password''}
         then Inl (IdentityError ''human actor must authenticate via oidc or password'')
         else Inr ())
      else Inl (IdentityError (''unknown actor_kind: '' @ actor_kind env)))"

definition build_human_identity ::
  "string \<Rightarrow> string list \<Rightarrow> string \<Rightarrow> string list \<Rightarrow> string option \<Rightarrow> string option \<Rightarrow> string option
   \<Rightarrow> string option \<Rightarrow> bool \<Rightarrow> bool \<Rightarrow> exn + IdentityEnvelope" where
  "build_human_identity subj roles auth grps tnt soa obo imp bg capability_is_trust =
     (if take 5 subj \<noteq> ''user:'' then Inl (IdentityError ''human subject must be prefixed user:'')
      else
        (let env = \<lparr>subject = subj, actor_kind = ''human'', authenticated = capability_is_trust,
               auth_method = auth, role_claims = roles, groups = grps, tenant = tnt,
               on_behalf_of = obo, impersonation = imp, break_glass = bg,
               source_of_authority = soa, attestation = None\<rparr>
         in if capability_is_trust then chain (validate_identity env) (\<lambda>_. Inr env) else Inr env))"

definition build_service_identity ::
  "string \<Rightarrow> string list \<Rightarrow> string \<Rightarrow> string list \<Rightarrow> string option \<Rightarrow> string option \<Rightarrow> bool
   \<Rightarrow> exn + IdentityEnvelope" where
  "build_service_identity subj roles att grps tnt soa capability_is_trust =
     (if take 8 subj \<noteq> ''service:'' then Inl (IdentityError ''service subject must be prefixed service:'')
      else
        (let env = \<lparr>subject = subj, actor_kind = ''service'', authenticated = capability_is_trust,
               auth_method = ''workload-identity'', role_claims = roles, groups = grps, tenant = tnt,
               on_behalf_of = None, impersonation = None, break_glass = False,
               source_of_authority = soa, attestation = Some att\<rparr>
         in if capability_is_trust then chain (validate_identity env) (\<lambda>_. Inr env) else Inr env))"

text \<open>What a valid principal is, as one predicate.\<close>

definition valid_principal :: "IdentityEnvelope \<Rightarrow> bool" where
  "valid_principal env \<longleftrightarrow> authenticated env \<and>
     (actor_kind env = ''service'' \<and> auth_method env \<in> {''workload-identity'', ''internal''}
        \<and> (\<exists>a. attestation env = Some a \<and> a \<noteq> [])
      \<or> actor_kind env = ''human'' \<and> auth_method env \<in> {''oidc'', ''password''})"

lemma validate_identity_Inr: "validate_identity env = Inr () \<longleftrightarrow> valid_principal env"
  by (cases "attestation env") (auto simp: validate_identity_def valid_principal_def)

lemma validate_identity_cases:
  "validate_identity env = Inr () \<or> (\<exists>msg. validate_identity env = Inl (IdentityError msg))"
  by (auto simp: validate_identity_def)

text \<open>
  The sealed trust boundary: without the capability neither builder can produce an authenticated
  envelope, and with it every envelope a builder returns passes \<open>validate_identity\<close>.
\<close>

lemma build_human_boundary:
  "build_human_identity subj roles auth grps tnt soa obo imp bg cap = Inr env \<Longrightarrow>
     authenticated env = cap \<and> (cap \<longrightarrow> validate_identity env = Inr ()) \<and> actor_kind env = ''human''"
  by (auto simp: build_human_identity_def Let_def chain_eq_Inr split: if_splits)

lemma build_service_boundary:
  "build_service_identity subj roles att grps tnt soa cap = Inr env \<Longrightarrow>
     authenticated env = cap \<and> (cap \<longrightarrow> validate_identity env = Inr ()) \<and> actor_kind env = ''service''"
  by (auto simp: build_service_identity_def Let_def chain_eq_Inr split: if_splits)

text \<open>
  C30: the trust boundary is sealed.  Whatever arguments the two identity builders get, the envelope
  they return is authenticated exactly when the caller holds the trust capability, and an
  authenticated envelope from a builder always passes \<open>validate_identity\<close>.
\<close>

theorem sealed_trust_boundary:
  assumes "build_human_identity subj roles auth grps tnt soa obo imp bg cap = Inr env
    \<or> build_service_identity subj roles att grps tnt soa cap = Inr env"
  shows "authenticated env = cap \<and> (authenticated env \<longrightarrow> validate_identity env = Inr ())"
  using assms build_human_boundary build_service_boundary by blast

theorem sealed_trust_boundary_witness:
  "authenticated (projr (build_service_identity ''service:worker'' [''workflow''] ''sig'' [] None None True))"
proof -
  have "build_service_identity ''service:worker'' [''workflow''] ''sig'' [] None None True =
      Inr (projr (build_service_identity ''service:worker'' [''workflow''] ''sig'' [] None None True))"
    by (simp add: build_service_identity_def validate_identity_def Let_def)
  from sealed_trust_boundary [OF disjI2, OF this] show ?thesis by simp
qed

end
