(* ===== verification/Serde.thy ===== *)
theory Serde
  imports Identity
begin

text \<open>
  \<open>events/serde.py\<close>: the \<open>jsonb\<close> encodings of the actor and the provenance of an event, their
  decodings, and the decoding of an \<open>events\<close> row.  A \<open>jsonb\<close> column is modelled as the JSON value
  written to it.  Where Python would carry a stored value of an unexpected type along, the typed
  model reads the field's default; rows written by \<open>append_event\<close> never have such a value.
\<close>

definition identity_to_jsonb :: "IdentityEnvelope \<Rightarrow> dict" where
  "identity_to_jsonb env =
     [(''subject'', JStr (subject env)),
      (''actor_kind'', JStr (actor_kind env)),
      (''authenticated'', JBool (authenticated env)),
      (''auth_method'', JStr (auth_method env)),
      (''role_claims'', JArr (map JStr (role_claims env))),
      (''groups'', JArr (map JStr (groups env))),
      (''tenant'', ostr (tenant env)),
      (''on_behalf_of'', ostr (on_behalf_of env)),
      (''impersonation'', ostr (impersonation env)),
      (''break_glass'', JBool (break_glass env)),
      (''source_of_authority'', ostr (source_of_authority env)),
      (''attestation'', ostr (attestation env))]"

definition identity_from_jsonb :: "dict \<Rightarrow> exn + IdentityEnvelope" where
  "identity_from_jsonb d =
     chain (dict_str d ''subject'') (\<lambda>subj.
     chain (dict_str d ''actor_kind'') (\<lambda>kind.
     chain (dict_str d ''auth_method'') (\<lambda>auth.
     (let common = \<lparr>subject = subj, actor_kind = kind, authenticated = False, auth_method = auth,
            role_claims = as_strs (dget_or d ''role_claims'' (JArr [])),
            groups = as_strs (dget_or d ''groups'' (JArr [])),
            tenant = as_ostr (dget d ''tenant''),
            on_behalf_of = as_ostr (dget d ''on_behalf_of''),
            impersonation = as_ostr (dget d ''impersonation''),
            break_glass = truthy (dget_or d ''break_glass'' (JBool False)),
            source_of_authority = as_ostr (dget d ''source_of_authority''),
            attestation = as_ostr (dget d ''attestation'')\<rparr>
      in chain (dict_item d ''authenticated'') (\<lambda>auth.
         if truthy auth then Inr (mint_trusted_identity common) else Inr common)))))"

definition provenance_to_jsonb :: "ProvenanceEnvelope \<Rightarrow> dict" where
  "provenance_to_jsonb p =
     [(''artifact_type'', JStr (pv_artifact_type p)),
      (''schema_version'', JInt (pv_schema_version p)),
      (''producing_component'', JStr (pv_producing_component p)),
      (''tool_versions'', JObj (map (\<lambda>(k, v). (k, JStr v)) (pv_tool_versions p))),
      (''dsl_operation_catalog_version'', ostr (pv_dsl_operation_catalog_version p)),
      (''source_snapshots'', JArr (map JStr (pv_source_snapshots p))),
      (''event_registry_snapshot'', ostr (pv_event_registry_snapshot p)),
      (''doc_registry_snapshot'', ostr (pv_doc_registry_snapshot p)),
      (''evaluation_dataset_ref'', ostr (pv_evaluation_dataset_ref p)),
      (''holdout_partition_spec'', ostr (pv_holdout_partition_spec p)),
      (''random_seed'', oint (pv_random_seed p)),
      (''candidates_explored_count'', oint (pv_candidates_explored_count p)),
      (''external_refs'', JArr (map JStr (pv_external_refs p)))]"

definition str_items :: "json \<Rightarrow> (string \<times> string) list" where
  "str_items j = List.map_filter (\<lambda>(k, v). map_option (Pair k) (as_ostr v)) (as_dict j)"

definition provenance_from_jsonb :: "dict \<Rightarrow> exn + ProvenanceEnvelope" where
  "provenance_from_jsonb d =
     chain (dict_str d ''artifact_type'') (\<lambda>art.
     chain (dict_item d ''schema_version'') (\<lambda>sv.
     chain (dict_str d ''producing_component'') (\<lambda>comp.
     Inr \<lparr>pv_artifact_type = art,
       pv_schema_version = (case as_oint sv of None \<Rightarrow> 0 | Some n \<Rightarrow> n),
       pv_producing_component = comp,
       pv_tool_versions = str_items (dget_or d ''tool_versions'' (JObj [])),
       pv_dsl_operation_catalog_version = as_ostr (dget d ''dsl_operation_catalog_version''),
       pv_source_snapshots = as_strs (dget_or d ''source_snapshots'' (JArr [])),
       pv_event_registry_snapshot = as_ostr (dget d ''event_registry_snapshot''),
       pv_doc_registry_snapshot = as_ostr (dget d ''doc_registry_snapshot''),
       pv_evaluation_dataset_ref = as_ostr (dget d ''evaluation_dataset_ref''),
       pv_holdout_partition_spec = as_ostr (dget d ''holdout_partition_spec''),
       pv_random_seed = as_oint (dget d ''random_seed''),
       pv_candidates_explored_count = as_oint (dget d ''candidates_explored_count''),
       pv_external_refs = as_strs (dget_or d ''external_refs'' (JArr []))\<rparr>)))"

text \<open>A row of the \<open>events\<close> table: the envelope with its two \<open>jsonb\<close> columns still encoded.\<close>

record event_row =
  er_event_id :: string
  er_global_seq :: int
  er_aggregate :: string
  er_aggregate_id :: string
  er_stream_version :: int
  er_type :: string
  er_schema_version :: int
  er_table_version :: int
  er_actor :: dict
  er_payload :: dict
  er_provenance :: dict
  er_occurred_at :: int
  er_recorded_at :: int
  er_request_id :: "string option"
  er_feature_id :: "string option"
  er_run_id :: "string option"
  er_overlay_fact_id :: "string option"
  er_feature_contract_id :: "string option"
  er_caused_by :: "string option"

definition row_to_event :: "event_row \<Rightarrow> exn + EventEnvelope" where
  "row_to_event row =
     chain (identity_from_jsonb (er_actor row)) (\<lambda>actor.
     chain (provenance_from_jsonb (er_provenance row)) (\<lambda>prov.
     Inr \<lparr>ev_event_id = er_event_id row,
       ev_global_seq = er_global_seq row,
       ev_aggregate = er_aggregate row,
       ev_aggregate_id = er_aggregate_id row,
       ev_stream_version = er_stream_version row,
       ev_type = er_type row,
       ev_schema_version = er_schema_version row,
       ev_table_version = er_table_version row,
       ev_actor = actor,
       ev_payload = er_payload row,
       ev_provenance = prov,
       ev_occurred_at = er_occurred_at row,
       ev_recorded_at = er_recorded_at row,
       ev_request_id = er_request_id row,
       ev_feature_id = er_feature_id row,
       ev_run_id = er_run_id row,
       ev_overlay_fact_id = er_overlay_fact_id row,
       ev_feature_contract_id = er_feature_contract_id row,
       ev_caused_by = er_caused_by row\<rparr>))"

lemma str_items_encode [simp]: "str_items (JObj (map (\<lambda>(k, v). (k, JStr v)) kvs)) = kvs"
  by (induction kvs) (auto simp: str_items_def map_filter_simps)

lemma identity_roundtrip [simp]: "identity_from_jsonb (identity_to_jsonb env) = Inr env"
  by (cases env) (simp add: identity_from_jsonb_def identity_to_jsonb_def mint_trusted_identity_def Let_def)

lemma provenance_roundtrip [simp]: "provenance_from_jsonb (provenance_to_jsonb p) = Inr p"
  by (cases p) (simp add: provenance_from_jsonb_def provenance_to_jsonb_def)

text \<open>Decoding never promotes: an unauthenticated stored actor stays unauthenticated.\<close>

lemma identity_from_jsonb_authenticated:
  "identity_from_jsonb d = Inr env \<Longrightarrow> authenticated env \<longleftrightarrow> truthy (dget d ''authenticated'')"
  by (auto simp: identity_from_jsonb_def Let_def chain_eq_Inr mint_trusted_identity_def
        dict_item_def dget_def split: if_splits option.splits)

definition decodable :: "event_row \<Rightarrow> bool" where
  "decodable row \<longleftrightarrow> (\<exists>e. row_to_event row = Inr e)"

text \<open>The envelope a decodable row decodes to.\<close>

definition event_of :: "event_row \<Rightarrow> EventEnvelope" where
  "event_of row = projr (row_to_event row)"

lemma decodable_event_of: "decodable row \<Longrightarrow> row_to_event row = Inr (event_of row)"
  by (auto simp: decodable_def event_of_def)

lemma event_of_fields:
  assumes "decodable row"
  shows "ev_type (event_of row) = er_type row"
    and "ev_stream_version (event_of row) = er_stream_version row"
    and "ev_global_seq (event_of row) = er_global_seq row"
    and "ev_aggregate (event_of row) = er_aggregate row"
    and "ev_aggregate_id (event_of row) = er_aggregate_id row"
    and "ev_event_id (event_of row) = er_event_id row"
    and "ev_payload (event_of row) = er_payload row"
    and "ev_request_id (event_of row) = er_request_id row"
    and "ev_run_id (event_of row) = er_run_id row"
    and "ev_table_version (event_of row) = er_table_version row"
    and "ev_schema_version (event_of row) = er_schema_version row"
  using assms unfolding decodable_def event_of_def
  by (auto simp: row_to_event_def chain_eq_Inr)

lemma map_row_to_event:
  "(\<And>r. r \<in> set rows \<Longrightarrow> decodable r) \<Longrightarrow> map_chain row_to_event rows = Inr (map event_of rows)"
  by (rule map_chain_Inr) (rule decodable_event_of, simp)

text \<open>
  The \<open>jsonb\<close> encodings of an event's actor and provenance decode to what was encoded.
\<close>

theorem serde_roundtrip:
  "identity_from_jsonb (identity_to_jsonb env) = Inr env \<and> provenance_from_jsonb (provenance_to_jsonb p) = Inr p"
  by simp

end
