(* ===== verification/Ids.thy ===== *)
theory Ids
  imports Prelude "HOL-Library.Char_ord" "HOL-Library.List_Lexorder"
begin

text \<open>
  Identifier minting, \<open>aggregates/ids.py\<close>: fixed-width Crockford base 32 and the concept key
  normalisation.  The clock and the random source are inputs of \<open>ulid_text\<close>.
\<close>

definition CROCKFORD :: string where
  "CROCKFORD = ''0123456789ABCDEFGHJKMNPQRSTVWXYZ''"

text \<open>\<open>for _ in range(length): out = _CROCKFORD[value & 31] + out; value >>= 5\<close>.\<close>

fun encode_loop :: "nat \<Rightarrow> nat \<Rightarrow> string \<Rightarrow> string" where
  "encode_loop value 0 out = out"
| "encode_loop value (Suc k) out = encode_loop (value div 32) k (CROCKFORD ! (value mod 32) # out)"

definition encode :: "nat \<Rightarrow> nat \<Rightarrow> string" where
  "encode value len = encode_loop value len []"

text \<open>\<open>_ulid()\<close> with the millisecond clock and the 80-bit random integer it reads.\<close>

definition ulid_text :: "nat \<Rightarrow> nat \<Rightarrow> string" where
  "ulid_text ts rand = encode ts 10 @ encode rand 16"

definition mint_id_text :: "string \<Rightarrow> nat \<Rightarrow> nat \<Rightarrow> string" where
  "mint_id_text pre ts rand = pre @ ''_'' @ ulid_text ts rand"

text \<open>
  \<open>normalize_concept_key\<close>: \<open>strip().lower()\<close>, runs of characters outside \<open>[a-z0-9]\<close> become one
  blank, the ends are stripped, and each run of blanks becomes one dash.  After the substitution
  the only white space is the single blank between two alphanumeric runs.
\<close>

definition is_key_char :: "char \<Rightarrow> bool" where
  "is_key_char c \<longleftrightarrow> CHR ''a'' \<le> c \<and> c \<le> CHR ''z'' \<or> CHR ''0'' \<le> c \<and> c \<le> CHR ''9''"

definition lower_char :: "char \<Rightarrow> char" where
  "lower_char c = (let n = of_char c :: nat in
     if 65 \<le> n \<and> n \<le> 90 \<or> 192 \<le> n \<and> n \<le> 222 \<and> n \<noteq> 215 then char_of (n + 32) else c)"

definition is_space_char :: "char \<Rightarrow> bool" where
  "is_space_char c \<longleftrightarrow> of_char c \<in> {9, 10, 11, 12, 13, 28, 29, 30, 31, 32, 133, 160 :: nat}"

definition strip :: "string \<Rightarrow> string" where
  "strip s = rev (dropWhile is_space_char (rev (dropWhile is_space_char s)))"

text \<open>\<open>re.sub(r"[^a-z0-9]+", " ", s)\<close> and \<open>re.sub(r"\s+", "-", s)\<close>.\<close>

function sub_runs :: "(char \<Rightarrow> bool) \<Rightarrow> char \<Rightarrow> string \<Rightarrow> string" where
  "sub_runs p r [] = []"
| "sub_runs p r (c # cs) = (if p c then r # sub_runs p r (dropWhile p cs) else c # sub_runs p r cs)"
  by pat_completeness auto
termination
  by (relation "measure (\<lambda>(p, r, cs). length cs)") (auto simp: length_dropWhile_le less_Suc_eq_le)

definition normalize_concept_key :: "string \<Rightarrow> string" where
  "normalize_concept_key concept =
     (let s1 = map lower_char (strip concept);
          s2 = strip (sub_runs (\<lambda>c. \<not> is_key_char c) CHR '' '' s1)
      in sub_runs is_space_char CHR ''-'' s2)"

subsection \<open>The encoding\<close>

lemma CROCKFORD_length [simp]: "length CROCKFORD = 32"
  by (simp add: CROCKFORD_def)

lemma encode_loop_acc: "encode_loop v k out = encode_loop v k [] @ out"
proof (induction k arbitrary: v out)
  case (Suc k)
  show ?case
    using Suc [of "v div 32" "CROCKFORD ! (v mod 32) # out"] Suc [of "v div 32" "[CROCKFORD ! (v mod 32)]"]
    by simp
qed simp

lemma encode_0 [simp]: "encode v 0 = []"
  by (simp add: encode_def)

lemma encode_Suc: "encode v (Suc k) = encode (v div 32) k @ [CROCKFORD ! (v mod 32)]"
  by (simp add: encode_def encode_loop_acc [where out = "[_]"])

lemma length_encode [simp]: "length (encode v k) = k"
  by (induction k arbitrary: v) (auto simp: encode_Suc)

lemma CROCKFORD_sorted: "i < j \<Longrightarrow> j < 32 \<Longrightarrow> CROCKFORD ! i < CROCKFORD ! j"
proof -
  assume ij: "i < j" "j < 32"
  have "sorted_wrt (<) CROCKFORD"
    by (simp add: CROCKFORD_def less_char_def)
  then show ?thesis
    using ij by (simp add: sorted_wrt_nth_less)
qed

lemma list_less_append_left: "a < (b :: 'a :: linorder list) \<Longrightarrow> length b \<le> length a \<Longrightarrow> a @ x < b @ y"
  unfolding list_less_def by (rule lexord_sufI)

lemma encode_mono:
  assumes "v < w" and "w < 32 ^ k"
  shows "encode v k < encode w k"
  using assms
proof (induction k arbitrary: v w)
  case (Suc k)
  consider (hi) "v div 32 < w div 32" | (lo) "v div 32 = w div 32" "v mod 32 < w mod 32"
    using Suc.prems(1) by (metis div_le_mono div_mult_mod_eq less_imp_le_nat nat_add_left_cancel_less
        order_le_imp_less_or_eq)
  then show ?case
  proof cases
    case hi
    have "w div 32 < 32 ^ k"
      using Suc.prems(2) by (simp add: less_mult_imp_div_less)
    with hi have "encode (v div 32) k < encode (w div 32) k"
      by (rule Suc.IH)
    then show ?thesis
      by (simp add: encode_Suc list_less_append_left)
  next
    case lo
    then have "CROCKFORD ! (v mod 32) < CROCKFORD ! (w mod 32)"
      by (intro CROCKFORD_sorted) auto
    with lo show ?thesis
      by (simp add: encode_Suc list_less_def lexord_append_leftI)
  qed
qed simp

lemma encode_inject:
  assumes "v < 32 ^ k" and "w < 32 ^ k"
  shows "encode v k = encode w k \<longleftrightarrow> v = w"
  using encode_mono [of v w k] encode_mono [of w v k] assms
  by (metis less_irrefl linorder_neqE_nat)

text \<open>
  Minted identifiers sort by time, and distinct draws at one instant stay distinct.  The
  bound \<open>32 ^ 10\<close> milliseconds lies in the year 37000; \<open>32 ^ 16 = 2 ^ 80\<close> is the draw's range.
\<close>

lemma ulid_text_mono:
  assumes "ts < ts'" and "ts' < 32 ^ 10"
  shows "ulid_text ts r < ulid_text ts' r'"
  unfolding ulid_text_def
  by (rule list_less_append_left [OF encode_mono [OF assms]]) simp

lemma ulid_text_inject:
  assumes "ts < 32 ^ 10" "ts' < 32 ^ 10" "r < 2 ^ 80" "r' < 2 ^ 80"
  shows "ulid_text ts r = ulid_text ts' r' \<longleftrightarrow> ts = ts' \<and> r = r'"
proof -
  have "(2 :: nat) ^ 80 = 32 ^ 16"
    by simp
  then show ?thesis
    using assms by (auto simp: ulid_text_def append_eq_append_conv encode_inject)
qed

subsection \<open>Concept keys\<close>

text \<open>Alphanumeric runs joined by single separators, with no separator at either end.\<close>

definition seg_chars :: "char \<Rightarrow> string \<Rightarrow> bool" where
  "seg_chars sep s \<longleftrightarrow>
     (\<forall>c \<in> set s. is_key_char c \<or> c = sep) \<and> successively (\<lambda>a b. is_key_char a \<or> is_key_char b) s"

definition key_shape :: "char \<Rightarrow> string \<Rightarrow> bool" where
  "key_shape sep s \<longleftrightarrow> seg_chars sep s \<and> (s \<noteq> [] \<longrightarrow> is_key_char (hd s) \<and> is_key_char (last s))"

lemma space_not_key: "is_space_char c \<Longrightarrow> \<not> is_key_char c"
  by (auto simp: is_space_char_def is_key_char_def less_eq_char_def)

lemma is_space_char_blank [simp]: "is_space_char CHR '' ''"
  by (simp add: is_space_char_def)

lemma dash_props [simp]: "\<not> is_key_char CHR ''-''" "\<not> is_space_char CHR ''-''" "\<not> is_key_char CHR '' ''"
  by (simp_all add: is_space_char_def is_key_char_def less_eq_char_def)

lemma lower_char_key: "is_key_char c \<or> c = CHR ''-'' \<Longrightarrow> lower_char c = c"
  by (auto simp: lower_char_def is_key_char_def less_eq_char_def Let_def)

lemma seg_chars_Cons:
  "seg_chars sep (c # cs) \<longleftrightarrow> (is_key_char c \<or> c = sep) \<and> seg_chars sep cs \<and>
     (cs \<noteq> [] \<longrightarrow> is_key_char c \<or> is_key_char (hd cs))"
  by (cases cs) (auto simp: seg_chars_def)

lemma hd_sub_runs: "cs \<noteq> [] \<Longrightarrow> \<not> p (hd cs) \<Longrightarrow> sub_runs p r cs \<noteq> [] \<and> hd (sub_runs p r cs) = hd cs"
  by (cases cs) auto

lemma sub_runs_Nil_iff [simp]: "sub_runs p r cs = [] \<longleftrightarrow> cs = []"
  by (cases cs) auto

lemma seg_chars_sub_runs: "seg_chars r (sub_runs (\<lambda>c. \<not> is_key_char c) r cs)"
proof (induction "\<lambda>c. \<not> is_key_char c" r cs rule: sub_runs.induct)
  case (2 r c cs)
  show ?case
  proof (cases "is_key_char c")
    case True
    with 2 show ?thesis by (simp add: seg_chars_Cons)
  next
    case False
    have "dropWhile (\<lambda>c. \<not> is_key_char c) cs \<noteq> [] \<longrightarrow> is_key_char (hd (dropWhile (\<lambda>c. \<not> is_key_char c) cs))"
      using hd_dropWhile [of "\<lambda>c. \<not> is_key_char c" cs] by auto
    with False 2 show ?thesis
      by (auto simp: seg_chars_Cons hd_sub_runs)
  qed
qed (simp add: seg_chars_def)

lemma seg_chars_suffix: "seg_chars sep (xs @ ys) \<Longrightarrow> seg_chars sep ys"
  by (auto simp: seg_chars_def successively_append_iff)

lemma seg_chars_rev: "seg_chars sep (rev s) \<longleftrightarrow> seg_chars sep s"
  by (auto simp: seg_chars_def disj_commute)

lemma seg_chars_dropWhile: "seg_chars sep s \<Longrightarrow> seg_chars sep (dropWhile p s)"
  using seg_chars_suffix [of sep "takeWhile p s" "dropWhile p s"] by simp

lemma hd_dropWhile_key:
  assumes "seg_chars CHR '' '' s" and "dropWhile is_space_char s \<noteq> []"
  shows "is_key_char (hd (dropWhile is_space_char s))"
proof -
  have "hd (dropWhile is_space_char s) \<in> set s"
    using assms(2) by (metis hd_in_set set_dropWhileD)
  then show ?thesis
    using assms hd_dropWhile [of is_space_char s] by (auto simp: seg_chars_def)
qed

lemma key_shape_strip:
  assumes "seg_chars CHR '' '' s"
  shows "key_shape CHR '' '' (strip s)"
proof -
  define t where "t = rev (dropWhile is_space_char s)"
  have t: "seg_chars CHR '' '' t"
    by (simp add: t_def seg_chars_rev seg_chars_dropWhile assms)
  have hd: "is_key_char (last (dropWhile is_space_char t))" if "dropWhile is_space_char t \<noteq> []"
  proof -
    have "t \<noteq> []" using that by auto
    then have "is_key_char (last t)"
      using hd_dropWhile_key [OF assms] by (auto simp: t_def last_rev)
    then show ?thesis
      using that by (metis dropWhile_eq_drop last_drop length_drop length_greater_0_conv zero_less_diff)
  qed
  show ?thesis
    using hd hd_dropWhile_key [OF t] seg_chars_dropWhile [OF t, of is_space_char]
    by (auto simp: key_shape_def strip_def t_def [symmetric] seg_chars_rev hd_rev last_rev)
qed

lemma sub_runs_spaced:
  "seg_chars CHR '' '' s \<Longrightarrow> sub_runs is_space_char CHR ''-'' s = map (\<lambda>c. if c = CHR '' '' then CHR ''-'' else c) s"
proof (induction s)
  case (Cons c cs)
  then show ?case
    by (cases cs) (auto simp: seg_chars_Cons dest: space_not_key)
qed simp

lemma seg_chars_map:
  "seg_chars a s \<Longrightarrow> \<not> is_key_char a \<Longrightarrow> \<not> is_key_char b \<Longrightarrow>
     seg_chars b (map (\<lambda>c. if c = a then b else c) s)"
  by (induction s) (auto simp: seg_chars_Cons hd_map, simp add: seg_chars_def)

lemma key_shape_map:
  assumes "key_shape a s" "\<not> is_key_char a" "\<not> is_key_char b"
  shows "key_shape b (map (\<lambda>c. if c = a then b else c) s)"
  using assms seg_chars_map [of a s b] by (auto simp: key_shape_def hd_map last_map)

lemma key_shape_normalize: "key_shape CHR ''-'' (normalize_concept_key s)"
proof -
  let ?s = "strip (sub_runs (\<lambda>c. \<not> is_key_char c) CHR '' '' (map lower_char (strip s)))"
  have "key_shape CHR '' '' ?s"
    by (intro key_shape_strip seg_chars_sub_runs)
  then show ?thesis
    using sub_runs_spaced [of ?s] key_shape_map [of "CHR '' ''" ?s "CHR ''-''"]
    by (simp add: normalize_concept_key_def Let_def key_shape_def)
qed

lemma strip_id: "key_shape sep s \<Longrightarrow> strip s = s"
proof (cases s)
  case (Cons c cs)
  assume ks: "key_shape sep s"
  have "\<not> is_space_char (hd s)" "\<not> is_space_char (last s)"
    using ks Cons by (auto simp: key_shape_def dest: space_not_key)
  moreover have "rev s = last s # rev (butlast s)"
    using Cons by (metis append_butlast_last_id list.distinct(1) rev_eq_Cons_iff rev_rev_ident)
  ultimately show ?thesis
    using Cons by (simp add: strip_def)
qed (simp add: strip_def)

lemma sub_runs_dashed:
  "seg_chars CHR ''-'' s \<Longrightarrow>
     sub_runs (\<lambda>c. \<not> is_key_char c) CHR '' '' s = map (\<lambda>c. if c = CHR ''-'' then CHR '' '' else c) s"
proof (induction s)
  case (Cons c cs)
  then show ?case
    by (cases cs) (auto simp: seg_chars_Cons)
qed simp

lemma normalize_key_shape: "key_shape CHR ''-'' s \<Longrightarrow> normalize_concept_key s = s"
proof -
  assume ks: "key_shape CHR ''-'' s"
  let ?b = "map (\<lambda>c. if c = CHR ''-'' then CHR '' '' else c) s"
  have "map lower_char s = s"
    using ks by (auto simp: key_shape_def seg_chars_def lower_char_key intro!: map_idI)
  moreover have "sub_runs (\<lambda>c. \<not> is_key_char c) CHR '' '' s = ?b"
    using ks by (simp add: key_shape_def sub_runs_dashed)
  moreover have b: "key_shape CHR '' '' ?b"
    by (rule key_shape_map [OF ks]) simp_all
  moreover have "CHR '' '' \<notin> set s"
    using ks by (auto simp: key_shape_def seg_chars_def)
  then have "sub_runs is_space_char CHR ''-'' ?b = s"
    using b by (auto simp: key_shape_def sub_runs_spaced intro!: map_idI)
  ultimately show ?thesis
    using strip_id [OF ks] strip_id [OF b] by (simp add: normalize_concept_key_def Let_def)
qed

text \<open>Normalisation lands in the key shape and leaves every key of that shape alone.\<close>

lemma normalize_concept_key_idem: "normalize_concept_key (normalize_concept_key s) = normalize_concept_key s"
  by (rule normalize_key_shape) (rule key_shape_normalize)

text \<open>
  Identifiers minted at a later millisecond sort after earlier ones of the same prefix, as the
  comments of \<open>ids.py\<close> promise, and two identifiers are equal only for the same millisecond and the
  same random draw.
\<close>

theorem minted_ids_ordered:
  assumes "ts < 32 ^ 10" "ts' < 32 ^ 10" "r < 2 ^ 80" "r' < 2 ^ 80"
  shows "(ts < ts' \<longrightarrow> ulid_text ts r < ulid_text ts' r')
    \<and> (mint_id_text pre ts r = mint_id_text pre ts' r' \<longleftrightarrow> ts = ts' \<and> r = r')"
  using ulid_text_mono [of ts ts'] ulid_text_inject [OF assms] assms(2) by (simp add: mint_id_text_def)

theorem minted_ids_ordered_witness:
  "ulid_text 1700000000000 5 < ulid_text 1700000000001 3"
  using minted_ids_ordered [of 1700000000000 1700000000001 5 3 "''run''"] by simp

text \<open>
  A concept key is a normal form: it consists of alphanumeric runs joined by single dashes with
  none at either end, and normalising a key again changes nothing, so the primary key of
  \<open>concept_claims\<close> compares concepts up to case, spacing and punctuation.
\<close>

theorem concept_key_normal_form:
  "key_shape CHR ''-'' (normalize_concept_key s)
     \<and> normalize_concept_key (normalize_concept_key s) = normalize_concept_key s"
  using key_shape_normalize normalize_concept_key_idem by simp

end
