(* ===== verification/Event_Registry.thy ===== *)
theory Event_Registry
  imports Prelude "HOL-Library.AList" "HOL-Library.List_Lexorder" "HOL-Library.Char_ord" "HOL-Library.Product_Lexorder"
begin

text \<open>
  The event-type registry of \<open>events/registry.py\<close>: versioned JSON schemas with an owner and a
  status, stepwise upcasters, the backward-compatibility rule, and the durable copy of the schemas.
  The four dictionaries of \<open>EventSchemaRegistry\<close> are association lists in insertion order, so
  \<open>d[k] = v\<close> is \<open>AList.update\<close>.  \<open>jsonschema.validate\<close> is the parameter \<open>js_valid\<close>, an
  upcaster is code the registry only calls, and a schema version is an integer.
\<close>

type_synonym schema_key = "string \<times> int"

record event_registry =
  rg_schemas :: "(schema_key \<times> dict) list"
  rg_owners :: "(schema_key \<times> string) list"
  rg_status :: "(schema_key \<times> string) list"
  rg_upcasters :: "(schema_key \<times> (dict \<Rightarrow> exn + dict)) list"

definition empty_registry :: event_registry where
  "empty_registry = \<lparr>rg_schemas = [], rg_owners = [], rg_status = [], rg_upcasters = []\<rparr>"

definition register_schema :: "string \<Rightarrow> int \<Rightarrow> dict \<Rightarrow> string \<Rightarrow> string \<Rightarrow> event_registry \<Rightarrow> event_registry" where
  "register_schema type_name version json_schema owner status reg =
     (let key = (type_name, version)
      in reg\<lparr>rg_schemas := AList.update key json_schema (rg_schemas reg),
             rg_owners := AList.update key owner (rg_owners reg),
             rg_status := AList.update key status (rg_status reg)\<rparr>)"

definition registry_validate ::
  "(dict \<Rightarrow> dict \<Rightarrow> bool) \<Rightarrow> event_registry \<Rightarrow> string \<Rightarrow> int \<Rightarrow> dict \<Rightarrow> exn + unit" where
  "registry_validate js_valid reg type_name version body =
     (case map_of (rg_schemas reg) (type_name, version) of
        None \<Rightarrow> Inl SchemaValidationError
      | Some schema \<Rightarrow> if js_valid schema body then Inr () else Inl SchemaValidationError)"

definition register_upcaster ::
  "string \<Rightarrow> int \<Rightarrow> int \<Rightarrow> (dict \<Rightarrow> exn + dict) \<Rightarrow> event_registry \<Rightarrow> exn + event_registry" where
  "register_upcaster type_name from_version to_version upcaster reg =
     (if to_version \<noteq> from_version + 1 then Inl ValueError
      else Inr (reg\<lparr>rg_upcasters := AList.update (type_name, from_version) upcaster (rg_upcasters reg)\<rparr>))"

text \<open>The \<open>while version < to_version\<close> loop; the counter is the number of steps left.\<close>

primrec upcast_steps :: "event_registry \<Rightarrow> string \<Rightarrow> nat \<Rightarrow> int \<Rightarrow> dict \<Rightarrow> exn + dict" where
  "upcast_steps reg type_name 0 version current = Inr current"
| "upcast_steps reg type_name (Suc n) version current =
     (case map_of (rg_upcasters reg) (type_name, version) of
        None \<Rightarrow> Inl SchemaValidationError
      | Some step \<Rightarrow> chain (step current) (upcast_steps reg type_name n (version + 1)))"

definition upcast :: "event_registry \<Rightarrow> string \<Rightarrow> dict \<Rightarrow> int \<Rightarrow> int \<Rightarrow> exn + dict" where
  "upcast reg type_name body from_version to_version =
     (if to_version < from_version then Inl SchemaValidationError
      else upcast_steps reg type_name (nat (to_version - from_version)) from_version body)"

definition set_status :: "string \<Rightarrow> int \<Rightarrow> string \<Rightarrow> event_registry \<Rightarrow> exn + event_registry" where
  "set_status type_name version status reg =
     (if map_of (rg_status reg) (type_name, version) = None then Inl SchemaValidationError
      else if status \<notin> {''active'', ''deprecated'', ''withdrawn''} then Inl SchemaValidationError
      else Inr (reg\<lparr>rg_status := AList.update (type_name, version) status (rg_status reg)\<rparr>))"

definition assert_writable :: "event_registry \<Rightarrow> string \<Rightarrow> int \<Rightarrow> exn + unit" where
  "assert_writable reg type_name version =
     (case map_of (rg_status reg) (type_name, version) of
        None \<Rightarrow> Inl SchemaValidationError
      | Some status \<Rightarrow> if status \<noteq> ''active'' then Inl SchemaValidationError else Inr ())"

subsection \<open>The backward-compatibility rule\<close>

definition types_of :: "dict \<Rightarrow> json set" where
  "types_of spec = (case dget spec ''type'' of JNull \<Rightarrow> {} | JArr ts \<Rightarrow> set ts | t \<Rightarrow> {t})"

definition type_compatible :: "dict \<Rightarrow> dict \<Rightarrow> bool" where
  "type_compatible old_spec new_spec =
     (if types_of old_spec = {} \<or> types_of new_spec = {} then True
      else types_of old_spec \<subseteq> types_of new_spec)"

fun elements :: "json \<Rightarrow> json list" where
  "elements (JArr xs) = xs"
| "elements _ = []"

definition enum_compatible :: "dict \<Rightarrow> dict \<Rightarrow> bool" where
  "enum_compatible old_spec new_spec =
     (let old_enum = dget old_spec ''enum''; new_enum = dget new_spec ''enum''
      in if old_enum = JNull \<and> new_enum = JNull then True
         else if old_enum = JNull \<and> new_enum \<noteq> JNull then False
         else if old_enum \<noteq> JNull \<and> new_enum = JNull then True
         else set (elements old_enum) \<subseteq> set (elements new_enum))"

definition is_backward_compatible :: "dict \<Rightarrow> dict \<Rightarrow> bool" where
  "is_backward_compatible old_schema new_schema =
     (let old_props = as_dict (dget_or old_schema ''properties'' (JObj []));
          new_props = as_dict (dget_or new_schema ''properties'' (JObj []));
          old_required = set (as_strs (dget_or old_schema ''required'' (JArr [])));
          new_required = set (as_strs (dget_or new_schema ''required'' (JArr [])))
      in if new_required - old_required \<noteq> {} then False
         else if fst ` set old_props - fst ` set new_props \<noteq> {} then False
         else list_all (\<lambda>(name, old_spec).
                let new_spec = dget new_props name
                in type_compatible (as_dict old_spec) (as_dict new_spec)
                   \<and> enum_compatible (as_dict old_spec) (as_dict new_spec)) old_props)"

definition versions_of :: "event_registry \<Rightarrow> string \<Rightarrow> int list" where
  "versions_of reg type_name =
     sort (map snd (filter (\<lambda>key. fst key = type_name) (map fst (rg_schemas reg))))"

fun schema_of :: "event_registry \<Rightarrow> schema_key \<Rightarrow> dict" where
  "schema_of reg key = (case map_of (rg_schemas reg) key of None \<Rightarrow> [] | Some s \<Rightarrow> s)"

fun check_bumps :: "event_registry \<Rightarrow> string \<Rightarrow> int list \<Rightarrow> exn + unit" where
  "check_bumps reg type_name (prev # nxt # rest) =
     (if is_backward_compatible (schema_of reg (type_name, prev)) (schema_of reg (type_name, nxt))
         \<or> list_all (\<lambda>step. map_of (rg_upcasters reg) (type_name, step) \<noteq> None) [prev..nxt - 1]
      then check_bumps reg type_name (nxt # rest)
      else Inl SchemaValidationError)"
| "check_bumps reg type_name _ = Inr ()"

text \<open>The types are visited in the order of their first registration.\<close>

definition registered_types :: "event_registry \<Rightarrow> string list" where
  "registered_types reg = rev (remdups (rev (map (fst \<circ> fst) (rg_schemas reg))))"

definition assert_evolution_complete :: "event_registry \<Rightarrow> exn + unit" where
  "assert_evolution_complete reg =
     chain (map_chain (\<lambda>t. check_bumps reg t (versions_of reg t)) (registered_types reg)) (\<lambda>_. Inr ())"

definition max_active_versions :: "event_registry \<Rightarrow> (string \<times> int) list" where
  "max_active_versions reg =
     foldl (\<lambda>out ((type_name, version), status).
              if status = ''active''
              then AList.update type_name (max (case map_of out type_name of None \<Rightarrow> 0 | Some m \<Rightarrow> m) version) out
              else out)
       [] (rg_status reg)"

subsection \<open>The durable copy\<close>

type_synonym registry_table = "(schema_key \<times> dict \<times> string \<times> string) list"

definition all_schemas :: "event_registry \<Rightarrow> registry_table" where
  "all_schemas reg =
     map (\<lambda>(key, schema). (key, schema, the (map_of (rg_owners reg) key), the (map_of (rg_status reg) key)))
       (rg_schemas reg)"

definition persist_event_schemas :: "event_registry \<Rightarrow> registry_table \<Rightarrow> exn + registry_table" where
  "persist_event_schemas reg table =
     chain (assert_evolution_complete reg) (\<lambda>_.
       Inr (foldl (\<lambda>tbl (key, row). AList.update key row tbl) table (all_schemas reg)))"

definition hydrate_event_registry :: "registry_table \<Rightarrow> event_registry" where
  "hydrate_event_registry table =
     foldl (\<lambda>reg ((type_name, version), schema, owner, status).
              register_schema type_name version schema owner status reg)
       empty_registry (sort_key fst table)"

subsection \<open>Lookups after a registration\<close>

lemma register_schema_lookup:
  "map_of (rg_schemas (register_schema t v sch own st reg)) = (map_of (rg_schemas reg))((t, v) \<mapsto> sch)"
  "map_of (rg_owners (register_schema t v sch own st reg)) = (map_of (rg_owners reg))((t, v) \<mapsto> own)"
  "map_of (rg_status (register_schema t v sch own st reg)) = (map_of (rg_status reg))((t, v) \<mapsto> st)"
  by (simp_all add: register_schema_def Let_def update_conv')

text \<open>The class invariant: the three dictionaries have the same keys, each once.\<close>

definition reg_wf :: "event_registry \<Rightarrow> bool" where
  "reg_wf reg \<longleftrightarrow> distinct (map fst (rg_schemas reg))
     \<and> map fst (rg_owners reg) = map fst (rg_schemas reg) \<and> map fst (rg_status reg) = map fst (rg_schemas reg)"

lemma keys_update: "map fst xs = map fst ys \<Longrightarrow> map fst (AList.update k v xs) = map fst (AList.update k w ys)"
  by (simp add: update_keys)

lemma reg_wf_empty: "reg_wf empty_registry"
  by (simp add: reg_wf_def empty_registry_def)

lemma reg_wf_register: "reg_wf reg \<Longrightarrow> reg_wf (register_schema t v sch own st reg)"
  by (auto simp: reg_wf_def register_schema_def Let_def distinct_update intro: keys_update)

lemma reg_wf_set_status:
  assumes "reg_wf reg" "set_status t v st reg = Inr reg'"
  shows "reg_wf reg'"
proof -
  have "(t, v) \<in> set (map fst (rg_status reg))" "reg' = reg\<lparr>rg_status := AList.update (t, v) st (rg_status reg)\<rparr>"
    using assms(2) by (auto simp: set_status_def map_of_eq_None_iff split: if_splits)
  then show ?thesis
    using assms(1) by (simp add: reg_wf_def update_keys del: set_map)
qed

lemma assert_writable_Inr:
  "assert_writable reg t v = Inr () \<longleftrightarrow> map_of (rg_status reg) (t, v) = Some ''active''"
  by (auto simp: assert_writable_def split: option.splits)

lemma registry_validate_Inr:
  "registry_validate js_valid reg t v body = Inr () \<longleftrightarrow>
     (\<exists>sch. map_of (rg_schemas reg) (t, v) = Some sch \<and> js_valid sch body)"
  by (auto simp: registry_validate_def split: option.splits)

subsection \<open>Upcasting\<close>

lemma upcast_steps_add:
  "upcast_steps reg t (m + n) v body = chain (upcast_steps reg t m v body) (upcast_steps reg t n (v + int m))"
proof (induction m arbitrary: v body)
  case (Suc m)
  show ?case
  proof (cases "map_of (rg_upcasters reg) (t, v)")
    case (Some step)
    then show ?thesis
      by (cases "step body") (simp_all add: Suc algebra_simps)
  qed simp
qed simp

lemma upcast_compose:
  assumes "u \<le> v" "v \<le> w"
  shows "upcast reg t body u w = chain (upcast reg t body u v) (\<lambda>b. upcast reg t b v w)"
proof -
  have "nat (w - u) = nat (v - u) + nat (w - v)"
    using assms by simp
  then show ?thesis
    using assms by (simp add: upcast_def upcast_steps_add)
qed

lemma upcast_steps_total:
  assumes "\<And>i. i < n \<Longrightarrow> \<exists>f. map_of (rg_upcasters reg) (t, v + int i) = Some f \<and> (\<forall>b. \<exists>b'. f b = Inr b')"
  shows "\<exists>b'. upcast_steps reg t n v body = Inr b'"
  using assms
proof (induction n arbitrary: v body)
  case (Suc n)
  obtain f b' where f: "map_of (rg_upcasters reg) (t, v) = Some f" "f body = Inr b'"
    using Suc.prems [of 0] by fastforce
  have "\<exists>f. map_of (rg_upcasters reg) (t, v + 1 + int i) = Some f \<and> (\<forall>b. \<exists>b'. f b = Inr b')" if "i < n" for i
    using Suc.prems [of "Suc i"] that by (simp add: algebra_simps)
  from Suc.IH [OF this] f show ?case
    by auto
qed simp

lemma check_bumps_adjacent:
  "check_bumps reg t vs = Inr () \<Longrightarrow> Suc i < length vs \<Longrightarrow>
     is_backward_compatible (schema_of reg (t, vs ! i)) (schema_of reg (t, vs ! Suc i))
     \<or> (\<forall>step \<in> {vs ! i ..< vs ! Suc i}. map_of (rg_upcasters reg) (t, step) \<noteq> None)"
proof (induction reg t vs arbitrary: i rule: check_bumps.induct)
  case (1 reg t prev nxt rest)
  then show ?case
    by (cases i) (auto simp: list_all_iff split: if_splits)
qed auto

lemma map_chain_ok: "map_chain f xs = Inr ys \<Longrightarrow> x \<in> set xs \<Longrightarrow> \<exists>y. f x = Inr y"
  by (induction xs arbitrary: ys) (auto simp: chain_eq_Inr)

lemma evolution_complete_bumps:
  assumes "assert_evolution_complete reg = Inr ()" "t \<in> set (registered_types reg)"
  shows "check_bumps reg t (versions_of reg t) = Inr ()"
  using assms by (auto simp: assert_evolution_complete_def chain_eq_Inr dest: map_chain_ok)

lemma versions_of_nonempty: "versions_of reg t \<noteq> [] \<Longrightarrow> t \<in> set (registered_types reg)"
proof -
  assume "versions_of reg t \<noteq> []"
  then have "set (versions_of reg t) \<noteq> {}"
    by simp
  then obtain v sch where "((t, v), sch) \<in> set (rg_schemas reg)"
    by (auto simp: versions_of_def simp flip: set_empty)
  then show ?thesis
    by (force simp: registered_types_def)
qed

subsection \<open>Persisting and hydrating\<close>

lemma foldl_update_lookup:
  "distinct (map fst rows) \<Longrightarrow>
     map_of (foldl (\<lambda>tbl (key, row). AList.update key row tbl) table rows) =
       map_of table ++ map_of rows"
proof (induction rows arbitrary: table)
  case (Cons r rows)
  obtain k x where r: "r = (k, x)"
    by (cases r)
  have "map_of rows k = None"
    using Cons.prems by (auto simp: r map_of_eq_None_iff)
  then have "(map_of table)(k \<mapsto> x) ++ map_of rows = map_of table ++ (map_of rows)(k \<mapsto> x)"
    by (auto simp: map_add_def fun_eq_iff split: option.splits)
  moreover have "map_of (r # rows) = (map_of rows)(k \<mapsto> x)"
    by (simp add: r)
  ultimately show ?case
    using Cons by (simp add: r update_conv' del: map_of_Cons_code map_add_upd fun_upd_apply)
qed simp

lemma map_of_all_schemas:
  "map_of (all_schemas reg) key =
     map_option (\<lambda>sch. (sch, the (map_of (rg_owners reg) key), the (map_of (rg_status reg) key)))
       (map_of (rg_schemas reg) key)"
proof -
  have "map_of (map (\<lambda>(k, sch). (k, f k sch)) xs) key = map_option (f key) (map_of xs key)"
    for f :: "schema_key \<Rightarrow> dict \<Rightarrow> 'a" and xs
    by (induction xs) auto
  then show ?thesis
    by (simp add: all_schemas_def)
qed

lemma keys_all_schemas [simp]: "map fst (all_schemas reg) = map fst (rg_schemas reg)"
  by (simp add: all_schemas_def case_prod_unfold)

definition table_registry :: "registry_table \<Rightarrow> event_registry \<Rightarrow> bool" where
  "table_registry table reg \<longleftrightarrow>
     map_of (rg_schemas reg) = map_option fst \<circ> map_of table
     \<and> map_of (rg_owners reg) = map_option (fst \<circ> snd) \<circ> map_of table
     \<and> map_of (rg_status reg) = map_option (snd \<circ> snd) \<circ> map_of table"

lemma foldl_register:
  "distinct (map fst rows) \<Longrightarrow>
   (let reg' = foldl (\<lambda>reg ((t, v), sch, own, st). register_schema t v sch own st reg) reg rows
    in map_of (rg_schemas reg') = map_of (rg_schemas reg) ++ (map_option fst \<circ> map_of rows)
     \<and> map_of (rg_owners reg') = map_of (rg_owners reg) ++ (map_option (fst \<circ> snd) \<circ> map_of rows)
     \<and> map_of (rg_status reg') = map_of (rg_status reg) ++ (map_option (snd \<circ> snd) \<circ> map_of rows))"
proof (induction rows arbitrary: reg)
  case Nil
  then show ?case
    by (simp add: map_add_def fun_eq_iff)
next
  case (Cons r rows)
  obtain t v sch own st where r: "r = ((t, v), sch, own, st)"
    by (metis prod.collapse)
  have "map_of rows (t, v) = None"
    using Cons.prems by (auto simp: r map_of_eq_None_iff)
  then show ?case
    using Cons.IH [of "register_schema t v sch own st reg"] Cons.prems
    by (auto simp: r Let_def register_schema_lookup map_add_def fun_eq_iff split: option.splits)
qed

lemma hydrate_lookup:
  assumes "distinct (map fst table)"
  shows "table_registry table (hydrate_event_registry table)"
proof -
  have d: "distinct (map fst (sort_key fst table))"
    using assms by (simp add: distinct_map)
  have "map_of (sort_key fst table) = map_of table"
    using assms d by (intro map_of_eqI) auto
  then show ?thesis
    using foldl_register [OF d, of empty_registry]
    by (simp add: table_registry_def hydrate_event_registry_def Let_def empty_registry_def map_add_def
        fun_eq_iff split: option.splits)
qed

lemma distinct_foldl_update:
  "distinct (map fst table) \<Longrightarrow>
     distinct (map fst (foldl (\<lambda>tbl (key, row). AList.update key row tbl) table rows))"
  by (induction rows arbitrary: table) (auto simp: distinct_update)

subsection \<open>Properties\<close>

text \<open>
  Upcasting is a path.  Going from one version to a later one gives the same payload, or the same
  error, as going through any version in between.
\<close>

theorem upcast_through_versions:
  assumes "u \<le> v" "v \<le> w"
  shows "upcast reg t body u w = chain (upcast reg t body u v) (\<lambda>b. upcast reg t b v w)"
  using upcast_compose [OF assms] .

theorem upcast_through_versions_witness:
  "upcast (empty_registry\<lparr>rg_upcasters := [((''A'', 1), (\<lambda>b. Inr ((''x'', JInt 1) # b))), ((''A'', 2), Inr)]\<rparr>) ''A'' [] 1 3
     = Inr [(''x'', JInt 1)]"
  by (subst upcast_through_versions [of 1 2 3]) (simp_all add: upcast_def empty_registry_def)

text \<open>
  A registry that passes \<open>assert_evolution_complete\<close> can read its old events.  Between two
  consecutive registered versions of a type, either the bump is backward compatible, or, when the
  upcasters themselves return, upcasting any payload from the older version to the newer one returns.
\<close>

theorem evolution_complete_reads_old_events:
  assumes "assert_evolution_complete reg = Inr ()" and "Suc i < length (versions_of reg t)"
    and "\<And>key f b. map_of (rg_upcasters reg) key = Some f \<Longrightarrow> \<exists>b'. f b = Inr b'"
  shows "is_backward_compatible (schema_of reg (t, versions_of reg t ! i)) (schema_of reg (t, versions_of reg t ! Suc i))
    \<or> (\<exists>b'. upcast reg t body (versions_of reg t ! i) (versions_of reg t ! Suc i) = Inr b')"
proof -
  let ?u = "versions_of reg t ! i" and ?w = "versions_of reg t ! Suc i"
  have "check_bumps reg t (versions_of reg t) = Inr ()"
    using assms(2) by (intro evolution_complete_bumps [OF assms(1)] versions_of_nonempty) auto
  from check_bumps_adjacent [OF this assms(2)]
  consider "is_backward_compatible (schema_of reg (t, ?u)) (schema_of reg (t, ?w))"
    | "\<forall>step \<in> {?u..<?w}. map_of (rg_upcasters reg) (t, step) \<noteq> None"
    by blast
  then show ?thesis
  proof cases
    case 2
    have "sorted (versions_of reg t)"
      by (simp add: versions_of_def)
    then have "?u \<le> ?w"
      using assms(2) by (simp add: sorted_nth_mono)
    moreover have "\<exists>f. map_of (rg_upcasters reg) (t, ?u + int k) = Some f \<and> (\<forall>b. \<exists>b'. f b = Inr b')"
      if "k < nat (?w - ?u)" for k
    proof -
      have "?u + int k \<in> {?u..<?w}"
        using that by auto
      then obtain f where "map_of (rg_upcasters reg) (t, ?u + int k) = Some f"
        using 2 by blast
      with assms(3) show ?thesis by blast
    qed
    ultimately show ?thesis
      using upcast_steps_total [of "nat (?w - ?u)" reg t ?u body] by (simp add: upcast_def)
  qed simp
qed

definition sample_events :: event_registry where
  "sample_events =
     register_schema ''A'' 2 [(''required'', JArr [JStr ''x''])] ''o'' ''active''
       (register_schema ''A'' 1 [] ''o'' ''active''
         (empty_registry\<lparr>rg_upcasters := [((''A'', 1), (\<lambda>b. Inr ((''x'', JInt 0) # b)))]\<rparr>))"

theorem evolution_complete_reads_old_events_witness:
  "is_backward_compatible (schema_of sample_events (''A'', 1)) (schema_of sample_events (''A'', 2))
    \<or> (\<exists>b'. upcast sample_events ''A'' [] 1 2 = Inr b')"
proof -
  have v: "versions_of sample_events ''A'' = [1, 2]"
    by (simp add: versions_of_def sample_events_def register_schema_def empty_registry_def Let_def)
  have "registered_types sample_events = [''A'']"
    by (simp add: registered_types_def sample_events_def register_schema_def empty_registry_def Let_def)
  moreover have "map_of (rg_upcasters sample_events) (''A'', 1) \<noteq> None"
    by (simp add: sample_events_def register_schema_def empty_registry_def Let_def)
  ultimately have "assert_evolution_complete sample_events = Inr ()"
    by (simp add: assert_evolution_complete_def v upto.simps)
  moreover have "\<exists>b'. f b = Inr b'" if "map_of (rg_upcasters sample_events) key = Some f" for key f b
    using that by (auto simp: sample_events_def register_schema_def empty_registry_def Let_def split: if_splits)
  ultimately show ?thesis
    using evolution_complete_reads_old_events [of sample_events 0 "''A''" "[]"] by (simp add: v)
qed

text \<open>
  A fresh process sees the schemas that were persisted: after \<open>persist_event_schemas\<close> the hydrated
  registry has, for every type and version, the schema, owner and status of the registry that was
  written, and keeps what the table held before for the others.
\<close>

theorem hydrate_after_persist:
  assumes "reg_wf reg" and "distinct (map fst table)" and "persist_event_schemas reg table = Inr table'"
  shows "map_of (rg_schemas (hydrate_event_registry table')) = (map_option fst \<circ> map_of table) ++ map_of (rg_schemas reg)
    \<and> map_of (rg_status (hydrate_event_registry table')) = (map_option (snd \<circ> snd) \<circ> map_of table) ++ map_of (rg_status reg)"
proof -
  have t': "table' = foldl (\<lambda>tbl (key, row). AList.update key row tbl) table (all_schemas reg)"
    using assms(3) by (auto simp: persist_event_schemas_def chain_eq_Inr)
  have m: "map_of table' = map_of table ++ map_of (all_schemas reg)"
    unfolding t' using assms(1) by (intro foldl_update_lookup) (simp add: reg_wf_def)
  have "distinct (map fst table')"
    unfolding t' using assms(2) by (rule distinct_foldl_update)
  note h = hydrate_lookup [OF this, unfolded table_registry_def m]
  have same: "map_of (rg_status reg) k = None \<longleftrightarrow> map_of (rg_schemas reg) k = None" for k
    using assms(1) by (simp add: reg_wf_def map_of_eq_None_iff flip: set_map)
  have "map_of (rg_status (hydrate_event_registry table')) k =
      ((map_option (snd \<circ> snd) \<circ> map_of table) ++ map_of (rg_status reg)) k" for k
    using same [of k] by (cases "map_of (rg_schemas reg) k"; cases "map_of (rg_status reg) k")
      (simp_all add: h map_add_def map_of_all_schemas)
  then show ?thesis
    by (auto simp: h fun_eq_iff map_add_def map_of_all_schemas split: option.splits)
qed

theorem hydrate_after_persist_witness:
  "map_of (rg_schemas (hydrate_event_registry [((''A'', 1), [], ''o'', ''active'')])) (''A'', 1) = Some []"
proof -
  have "reg_wf (register_schema ''A'' 1 [] ''o'' ''active'' empty_registry)"
    by (rule reg_wf_register, rule reg_wf_empty)
  moreover have "persist_event_schemas (register_schema ''A'' 1 [] ''o'' ''active'' empty_registry) [] =
      Inr [((''A'', 1), [], ''o'', ''active'')]"
    by (simp add: persist_event_schemas_def assert_evolution_complete_def registered_types_def all_schemas_def
        versions_of_def register_schema_def empty_registry_def Let_def)
  ultimately show ?thesis
    using hydrate_after_persist [of "register_schema ''A'' 1 [] ''o'' ''active'' empty_registry" "[]"]
    by (simp add: register_schema_lookup)
qed

end
