(* ===== verification/Event_Schemas.thy ===== *)
theory Event_Schemas
  imports Event_Registry
begin

text \<open>
  The payload schemas of \<open>aggregates/events.py\<close> and of \<open>state_machine/event_types.py\<close>, and the
  registrations at start-up.  \<open>schema_subset_valid\<close> is a validator for the keywords these schemas
  use; it is the concrete instance of the validator parameter in the witnesses.
\<close>

definition S_ID :: dict where "S_ID = [(''type'', JStr ''string''), (''minLength'', JInt 1)]"
definition S_NID :: dict where "S_NID = [(''type'', JArr [JStr ''string'', JStr ''null''])]"
definition S_STR :: dict where "S_STR = [(''type'', JStr ''string'')]"
definition S_NSTR :: dict where "S_NSTR = [(''type'', JArr [JStr ''string'', JStr ''null''])]"
definition S_INT :: dict where "S_INT = [(''type'', JStr ''integer'')]"

definition S_ACTIVATION_STATE :: dict where
  "S_ACTIVATION_STATE = [(''type'', JStr ''string''),
     (''enum'', JArr [JStr ''ACTIVE_EXPERIMENTAL'', JStr ''PRODUCTION'', JStr ''DEPRECATED''])]"

definition S_APPROVAL_TYPE :: dict where
  "S_APPROVAL_TYPE = [(''type'', JStr ''string''), (''enum'', JArr [JStr ''EXPERIMENTAL'', JStr ''PRODUCTION''])]"

definition S_CONSUMER_KIND :: dict where
  "S_CONSUMER_KIND = [(''type'', JStr ''string''), (''enum'', JArr [JStr ''model'', JStr ''feature''])]"

definition obj :: "(string \<times> dict) list \<Rightarrow> string list \<Rightarrow> dict" where
  "obj properties required =
     [(''type'', JStr ''object''), (''properties'', JObj (map (\<lambda>(k, spec). (k, JObj spec)) properties)),
      (''required'', JArr (map JStr required)), (''additionalProperties'', JBool False)]"

definition EVENT_SCHEMAS :: "(string \<times> dict) list" where
  "EVENT_SCHEMAS = [
     (''REQUEST_CREATED'', obj [(''request_id'', S_ID), (''concept_key'', S_STR), (''intake_mode'', S_STR)]
        [''request_id'', ''concept_key'']),
     (''CANDIDATE_ADDED'', obj [(''request_id'', S_ID), (''run_id'', S_ID)]
        [''request_id'', ''run_id'']),
     (''DUPLICATE_OF'', obj [(''request_id'', S_ID), (''duplicate_of_request_id'', S_NID),
          (''duplicate_of_feature_id'', S_NID), (''concept_key'', S_NSTR)]
        [''request_id'']),
     (''CANDIDATE_SELECTED'', obj [(''request_id'', S_ID), (''selected_run_id'', S_ID), (''feature_id'', S_ID),
          (''candidates_explored_count'', S_INT)]
        [''request_id'', ''selected_run_id'', ''feature_id'']),
     (''CANDIDATE_REJECTED'', obj [(''request_id'', S_ID), (''run_id'', S_ID), (''reason'', S_NSTR)]
        [''request_id'', ''run_id'']),
     (''FEATURE_CREATED'', obj [(''feature_id'', S_ID), (''request_id'', S_ID), (''concept_key'', S_NSTR),
          (''origin_run_id'', S_NID)]
        [''feature_id'', ''request_id'']),
     (''VERSION_MINTED'', obj [(''feature_id'', S_ID), (''feature_version_id'', S_ID),
          (''produced_by_run'', S_ID), (''base_feature_version_id'', S_NID)]
        [''feature_id'', ''feature_version_id'', ''produced_by_run'']),
     (''VERSION_ACTIVATED'', obj [(''feature_id'', S_ID), (''feature_version_id'', S_ID), (''use_case'', S_STR),
          (''activation_state'', S_ACTIVATION_STATE), (''base_feature_version_id'', S_NID)]
        [''feature_id'', ''feature_version_id'', ''use_case'', ''activation_state'']),
     (''ACTIVATION_CONFLICT'', obj [(''feature_id'', S_ID), (''feature_version_id'', S_ID),
          (''use_case'', S_STR), (''base_feature_version_id'', S_NID), (''current_active_version_id'', S_NID),
          (''reason'', S_NSTR)]
        [''feature_id'', ''feature_version_id'', ''use_case'']),
     (''ACTIVATION_BLOCKED'', obj [(''feature_id'', S_ID), (''feature_version_id'', S_ID), (''use_case'', S_STR),
          (''guard'', S_STR), (''base_feature_version_id'', S_NID), (''approval_type'', S_APPROVAL_TYPE),
          (''guard_inputs'', [(''type'', JStr ''object'')]), (''guard_result'', [])]
        [''feature_id'', ''feature_version_id'', ''use_case'', ''guard'']),
     (''VERSION_SUPERSEDED'', obj [(''feature_id'', S_ID), (''feature_version_id'', S_ID), (''use_case'', S_STR),
          (''superseded_version_id'', S_NID)]
        [''feature_id'', ''feature_version_id'', ''use_case'']),
     (''VERSION_QUIESCED'', obj [(''feature_id'', S_ID), (''feature_version_id'', S_ID), (''use_case'', S_STR),
          (''impacted_consumers'', [(''type'', JStr ''array'')]), (''grace_seconds'', S_INT),
          (''reason'', S_NSTR)]
        [''feature_id'', ''feature_version_id'', ''use_case'', ''impacted_consumers'']),
     (''VERSION_DEPRECATED'', obj [(''feature_id'', S_ID), (''feature_version_id'', S_ID),
          (''use_case'', S_NSTR), (''reason'', S_NSTR), (''via'', S_NSTR)]
        [''feature_id'', ''feature_version_id'']),
     (''VERSION_RETIERED'', obj [(''feature_id'', S_ID), (''feature_version_id'', S_ID),
          (''new_risk_tier'', S_STR), (''old_risk_tier'', S_NSTR), (''requested_by'', S_NSTR)]
        [''feature_id'', ''feature_version_id'', ''new_risk_tier'']),
     (''VERSION_EXPIRED'', obj [(''feature_id'', S_ID), (''feature_version_id'', S_ID), (''use_case'', S_STR)]
        [''feature_id'', ''feature_version_id'', ''use_case'']),
     (''CONSUMER_REGISTERED'', obj [(''feature_id'', S_ID), (''consumer_id'', S_ID),
          (''consumer_kind'', S_CONSUMER_KIND), (''consumer_ref'', S_STR)]
        [''feature_id'', ''consumer_id'', ''consumer_kind'', ''consumer_ref'']),
     (''CONSUMER_DEREGISTERED'', obj [(''feature_id'', S_ID), (''consumer_id'', S_ID),
          (''consumer_kind'', S_CONSUMER_KIND), (''consumer_ref'', S_STR)]
        [''feature_id'', ''consumer_id'']),
     (''MONITORING_ALERT_RAISED'', obj [(''feature_id'', S_ID), (''feature_version_id'', S_NID),
          (''alert_ref'', S_NSTR)]
        [''feature_id'']),
     (''REVALIDATION_REQUIRED'', obj [(''feature_id'', S_ID), (''feature_version_id'', S_NID), (''reason'', S_NSTR)]
        [''feature_id'']),
     (''REVALIDATION_OUTCOME_RECORDED'', obj [(''feature_id'', S_ID), (''outcome'', S_STR),
          (''feature_version_id'', S_NID), (''new_run_id'', S_NID)]
        [''feature_id'', ''outcome'']),
     (''RUN_CREATED'', obj [(''run_id'', S_ID), (''request_id'', S_NID), (''reopened_from'', S_NID),
          (''feature_id'', S_NID), (''origin'', S_NSTR)]
        [''run_id'']),
     (''RUN_CANCELLED'', obj [(''run_id'', S_ID), (''reason'', S_NSTR)]
        [''run_id'']),
     (''RUN_WITHDRAWN'', obj [(''run_id'', S_ID), (''reason'', S_NSTR)]
        [''run_id'']),
     (''RUN_REJECTED'', obj [(''run_id'', S_ID), (''reason'', S_NSTR)]
        [''run_id'']),
     (''RUN_PARKED'', obj [(''run_id'', S_ID), (''owner'', S_NSTR), (''waiting_on_fact'', S_NSTR)]
        [''run_id'']),
     (''RUN_UNPARKED'', obj [(''run_id'', S_ID)]
        [''run_id'']),
     (''FACT_CONFIRMED_RESUME'', obj [(''run_id'', S_ID), (''fact_key'', S_STR)]
        [''run_id'', ''fact_key'']),
     (''SOURCE_CHANGED_REVALIDATE'', obj [(''run_id'', S_ID), (''source_ref'', S_STR), (''new_snapshot'', S_NSTR)]
        [''run_id'', ''source_ref'']),
     (''ACTIVATION_REQUESTED'', obj [(''run_id'', S_ID), (''feature_id'', S_ID), (''feature_version_id'', S_ID),
          (''use_case'', S_STR), (''approval_type'', S_APPROVAL_TYPE), (''base_feature_version_id'', S_NID),
          (''expires_at'', S_NSTR)]
        [''run_id'', ''feature_id'', ''feature_version_id'', ''use_case'', ''approval_type''])]"

definition register_phase06_event_types :: "event_registry \<Rightarrow> event_registry" where
  "register_phase06_event_types reg =
     foldl (\<lambda>r (type_name, schema). register_schema type_name 1 schema ''featuregen-aggregates'' ''active'' r) reg EVENT_SCHEMAS"

subsection \<open>State-machine events\<close>

definition type_object :: "(string \<times> json) list \<Rightarrow> string list \<Rightarrow> dict" where
  "type_object properties required =
     [(''type'', JStr ''object''), (''required'', JArr (map JStr required)), (''properties'', JObj properties)]"

definition GUARD_FAILED_SCHEMA :: dict where
  "GUARD_FAILED_SCHEMA =
     type_object [(''from_state'', JObj S_STR), (''to_state'', JObj S_STR), (''trigger'', JObj S_STR),
       (''guard'', JObj (type_object [(''guard_expr'', JObj S_STR), (''passed'', JObj [(''type'', JStr ''boolean'')]),
          (''resolved_inputs'', JObj [(''type'', JStr ''object'')]), (''per_predicate'', JObj [(''type'', JStr ''object'')])]
          [''guard_expr'', ''passed'', ''resolved_inputs'', ''per_predicate'']))]
       [''from_state'', ''to_state'', ''trigger'', ''guard'']"

definition TRANSITION_REJECTED_SCHEMA :: dict where
  "TRANSITION_REJECTED_SCHEMA =
     type_object [(''from_state'', JObj S_STR), (''trigger'', JObj S_STR), (''reason'', JObj S_STR)]
       [''from_state'', ''trigger'', ''reason'']"

definition MIGRATION_SCHEMA :: dict where
  "MIGRATION_SCHEMA =
     type_object [(''from_table_version'', JObj S_INT), (''to_table_version'', JObj S_INT), (''current_state'', JObj S_STR)]
       [''from_table_version'', ''to_table_version'', ''current_state'']"

definition register_state_machine_event_types :: "event_registry \<Rightarrow> event_registry" where
  "register_state_machine_event_types reg =
     foldl (\<lambda>r (type_name, schema). register_schema type_name 1 schema ''featuregen-state-machine'' ''active'' r) reg
       [(''GUARD_FAILED'', GUARD_FAILED_SCHEMA), (''TRANSITION_REJECTED'', TRANSITION_REJECTED_SCHEMA),
        (''WORKFLOW_VERSION_MIGRATED'', MIGRATION_SCHEMA), (''FEATURE_LIFECYCLE_VERSION_MIGRATED'', MIGRATION_SCHEMA)]"

subsection \<open>A validator for the keywords used\<close>

fun has_type :: "json \<Rightarrow> string \<Rightarrow> bool" where
  "has_type v t =
     (case v of JNull \<Rightarrow> t = ''null'' | JBool _ \<Rightarrow> t = ''boolean'' | JInt _ \<Rightarrow> t = ''integer'' \<or> t = ''number''
      | JStr _ \<Rightarrow> t = ''string'' | JArr _ \<Rightarrow> t = ''array'' | JObj _ \<Rightarrow> t = ''object'')"

definition scalar_valid :: "dict \<Rightarrow> json \<Rightarrow> bool" where
  "scalar_valid spec v \<longleftrightarrow>
     (case map_of spec ''type'' of None \<Rightarrow> True
      | Some (JStr t) \<Rightarrow> has_type v t | Some (JArr ts) \<Rightarrow> list_ex (\<lambda>t. t \<in> JStr ` set [''string'', ''null''] \<and> has_type v (the (as_ostr t))) ts
      | _ \<Rightarrow> True)
     \<and> (case map_of spec ''enum'' of Some (JArr vs) \<Rightarrow> v \<in> set vs | _ \<Rightarrow> True)
     \<and> (case (map_of spec ''minLength'', v) of (Some (JInt n), JStr s) \<Rightarrow> n \<le> int (length s) | _ \<Rightarrow> True)"

definition schema_subset_valid :: "dict \<Rightarrow> dict \<Rightarrow> bool" where
  "schema_subset_valid schema body \<longleftrightarrow>
     (let props = as_dict (dget schema ''properties'')
      in list_all (has_key body) (as_strs (dget schema ''required''))
         \<and> list_all (\<lambda>(k, v). case map_of props k of
              None \<Rightarrow> dget schema ''additionalProperties'' \<noteq> JBool False
            | Some spec \<Rightarrow> scalar_valid (as_dict spec) v) body)"

end
