(* ===== verification/Guard_Expr.thy ===== *)
theory Guard_Expr
  imports Prelude
begin

text \<open>
  The guard expression language of the declarative state machine, \<open>state_machine/guard_expr.py\<close>:
  tokenizer, recursive-descent parser, evaluator and the predicate names an expression uses.
  The parser's position \<open>self._i\<close> is the list of tokens not yet consumed.  Its two \<open>while\<close> loops
  and its mutual recursion are functions with a termination proof: every step consumes a token.
\<close>

datatype node = Pred string | Not node | And node node | Or node node

datatype token = Lparen | Rparen | Word string

definition is_ident_start :: "char \<Rightarrow> bool" where
  "is_ident_start c \<longleftrightarrow> (let n = of_char c :: nat in 65 \<le> n \<and> n \<le> 90 \<or> 97 \<le> n \<and> n \<le> 122 \<or> n = 95)"

definition is_ident_char :: "char \<Rightarrow> bool" where
  "is_ident_char c \<longleftrightarrow> is_ident_start c \<or> (let n = of_char c :: nat in 48 \<le> n \<and> n \<le> 57)"

text \<open>\<open>str.isspace()\<close> on one code point below 256.\<close>

definition is_blank :: "char \<Rightarrow> bool" where
  "is_blank c \<longleftrightarrow> of_char c \<in> {9, 10, 11, 12, 13, 28, 29, 30, 31, 32, 133, 160 :: nat}"

function tokenize :: "string \<Rightarrow> exn + token list" where
  "tokenize [] = Inr []"
| "tokenize (c # cs) =
     (if is_blank c then tokenize cs
      else if c = CHR ''('' then chain (tokenize cs) (\<lambda>ts. Inr (Lparen # ts))
      else if c = CHR '')'' then chain (tokenize cs) (\<lambda>ts. Inr (Rparen # ts))
      else if is_ident_start c then
        chain (tokenize (dropWhile is_ident_char cs)) (\<lambda>ts. Inr (Word (c # takeWhile is_ident_char cs) # ts))
      else Inl GuardExprError)"
  by pat_completeness auto
termination
  by (relation "measure length") (auto simp: length_dropWhile_le less_Suc_eq_le)

definition is_keyword :: "string \<Rightarrow> bool" where
  "is_keyword w \<longleftrightarrow> w \<in> {''AND'', ''OR'', ''NOT''}"

text \<open>
  The methods \<open>_or\<close>, \<open>_and\<close>, \<open>_not\<close> and \<open>_atom\<close>; \<open>or_loop\<close> and \<open>and_loop\<close> are the two \<open>while\<close>
  loops with the node built so far.  Each call is bounded by a fuel parameter, the recursion
  depth Python has; \<open>parse\<close> supplies enough for every input (\<open>parse_fuel_enough\<close> below).  Running
  out of it is \<open>None\<close>, which \<open>parse\<close> therefore never sees.
\<close>

type_synonym 'a presult = "(exn + 'a \<times> token list) option"

definition pchain :: "'a presult \<Rightarrow> ('a \<Rightarrow> token list \<Rightarrow> 'b presult) \<Rightarrow> 'b presult" where
  "pchain r f = (case r of None \<Rightarrow> None | Some (Inl e) \<Rightarrow> Some (Inl e) | Some (Inr (x, ts)) \<Rightarrow> f x ts)"

lemma pchain_simps [simp]:
  "pchain None f = None" "pchain (Some (Inl e)) f = Some (Inl e)" "pchain (Some (Inr (x, ts))) f = f x ts"
  by (simp_all add: pchain_def)

text \<open>\<open>if self._advance() != ")": raise\<close>.\<close>

definition expect_rparen :: "node \<Rightarrow> token list \<Rightarrow> node presult" where
  "expect_rparen node ts =
     (case ts of Rparen # ts' \<Rightarrow> Some (Inr (node, ts')) | _ \<Rightarrow> Some (Inl GuardExprError))"

lemma expect_rparen_simps [simp]:
  "expect_rparen node (Rparen # ts) = Some (Inr (node, ts))"
  "expect_rparen node ts \<noteq> None"
  by (auto simp: expect_rparen_def split: list.splits token.splits)

lemma expect_rparen_eq: "expect_rparen node ts = Some (Inr (x, ts')) \<longleftrightarrow> x = node \<and> ts = Rparen # ts'"
  by (auto simp: expect_rparen_def split: list.splits token.splits)

datatype rule = R_or | R_or_loop node | R_and | R_and_loop node | R_not | R_atom

primrec p_rule :: "nat \<Rightarrow> rule \<Rightarrow> token list \<Rightarrow> node presult" where
  "p_rule 0 = (\<lambda>r ts. None)"
| "p_rule (Suc n) = (\<lambda>r ts. case r of
     R_or \<Rightarrow> pchain (p_rule n R_and ts) (\<lambda>node ts'. p_rule n (R_or_loop node) ts')
   | R_or_loop node \<Rightarrow>
       (case ts of
          Word w # rest \<Rightarrow>
            if w = ''OR'' then pchain (p_rule n R_and rest) (\<lambda>rhs ts'. p_rule n (R_or_loop (Or node rhs)) ts')
            else Some (Inr (node, ts))
        | _ \<Rightarrow> Some (Inr (node, ts)))
   | R_and \<Rightarrow> pchain (p_rule n R_not ts) (\<lambda>node ts'. p_rule n (R_and_loop node) ts')
   | R_and_loop node \<Rightarrow>
       (case ts of
          Word w # rest \<Rightarrow>
            if w = ''AND'' then pchain (p_rule n R_not rest) (\<lambda>rhs ts'. p_rule n (R_and_loop (And node rhs)) ts')
            else Some (Inr (node, ts))
        | _ \<Rightarrow> Some (Inr (node, ts)))
   | R_not \<Rightarrow>
       (case ts of
          Word w # rest \<Rightarrow>
            if w = ''NOT'' then pchain (p_rule n R_not rest) (\<lambda>node ts'. Some (Inr (Not node, ts')))
            else p_rule n R_atom ts
        | _ \<Rightarrow> p_rule n R_atom ts)
   | R_atom \<Rightarrow>
       (case ts of
          [] \<Rightarrow> Some (Inl GuardExprError)
        | Lparen # rest \<Rightarrow>
            pchain (p_rule n R_or rest) (\<lambda>node ts'. expect_rparen node ts')
        | Rparen # rest \<Rightarrow> Some (Inl GuardExprError)
        | Word w # rest \<Rightarrow> if is_keyword w then Some (Inl GuardExprError) else Some (Inr (Pred w, rest))))"

definition parse_fuel :: "token list \<Rightarrow> nat" where
  "parse_fuel ts = 6 * length ts + 6"

definition parse :: "token list \<Rightarrow> exn + node" where
  "parse ts =
     (if ts = [] then Inl GuardExprError
      else case p_rule (parse_fuel ts) R_or ts of
        None \<Rightarrow> Inl GuardExprError
      | Some (Inl e) \<Rightarrow> Inl e
      | Some (Inr (node, rest)) \<Rightarrow> if rest = [] then Inr node else Inl GuardExprError)"

definition parse_guard_expr :: "string \<Rightarrow> exn + node" where
  "parse_guard_expr expr = chain (tokenize expr) parse"

text \<open>\<open>eval_guard_expr\<close> short-circuits as Python's \<open>and\<close>/\<open>or\<close> do, and a missing predicate value is
  a \<open>KeyError\<close> when it is reached.\<close>

fun eval_guard_expr :: "node \<Rightarrow> (string \<Rightarrow> bool option) \<Rightarrow> exn + bool" where
  "eval_guard_expr (Pred p) vals = (case vals p of None \<Rightarrow> Inl KeyError | Some b \<Rightarrow> Inr b)"
| "eval_guard_expr (Not n) vals = chain (eval_guard_expr n vals) (\<lambda>b. Inr (\<not> b))"
| "eval_guard_expr (And l r) vals =
     chain (eval_guard_expr l vals) (\<lambda>b. if b then eval_guard_expr r vals else Inr False)"
| "eval_guard_expr (Or l r) vals =
     chain (eval_guard_expr l vals) (\<lambda>b. if b then Inr True else eval_guard_expr r vals)"

fun predicate_names :: "node \<Rightarrow> string set" where
  "predicate_names (Pred p) = {p}"
| "predicate_names (Not n) = predicate_names n"
| "predicate_names (And l r) = predicate_names l \<union> predicate_names r"
| "predicate_names (Or l r) = predicate_names l \<union> predicate_names r"

subsection \<open>Consumption and enough fuel\<close>

text \<open>
  How many tokens a rule consumes at least, and the fuel it needs: the rules call each other in
  the order \<open>_or\<close>, \<open>_and\<close>, \<open>_not\<close>, \<open>_atom\<close> before a token is consumed.
\<close>

fun min_consumed :: "rule \<Rightarrow> nat" where
  "min_consumed (R_or_loop _) = 0"
| "min_consumed (R_and_loop _) = 0"
| "min_consumed _ = 1"

fun rank :: "rule \<Rightarrow> nat" where
  "rank R_or = 4"
| "rank R_and = 3"
| "rank R_not = 2"
| "rank _ = 1"

lemma pchain_eq_Some:
  "pchain r f = Some (Inr y) \<longleftrightarrow> (\<exists>x ts. r = Some (Inr (x, ts)) \<and> f x ts = Some (Inr y))"
  by (auto simp: pchain_def split: option.splits sum.splits)

lemma pchain_None:
  "pchain r f = None \<longleftrightarrow> r = None \<or> (\<exists>x ts. r = Some (Inr (x, ts)) \<and> f x ts = None)"
  by (auto simp: pchain_def split: option.splits sum.splits)

lemma p_rule_consumes:
  "p_rule n r ts = Some (Inr (x, ts')) \<Longrightarrow> length ts' + min_consumed r \<le> length ts"
proof (induction n arbitrary: r ts x ts')
  case (Suc n)
  show ?case
    using Suc.prems
    by (cases r)
       (auto simp: pchain_eq_Some expect_rparen_eq dest!: Suc.IH split: list.splits token.splits if_splits)
qed simp

lemma p_rule_None: "p_rule n r ts = None \<Longrightarrow> n < 6 * length ts + rank r"
proof (induction n arbitrary: r ts)
  case 0
  then show ?case by (cases r) auto
next
  case (Suc n)
  show ?case
    using Suc.prems
    by (cases r)
       (auto simp: pchain_None dest!: p_rule_consumes Suc.IH split: list.splits token.splits if_splits)
qed

lemma parse_fuel_enough: "p_rule (parse_fuel ts) R_or ts \<noteq> None"
  using p_rule_None [of "parse_fuel ts" R_or ts] by (auto simp: parse_fuel_def)

text \<open>More fuel never changes a result.\<close>

lemma p_rule_mono: "p_rule n r ts = Some y \<Longrightarrow> n \<le> m \<Longrightarrow> p_rule m r ts = Some y"
proof (induction n arbitrary: r ts y m)
  case (Suc n)
  then obtain m' where m: "m = Suc m'" "n \<le> m'"
    by (cases m) auto
  have IH: "p_rule m' r ts = Some y" if "p_rule n r ts = Some y" for r ts y
    using that m(2) by (rule Suc.IH)
  have pc: "pchain (p_rule m' r ts) g = Some y"
    if "pchain (p_rule n r ts) f = Some y" "\<And>x ts y. f x ts = Some y \<Longrightarrow> g x ts = Some y" for r ts f g y
    using that by (cases "p_rule n r ts") (auto simp: pchain_def dest!: IH split: sum.splits)
  show ?case
    using Suc.prems(1) unfolding m(1)
    by (cases r) (auto simp del: pchain_simps dest: IH elim!: pc split: list.splits token.splits if_splits)
qed simp

lemma parse_eq:
  assumes "p_rule n R_or ts = Some (Inr (nd, []))" and "ts \<noteq> []"
  shows "parse ts = Inr nd"
proof -
  obtain y where y: "p_rule (parse_fuel ts) R_or ts = Some y"
    using parse_fuel_enough [of ts] by blast
  have "y = Inr (nd, [])"
    using p_rule_mono [OF y, of "n + parse_fuel ts"] p_rule_mono [OF assms(1), of "n + parse_fuel ts"] by simp
  with y assms(2) show ?thesis
    by (simp add: parse_def)
qed

subsection \<open>Printing with the least parentheses, and reading back\<close>

text \<open>\<open>unparse k\<close> prints for a position that accepts an \<open>_or\<close> (0), an \<open>_and\<close> (1) or a \<open>_not\<close> (2).\<close>

definition paren :: "bool \<Rightarrow> token list \<Rightarrow> token list" where
  "paren b ts = (if b then Lparen # ts @ [Rparen] else ts)"

fun unparse :: "nat \<Rightarrow> node \<Rightarrow> token list" where
  "unparse k (Pred p) = [Word p]"
| "unparse k (Not n) = Word ''NOT'' # unparse 2 n"
| "unparse k (And l r) = paren (1 < k) (unparse 1 l @ Word ''AND'' # unparse 2 r)"
| "unparse k (Or l r) = paren (0 < k) (unparse 0 l @ Word ''OR'' # unparse 1 r)"

definition ident :: "string \<Rightarrow> bool" where
  "ident w \<longleftrightarrow> (case w of [] \<Rightarrow> False | c # cs \<Rightarrow> is_ident_start c \<and> list_all is_ident_char cs)"

definition valid_names :: "node \<Rightarrow> bool" where
  "valid_names nd \<longleftrightarrow> (\<forall>p \<in> predicate_names nd. ident p \<and> \<not> is_keyword p)"

lemma valid_names_simps [simp]:
  "valid_names (Pred p) \<longleftrightarrow> ident p \<and> \<not> is_keyword p"
  "valid_names (Not n) \<longleftrightarrow> valid_names n"
  "valid_names (And l r) \<longleftrightarrow> valid_names l \<and> valid_names r"
  "valid_names (Or l r) \<longleftrightarrow> valid_names l \<and> valid_names r"
  by (auto simp: valid_names_def)

text \<open>The fuel-free reading of the parser: some fuel gives this result.\<close>

definition reads :: "rule \<Rightarrow> token list \<Rightarrow> exn + node \<times> token list \<Rightarrow> bool" where
  "reads r ts y \<longleftrightarrow> (\<exists>n. p_rule n r ts = Some y)"

lemma reads_combine:
  assumes "reads r ts (Inr (x, ts'))" and "reads r' ts' y"
  shows "\<exists>n. p_rule n r ts = Some (Inr (x, ts')) \<and> p_rule n r' ts' = Some y"
proof -
  obtain n m where "p_rule n r ts = Some (Inr (x, ts'))" "p_rule m r' ts' = Some y"
    using assms by (auto simp: reads_def)
  then have "p_rule (max n m) r ts = Some (Inr (x, ts'))" "p_rule (max n m) r' ts' = Some y"
    by (auto elim: p_rule_mono)
  then show ?thesis by blast
qed

lemma reads_Suc2:
  "reads r ts (Inr (x, ts')) \<Longrightarrow> reads r' ts' y \<Longrightarrow>
   (\<And>n. p_rule n r ts = Some (Inr (x, ts')) \<Longrightarrow> p_rule n r' ts' = Some y \<Longrightarrow> p_rule (Suc n) r'' us = Some z) \<Longrightarrow>
   reads r'' us z"
  using reads_combine unfolding reads_def by blast

lemma reads_Suc1:
  "reads r ts y \<Longrightarrow> (\<And>n. p_rule n r ts = Some y \<Longrightarrow> p_rule (Suc n) r' us = Some z) \<Longrightarrow> reads r' us z"
  unfolding reads_def by blast

lemma reads_or: "reads R_and ts (Inr (x, ts')) \<Longrightarrow> reads (R_or_loop x) ts' y \<Longrightarrow> reads R_or ts y"
  by (erule (1) reads_Suc2) simp

lemma reads_and: "reads R_not ts (Inr (x, ts')) \<Longrightarrow> reads (R_and_loop x) ts' y \<Longrightarrow> reads R_and ts y"
  by (erule (1) reads_Suc2) simp

lemma reads_or_step:
  "reads R_and ts (Inr (x, ts')) \<Longrightarrow> reads (R_or_loop (Or nd x)) ts' y \<Longrightarrow> reads (R_or_loop nd) (Word ''OR'' # ts) y"
  by (erule (1) reads_Suc2) simp

lemma reads_and_step:
  "reads R_not ts (Inr (x, ts')) \<Longrightarrow> reads (R_and_loop (And nd x)) ts' y \<Longrightarrow> reads (R_and_loop nd) (Word ''AND'' # ts) y"
  by (erule (1) reads_Suc2) simp

lemma reads_not: "reads R_not ts (Inr (x, ts')) \<Longrightarrow> reads R_not (Word ''NOT'' # ts) (Inr (Not x, ts'))"
  by (erule reads_Suc1) simp

lemma reads_pred: "\<not> is_keyword p \<Longrightarrow> reads R_not (Word p # ts) (Inr (Pred p, ts))"
  unfolding reads_def by (rule exI [where x = "Suc (Suc 0)"]) (auto simp: is_keyword_def)

lemma reads_paren: "reads R_or ts (Inr (x, Rparen # ts')) \<Longrightarrow> reads R_not (Lparen # ts) (Inr (x, ts'))"
  by (rule reads_Suc1 [where r = R_atom], erule reads_Suc1) simp_all

text \<open>A token list no loop continues on.\<close>

definition stops :: "string \<Rightarrow> token list \<Rightarrow> bool" where
  "stops w ts \<longleftrightarrow> (\<forall>ts'. ts \<noteq> Word w # ts')"

lemma stops_simps [simp]:
  "stops w []" "stops w (Rparen # ts)" "stops w (Lparen # ts)" "stops w (Word v # ts) \<longleftrightarrow> v \<noteq> w"
  by (auto simp: stops_def)

lemma loops_stop:
  "stops ''OR'' ts \<Longrightarrow> reads (R_or_loop nd) ts (Inr (nd, ts))"
  "stops ''AND'' ts \<Longrightarrow> reads (R_and_loop nd) ts (Inr (nd, ts))"
  unfolding reads_def by (auto simp: stops_def intro!: exI [where x = "Suc 0"] split: list.splits token.splits)


lemma reads_unparse:
  assumes "valid_names nd"
  shows "stops ''AND'' ts \<Longrightarrow> reads (R_or_loop nd) ts y \<Longrightarrow> reads R_or (unparse 0 nd @ ts) y"
    and "reads (R_and_loop nd) ts z \<Longrightarrow> reads R_and (unparse 1 nd @ ts) z"
    and "reads R_not (unparse 2 nd @ ts) (Inr (nd, ts))"
  using assms
proof (induction nd arbitrary: ts y z)
  case (Pred p)
  { case 1 then show ?case by (auto intro: reads_or reads_and reads_pred loops_stop)
  next case 2 then show ?case by (auto intro: reads_and reads_pred)
  next case 3 then show ?case by (auto intro: reads_pred) }
next
  case (Not n)
  { case 1 then show ?case by (auto intro: reads_or reads_and reads_not loops_stop Not.IH)
  next case 2 then show ?case by (auto intro: reads_and reads_not Not.IH)
  next case 3 then show ?case by (auto intro: reads_not Not.IH) }
next
  case (And l r)
  have level1: "reads R_and (unparse 1 (And l r) @ ts) z"
    if "reads (R_and_loop (And l r)) ts z" "valid_names (And l r)" for ts z
    using that And.IH(2) [of "Word ''AND'' # unparse 2 r @ ts" z] And.IH(6) [of ts]
    by (auto simp: paren_def intro: reads_and_step)
  have level0: "reads R_or (unparse 0 (And l r) @ ts) y"
    if "stops ''AND'' ts" "reads (R_or_loop (And l r)) ts y" "valid_names (And l r)" for ts y
    using reads_or [OF level1 that(2)] that by (auto simp: paren_def intro: loops_stop)
  { case 1 then show ?case by (rule level0)
  next case 2 then show ?case by (rule level1)
  next case 3
    then have "reads R_or (unparse 0 (And l r) @ Rparen # ts) (Inr (And l r, Rparen # ts))"
      by (intro level0 loops_stop) auto
    then show ?case
      by (auto simp: paren_def dest: reads_paren) }
next
  case (Or l r)
  have level0: "reads R_or (unparse 0 (Or l r) @ ts) y"
    if "stops ''AND'' ts" "reads (R_or_loop (Or l r)) ts y" "valid_names (Or l r)" for ts y
    using that Or.IH(1) [of "Word ''OR'' # unparse 1 r @ ts" y] Or.IH(5) [of ts]
    by (auto simp: paren_def intro: reads_or_step loops_stop)
  have level2: "reads R_not (unparse 2 (Or l r) @ ts) (Inr (Or l r, ts))" if "valid_names (Or l r)" for ts
  proof -
    have "reads R_or (unparse 0 (Or l r) @ Rparen # ts) (Inr (Or l r, Rparen # ts))"
      by (intro level0 loops_stop) (use that in auto)
    then show ?thesis
      by (auto simp: paren_def dest: reads_paren)
  qed
  { case 1 then show ?case by (rule level0)
  next case 2 then show ?case using reads_and [OF level2] by (auto simp: paren_def)
  next case 3 then show ?case by (rule level2) }
qed

lemma unparse_nonempty: "unparse k nd \<noteq> []"
  by (cases nd) (auto simp: paren_def)

lemma parse_unparse: "valid_names nd \<Longrightarrow> parse (unparse 0 nd) = Inr nd"
  using reads_unparse(1) [of nd "[]" "Inr (nd, [])"]
  by (auto simp: reads_def loops_stop [unfolded reads_def] unparse_nonempty intro: parse_eq)

subsection \<open>Text\<close>

primrec token_text :: "token \<Rightarrow> string" where
  "token_text Lparen = ''(''"
| "token_text Rparen = '')''"
| "token_text (Word w) = w"

definition render :: "token list \<Rightarrow> string" where
  "render ts = concat (map (\<lambda>t. token_text t @ '' '') ts)"

definition guard_text :: "node \<Rightarrow> string" where
  "guard_text nd = render (unparse 0 nd)"

definition words_ok :: "token list \<Rightarrow> bool" where
  "words_ok ts \<longleftrightarrow> (\<forall>w. Word w \<in> set ts \<longrightarrow> ident w)"

lemma words_ok_simps [simp]:
  "words_ok []" "words_ok (Lparen # ts) \<longleftrightarrow> words_ok ts" "words_ok (Rparen # ts) \<longleftrightarrow> words_ok ts"
  "words_ok (Word w # ts) \<longleftrightarrow> ident w \<and> words_ok ts" "words_ok (xs @ ys) \<longleftrightarrow> words_ok xs \<and> words_ok ys"
  by (auto simp: words_ok_def)

lemma ident_start_not_special: "is_ident_start c \<Longrightarrow> \<not> is_blank c \<and> c \<noteq> CHR ''('' \<and> c \<noteq> CHR '')''"
  by (auto simp: is_ident_start_def is_blank_def Let_def)

lemma blank_not_ident [simp]: "\<not> is_ident_char CHR '' ''" "is_blank CHR '' ''"
  by (auto simp: is_ident_char_def is_ident_start_def is_blank_def)

lemma tokenize_blank [simp]: "tokenize (CHR '' '' # cs) = tokenize cs"
  by simp

lemma tokenize_word:
  assumes "ident w"
  shows "tokenize (w @ CHR '' '' # cs) = chain (tokenize cs) (\<lambda>ts. Inr (Word w # ts))"
proof -
  obtain c ds where w: "w = c # ds" "is_ident_start c" "list_all is_ident_char ds"
    using assms by (auto simp: ident_def split: list.splits)
  have "takeWhile is_ident_char (ds @ CHR '' '' # cs) = ds" "dropWhile is_ident_char (ds @ CHR '' '' # cs) = CHR '' '' # cs"
    using w(3) by (induction ds) (auto simp: blank_not_ident)
  then show ?thesis
    using w(1,2) ident_start_not_special [OF w(2)] by simp
qed

lemma tokenize_render: "words_ok ts \<Longrightarrow> tokenize (render ts) = Inr ts"
proof (induction ts)
  case (Cons t ts)
  have paren: "\<not> is_blank CHR ''(''" "\<not> is_blank CHR '')''"
    by (simp_all add: is_blank_def)
  from Cons show ?case
    by (cases t) (simp_all add: render_def tokenize_word paren)
qed (simp add: render_def)

lemma ident_keywords [simp]: "ident ''AND''" "ident ''OR''" "ident ''NOT''"
  by (simp_all add: ident_def is_ident_start_def is_ident_char_def)

lemma words_ok_unparse: "valid_names nd \<Longrightarrow> words_ok (unparse k nd)"
  by (induction nd arbitrary: k) (auto simp: paren_def)

lemma words_ok_tokenize: "tokenize s = Inr ts \<Longrightarrow> words_ok ts"
proof (induction s arbitrary: ts rule: tokenize.induct)
  case (2 c cs)
  have "ident (c # takeWhile is_ident_char cs)" if "is_ident_start c"
    using that by (auto simp: ident_def list_all_iff dest: set_takeWhileD)
  with 2 show ?case
    by (auto simp: chain_eq_Inr split: if_splits)
qed simp

definition rule_node_ok :: "rule \<Rightarrow> bool" where
  "rule_node_ok r \<longleftrightarrow> (case r of R_or_loop nd \<Rightarrow> valid_names nd | R_and_loop nd \<Rightarrow> valid_names nd | _ \<Rightarrow> True)"

lemma p_rule_valid:
  "p_rule n r ts = Some (Inr (x, ts')) \<Longrightarrow> words_ok ts \<Longrightarrow> rule_node_ok r \<Longrightarrow> valid_names x \<and> words_ok ts'"
proof (induction n arbitrary: r ts x ts')
  case (Suc n)
  note IH = Suc.IH [unfolded rule_node_ok_def]
  show ?case
    using Suc.prems
    by (cases r)
       (auto simp: pchain_eq_Some expect_rparen_eq rule_node_ok_def dest!: IH split: list.splits token.splits if_splits)
qed simp

lemma parse_guard_expr_valid: "parse_guard_expr s = Inr nd \<Longrightarrow> valid_names nd"
  unfolding parse_guard_expr_def parse_def
  by (auto simp: chain_eq_Inr rule_node_ok_def split: if_splits option.splits sum.splits
        dest!: words_ok_tokenize p_rule_valid)

lemma parse_guard_text: "valid_names nd \<Longrightarrow> parse_guard_expr (guard_text nd) = Inr nd"
  by (simp add: parse_guard_expr_def guard_text_def tokenize_render words_ok_unparse parse_unparse)

subsection \<open>Evaluation\<close>

primrec denote :: "node \<Rightarrow> (string \<Rightarrow> bool) \<Rightarrow> bool" where
  "denote (Pred p) v = v p"
| "denote (Not n) v = (\<not> denote n v)"
| "denote (And l r) v = (denote l v \<and> denote r v)"
| "denote (Or l r) v = (denote l v \<or> denote r v)"

lemma eval_guard_expr_denote:
  "(\<And>p. p \<in> predicate_names nd \<Longrightarrow> vals p = Some (v p)) \<Longrightarrow> eval_guard_expr nd vals = Inr (denote nd v)"
  by (induction nd) auto

lemma finite_predicate_names [simp]: "finite (predicate_names nd)"
  by (induction nd) auto

text \<open>
  C34: the guard language has one reading.  Every expression tree over legal names, printed with its
  parentheses, parses back to itself; and the recursive descent never runs out of its fuel, so a text
  that does not parse is really malformed.
\<close>

theorem guard_expr_roundtrip:
  assumes "valid_names nd"
  shows "parse_guard_expr (guard_text nd) = Inr nd \<and> p_rule (parse_fuel ts) R_or ts \<noteq> None"
  using parse_guard_text [OF assms] parse_fuel_enough by simp

theorem guard_expr_roundtrip_witness:
  "parse_guard_expr (guard_text (Or (Pred ''a'') (And (Not (Pred ''b'')) (Or (Pred ''c'') (Pred ''d''))))) =
     Inr (Or (Pred ''a'') (And (Not (Pred ''b'')) (Or (Pred ''c'') (Pred ''d''))))"
  using guard_expr_roundtrip [of "Or (Pred ''a'') (And (Not (Pred ''b'')) (Or (Pred ''c'') (Pred ''d'')))" "[]"]
  by (simp add: ident_def is_ident_start_def is_ident_char_def is_keyword_def)

end
