(* ===== verification/Transition_Engine.thy ===== *)
theory Transition_Engine
  imports Guard_Expr Contracts
begin

text \<open>
  The declarative state machine: the predicate registry of \<open>state_machine/guards.py\<close>, the tables of
  \<open>state_machine/transition_table.py\<close> and the evaluator of \<open>state_machine/engine.py\<close>.  A guard
  predicate is code the registry only calls: its name, its declared inputs and the function.
\<close>

record guard_predicate =
  gp_name :: string
  gp_declared_inputs :: "string list"
  gp_call :: "dict \<Rightarrow> exn + bool"

type_synonym predicate_registry = "(string \<times> guard_predicate) list"

definition register_predicate :: "predicate_registry \<Rightarrow> guard_predicate \<Rightarrow> exn + predicate_registry" where
  "register_predicate reg p =
     (if map_of reg (gp_name p) \<noteq> None then Inl PredicateRegistrationError
      else Inr ((gp_name p, p) # reg))"

definition get_predicate :: "predicate_registry \<Rightarrow> string \<Rightarrow> exn + guard_predicate" where
  "get_predicate reg name = (case map_of reg name of None \<Rightarrow> Inl KeyError | Some p \<Rightarrow> Inr p)"

text \<open>The restricted view: only the declared inputs, each of which must be present.\<close>

fun declared_view :: "string list \<Rightarrow> dict \<Rightarrow> exn + dict" where
  "declared_view [] inputs = Inr []"
| "declared_view (k # ks) inputs =
     (case map_of inputs k of
        None \<Rightarrow> Inl KeyError
      | Some v \<Rightarrow> chain (declared_view ks inputs) (\<lambda>view. Inr ((k, v) # filter (\<lambda>(k', _). k' \<noteq> k) view)))"

text \<open>The names in \<open>sorted()\<close> order.  Strings compare by code point.\<close>

definition str_le :: "string \<Rightarrow> string \<Rightarrow> bool" where
  "str_le s t \<longleftrightarrow> s = t \<or> (s, t) \<in> lexord {(a, b). (of_char a :: nat) < of_char b}"

fun insert_name :: "string \<Rightarrow> string list \<Rightarrow> string list" where
  "insert_name s [] = [s]"
| "insert_name s (t # ts) = (if s = t then t # ts else if str_le s t then s # t # ts else t # insert_name s ts)"

fun sorted_names :: "node \<Rightarrow> string list" where
  "sorted_names (Pred p) = [p]"
| "sorted_names (Not n) = sorted_names n"
| "sorted_names (And l r) = foldr insert_name (sorted_names l) (sorted_names r)"
| "sorted_names (Or l r) = foldr insert_name (sorted_names l) (sorted_names r)"

fun eval_predicates ::
  "predicate_registry \<Rightarrow> dict \<Rightarrow> string list \<Rightarrow> exn + (string \<times> bool) list \<times> dict" where
  "eval_predicates reg inputs [] = Inr ([], [])"
| "eval_predicates reg inputs (name # names) =
     chain (get_predicate reg name) (\<lambda>p.
     chain (declared_view (gp_declared_inputs p) inputs) (\<lambda>view.
     chain (gp_call p view) (\<lambda>b.
     chain (eval_predicates reg inputs names) (\<lambda>(per, resolved).
       Inr ((name, b) # per, view @ filter (\<lambda>(k, _). map_of view k = None) resolved)))))"

definition registry_evaluate :: "predicate_registry \<Rightarrow> string \<Rightarrow> dict \<Rightarrow> exn + GuardOutcome" where
  "registry_evaluate reg guard_expr inputs =
     chain (parse_guard_expr guard_expr) (\<lambda>node.
     chain (eval_predicates reg inputs (sorted_names node)) (\<lambda>(per, resolved).
     chain (eval_guard_expr node (map_of per)) (\<lambda>passed.
       Inr \<lparr>go_passed = passed, go_resolved_inputs = resolved, go_per_predicate = per\<rparr>)))"

record Transition =
  tr_table_version :: int
  tr_from_state :: string
  tr_to_state :: string
  tr_trigger :: string
  tr_guard_expr :: "string option"
  tr_guard_inputs :: dict
  tr_precedence :: int
  tr_on_success :: "(string \<times> string) list"
  tr_on_guard_fail :: "(string \<times> string) list option"

record TransitionTable =
  tt_kind :: string
  tt_table_version :: int
  tt_transitions :: "Transition list"

text \<open>\<open>sorted(hits, key=precedence, reverse=True)\<close>: descending, stable for equal keys.\<close>

definition table_matches :: "TransitionTable \<Rightarrow> string \<Rightarrow> string \<Rightarrow> Transition list" where
  "table_matches table from_state trigger =
     (let hits = filter (\<lambda>t. tr_from_state t = from_state \<and> tr_trigger t = trigger) (tt_transitions table)
      in sort_key (\<lambda>t. - tr_precedence t) hits)"

definition transition_states :: "Transition \<Rightarrow> string set" where
  "transition_states t =
     {tr_from_state t, tr_to_state t} \<union> set_option (map_of (tr_on_success t) ''to'')
     \<union> (case tr_on_guard_fail t of None \<Rightarrow> {} | Some ogf \<Rightarrow> set_option (map_of ogf ''to''))"

definition table_states :: "TransitionTable \<Rightarrow> string set" where
  "table_states table = (\<Union>t \<in> set (tt_transitions table). transition_states t)"

text \<open>
  The set of what is bound: only hashable values fit into it.  Its \<open>sorted\<close> text is part of an error
  message, and values of different kinds (texts, numbers, null) have no order.
\<close>

fun hashable :: "json \<Rightarrow> bool" where
  "hashable (JArr _) = False"
| "hashable (JObj _) = False"
| "hashable _ = True"

definition binding_set :: "json \<Rightarrow> exn + json set" where
  "binding_set bound =
     (case bound of
        JStr s \<Rightarrow> Inr {JStr s}
      | JArr xs \<Rightarrow> if list_all hashable xs then Inr (set xs) else Inl TypeError
      | _ \<Rightarrow> Inl TransitionTableError)"

fun order_kind :: "json \<Rightarrow> nat" where
  "order_kind JNull = 0"
| "order_kind (JStr _) = 1"
| "order_kind _ = 2"

definition sortable :: "json set \<Rightarrow> bool" where
  "sortable bs \<longleftrightarrow> (\<forall>x \<in> bs. \<forall>y \<in> bs. order_kind x = order_kind y)"

text \<open>
  The per-predicate part of \<open>_validate\<close>.  The code goes through the names in the order of a set, which
  only decides which of several exceptions is raised; here it is the order of the sorted names.
\<close>

fun validate_bindings :: "predicate_registry \<Rightarrow> dict \<Rightarrow> string list \<Rightarrow> exn + unit" where
  "validate_bindings reg binds [] = Inr ()"
| "validate_bindings reg binds (name # names) =
     (case get_predicate reg name of
        Inl _ \<Rightarrow> Inl TransitionTableError
      | Inr p \<Rightarrow>
          (if dget binds name = JNull then Inl TransitionTableError
           else chain (binding_set (dget binds name)) (\<lambda>bs.
             if bs \<noteq> JStr ` set (gp_declared_inputs p) then Inl (if sortable bs then TransitionTableError else TypeError)
             else validate_bindings reg binds names)))"

definition declares_to_emits :: "(string \<times> string) list \<Rightarrow> bool" where
  "declares_to_emits d \<longleftrightarrow> map_of d ''to'' \<noteq> None \<and> map_of d ''emits'' \<noteq> None"

definition validate_transition :: "predicate_registry \<Rightarrow> Transition \<Rightarrow> exn + unit" where
  "validate_transition reg t =
     (if \<not> declares_to_emits (tr_on_success t) then Inl TransitionTableError
      else case tr_guard_expr t of
        None \<Rightarrow> Inr ()
      | Some ge \<Rightarrow>
          (case tr_on_guard_fail t of
             None \<Rightarrow> Inl TransitionTableError
           | Some ogf \<Rightarrow>
               if \<not> declares_to_emits ogf then Inl TransitionTableError
               else chain (parse_guard_expr ge) (\<lambda>node.
                 validate_bindings reg (tr_guard_inputs t) (sorted_names node))))"

fun validate_table ::
  "predicate_registry \<Rightarrow> (string \<times> string \<times> int) list \<Rightarrow> Transition list \<Rightarrow> exn + unit" where
  "validate_table reg seen [] = Inr ()"
| "validate_table reg seen (t # ts) =
     chain (validate_transition reg t) (\<lambda>_.
       (let key = (tr_from_state t, tr_trigger t, tr_precedence t)
        in if key \<in> set seen then Inl TransitionTableError else validate_table reg (key # seen) ts))"

record TransitionResult =
  rs_matched :: bool
  rs_passed :: bool
  rs_from_state :: string
  rs_to_state :: string
  rs_trigger :: string
  rs_emitted_event_type :: string
  rs_selected_precedence :: "int option"
  rs_guard_outcome :: "GuardOutcome option"
  rs_audit_payload :: dict

definition guard_block :: "string \<Rightarrow> GuardOutcome \<Rightarrow> dict" where
  "guard_block guard_expr outcome =
     [(''guard_expr'', JStr guard_expr), (''passed'', JBool (go_passed outcome)),
      (''resolved_inputs'', JObj (go_resolved_inputs outcome)),
      (''per_predicate'', JObj (map (\<lambda>(k, b). (k, JBool b)) (go_per_predicate outcome)))]"

definition str_item :: "(string \<times> string) list \<Rightarrow> string \<Rightarrow> exn + string" where
  "str_item d k = (case map_of d k of None \<Rightarrow> Inl KeyError | Some v \<Rightarrow> Inr v)"

definition evaluate_transition ::
  "TransitionTable \<Rightarrow> predicate_registry \<Rightarrow> string \<Rightarrow> string \<Rightarrow> dict \<Rightarrow> exn + TransitionResult" where
  "evaluate_transition table reg from_state trigger inputs =
     (case table_matches table from_state trigger of
        [] \<Rightarrow> Inr \<lparr>rs_matched = False, rs_passed = False, rs_from_state = from_state,
                rs_to_state = from_state, rs_trigger = trigger,
                rs_emitted_event_type = ''TRANSITION_REJECTED'',
                rs_selected_precedence = None, rs_guard_outcome = None,
                rs_audit_payload = [(''from_state'', JStr from_state), (''trigger'', JStr trigger),
                  (''reason'', JStr ''no_matching_transition'')]\<rparr>
      | selected # _ \<Rightarrow>
          (case tr_guard_expr selected of
             None \<Rightarrow>
               chain (str_item (tr_on_success selected) ''to'') (\<lambda>to.
               chain (str_item (tr_on_success selected) ''emits'') (\<lambda>emits.
               Inr \<lparr>rs_matched = True, rs_passed = True, rs_from_state = from_state,
                 rs_to_state = to, rs_trigger = trigger, rs_emitted_event_type = emits,
                 rs_selected_precedence = Some (tr_precedence selected), rs_guard_outcome = None,
                 rs_audit_payload = [(''from_state'', JStr from_state), (''to_state'', JStr to),
                   (''trigger'', JStr trigger), (''guard'', JNull)]\<rparr>))
           | Some ge \<Rightarrow>
               chain (registry_evaluate reg ge inputs) (\<lambda>outcome.
               chain (if go_passed outcome then Inr (tr_on_success selected)
                      else case tr_on_guard_fail selected of None \<Rightarrow> Inl ValueError | Some ogf \<Rightarrow> Inr ogf) (\<lambda>target.
               chain (str_item target ''to'') (\<lambda>to.
               chain (str_item target ''emits'') (\<lambda>emits.
               Inr \<lparr>rs_matched = True, rs_passed = go_passed outcome, rs_from_state = from_state,
                 rs_to_state = to, rs_trigger = trigger, rs_emitted_event_type = emits,
                 rs_selected_precedence = Some (tr_precedence selected), rs_guard_outcome = Some outcome,
                 rs_audit_payload = [(''from_state'', JStr from_state), (''to_state'', JStr to),
                   (''trigger'', JStr trigger), (''guard'', JObj (guard_block ge outcome))]\<rparr>))))))"


subsection \<open>Installing and loading tables\<close>

record sm_store =
  run_transition_table :: "Transition list"
  feature_lifecycle_table :: "Transition list"

definition sm_rows :: "string \<Rightarrow> sm_store \<Rightarrow> Transition list" where
  "sm_rows kind st = (if kind = ''run'' then run_transition_table st else feature_lifecycle_table st)"

definition row_key :: "Transition \<Rightarrow> int \<times> string \<times> string \<times> int" where
  "row_key t = (tr_table_version t, tr_from_state t, tr_trigger t, tr_precedence t)"

text \<open>One \<open>INSERT\<close>, with the primary key of \<open>state_machine/ddl.py\<close>.\<close>

definition insert_transition :: "string \<Rightarrow> int \<Rightarrow> Transition \<Rightarrow> (sm_store, unit) prog" where
  "insert_transition kind version t = (\<lambda>st.
     let row = t\<lparr>tr_table_version := version\<rparr>
     in if row_key row \<in> row_key ` set (sm_rows kind st) then (Inl (UniqueViolation ''transition_table_pkey''), st)
        else if kind = ''run'' then (Inr (), st\<lparr>run_transition_table := run_transition_table st @ [row]\<rparr>)
        else (Inr (), st\<lparr>feature_lifecycle_table := feature_lifecycle_table st @ [row]\<rparr>))"

definition install_transition_table ::
  "string \<Rightarrow> int \<Rightarrow> Transition list \<Rightarrow> predicate_registry \<Rightarrow> (sm_store, unit) prog" where
  "install_transition_table kind version transitions reg =
     andthen (require (kind \<in> {''run'', ''feature''}) TransitionTableError) (\<lambda>_.
     andthen (lift (validate_table reg [] transitions)) (\<lambda>_.
     andthen (for_each transitions (insert_transition kind version)) (\<lambda>_. ret ())))"

definition load_transition_table :: "string \<Rightarrow> int \<Rightarrow> (sm_store, TransitionTable) prog" where
  "load_transition_table kind version =
     andthen (require (kind \<in> {''run'', ''feature''}) TransitionTableError) (\<lambda>_.
     query (\<lambda>st. \<lparr>tt_kind = kind, tt_table_version = version,
       tt_transitions = filter (\<lambda>t. tr_table_version t = version) (sm_rows kind st)\<rparr>))"

subsection \<open>The predicates a guard reads\<close>

lemma set_insert_name [simp]: "set (insert_name s ts) = insert s (set ts)"
  by (induction ts) auto

lemma set_foldr_insert_name [simp]: "set (foldr insert_name xs ys) = set xs \<union> set ys"
  by (induction xs) auto

lemma set_sorted_names [simp]: "set (sorted_names nd) = predicate_names nd"
  by (induction nd) auto

text \<open>What one predicate answers on the inputs, through its restricted view.\<close>

definition predicate_value :: "predicate_registry \<Rightarrow> dict \<Rightarrow> string \<Rightarrow> exn + bool" where
  "predicate_value reg inputs name =
     chain (get_predicate reg name) (\<lambda>p. chain (declared_view (gp_declared_inputs p) inputs) (gp_call p))"

lemma eval_predicates_Inr:
  "eval_predicates reg inputs names = Inr (per, resolved) \<Longrightarrow>
     map fst per = names \<and> (\<forall>n \<in> set names. \<exists>b. predicate_value reg inputs n = Inr b \<and> map_of per n = Some b)"
  by (induction names arbitrary: per resolved)
     (auto simp: chain_eq_Inr predicate_value_def split: if_splits)

lemma eval_predicates_total:
  "(\<And>n. n \<in> set names \<Longrightarrow> \<exists>b. predicate_value reg inputs n = Inr b) \<Longrightarrow>
     \<exists>per resolved. eval_predicates reg inputs names = Inr (per, resolved)"
proof (induction names)
  case (Cons n names)
  obtain b where "predicate_value reg inputs n = Inr b"
    using Cons.prems by auto
  moreover obtain per resolved where "eval_predicates reg inputs names = Inr (per, resolved)"
    using Cons by auto
  ultimately show ?case
    by (auto simp: predicate_value_def chain_eq_Inr)
qed simp

definition truth :: "predicate_registry \<Rightarrow> dict \<Rightarrow> string \<Rightarrow> bool" where
  "truth reg inputs n \<longleftrightarrow> predicate_value reg inputs n = Inr True"

lemma registry_evaluate_denote:
  assumes nd: "parse_guard_expr ge = Inr nd"
    and vals: "\<And>n. n \<in> predicate_names nd \<Longrightarrow> \<exists>b. predicate_value reg inputs n = Inr b"
  obtains out where "registry_evaluate reg ge inputs = Inr out" "go_passed out = denote nd (truth reg inputs)"
proof -
  obtain per resolved where per: "eval_predicates reg inputs (sorted_names nd) = Inr (per, resolved)"
    using eval_predicates_total [of "sorted_names nd" reg inputs] vals by auto
  have "map_of per n = Some (truth reg inputs n)" if "n \<in> predicate_names nd" for n
    using eval_predicates_Inr [OF per] that by (auto simp: truth_def)
  then have "eval_guard_expr nd (map_of per) = Inr (denote nd (truth reg inputs))"
    by (rule eval_guard_expr_denote)
  with nd per that show thesis
    by (auto simp: registry_evaluate_def)
qed

lemma registry_evaluate_passed:
  assumes "registry_evaluate reg ge inputs = Inr out"
  obtains nd where "parse_guard_expr ge = Inr nd" "go_passed out = denote nd (truth reg inputs)"
proof -
  obtain nd per resolved where nd: "parse_guard_expr ge = Inr nd"
    and "eval_predicates reg inputs (sorted_names nd) = Inr (per, resolved)"
    using assms by (auto simp: registry_evaluate_def chain_eq_Inr)
  then have "\<exists>b. predicate_value reg inputs n = Inr b" if "n \<in> predicate_names nd" for n
    using that eval_predicates_Inr by fastforce
  from registry_evaluate_denote [OF nd this] that assms nd show thesis
    by (metis sum.inject(2))
qed

subsection \<open>Validated tables\<close>

definition sm_key :: "Transition \<Rightarrow> string \<times> string \<times> int" where
  "sm_key t = (tr_from_state t, tr_trigger t, tr_precedence t)"

lemma validate_table_Inr:
  "validate_table reg seen ts = Inr () \<longleftrightarrow>
     (\<forall>t \<in> set ts. validate_transition reg t = Inr ()) \<and> distinct (map sm_key ts)
     \<and> set (map sm_key ts) \<inter> set seen = {}"
  by (induction ts arbitrary: seen) (auto simp: chain_eq_Inr Let_def sm_key_def)

lemma validate_transition_targets:
  assumes "validate_transition reg t = Inr ()"
  shows "\<exists>to emits. str_item (tr_on_success t) ''to'' = Inr to \<and> str_item (tr_on_success t) ''emits'' = Inr emits"
    and "tr_guard_expr t = Some ge \<Longrightarrow> \<exists>ogf to emits nd. tr_on_guard_fail t = Some ogf
           \<and> str_item ogf ''to'' = Inr to \<and> str_item ogf ''emits'' = Inr emits \<and> parse_guard_expr ge = Inr nd"
  using assms
  by (auto simp: validate_transition_def declares_to_emits_def str_item_def chain_eq_Inr
        split: if_splits option.splits)

text \<open>The head of \<open>matches\<close> is a row for the state and trigger whose precedence no other one exceeds.\<close>

lemma table_matches_Nil:
  "table_matches table fs trg = [] \<longleftrightarrow>
     \<not> (\<exists>t \<in> set (tt_transitions table). tr_from_state t = fs \<and> tr_trigger t = trg)"
proof -
  have "table_matches table fs trg = [] \<longleftrightarrow> set (table_matches table fs trg) = {}"
    by simp
  then show ?thesis
    unfolding table_matches_def Let_def set_sort by auto
qed

lemma table_matches_Cons:
  assumes "table_matches table fs trg = sel # rest"
  shows "sel \<in> set (tt_transitions table)" "tr_from_state sel = fs" "tr_trigger sel = trg"
    and "\<And>t. t \<in> set (tt_transitions table) \<Longrightarrow> tr_from_state t = fs \<Longrightarrow> tr_trigger t = trg
           \<Longrightarrow> tr_precedence t \<le> tr_precedence sel"
proof -
  let ?hits = "filter (\<lambda>t. tr_from_state t = fs \<and> tr_trigger t = trg) (tt_transitions table)"
  have eq: "sort_key (\<lambda>t. - tr_precedence t) ?hits = sel # rest"
    using assms by (simp add: table_matches_def Let_def)
  then have set: "set ?hits = set (sel # rest)"
    by (metis set_sort)
  have "sorted (map (\<lambda>t. - tr_precedence t) (sel # rest))"
    using eq by (metis sorted_sort_key)
  then have "tr_precedence t \<le> tr_precedence sel" if "t \<in> set ?hits" for t
    using that unfolding set by auto
  with set show "sel \<in> set (tt_transitions table)" "tr_from_state sel = fs" "tr_trigger sel = trg"
    "\<And>t. t \<in> set (tt_transitions table) \<Longrightarrow> tr_from_state t = fs \<Longrightarrow> tr_trigger t = trg
           \<Longrightarrow> tr_precedence t \<le> tr_precedence sel"
    by auto
qed

text \<open>The rows that win: the selected one is the only row of its precedence in a validated table.\<close>

definition wins :: "TransitionTable \<Rightarrow> string \<Rightarrow> string \<Rightarrow> Transition \<Rightarrow> bool" where
  "wins table fs trg t \<longleftrightarrow> t \<in> set (tt_transitions table) \<and> tr_from_state t = fs \<and> tr_trigger t = trg
     \<and> (\<forall>u \<in> set (tt_transitions table). tr_from_state u = fs \<longrightarrow> tr_trigger u = trg \<longrightarrow> u \<noteq> t
           \<longrightarrow> tr_precedence u < tr_precedence t)"

lemma table_matches_wins:
  assumes "validate_table reg [] (tt_transitions table) = Inr ()"
    and "table_matches table fs trg = sel # rest"
  shows "wins table fs trg sel"
proof -
  have "inj_on sm_key (set (tt_transitions table))"
    using assms(1) by (simp add: validate_table_Inr distinct_map)
  with table_matches_Cons [OF assms(2)] show ?thesis
    unfolding wins_def sm_key_def inj_on_def by (metis order_le_less)
qed

lemma wins_unique: "wins table fs trg t \<Longrightarrow> wins table fs trg u \<Longrightarrow> t = u"
  unfolding wins_def by (metis order_less_asym)

lemma wins_matches:
  assumes "validate_table reg [] (tt_transitions table) = Inr ()" "wins table fs trg t"
  obtains rest where "table_matches table fs trg = t # rest"
proof (cases "table_matches table fs trg")
  case Nil
  with assms(2) show thesis by (auto simp: table_matches_Nil wins_def)
next
  case (Cons sel rest)
  with table_matches_wins [OF assms(1) Cons] assms(2) that show thesis
    by (metis wins_unique)
qed

text \<open>The target the table declares for a row when its guard has the value \<open>b\<close>.\<close>

definition row_target :: "Transition \<Rightarrow> bool \<Rightarrow> (string \<times> string) list" where
  "row_target t b = (if b then tr_on_success t else the (tr_on_guard_fail t))"


text \<open>The value of a row's guard: an unguarded row passes.\<close>

definition guard_holds :: "predicate_registry \<Rightarrow> dict \<Rightarrow> Transition \<Rightarrow> bool" where
  "guard_holds reg inputs t =
     (case tr_guard_expr t of None \<Rightarrow> True | Some ge \<Rightarrow> denote (projr (parse_guard_expr ge)) (truth reg inputs))"

text \<open>Every predicate of the row's guard answers on the inputs.\<close>

definition guard_resolves :: "predicate_registry \<Rightarrow> dict \<Rightarrow> Transition \<Rightarrow> bool" where
  "guard_resolves reg inputs t \<longleftrightarrow>
     (case tr_guard_expr t of None \<Rightarrow> True
      | Some ge \<Rightarrow> \<forall>n \<in> predicate_names (projr (parse_guard_expr ge)). \<not> isl (predicate_value reg inputs n))"

lemma evaluate_transition_winner:
  assumes valid: "validate_table reg [] (tt_transitions table) = Inr ()"
    and wins: "wins table fs trg t"
    and res: "guard_resolves reg inputs t"
  shows "\<exists>r. evaluate_transition table reg fs trg inputs = Inr r
    \<and> rs_matched r \<and> rs_passed r = guard_holds reg inputs t \<and> rs_from_state r = fs
    \<and> rs_selected_precedence r = Some (tr_precedence t)
    \<and> str_item (row_target t (rs_passed r)) ''to'' = Inr (rs_to_state r)
    \<and> str_item (row_target t (rs_passed r)) ''emits'' = Inr (rs_emitted_event_type r)"
proof -
  obtain rest where m: "table_matches table fs trg = t # rest"
    using wins_matches [OF valid wins] .
  have vt: "validate_transition reg t = Inr ()"
    using valid wins by (auto simp: validate_table_Inr wins_def)
  obtain to emits where ok: "str_item (tr_on_success t) ''to'' = Inr to" "str_item (tr_on_success t) ''emits'' = Inr emits"
    using validate_transition_targets(1) [OF vt] by blast
  show ?thesis
  proof (cases "tr_guard_expr t")
    case None
    with m ok show ?thesis
      by (simp add: evaluate_transition_def guard_holds_def row_target_def)
  next
    case (Some ge)
    obtain nd ogf fto femits where nd: "parse_guard_expr ge = Inr nd" and ogf: "tr_on_guard_fail t = Some ogf"
      and f: "str_item ogf ''to'' = Inr fto" "str_item ogf ''emits'' = Inr femits"
      using validate_transition_targets(2) [OF vt Some] by blast
    have "\<exists>b. predicate_value reg inputs n = Inr b" if "n \<in> predicate_names nd" for n
      using res that unfolding guard_resolves_def Some by (simp add: nd) (metis isl_def sumE)
    from registry_evaluate_denote [OF nd this] obtain out
      where out: "registry_evaluate reg ge inputs = Inr out" "go_passed out = denote nd (truth reg inputs)"
      by blast
    show ?thesis
      by (cases "go_passed out")
         (simp_all add: evaluate_transition_def guard_holds_def row_target_def m Some ok f ogf nd out(1) flip: out(2))
  qed
qed

lemma evaluate_transition_unmatched:
  "\<not> (\<exists>t \<in> set (tt_transitions table). tr_from_state t = fs \<and> tr_trigger t = trg) \<Longrightarrow>
     evaluate_transition table reg fs trg inputs =
       Inr \<lparr>rs_matched = False, rs_passed = False, rs_from_state = fs, rs_to_state = fs, rs_trigger = trg,
         rs_emitted_event_type = ''TRANSITION_REJECTED'', rs_selected_precedence = None, rs_guard_outcome = None,
         rs_audit_payload = [(''from_state'', JStr fs), (''trigger'', JStr trg), (''reason'', JStr ''no_matching_transition'')]\<rparr>"
  by (simp add: evaluate_transition_def table_matches_Nil [THEN iffD2])

lemma row_target_state:
  assumes "t \<in> set (tt_transitions table)" "validate_transition reg t = Inr ()"
    and "tr_guard_expr t = None \<Longrightarrow> b"
    and "str_item (row_target t b) ''to'' = Inr to"
  shows "to \<in> table_states table"
  using assms
  by (cases "tr_guard_expr t")
     (force simp: table_states_def transition_states_def row_target_def str_item_def validate_transition_def
        split: if_splits option.splits)+

lemma sm_wins_exists:
  assumes "validate_table reg [] (tt_transitions table) = Inr ()"
    and "t \<in> set (tt_transitions table)" "tr_from_state t = fs" "tr_trigger t = trg"
  obtains w where "wins table fs trg w"
proof (cases "table_matches table fs trg")
  case Nil
  with assms(2-4) show thesis by (auto simp: table_matches_Nil)
next
  case (Cons sel rest)
  with table_matches_wins [OF assms(1) Cons] that show thesis by blast
qed

subsection \<open>The installed rows\<close>

text \<open>Every stored row was validated, and the keys of each table are distinct.\<close>

definition rows_wf :: "predicate_registry \<Rightarrow> Transition list \<Rightarrow> bool" where
  "rows_wf reg rows \<longleftrightarrow> distinct (map row_key rows) \<and> (\<forall>t \<in> set rows. validate_transition reg t = Inr ())"

definition sm_wf :: "predicate_registry \<Rightarrow> sm_store \<Rightarrow> bool" where
  "sm_wf reg st \<longleftrightarrow> rows_wf reg (run_transition_table st) \<and> rows_wf reg (feature_lifecycle_table st)"

lemma sm_wf_rows: "sm_wf reg st \<Longrightarrow> rows_wf reg (sm_rows kind st)"
  by (simp add: sm_wf_def sm_rows_def)

lemma rows_wf_snoc:
  "rows_wf reg rows \<Longrightarrow> validate_transition reg t = Inr () \<Longrightarrow> row_key t \<notin> row_key ` set rows \<Longrightarrow> rows_wf reg (rows @ [t])"
  by (auto simp: rows_wf_def)

lemma validate_transition_version [simp]:
  "validate_transition reg (t\<lparr>tr_table_version := v\<rparr>) = validate_transition reg t"
  by (cases t) (simp add: validate_transition_def cong: option.case_cong if_cong)

lemma insert_transition_wf:
  "sm_wf reg st \<Longrightarrow> validate_transition reg t = Inr () \<Longrightarrow> sm_wf reg (snd (insert_transition kind v t st))"
  by (auto simp: sm_wf_def insert_transition_def Let_def sm_rows_def intro!: rows_wf_snoc)

lemma for_each_insert_wf:
  "sm_wf reg st \<Longrightarrow> (\<And>t. t \<in> set ts \<Longrightarrow> validate_transition reg t = Inr ()) \<Longrightarrow>
     sm_wf reg (snd (for_each ts (insert_transition kind v) st))"
proof (induction ts arbitrary: st)
  case (Cons t ts)
  have wf: "sm_wf reg (snd (insert_transition kind v t st))"
    using Cons.prems by (intro insert_transition_wf) auto
  have IH: "sm_wf reg (snd (for_each ts (insert_transition kind v) (snd (insert_transition kind v t st))))"
    using Cons.IH [OF wf] Cons.prems by auto
  with wf show ?case
    by (cases "insert_transition kind v t st")
       (auto simp: andthen_def split: sum.splits prod.splits)
qed simp

lemma install_keeps_wf:
  "sm_wf reg st \<Longrightarrow> sm_wf reg (snd (install_transition_table kind v ts reg st))"
  using for_each_insert_wf [of reg st ts kind v] validate_table_Inr [of reg "[]" ts]
  by (auto simp: install_transition_table_def andthen_def require_def split: prod.splits sum.splits)

lemma row_key_sm_key: "row_key t = (tr_table_version t, sm_key t)"
  by (simp add: row_key_def sm_key_def)

lemma load_validates:
  assumes "sm_wf reg st" "load_transition_table kind v st = (Inr table, st')"
  shows "validate_table reg [] (tt_transitions table) = Inr ()"
proof -
  have t: "tt_transitions table = filter (\<lambda>t. tr_table_version t = v) (sm_rows kind st)"
    using assms(2) by (auto simp: load_transition_table_def andthen_def require_def split: if_splits)
  have "distinct (map row_key (tt_transitions table))"
    using sm_wf_rows [OF assms(1)] by (simp add: t rows_wf_def distinct_map_filter)
  moreover have "map row_key (tt_transitions table) = map (Pair v) (map sm_key (tt_transitions table))"
    unfolding t by (simp add: row_key_sm_key)
  ultimately have "distinct (map sm_key (tt_transitions table))"
    by (metis distinct_map)
  with sm_wf_rows [OF assms(1)] show ?thesis
    by (auto simp: validate_table_Inr t rows_wf_def)
qed

subsection \<open>Properties\<close>

text \<open>
  C33: in a validated table the engine is deterministic and never falls through.  The one row of
  highest precedence for the state and trigger decides: the result's precedence is that row's, the
  guard is the Boolean value of its expression over the predicates, and the target and the emitted
  event are those the row declares for that value.  With the guard's predicates resolved the engine
  returns, without any of its exceptions, a state of the table.
\<close>

theorem engine_follows_winner:
  assumes "validate_table reg [] (tt_transitions table) = Inr ()" and "wins table fs trg t"
    and "guard_resolves reg inputs t"
  shows "\<exists>r. evaluate_transition table reg fs trg inputs = Inr r \<and> rs_matched r
    \<and> rs_selected_precedence r = Some (tr_precedence t) \<and> rs_passed r = guard_holds reg inputs t
    \<and> str_item (row_target t (guard_holds reg inputs t)) ''to'' = Inr (rs_to_state r)
    \<and> str_item (row_target t (guard_holds reg inputs t)) ''emits'' = Inr (rs_emitted_event_type r)
    \<and> rs_to_state r \<in> table_states table"
proof -
  obtain r where r: "evaluate_transition table reg fs trg inputs = Inr r" "rs_matched r"
    "rs_passed r = guard_holds reg inputs t" "rs_selected_precedence r = Some (tr_precedence t)"
    "str_item (row_target t (rs_passed r)) ''to'' = Inr (rs_to_state r)"
    "str_item (row_target t (rs_passed r)) ''emits'' = Inr (rs_emitted_event_type r)"
    using evaluate_transition_winner [OF assms] by blast
  have "rs_to_state r \<in> table_states table"
  proof (rule row_target_state [OF _ _ _ r(5)])
    show "t \<in> set (tt_transitions table)" "validate_transition reg t = Inr ()"
      using assms(1,2) by (auto simp: wins_def validate_table_Inr)
    show "tr_guard_expr t = None \<Longrightarrow> rs_passed r"
      by (simp add: r(3) guard_holds_def)
  qed
  with r show ?thesis by auto
qed

definition sample_row :: "int \<Rightarrow> string option \<Rightarrow> string \<Rightarrow> Transition" where
  "sample_row prec guard to =
     \<lparr>tr_table_version = 1, tr_from_state = ''DRAFT'', tr_to_state = to, tr_trigger = ''submit'',
      tr_guard_expr = guard, tr_guard_inputs = [(''ready'', JStr ''flag'')], tr_precedence = prec,
      tr_on_success = [(''to'', to), (''emits'', ''MOVED'')],
      tr_on_guard_fail = Some [(''to'', ''DRAFT''), (''emits'', ''GUARD_FAILED'')]\<rparr>"

definition sample_registry :: predicate_registry where
  "sample_registry = [(''ready'', \<lparr>gp_name = ''ready'', gp_declared_inputs = [''flag''],
     gp_call = (\<lambda>d. Inr (truthy (dget d ''flag'')))\<rparr>)]"

definition sample_table :: TransitionTable where
  "sample_table = \<lparr>tt_kind = ''run'', tt_table_version = 1,
     tt_transitions = [sample_row 1 None ''OPEN'', sample_row 9 (Some ''ready'') ''DONE'']\<rparr>"

lemma sample_parse: "parse_guard_expr ''ready'' = Inr (Pred ''ready'')"
  by code_simp

lemma sample_valid: "validate_table sample_registry [] (tt_transitions sample_table) = Inr ()"
  by (simp add: sample_table_def sample_row_def validate_transition_def declares_to_emits_def sample_parse
      sample_registry_def get_predicate_def binding_set_def Let_def)

theorem engine_follows_winner_witness:
  "\<exists>r. evaluate_transition sample_table sample_registry ''DRAFT'' ''submit'' [(''flag'', JBool False)] = Inr r
     \<and> rs_selected_precedence r = Some 9 \<and> rs_to_state r \<in> table_states sample_table"
proof -
  have w: "wins sample_table ''DRAFT'' ''submit'' (sample_row 9 (Some ''ready'') ''DONE'')"
    by (auto simp: wins_def sample_table_def sample_row_def)
  have "guard_resolves sample_registry [(''flag'', JBool False)] (sample_row 9 (Some ''ready'') ''DONE'')"
    by (simp add: guard_resolves_def sample_row_def sample_parse predicate_value_def sample_registry_def get_predicate_def)
  from engine_follows_winner [OF sample_valid w this] show ?thesis
    by (auto simp: sample_row_def)
qed

text \<open>
  A trigger no row declares for the state is rejected by value: the state stays, nothing is
  selected, and the event to emit is \<open>TRANSITION_REJECTED\<close>.
\<close>

theorem engine_rejects_unmatched:
  assumes "\<not> (\<exists>t \<in> set (tt_transitions table). tr_from_state t = fs \<and> tr_trigger t = trg)"
  shows "\<exists>r. evaluate_transition table reg fs trg inputs = Inr r \<and> \<not> rs_matched r \<and> \<not> rs_passed r
    \<and> rs_to_state r = fs \<and> rs_selected_precedence r = None \<and> rs_emitted_event_type r = ''TRANSITION_REJECTED''"
  using evaluate_transition_unmatched [OF assms] by simp

theorem engine_rejects_unmatched_witness:
  "\<exists>r. evaluate_transition sample_table sample_registry ''DONE'' ''submit'' [] = Inr r \<and> rs_to_state r = ''DONE''"
  using engine_rejects_unmatched [of sample_table "''DONE''" "''submit''" sample_registry "[]"]
  by (auto simp: sample_table_def sample_row_def)

text \<open>
  Whatever is installed, in whatever order and even when an installation fails part way, every
  table that loads from the stored rows is a validated table, so the engine's assumption holds for it.
\<close>

theorem installed_tables_stay_valid:
  assumes "sm_wf reg st" and "install_transition_table kind v ts reg st = (res, st')"
    and "load_transition_table kind' v' st' = (Inr table, st'')"
  shows "sm_wf reg st' \<and> validate_table reg [] (tt_transitions table) = Inr ()"
proof -
  have "sm_wf reg st'"
    using install_keeps_wf [OF assms(1), of kind v ts] by (simp add: assms(2))
  with load_validates [OF this assms(3)] show ?thesis by simp
qed

theorem installed_tables_stay_valid_witness:
  "sm_wf sample_registry (snd (install_transition_table ''run'' 1 (tt_transitions sample_table) sample_registry
     \<lparr>run_transition_table = [], feature_lifecycle_table = []\<rparr>))"
proof -
  define st' where "st' = snd (install_transition_table ''run'' 1 (tt_transitions sample_table) sample_registry
     \<lparr>run_transition_table = [], feature_lifecycle_table = []\<rparr>)"
  have "sm_wf sample_registry \<lparr>run_transition_table = [], feature_lifecycle_table = []\<rparr>"
    by (simp add: sm_wf_def rows_wf_def)
  from installed_tables_stay_valid [OF this, of "''run''" 1 "tt_transitions sample_table" _ st' "''run''" 1]
  show ?thesis
    by (auto simp: st'_def load_transition_table_def prod_eq_iff)
qed

end
