(* ===== verification/Privacy_Scan.thy ===== *)
theory Privacy_Scan
  imports Prelude
begin

text \<open>
  The inline-PII guard of \<open>privacy/classification.py\<close>.  The regular expressions are written out
  as matchers with Python's search order: a match is looked for at each position from the left,
  \<open>\d\<close> and \<open>\w\<close> are the Unicode classes restricted to the code points below 256, and \<open>\b\<close> is a
  change between word and non-word characters.  \<open>card_from\<close> follows the backtracking of the greedy
  \<open>(?:\d[ -]?){13,19}\b\<close>: one more iteration first, with the separator first.
\<close>

definition is_digit :: "char \<Rightarrow> bool" where
  "is_digit c \<longleftrightarrow> c \<in> set ''0123456789''"

definition is_upper :: "char \<Rightarrow> bool" where
  "is_upper c \<longleftrightarrow> c \<in> set ''ABCDEFGHIJKLMNOPQRSTUVWXYZ''"

definition is_lower :: "char \<Rightarrow> bool" where
  "is_lower c \<longleftrightarrow> c \<in> set ''abcdefghijklmnopqrstuvwxyz''"

text \<open>The alphanumeric code points from 128 to 255.\<close>

definition is_latin1_alnum :: "char \<Rightarrow> bool" where
  "is_latin1_alnum c \<longleftrightarrow>
     (let n = of_char c :: int
      in n \<in> {170, 178, 179, 181, 185, 186, 188, 189, 190} \<or> 192 \<le> n \<and> n \<noteq> 215 \<and> n \<noteq> 247)"

definition is_word :: "char \<Rightarrow> bool" where
  "is_word c \<longleftrightarrow> is_digit c \<or> is_upper c \<or> is_lower c \<or> c = CHR ''_'' \<or> is_latin1_alnum c"

fun word_opt :: "char option \<Rightarrow> bool" where
  "word_opt None = False"
| "word_opt (Some c) = is_word c"

fun first :: "string \<Rightarrow> char option" where
  "first [] = None"
| "first (c # cs) = Some c"

text \<open>\<open>\b\<close> between the character before and the text after.\<close>

definition boundary :: "char option \<Rightarrow> string \<Rightarrow> bool" where
  "boundary prev rest \<longleftrightarrow> word_opt prev \<noteq> word_opt (first rest)"

text \<open>\<open>pattern.search(text)\<close> for a matcher that looks at the character before and the text after.\<close>

fun search :: "(char option \<Rightarrow> string \<Rightarrow> bool) \<Rightarrow> char option \<Rightarrow> string \<Rightarrow> bool" where
  "search m prev [] = m prev []"
| "search m prev (c # cs) = (m prev (c # cs) \<or> search m (Some c) cs)"

text \<open>A pattern of fixed length: one character class after another.\<close>

fun fits :: "(char \<Rightarrow> bool) list \<Rightarrow> string \<Rightarrow> bool" where
  "fits [] cs = True"
| "fits (p # ps) [] = False"
| "fits (p # ps) (c # cs) = (p c \<and> fits ps cs)"

definition bounded_match :: "(char \<Rightarrow> bool) list \<Rightarrow> char option \<Rightarrow> string \<Rightarrow> bool" where
  "bounded_match ps prev cs \<longleftrightarrow>
     boundary prev cs \<and> fits ps cs \<and> boundary (first (rev (take (length ps) cs))) (drop (length ps) cs)"

definition literal :: "string \<Rightarrow> (char \<Rightarrow> bool) list" where
  "literal s = map (\<lambda>a b. a = b) s"

definition ssn_pattern :: "(char \<Rightarrow> bool) list" where
  "ssn_pattern = replicate 3 is_digit @ literal ''-'' @ replicate 2 is_digit @ literal ''-'' @ replicate 4 is_digit"

definition ssn_match :: "char option \<Rightarrow> string \<Rightarrow> bool" where
  "ssn_match = bounded_match ssn_pattern"

definition pem_match :: "char option \<Rightarrow> string \<Rightarrow> bool" where
  "pem_match prev cs \<longleftrightarrow>
     (let rest = drop (length ''-----BEGIN '') cs; label = takeWhile is_upper rest;
          closing = literal ''PRIVATE KEY-----''
      in fits (literal ''-----BEGIN '') cs
         \<and> (label \<noteq> [] \<and> fits (literal '' '' @ closing) (drop (length label) rest) \<or> fits closing rest))"

definition aws_match :: "char option \<Rightarrow> string \<Rightarrow> bool" where
  "aws_match prev cs \<longleftrightarrow>
     (\<exists>key \<in> {''AKIA'', ''ASIA''}.
        bounded_match (literal key @ replicate 16 (\<lambda>c. is_digit c \<or> is_upper c)) prev cs)"

fun card_from :: "nat \<Rightarrow> nat \<Rightarrow> char option \<Rightarrow> string \<Rightarrow> string option" where
  "card_from n 0 prev cs = (if 13 \<le> n \<and> boundary prev cs then Some [] else None)"
| "card_from n (Suc left) prev cs =
     (case (case cs of
              [] \<Rightarrow> None
            | d # cs' \<Rightarrow>
                if \<not> is_digit d then None
                else case (case cs' of
                             [] \<Rightarrow> None
                           | sep # cs'' \<Rightarrow>
                               if sep \<in> {CHR '' '', CHR ''-''}
                               then map_option (\<lambda>m. d # sep # m) (card_from (Suc n) left (Some sep) cs'')
                               else None) of
                       Some m \<Rightarrow> Some m
                     | None \<Rightarrow> map_option (\<lambda>m. d # m) (card_from (Suc n) left (Some d) cs')) of
        Some m \<Rightarrow> Some m
      | None \<Rightarrow> if 13 \<le> n \<and> boundary prev cs then Some [] else None)"

definition card_match :: "char option \<Rightarrow> string \<Rightarrow> string option" where
  "card_match prev cs = (if boundary prev cs then card_from 0 19 prev cs else None)"

text \<open>
  \<open>finditer\<close>: the next search starts where the last match ended.  A match has at least 13
  characters, so it ends \<open>length m - 1\<close> characters into the text after its first one.
\<close>

function card_matches :: "char option \<Rightarrow> string \<Rightarrow> string list" where
  "card_matches prev [] = []"
| "card_matches prev (c # cs) =
     (case card_match prev (c # cs) of
        None \<Rightarrow> card_matches (Some c) cs
      | Some m \<Rightarrow> m # card_matches (first (rev m)) (drop (length m - 1) cs))"
  by pat_completeness auto
termination
  by (relation "measure (length \<circ> snd)") auto

definition luhn_digit :: "nat \<Rightarrow> char \<Rightarrow> int" where
  "luhn_digit i ch =
     (let d = of_char ch - 48
      in if i mod 2 = 1 then (if d * 2 > 9 then d * 2 - 9 else d * 2) else d)"

fun luhn_total :: "nat \<Rightarrow> string \<Rightarrow> int" where
  "luhn_total i [] = 0"
| "luhn_total i (ch # chs) = luhn_digit i ch + luhn_total (Suc i) chs"

definition luhn_ok :: "string \<Rightarrow> bool" where
  "luhn_ok digits \<longleftrightarrow> luhn_total 0 (rev digits) mod 10 = 0"

fun iter_strings :: "json \<Rightarrow> string list" where
  "iter_strings (JStr s) = [s]"
| "iter_strings (JObj kvs) = concat (map (\<lambda>kv. iter_strings (snd kv)) kvs)"
| "iter_strings (JArr xs) = concat (map iter_strings xs)"
| "iter_strings _ = []"

definition is_card :: "string \<Rightarrow> bool" where
  "is_card m \<longleftrightarrow>
     (let digits = filter (\<lambda>c. c \<notin> {CHR '' '', CHR ''-''}) m
      in 13 \<le> length digits \<and> length digits \<le> 19 \<and> luhn_ok digits)"

definition detect_inline_secret :: "string \<Rightarrow> string option" where
  "detect_inline_secret text =
     (if search ssn_match None text then Some ''US SSN''
      else if search pem_match None text then Some ''PEM private key''
      else if search aws_match None text then Some ''AWS access key id''
      else if list_ex is_card (card_matches None text) then Some ''payment card number''
      else None)"

definition assert_no_inline_pii :: "dict \<Rightarrow> exn + unit" where
  "assert_no_inline_pii payload =
     (if list_ex (\<lambda>text. detect_inline_secret text \<noteq> None) (iter_strings (JObj payload))
      then Inl InlinePIIError else Inr ())"

definition validate_classification :: "string \<Rightarrow> exn + unit" where
  "validate_classification c = (if c \<in> {''pii-erasable'', ''governance-retained''} then Inr () else Inl ValueError)"

text \<open>\<open>_REF_RE.match\<close>; \<open>$\<close> also matches before one trailing newline.\<close>

definition ref_match :: "string \<Rightarrow> bool" where
  "ref_match s \<longleftrightarrow>
     (let body = (if s \<noteq> [] \<and> last s = CHR 0x0A then butlast s else s);
          tail_ok = (\<lambda>t. t \<noteq> [] \<and> list_all (\<lambda>c. is_digit c \<or> is_upper c \<or> is_lower c) t)
      in take 5 body = ''blob_'' \<and> tail_ok (drop 5 body) \<or> take 4 body = ''doc_'' \<and> tail_ok (drop 4 body))"

fun assert_references_only :: "dict \<Rightarrow> string list \<Rightarrow> exn + unit" where
  "assert_references_only payload [] = Inr ()"
| "assert_references_only payload (name # names) =
     (case map_of payload name of
        None \<Rightarrow> assert_references_only payload names
      | Some (JStr s) \<Rightarrow> if ref_match s then assert_references_only payload names else Inl InlinePIIError
      | Some _ \<Rightarrow> Inl InlinePIIError)"

subsection \<open>What the guard lets through\<close>

definition clean :: "dict \<Rightarrow> bool" where
  "clean payload \<longleftrightarrow> (\<forall>text \<in> set (iter_strings (JObj payload)). detect_inline_secret text = None)"

lemma assert_no_inline_pii_Inr: "assert_no_inline_pii payload = Inr () \<longleftrightarrow> clean payload"
  by (auto simp: assert_no_inline_pii_def clean_def list_ex_iff)

lemma assert_no_inline_pii_cases:
  "assert_no_inline_pii payload = (if clean payload then Inr () else Inl InlinePIIError)"
  by (auto simp: assert_no_inline_pii_def clean_def list_ex_iff)

lemma iter_strings_leaf: "JStr s \<in> set (map snd kvs) \<Longrightarrow> s \<in> set (iter_strings (JObj kvs))"
  by force

subsection \<open>What the guard always catches\<close>

lemma search_app:
  "m (if pre = [] then prev else Some (last pre)) rest \<Longrightarrow> search m prev (pre @ rest)"
proof (induction pre arbitrary: prev)
  case Nil
  then show ?case by (cases rest) auto
next
  case (Cons c pre)
  then have "m (if pre = [] then Some c else Some (last pre)) rest"
    by (cases pre) auto
  with Cons.IH [of "Some c"] show ?case by simp
qed

lemma fits_length: "fits ps cs \<Longrightarrow> length ps \<le> length cs"
  by (induction ps cs rule: fits.induct) auto

lemma fits_app: "fits ps cs \<Longrightarrow> fits ps (cs @ ds)"
  by (induction ps cs rule: fits.induct) auto

text \<open>A word that stands alone and has the shape of the pattern is found wherever it occurs.\<close>

definition stands_alone :: "string \<Rightarrow> string \<Rightarrow> bool" where
  "stands_alone pre post \<longleftrightarrow> \<not> word_opt (first (rev pre)) \<and> \<not> word_opt (first post)"

lemma first_rev: "first (rev xs) = (if xs = [] then None else Some (last xs))"
  by (cases xs rule: rev_cases) auto

lemma bounded_search:
  assumes "fits ps m" "length m = length ps" "m \<noteq> []" "is_word (hd m)" "is_word (last m)" "stands_alone pre post"
  shows "search (bounded_match ps) None (pre @ m @ post)"
proof (rule search_app)
  have "\<not> word_opt (if pre = [] then None else Some (last pre))"
    using assms(6) by (auto simp: stands_alone_def first_rev)
  moreover have "first (m @ post) = Some (hd m)" "take (length ps) (m @ post) = m" "drop (length ps) (m @ post) = post"
    using assms(3) by (cases m) (simp_all flip: assms(2))
  ultimately show "bounded_match ps (if pre = [] then None else Some (last pre)) (m @ post)"
    using assms by (simp add: bounded_match_def boundary_def fits_app first_rev stands_alone_def)
qed

lemma detects_ssn:
  assumes "fits ssn_pattern m" "length m = 11" "stands_alone pre post"
  shows "detect_inline_secret (pre @ m @ post) = Some ''US SSN''"
proof -
  have word: "\<And>c. is_digit c \<Longrightarrow> is_word c"
    by (simp add: is_word_def)
  obtain a b c d e f g h i j k where m: "m = [a,b,c,d,e,f,g,h,i,j,k]"
    using assms(2) by (auto simp: length_Suc_conv numeral_eq_Suc)
  have "is_word (hd m)" "is_word (last m)"
    using assms(1) word by (auto simp: m ssn_pattern_def numeral_eq_Suc literal_def)
  then show ?thesis
    using bounded_search [of ssn_pattern m pre post] assms m
    by (simp add: detect_inline_secret_def ssn_match_def ssn_pattern_def literal_def)
qed

lemma is_digit_simps [simp]: "\<not> is_digit CHR '' ''" "\<not> is_digit CHR ''-''"
  by (simp_all add: is_digit_def)

lemma digit_word: "is_digit c \<Longrightarrow> is_word c"
  by (simp add: is_word_def)

lemma sep_not_word: "c \<in> {CHR '' '', CHR ''-''} \<Longrightarrow> \<not> is_word c"
  by (auto simp: is_word_def is_digit_def is_upper_def is_lower_def is_latin1_alnum_def Let_def)

lemma card_from_nondigit:
  "\<not> (\<exists>c. first cs = Some c \<and> is_digit c) \<Longrightarrow>
     card_from n left prev cs = (if 13 \<le> n \<and> boundary prev cs then Some [] else None)"
  by (cases left; cases cs) auto

lemma card_from_digits:
  assumes "d \<noteq> []" "list_all is_digit d" "13 \<le> n + length d" "length d \<le> left"
    and "list_all (\<lambda>c. \<not> is_digit c) post" "\<not> word_opt (first post)"
  shows "\<exists>m. card_from n left prev (d @ post) = Some m \<and> filter (\<lambda>c. c \<notin> {CHR '' '', CHR ''-''}) m = d"
  using assms(1-4)
proof (induction d arbitrary: n left prev)
  case (Cons c d)
  have c: "is_digit c" "c \<noteq> CHR '' ''" "c \<noteq> CHR ''-''"
    using Cons.prems(2) by (auto simp: is_digit_def)
  obtain l where l: "left = Suc l"
    using Cons.prems(4) by (cases left) auto
  show ?case
  proof (cases d)
    case Nil
    have nd: "\<not> (\<exists>x. first post = Some x \<and> is_digit x)"
      using assms(5) by (cases post) auto
    have 13: "13 \<le> Suc n"
      using Cons.prems(3) Nil by simp
    have plain: "card_from (Suc n) l (Some c) post = Some []"
      using 13 assms(6) digit_word [OF c(1)] by (simp add: card_from_nondigit [OF nd] boundary_def)
    show ?thesis
    proof (cases post)
      case Nil
      then show ?thesis
        using plain c \<open>d = []\<close> by (auto simp: l)
    next
      case (Cons sep post')
      have nd': "\<not> (\<exists>x. first post' = Some x \<and> is_digit x)"
        using assms(5) Cons by (cases post') auto
      show ?thesis
        using plain c \<open>d = []\<close> unfolding l Cons
        by (auto simp: card_from_nondigit [OF nd'] split: option.splits)
    qed
  next
    case (Cons c' d')
    then have "c' \<notin> {CHR '' '', CHR ''-''}"
      using Cons.prems(2) by (auto simp: is_digit_def)
    moreover obtain m where "card_from (Suc n) l (Some c) (d @ post) = Some m"
      "filter (\<lambda>c. c \<notin> {CHR '' '', CHR ''-''}) m = d"
      using Cons.IH [of "Suc n" l "Some c"] Cons.prems Cons l by auto
    ultimately show ?thesis
      using c Cons by (auto simp: l)
  qed
qed simp

lemma card_matches_skip:
  "list_all (\<lambda>c. \<not> is_digit c) pre \<Longrightarrow>
     card_matches prev (pre @ cs) = card_matches (if pre = [] then prev else Some (last pre)) cs"
proof (induction pre arbitrary: prev)
  case (Cons c pre)
  then have "card_match prev (c # pre @ cs) = None"
    using card_from_nondigit [of "c # pre @ cs" 0 19 prev] by (simp add: card_match_def del: card_from.simps)
  with Cons show ?case by (auto simp del: card_from.simps)
qed simp

lemma detects_card:
  assumes "list_all (\<lambda>c. \<not> is_digit c) pre" "list_all (\<lambda>c. \<not> is_digit c) post" "stands_alone pre post"
    and "list_all is_digit d" "13 \<le> length d" "length d \<le> 19" "luhn_ok d"
  shows "detect_inline_secret (pre @ d @ post) \<noteq> None"
proof -
  let ?prev = "if pre = [] then None else Some (last pre)"
  obtain c d' where d: "d = c # d'"
    using assms(5) by (cases d) auto
  have "boundary ?prev (d @ post)"
    using assms(3,4) d digit_word by (auto simp: boundary_def stands_alone_def first_rev)
  moreover obtain m where m: "card_from 0 19 ?prev (d @ post) = Some m"
    "filter (\<lambda>c. c \<notin> {CHR '' '', CHR ''-''}) m = d"
    using card_from_digits [of d 0 19 post ?prev] assms by (auto simp: stands_alone_def d simp del: card_from.simps)
  ultimately have "m \<in> set (card_matches None (pre @ d @ post))"
    using card_matches_skip [OF assms(1), of None "d @ post"] by (simp add: d card_match_def del: card_from.simps)
  moreover have "is_card m"
    using m(2) assms(5-7) by (simp add: is_card_def)
  ultimately show ?thesis
    by (auto simp: detect_inline_secret_def list_ex_iff)
qed

text \<open>
  A payload is refused with \<open>InlinePIIError\<close> whenever one of its string leaves, however deep,
  holds a dashed social security number that stands alone, or is a text whose only digits are a
  Luhn-valid run of 13 to 19 digits that stands alone.
\<close>

theorem inline_pii_refused:
  assumes "text \<in> set (iter_strings (JObj payload))" and "text = pre @ m @ post" and "stands_alone pre post"
    and "fits ssn_pattern m \<and> length m = 11
      \<or> list_all is_digit m \<and> 13 \<le> length m \<and> length m \<le> 19 \<and> luhn_ok m
        \<and> list_all (\<lambda>c. \<not> is_digit c) (pre @ post)"
  shows "assert_no_inline_pii payload = Inl InlinePIIError"
proof -
  have "detect_inline_secret text \<noteq> None"
    using assms(2-4) detects_ssn [of m pre post] detects_card [of pre post m] by auto
  with assms(1) show ?thesis
    by (auto simp: assert_no_inline_pii_cases clean_def)
qed

theorem inline_pii_refused_witness:
  "assert_no_inline_pii [(''a'', JInt 1), (''b'', JArr [JStr ''card 4111111111111111.''])] = Inl InlinePIIError"
  by (rule inline_pii_refused [of "''card 4111111111111111.''" _ "''card ''" "''4111111111111111''" "''.''"])
     (simp_all add: stands_alone_def is_word_def is_digit_def is_upper_def is_lower_def is_latin1_alnum_def
        luhn_ok_def luhn_digit_def)

text \<open>
  The scan misses a card number that follows other digits within the span of one candidate: the
  greedy pattern takes \<open>12 4111111111111111\<close> as one candidate of 18 digits, whose checksum fails, and
  \<open>finditer\<close> never looks again inside it.
\<close>

theorem card_after_digits_missed:
  "luhn_ok ''4111111111111111'' \<and> detect_inline_secret ''4111111111111111'' = Some ''payment card number''
     \<and> assert_no_inline_pii [(''note'', JStr ''order 12 4111111111111111'')] = Inr ()"
  by code_simp

end
