(* ===== verification/Database.thy ===== *)
theory Database
  imports Serde Ids Event_Schemas Transition_Engine Privacy_Scan
begin

text \<open>
  The state behind \<open>conn\<close>: one field per table the modelled code touches, in the order of
  insertion, the sequence \<open>global_seq_seq\<close> (\<open>gseq\<close> is its last value), the clock and the number
  of random draws made so far.  The constraints of the migrations (primary keys, \<open>UNIQUE\<close>,
  \<open>CHECK\<close>, \<open>NOT NULL\<close>, foreign keys) are part of the operations that insert rows.  One program is
  one transaction: the clock stands still inside it and other transactions are earlier or later
  programs; a race between a check and a write is stated on the two halves of the operation.

  Code outside the repository is the record \<open>env\<close>: the JSON-schema validator, the identifiers of
  the \<open>ulid\<close> package, the operating system's random bytes and uniform random numbers, the digests, and the
  texts of exceptions, which the values of \<open>exn\<close> do not carry.
  The process-global registry and the configuration are read-only while commands run, so they are
  fields of \<open>env\<close> as well.
\<close>

text \<open>\<open>decimal.Decimal\<close>: \<open>Dec m e\<close> is \<open>m * 10 ** e\<close>.\<close>

datatype decimal = Dec int int | NaN | Infinity

record CostCeilings =
  cc_per_run :: "decimal option"
  cc_per_request :: "decimal option"
  cc_max_candidates :: "int option"

record env =
  env_registry :: event_registry
  js_valid :: "dict \<Rightarrow> dict \<Rightarrow> bool"
  py_ulid :: "nat \<Rightarrow> string"
  urandom :: "nat \<Rightarrow> nat"
  hmac_sha256 :: "string \<Rightarrow> string \<Rightarrow> string"
  audit_hmac_key :: "string option"
  exn_text :: "exn \<Rightarrow> string"
  uniform :: "nat \<Rightarrow> int \<Rightarrow> int \<Rightarrow> int"
  sha256_of :: "string \<Rightarrow> string"
  cost_ceilings :: "exn + CostCeilings"
  external_max_attempts :: int
  uuid4_hex :: "nat \<Rightarrow> string"

record fv_row =
  fv_feature_version_id :: string
  fv_feature_id :: string
  fv_produced_by_run :: string
  fv_base_feature_version_id :: "string option"
  fv_verification_stamp :: string
  fv_risk_tier :: string
  fv_approval_type :: string
  fv_approved_use_cases :: "string list"
  fv_blocked_use_cases :: "string list"
  fv_required_artifact_refs :: dict
  fv_dsl_operation_catalog_version :: "string option"
  fv_approval :: dict
  fv_expires_at :: "int option"
  fv_content_hash :: string
  fv_immutable :: bool

record slot_row =
  sl_feature_id :: string
  sl_use_case :: string
  sl_feature_version_id :: string
  sl_activation_state :: string
  sl_activated_seq :: int
  sl_activated_at :: int

record consumer_row =
  co_consumer_id :: string
  co_feature_id :: string
  co_feature_version_id :: "string option"
  co_consumer_kind :: string
  co_consumer_ref :: string
  co_edge_status :: string
  co_registered_by :: dict
  co_deregistered_at :: "int option"

record timer_row =
  tm_timer_id :: string
  tm_idempotency_key :: string
  tm_aggregate :: string
  tm_aggregate_id :: string
  tm_task_id :: "string option"
  tm_kind :: string
  tm_fire_at :: int
  tm_business_calendar :: "string option"
  tm_status :: string
  tm_lease_owner :: "string option"
  tm_lease_expires_at :: "int option"
  tm_cas_task_version :: "int option"
  tm_payload :: dict

record queue_row =
  qu_id :: int
  qu_message_id :: string
  qu_partition_key :: string
  qu_handler :: string
  qu_payload :: dict
  qu_status :: string
  qu_lease_owner :: "string option"
  qu_lease_expires_at :: "int option"
  qu_attempts :: int
  qu_max_attempts :: int
  qu_available_at :: int
  qu_priority :: int
  qu_last_error :: "string option"
  qu_payload_hash :: "string option"
  qu_lease_fence :: int

record outbox_row =
  ob_id :: int
  ob_message_id :: string
  ob_partition_key :: string
  ob_topic :: string
  ob_payload :: dict
  ob_payload_hash :: "string option"
  ob_caused_by_event :: "string option"
  ob_status :: string
  ob_lease_owner :: "string option"
  ob_lease_expires_at :: "int option"
  ob_attempts :: int
  ob_max_attempts :: int
  ob_next_attempt_at :: int
  ob_last_error :: "string option"
  ob_sent_at :: "int option"

record xcmd_row =
  ec_command_id :: string
  ec_idempotency_key :: string
  ec_run_id :: "string option"
  ec_integration :: string
  ec_request_payload :: dict
  ec_expected_run_id :: "string option"
  ec_expected_stream_version :: "int option"
  ec_expected_task_id :: "string option"
  ec_job_handle :: "string option"
  ec_dedup_supported :: bool
  ec_status :: string
  ec_attempts :: int
  ec_result :: "dict option"
  ec_result_event_id :: "string option"
  ec_next_attempt_at :: "int option"
  ec_dispatched_at :: "int option"
  ec_completed_at :: "int option"
  ec_cost_units :: "decimal option"
  ec_created_at :: int

record calendar_row =
  bc_calendar_name :: string
  bc_workdays :: "int list"
  bc_holidays :: "int list"

text \<open>\<open>cost_units\<close> is \<open>numeric(18,4)\<close>, held in units of the fourth decimal.\<close>

record rws_row =
  rw_run_id :: string
  rw_request_id :: string
  rw_table_version :: int
  rw_cost_units :: int
  rw_candidates_explored :: int

record task_row =
  tk_task_id :: string
  tk_task_version :: int
  tk_run_id :: "string option"
  tk_feature_id :: "string option"
  tk_gate :: string
  tk_required_inputs :: "string list"
  tk_eligible_assignees :: dict
  tk_allowed_responses :: "string list"
  tk_quorum_required :: int
  tk_quorum_of_role :: "string option"
  tk_delegation_allowed :: bool
  tk_sla :: "string option"
  tk_status :: string
  tk_fact_key :: "string option"
  tk_draft_event_id :: "string option"
  tk_target_event_id :: "string option"
  tk_evidence_ref :: "string option"

record response_row =
  re_task_id :: string
  re_subject :: string
  re_response :: string
  re_on_behalf_of :: "string option"
  re_answered_seq :: int

record delegation_row =
  de_task_id :: string
  de_principal :: string
  de_delegate :: string
  de_granted_by :: string

record audit_row =
  au_security_event_id :: string
  au_seq :: int
  au_event_type :: string
  au_actor :: dict
  au_attempted_action :: string
  au_aggregate :: "string option"
  au_aggregate_id :: "string option"
  au_decision :: string
  au_reason :: "string option"
  au_prev_hash :: "string option"
  au_entry_hash :: string
  au_retention_class :: string
  au_occurred_at :: int

record policy_row =
  po_action :: string
  po_gate :: string
  po_permitted_role :: string
  po_actor_kind :: string
  po_scope :: "string option"

record checkpoint_row =
  ck_projection_name :: string
  ck_checkpoint_seq :: int
  ck_head_seq :: int
  ck_is_analytics :: bool

record degraded_row =
  dg_projection_name :: string
  dg_aggregate :: string
  dg_aggregate_id :: string
  dg_reason :: string
  dg_poison_event_id :: string
  dg_poison_seq :: int

record idem_row =
  id_key :: string
  id_action :: string
  id_result :: dict

record processed_row =
  pm_message_id :: string
  pm_aggregate :: string
  pm_aggregate_id :: string
  pm_result_event_id :: "string option"
  pm_processed_seq :: int

record doc_row =
  dc_doc_id :: string
  dc_global_seq :: int
  dc_request_id :: "string option"
  dc_feature_id :: "string option"
  dc_run_id :: "string option"
  dc_stage :: string
  dc_schema_version :: int
  dc_branch_role :: string
  dc_derived_from :: "string list"
  dc_supersedes :: "string list"
  dc_body_ref :: "string option"
  dc_content_hash :: string
  dc_body_classification :: string
  dc_actor :: dict
  dc_provenance :: dict
  dc_reject_reason :: "string option"

record primary_row =
  sp_run_id :: string
  sp_stage :: string
  sp_doc_id :: string
  sp_selected_seq :: int

record alias_row =
  al_alias :: string
  al_projection_name :: string
  al_switched_seq :: int

text \<open>
  The overlay tables.  A nullable \<open>jsonb\<close> column is a JSON value with \<open>JNull\<close> for \<open>NULL\<close>; the
  dependency table is the list of its keys \<open>(fact_key, catalog_source, ref_object)\<close>.
\<close>

record fact_state_row =
  fs_fact_key :: string
  fs_object_ref :: string
  fs_catalog_source :: string
  fs_fact_type :: string
  fs_use_case :: "string option"
  fs_status :: string
  fs_value :: json
  fs_confirmers :: "json list"
  fs_confirmed_at :: "int option"
  fs_expires_at :: "int option"
  fs_prior_value :: json
  fs_confirmed_event_id :: "string option"
  fs_updated_seq :: int

record proposal_row =
  pr_fact_key :: string
  pr_status :: string
  pr_proposed_value :: json
  pr_proposal_fingerprint :: string
  pr_draft_event_id :: string
  pr_target_event_id :: "string option"
  pr_evidence_ref :: "string option"
  pr_partial_confirmers :: "json list"
  pr_object_ref :: string
  pr_catalog_source :: string
  pr_fact_type :: string
  pr_use_case :: "string option"
  pr_prior_value :: json
  pr_updated_seq :: int

record evidence_row =
  ov_evidence_id :: string
  ov_fact_key :: string
  ov_table_snapshot_at :: json
  ov_row_count :: int
  ov_sample_size :: int
  ov_profile_version :: string
  ov_thresholds_used :: dict
  ov_metric_values :: dict
  ov_created_by :: dict
  ov_created_at :: int
  ov_producer :: string
  ov_strength :: string
  ov_lifecycle :: string
  ov_producer_configuration_hash :: json
  ov_producer_item_ref :: json
  ov_evidence_spans :: "json list"

record catalog_object_row =
  cb_catalog_source :: string
  cb_object_ref :: string
  cb_native_oid :: "string option"
  cb_type_fingerprint :: string

record watermark_row =
  wm_catalog_source :: string
  wm_last_completed_at :: int
  wm_last_run_id :: string
  wm_head_seq :: int

record override_row =
  so_override_id :: string
  so_fact_key :: string
  so_field :: string
  so_previous_floor :: string
  so_override_value :: string
  so_approved_by_authority :: string
  so_rationale :: string
  so_policy_reference :: string
  so_effective_from :: "int option"
  so_effective_until :: "int option"
  so_created_by :: dict
  so_created_at :: int

record db =
  events :: "event_row list"
  gseq :: int
  clock :: int
  draws :: nat
  sm_tables :: sm_store
  run_workflow_state :: "rws_row list"
  concept_claims :: "(string \<times> string) list"
  feature_versions :: "fv_row list"
  feature_active_versions :: "slot_row list"
  consumers :: "consumer_row list"
  timers :: "timer_row list"
  queue :: "queue_row list"
  queue_seq :: int
  command_idempotency :: "idem_row list"
  authz_policy :: "policy_row list"
  human_tasks :: "task_row list"
  human_task_responses :: "response_row list"
  task_delegations :: "delegation_row list"
  security_audit :: "audit_row list"
  projection_checkpoints :: "checkpoint_row list"
  projection_degraded :: "degraded_row list"
  projection_skips :: "(string \<times> int \<times> string) list"
  processed_messages :: "processed_row list"
  documents :: "doc_row list"
  stage_primary :: "primary_row list"
  projection_active_alias :: "alias_row list"
  outbox :: "outbox_row list"
  outbox_seq :: int
  external_commands :: "xcmd_row list"
  business_calendars :: "calendar_row list"
  overlay_fact_state :: "fact_state_row list"
  overlay_proposal :: "proposal_row list"
  overlay_fact_dependency :: "(string \<times> string \<times> string) list"
  overlay_evidence :: "evidence_row list"
  overlay_catalog_object :: "catalog_object_row list"
  overlay_drift_watermark :: "watermark_row list"
  safety_override :: "override_row list"

definition empty_db :: db where
  "empty_db = \<lparr>events = [], gseq = 0, clock = 0, draws = 0,
     sm_tables = \<lparr>run_transition_table = [], feature_lifecycle_table = []\<rparr>,
     run_workflow_state = [], concept_claims = [], feature_versions = [], feature_active_versions = [],
     consumers = [], timers = [], queue = [], queue_seq = 0, command_idempotency = [], authz_policy = [],
     human_tasks = [], human_task_responses = [], task_delegations = [], security_audit = [],
     projection_checkpoints = [], projection_degraded = [], projection_skips = [], processed_messages = [],
     documents = [], stage_primary = [], projection_active_alias = [], outbox = [], outbox_seq = 0, external_commands = [],
     business_calendars = [], overlay_fact_state = [], overlay_proposal = [], overlay_fact_dependency = [],
     overlay_evidence = [], overlay_catalog_object = [], overlay_drift_watermark = [], safety_override = []\<rparr>"

type_synonym 'a dbprog = "(db, 'a) prog"

text \<open>
  A savepoint that rolls back restores every table; sequence values and random draws are not
  rolled back.
\<close>

definition rollback :: "db \<Rightarrow> db \<Rightarrow> db" where
  "rollback s s' = s\<lparr>gseq := gseq s', draws := draws s', queue_seq := queue_seq s', outbox_seq := outbox_seq s'\<rparr>"

text \<open>\<open>nextval('global_seq_seq')\<close>.\<close>

definition nextval :: "int dbprog" where
  "nextval = (\<lambda>s. (Inr (gseq s + 1), s\<lparr>gseq := gseq s + 1\<rparr>))"

text \<open>\<open>f"{prefix}_{ULID()}"\<close> of the \<open>ulid\<close> package.\<close>

definition new_id :: "env \<Rightarrow> string \<Rightarrow> string dbprog" where
  "new_id E pre = (\<lambda>s. (Inr (pre @ ''_'' @ py_ulid E (draws s)), s\<lparr>draws := Suc (draws s)\<rparr>))"

text \<open>\<open>mint_id(prefix)\<close> of \<open>aggregates/ids.py\<close>, with the clock in milliseconds.\<close>

definition mint_id :: "env \<Rightarrow> string \<Rightarrow> string dbprog" where
  "mint_id E pre = (\<lambda>s. (Inr (mint_id_text pre (nat (clock s div 1000)) (urandom E (draws s))), s\<lparr>draws := Suc (draws s)\<rparr>))"

text \<open>A program on the state-machine tables, run on the field that holds them.\<close>

definition on_tables :: "(sm_store, 'a) prog \<Rightarrow> 'a dbprog" where
  "on_tables m = (\<lambda>s. case m (sm_tables s) of (r, t) \<Rightarrow> (r, s\<lparr>sm_tables := t\<rparr>))"

end
