(* ===== verification/Work_Tables.thy ===== *)
theory Work_Tables
  imports Database
begin

text \<open>
  The \<open>INSERT\<close> statements on the \<open>timers\<close> and \<open>queue\<close> tables that several components share, under
  the constraints of the migrations.  Both are \<open>ON CONFLICT DO NOTHING\<close> on their idempotency
  column, so a second insert of the same key changes nothing.
\<close>

definition TIMER_KINDS :: "string list" where
  "TIMER_KINDS = [''sla'', ''reminder'', ''escalation'', ''auto_park'', ''experiment_expiry'', ''business_repair'',
     ''cost_breaker'', ''overlay_expiry'']"

text \<open>The columns a caller may leave to their defaults.\<close>

definition timer_row_of :: "string \<Rightarrow> string \<Rightarrow> string \<Rightarrow> string \<Rightarrow> string \<Rightarrow> int \<Rightarrow> dict \<Rightarrow> timer_row" where
  "timer_row_of timer_id key agg aid kind fire_at payload =
     \<lparr>tm_timer_id = timer_id, tm_idempotency_key = key, tm_aggregate = agg, tm_aggregate_id = aid, tm_task_id = None,
      tm_kind = kind, tm_fire_at = fire_at, tm_business_calendar = None, tm_status = ''scheduled'',
      tm_lease_owner = None, tm_lease_expires_at = None, tm_cas_task_version = None, tm_payload = payload\<rparr>"

definition insert_timer :: "timer_row \<Rightarrow> bool dbprog" where
  "insert_timer row = (\<lambda>s.
     if tm_kind row \<notin> set TIMER_KINDS then (Inl (CheckViolation ''timers_kind_check''), s)
     else if tm_idempotency_key row \<in> tm_idempotency_key ` set (timers s) then (Inr False, s)
     else if tm_timer_id row \<in> tm_timer_id ` set (timers s) then (Inl (UniqueViolation ''timers_pkey''), s)
     else (Inr True, s\<lparr>timers := timers s @ [row]\<rparr>))"

text \<open>The plain \<open>INSERT\<close>, without \<open>ON CONFLICT\<close>: a key that is taken raises.\<close>

definition insert_timer_strict :: "timer_row \<Rightarrow> unit dbprog" where
  "insert_timer_strict row = (\<lambda>s.
     if tm_kind row \<notin> set TIMER_KINDS then (Inl (CheckViolation ''timers_kind_check''), s)
     else if tm_timer_id row \<in> tm_timer_id ` set (timers s) then (Inl (UniqueViolation ''timers_pkey''), s)
     else if tm_idempotency_key row \<in> tm_idempotency_key ` set (timers s)
       then (Inl (UniqueViolation ''timers_idempotency_key_key''), s)
     else (Inr (), s\<lparr>timers := timers s @ [row]\<rparr>))"

text \<open>\<open>UPDATE timers SET status='cancelled' WHERE task_id=... AND status='scheduled'\<close>.\<close>

definition cancel_timers :: "string \<Rightarrow> unit dbprog" where
  "cancel_timers task_id = update (\<lambda>s. s\<lparr>timers :=
     map (\<lambda>r. if tm_task_id r = Some task_id \<and> tm_status r = ''scheduled'' then r\<lparr>tm_status := ''cancelled''\<rparr> else r) (timers s)\<rparr>)"

text \<open>\<open>gates/duration.py\<close>, in microseconds.\<close>

definition parse_duration :: "string \<Rightarrow> exn + int" where
  "parse_duration s =
     (if s = [] then Inl IndexError
      else chain (py_int (JStr (butlast s))) (\<lambda>n.
        if last s = CHR ''d'' then Inr (n * 86400000000)
        else if last s = CHR ''h'' then Inr (n * 3600000000)
        else if last s = CHR ''m'' then Inr (n * 60000000)
        else Inl ValueError))"

text \<open>The serial id is taken before the conflict is seen and is not given back.\<close>

definition insert_queue :: "string \<Rightarrow> string \<Rightarrow> string \<Rightarrow> dict \<Rightarrow> bool dbprog" where
  "insert_queue message_id partition_key handler payload = (\<lambda>s.
     let s1 = s\<lparr>queue_seq := queue_seq s + 1\<rparr>
     in if message_id \<in> qu_message_id ` set (queue s) then (Inr False, s1)
        else (Inr True, s1\<lparr>queue := queue s @
          [\<lparr>qu_id = queue_seq s + 1, qu_message_id = message_id, qu_partition_key = partition_key, qu_handler = handler,
            qu_payload = payload, qu_status = ''ready'', qu_lease_owner = None, qu_lease_expires_at = None,
            qu_attempts = 0, qu_max_attempts = 12, qu_available_at = clock s, qu_priority = 100,
            qu_last_error = None, qu_payload_hash = None, qu_lease_fence = 0\<rparr>]\<rparr>))"

text \<open>Neither touches another table.\<close>

lemma insert_timer_state: "\<exists>ts. snd (insert_timer row s) = s\<lparr>timers := ts\<rparr>"
  by (auto simp: insert_timer_def) (metis db.surjective db.update_convs(11))+

lemma insert_queue_state: "\<exists>n q. snd (insert_queue m p h d s) = s\<lparr>queue_seq := n, queue := q\<rparr>"
  by (rule exI [of _ "queue_seq s + 1"], cases "m \<in> qu_message_id ` set (queue s)")
     (auto simp: insert_queue_def Let_def intro: exI [of _ "queue s"])

end
