(* ===== verification/Datetime.thy ===== *)
theory Datetime
  imports Main "HOL-Library.Sublist"
begin

text \<open>
  The parts of Python's \<open>datetime\<close> the modelled code uses.  An aware UTC instant is an integer
  number of microseconds since 1970-01-01; \<open>isoformat\<close> writes it with its date found by walking
  whole years and whole months, \<open>isoweekday\<close> and \<open>date\<close> read its day.  Instants before 1970 do not
  occur: every instant is the clock's or later.
\<close>

definition leap :: "nat \<Rightarrow> bool" where
  "leap y \<longleftrightarrow> 4 dvd y \<and> \<not> 100 dvd y \<or> 400 dvd y"

definition year_days :: "nat \<Rightarrow> nat" where
  "year_days y = (if leap y then 366 else 365)"

definition month_days :: "nat \<Rightarrow> nat \<Rightarrow> nat" where
  "month_days y m = (if m = 2 then (if leap y then 29 else 28) else if m \<in> {4, 6, 9, 11} then 30 else 31)"

text \<open>The year of a day counted from the first of January of year \<open>y\<close>, and the day in that year.\<close>

function split_year :: "nat \<Rightarrow> nat \<Rightarrow> nat \<times> nat" where
  "split_year y d = (if d < year_days y then (y, d) else split_year (Suc y) (d - year_days y))"
  by pat_completeness auto
termination
  by (relation "measure snd") (auto simp: year_days_def split: if_splits)

declare split_year.simps [simp del]

text \<open>Likewise the month and the day in it; December takes what is left.\<close>

function split_month :: "nat \<Rightarrow> nat \<Rightarrow> nat \<Rightarrow> nat \<times> nat" where
  "split_month y m d = (if d < month_days y m \<or> 12 \<le> m then (m, d) else split_month y (Suc m) (d - month_days y m))"
  by pat_completeness auto
termination
  by (relation "measure (\<lambda>(y, m, d). d)") (auto simp: month_days_def split: if_splits)

declare split_month.simps [simp del]

definition civil :: "nat \<Rightarrow> nat \<times> nat \<times> nat" where
  "civil days = (let (y, d) = split_year 1970 days; (m, k) = split_month y 1 d in (y, m, Suc k))"

text \<open>A number in a fixed number of decimal digits.\<close>

fun pad :: "nat \<Rightarrow> nat \<Rightarrow> string" where
  "pad 0 n = []"
| "pad (Suc k) n = pad k (n div 10) @ [char_of (48 + n mod 10)]"

definition usec_per_day :: int where
  "usec_per_day = 86400000000"

definition day_of :: "int \<Rightarrow> int" where
  "day_of t = t div usec_per_day"

text \<open>1970-01-01 was a Thursday.\<close>

definition isoweekday :: "int \<Rightarrow> int" where
  "isoweekday t = (day_of t + 3) mod 7 + 1"

definition isoformat :: "int \<Rightarrow> string" where
  "isoformat t =
     (let (y, m, d) = civil (nat (day_of t)); r = nat (t mod usec_per_day); us = r mod 1000000; sec = r div 1000000
      in pad 4 y @ ''-'' @ pad 2 m @ ''-'' @ pad 2 d @ ''T'' @ pad 2 (sec div 3600) @ '':'' @ pad 2 (sec div 60 mod 60)
         @ '':'' @ pad 2 (sec mod 60) @ (if us = 0 then [] else ''.'' @ pad 6 us) @ ''+00:00'')"

text \<open>The instants a Python \<open>datetime\<close> can hold, from 1970 on.\<close>

definition valid_time :: "int \<Rightarrow> bool" where
  "valid_time t \<longleftrightarrow> 0 \<le> t \<and> fst (split_year 1970 (nat (day_of t))) < 10000"

subsection \<open>The text of an instant determines it\<close>

lemma length_pad [simp]: "length (pad k n) = k"
  by (induction k arbitrary: n) auto

lemma char_of_digit_eq:
  "a < 10 \<Longrightarrow> b < 10 \<Longrightarrow> (char_of (48 + a :: nat) :: char) = char_of (48 + b) \<longleftrightarrow> a = b"
  by (auto dest!: arg_cong [where f = "of_char :: char \<Rightarrow> nat"])

lemma pad_inject: "a < 10 ^ k \<Longrightarrow> b < 10 ^ k \<Longrightarrow> pad k a = pad k b \<longleftrightarrow> a = b"
proof (induction k arbitrary: a b)
  case (Suc k)
  have "pad k (a div 10) = pad k (b div 10) \<longleftrightarrow> a div 10 = b div 10"
    using Suc by simp
  moreover have "(char_of (48 + a mod 10 :: nat) :: char) = char_of (48 + b mod 10) \<longleftrightarrow> a mod 10 = b mod 10"
    by (rule char_of_digit_eq) simp_all
  moreover have "a div 10 = b div 10 \<Longrightarrow> a mod 10 = b mod 10 \<Longrightarrow> a = b"
    by (metis div_mult_mod_eq)
  ultimately show ?case by auto
qed simp

lemma split_year_inject: "split_year y d = split_year y d' \<Longrightarrow> d = d'"
proof (induction y d arbitrary: d' rule: split_year.induct)
  case (1 y d)
  have later: "y < fst (split_year (Suc y) n)" for y n
  proof (induction "Suc y" n arbitrary: y rule: split_year.induct)
    case (1 n)
    then show ?case
      by (subst split_year.simps) (auto dest: Suc_lessD)
  qed
  have eq: "split_year y d = split_year y d'" using "1.prems" .
  show ?case
  proof (cases "d < year_days y")
    case True
    then have e: "split_year y d' = (y, d)"
      using eq by (simp add: split_year.simps [of y d])
    then have "d' < year_days y"
      using later [of y "d' - year_days y"] by (cases "d' < year_days y") (auto simp: split_year.simps [of y d'])
    with e show ?thesis by (simp add: split_year.simps [of y d'])
  next
    case False
    have e: "split_year y d = split_year (Suc y) (d - year_days y)"
      using False by (simp add: split_year.simps [of y d])
    have "\<not> d' < year_days y"
      using eq e later [of y "d - year_days y"] by (auto simp: split_year.simps [of y d'])
    with e eq False have "d - year_days y = d' - year_days y"
      by (intro "1.IH") (simp_all add: split_year.simps [of y d'])
    with False \<open>\<not> d' < year_days y\<close> show ?thesis by simp
  qed
qed

lemma split_month_bounds: "m \<le> 12 \<Longrightarrow> fst (split_month y m d) \<in> {m..12}"
proof (induction y m d rule: split_month.induct)
  case (1 y m d)
  then show ?case
    by (subst split_month.simps) (auto split: if_splits)
qed

lemma split_month_inject: "m \<le> 12 \<Longrightarrow> split_month y m d = split_month y m d' \<Longrightarrow> d = d'"
proof (induction y m d arbitrary: d' rule: split_month.induct)
  case (1 y m d)
  have eq: "split_month y m d = split_month y m d'" using "1.prems"(2) .
  show ?case
  proof (cases "d < month_days y m \<or> 12 \<le> m")
    case True
    then have e: "split_month y m d' = (m, d)"
      using eq by (simp add: split_month.simps [of y m d])
    have "d' < month_days y m \<or> 12 \<le> m"
    proof (rule ccontr)
      assume n: "\<not> (d' < month_days y m \<or> 12 \<le> m)"
      then have "split_month y m d' = split_month y (Suc m) (d' - month_days y m)"
        by (simp add: split_month.simps [of y m d'])
      with e n split_month_bounds [of "Suc m" y "d' - month_days y m"] show False by simp
    qed
    with e show ?thesis by (simp add: split_month.simps [of y m d'])
  next
    case False
    then have e: "split_month y m d = split_month y (Suc m) (d - month_days y m)"
      by (simp add: split_month.simps [of y m d])
    have n: "\<not> (d' < month_days y m \<or> 12 \<le> m)"
    proof
      assume a: "d' < month_days y m \<or> 12 \<le> m"
      then have "split_month y (Suc m) (d - month_days y m) = (m, d')"
        using e eq by (simp add: split_month.simps [of y m d'])
      with a False split_month_bounds [of "Suc m" y "d - month_days y m"] show False by simp
    qed
    with e eq False have "d - month_days y m = d' - month_days y m"
      by (intro "1.IH") (simp_all add: split_month.simps [of y m d'])
    with False n show ?thesis by arith
  qed
qed

lemma split_month_day:
  "m \<le> 12 \<Longrightarrow> d < (\<Sum>i = m..12. month_days y i) \<Longrightarrow> snd (split_month y m d) < 31"
proof (induction y m d rule: split_month.induct)
  case (1 y m d)
  show ?case
  proof (cases "d < month_days y m \<or> 12 \<le> m")
    case True
    then have "d < 31"
      using "1.prems" by (auto simp: month_days_def split: if_splits)
    then show ?thesis
      using True by (simp add: split_month.simps [of y m d])
  next
    case False
    have "(\<Sum>i = m..12. month_days y i) = month_days y m + (\<Sum>i = Suc m..12. month_days y i)"
      using False by (simp add: sum.atLeast_Suc_atMost)
    with "1.prems" False have "snd (split_month y (Suc m) (d - month_days y m)) < 31"
      by (intro "1.IH") auto
    then show ?thesis
      using False by (simp add: split_month.simps [of y m d])
  qed
qed

lemma year_sum: "(\<Sum>i = 1..12. month_days y i) = year_days y"
  by (simp add: sum.atLeast_Suc_atMost numeral_eq_Suc month_days_def year_days_def)

lemma split_year_bound: "snd (split_year y d) < year_days (fst (split_year y d))"
proof (induction y d rule: split_year.induct)
  case (1 y d)
  then show ?case
    by (cases "d < year_days y") (simp_all add: split_year.simps [of y d])
qed

lemma civil_bounds:
  assumes "civil n = (y, m, d)"
  shows "y = fst (split_year 1970 n)" "m < 100" "d < 100"
proof -
  obtain yd where sy: "split_year 1970 n = (y, yd)"
    using assms by (auto simp: civil_def Let_def split: prod.splits)
  then obtain k where sm: "split_month y 1 yd = (m, k)" "d = Suc k"
    using assms by (auto simp: civil_def Let_def split: prod.splits)
  have "yd < (\<Sum>i = 1..12. month_days y i)"
    unfolding year_sum using split_year_bound [of 1970 n] by (simp add: sy)
  then show "y = fst (split_year 1970 n)" "m < 100" "d < 100"
    using split_month_bounds [of 1 y yd] split_month_day [of 1 yd y] sy sm by auto
qed

lemma civil_inject: "civil a = civil b \<Longrightarrow> a = b"
proof -
  assume eq: "civil a = civil b"
  obtain y yd y' yd' where s: "split_year 1970 a = (y, yd)" "split_year 1970 b = (y', yd')"
    by fastforce
  obtain m k m' k' where t: "split_month y 1 yd = (m, k)" "split_month y' 1 yd' = (m', k')"
    by fastforce
  have "y' = y" "m' = m" "k' = k"
    using eq unfolding civil_def Let_def s t prod.case by simp_all
  with t have "yd' = yd"
    using split_month_inject [of 1 y yd yd'] by simp
  with s \<open>y' = y\<close> show "a = b"
    using split_year_inject [of 1970 a b] by simp
qed

lemma split_usec:
  fixes r r' :: nat
  assumes "r mod 1000000 = r' mod 1000000" "r div 1000000 mod 60 = r' div 1000000 mod 60"
    "r div 1000000 div 60 mod 60 = r' div 1000000 div 60 mod 60" "r div 1000000 div 3600 = r' div 1000000 div 3600"
  shows "r = r'"
proof -
  have 3600: "x div 3600 = x div 60 div 60" for x :: nat
    by (simp add: div_mult2_eq [symmetric])
  have "r div 1000000 div 60 = r' div 1000000 div 60"
    using assms(3,4) unfolding 3600 by (metis div_mult_mod_eq)
  then have "r div 1000000 = r' div 1000000"
    using assms(2) by (metis div_mult_mod_eq)
  then show ?thesis
    using assms(1) by (metis div_mult_mod_eq)
qed

lemma isoformat_inject:
  assumes "valid_time a" "valid_time b" "isoformat a = isoformat b"
  shows "a = b"
proof -
  obtain y m d y' m' d' where c: "civil (nat (day_of a)) = (y, m, d)" "civil (nat (day_of b)) = (y', m', d')"
    by (metis prod_cases3)
  have y: "y < 10 ^ 4" "y' < 10 ^ 4"
    using assms(1,2) civil_bounds(1) [OF c(1)] civil_bounds(1) [OF c(2)] by (auto simp: valid_time_def)
  have md: "m < 10 ^ 2" "m' < 10 ^ 2" "d < 10 ^ 2" "d' < 10 ^ 2"
    using civil_bounds(2,3) [OF c(1)] civil_bounds(2,3) [OF c(2)] by auto
  let ?r = "nat (a mod usec_per_day)" and ?r' = "nat (b mod usec_per_day)"
  have r: "?r < 86400000000" "?r' < 86400000000"
    by (simp_all add: usec_per_day_def nat_less_iff)
  have lt: "?r div 1000000 div 3600 < 10 ^ 2" "?r' div 1000000 div 3600 < 10 ^ 2"
    using r by (simp_all add: less_mult_imp_div_less)
  have frac: "?r mod 1000000 = 0 \<longleftrightarrow> ?r' mod 1000000 = 0"
    using assms(3) [THEN arg_cong [where f = length]] by (simp add: isoformat_def c Let_def split: if_splits)
  have eqs: "pad 4 y = pad 4 y'" "pad 2 m = pad 2 m'" "pad 2 d = pad 2 d'"
    "pad 2 (?r div 1000000 div 3600) = pad 2 (?r' div 1000000 div 3600)"
    "pad 2 (?r div 1000000 div 60 mod 60) = pad 2 (?r' div 1000000 div 60 mod 60)"
    "pad 2 (?r div 1000000 mod 60) = pad 2 (?r' div 1000000 mod 60)"
    "?r mod 1000000 \<noteq> 0 \<Longrightarrow> pad 6 (?r mod 1000000) = pad 6 (?r' mod 1000000)"
    using assms(3) frac unfolding isoformat_def c Let_def prod.case
    by (simp_all add: append_eq_append_conv del: pad.simps split: if_splits)
  have "y = y'" "m = m'" "d = d'"
    using eqs(1-3) y md by (simp_all add: pad_inject)
  then have "nat (day_of a) = nat (day_of b)"
    using c civil_inject by simp
  moreover have "0 \<le> day_of a" "0 \<le> day_of b"
    using assms(1,2) by (simp_all add: valid_time_def day_of_def usec_per_day_def pos_imp_zdiv_nonneg_iff)
  ultimately have day: "a div usec_per_day = b div usec_per_day"
    by (simp add: day_of_def)
  have sixty: "x mod 60 < 10 ^ 2" for x :: nat
    using mod_less_divisor [of 60 x] by simp
  have hms: "?r div 1000000 div 3600 = ?r' div 1000000 div 3600"
    "?r div 1000000 div 60 mod 60 = ?r' div 1000000 div 60 mod 60"
    "?r div 1000000 mod 60 = ?r' div 1000000 mod 60"
    using eqs(4) eqs(5) eqs(6) unfolding pad_inject [OF lt] pad_inject [OF sixty sixty] by blast+
  have us: "?r mod 1000000 = ?r' mod 1000000"
  proof (cases "?r mod 1000000 = 0")
    case False
    have "x mod 1000000 < 10 ^ 6" for x :: nat
      using mod_less_divisor [of 1000000 x] by simp
    with eqs(7) [OF False] show ?thesis
      by (simp only: pad_inject)
  qed (use frac in simp)
  have "?r = ?r'"
    by (rule split_usec [OF us hms(3,2,1)])
  then have "a mod usec_per_day = b mod usec_per_day"
    by (simp add: usec_per_day_def)
  with day show ?thesis
    by (metis div_mult_mod_eq)
qed

end
