(* ===== verification/Security_Audit.thy ===== *)
theory Security_Audit
  imports Canonical_Json Work_Tables Datetime
begin

text \<open>
  The tamper-evident security stream of \<open>security/audit.py\<close> and the break-glass controls of
  \<open>security/break_glass.py\<close>.  The keyed digest is the parameter \<open>hmac_sha256\<close> of \<open>env\<close>; what the
  theorems need of it (no collision among the messages of two chains, hexadecimal digests) are named
  hypotheses.  \<open>audit_step\<close> is the relation that every writer keeps: entries are only appended and
  the chain stays verifiable.
\<close>

subsection \<open>The chain\<close>

definition audit_basis :: "string option \<Rightarrow> audit_row \<Rightarrow> dict" where
  "audit_basis prev_hash r =
     [(''prev_hash'', ostr prev_hash), (''security_event_id'', JStr (au_security_event_id r)),
      (''event_type'', JStr (au_event_type r)), (''actor'', JObj (au_actor r)),
      (''attempted_action'', JStr (au_attempted_action r)), (''aggregate'', ostr (au_aggregate r)),
      (''aggregate_id'', ostr (au_aggregate_id r)), (''decision'', JStr (au_decision r)),
      (''reason'', ostr (au_reason r)), (''retention_class'', JStr (au_retention_class r)),
      (''occurred_at'', JStr (isoformat (au_occurred_at r)))]"

text \<open>\<open>(prev_hash or "")\<close> followed by the canonical text of the whole logical row.\<close>

definition or_empty :: "string option \<Rightarrow> string" where
  "or_empty x = (case x of None \<Rightarrow> [] | Some h \<Rightarrow> h)"

definition entry_message :: "string option \<Rightarrow> audit_row \<Rightarrow> string" where
  "entry_message prev_hash r = or_empty prev_hash @ json_dumps (JObj (audit_basis prev_hash r))"

definition entry_hash :: "env \<Rightarrow> string \<Rightarrow> string option \<Rightarrow> audit_row \<Rightarrow> string" where
  "entry_hash E key prev_hash r = hmac_sha256 E key (entry_message prev_hash r)"

definition signing_key :: "env \<Rightarrow> string option \<Rightarrow> string dbprog" where
  "signing_key E key =
     (case key of
        Some k \<Rightarrow> ret k
      | None \<Rightarrow> (case audit_hmac_key E of
          None \<Rightarrow> throw AuditKeyNotConfigured
        | Some k \<Rightarrow> if k = [] then throw AuditKeyNotConfigured else ret k))"

text \<open>\<open>SELECT entry_hash ... ORDER BY seq DESC LIMIT 1\<close>.\<close>

definition newest_hash :: "db \<Rightarrow> string option" where
  "newest_hash s = (case sort_key (\<lambda>r. - au_seq r) (security_audit s) of [] \<Rightarrow> None | r # _ \<Rightarrow> Some (au_entry_hash r))"

definition insert_audit :: "audit_row \<Rightarrow> unit dbprog" where
  "insert_audit row = (\<lambda>s.
     let s1 = s\<lparr>gseq := gseq s + 1\<rparr>
     in if au_decision row \<notin> {''denied'', ''allowed_break_glass'', ''flagged''}
          then (Inl (CheckViolation ''security_audit_decision_check''), s1)
        else if au_security_event_id row \<in> au_security_event_id ` set (security_audit s)
          then (Inl (UniqueViolation ''security_audit_pkey''), s1)
        else (Inr (), s1\<lparr>security_audit := security_audit s @ [row\<lparr>au_seq := gseq s + 1\<rparr>]\<rparr>))"

definition audit_entry ::
  "string \<Rightarrow> string \<Rightarrow> IdentityEnvelope \<Rightarrow> string \<Rightarrow> string \<Rightarrow> string option \<Rightarrow> string option \<Rightarrow> string option
   \<Rightarrow> string \<Rightarrow> string option \<Rightarrow> int \<Rightarrow> audit_row" where
  "audit_entry sec_id event_type actor attempted_action decision reason agg agg_id retention_class prev_hash occurred_at =
     \<lparr>au_security_event_id = sec_id, au_seq = 0, au_event_type = event_type, au_actor = identity_to_jsonb actor,
      au_attempted_action = attempted_action, au_aggregate = agg, au_aggregate_id = agg_id, au_decision = decision,
      au_reason = reason, au_prev_hash = prev_hash, au_entry_hash = [], au_retention_class = retention_class,
      au_occurred_at = occurred_at\<rparr>"

definition record_security_event ::
  "env \<Rightarrow> string \<Rightarrow> IdentityEnvelope \<Rightarrow> string \<Rightarrow> string \<Rightarrow> string option \<Rightarrow> string option \<Rightarrow> string option
   \<Rightarrow> string \<Rightarrow> string option \<Rightarrow> string dbprog" where
  "record_security_event E event_type actor attempted_action decision reason agg agg_id retention_class key =
     andthen (signing_key E key) (\<lambda>k.
     andthen (query newest_hash) (\<lambda>prev_hash.
     andthen (mint_id E ''sec'') (\<lambda>sec_id.
     andthen (query clock) (\<lambda>occurred_at.
     (let row = audit_entry sec_id event_type actor attempted_action decision reason agg agg_id retention_class prev_hash occurred_at
      in andthen (insert_audit (row\<lparr>au_entry_hash := entry_hash E k prev_hash row\<rparr>)) (\<lambda>_.
         ret sec_id))))))"

definition record_denial :: "env \<Rightarrow> Command \<Rightarrow> string \<Rightarrow> string dbprog" where
  "record_denial E cmd reason =
     record_security_event E ''COMMAND_DENIED'' (cm_actor cmd) (cm_action cmd) ''denied'' (Some reason)
       (Some (cm_aggregate cmd)) (cm_aggregate_id cmd) ''regulator'' None"

fun verify_rows :: "env \<Rightarrow> string \<Rightarrow> string option \<Rightarrow> audit_row list \<Rightarrow> bool" where
  "verify_rows E key prev_hash [] = True"
| "verify_rows E key prev_hash (r # rs) \<longleftrightarrow>
     au_prev_hash r = prev_hash \<and> entry_hash E key prev_hash r = au_entry_hash r
     \<and> verify_rows E key (Some (au_entry_hash r)) rs"

definition verify_chain :: "env \<Rightarrow> string option \<Rightarrow> bool \<Rightarrow> bool dbprog" where
  "verify_chain E key expect_nonempty =
     andthen (signing_key E key) (\<lambda>k.
     andthen (query (\<lambda>s. sort_key au_seq (security_audit s))) (\<lambda>rows.
     ret (if rows = [] then \<not> expect_nonempty else verify_rows E k None rows)))"

definition AUDIT_READ_ROLES :: "string list" where
  "AUDIT_READ_ROLES = [''security'', ''compliance'']"

definition may_read_audit :: "IdentityEnvelope \<Rightarrow> bool" where
  "may_read_audit actor \<longleftrightarrow> validate_identity actor = Inr () \<and> list_ex (\<lambda>r. r \<in> set (role_claims actor)) AUDIT_READ_ROLES"

definition read_security_audit :: "env \<Rightarrow> IdentityEnvelope \<Rightarrow> nat \<Rightarrow> (string \<times> string \<times> string \<times> string option) list dbprog" where
  "read_security_audit E actor limit =
     (if \<not> may_read_audit actor then
        andthen (record_security_event E ''AUDIT_READ'' actor ''read_security_audit'' ''denied''
          (Some ''security stream read restricted to security/compliance'') None None ''regulator'' None) (\<lambda>_.
        throw AuditReadDenied)
      else
        andthen (record_security_event E ''AUDIT_READ'' actor ''read_security_audit'' ''flagged''
          (Some ''security stream read'') None None ''regulator'' None) (\<lambda>_.
        query (\<lambda>s. map (\<lambda>r. (au_security_event_id r, au_event_type r, au_decision r, au_reason r))
          (take limit (sort_key au_seq (security_audit s))))))"

subsection \<open>Break glass\<close>

definition open_break_glass_review ::
  "env \<Rightarrow> IdentityEnvelope \<Rightarrow> IdentityEnvelope \<Rightarrow> string \<Rightarrow> string option \<Rightarrow> string option \<Rightarrow> string \<Rightarrow> string dbprog" where
  "open_break_glass_review E actor co_signer attempted_action agg agg_id sla =
     andthen (mint_id E ''bgr'') (\<lambda>review_id.
     andthen (record_security_event E ''BREAK_GLASS_REVIEW_REQUIRED'' actor attempted_action ''flagged''
       (Some (''review_id='' @ review_id)) agg agg_id ''regulator'' None) (\<lambda>_.
     andthen (query clock) (\<lambda>now.
     andthen (lift (parse_duration sla)) (\<lambda>d.
     andthen (mint_id E ''tmr'') (\<lambda>timer_id.
     andthen (insert_timer_strict ((timer_row_of timer_id (review_id @ '':sla'') (str_or agg ''request'')
       (str_or agg_id review_id) ''escalation'' (now + d)
       [(''break_glass_review'', JStr review_id), (''invoker'', JStr (subject actor)), (''co_signer'', JStr (subject co_signer))])
       \<lparr>tm_task_id := Some review_id\<rparr>)) (\<lambda>_.
     ret review_id))))))"

definition invoke_break_glass ::
  "env \<Rightarrow> IdentityEnvelope \<Rightarrow> IdentityEnvelope \<Rightarrow> string \<Rightarrow> string option \<Rightarrow> string option \<Rightarrow> string \<Rightarrow> string dbprog" where
  "invoke_break_glass E actor co_signer attempted_action agg agg_id sla =
     (if \<not> authenticated actor then throw BreakGlassError
      else if \<not> authenticated co_signer then throw BreakGlassError
      else if ''platform-admin'' \<notin> set (role_claims actor) then throw BreakGlassError
      else if ''platform-admin'' \<notin> set (role_claims co_signer) then throw BreakGlassError
      else if subject co_signer = subject actor then throw BreakGlassError
      else
        andthen (record_security_event E ''BREAK_GLASS'' actor attempted_action ''allowed_break_glass''
          (Some (''co_signer='' @ subject co_signer)) agg agg_id ''regulator'' None) (\<lambda>_.
        open_break_glass_review E actor co_signer attempted_action agg agg_id sla))"

definition sign_off_break_glass_review :: "env \<Rightarrow> string \<Rightarrow> IdentityEnvelope \<Rightarrow> string \<Rightarrow> string \<Rightarrow> unit dbprog" where
  "sign_off_break_glass_review E review_id reviewer invoker_subject co_signer_subject =
     (if \<not> list_ex (\<lambda>r. r \<in> set (role_claims reviewer)) [''compliance'', ''platform-admin''] then throw BreakGlassError
      else if subject reviewer \<in> {invoker_subject, co_signer_subject} then throw BreakGlassError
      else
        andthen (record_security_event E ''BREAK_GLASS_REVIEW'' reviewer (''sign_off:'' @ review_id) ''flagged''
          (Some ''signed_off'') None None ''regulator'' None) (\<lambda>_.
        cancel_timers review_id))"

subsection \<open>The chain stays verifiable\<close>

definition head_hash :: "audit_row list \<Rightarrow> string option" where
  "head_hash rows = (if rows = [] then None else Some (au_entry_hash (last rows)))"

lemma verify_rows_append:
  "verify_rows E k prev (xs @ ys) \<longleftrightarrow>
     verify_rows E k prev xs \<and> verify_rows E k (if xs = [] then prev else head_hash xs) ys"
  by (induction xs arbitrary: prev) (auto simp: head_hash_def)

lemma verify_rows_snoc:
  "verify_rows E k None (xs @ [r]) \<longleftrightarrow>
     verify_rows E k None xs \<and> au_prev_hash r = head_hash xs \<and> entry_hash E k (head_hash xs) r = au_entry_hash r"
  by (auto simp: verify_rows_append head_hash_def)

definition audit_ok :: "env \<Rightarrow> string \<Rightarrow> db \<Rightarrow> bool" where
  "audit_ok E k s \<longleftrightarrow> sorted_wrt (<) (map au_seq (security_audit s)) \<and> (\<forall>r \<in> set (security_audit s). au_seq r \<le> gseq s)
     \<and> verify_rows E k None (security_audit s)"

definition audit_step :: "env \<Rightarrow> string \<Rightarrow> db \<Rightarrow> db \<Rightarrow> bool" where
  "audit_step E k s s' \<longleftrightarrow> prefix (security_audit s) (security_audit s') \<and> gseq s \<le> gseq s' \<and> (audit_ok E k s \<longrightarrow> audit_ok E k s')"

interpretation audits: state_rel "audit_step E k" for E k
  by unfold_locales (auto simp: audit_step_def dest: prefix_order.trans)

lemma audit_step_frame: "security_audit s' = security_audit s \<Longrightarrow> gseq s \<le> gseq s' \<Longrightarrow> audit_step E k s s'"
  by (fastforce simp: audit_step_def audit_ok_def)

lemma sorted_seq: "sorted_wrt (<) (map au_seq rows) \<Longrightarrow> sort_key au_seq rows = rows"
  by (rule sort_key_id_if_sorted) (auto simp: sorted_wrt_map elim: sorted_wrt_mono_rel [rotated])

lemma newest_is_last:
  assumes "sorted_wrt (<) (map au_seq (security_audit s))"
  shows "newest_hash s = head_hash (security_audit s)"
proof (cases "security_audit s" rule: rev_cases)
  case (snoc rs r)
  obtain x xs where x: "sort_key (\<lambda>r. - au_seq r) (rs @ [r]) = x # xs"
    by (metis append_is_Nil_conv length_0_conv length_sort list.exhaust not_Cons_self2)
  have "sorted (map (\<lambda>r. - au_seq r) (x # xs))"
    using sorted_sort_key [of "\<lambda>r. - au_seq r" "rs @ [r]"] by (simp add: x)
  moreover have xs: "set (x # xs) = set (rs @ [r])"
    using set_sort [of "\<lambda>r. - au_seq r" "rs @ [r]"] by (simp add: x)
  ultimately have "au_seq r \<le> au_seq x"
    by auto
  moreover have "\<forall>y \<in> set rs. au_seq y < au_seq r"
    using assms by (simp add: snoc sorted_wrt_append)
  ultimately have "x = r"
    using xs by (metis insertE insertI1 list.simps(15) list.set(1) rotate1.simps(2) set_rotate1 linorder_not_less)
  then show ?thesis
    by (simp add: newest_hash_def head_hash_def snoc x)
qed (simp add: newest_hash_def head_hash_def)

lemma entry_hash_fields [simp]:
  "entry_hash E k p (row\<lparr>au_entry_hash := h\<rparr>) = entry_hash E k p row" "entry_hash E k p (row\<lparr>au_seq := n\<rparr>) = entry_hash E k p row"
  by (simp_all add: entry_hash_def entry_message_def audit_basis_def)

lemma audit_entry_prev [simp]:
  "au_prev_hash (audit_entry a b c d e f g h i p t) = p" "au_decision (audit_entry a b c d e f g h i p t) = e"
  "au_event_type (audit_entry a b c d e f g h i p t) = b" "au_actor (audit_entry a b c d e f g h i p t) = identity_to_jsonb c"
  "au_reason (audit_entry a b c d e f g h i p t) = f" "au_security_event_id (audit_entry a b c d e f g h i p t) = a"
  "au_attempted_action (audit_entry a b c d e f g h i p t) = d"
  by (simp_all add: audit_entry_def)

text \<open>What recording does, in one rule per result.\<close>

lemma record_security_event_Inr:
  assumes "record_security_event E et a act dcn reason agg aid rc key s = (Inr sec_id, s')"
  obtains k row where "signing_key E key s = (Inr k, s)" "row = audit_entry sec_id et a act dcn reason agg aid rc (newest_hash s) (clock s)"
    "s' = s\<lparr>draws := Suc (draws s), gseq := gseq s + 1, security_audit := security_audit s @
       [row\<lparr>au_entry_hash := entry_hash E k (newest_hash s) row, au_seq := gseq s + 1\<rparr>]\<rparr>"
proof -
  have st: "signing_key E key s = (Inr k, t) \<Longrightarrow> t = s" for k t
    by (auto simp: signing_key_def split: option.splits if_splits)
  show thesis
    using assms st
    by (auto simp: record_security_event_def andthen_eq_Inr Let_def mint_id_def insert_audit_def split: if_splits intro!: that)
qed

lemma record_security_event_Inl:
  assumes "record_security_event E et a act dcn reason agg aid rc key s = (Inl e, s')"
  shows "security_audit s' = security_audit s \<and> gseq s \<le> gseq s'"
  using assms
  by (auto simp: record_security_event_def andthen_def Let_def mint_id_def insert_audit_def signing_key_def
      split: if_splits option.splits sum.splits prod.splits)

lemma signing_key_configured: "signing_key E None s = (Inr k, s') \<longleftrightarrow> s' = s \<and> k \<noteq> [] \<and> audit_hmac_key E = Some k"
  by (auto simp: signing_key_def split: option.splits)

lemma keeps_record: 
  assumes "audit_hmac_key E = Some k"
  shows "keeps (audit_step E k) (record_security_event E et a act dcn reason agg aid rc None)"
proof (rule keepsI)
  fix s
  obtain r s' where r: "record_security_event E et a act dcn reason agg aid rc None s = (r, s')" by fastforce
  show "audit_step E k s (snd (record_security_event E et a act dcn reason agg aid rc None s))"
  proof (cases r)
    case (Inl e)
    with r show ?thesis
      using record_security_event_Inl [of E et a act dcn reason agg aid rc None s e s'] audit_step_frame by simp
  next
    case (Inr sec_id)
    obtain k' row where row: "signing_key E None s = (Inr k', s)" "row = audit_entry sec_id et a act dcn reason agg aid rc (newest_hash s) (clock s)"
      "s' = s\<lparr>draws := Suc (draws s), gseq := gseq s + 1, security_audit := security_audit s @
         [row\<lparr>au_entry_hash := entry_hash E k' (newest_hash s) row, au_seq := gseq s + 1\<rparr>]\<rparr>"
      using record_security_event_Inr [OF r [unfolded Inr]] by metis
    have "k' = k"
      using row(1) assms by (simp add: signing_key_configured)
    have "audit_ok E k s'" if ok: "audit_ok E k s"
    proof -
      have "newest_hash s = head_hash (security_audit s)"
        using ok by (intro newest_is_last) (simp add: audit_ok_def)
      then show ?thesis
        using ok unfolding row(3) \<open>k' = k\<close>
        by (fastforce simp: audit_ok_def verify_rows_snoc sorted_wrt_append row(2))
    qed
    then show ?thesis
      by (simp add: r audit_step_def row(3))
  qed
qed

subsection \<open>The head pins the history\<close>

text \<open>The same entry: equal in every column the digest covers, up to the order of the actor's members.\<close>

definition same_entry :: "audit_row \<Rightarrow> audit_row \<Rightarrow> bool" where
  "same_entry r r' \<longleftrightarrow> au_security_event_id r = au_security_event_id r' \<and> au_event_type r = au_event_type r'
     \<and> sort_keys (JObj (au_actor r)) = sort_keys (JObj (au_actor r')) \<and> au_attempted_action r = au_attempted_action r'
     \<and> au_aggregate r = au_aggregate r' \<and> au_aggregate_id r = au_aggregate_id r' \<and> au_decision r = au_decision r'
     \<and> au_reason r = au_reason r' \<and> au_retention_class r = au_retention_class r' \<and> au_occurred_at r = au_occurred_at r'
     \<and> au_prev_hash r = au_prev_hash r' \<and> au_entry_hash r = au_entry_hash r'"

fun messages :: "string option \<Rightarrow> audit_row list \<Rightarrow> string list" where
  "messages prev [] = []"
| "messages prev (r # rs) = entry_message prev r # messages (Some (au_entry_hash r)) rs"

lemma messages_snoc: "messages p (xs @ [r]) = messages p xs @ [entry_message (if xs = [] then p else head_hash xs) r]"
  by (induction xs arbitrary: p) (auto simp: head_hash_def)

lemma json_dumps_brace: "\<exists>cs. json_dumps (JObj d) = CHR ''{'' # cs"
  by (simp add: json_dumps_def)

lemma brace_split:
  assumes "p @ json_dumps (JObj d) = q @ json_dumps (JObj d')" "CHR ''{'' \<notin> set p" "CHR ''{'' \<notin> set q"
  shows "p = q \<and> json_dumps (JObj d) = json_dumps (JObj d')"
proof -
  have "takeWhile (\<lambda>c. c \<noteq> CHR ''{'') (p @ CHR ''{'' # cs) = p" if "CHR ''{'' \<notin> set p" for p cs
    using that by (induction p) auto
  then have "takeWhile (\<lambda>c. c \<noteq> CHR ''{'') (p @ json_dumps (JObj d)) = p" if "CHR ''{'' \<notin> set p" for p d
    using that json_dumps_brace [of d] by auto
  with assms show ?thesis by (metis same_append_eq)
qed

lemma ostr_sorted [simp]: "sort_keys (ostr x) = ostr x"
  by (cases x) auto

lemma ostr_inject [simp]: "ostr x = ostr y \<longleftrightarrow> x = y"
  by (cases x; cases y) auto

lemma basis_inject:
  assumes "json_dumps (JObj (audit_basis p r)) = json_dumps (JObj (audit_basis p' r'))"
    and "valid_time (au_occurred_at r)" "valid_time (au_occurred_at r')"
    and "p = au_prev_hash r" "p' = au_prev_hash r'" "au_entry_hash r = au_entry_hash r'"
  shows "same_entry r r'"
proof -
  have "distinct (map fst (audit_basis p r))" "distinct (map fst (audit_basis p' r'))"
    by (simp_all add: audit_basis_def)
  note m = json_dumps_object [OF assms(1) this]
  show ?thesis
    using m [of "''prev_hash''"] m [of "''security_event_id''"] m [of "''event_type''"] m [of "''actor''"] m [of "''attempted_action''"]
      m [of "''aggregate''"] m [of "''aggregate_id''"] m [of "''decision''"] m [of "''reason''"] m [of "''retention_class''"]
      m [of "''occurred_at''"] isoformat_inject [of "au_occurred_at r" "au_occurred_at r'"] assms(2-)
    by (simp add: audit_basis_def same_entry_def)
qed

subsection \<open>Properties\<close>

text \<open>
  C37: what is recorded stays verifiable.  With the configured key, recording an event adds one entry at
  the end of the chain, changes none, and a chain that verified still does: \<open>verify_chain\<close> answers
  true before and after.
\<close>

theorem recorded_chain_verifies:
  assumes "audit_ok E k s" and "audit_hmac_key E = Some k" "k \<noteq> []"
    and "record_security_event E et a act dcn reason agg aid rc None s = (Inr sec_id, s')"
  shows "audit_ok E k s' \<and> (\<exists>row. security_audit s' = security_audit s @ [row] \<and> au_security_event_id row = sec_id
      \<and> au_actor row = identity_to_jsonb a \<and> au_decision row = dcn)
    \<and> verify_chain E None False s = (Inr True, s) \<and> verify_chain E None True s' = (Inr True, s')"
proof -
  have ok: "audit_ok E k s'"
    using keepsD [OF keeps_record [OF assms(2)] assms(4)] assms(1) by (simp add: audit_step_def)
  obtain k' row where "s' = s\<lparr>draws := Suc (draws s), gseq := gseq s + 1, security_audit := security_audit s @
         [row\<lparr>au_entry_hash := entry_hash E k' (newest_hash s) row, au_seq := gseq s + 1\<rparr>]\<rparr>"
    "row = audit_entry sec_id et a act dcn reason agg aid rc (newest_hash s) (clock s)"
    using record_security_event_Inr [OF assms(4)] by metis
  moreover have "verify_chain E None b t = (Inr (security_audit t = [] \<longrightarrow> \<not> b), t)" if "audit_ok E k t" for b t
    using that assms(2,3) by (auto simp: verify_chain_def signing_key_def audit_ok_def sorted_seq)
  ultimately show ?thesis
    using ok assms(1) by simp
qed

text \<open>
  C38: the newest digest pins the whole history.  Two chains that both verify under a key and end in the
  same digest have the same entries in the same order, in every column the digest covers; so no entry
  before the newest can be edited, dropped, inserted or moved without either failing verification or
  changing the newest digest.  Assumed of the keyed digest: it is written without a brace (hexadecimal),
  and it has no collision among the messages of the two chains.
\<close>

theorem chain_head_pins_history:
  assumes "verify_rows E k None rows" "verify_rows E k None rows'" "head_hash rows = head_hash rows'"
    and hex: "\<And>m. CHR ''{'' \<notin> set (hmac_sha256 E k m)"
    and no_collision: "\<And>m m'. m \<in> set (messages None rows) \<Longrightarrow> m' \<in> set (messages None rows') \<Longrightarrow>
      hmac_sha256 E k m = hmac_sha256 E k m' \<Longrightarrow> m = m'"
    and times: "\<And>r. r \<in> set rows \<union> set rows' \<Longrightarrow> valid_time (au_occurred_at r)"
  shows "list_all2 same_entry rows rows'"
  using assms(1-3) no_collision times
proof (induction rows arbitrary: rows' rule: rev_induct)
  case Nil
  then show ?case
    by (simp add: head_hash_def split: if_splits)
next
  case (snoc r rs)
  obtain rs' r' where rows': "rows' = rs' @ [r']"
    using snoc.prems(3) by (cases rows' rule: rev_cases) (auto simp: head_hash_def)
  let ?p = "head_hash rs" and ?p' = "head_hash rs'"
  have v: "verify_rows E k None rs" "au_prev_hash r = ?p" "entry_hash E k ?p r = au_entry_hash r"
    "verify_rows E k None rs'" "au_prev_hash r' = ?p'" "entry_hash E k ?p' r' = au_entry_hash r'"
    using snoc.prems(1,2) by (simp_all add: rows' verify_rows_snoc)
  have eq: "au_entry_hash r = au_entry_hash r'"
    using snoc.prems(3) by (simp add: rows' head_hash_def)
  have last: "messages None (xs @ [x]) = messages None xs @ [entry_message (head_hash xs) x]" for xs x
    by (simp add: messages_snoc head_hash_def)
  have "entry_message ?p r = entry_message ?p' r'"
  proof (rule snoc.prems(4))
    show "hmac_sha256 E k (entry_message ?p r) = hmac_sha256 E k (entry_message ?p' r')"
      using v(3,6) eq unfolding entry_hash_def by metis
  qed (simp_all only: rows' last set_append list.set Un_iff insert_iff simp_thms)
  moreover have "CHR ''{'' \<notin> set (or_empty (head_hash xs))" if "verify_rows E k None xs" for xs
  proof (cases xs rule: rev_cases)
    case (snoc ys y)
    then have "au_entry_hash y = hmac_sha256 E k (entry_message (head_hash ys) y)"
      using that by (simp add: verify_rows_snoc entry_hash_def)
    with hex show ?thesis by (simp add: snoc or_empty_def head_hash_def)
  qed (simp add: or_empty_def head_hash_def)
  ultimately have "json_dumps (JObj (audit_basis ?p r)) = json_dumps (JObj (audit_basis ?p' r'))"
    using brace_split [of "or_empty ?p" "audit_basis ?p r" "or_empty ?p'" "audit_basis ?p' r'"] v(1,4) by (simp add: entry_message_def)
  then have same: "same_entry r r'"
    by (rule basis_inject) (use snoc.prems(5) v eq in \<open>simp_all add: rows'\<close>)
  then have "?p = ?p'"
    using v(2,5) by (simp add: same_entry_def)
  then have "list_all2 same_entry rs rs'"
    using v(1,4) snoc.prems(4,5) unfolding rows' last by (intro snoc.IH) auto
  with same show ?case
    by (simp add: rows' list_all2_appendI)
qed

text \<open>A digest as the hypotheses want it: the hexadecimal text of the key and the message.\<close>

definition hex_text :: "string \<Rightarrow> string" where
  "hex_text s = concat (map (\<lambda>c. [hex_digit (of_char c div 16), hex_digit (of_char c mod 16)]) s)"

lemma hex_digit_values: "\<forall>n \<in> set [0..<16]. hex_digit n \<noteq> CHR ''{''"
  by code_simp

lemma hex_digit_no_brace: "n < 16 \<Longrightarrow> hex_digit n \<noteq> CHR ''{''"
  using hex_digit_values by (simp del: upt_conv_Cons)

lemma char_nibbles: "(of_char c div 16 :: nat) < 16" "(of_char c mod 16 :: nat) < 16"
  using nat_of_char_less_256 [of c] by (simp_all add: less_mult_imp_div_less)

lemma hex_text_no_brace: "CHR ''{'' \<notin> set (hex_text s)"
  using hex_digit_no_brace [OF char_nibbles(1)] hex_digit_no_brace [OF char_nibbles(2)]
  by (auto simp: hex_text_def) (metis hex_digit_no_brace char_nibbles)+

lemma hex_text_inject: "hex_text s = hex_text t \<Longrightarrow> s = t"
proof (induction s arbitrary: t)
  case Nil
  then show ?case by (cases t) (simp_all add: hex_text_def)
next
  case (Cons c s)
  then obtain d t' where t: "t = d # t'"
    by (cases t) (simp_all add: hex_text_def)
  have d: "hex_digit (of_char c div 16) = hex_digit (of_char d div 16)" "hex_digit (of_char c mod 16) = hex_digit (of_char d mod 16)"
    "hex_text s = hex_text t'"
    using Cons.prems by (simp_all add: t hex_text_def)
  have "(of_char c :: nat) div 16 = of_char d div 16" "(of_char c :: nat) mod 16 = of_char d mod 16"
    using d hex_value_digit char_nibbles by metis+
  then have "(of_char c :: nat) = of_char d"
    by (metis div_mult_mod_eq)
  then show ?case
    using Cons.IH [OF d(3)] by (simp add: t)
qed

definition plain_env :: env where
  "plain_env = \<lparr>env_registry = \<lparr>rg_schemas = [], rg_owners = [], rg_status = [], rg_upcasters = []\<rparr>,
     js_valid = (\<lambda>_ _. True), py_ulid = (\<lambda>n. replicate n CHR ''A''), urandom = (\<lambda>n. n),
     hmac_sha256 = (\<lambda>k m. hex_text (k @ m)), audit_hmac_key = Some ''k'', exn_text = (\<lambda>_. []),
     uniform = (\<lambda>_ a _. a), sha256_of = (\<lambda>t. t),
     cost_ceilings = Inr \<lparr>cc_per_run = None, cc_per_request = None, cc_max_candidates = None\<rparr>,
     external_max_attempts = 10, uuid4_hex = (\<lambda>n. dec n)\<rparr>"

definition hex_env :: "env \<Rightarrow> env" where
  "hex_env E = E\<lparr>hmac_sha256 := \<lambda>k m. hex_text (k @ m), audit_hmac_key := Some ''k''\<rparr>"

lemma hex_env_digest: "hmac_sha256 (hex_env E) = (\<lambda>k m. hex_text (k @ m))" "audit_hmac_key (hex_env E) = Some ''k''"
  by (simp_all add: hex_env_def)

definition audit_actor :: IdentityEnvelope where
  "audit_actor = \<lparr>subject = ''user:ana'', actor_kind = ''human'', authenticated = True, auth_method = ''oidc'',
     role_claims = [''platform-admin''], groups = [], tenant = None, on_behalf_of = None, impersonation = None,
     break_glass = False, source_of_authority = None, attestation = None\<rparr>"

lemma valid_time_0: "valid_time 0"
  by code_simp

lemma audit_ok_empty: "audit_ok E k empty_db"
  by (simp add: audit_ok_def empty_db_def)

lemma sample_recording:
  "\<exists>sec_id s'. record_security_event (hex_env E) ''T'' audit_actor ''a'' ''flagged'' None None None ''regulator'' None empty_db = (Inr sec_id, s')"
  by (simp add: record_security_event_def andthen_def signing_key_def hex_env_digest query_def mint_id_def insert_audit_def Let_def ret_def
      empty_db_def)

theorem recorded_chain_verifies_witness:
  "\<exists>s'. security_audit s' \<noteq> [] \<and> verify_chain (hex_env plain_env) None True s' = (Inr True, s')"
proof -
  obtain sec_id s' where r: "record_security_event (hex_env plain_env) ''T'' audit_actor ''a'' ''flagged'' None None None ''regulator'' None empty_db = (Inr sec_id, s')"
    using sample_recording by blast
  from recorded_chain_verifies [OF audit_ok_empty hex_env_digest(2) _ r] show ?thesis
    by (intro exI [of _ s']) auto
qed

theorem chain_head_pins_history_witness:
  "\<exists>s' :: db. list_all2 same_entry (security_audit s') (security_audit s') \<and> security_audit s' \<noteq> []"
proof -
  obtain sec_id s' where r: "record_security_event (hex_env plain_env) ''T'' audit_actor ''a'' ''flagged'' None None None ''regulator'' None empty_db = (Inr sec_id, s')"
    using sample_recording by blast
  have "\<exists>row. security_audit s' = [row] \<and> au_occurred_at row = 0"
    by (rule record_security_event_Inr [OF r]) (simp add: empty_db_def audit_entry_def)
  then obtain row where row: "security_audit s' = [row]" "au_occurred_at row = 0"
    by blast
  have v: "verify_rows (hex_env plain_env) ''k'' None (security_audit s')"
    using keepsD [OF keeps_record [OF hex_env_digest(2)] r] audit_ok_empty by (simp add: audit_step_def audit_ok_def)
  have "list_all2 same_entry (security_audit s') (security_audit s')"
  proof (rule chain_head_pins_history [OF v v refl])
    show "CHR ''{'' \<notin> set (hmac_sha256 (hex_env plain_env) ''k'' m)" for m
      by (simp add: hex_env_digest hex_text_no_brace)
    show "m = m'" if "hmac_sha256 (hex_env plain_env) ''k'' m = hmac_sha256 (hex_env plain_env) ''k'' m'" for m m'
      using hex_text_inject [of "''k'' @ m" "''k'' @ m'"] that by (simp add: hex_env_digest)
    show "valid_time (au_occurred_at r)" if "r \<in> set (security_audit s') \<union> set (security_audit s')" for r
      using that valid_time_0 by (simp add: row)
  qed
  then have "list_all2 same_entry (security_audit s') (security_audit s') \<and> security_audit s' \<noteq> []"
    using row(1) by simp
  then show ?thesis by blast
qed

text \<open>
  The stream tells who read it.  A reader without a valid identity of a security or compliance role
  gets nothing, and the refusal is on the chain; a reader who may read gets the oldest entries, and the
  read itself is on the chain first.
\<close>

theorem audit_reads_are_audited:
  assumes "read_security_audit E actor limit s = (r, s')" and "audit_hmac_key E = Some k" "k \<noteq> []" "audit_ok E k s"
    and "r \<noteq> Inl (UniqueViolation ''security_audit_pkey'')"
  shows "(\<exists>row. security_audit s' = security_audit s @ [row] \<and> au_event_type row = ''AUDIT_READ''
        \<and> au_actor row = identity_to_jsonb actor \<and> au_decision row = (if may_read_audit actor then ''flagged'' else ''denied''))
    \<and> (if may_read_audit actor
       then r = Inr (map (\<lambda>r. (au_security_event_id r, au_event_type r, au_decision r, au_reason r)) (take limit (security_audit s')))
       else r = Inl AuditReadDenied)"
proof -
  let ?rec = "record_security_event E ''AUDIT_READ'' actor ''read_security_audit''
    (if may_read_audit actor then ''flagged'' else ''denied'')
    (Some (if may_read_audit actor then ''security stream read'' else ''security stream read restricted to security/compliance''))
    None None ''regulator'' None"
  obtain x s1 where rc: "?rec s = (x, s1)" by fastforce
  show ?thesis
  proof (cases x)
    case (Inl e)
    then have "e = UniqueViolation ''security_audit_pkey''"
      using rc assms(2,3)
      by (auto simp: record_security_event_def andthen_def signing_key_def Let_def mint_id_def insert_audit_def split: if_splits)
    then show ?thesis
      using assms(1,5) rc Inl by (auto simp: read_security_audit_def andthen_def split: if_splits)
  next
    case (Inr sec_id)
    have "\<exists>row. security_audit s1 = security_audit s @ [row] \<and> au_event_type row = ''AUDIT_READ''
        \<and> au_actor row = identity_to_jsonb actor \<and> au_decision row = (if may_read_audit actor then ''flagged'' else ''denied'')"
      by (rule record_security_event_Inr [OF rc [unfolded Inr]]) simp
    moreover have "audit_ok E k s1"
      using keepsD [OF keeps_record [OF assms(2)] rc] assms(4) by (simp add: audit_step_def)
    then have "sort_key au_seq (security_audit s1) = security_audit s1"
      by (intro sorted_seq) (simp add: audit_ok_def)
    moreover have "s' = s1 \<and> r = (if may_read_audit actor
       then Inr (map (\<lambda>r. (au_security_event_id r, au_event_type r, au_decision r, au_reason r)) (take limit (sort_key au_seq (security_audit s1))))
       else Inl AuditReadDenied)"
      using assms(1) rc Inr by (auto simp: read_security_audit_def andthen_def split: if_splits)
    ultimately show ?thesis by simp
  qed
qed

theorem audit_reads_are_audited_witness:
  "fst (read_security_audit (hex_env plain_env) audit_actor 5 empty_db) = Inl AuditReadDenied"
proof -
  obtain r s' where r: "read_security_audit (hex_env plain_env) audit_actor 5 empty_db = (r, s')" by fastforce
  have no: "\<not> may_read_audit audit_actor"
    by (simp add: may_read_audit_def AUDIT_READ_ROLES_def audit_actor_def)
  have "r \<noteq> Inl (UniqueViolation ''security_audit_pkey'')"
    using r no by (auto simp: read_security_audit_def record_security_event_def andthen_def signing_key_def hex_env_digest
        Let_def mint_id_def insert_audit_def empty_db_def)
  from audit_reads_are_audited [OF r hex_env_digest(2) _ audit_ok_empty this] no r show ?thesis
    by simp
qed

text \<open>
  Breaking glass takes two.  It succeeds only for two authenticated platform administrators with
  different subjects; then the chain has two new entries, of the use and of the review it requires, and
  an escalation timer for that review is pending.
\<close>

theorem break_glass_needs_two:
  assumes "invoke_break_glass E actor co_signer act agg aid sla s = (Inr review_id, s')"
  shows "authenticated actor \<and> authenticated co_signer \<and> ''platform-admin'' \<in> set (role_claims actor)
    \<and> ''platform-admin'' \<in> set (role_claims co_signer) \<and> subject actor \<noteq> subject co_signer
    \<and> (\<exists>r1 r2. security_audit s' = security_audit s @ [r1, r2] \<and> au_event_type r1 = ''BREAK_GLASS''
         \<and> au_reason r1 = Some (''co_signer='' @ subject co_signer) \<and> au_event_type r2 = ''BREAK_GLASS_REVIEW_REQUIRED''
         \<and> au_reason r2 = Some (''review_id='' @ review_id))
    \<and> (\<exists>t \<in> set (timers s'). tm_task_id t = Some review_id \<and> tm_kind t = ''escalation'' \<and> tm_status t = ''scheduled'')"
proof -
  have g: "authenticated actor" "authenticated co_signer" "''platform-admin'' \<in> set (role_claims actor)"
    "''platform-admin'' \<in> set (role_claims co_signer)" "subject actor \<noteq> subject co_signer"
    using assms by (auto simp: invoke_break_glass_def split: if_splits)
  obtain i1 s1 where a: "record_security_event E ''BREAK_GLASS'' actor act ''allowed_break_glass''
      (Some (''co_signer='' @ subject co_signer)) agg aid ''regulator'' None s = (Inr i1, s1)"
    and o: "open_break_glass_review E actor co_signer act agg aid sla s1 = (Inr review_id, s')"
    using assms g by (auto simp: invoke_break_glass_def andthen_eq_Inr)
  obtain i2 s2 s3 where m: "mint_id E ''bgr'' s1 = (Inr review_id, s2)"
    and b: "record_security_event E ''BREAK_GLASS_REVIEW_REQUIRED'' actor act ''flagged''
       (Some (''review_id='' @ review_id)) agg aid ''regulator'' None s2 = (Inr i2, s3)"
    and t: "\<exists>t \<in> set (timers s'). tm_task_id t = Some review_id \<and> tm_kind t = ''escalation'' \<and> tm_status t = ''scheduled''"
      "security_audit s' = security_audit s3"
    using o by (auto simp: open_break_glass_review_def andthen_eq_Inr insert_timer_strict_def timer_row_of_def mint_id_def split: if_splits)
  have "\<exists>r1. security_audit s1 = security_audit s @ [r1] \<and> au_event_type r1 = ''BREAK_GLASS'' \<and> au_reason r1 = Some (''co_signer='' @ subject co_signer)"
    by (rule record_security_event_Inr [OF a]) simp
  moreover have "\<exists>r2. security_audit s3 = security_audit s2 @ [r2] \<and> au_event_type r2 = ''BREAK_GLASS_REVIEW_REQUIRED''
      \<and> au_reason r2 = Some (''review_id='' @ review_id)"
    by (rule record_security_event_Inr [OF b]) simp
  moreover have "security_audit s2 = security_audit s1"
    using m by (auto simp: mint_id_def)
  ultimately show ?thesis
    using g t by auto
qed

lemma record_total:
  assumes "audit_hmac_key E = Some k" "k \<noteq> []" "dcn \<in> {''denied'', ''allowed_break_glass'', ''flagged''}"
    and "mint_id_text ''sec'' (nat (clock s div 1000)) (urandom E (draws s)) \<notin> au_security_event_id ` set (security_audit s)"
  obtains row where "au_security_event_id row = mint_id_text ''sec'' (nat (clock s div 1000)) (urandom E (draws s))"
    "record_security_event E et a act dcn reason agg aid rc None s =
       (Inr (mint_id_text ''sec'' (nat (clock s div 1000)) (urandom E (draws s))),
        s\<lparr>draws := Suc (draws s), gseq := gseq s + 1, security_audit := security_audit s @ [row]\<rparr>)"
proof -
  show thesis
    using assms
    by (intro that) (auto simp: record_security_event_def andthen_def signing_key_def query_def mint_id_def insert_audit_def Let_def ret_def)
qed

definition second_admin :: IdentityEnvelope where
  "second_admin = audit_actor\<lparr>subject := ''user:bob''\<rparr>"

lemma ids_differ: "mint_id_text ''sec'' 0 2 \<noteq> mint_id_text ''sec'' 0 0"
  by code_simp

lemma sample_break_glass: "\<exists>id s'. invoke_break_glass plain_env audit_actor second_admin ''x'' None None ''1d'' empty_db = (Inr id, s')"
proof -
  have key: "audit_hmac_key plain_env = Some ''k''" "''k'' \<noteq> []" "urandom plain_env = (\<lambda>n. n)"
    by (simp_all add: plain_env_def)
  obtain r1 where r1: "au_security_event_id r1 = mint_id_text ''sec'' 0 0"
    "record_security_event plain_env ''BREAK_GLASS'' audit_actor ''x'' ''allowed_break_glass'' (Some (''co_signer='' @ subject second_admin))
       None None ''regulator'' None empty_db = (Inr (mint_id_text ''sec'' 0 0), empty_db\<lparr>draws := 1, gseq := 1, security_audit := [r1]\<rparr>)"
    using record_total [OF key(1,2), of "''allowed_break_glass''" empty_db "''BREAK_GLASS''" audit_actor "''x''"
        "Some (''co_signer='' @ subject second_admin)" None None "''regulator''"]
    by (auto simp: empty_db_def key(3))
  let ?s = "empty_db\<lparr>draws := 2, gseq := 1, security_audit := [r1]\<rparr>" and ?id = "mint_id_text ''bgr'' 0 (Suc 0)"
  obtain r2 where r2: "record_security_event plain_env ''BREAK_GLASS_REVIEW_REQUIRED'' audit_actor ''x'' ''flagged'' (Some (''review_id='' @ ?id))
       None None ''regulator'' None ?s = (Inr (mint_id_text ''sec'' 0 2), ?s\<lparr>draws := 3, gseq := 2, security_audit := [r1, r2]\<rparr>)"
    using record_total [OF key(1,2), of "''flagged''" ?s "''BREAK_GLASS_REVIEW_REQUIRED''" audit_actor "''x''"
        "Some (''review_id='' @ ?id)" None None "''regulator''"] ids_differ
    by (auto simp: empty_db_def key(3) r1(1) numeral_3_eq_3)
  have d: "parse_duration ''1d'' = Inr 86400000000"
    by code_simp
  have "invoke_break_glass plain_env audit_actor second_admin ''x'' None None ''1d'' empty_db =
    andthen (record_security_event plain_env ''BREAK_GLASS'' audit_actor ''x'' ''allowed_break_glass'' (Some (''co_signer='' @ subject second_admin))
       None None ''regulator'' None) (\<lambda>_. open_break_glass_review plain_env audit_actor second_admin ''x'' None None ''1d'') empty_db"
    by (simp add: invoke_break_glass_def audit_actor_def second_admin_def)
  also have "\<dots> = open_break_glass_review plain_env audit_actor second_admin ''x'' None None ''1d'' (empty_db\<lparr>draws := 1, gseq := 1, security_audit := [r1]\<rparr>)"
    using r1(2) by (simp add: andthen_def)
  also have "\<exists>id s'. \<dots> = (Inr id, s')"
  proof -
    have m: "mint_id plain_env ''bgr'' (empty_db\<lparr>draws := 1, gseq := 1, security_audit := [r1]\<rparr>) = (Inr ?id, ?s)"
      by (simp add: mint_id_def key(3) empty_db_def)
    have a: "andthen (mint_id plain_env ''bgr'') f (empty_db\<lparr>draws := 1, gseq := 1, security_audit := [r1]\<rparr>) = f ?id ?s"
      for f :: "string \<Rightarrow> string dbprog"
      by (rule andthen_Inr) (rule m)
    have b: "andthen (record_security_event plain_env ''BREAK_GLASS_REVIEW_REQUIRED'' audit_actor ''x'' ''flagged'' (Some (''review_id='' @ ?id))
       None None ''regulator'' None) f ?s = f (mint_id_text ''sec'' 0 2) (?s\<lparr>draws := 3, gseq := 2, security_audit := [r1, r2]\<rparr>)"
      for f :: "string \<Rightarrow> string dbprog"
      by (rule andthen_Inr) (rule r2)
    show ?thesis
      unfolding open_break_glass_review_def a b
      by (simp add: d andthen_def mint_id_def insert_timer_strict_def timer_row_of_def TIMER_KINDS_def) (simp add: empty_db_def)
  qed
  finally show ?thesis .
qed

theorem break_glass_needs_two_witness:
  "\<exists>id s'. invoke_break_glass plain_env audit_actor second_admin ''x'' None None ''1d'' empty_db = (Inr id, s')
     \<and> length (security_audit s') = 2"
proof -
  obtain id s' where r: "invoke_break_glass plain_env audit_actor second_admin ''x'' None None ''1d'' empty_db = (Inr id, s')"
    using sample_break_glass by blast
  from break_glass_needs_two [OF r] have "length (security_audit s') = 2"
    by (auto simp: empty_db_def)
  with r show ?thesis by blast
qed

text \<open>
  The review's sign-off trusts what its caller says.  A reviewer envelope that is not authenticated
  and merely claims the compliance role signs off a review: the escalation timer is cancelled.  So does
  the invoker, when the caller passes other names for the two invokers; the recorded review is not read.
\<close>

theorem review_signed_off_by_claim:
  assumes "''compliance'' \<in> set (role_claims reviewer)" "subject reviewer \<notin> {who1, who2}"
    and "record_security_event E ''BREAK_GLASS_REVIEW'' reviewer (''sign_off:'' @ review_id) ''flagged''
          (Some ''signed_off'') None None ''regulator'' None s = (Inr sec_id, s1)"
  shows "\<exists>s'. sign_off_break_glass_review E review_id reviewer who1 who2 s = (Inr (), s')
    \<and> (\<forall>t \<in> set (timers s'). tm_task_id t = Some review_id \<longrightarrow> tm_status t \<noteq> ''scheduled'')"
  using assms by (auto simp: sign_off_break_glass_review_def andthen_def cancel_timers_def)

theorem review_signed_off_by_claim_witness:
  "\<exists>s'. sign_off_break_glass_review (hex_env plain_env) ''bgr_1'' (audit_actor\<lparr>authenticated := False, role_claims := [''compliance'']\<rparr>)
     ''user:x'' ''user:y'' empty_db = (Inr (), s')"
proof -
  let ?rv = "audit_actor\<lparr>authenticated := False, role_claims := [''compliance'']\<rparr>"
  obtain sec_id s1 where "record_security_event (hex_env plain_env) ''BREAK_GLASS_REVIEW'' ?rv (''sign_off:'' @ ''bgr_1'') ''flagged''
          (Some ''signed_off'') None None ''regulator'' None empty_db = (Inr sec_id, s1)"
    by (rule record_total [OF hex_env_digest(2), of "''flagged''" empty_db plain_env]) (auto simp: empty_db_def)
  from review_signed_off_by_claim [OF _ _ this, of "''user:x''" "''user:y''"] show ?thesis
    by (auto simp: audit_actor_def)
qed

end
