(* ===== verification/Table_History.thy ===== *)
theory Table_History
  imports Prelude
begin

text \<open>
  Tables whose rows are only ever added or changed in place.  \<open>history R rows rows'\<close>: \<open>rows'\<close> starts
  with the rows of \<open>rows\<close>, each changed as \<open>R\<close> allows.  The locale \<open>row_rel\<close> holds what follows for
  every such relation; the queue, the timers, the outbox and the external commands interpret it.
\<close>

definition history :: "('r \<Rightarrow> 'r \<Rightarrow> bool) \<Rightarrow> 'r list \<Rightarrow> 'r list \<Rightarrow> bool" where
  "history R rows rows' \<longleftrightarrow> (\<exists>new. prefix new rows' \<and> list_all2 R rows new)"

lemma history_keys:
  assumes "history R rows rows'" "\<And>r r'. R r r' \<Longrightarrow> k r' = k r"
  shows "prefix (map k rows) (map k rows')"
proof -
  obtain new rest where n: "rows' = new @ rest" "list_all2 R rows new"
    using assms(1) by (auto simp: history_def prefix_def)
  have "map k new = map k rows"
    using n(2) by (induction rule: list_all2_induct) (auto simp: assms(2))
  then show ?thesis
    by (simp add: n(1))
qed

locale row_rel =
  fixes R :: "'r \<Rightarrow> 'r \<Rightarrow> bool"
  assumes row_refl: "R r r"
    and row_trans: "R r s \<Longrightarrow> R s t \<Longrightarrow> R r t"
begin

lemma history_map:
  assumes "\<And>r. r \<in> set rows \<Longrightarrow> R r (g r)"
  shows "history R rows (map g rows)"
proof -
  have "list_all2 R rows (map g rows)"
    using assms by (induction rows) auto
  then show ?thesis
    unfolding history_def by blast
qed

lemma history_refl: "history R rows rows"
  using history_map [of rows "\<lambda>r. r"] by (simp add: row_refl)

lemma history_append: "history R rows (rows @ more)"
  unfolding history_def by (intro exI [of _ rows]) (simp add: list_all2_refl row_refl)

lemma history_trans:
  assumes "history R a b" "history R b c"
  shows "history R a c"
proof -
  obtain new new' where n: "prefix new b" "list_all2 R a new" "prefix new' c" "list_all2 R b new'"
    using assms by (auto simp: history_def)
  obtain rest where b: "b = new @ rest"
    using n(1) by (auto simp: prefix_def)
  then obtain xs ys where x: "new' = xs @ ys" "list_all2 R new xs"
    using n(4) by (auto simp: list_all2_append1)
  have "list_all2 R a xs"
    using list_all2_trans [OF _ n(2) x(2)] row_trans by blast
  moreover have "prefix xs c"
    using n(3) x(1) by (auto simp: prefix_def)
  ultimately show ?thesis
    by (auto simp: history_def)
qed

lemma history_mem:
  assumes "history R rows rows'" "r \<in> set rows"
  obtains r' where "r' \<in> set rows'" "R r r'"
proof -
  have "list_all2 R xs ys \<Longrightarrow> r \<in> set xs \<Longrightarrow> \<exists>r' \<in> set ys. R r r'" for xs ys
    by (induction rule: list_all2_induct) auto
  moreover obtain new where "prefix new rows'" "list_all2 R rows new"
    using assms(1) by (auto simp: history_def)
  ultimately obtain r' where "r' \<in> set new" "R r r'"
    using assms(2) by blast
  then show thesis
    using that [of r'] set_mono_prefix [OF \<open>prefix new rows'\<close>] by auto
qed

end

text \<open>A row found by its key, in a table whose keys are distinct.\<close>

lemma find_key_unique:
  assumes "distinct (map k rows)" "r \<in> set rows"
  shows "find (\<lambda>x. k x = k r) rows = Some r"
  using assms by (induction rows) force+

lemma find_key_mem: "find (\<lambda>x. k x = v) rows = Some r \<Longrightarrow> r \<in> set rows \<and> k r = v"
  by (induction rows) (auto split: if_splits)

lemma distinct_keyD: "distinct (map k rows) \<Longrightarrow> r \<in> set rows \<Longrightarrow> r' \<in> set rows \<Longrightarrow> k r = k r' \<Longrightarrow> r = r'"
  by (auto simp: distinct_map dest: inj_onD)


lemma sum_update_key:
  fixes g :: "'r \<Rightarrow> int"
  assumes "distinct (map k rows)" "r \<in> set rows"
  shows "sum_list (map g (map (\<lambda>x. if k x = k r then f x else x) rows)) = sum_list (map g rows) - g r + g (f r)"
  using assms
proof (induction rows)
  case (Cons x rows)
  show ?case
  proof (cases "k x = k r")
    case True
    then have "k r \<notin> k ` set rows" "x = r"
      using Cons.prems by auto
    moreover from this have "map (\<lambda>x. if k x = k r then f x else x) rows = rows"
      by (intro map_idI) (metis imageI)
    ultimately show ?thesis
      by simp
  next
    case False
    then show ?thesis
      using Cons by auto
  qed
qed simp

end
