(* ===== verification/Queue.thy ===== *)
theory Queue
  imports Security_Audit Table_History
begin

text \<open>
  The worker queue: \<open>runtime/queue.py\<close> and \<open>runtime/backoff.py\<close>.

  A claim takes the least available row of its lane whose partition has no lease, and leases it.  In one
  transaction the two halves run together; \<open>claim_pick\<close> and \<open>claim_lease\<close> are also run apart, for two
  workers that both picked before either leased, where the partial unique index on leased partitions
  turns the loser's claim into a miss.  The dedicated lanes share one claim, renewal, completion and
  failure; every one of their writes is guarded by the row's fence.  Durations are microseconds.
\<close>

subsection \<open>Backoff\<close>

definition MICROS :: int where
  "MICROS = 1000000"

text \<open>\<open>min(base * 2 ** (n - 1), cap)\<close>; an integer of 1024 bits or more does not convert to a float.\<close>

definition backoff_raw :: "int \<Rightarrow> int \<Rightarrow> int \<Rightarrow> exn + int" where
  "backoff_raw attempts base cap =
     (let n = (if attempts \<ge> 1 then attempts else 1)
      in if n - 1 \<ge> 1024 then Inl OverflowError else Inr (min (base * 2 ^ nat (n - 1)) cap))"

definition compute_backoff_with :: "env \<Rightarrow> int \<Rightarrow> int \<Rightarrow> int \<Rightarrow> int \<Rightarrow> int dbprog" where
  "compute_backoff_with E attempts base cap jitter_percent =
     andthen (lift (backoff_raw attempts base cap)) (\<lambda>raw.
     if jitter_percent \<le> 0 then ret raw
     else
       (let delta = raw * jitter_percent div 100
        in andthen (query (\<lambda>s. uniform E (draws s) (- delta) delta)) (\<lambda>u.
           andthen (update (\<lambda>s. s\<lparr>draws := Suc (draws s)\<rparr>)) (\<lambda>_.
           ret (max 0 (raw + u))))))"

text \<open>The defaults: one second, capped at an hour, half of it as jitter.\<close>

definition compute_backoff :: "env \<Rightarrow> int \<Rightarrow> int dbprog" where
  "compute_backoff E attempts = compute_backoff_with E attempts MICROS (3600 * MICROS) 50"

lemma backoff_state: "compute_backoff E n s = (r, s') \<Longrightarrow> s' = s \<or> s' = s\<lparr>draws := Suc (draws s)\<rparr>"
  by (auto simp: compute_backoff_def compute_backoff_with_def andthen_def Let_def split: sum.splits if_splits prod.splits)

subsection \<open>Lanes\<close>

definition CONTROL_SIGNAL_HANDLERS :: "string list" where
  "CONTROL_SIGNAL_HANDLERS = [''runtime.auto_park'', ''runtime.repair_exhausted'']"
definition FORMULA_SHADOW_QUEUE_HANDLERS :: "string list" where
  "FORMULA_SHADOW_QUEUE_HANDLERS = [''recipe_formula_shadow.author.v1'']"
definition MATERIALIZATION_QUEUE_HANDLERS :: "string list" where
  "MATERIALIZATION_QUEUE_HANDLERS = [''materialization.compile.v1'']"
definition FORMULA_DRAFT_QUEUE_HANDLERS :: "string list" where
  "FORMULA_DRAFT_QUEUE_HANDLERS = [''formula_draft.author.v1'']"
definition GENERATION_QUEUE_HANDLERS :: "string list" where
  "GENERATION_QUEUE_HANDLERS = [''generation.v2.build'']"
definition VERIFICATION_QUEUE_HANDLERS :: "string list" where
  "VERIFICATION_QUEUE_HANDLERS = [''verification.v2.run'']"

definition DEDICATED_HANDLERS :: "string list" where
  "DEDICATED_HANDLERS = CONTROL_SIGNAL_HANDLERS @ FORMULA_SHADOW_QUEUE_HANDLERS @ MATERIALIZATION_QUEUE_HANDLERS
     @ FORMULA_DRAFT_QUEUE_HANDLERS @ GENERATION_QUEUE_HANDLERS @ VERIFICATION_QUEUE_HANDLERS"

subsection \<open>Putting work in\<close>

definition queue_row_of :: "int \<Rightarrow> string \<Rightarrow> string \<Rightarrow> string \<Rightarrow> dict \<Rightarrow> string option \<Rightarrow> int \<Rightarrow> int \<Rightarrow> queue_row" where
  "queue_row_of i message_id partition_key handler payload hash available priority =
     \<lparr>qu_id = i, qu_message_id = message_id, qu_partition_key = partition_key, qu_handler = handler, qu_payload = payload,
      qu_status = ''ready'', qu_lease_owner = None, qu_lease_expires_at = None, qu_attempts = 0, qu_max_attempts = 12,
      qu_available_at = available, qu_priority = priority, qu_last_error = None, qu_payload_hash = hash, qu_lease_fence = 0\<rparr>"

definition message_at :: "string \<Rightarrow> db \<Rightarrow> queue_row option" where
  "message_at message_id s = find (\<lambda>r. qu_message_id r = message_id) (queue s)"

text \<open>\<open>INSERT ... ON CONFLICT (message_id) DO NOTHING RETURNING id\<close>.\<close>

definition insert_message ::
  "string \<Rightarrow> string \<Rightarrow> string \<Rightarrow> dict \<Rightarrow> string option \<Rightarrow> int option \<Rightarrow> int \<Rightarrow> int option dbprog" where
  "insert_message message_id partition_key handler payload hash available priority = (\<lambda>s.
     let s1 = s\<lparr>queue_seq := queue_seq s + 1\<rparr>; i = queue_seq s + 1
     in case message_at message_id s of
          Some _ \<Rightarrow> (Inr None, s1)
        | None \<Rightarrow> (Inr (Some i), s1\<lparr>queue := queue s @ [queue_row_of i message_id partition_key handler payload hash
            (case available of None \<Rightarrow> clock s | Some t \<Rightarrow> t) priority]\<rparr>))"

definition enqueue :: "string \<Rightarrow> string \<Rightarrow> string \<Rightarrow> dict \<Rightarrow> int option \<Rightarrow> int \<Rightarrow> int dbprog" where
  "enqueue message_id partition_key handler payload available priority =
     andthen (insert_message message_id partition_key handler payload None available priority) (\<lambda>new.
     case new of Some i \<Rightarrow> ret i
     | None \<Rightarrow>
         andthen (query (message_at message_id)) (\<lambda>row.
         case row of None \<Rightarrow> throw TypeError | Some r \<Rightarrow> ret (qu_id r)))"

text \<open>The digest of the payload's canonical text; the SHA-256 of the library is a parameter.\<close>

definition payload_hash :: "env \<Rightarrow> dict \<Rightarrow> string" where
  "payload_hash E payload = sha256_of E (json_dumps (JObj payload))"

definition enqueue_checked :: "env \<Rightarrow> string \<Rightarrow> string \<Rightarrow> string \<Rightarrow> dict \<Rightarrow> int option \<Rightarrow> int \<Rightarrow> int dbprog" where
  "enqueue_checked E message_id partition_key handler payload available priority =
     (let hash = payload_hash E payload
      in andthen (insert_message message_id partition_key handler payload (Some hash) available priority) (\<lambda>new.
         case new of Some i \<Rightarrow> ret i
         | None \<Rightarrow>
             andthen (query (message_at message_id)) (\<lambda>row.
             case row of None \<Rightarrow> throw QueueIdempotencyConflict
             | Some r \<Rightarrow>
                 if qu_partition_key r \<noteq> partition_key \<or> qu_handler r \<noteq> handler
                    \<or> str_or (qu_payload_hash r) (payload_hash E (qu_payload r)) \<noteq> hash
                 then throw QueueIdempotencyConflict else ret (qu_id r))))"

subsection \<open>Claiming\<close>

definition partition_leased :: "string \<Rightarrow> db \<Rightarrow> bool" where
  "partition_leased p s \<longleftrightarrow> list_ex (\<lambda>r. qu_status r = ''leased'' \<and> qu_partition_key r = p) (queue s)"

definition claimable :: "(string \<Rightarrow> bool) \<Rightarrow> db \<Rightarrow> queue_row \<Rightarrow> bool" where
  "claimable lane s r \<longleftrightarrow> qu_status r = ''ready'' \<and> qu_available_at r \<le> clock s \<and> lane (qu_handler r)
     \<and> \<not> partition_leased (qu_partition_key r) s"

text \<open>\<open>ORDER BY priority, available_at, id LIMIT 1\<close>: stable sorts, the last one decides first.\<close>

definition claim_pick :: "(string \<Rightarrow> bool) \<Rightarrow> db \<Rightarrow> queue_row option" where
  "claim_pick lane s =
     (case sort_key qu_priority (sort_key qu_available_at (sort_key qu_id (filter (claimable lane s) (queue s)))) of
        [] \<Rightarrow> None | r # _ \<Rightarrow> Some r)"

definition leased_row :: "string \<Rightarrow> int \<Rightarrow> int \<Rightarrow> queue_row \<Rightarrow> queue_row" where
  "leased_row owner until bump r = r\<lparr>qu_status := ''leased'', qu_lease_owner := Some owner, qu_lease_expires_at := Some until,
     qu_attempts := qu_attempts r + 1, qu_lease_fence := qu_lease_fence r + bump\<rparr>"

text \<open>\<open>UPDATE ... WHERE id = c.id\<close> under the index \<open>queue_one_inflight_per_partition\<close>.\<close>

definition update_queue :: "int \<Rightarrow> (queue_row \<Rightarrow> queue_row) \<Rightarrow> unit dbprog" where
  "update_queue i f = update (\<lambda>s. s\<lparr>queue := map (\<lambda>r. if qu_id r = i then f r else r) (queue s)\<rparr>)"

definition claim_lease :: "string \<Rightarrow> int \<Rightarrow> int \<Rightarrow> queue_row \<Rightarrow> queue_row dbprog" where
  "claim_lease owner lease bump c =
     andthen (query (partition_leased (qu_partition_key c))) (\<lambda>taken.
     if taken then throw (UniqueViolation ''queue_one_inflight_per_partition'')
     else
       andthen (query (\<lambda>s. clock s + lease)) (\<lambda>until.
       andthen (update_queue (qu_id c) (leased_row owner until bump)) (\<lambda>_.
       ret (leased_row owner until bump c))))"

text \<open>The savepoint around the claim, and the violation read as a miss.\<close>

definition try_lease :: "string \<Rightarrow> int \<Rightarrow> int \<Rightarrow> queue_row option \<Rightarrow> queue_row option dbprog" where
  "try_lease owner lease bump picked =
     catch (savepoint rollback (case picked of None \<Rightarrow> ret None
              | Some c \<Rightarrow> andthen (claim_lease owner lease bump c) (\<lambda>row. ret (Some row))))
       (\<lambda>e. case e of UniqueViolation _ \<Rightarrow> ret None | _ \<Rightarrow> throw e)"

record QueueClaim =
  qc_id :: int
  qc_message_id :: string
  qc_partition_key :: string
  qc_handler :: string
  qc_payload :: dict
  qc_attempts :: int
  qc_max_attempts :: int

definition claim_of :: "queue_row \<Rightarrow> QueueClaim" where
  "claim_of r = \<lparr>qc_id = qu_id r, qc_message_id = qu_message_id r, qc_partition_key = qu_partition_key r,
     qc_handler = qu_handler r, qc_payload = qu_payload r, qc_attempts = qu_attempts r, qc_max_attempts = qu_max_attempts r\<rparr>"

definition claim_one :: "string \<Rightarrow> int \<Rightarrow> QueueClaim option dbprog" where
  "claim_one owner lease =
     andthen (query (claim_pick (\<lambda>h. h \<notin> set DEDICATED_HANDLERS))) (\<lambda>picked.
     andthen (try_lease owner lease 0 picked) (\<lambda>row.
     ret (map_option claim_of row)))"

text \<open>A claim of a dedicated lane carries its owner and the fence it was leased under.\<close>

record FormulaQueueClaim = QueueClaim +
  qc_lease_owner :: string
  qc_lease_fence :: int

type_synonym MaterializationQueueClaim = FormulaQueueClaim
type_synonym GenerationQueueClaim = FormulaQueueClaim
type_synonym FormulaDraftQueueClaim = FormulaQueueClaim

definition fenced_claim_of :: "queue_row \<Rightarrow> FormulaQueueClaim" where
  "fenced_claim_of r = \<lparr>qc_id = qu_id r, qc_message_id = qu_message_id r, qc_partition_key = qu_partition_key r,
     qc_handler = qu_handler r, qc_payload = qu_payload r, qc_attempts = qu_attempts r, qc_max_attempts = qu_max_attempts r,
     qc_lease_owner = str_or (qu_lease_owner r) [], qc_lease_fence = qu_lease_fence r\<rparr>"

definition claim_lane :: "string list \<Rightarrow> string \<Rightarrow> int \<Rightarrow> FormulaQueueClaim option dbprog" where
  "claim_lane handlers owner lease =
     andthen (query (claim_pick (\<lambda>h. h \<in> set handlers))) (\<lambda>picked.
     andthen (try_lease owner lease 1 picked) (\<lambda>row.
     ret (map_option fenced_claim_of row)))"

definition claim_recipe_formula_shadow :: "string \<Rightarrow> int \<Rightarrow> FormulaQueueClaim option dbprog" where
  "claim_recipe_formula_shadow = claim_lane FORMULA_SHADOW_QUEUE_HANDLERS"
definition claim_materialization :: "string \<Rightarrow> int \<Rightarrow> MaterializationQueueClaim option dbprog" where
  "claim_materialization = claim_lane MATERIALIZATION_QUEUE_HANDLERS"
definition claim_generation :: "string \<Rightarrow> int \<Rightarrow> GenerationQueueClaim option dbprog" where
  "claim_generation = claim_lane GENERATION_QUEUE_HANDLERS"
definition claim_verification :: "string \<Rightarrow> int \<Rightarrow> GenerationQueueClaim option dbprog" where
  "claim_verification = claim_lane VERIFICATION_QUEUE_HANDLERS"
definition claim_formula_draft :: "string \<Rightarrow> int \<Rightarrow> FormulaDraftQueueClaim option dbprog" where
  "claim_formula_draft = claim_lane FORMULA_DRAFT_QUEUE_HANDLERS"

subsection \<open>Writes under a fence\<close>

definition holds_fence :: "FormulaQueueClaim \<Rightarrow> db \<Rightarrow> queue_row \<Rightarrow> bool" where
  "holds_fence c s r \<longleftrightarrow> qu_id r = qc_id c \<and> qu_status r = ''leased'' \<and> qu_lease_owner r = Some (qc_lease_owner c)
     \<and> qu_lease_fence r = qc_lease_fence c \<and> (case qu_lease_expires_at r of None \<Rightarrow> False | Some t \<Rightarrow> clock s < t)"

text \<open>\<open>UPDATE queue SET ... WHERE <the fence holds> RETURNING id\<close>: whether a row was updated.\<close>

definition fenced_update :: "FormulaQueueClaim \<Rightarrow> (queue_row \<Rightarrow> queue_row) \<Rightarrow> bool dbprog" where
  "fenced_update c f = (\<lambda>s. (Inr (list_ex (holds_fence c s) (queue s)),
     s\<lparr>queue := map (\<lambda>r. if holds_fence c s r then f r else r) (queue s)\<rparr>))"

definition unleased :: "string \<Rightarrow> queue_row \<Rightarrow> queue_row" where
  "unleased status r = r\<lparr>qu_status := status, qu_lease_owner := None, qu_lease_expires_at := None\<rparr>"

definition renew_lane :: "FormulaQueueClaim \<Rightarrow> int \<Rightarrow> bool dbprog" where
  "renew_lane c lease =
     andthen (query (\<lambda>s. clock s + lease)) (\<lambda>until. fenced_update c (\<lambda>r. r\<lparr>qu_lease_expires_at := Some until\<rparr>))"

definition complete_lane :: "FormulaQueueClaim \<Rightarrow> bool dbprog" where
  "complete_lane c = fenced_update c (unleased ''done'')"

definition fail_lane :: "env \<Rightarrow> FormulaQueueClaim \<Rightarrow> string \<Rightarrow> bool \<Rightarrow> bool dbprog" where
  "fail_lane E c error permanent =
     (let status = (if permanent \<or> qc_attempts c \<ge> qc_max_attempts c then ''dead'' else ''ready'')
      in andthen (compute_backoff E (qc_attempts c)) (\<lambda>delay.
         andthen (query (\<lambda>s. clock s + delay)) (\<lambda>next.
         fenced_update c (\<lambda>r. (unleased status r)\<lparr>qu_last_error := Some error,
           qu_available_at := (if status = ''ready'' then next else qu_available_at r)\<rparr>))))"

definition renew_recipe_formula_shadow where "renew_recipe_formula_shadow = renew_lane"
definition complete_recipe_formula_shadow where "complete_recipe_formula_shadow = complete_lane"
definition fail_recipe_formula_shadow where "fail_recipe_formula_shadow = fail_lane"
definition renew_materialization where "renew_materialization = renew_lane"
definition complete_materialization where "complete_materialization = complete_lane"
definition fail_materialization where "fail_materialization = fail_lane"
definition renew_generation where "renew_generation = renew_lane"
definition complete_generation where "complete_generation = complete_lane"
definition fail_generation where "fail_generation = fail_lane"
definition renew_formula_draft where "renew_formula_draft = renew_lane"
definition complete_formula_draft where "complete_formula_draft = complete_lane"
definition fail_formula_draft where "fail_formula_draft = fail_lane"

subsection \<open>The general consumer\<close>

definition complete :: "int \<Rightarrow> unit dbprog" where
  "complete i = update_queue i (unleased ''done'')"

definition fail_permanent :: "int \<Rightarrow> string \<Rightarrow> unit dbprog" where
  "fail_permanent i error = update_queue i (\<lambda>r. (unleased ''dead'' r)\<lparr>qu_last_error := Some error\<rparr>)"

definition row_at :: "int \<Rightarrow> db \<Rightarrow> queue_row option" where
  "row_at i s = find (\<lambda>r. qu_id r = i) (queue s)"

definition fail_retryable :: "env \<Rightarrow> int \<Rightarrow> string \<Rightarrow> unit dbprog" where
  "fail_retryable E i error =
     andthen (query (row_at i)) (\<lambda>row.
     case row of None \<Rightarrow> throw TypeError
     | Some r \<Rightarrow>
         if qu_attempts r \<ge> qu_max_attempts r then fail_permanent i error
         else
           andthen (compute_backoff E (qu_attempts r)) (\<lambda>delay.
           andthen (query (\<lambda>s. clock s + delay)) (\<lambda>next.
           update_queue i (\<lambda>r. (unleased ''ready'' r)\<lparr>qu_last_error := Some error, qu_available_at := next\<rparr>))))"

definition reclaim_stuck_queue :: "int dbprog" where
  "reclaim_stuck_queue =
     (let stuck = (\<lambda>s r. qu_status r = ''leased'' \<and> (case qu_lease_expires_at r of None \<Rightarrow> False | Some t \<Rightarrow> t < clock s))
      in (\<lambda>s. (Inr (int (length (filter (stuck s) (queue s)))),
          s\<lparr>queue := map (\<lambda>r. if stuck s r then unleased ''ready'' r else r) (queue s)\<rparr>)))"

definition queue_depth :: "string option \<Rightarrow> db \<Rightarrow> int" where
  "queue_depth partition_key s = int (length (filter (\<lambda>r. qu_status r \<in> {''ready'', ''leased''}
     \<and> (case partition_key of None \<Rightarrow> True | Some p \<Rightarrow> qu_partition_key r = p)) (queue s)))"

subsection \<open>History and invariant\<close>

text \<open>What no operation changes of a row, and what never goes back.\<close>

definition row_core :: "queue_row \<Rightarrow> queue_row" where
  "row_core r = r\<lparr>qu_status := [], qu_lease_owner := None, qu_lease_expires_at := None, qu_attempts := 0, qu_available_at := 0,
     qu_last_error := None, qu_lease_fence := 0\<rparr>"

definition row_step :: "queue_row \<Rightarrow> queue_row \<Rightarrow> bool" where
  "row_step r r' \<longleftrightarrow> row_core r' = row_core r \<and> qu_attempts r \<le> qu_attempts r' \<and> qu_lease_fence r \<le> qu_lease_fence r'"

definition row_wf :: "queue_row \<Rightarrow> bool" where
  "row_wf r \<longleftrightarrow> qu_status r \<in> {''ready'', ''leased'', ''done'', ''dead''}
     \<and> (qu_status r = ''leased'' \<longleftrightarrow> qu_lease_owner r \<noteq> None) \<and> (qu_status r = ''leased'' \<longleftrightarrow> qu_lease_expires_at r \<noteq> None)"

definition leased_keys :: "queue_row list \<Rightarrow> string list" where
  "leased_keys rows = map qu_partition_key (filter (\<lambda>r. qu_status r = ''leased'') rows)"

definition queue_ok :: "db \<Rightarrow> bool" where
  "queue_ok s \<longleftrightarrow> distinct (map qu_id (queue s)) \<and> (\<forall>r \<in> set (queue s). qu_id r \<le> queue_seq s)
     \<and> distinct (map qu_message_id (queue s)) \<and> distinct (leased_keys (queue s)) \<and> (\<forall>r \<in> set (queue s). row_wf r)"

definition queue_step :: "db \<Rightarrow> db \<Rightarrow> bool" where
  "queue_step s s' \<longleftrightarrow> history row_step (queue s) (queue s') \<and> queue_seq s \<le> queue_seq s' \<and> (queue_ok s \<longrightarrow> queue_ok s')"

lemma row_step_refl: "row_step r r"
  by (simp add: row_step_def)

lemma row_step_trans: "row_step r s \<Longrightarrow> row_step s t \<Longrightarrow> row_step r t"
  by (auto simp: row_step_def)

lemma row_core_fields:
  assumes "row_core r' = row_core r"
  shows "qu_id r' = qu_id r" "qu_message_id r' = qu_message_id r" "qu_partition_key r' = qu_partition_key r"
    "qu_handler r' = qu_handler r" "qu_max_attempts r' = qu_max_attempts r" "qu_payload r' = qu_payload r"
  using assms [THEN arg_cong, of qu_id] assms [THEN arg_cong, of qu_message_id] assms [THEN arg_cong, of qu_partition_key]
    assms [THEN arg_cong, of qu_handler] assms [THEN arg_cong, of qu_max_attempts] assms [THEN arg_cong, of qu_payload]
  by (simp_all add: row_core_def)

interpretation queue_rows: row_rel row_step
  by unfold_locales (auto intro: row_step_refl row_step_trans)

interpretation queues: state_rel queue_step
  by unfold_locales (auto simp: queue_step_def queue_rows.history_refl intro: queue_rows.history_trans)

lemma queue_step_frame: "queue s' = queue s \<Longrightarrow> queue_seq s \<le> queue_seq s' \<Longrightarrow> queue_step s s'"
  by (fastforce simp: queue_step_def queue_ok_def queue_rows.history_refl)

text \<open>Rows changed in place, without new leases.\<close>

lemma leased_keys_map:
  assumes "\<And>r. qu_partition_key (g r) = qu_partition_key r" "\<And>r. qu_status (g r) = ''leased'' \<Longrightarrow> qu_status r = ''leased''"
  shows "distinct (leased_keys rows) \<Longrightarrow> distinct (leased_keys (map g rows))"
proof -
  have f: "filter (\<lambda>r. qu_status (g r) = ''leased'') rows = filter (\<lambda>r. qu_status (g r) = ''leased'') (filter (\<lambda>r. qu_status r = ''leased'') rows)"
    using assms(2) by (auto intro: filter_cong)
  have "leased_keys (map g rows) = map qu_partition_key (filter (\<lambda>r. qu_status (g r) = ''leased'') (filter (\<lambda>r. qu_status r = ''leased'') rows))"
    unfolding f [symmetric] by (simp add: leased_keys_def filter_map comp_def assms(1))
  then show "distinct (leased_keys rows) \<Longrightarrow> distinct (leased_keys (map g rows))"
    by (simp only: leased_keys_def distinct_map_filter)
qed

lemma queue_step_map:
  assumes "\<And>r. row_step r (g r)" "\<And>r. row_wf r \<Longrightarrow> row_wf (g r)"
    and "distinct (leased_keys (queue s)) \<Longrightarrow> distinct (leased_keys (map g (queue s)))"
    and "queue s' = map g (queue s)" "queue_seq s' = queue_seq s"
  shows "queue_step s s'"
proof -
  have k: "qu_id (g r) = qu_id r" "qu_message_id (g r) = qu_message_id r" for r
    using row_core_fields [of "g r" r] assms(1) [of r] by (auto simp: row_step_def)
  have "map qu_id (map g rows) = map qu_id rows" "map qu_message_id (map g rows) = map qu_message_id rows" for rows
    by (simp_all add: k)
  then have "queue_ok s \<Longrightarrow> queue_ok s'"
    using assms(2,3) unfolding queue_ok_def assms(4,5) by (auto simp: k simp del: map_map)
  moreover have "history row_step (queue s) (queue s')"
    unfolding assms(4) by (rule queue_rows.history_map) (rule assms(1))
  ultimately show ?thesis
    by (simp add: queue_step_def assms(5))
qed

lemma queue_step_unlease:
  assumes "\<And>r. row_step r (g r)" "\<And>r. row_wf r \<Longrightarrow> row_wf (g r)" "\<And>r. qu_status (g r) = ''leased'' \<Longrightarrow> qu_status r = ''leased''"
    and "queue s' = map g (queue s)" "queue_seq s' = queue_seq s"
  shows "queue_step s s'"
proof (rule queue_step_map [OF assms(1,2) _ assms(4,5)])
  have "qu_partition_key (g r) = qu_partition_key r" for r
    using row_core_fields(3) [of "g r" r] assms(1) [of r] by (simp add: row_step_def)
  then show "distinct (leased_keys (queue s)) \<Longrightarrow> distinct (leased_keys (map g (queue s)))"
    by (rule leased_keys_map) (use assms(3) in auto)
qed

lemma row_step_simps [simp]:
  "row_step r (unleased st r)" "row_step r (r\<lparr>qu_lease_expires_at := t\<rparr>)"
  "row_step r ((unleased st r)\<lparr>qu_last_error := e\<rparr>)" "row_step r ((unleased st r)\<lparr>qu_last_error := e, qu_available_at := a\<rparr>)"
  "bump \<ge> 0 \<Longrightarrow> row_step r (leased_row owner until bump r)"
  by (simp_all add: row_step_def row_core_def unleased_def leased_row_def)

lemma unleased_wf:
  "st \<in> {''ready'', ''done'', ''dead''} \<Longrightarrow> row_wf (unleased st r)"
  "st \<in> {''ready'', ''done'', ''dead''} \<Longrightarrow> row_wf ((unleased st r)\<lparr>qu_last_error := e\<rparr>)"
  "st \<in> {''ready'', ''done'', ''dead''} \<Longrightarrow> row_wf ((unleased st r)\<lparr>qu_last_error := e, qu_available_at := a\<rparr>)"
  "row_wf r \<Longrightarrow> qu_status r = ''leased'' \<Longrightarrow> row_wf (r\<lparr>qu_lease_expires_at := Some t\<rparr>)"
  by (auto simp: row_wf_def unleased_def)

lemma unleased_status [simp]: "qu_status (unleased st r) = st"
  by (simp add: unleased_def)

lemma keeps_update_queue:
  assumes "\<And>r. row_step r (f r)" "\<And>r. row_wf r \<Longrightarrow> row_wf (f r)" "\<And>r. qu_status (f r) = ''leased'' \<Longrightarrow> qu_status r = ''leased''"
  shows "keeps queue_step (update_queue i f)"
  by (rule keepsI, rule queue_step_unlease [where g = "\<lambda>r. if qu_id r = i then f r else r"])
     (use assms in \<open>auto simp: update_queue_def row_step_refl split: if_splits\<close>)

lemma keeps_fenced_update:
  assumes "\<And>r. row_step r (f r)" "\<And>r. row_wf r \<Longrightarrow> qu_status r = ''leased'' \<Longrightarrow> row_wf (f r)"
  shows "keeps queue_step (fenced_update c f)"
proof (rule keepsI)
  fix s
  show "queue_step s (snd (fenced_update c f s))"
    by (rule queue_step_unlease [where g = "\<lambda>r. if holds_fence c s r then f r else r"])
       (use assms in \<open>auto simp: fenced_update_def row_step_refl holds_fence_def split: if_splits\<close>)
qed

lemma keeps_draw: "keeps queue_step (compute_backoff E n)"
proof -
  have "keeps queue_step (update (\<lambda>s. s\<lparr>draws := Suc (draws s)\<rparr>))"
    by (rule queues.keeps_update) (simp add: queue_step_frame)
  then show ?thesis
    unfolding compute_backoff_def compute_backoff_with_def by (intro queues.keeps_rules)
qed

lemma keeps_lane_writes:
  "keeps queue_step (renew_lane c lease)" "keeps queue_step (complete_lane c)" "keeps queue_step (fail_lane E c error permanent)"
  unfolding renew_lane_def complete_lane_def fail_lane_def Let_def
  by (intro queues.keeps_rules keeps_draw keeps_fenced_update; auto simp: unleased_wf)+

lemma keeps_consumer_writes:
  "keeps queue_step (complete i)" "keeps queue_step (fail_permanent i error)" "keeps queue_step (fail_retryable E i error)"
  unfolding complete_def fail_permanent_def fail_retryable_def
  by (intro queues.keeps_rules keeps_draw keeps_update_queue; auto simp: unleased_wf)+

lemma keeps_reclaim: "keeps queue_step reclaim_stuck_queue"
proof (rule keepsI)
  fix s
  show "queue_step s (snd (reclaim_stuck_queue s))"
    by (rule queue_step_unlease [where g = "\<lambda>r. if qu_status r = ''leased'' \<and> (case qu_lease_expires_at r of None \<Rightarrow> False | Some t \<Rightarrow> t < clock s)
          then unleased ''ready'' r else r"])
       (auto simp: reclaim_stuck_queue_def Let_def row_step_refl unleased_wf split: if_splits)
qed


text \<open>A lease under the index: one more leased partition, or a miss.\<close>

lemma partition_leased_iff: "partition_leased p s \<longleftrightarrow> p \<in> set (leased_keys (queue s))"
  by (auto simp: partition_leased_def leased_keys_def list_ex_iff)

lemma leased_keys_lease:
  assumes "distinct (leased_keys rows)" "qu_partition_key c \<notin> set (leased_keys rows)" "c \<in> set rows" "distinct (map qu_id rows)"
    and "\<And>r. qu_partition_key (f r) = qu_partition_key r"
  shows "distinct (leased_keys (map (\<lambda>r. if qu_id r = qu_id c then f r else r) rows))"
proof -
  obtain xs ys where r: "rows = xs @ c # ys"
    using assms(3) by (auto simp: in_set_conv_decomp)
  have "qu_id x \<noteq> qu_id c" if "x \<in> set xs \<union> set ys" for x
  proof -
    have "qu_id c \<notin> qu_id ` (set xs \<union> set ys)"
      using assms(4) by (auto simp: r)
    then show ?thesis
      using that by (metis imageI)
  qed
  then have o: "map (\<lambda>r. if qu_id r = qu_id c then f r else r) zs = zs" if "set zs \<subseteq> set xs \<union> set ys" for zs
    using that by (intro map_idI) auto
  have "map (\<lambda>r. if qu_id r = qu_id c then f r else r) rows = xs @ f c # ys"
    using o [of xs] o [of ys] by (simp add: r)
  then show ?thesis
    using assms(1,2,5) by (auto simp: r leased_keys_def split: if_splits)
qed

lemma try_lease_cases:
  "try_lease owner lease bump picked s =
    (case picked of None \<Rightarrow> (Inr None, s)
     | Some c \<Rightarrow> if partition_leased (qu_partition_key c) s then (Inr None, s)
         else (Inr (Some (leased_row owner (clock s + lease) bump c)),
           s\<lparr>queue := map (\<lambda>r. if qu_id r = qu_id c then leased_row owner (clock s + lease) bump r else r) (queue s)\<rparr>))"
  by (cases picked) (auto simp: try_lease_def claim_lease_def catch_def savepoint_def andthen_def update_queue_def rollback_def)

lemma leased_row_wf: "row_wf (leased_row owner until bump r)"
  by (simp add: row_wf_def leased_row_def)

lemma leased_row_id: "qu_id (leased_row owner until bump r) = qu_id r"
  by (simp add: leased_row_def)

lemma keeps_try_lease:
  assumes "\<And>c. picked = Some c \<Longrightarrow> c \<in> set (queue s)" "bump \<ge> 0"
  shows "queue_step s (snd (try_lease owner lease bump picked s))"
proof (cases picked)
  case None
  then show ?thesis
    by (simp add: try_lease_cases queues.rel_refl)
next
  case (Some c')
  show ?thesis
  proof (cases "partition_leased (qu_partition_key c') s")
    case False
    let ?g = "\<lambda>r. if qu_id r = qu_id c' then leased_row owner (clock s + lease) bump r else r"
    have h: "history row_step (queue s) (map ?g (queue s))"
      by (rule queue_rows.history_map) (simp add: row_step_refl assms(2))
    have "queue_ok (s\<lparr>queue := map ?g (queue s)\<rparr>)" if ok: "queue_ok s" and c: "c' \<in> set (queue s)"
    proof -
      have "map qu_id (map ?g (queue s)) = map qu_id (queue s)" "map qu_message_id (map ?g (queue s)) = map qu_message_id (queue s)"
        by (simp_all add: leased_row_def)
      moreover have "distinct (leased_keys (map ?g (queue s)))"
        using ok c False by (intro leased_keys_lease) (simp_all add: queue_ok_def partition_leased_iff leased_row_def)
      moreover have "\<forall>r \<in> set (map ?g (queue s)). qu_id r \<le> queue_seq s \<and> row_wf r"
        using ok by (auto simp: queue_ok_def leased_row_wf leased_row_id)
      ultimately show ?thesis
        using ok by (simp add: queue_ok_def del: map_map list.set_map)
    qed
    then show ?thesis
      using h assms(1) Some False by (simp add: try_lease_cases queue_step_def)
  qed (simp add: Some try_lease_cases queues.rel_refl)
qed

lemma claim_pick_mem:
  assumes "claim_pick lane s = Some c"
  shows "c \<in> set (queue s)" "claimable lane s c"
proof -
  let ?sorted = "sort_key qu_priority (sort_key qu_available_at (sort_key qu_id (filter (claimable lane s) (queue s))))"
  obtain rest where "?sorted = c # rest"
    using assms by (auto simp: claim_pick_def split: list.splits)
  then have "c \<in> set ?sorted"
    by (simp only: list.set_intros)
  then show "c \<in> set (queue s)" "claimable lane s c"
    by auto
qed

lemma andthen_snd: "(\<And>x t. snd (f x t) = t) \<Longrightarrow> snd (andthen m f s) = snd (m s)"
  by (auto simp: andthen_def split: prod.split sum.split)

lemma queue_keeps_claims: "keeps queue_step (claim_one owner lease)" "keeps queue_step (claim_lane hs owner lease)"
proof -
  have "queue_step s (snd (try_lease owner lease bump (claim_pick lane s) s))" if "bump \<ge> 0" for s lane bump
    using claim_pick_mem(1) that by (intro keeps_try_lease) auto
  then show "keeps queue_step (claim_one owner lease)" "keeps queue_step (claim_lane hs owner lease)"
    by (auto simp: keeps_def claim_one_def claim_lane_def andthen_snd)
qed

lemma queue_step_insert: "queue_step s (snd (insert_message m p h d hash av pr s))"
proof -
  have "history row_step (queue s) (queue s @ [r])" for r
    by (rule queue_rows.history_append)
  moreover have "queue_ok (s\<lparr>queue_seq := queue_seq s + 1, queue := queue s @ [r]\<rparr>)"
    if "queue_ok s" "message_at (qu_message_id r) s = None" "qu_status r = ''ready''" "qu_id r = queue_seq s + 1" "row_wf r" for r
    using that by (auto simp: queue_ok_def leased_keys_def message_at_def find_None_iff)
  ultimately have "queue_step s (s\<lparr>queue_seq := queue_seq s + 1, queue := queue s @ [r]\<rparr>)"
    if "message_at (qu_message_id r) s = None" "qu_status r = ''ready''" "qu_id r = queue_seq s + 1" "row_wf r" for r
    using that by (simp add: queue_step_def)
  then show ?thesis
    by (cases "message_at m s") (simp_all add: insert_message_def Let_def queue_row_of_def row_wf_def queue_step_frame)
qed

lemma keeps_enqueue: "keeps queue_step (enqueue m p h d av pr)" "keeps queue_step (enqueue_checked E m p h d av pr)"
proof -
  have ins: "keeps queue_step (insert_message m p h d hash av pr)" for hash
    by (rule keepsI) (rule queue_step_insert)
  show "keeps queue_step (enqueue m p h d av pr)" "keeps queue_step (enqueue_checked E m p h d av pr)"
    unfolding enqueue_def enqueue_checked_def Let_def by (intro queues.keeps_rules ins)+
qed


subsection \<open>Runs of the queue\<close>

text \<open>
  One call of one worker, or anything that leaves the table alone: other code, the clock, a
  savepoint that took a serial number.  A raced claim is one whose row was picked before the other
  claim of the same partition was committed, so only the index keeps it from a second lease.
\<close>

inductive queue_op :: "env \<Rightarrow> db \<Rightarrow> db \<Rightarrow> bool" for E where
  put: "queue_op E s (snd (enqueue m p h d av pr s))"
| put_checked: "queue_op E s (snd (enqueue_checked E m p h d av pr s))"
| claim: "queue_op E s (snd (claim_one owner lease s))"
| claim_for_lane: "queue_op E s (snd (claim_lane hs owner lease s))"
| raced: "c \<in> set (queue s) \<Longrightarrow> qu_status c = ''ready'' \<Longrightarrow> bump \<ge> 0 \<Longrightarrow> queue_op E s (snd (try_lease owner lease bump (Some c) s))"
| renewed: "queue_op E s (snd (renew_lane c lease s))"
| lane_done: "queue_op E s (snd (complete_lane c s))"
| lane_failed: "queue_op E s (snd (fail_lane E c error permanent s))"
| finished: "queue_op E s (snd (complete i s))"
| failed_for_good: "queue_op E s (snd (fail_permanent i error s))"
| failed_for_now: "queue_op E s (snd (fail_retryable E i error s))"
| reclaimed: "queue_op E s (snd (reclaim_stuck_queue s))"
| elsewhere: "queue s' = queue s \<Longrightarrow> queue_seq s \<le> queue_seq s' \<Longrightarrow> queue_op E s s'"

lemma queue_op_step: "queue_op E s s' \<Longrightarrow> queue_step s s'"
proof (induction rule: queue_op.induct)
  case (raced c s bump owner lease)
  then show ?case
    by (intro keeps_try_lease) auto
qed (use keeps_enqueue queue_keeps_claims keeps_lane_writes keeps_consumer_writes keeps_reclaim queue_step_frame
       in \<open>auto simp: keeps_def\<close>)

abbreviation queue_runs :: "env \<Rightarrow> db \<Rightarrow> db \<Rightarrow> bool" where
  "queue_runs E \<equiv> (queue_op E)\<^sup>*\<^sup>*"

lemma queue_runs_step: "queue_runs E s s' \<Longrightarrow> queue_step s s'"
  by (induction rule: rtranclp_induct) (auto intro: queues.rel_refl queues.rel_trans queue_op_step)

lemma queue_runs_ok: "queue_runs E s s' \<Longrightarrow> queue s = [] \<Longrightarrow> queue_ok s'"
  using queue_runs_step [of E s s'] by (simp add: queue_step_def queue_ok_def leased_keys_def)

lemma queue_runs_app:
  "queue_runs E s t \<Longrightarrow> queue_runs E s (snd (enqueue m p h d av pr t))"
  "queue_runs E s t \<Longrightarrow> queue_runs E s (snd (claim_one owner lease t))"
  "queue_runs E s t \<Longrightarrow> queue_runs E s (snd (reclaim_stuck_queue t))"
  "queue_runs E s t \<Longrightarrow> queue_runs E s (t\<lparr>clock := now\<rparr>)"
  by (auto elim!: rtranclp.rtrancl_into_rtrancl intro: queue_op.intros(1,3,12)) (simp add: queue_op.elsewhere)

text \<open>C24: In every run of the queue from an empty table - enqueues, claims of every lane and of the
  general consumer, raced claims, renewals, completions, failures, reclaims in any order - two leased
  messages never share a partition: work on one aggregate is serialised.\<close>

theorem partition_has_one_lease:
  assumes "queue_runs E s0 s" "queue s0 = []"
    and "r \<in> set (queue s)" "r' \<in> set (queue s)" "qu_status r = ''leased''" "qu_status r' = ''leased''"
    and "qu_partition_key r = qu_partition_key r'"
  shows "r = r'"
proof -
  have "distinct (leased_keys (queue s))"
    using queue_runs_ok [OF assms(1,2)] by (simp add: queue_ok_def)
  then show ?thesis
    using assms(3-) by (auto simp: leased_keys_def distinct_map dest: inj_onD)
qed


text \<open>C27: \<open>compute_backoff\<close> returns a delay for every attempt up to the 1024th, within half of the capped
  exponential above and below it (one second doubled per attempt, at most an hour), whatever the random
  draw within its documented range; from the 1025th attempt on it raises \<open>OverflowError\<close>, since
  \<open>2 ** (n - 1)\<close> is converted to a float before the cap is applied.\<close>

theorem backoff_bounds:
  assumes "\<And>n a b. a \<le> b \<Longrightarrow> a \<le> uniform E n a b \<and> uniform E n a b \<le> b"
  shows "if attempts \<le> 1024
    then \<exists>d. fst (compute_backoff E attempts s) = Inr d
           \<and> min (MICROS * 2 ^ nat (max attempts 1 - 1)) (3600 * MICROS) \<le> 2 * d
           \<and> 2 * d \<le> 3 * min (MICROS * 2 ^ nat (max attempts 1 - 1)) (3600 * MICROS)
    else fst (compute_backoff E attempts s) = Inl OverflowError"
proof (cases "attempts \<le> 1024")
  case True
  define raw where "raw = min (MICROS * 2 ^ nat (max attempts 1 - 1)) (3600 * MICROS)"
  have raw: "backoff_raw attempts MICROS (3600 * MICROS) = Inr raw" "0 \<le> raw"
    using True by (auto simp: backoff_raw_def raw_def Let_def max_def MICROS_def)
  then have "- (raw * 50 div 100) \<le> raw * 50 div 100"
    by simp
  from assms [OF this, of "draws s"] show ?thesis
    using True raw unfolding raw_def [symmetric]
    by (auto simp: compute_backoff_def compute_backoff_with_def Let_def)
next
  case False
  then show ?thesis
    by (simp add: compute_backoff_def compute_backoff_with_def backoff_raw_def)
qed

definition middling :: "nat \<Rightarrow> int \<Rightarrow> int \<Rightarrow> int" where
  "middling n a b = (a + b) div 2"

lemma backoff_bounds_witness:
  "\<exists>d. fst (compute_backoff (plain_env\<lparr>uniform := middling\<rparr>) 3 empty_db) = Inr d \<and> 4000000 \<le> 2 * d \<and> 2 * d \<le> 12000000"
proof -
  have "a \<le> middling n a b \<and> middling n a b \<le> b" if "a \<le> b" for n :: nat and a b :: int
    using that by (simp add: middling_def) linarith
  then show ?thesis
    using backoff_bounds [of "plain_env\<lparr>uniform := middling\<rparr>" 3 empty_db] by (auto simp: MICROS_def)
qed

subsection \<open>The order of claims\<close>

definition claim_order :: "queue_row \<Rightarrow> queue_row \<Rightarrow> bool" where
  "claim_order c r \<longleftrightarrow> qu_priority c < qu_priority r \<or> qu_priority c = qu_priority r
     \<and> (qu_available_at c < qu_available_at r \<or> qu_available_at c = qu_available_at r \<and> qu_id c \<le> qu_id r)"

lemma sorted_sort_key_stable:
  "sorted_wrt (\<lambda>x y. f x < f y \<or> f x = f y \<and> P x y) (sort_key f xs)" if "sorted_wrt P xs"
  using that
proof (induction xs)
  case (Cons x xs)
  have "sorted_wrt (\<lambda>x y. f x < f y \<or> f x = f y \<and> P x y) (insort_key f x ys)"
    if "sorted_wrt (\<lambda>x y. f x < f y \<or> f x = f y \<and> P x y) ys" "\<forall>y \<in> set ys. P x y" for ys
    using that by (induction ys) (auto simp: set_insort_key)
  then show ?case
    using Cons by simp
qed simp

lemma claim_pick_first:
  assumes "claim_pick lane s = Some c" "r \<in> set (queue s)" "claimable lane s r"
  shows "claim_order c r"
proof -
  let ?rows = "filter (claimable lane s) (queue s)"
  let ?sorted = "sort_key qu_priority (sort_key qu_available_at (sort_key qu_id ?rows))"
  obtain rest where l: "?sorted = c # rest"
    using assms(1) by (auto simp: claim_pick_def split: list.splits)
  have "sorted_wrt (\<lambda>x y. qu_id x \<le> qu_id y) (sort_key qu_id ?rows)"
    using sorted_sort_key [of qu_id ?rows] by (simp add: sorted_map)
  then have "sorted_wrt claim_order ?sorted"
    unfolding claim_order_def by (intro sorted_sort_key_stable)
  moreover have "r \<in> set ?sorted"
    using assms(2,3) by simp
  ultimately show ?thesis
    unfolding l by (auto simp: claim_order_def)
qed

lemma claim_pick_None: "claim_pick lane s = None \<longleftrightarrow> (\<forall>r \<in> set (queue s). \<not> claimable lane s r)"
proof -
  let ?sorted = "sort_key qu_priority (sort_key qu_available_at (sort_key qu_id (filter (claimable lane s) (queue s))))"
  have "claim_pick lane s = None \<longleftrightarrow> set ?sorted = {}"
    by (simp only: set_empty) (simp add: claim_pick_def split: list.split)
  then show ?thesis
    by (auto simp: filter_empty_conv)
qed

lemma claim_lane_eq:
  "claim_lane hs owner lease s = (case claim_pick (\<lambda>h. h \<in> set hs) s of None \<Rightarrow> (Inr None, s)
     | Some c \<Rightarrow> (Inr (Some (fenced_claim_of (leased_row owner (clock s + lease) 1 c))),
         s\<lparr>queue := map (\<lambda>r. if qu_id r = qu_id c then leased_row owner (clock s + lease) 1 r else r) (queue s)\<rparr>))"
  by (auto simp: claim_lane_def try_lease_cases andthen_def claimable_def dest: claim_pick_mem(2) split: option.split)

lemma claim_one_eq:
  "claim_one owner lease s = (case claim_pick (\<lambda>h. h \<notin> set DEDICATED_HANDLERS) s of None \<Rightarrow> (Inr None, s)
     | Some c \<Rightarrow> (Inr (Some (claim_of (leased_row owner (clock s + lease) 0 c))),
         s\<lparr>queue := map (\<lambda>r. if qu_id r = qu_id c then leased_row owner (clock s + lease) 0 r else r) (queue s)\<rparr>))"
  by (auto simp: claim_one_def try_lease_cases andthen_def claimable_def dest: claim_pick_mem(2) split: option.split)

text \<open>The general consumer never comes back empty-handed while a message is claimable - ready, due,
  of no dedicated lane, its partition idle - and what it leases is the first of them by priority, due time
  and serial number.\<close>

theorem claim_takes_first:
  assumes "r \<in> set (queue s)" "claimable (\<lambda>h. h \<notin> set DEDICATED_HANDLERS) s r"
  shows "\<exists>c \<in> set (queue s). claimable (\<lambda>h. h \<notin> set DEDICATED_HANDLERS) s c
    \<and> fst (claim_one owner lease s) = Inr (Some (claim_of (leased_row owner (clock s + lease) 0 c)))
    \<and> leased_row owner (clock s + lease) 0 c \<in> set (queue (snd (claim_one owner lease s)))
    \<and> (\<forall>r' \<in> set (queue s). claimable (\<lambda>h. h \<notin> set DEDICATED_HANDLERS) s r' \<longrightarrow> claim_order c r')"
proof -
  obtain c where c: "claim_pick (\<lambda>h. h \<notin> set DEDICATED_HANDLERS) s = Some c"
    using assms claim_pick_None [of _ s] by fastforce
  show ?thesis
    using claim_pick_mem [OF c] claim_pick_first [OF c]
    by (intro bexI [of _ c]) (auto simp: claim_one_eq c)
qed


text \<open>Two messages of one partition, the second with the higher priority.\<close>

definition queue_example :: db where
  "queue_example = snd (enqueue ''m2'' ''run-1'' ''draft'' [] None 10 (snd (enqueue ''m1'' ''run-1'' ''draft'' [] None 100 empty_db)))"

lemmas queue_example_eval = queue_example_def enqueue_def insert_message_def message_at_def queue_row_of_def empty_db_def
  andthen_def claimable_def partition_leased_def DEDICATED_HANDLERS_def CONTROL_SIGNAL_HANDLERS_def
  FORMULA_SHADOW_QUEUE_HANDLERS_def MATERIALIZATION_QUEUE_HANDLERS_def FORMULA_DRAFT_QUEUE_HANDLERS_def
  GENERATION_QUEUE_HANDLERS_def VERIFICATION_QUEUE_HANDLERS_def

lemma claim_takes_first_witness:
  "\<exists>c \<in> set (queue queue_example). qu_message_id c = ''m2''
    \<and> fst (claim_one ''w'' 30 queue_example) = Inr (Some (claim_of (leased_row ''w'' 30 0 c)))"
proof -
  have r: "queue_row_of 2 ''m2'' ''run-1'' ''draft'' [] None 0 10 \<in> set (queue queue_example)"
    "claimable (\<lambda>h. h \<notin> set DEDICATED_HANDLERS) queue_example (queue_row_of 2 ''m2'' ''run-1'' ''draft'' [] None 0 10)"
    "clock queue_example = 0"
    by (simp_all add: queue_example_eval)
  show ?thesis
    using claim_takes_first [OF r(1,2), of "''w''" 30] r
    by (auto simp: claim_order_def) (auto simp: queue_example_eval)
qed

lemma partition_has_one_lease_witness:
  "{r \<in> set (queue (snd (claim_one ''w'' 30 queue_example))). qu_status r = ''leased''}
    = {leased_row ''w'' 30 0 (queue_row_of 2 ''m2'' ''run-1'' ''draft'' [] None 0 10)}"
proof -
  let ?s = "snd (claim_one ''w'' 30 queue_example)"
  let ?r = "leased_row ''w'' 30 0 (queue_row_of 2 ''m2'' ''run-1'' ''draft'' [] None 0 10)"
  have run: "queue_runs plain_env empty_db ?s" "queue empty_db = []"
    unfolding queue_example_def by (intro queue_runs_app rtranclp.rtrancl_refl) (simp add: empty_db_def)
  have r: "?r \<in> set (queue ?s)" "qu_status ?r = ''leased''" "\<And>r. r \<in> set (queue ?s) \<Longrightarrow> qu_partition_key r = qu_partition_key ?r"
    by (auto simp: claim_one_eq claim_pick_def queue_example_eval leased_row_def)
  show ?thesis
    using r partition_has_one_lease [OF run _ r(1) _ r(2) r(3)] by blast
qed

subsection \<open>A claim that was overtaken\<close>

lemma claim_lane_row:
  assumes "claim_lane hs owner lease s = (Inr (Some c), s')"
  obtains r r' where "r \<in> set (queue s)" "qu_id r = qc_id c" "qu_lease_fence r + 1 = qc_lease_fence c"
    "r' \<in> set (queue s')" "qu_id r' = qc_id c" "qu_lease_fence r' = qc_lease_fence c"
proof -
  obtain r where r: "claim_pick (\<lambda>h. h \<in> set hs) s = Some r" "c = fenced_claim_of (leased_row owner (clock s + lease) 1 r)"
    "queue s' = map (\<lambda>x. if qu_id x = qu_id r then leased_row owner (clock s + lease) 1 x else x) (queue s)"
    using assms by (auto simp: claim_lane_eq split: option.splits)
  show thesis
    by (rule that [of r "leased_row owner (clock s + lease) 1 r"])
       (use r claim_pick_mem(1) [OF r(1)] in \<open>auto simp: fenced_claim_of_def leased_row_def\<close>)
qed

lemma fence_monotone:
  assumes "queue_step s s'" "queue_ok s'" "r \<in> set (queue s)" "r' \<in> set (queue s')" "qu_id r = qu_id r'"
  shows "qu_lease_fence r \<le> qu_lease_fence r'"
proof -
  have "history row_step (queue s) (queue s')"
    using assms(1) by (simp add: queue_step_def)
  from queue_rows.history_mem [OF this assms(3)] obtain t where t: "t \<in> set (queue s')" "row_step r t" .
  then have "qu_id t = qu_id r'"
    using row_core_fields(1) [of t r] assms(5) by (simp add: row_step_def)
  then have "t = r'"
    using assms(2,4) t(1) by (auto simp: queue_ok_def distinct_map dest: inj_onD)
  then show ?thesis
    using t(2) by (simp add: row_step_def)
qed

lemma fenced_update_stale:
  "(\<And>r. r \<in> set (queue s) \<Longrightarrow> qu_id r = qc_id c \<Longrightarrow> qu_lease_fence r \<noteq> qc_lease_fence c) \<Longrightarrow> fenced_update c f s = (Inr False, s)"
proof -
  assume "\<And>r. r \<in> set (queue s) \<Longrightarrow> qu_id r = qc_id c \<Longrightarrow> qu_lease_fence r \<noteq> qc_lease_fence c"
  then have "\<not> holds_fence c s r" if "r \<in> set (queue s)" for r
    using that by (auto simp: holds_fence_def)
  then have "\<not> list_ex (holds_fence c s) (queue s)" "map (\<lambda>r. if holds_fence c s r then f r else r) (queue s) = queue s"
    by (auto simp: list_ex_iff intro: map_idI)
  then show ?thesis
    by (simp add: fenced_update_def)
qed

lemma lane_writes_stale:
  assumes "\<And>r. r \<in> set (queue s) \<Longrightarrow> qu_id r = qc_id c \<Longrightarrow> qu_lease_fence r \<noteq> qc_lease_fence c"
  shows "renew_lane c lease s = (Inr False, s)" "complete_lane c s = (Inr False, s)"
    "fst (fail_lane E c error permanent s) \<noteq> Inr True" "queue (snd (fail_lane E c error permanent s)) = queue s"
  using fenced_update_stale [of s c] fenced_update_stale [of "s\<lparr>draws := Suc (draws s)\<rparr>" c] assms
  by (auto simp: renew_lane_def complete_lane_def fail_lane_def Let_def compute_backoff_def compute_backoff_with_def
      andthen_def lift_def split: sum.splits)

text \<open>A worker whose lease ran out and whose message another worker claimed since can no longer touch
  it: whatever happened in between and afterwards, the later claim carries a strictly larger fence, and
  renewing, completing or failing under the earlier claim reports failure and changes no row.\<close>

theorem stale_claim_is_fenced:
  assumes "queue_runs E s0 s" "queue s0 = []"
    and "claim_lane hs owner lease s = (Inr (Some c), s1)" "queue_runs E s1 s2"
    and "claim_lane hs' owner' lease' s2 = (Inr (Some c'), s3)" "queue_runs E s3 s4" "qc_id c' = qc_id c"
  shows "qc_lease_fence c < qc_lease_fence c' \<and> renew_lane c l s4 = (Inr False, s4) \<and> complete_lane c s4 = (Inr False, s4)
    \<and> fst (fail_lane E c error permanent s4) \<noteq> Inr True \<and> queue (snd (fail_lane E c error permanent s4)) = queue s4"
proof -
  have steps: "queue_step s s1" "queue_step s1 s2" "queue_step s2 s3" "queue_step s3 s4"
    using keepsD [OF queue_keeps_claims(2) assms(3)] keepsD [OF queue_keeps_claims(2) assms(5)] queue_runs_step [OF assms(4)] queue_runs_step [OF assms(6)] by simp_all
  have ok: "queue_ok s" "queue_ok s1" "queue_ok s2" "queue_ok s3" "queue_ok s4"
    using queue_runs_ok [OF assms(1,2)] steps by (auto simp: queue_step_def)
  obtain r1 where r1: "r1 \<in> set (queue s1)" "qu_id r1 = qc_id c" "qu_lease_fence r1 = qc_lease_fence c"
    using claim_lane_row [OF assms(3)] by metis
  obtain r2 r3 where r2: "r2 \<in> set (queue s2)" "qu_id r2 = qc_id c" "qu_lease_fence r2 + 1 = qc_lease_fence c'"
    and r3: "r3 \<in> set (queue s3)" "qu_id r3 = qc_id c" "qu_lease_fence r3 = qc_lease_fence c'"
    using claim_lane_row [OF assms(5)] assms(7) by metis
  have less: "qc_lease_fence c < qc_lease_fence c'"
    using fence_monotone [OF steps(2) ok(3) r1(1) r2(1)] r1 r2 by simp
  have "qu_lease_fence r \<noteq> qc_lease_fence c" if "r \<in> set (queue s4)" "qu_id r = qc_id c" for r
    using fence_monotone [OF steps(4) ok(5) r3(1) that(1)] r3 that(2) less by simp
  from lane_writes_stale [OF this] less show ?thesis
    by blast
qed


text \<open>A message whose lease expires is reclaimed and claimed again, in one partition by two workers.\<close>

definition lane_example :: db where
  "lane_example = snd (enqueue ''g1'' ''run-1'' ''generation.run'' [] None 100 empty_db)"

lemma stale_claim_is_fenced_witness:
  "\<exists>c c' s1 s3. claim_lane [''generation.run''] ''w1'' 30 lane_example = (Inr (Some c), s1)
    \<and> claim_lane [''generation.run''] ''w2'' 30 (snd (reclaim_stuck_queue (s1\<lparr>clock := 31\<rparr>))) = (Inr (Some c'), s3)
    \<and> complete_lane c s3 = (Inr False, s3) \<and> fst (complete_lane c' s3) = Inr True"
proof -
  let ?c1 = "claim_lane [''generation.run''] ''w1'' 30 lane_example"
  let ?s1 = "snd ?c1"
  let ?s2 = "snd (reclaim_stuck_queue (?s1\<lparr>clock := 31\<rparr>))"
  let ?c2 = "claim_lane [''generation.run''] ''w2'' 30 ?s2"
  note ev = lane_example_def reclaim_stuck_queue_def Let_def claim_lane_eq claim_pick_def fenced_claim_of_def
    leased_row_def unleased_def queue_example_eval
  let ?c = "\<lparr>qc_id = 1, qc_message_id = ''g1'', qc_partition_key = ''run-1'', qc_handler = ''generation.run'', qc_payload = [],
    qc_attempts = 1, qc_max_attempts = 12, qc_lease_owner = ''w1'', qc_lease_fence = 1\<rparr>"
  let ?c' = "?c\<lparr>qc_attempts := 2, qc_lease_owner := ''w2'', qc_lease_fence := 2\<rparr>"
  have c: "?c1 = (Inr (Some ?c), ?s1)" "?c2 = (Inr (Some ?c'), snd ?c2)" "fst (complete_lane ?c' (snd ?c2)) = Inr True"
    by (simp_all add: ev prod_eq_iff str_or_def complete_lane_def fenced_update_def holds_fence_def)
  have "queue_runs plain_env empty_db lane_example"
    unfolding lane_example_def by (intro queue_runs_app rtranclp.rtrancl_refl)
  moreover have "queue_runs plain_env ?s1 ?s2"
    by (intro queue_runs_app rtranclp.rtrancl_refl)
  ultimately have "complete_lane ?c (snd ?c2) = (Inr False, snd ?c2)"
    using stale_claim_is_fenced [of plain_env empty_db lane_example, OF _ _ c(1) _ c(2) rtranclp.rtrancl_refl]
    by (simp add: empty_db_def)
  then show ?thesis
    using c by blast
qed


subsection \<open>A message whose worker always dies\<close>

text \<open>
  The attempt budget is read by \<open>fail_retryable\<close> and the lanes' \<open>fail\<close> only.  A worker that dies
  after its claim runs neither: \<open>reclaim_stuck_queue\<close> returns the message to \<open>ready\<close> and the next
  claim takes it, whatever \<open>attempts\<close> says.
\<close>

definition crash_round :: "string \<Rightarrow> int \<Rightarrow> db \<Rightarrow> db" where
  "crash_round owner lease s =
     (let claimed = snd (claim_one owner lease s) in snd (reclaim_stuck_queue (claimed\<lparr>clock := clock s + lease + 1\<rparr>)))"

lemma crash_round_single:
  assumes "queue s = [r]" "qu_status r = ''ready''" "qu_available_at r \<le> clock s" "qu_handler r \<notin> set DEDICATED_HANDLERS" "lease \<ge> 0"
  shows "\<exists>r'. queue (crash_round owner lease s) = [r'] \<and> qu_status r' = ''ready'' \<and> qu_available_at r' \<le> clock (crash_round owner lease s)
    \<and> qu_handler r' = qu_handler r \<and> qu_attempts r' = qu_attempts r + 1 \<and> qu_max_attempts r' = qu_max_attempts r"
  using assms by (simp add: crash_round_def Let_def claim_one_eq claim_pick_def claimable_def partition_leased_def
      reclaim_stuck_queue_def leased_row_def unleased_def)

theorem crashed_claims_never_die:
  assumes "queue s = [r]" "qu_status r = ''ready''" "qu_available_at r \<le> clock s" "qu_handler r \<notin> set DEDICATED_HANDLERS" "lease \<ge> 0"
  shows "\<exists>r'. queue ((crash_round owner lease ^^ n) s) = [r'] \<and> qu_status r' = ''ready''
    \<and> qu_attempts r' = qu_attempts r + int n \<and> qu_max_attempts r' = qu_max_attempts r"
proof -
  have "\<exists>r'. queue ((crash_round owner lease ^^ n) s) = [r'] \<and> qu_status r' = ''ready'' \<and> qu_available_at r' \<le> clock ((crash_round owner lease ^^ n) s)
    \<and> qu_handler r' = qu_handler r \<and> qu_attempts r' = qu_attempts r + int n \<and> qu_max_attempts r' = qu_max_attempts r"
  proof (induction n)
    case (Suc n)
    then obtain r' where "queue ((crash_round owner lease ^^ n) s) = [r']" "qu_status r' = ''ready''"
      "qu_available_at r' \<le> clock ((crash_round owner lease ^^ n) s)" "qu_handler r' = qu_handler r"
      "qu_attempts r' = qu_attempts r + int n" "qu_max_attempts r' = qu_max_attempts r"
      by blast
    then show ?case
      using crash_round_single [of "(crash_round owner lease ^^ n) s" r' lease owner] assms(4,5) by auto
  qed (use assms in simp)
  then show ?thesis
    by blast
qed

end
