(* ===== verification/Authz.thy ===== *)
theory Authz
  imports Security_Audit
begin

text \<open>
  Command authorization: segregation of duties (\<open>authz/sod.py\<close>), the policy table and its seed
  (\<open>authz/policy.py\<close>), the production authorizer that puts every denial on the security stream
  (\<open>authz/authorizer.py\<close>) and the fail-safe default (\<open>commands/authz_seam.py\<close>).
\<close>

record AuthzDecision =
  az_allowed :: bool
  az_reason :: "string option"

abbreviation permit :: AuthzDecision where "permit \<equiv> \<lparr>az_allowed = True, az_reason = None\<rparr>"
abbreviation deny :: "string \<Rightarrow> AuthzDecision" where "deny why \<equiv> \<lparr>az_allowed = False, az_reason = Some why\<rparr>"

subsection \<open>Segregation of duties\<close>

definition two_party_ok :: "string \<Rightarrow> string \<Rightarrow> bool" where
  "two_party_ok requester approver \<longleftrightarrow> requester \<noteq> approver"

definition three_party_disjoint :: "string \<Rightarrow> string set \<Rightarrow> string \<Rightarrow> bool" where
  "three_party_disjoint author validators approver \<longleftrightarrow>
     author \<notin> validators \<and> approver \<notin> validators \<and> author \<noteq> approver"

text \<open>\<open>SELECT actor->>'subject' ... ORDER BY stream_version LIMIT 1\<close>.\<close>

definition resolve_run_author :: "string \<Rightarrow> db \<Rightarrow> string option" where
  "resolve_run_author run_id s =
     (case sort_key er_stream_version (filter (\<lambda>r. er_aggregate r = ''run'' \<and> er_aggregate_id r = run_id) (events s)) of
        [] \<Rightarrow> None | r # _ \<Rightarrow> as_ostr (dget (er_actor r) ''subject''))"

definition response_authority :: "response_row \<Rightarrow> string" where
  "response_authority r = (case re_on_behalf_of r of None \<Rightarrow> re_subject r | Some p \<Rightarrow> p)"

definition gather_gate_responders :: "string \<Rightarrow> string option \<Rightarrow> string option \<Rightarrow> db \<Rightarrow> string set" where
  "gather_gate_responders gate run_id feature_id s =
     set (map response_authority (filter (\<lambda>r. list_ex (\<lambda>t. tk_task_id t = re_task_id r \<and> tk_gate t = gate
       \<and> (run_id \<noteq> None \<and> tk_run_id t = run_id \<or> feature_id \<noteq> None \<and> tk_feature_id t = feature_id)) (human_tasks s))
       (human_task_responses s)))"

definition gate_sod_reason :: "json \<Rightarrow> string \<Rightarrow> string option \<Rightarrow> db \<Rightarrow> string option" where
  "gate_sod_reason gate subj run_id s =
     (let author = (if run_id = None \<or> run_id = Some [] then None else resolve_run_author (the run_id) s)
      in if gate = JStr ''INDEPENDENT_VALIDATION'' then
           (if author = Some subj then Some ''independent validation requires validator != author'' else None)
         else if gate = JStr ''FINAL_APPROVAL'' then
           (if (case author of None \<Rightarrow> False | Some a \<Rightarrow> \<not> two_party_ok a subj) then Some ''four-eyes: approver != requester''
            else if run_id \<noteq> None \<and> run_id \<noteq> Some [] \<and> subj \<in> gather_gate_responders ''INDEPENDENT_VALIDATION'' run_id None s
            then Some ''three-party: approver != validator'' else None)
         else None)"

definition enforce_sod :: "Command \<Rightarrow> AuthzDecision dbprog" where
  "enforce_sod cmd =
     (if cm_action cmd = ''submit_human_signal'' then
        andthen (if cm_aggregate cmd = ''run'' then ret (cm_aggregate_id cmd)
                 else lift (opt_str (dget (cm_args cmd) ''run_id''))) (\<lambda>run_id.
        andthen (query (gate_sod_reason (dget (cm_args cmd) ''gate'') (subject (cm_actor cmd)) run_id)) (\<lambda>reason.
        ret \<lparr>az_allowed = (reason = None), az_reason = reason\<rparr>))
      else if cm_action cmd = ''retier'' then
        ret (let requested_by = dget (cm_args cmd) ''requested_by''
             in if requested_by = JNull then deny ''retier is dual-controlled: requested_by required''
                else if requested_by = JStr (subject (cm_actor cmd)) then deny ''four-eyes: actor != requester for retier''
                else permit)
      else if cm_action cmd \<in> {''activate'', ''supersede'', ''deprecate''} \<and> truthy (dget (cm_args cmd) ''compliance_sensitive'') then
        ret (if dget (cm_args cmd) ''requested_by'' = JStr (subject (cm_actor cmd))
             then deny ''four-eyes: actor != requester for compliance-sensitive change'' else permit)
      else ret permit)"

subsection \<open>The policy table\<close>

definition POLICY_ROWS :: "(string \<times> string \<times> string \<times> string) list" where
  "POLICY_ROWS =
    [(''create_request'', '''', ''data_scientist'', ''human''), (''create_request'', '''', ''intake-agent'', ''service''),
     (''create_run'', '''', ''data_scientist'', ''human''), (''create_run'', '''', ''intake-agent'', ''service''),
     (''select_candidate'', '''', ''data_scientist'', ''human''),
     (''submit_human_signal'', ''CLARIFICATION'', ''data_scientist'', ''human''),
     (''submit_human_signal'', ''CLARIFICATION'', ''intake-agent'', ''service''),
     (''submit_human_signal'', ''DATA_STEWARD'', ''data_owner'', ''human''),
     (''submit_human_signal'', ''COMPLIANCE'', ''compliance'', ''human''),
     (''submit_human_signal'', ''INDEPENDENT_VALIDATION'', ''validator'', ''human''),
     (''submit_human_signal'', ''FINAL_APPROVAL'', ''approver'', ''human''),
     (''open_task'', '''', ''workflow'', ''service''),
     (''activate'', '''', ''release'', ''human''), (''supersede'', '''', ''release'', ''human''),
     (''deprecate'', '''', ''release'', ''human''), (''retier'', '''', ''release'', ''human''),
     (''register_consumer'', '''', ''owner'', ''human''), (''deregister_consumer'', '''', ''owner'', ''human''),
     (''raise_monitoring_alert'', '''', ''monitoring'', ''service''),
     (''require_revalidation'', '''', ''overlay'', ''service''),
     (''record_revalidation_outcome'', '''', ''overlay'', ''service''),
     (''fact_confirmed_resume'', '''', ''overlay'', ''service''),
     (''cancel'', '''', ''data_scientist'', ''human''), (''withdraw'', '''', ''data_scientist'', ''human''),
     (''reject'', '''', ''validator'', ''human''),
     (''park'', '''', ''data_scientist'', ''human''), (''unpark'', '''', ''data_scientist'', ''human''),
     (''reopen_as_new_run'', '''', ''data_scientist'', ''human''), (''duplicate_of'', '''', ''data_scientist'', ''human''),
     (''manual_retry'', '''', ''data_scientist'', ''human''), (''resolve_degraded'', '''', ''platform-admin'', ''human''),
     (''migrate_workflow_version'', '''', ''platform-admin'', ''human''),
     (''migrate_feature_lifecycle_version'', '''', ''platform-admin'', ''human''),
     (''admin_correct'', '''', ''platform-admin'', ''human''), (''break_glass'', '''', ''platform-admin'', ''human''),
     (''read_audit'', '''', ''auditor'', ''human''), (''read_audit'', '''', ''compliance'', ''human''),
     (''read_audit'', '''', ''owner'', ''human'')]"

definition insert_policy :: "policy_row \<Rightarrow> unit dbprog" where
  "insert_policy row = update (\<lambda>s.
     if list_ex (\<lambda>r. po_action r = po_action row \<and> po_gate r = po_gate row \<and> po_permitted_role r = po_permitted_role row
                  \<and> po_actor_kind r = po_actor_kind row) (authz_policy s)
     then s else s\<lparr>authz_policy := authz_policy s @ [row]\<rparr>)"

definition policy_row_of :: "string \<times> string \<times> string \<times> string \<Rightarrow> policy_row" where
  "policy_row_of t = (case t of (action, gate, role, kind) \<Rightarrow>
     \<lparr>po_action = action, po_gate = gate, po_permitted_role = role, po_actor_kind = kind, po_scope = None\<rparr>)"

definition seed_authz_policy :: "unit dbprog" where
  "seed_authz_policy = andthen (for_each POLICY_ROWS (\<lambda>t. insert_policy (policy_row_of t))) (\<lambda>_. ret ())"

text \<open>One row permits one actor.\<close>

definition row_permits :: "IdentityEnvelope \<Rightarrow> policy_row \<Rightarrow> bool" where
  "row_permits actor r \<longleftrightarrow> po_actor_kind r \<in> {''any'', actor_kind actor}
     \<and> po_permitted_role r \<in> set (role_claims actor)
     \<and> (case po_scope r of None \<Rightarrow> True | Some sc \<Rightarrow> sc \<in> set (groups actor))
     \<and> \<not> (actor_kind actor = ''service'' \<and> str_or (attestation actor) [] = [])"

definition policy_gate :: "Command \<Rightarrow> exn + string" where
  "policy_gate cmd =
     (if cm_action cmd = ''submit_human_signal'' then
        (case dget_or (cm_args cmd) ''gate'' (JStr []) of
           JStr g \<Rightarrow> Inr g | j \<Rightarrow> if truthy j then Inl TypeError else Inr [])
      else Inr [])"

definition base_authorized :: "Command \<Rightarrow> AuthzDecision dbprog" where
  "base_authorized cmd =
     (case validate_identity (cm_actor cmd) of
        Inl (IdentityError why) \<Rightarrow> ret (deny why)
      | Inl e \<Rightarrow> throw e
      | Inr _ \<Rightarrow>
          andthen (lift (policy_gate cmd)) (\<lambda>gate.
          andthen (query (\<lambda>s. filter (\<lambda>r. po_action r = cm_action cmd \<and> po_gate r = gate) (authz_policy s))) (\<lambda>rows.
          ret (if list_ex (row_permits (cm_actor cmd)) rows then permit else deny ''no matching authz policy''))))"

definition authorize_command :: "Command \<Rightarrow> AuthzDecision dbprog" where
  "authorize_command cmd =
     andthen (base_authorized cmd) (\<lambda>base. if \<not> az_allowed base then ret base else enforce_sod cmd)"

type_synonym authorizer = "env \<Rightarrow> Command \<Rightarrow> AuthzDecision dbprog"

definition policy_authorizer :: authorizer where
  "policy_authorizer E cmd =
     andthen (authorize_command cmd) (\<lambda>decision.
     if \<not> az_allowed decision then
       (let reason = str_or (az_reason decision) ''command denied''
        in andthen (record_denial E cmd reason) (\<lambda>_. ret (deny reason)))
     else ret permit)"

definition deny_all_authorizer :: authorizer where
  "deny_all_authorizer E cmd =
     ret (deny ''no command authorizer configured (bootstrap_phase07 not run); denied fail-safe'')"

subsection \<open>Lemmas\<close>

lemma enforce_sod_state: "snd (enforce_sod cmd s) = s"
  by (cases "opt_str (dget (cm_args cmd) ''run_id'')") (auto simp: enforce_sod_def andthen_def)

lemma base_authorized_state: "snd (base_authorized cmd s) = s"
  by (cases "policy_gate cmd") (auto simp: base_authorized_def andthen_def split: sum.split exn.split)

lemma authorize_command_state: "snd (authorize_command cmd s) = s"
  using base_authorized_state [of cmd s] enforce_sod_state [of cmd s]
  by (cases "base_authorized cmd s") (auto simp: authorize_command_def andthen_def split: sum.splits)

text \<open>Who may: the identity, the policy row and the duties, in one predicate.\<close>

definition entitled :: "Command \<Rightarrow> db \<Rightarrow> bool" where
  "entitled cmd s \<longleftrightarrow> validate_identity (cm_actor cmd) = Inr ()
     \<and> (\<exists>gate r. policy_gate cmd = Inr gate \<and> r \<in> set (authz_policy s) \<and> po_action r = cm_action cmd \<and> po_gate r = gate
          \<and> row_permits (cm_actor cmd) r)
     \<and> (\<exists>d. enforce_sod cmd s = (Inr d, s) \<and> az_allowed d)"

lemma authorize_command_Inr:
  assumes "authorize_command cmd s = (Inr d, s')"
  shows "s' = s \<and> (az_allowed d \<longleftrightarrow> entitled cmd s)"
proof -
  have s': "s' = s"
    using authorize_command_state [of cmd s] assms by simp
  obtain base where b: "base_authorized cmd s = (Inr base, s)"
    and r: "(if \<not> az_allowed base then ret base else enforce_sod cmd) s = (Inr d, s)"
    using assms base_authorized_state [of cmd s] s'
    by (auto simp: authorize_command_def andthen_eq_Inr split: if_splits)
  have "az_allowed base \<longleftrightarrow> validate_identity (cm_actor cmd) = Inr ()
     \<and> (\<exists>gate r. policy_gate cmd = Inr gate \<and> r \<in> set (authz_policy s) \<and> po_action r = cm_action cmd \<and> po_gate r = gate
          \<and> row_permits (cm_actor cmd) r)"
    using b by (auto simp: base_authorized_def andthen_eq_Inr list_ex_iff split: sum.splits exn.splits if_splits)
  then show ?thesis
    using r s' by (auto simp: entitled_def split: if_splits)
qed


text \<open>The seed is what the table starts with; a second seeding adds nothing.\<close>

lemma seed_rows:
  assumes "distinct ts" "\<forall>t \<in> set ts. policy_row_of t \<notin> set (authz_policy s)" "\<forall>r \<in> set (authz_policy s). po_scope r = None"
  shows "for_each ts (\<lambda>t. insert_policy (policy_row_of t)) s =
    (Inr (map (\<lambda>_. ()) ts), s\<lparr>authz_policy := authz_policy s @ map policy_row_of ts\<rparr>)"
  using assms
proof (induction ts arbitrary: s)
  case (Cons t ts)
  have i: "insert_policy (policy_row_of t) s = (Inr (), s\<lparr>authz_policy := authz_policy s @ [policy_row_of t]\<rparr>)"
    using Cons.prems(2,3) by (auto simp: insert_policy_def list_ex_iff policy_row_of_def split: prod.splits) (metis policy_row.surjective unit.exhaust)+
  have "for_each ts (\<lambda>t. insert_policy (policy_row_of t)) (s\<lparr>authz_policy := authz_policy s @ [policy_row_of t]\<rparr>) =
    (Inr (map (\<lambda>_. ()) ts), s\<lparr>authz_policy := (authz_policy s @ [policy_row_of t]) @ map policy_row_of ts\<rparr>)"
    by (subst Cons.IH) (use Cons.prems in \<open>auto simp: policy_row_of_def split: prod.splits\<close>)
  with i show ?case by (simp add: andthen_def)
qed (simp add: ret_def)

definition seeded :: "db \<Rightarrow> db" where
  "seeded s = s\<lparr>authz_policy := map policy_row_of POLICY_ROWS\<rparr>"

lemma seed_empty: "authz_policy s = [] \<Longrightarrow> seed_authz_policy s = (Inr (), seeded s)"
proof -
  assume e: "authz_policy s = []"
  have "distinct POLICY_ROWS" by code_simp
  then show ?thesis
    using seed_rows [of POLICY_ROWS s] e by (simp add: seed_authz_policy_def andthen_def seeded_def)
qed

lemma signal_entitled:
  assumes "entitled cmd s" "cm_action cmd = ''submit_human_signal''" "cm_aggregate cmd = ''run''" "cm_aggregate_id cmd = Some run_id"
  shows "gate_sod_reason (dget (cm_args cmd) ''gate'') (subject (cm_actor cmd)) (Some run_id) s = None"
proof -
  have "fst (enforce_sod cmd s) = Inr \<lparr>az_allowed = (r = None), az_reason = r\<rparr>"
    if "r = gate_sod_reason (dget (cm_args cmd) ''gate'') (subject (cm_actor cmd)) (Some run_id) s" for r
    using assms(2-) that by (simp add: enforce_sod_def)
  then show ?thesis
    using assms(1) by (auto simp: entitled_def)
qed

lemma final_approval_reason:
  assumes "gate_sod_reason (JStr ''FINAL_APPROVAL'') subj (Some run_id) s = None" "resolve_run_author run_id s = Some author" "run_id \<noteq> []"
  shows "author \<noteq> subj \<and> subj \<notin> gather_gate_responders ''INDEPENDENT_VALIDATION'' (Some run_id) None s"
  using assms by (simp add: gate_sod_reason_def Let_def two_party_ok_def split: if_splits)

lemma validation_reason:
  assumes "gate_sod_reason (JStr ''INDEPENDENT_VALIDATION'') subj (Some run_id) s = None" "resolve_run_author run_id s = Some author" "run_id \<noteq> []"
  shows "author \<noteq> subj"
  using assms by (simp add: gate_sod_reason_def Let_def split: if_splits)

lemma keeps_policy_authorizer:
  assumes "audit_hmac_key E = Some k"
  shows "keeps (audit_step E k) (policy_authorizer E cmd)"
proof (rule keepsI)
  fix s
  have "audit_step E k s (snd (authorize_command cmd s))"
    by (simp add: authorize_command_state audits.rel_refl)
  then show "audit_step E k s (snd (policy_authorizer E cmd s))"
    unfolding policy_authorizer_def
  proof (rule audits.step_andthen)
    show "audit_step E k s' (snd ((if \<not> az_allowed x then let reason = str_or (az_reason x) ''command denied''
        in andthen (record_denial E cmd reason) (\<lambda>_. ret (deny reason)) else ret permit) s'))" for x s'
      using keeps_record [OF assms] unfolding record_denial_def Let_def
      by (auto simp: audits.rel_refl intro!: audits.step_andthen) (simp add: keeps_def)
  qed
qed

definition run_started :: event_row where
  "run_started = \<lparr>er_event_id = ''evt_1'', er_global_seq = 1, er_aggregate = ''run'', er_aggregate_id = ''run_1'', er_stream_version = 1,
     er_type = ''RUN_CREATED'', er_schema_version = 1, er_table_version = 1, er_actor = [(''subject'', JStr ''user:ann'')], er_payload = [],
     er_provenance = [], er_occurred_at = 0, er_recorded_at = 0, er_request_id = None, er_feature_id = None, er_run_id = Some ''run_1'',
     er_overlay_fact_id = None, er_feature_contract_id = None, er_caused_by = None\<rparr>"

definition approved_db :: db where
  "approved_db = seeded empty_db\<lparr>events := [run_started]\<rparr>"

definition final_answer :: Command where
  "final_answer = \<lparr>cm_action = ''submit_human_signal'', cm_aggregate = ''run'', cm_aggregate_id = Some ''run_1'',
     cm_args = [(''gate'', JStr ''FINAL_APPROVAL'')], cm_actor = audit_actor\<lparr>role_claims := [''approver'']\<rparr>,
     cm_idempotency_key = ''k'', cm_expected_version = None\<rparr>"

subsection \<open>Properties\<close>

text \<open>
  C17: the production authorizer allows a command exactly when its actor is entitled to it (a valid
  identity, a matching policy row, no duty violated), and then touches nothing.  A denial leaves exactly
  one new entry, of the denied command, its actor and the reason, on the security stream and changes no
  domain table.
\<close>

theorem denials_are_audited:
  assumes "policy_authorizer E cmd s = (Inr d, s')"
  shows "(az_allowed d \<longleftrightarrow> entitled cmd s) \<and> (az_allowed d \<longrightarrow> s' = s)
    \<and> (\<not> az_allowed d \<longrightarrow> (\<exists>row. s' = s\<lparr>draws := Suc (draws s), gseq := gseq s + 1, security_audit := security_audit s @ [row]\<rparr>
         \<and> au_event_type row = ''COMMAND_DENIED'' \<and> au_actor row = identity_to_jsonb (cm_actor cmd)
         \<and> au_attempted_action row = cm_action cmd \<and> au_decision row = ''denied'' \<and> au_reason row = az_reason d))"
proof -
  obtain base where a: "authorize_command cmd s = (Inr base, s)"
    and r: "(if \<not> az_allowed base then let reason = str_or (az_reason base) ''command denied''
        in andthen (record_denial E cmd reason) (\<lambda>_. ret (deny reason)) else ret permit) s = (Inr d, s')"
    using assms authorize_command_state [of cmd s] by (auto simp: policy_authorizer_def andthen_eq_Inr split: if_splits)
  have e: "az_allowed base \<longleftrightarrow> entitled cmd s"
    using authorize_command_Inr [OF a] by simp
  show ?thesis
  proof (cases "az_allowed base")
    case False
    then obtain sec_id where rec: "record_security_event E ''COMMAND_DENIED'' (cm_actor cmd) (cm_action cmd) ''denied''
        (Some (str_or (az_reason base) ''command denied'')) (Some (cm_aggregate cmd)) (cm_aggregate_id cmd) ''regulator'' None s = (Inr sec_id, s')"
      and d: "d = deny (str_or (az_reason base) ''command denied'')"
      using r by (auto simp: andthen_eq_Inr record_denial_def Let_def)
    show ?thesis
    proof (rule record_security_event_Inr [OF rec])
      fix k row
      assume row: "row = audit_entry sec_id ''COMMAND_DENIED'' (cm_actor cmd) (cm_action cmd) ''denied''
          (Some (str_or (az_reason base) ''command denied'')) (Some (cm_aggregate cmd)) (cm_aggregate_id cmd) ''regulator'' (newest_hash s) (clock s)"
        and s': "s' = s\<lparr>draws := Suc (draws s), gseq := gseq s + 1, security_audit := security_audit s @
          [row\<lparr>au_entry_hash := entry_hash E k (newest_hash s) row, au_seq := gseq s + 1\<rparr>]\<rparr>"
      show ?thesis
        using False e unfolding s' d
        by (intro conjI impI exI [of _ "row\<lparr>au_entry_hash := entry_hash E k (newest_hash s) row, au_seq := gseq s + 1\<rparr>"])
           (simp_all add: row)
    qed
  qed (use r e in auto)
qed

theorem denials_are_audited_witness:
  "\<exists>s'. policy_authorizer plain_env (final_answer\<lparr>cm_action := ''cancel''\<rparr>) approved_db = (Inr (deny ''no matching authz policy''), s')
     \<and> length (security_audit s') = 1"
proof -
  let ?c = "final_answer\<lparr>cm_action := ''cancel''\<rparr>"
  have "authorize_command ?c approved_db = (Inr (deny ''no matching authz policy''), approved_db)"
    by code_simp
  moreover obtain sec_id s' where "record_denial plain_env ?c ''no matching authz policy'' approved_db = (Inr sec_id, s')"
    unfolding record_denial_def
    by (rule record_total [of plain_env "''k''" "''denied''" approved_db])
      (auto simp: plain_env_def approved_db_def seeded_def empty_db_def)
  ultimately have r: "policy_authorizer plain_env ?c approved_db = (Inr (deny ''no matching authz policy''), s')"
    by (simp add: policy_authorizer_def andthen_def str_or_def Let_def)
  have "\<exists>row. security_audit s' = security_audit approved_db @ [row]"
    using denials_are_audited [OF r] by auto
  with r show ?thesis
    by (auto simp: approved_db_def seeded_def empty_db_def)
qed

text \<open>
  Four eyes at the command: a \<open>submit_human_signal\<close> on a run that names the final-approval gate is
  authorized only for an acting person that is neither the author of the run nor an authority that answered
  its independent-validation gate.  The gate is the one the caller names; the task's own is checked by
  \<open>submit_human_signal\<close> (\<open>Gates\<close>).
\<close>

lemma final_approval_actor:
  assumes "policy_authorizer E cmd s = (Inr d, s')" "az_allowed d"
    and "cm_action cmd = ''submit_human_signal''" "cm_aggregate cmd = ''run''" "cm_aggregate_id cmd = Some run_id" "run_id \<noteq> []"
    and "dget (cm_args cmd) ''gate'' = JStr ''FINAL_APPROVAL''" "resolve_run_author run_id s = Some author"
  shows "valid_principal (cm_actor cmd) \<and> author \<noteq> subject (cm_actor cmd)
    \<and> (let validators = gather_gate_responders ''INDEPENDENT_VALIDATION'' (Some run_id) None s
       in subject (cm_actor cmd) \<notin> validators
          \<and> (author \<notin> validators \<longrightarrow> three_party_disjoint author validators (subject (cm_actor cmd))))"
proof -
  obtain base where a: "authorize_command cmd s = (Inr base, s)" "az_allowed base"
    using assms(1,2) authorize_command_state [of cmd s]
    by (auto simp: policy_authorizer_def andthen_eq_Inr Let_def split: if_splits)
  then have e: "entitled cmd s"
    using authorize_command_Inr [of cmd s base s] by simp
  have "gate_sod_reason (dget (cm_args cmd) ''gate'') (subject (cm_actor cmd)) (Some run_id) s = None"
    by (rule signal_entitled) (use e assms in auto)
  then have "author \<noteq> subject (cm_actor cmd) \<and> subject (cm_actor cmd) \<notin> gather_gate_responders ''INDEPENDENT_VALIDATION'' (Some run_id) None s"
    using final_approval_reason [OF _ assms(8,6)] assms(7) by simp
  moreover have "valid_principal (cm_actor cmd)"
    using e by (simp add: entitled_def validate_identity_Inr)
  ultimately show ?thesis
    by (auto simp: three_party_disjoint_def Let_def)
qed

end
