(* ===== verification/Gates.thy ===== *)
theory Gates
  imports Authz Table_History "HOL-Library.AList"
begin

text \<open>
  The human gates of \<open>gates/tasks.py\<close>: tasks with a service-level ladder of timers, delegation grants
  and the answers (signals) that close a task when a quorum of distinct authorities agrees.
  \<open>gate_step\<close> is what every operation keeps: tasks and answers are never lost, a closed task stays as
  it is, and the table stays consistent with the answers (\<open>gate_ok\<close>).
\<close>

subsection \<open>Tasks and their timers\<close>

definition GATES :: "string list" where
  "GATES = [''CLARIFICATION'', ''DATA_STEWARD'', ''COMPLIANCE'', ''INDEPENDENT_VALIDATION'', ''FINAL_APPROVAL'',
     ''OVERLAY_DATA_OWNER'', ''OVERLAY_COMPLIANCE'', ''USE_CASE_ONBOARDING'']"

definition task_aggregate :: "string option \<Rightarrow> string option \<Rightarrow> string option \<Rightarrow> string \<times> string option" where
  "task_aggregate run_id feature_id fact_key =
     (if str_or fact_key [] \<noteq> [] then (''overlay_fact'', fact_key)
      else if str_or run_id [] \<noteq> [] then (''run'', run_id) else (''feature'', feature_id))"

definition insert_task :: "task_row \<Rightarrow> unit dbprog" where
  "insert_task row = (\<lambda>s.
     if tk_gate row \<notin> set GATES then (Inl (CheckViolation ''human_tasks_gate_check''), s)
     else if tk_task_id row \<in> tk_task_id ` set (human_tasks s) then (Inl (UniqueViolation ''human_tasks_pkey''), s)
     else (Inr (), s\<lparr>human_tasks := human_tasks s @ [row]\<rparr>))"

definition task_row_of :: "string \<Rightarrow> GateTaskSpec \<Rightarrow> task_row" where
  "task_row_of task_id spec =
     \<lparr>tk_task_id = task_id, tk_task_version = 1, tk_run_id = gs_run_id spec, tk_feature_id = gs_feature_id spec,
      tk_gate = gs_gate spec, tk_required_inputs = gs_required_inputs spec,
      tk_eligible_assignees = gs_eligible_assignees spec, tk_allowed_responses = gs_allowed_responses spec,
      tk_quorum_required = gs_quorum_required spec, tk_quorum_of_role = gs_quorum_of_role spec,
      tk_delegation_allowed = gs_delegation_allowed spec, tk_sla = gs_sla spec, tk_status = ''open'',
      tk_fact_key = gs_fact_key spec, tk_draft_event_id = gs_draft_event_id spec,
      tk_target_event_id = gs_target_event_id spec, tk_evidence_ref = gs_evidence_ref spec\<rparr>"

text \<open>A timer of a task; \<open>timers.aggregate_id\<close> is \<open>NOT NULL\<close>.\<close>

definition task_timer :: "string \<Rightarrow> string \<Rightarrow> string \<Rightarrow> string \<Rightarrow> string \<Rightarrow> string \<Rightarrow> int \<Rightarrow> int \<Rightarrow> timer_row" where
  "task_timer timer_id key agg aid task_id kind fire_at ver =
     (timer_row_of timer_id key agg aid kind fire_at [])\<lparr>tm_task_id := Some task_id, tm_cas_task_version := Some ver\<rparr>"

definition non_null :: "string option \<Rightarrow> (string \<Rightarrow> 'a dbprog) \<Rightarrow> 'a dbprog" where
  "non_null x f = (case x of None \<Rightarrow> throw NotNullViolation | Some v \<Rightarrow> f v)"

text \<open>A duration is a whole number of minutes, so its half is exact.\<close>

definition ladder :: "int \<Rightarrow> int \<Rightarrow> (string \<times> int) list" where
  "ladder base sla = [(''reminder'', base + sla div 2), (''sla'', base + sla), (''escalation'', base + sla + sla div 2),
     (''auto_park'', base + sla * 2)]"

definition open_task :: "env \<Rightarrow> GateTaskSpec \<Rightarrow> IdentityEnvelope \<Rightarrow> string dbprog" where
  "open_task E spec actor =
     andthen (mint_id E ''task'') (\<lambda>task_id.
     andthen (insert_task (task_row_of task_id spec)) (\<lambda>_.
     if str_or (gs_sla spec) [] \<noteq> [] then
       andthen (query clock) (\<lambda>base.
       andthen (lift (parse_duration (str_or (gs_sla spec) []))) (\<lambda>sla.
       case task_aggregate (gs_run_id spec) (gs_feature_id spec) (gs_fact_key spec) of (agg, agg_id) \<Rightarrow>
       andthen (for_each (ladder base sla) (\<lambda>(kind, fire_at).
         andthen (mint_id E ''tmr'') (\<lambda>timer_id.
         non_null agg_id (\<lambda>aid.
         insert_timer_strict (task_timer timer_id (task_id @ '':'' @ kind) agg aid task_id kind fire_at 1))))) (\<lambda>_.
       ret task_id)))
     else ret task_id))"

text \<open>\<open>UPDATE human_tasks SET ... WHERE task_id=...\<close>.\<close>

definition update_task :: "string \<Rightarrow> (task_row \<Rightarrow> task_row) \<Rightarrow> unit dbprog" where
  "update_task task_id f = update (\<lambda>s. s\<lparr>human_tasks :=
     map (\<lambda>t. if tk_task_id t = task_id then f t else t) (human_tasks s)\<rparr>)"

definition find_task :: "string \<Rightarrow> db \<Rightarrow> task_row option" where
  "find_task task_id s = find (\<lambda>t. tk_task_id t = task_id) (human_tasks s)"

definition bump_task_version :: "string \<Rightarrow> int dbprog" where
  "bump_task_version task_id =
     andthen (update_task task_id (\<lambda>t. t\<lparr>tk_task_version := tk_task_version t + 1\<rparr>)) (\<lambda>_.
     andthen (query (find_task task_id)) (\<lambda>row.
     case row of None \<Rightarrow> throw GateError | Some t \<Rightarrow> ret (tk_task_version t)))"

definition cancel_task :: "string \<Rightarrow> string \<Rightarrow> unit dbprog" where
  "cancel_task task_id new_status =
     (if new_status \<notin> {''cancelled'', ''superseded''} then throw GateError
      else
        andthen (update_task task_id (\<lambda>t. if tk_status t = ''open'' then t\<lparr>tk_status := new_status\<rparr> else t)) (\<lambda>_.
        cancel_timers task_id))"

definition cancel_tasks_on_run_advance :: "string \<Rightarrow> string \<Rightarrow> int dbprog" where
  "cancel_tasks_on_run_advance run_id new_status =
     andthen (query (\<lambda>s. map tk_task_id (filter (\<lambda>t. tk_run_id t = Some run_id \<and> tk_status t = ''open'') (human_tasks s)))) (\<lambda>open_ids.
     andthen (for_each open_ids (\<lambda>task_id. cancel_task task_id new_status)) (\<lambda>_.
     ret (int (length open_ids))))"

subsection \<open>Eligibility and delegation\<close>

text \<open>The role, scope and quorum-role checks that both the principal of a grant and an actor answering
  for itself must pass.\<close>

definition eligible_for :: "task_row \<Rightarrow> IdentityEnvelope \<Rightarrow> bool" where
  "eligible_for t who \<longleftrightarrow>
     (let required_role = dget (tk_eligible_assignees t) ''role''; required_scope = dget (tk_eligible_assignees t) ''scope''
      in (required_role = JNull \<or> required_role \<in> JStr ` set (role_claims who))
         \<and> (required_scope = JNull \<or> required_scope \<in> JStr ` set (groups who))
         \<and> (case tk_quorum_of_role t of None \<Rightarrow> True | Some role \<Rightarrow> role \<in> set (role_claims who)))"

definition insert_delegation :: "delegation_row \<Rightarrow> unit dbprog" where
  "insert_delegation row = update (\<lambda>s.
     if list_ex (\<lambda>d. de_task_id d = de_task_id row \<and> de_principal d = de_principal row \<and> de_delegate d = de_delegate row)
          (task_delegations s)
     then s else s\<lparr>task_delegations := task_delegations s @ [row]\<rparr>)"

definition grant_task_delegation :: "string \<Rightarrow> IdentityEnvelope \<Rightarrow> string \<Rightarrow> IdentityEnvelope \<Rightarrow> unit dbprog" where
  "grant_task_delegation task_id grantor delegate_subject granted_by =
     andthen (query (find_task task_id)) (\<lambda>row.
     case row of None \<Rightarrow> throw GateError
     | Some t \<Rightarrow>
         if tk_status t \<noteq> ''open'' then throw GateError
         else if \<not> tk_delegation_allowed t then throw IneligibleResponderError
         else if subject grantor = delegate_subject then throw IneligibleResponderError
         else if \<not> eligible_for t grantor then throw IneligibleResponderError
         else insert_delegation \<lparr>de_task_id = task_id, de_principal = subject grantor, de_delegate = delegate_subject,
                de_granted_by = subject granted_by\<rparr>)"

subsection \<open>Answers\<close>

text \<open>\<open>v != n\<close> of a number \<open>n\<close> and any value.\<close>

fun is_int :: "json \<Rightarrow> int \<Rightarrow> bool" where
  "is_int (JInt m) n = (m = n)"
| "is_int (JBool b) n = ((if b then 1 else 0) = n)"
| "is_int _ n = False"

definition closed_status :: "string \<Rightarrow> bool" where
  "closed_status st \<longleftrightarrow> st \<in> {''answered'', ''conflict'', ''expired'', ''cancelled'', ''superseded''}"

text \<open>Who answers: the principal of a grant, or the actor if it is eligible.\<close>

definition signal_authority :: "task_row \<Rightarrow> IdentityEnvelope \<Rightarrow> string option \<Rightarrow> string dbprog" where
  "signal_authority t actor obo =
     (case obo of
        Some behalf \<Rightarrow>
          if \<not> tk_delegation_allowed t then throw IneligibleResponderError
          else if behalf = subject actor then throw IneligibleResponderError
          else andthen (query (\<lambda>s. list_ex (\<lambda>d. de_task_id d = tk_task_id t \<and> de_principal d = behalf
                  \<and> de_delegate d = subject actor) (task_delegations s))) (\<lambda>granted.
               if granted then ret behalf else throw IneligibleResponderError)
      | None \<Rightarrow> if eligible_for t actor then ret (subject actor) else throw IneligibleResponderError)"

definition task_answers :: "string \<Rightarrow> db \<Rightarrow> response_row list" where
  "task_answers task_id s = filter (\<lambda>r. re_task_id r = task_id) (human_task_responses s)"

definition insert_response :: "response_row \<Rightarrow> unit dbprog" where
  "insert_response row = update (\<lambda>s.
     if list_ex (\<lambda>r. re_task_id r = re_task_id row \<and> re_subject r = re_subject row) (human_task_responses s)
     then s else s\<lparr>human_task_responses := human_task_responses s @ [row]\<rparr>)"

definition record_answer :: "string \<Rightarrow> IdentityEnvelope \<Rightarrow> string \<Rightarrow> string option \<Rightarrow> string \<Rightarrow> bool dbprog" where
  "record_answer task_id actor response obo authority =
     andthen (query (\<lambda>s. list_ex (\<lambda>r. response_authority r = authority) (task_answers task_id s))) (\<lambda>already.
     if already then ret False
     else
       andthen nextval (\<lambda>seq.
       andthen (insert_response \<lparr>re_task_id = task_id, re_subject = subject actor, re_response = response,
         re_on_behalf_of = obo, re_answered_seq = seq\<rparr>) (\<lambda>_.
       ret True)))"

text \<open>\<open>authorities[obo or subj] = resp\<close> for every answer, the last one kept.\<close>

definition authorities :: "response_row list \<Rightarrow> (string \<times> string) list" where
  "authorities rows = fold (\<lambda>r. AList.update (str_or (re_on_behalf_of r) (re_subject r)) (re_response r)) rows []"

definition close_task :: "env \<Rightarrow> task_row \<Rightarrow> (string \<times> string) list \<Rightarrow> (string \<times> bool) dbprog" where
  "close_task E t votes =
     (let task_id = tk_task_id t
      in if int (length votes) \<ge> tk_quorum_required t then
           (if card (snd ` set votes) = 1 then
              andthen (update_task task_id (\<lambda>t. t\<lparr>tk_status := ''answered''\<rparr>)) (\<lambda>_.
              andthen (cancel_timers task_id) (\<lambda>_.
              ret (''answered'', True)))
            else
              andthen (update_task task_id (\<lambda>t. t\<lparr>tk_status := ''conflict''\<rparr>)) (\<lambda>_.
              andthen (cancel_timers task_id) (\<lambda>_.
              case task_aggregate (tk_run_id t) (tk_feature_id t) None of (agg, agg_id) \<Rightarrow>
              andthen (mint_id E ''tmr'') (\<lambda>timer_id.
              andthen (query clock) (\<lambda>now.
              andthen (non_null agg_id (\<lambda>aid. insert_timer (task_timer timer_id (task_id @ '':conflict-escalation'') agg aid
                task_id ''escalation'' now (tk_task_version t)))) (\<lambda>_.
              ret (''conflict'', False)))))))
         else ret (tk_status t, False))"

definition submit_human_signal ::
  "env \<Rightarrow> string \<Rightarrow> json \<Rightarrow> IdentityEnvelope \<Rightarrow> json \<Rightarrow> string option \<Rightarrow> SignalResult dbprog" where
  "submit_human_signal E task_id response actor expected_task_version obo =
     andthen (lift (validate_identity actor)) (\<lambda>_.
     andthen (query (find_task task_id)) (\<lambda>row.
     case row of None \<Rightarrow> throw GateError
     | Some t \<Rightarrow>
         if closed_status (tk_status t) then
           ret \<lparr>sr_task_id = task_id, sr_status = tk_status t, sr_counted = False, sr_quorum_met = (tk_status t = ''answered'')\<rparr>
         else if \<not> is_int expected_task_version (tk_task_version t) then
           ret \<lparr>sr_task_id = task_id, sr_status = tk_status t, sr_counted = False, sr_quorum_met = False\<rparr>
         else if response \<notin> JStr ` set (tk_allowed_responses t) then throw ResponseNotAllowedError
         else
           andthen (signal_authority t actor obo) (\<lambda>authority.
           andthen (query (gate_sod_reason (JStr (tk_gate t)) authority (tk_run_id t))) (\<lambda>sod_reason.
           case sod_reason of Some why \<Rightarrow> throw (SoDViolationError why)
           | None \<Rightarrow>
               andthen (record_answer task_id actor (str_or (as_ostr response) []) obo authority) (\<lambda>counted.
               andthen (query (\<lambda>s. authorities (task_answers task_id s))) (\<lambda>votes.
               andthen (close_task E t votes) (\<lambda>(new_status, quorum_met).
               ret \<lparr>sr_task_id = task_id, sr_status = new_status, sr_counted = counted, sr_quorum_met = quorum_met\<rparr>)))))))"

definition submit_human_signal_command :: "env \<Rightarrow> Command \<Rightarrow> CommandResult dbprog" where
  "submit_human_signal_command E cmd =
     andthen (lift (dict_str (cm_args cmd) ''task_id'')) (\<lambda>task_id.
     andthen (lift (dict_item (cm_args cmd) ''response'')) (\<lambda>response.
     andthen (lift (dict_item (cm_args cmd) ''expected_task_version'')) (\<lambda>expected.
     andthen (lift (opt_str (dget (cm_args cmd) ''on_behalf_of''))) (\<lambda>obo.
     andthen (submit_human_signal E task_id response (cm_actor cmd) expected obo) (\<lambda>result.
     ret \<lparr>accepted = sr_counted result, cr_aggregate_id = Some (str_or (cm_aggregate_id cmd) []),
       produced_event_ids = [], denied_reason = None\<rparr>)))))"

subsection \<open>History: tasks and answers are never lost, closed tasks never change\<close>

definition frozen :: "task_row \<Rightarrow> task_row" where
  "frozen t = t\<lparr>tk_task_version := 0, tk_status := []\<rparr>"

definition task_step :: "task_row \<Rightarrow> task_row \<Rightarrow> bool" where
  "task_step t t' \<longleftrightarrow> frozen t' = frozen t \<and> tk_task_version t \<le> tk_task_version t'
     \<and> (closed_status (tk_status t) \<longrightarrow> tk_status t' = tk_status t)"

abbreviation task_history :: "task_row list \<Rightarrow> task_row list \<Rightarrow> bool" where
  "task_history \<equiv> history task_step"

definition gate_step :: "db \<Rightarrow> db \<Rightarrow> bool" where
  "gate_step s s' \<longleftrightarrow> (distinct (map tk_task_id (human_tasks s)) \<longrightarrow> distinct (map tk_task_id (human_tasks s')))
     \<and> (distinct (map tk_task_id (human_tasks s)) \<longrightarrow> task_history (human_tasks s) (human_tasks s'))
     \<and> prefix (human_task_responses s) (human_task_responses s') \<and> prefix (task_delegations s) (task_delegations s')"

lemma frozen_fields:
  assumes "frozen t' = frozen t"
  shows "tk_task_id t' = tk_task_id t" "tk_gate t' = tk_gate t" "tk_run_id t' = tk_run_id t"
    "tk_allowed_responses t' = tk_allowed_responses t" "tk_quorum_required t' = tk_quorum_required t"
  using assms [THEN arg_cong, of tk_task_id] assms [THEN arg_cong, of tk_gate] assms [THEN arg_cong, of tk_run_id]
    assms [THEN arg_cong, of tk_allowed_responses] assms [THEN arg_cong, of tk_quorum_required]
  by (simp_all add: frozen_def)

lemma frozen_update [simp]:
  "frozen (t\<lparr>tk_status := st\<rparr>) = frozen t" "frozen (t\<lparr>tk_task_version := v\<rparr>) = frozen t"
  by (simp_all add: frozen_def)

lemma task_step_refl: "task_step t t"
  by (simp add: task_step_def)

lemma task_step_trans: "task_step t u \<Longrightarrow> task_step u v \<Longrightarrow> task_step t v"
  by (auto simp: task_step_def)

interpretation task_rows: row_rel task_step
  by unfold_locales (auto intro: task_step_refl task_step_trans)

interpretation gate_history: state_rel gate_step
  by unfold_locales (auto simp: gate_step_def intro: task_rows.history_refl task_rows.history_trans dest: prefix_order.trans)

lemma gate_step_frame:
  assumes "human_tasks s' = human_tasks s" "prefix (human_task_responses s) (human_task_responses s')"
    "prefix (task_delegations s) (task_delegations s')"
  shows "gate_step s s'"
  using assms by (simp add: gate_step_def task_rows.history_refl)

lemma gate_step_map:
  assumes "\<And>t. t \<in> set (human_tasks s) \<Longrightarrow> tk_task_id t = i \<Longrightarrow> task_step t (f t)"
  shows "gate_step s (snd (update_task i f s))"
proof -
  define g where "g t = (if tk_task_id t = i then f t else t)" for t
  have "tk_task_id (g t) = tk_task_id t" if "t \<in> set (human_tasks s)" for t
    using assms [OF that] frozen_fields(1) [of "f t" t] by (simp add: task_step_def g_def)
  then have "map tk_task_id (map g (human_tasks s)) = map tk_task_id (human_tasks s)"
    unfolding map_map by (intro map_cong) auto
  moreover have "task_history (human_tasks s) (map g (human_tasks s))"
    by (rule task_rows.history_map) (simp add: assms g_def task_step_refl)
  ultimately show ?thesis
    by (simp add: update_task_def gate_step_def g_def [abs_def] del: map_map)
qed

lemma keeps_update_task: "(\<And>t. task_step t (f t)) \<Longrightarrow> keeps gate_step (update_task i f)"
  by (simp add: keeps_def gate_step_map)

lemma keeps_insert_task: "keeps gate_step (insert_task row)"
  using task_rows.history_append by (auto simp: keeps_def insert_task_def gate_step_def task_rows.history_refl)


lemma keeps_gate_frames:
  "keeps gate_step (mint_id E p)" "keeps gate_step (cancel_timers i)" "keeps gate_step nextval"
  "keeps gate_step (insert_timer_strict tr)" "keeps gate_step (insert_timer tr)"
  "keeps gate_step (insert_delegation d)" "keeps gate_step (insert_response r)"
  by (auto simp: keeps_def mint_id_def cancel_timers_def nextval_def insert_timer_strict_def insert_timer_def
      insert_delegation_def insert_response_def intro!: gate_step_frame)

lemma keeps_not_null: "(\<And>v. keeps gate_step (f v)) \<Longrightarrow> keeps gate_step (non_null x f)"
  by (auto simp: non_null_def intro: gate_history.keeps_rules split: option.split)

lemmas gate_keeps = gate_history.keeps_rules keeps_gate_frames keeps_insert_task keeps_update_task keeps_not_null

lemma keeps_open_task: "keeps gate_step (open_task E spec actor)"
  unfolding open_task_def by (intro gate_keeps)

lemma keeps_bump_task_version: "keeps gate_step (bump_task_version i)"
  unfolding bump_task_version_def by (intro gate_keeps) (simp add: task_step_def)

lemma keeps_cancel_task: "keeps gate_step (cancel_task i st)"
  unfolding cancel_task_def by (intro gate_keeps) (simp add: task_step_def closed_status_def)

lemma keeps_cancel_tasks: "keeps gate_step (cancel_tasks_on_run_advance run_id st)"
  unfolding cancel_tasks_on_run_advance_def by (intro gate_keeps keeps_cancel_task)

lemma keeps_grant: "keeps gate_step (grant_task_delegation i p d g)"
  unfolding grant_task_delegation_def by (intro gate_keeps)

lemma keeps_record_answer: "keeps gate_step (record_answer i a r o1 au)"
  unfolding record_answer_def by (intro gate_keeps)

lemma keeps_signal_authority: "keeps gate_step (signal_authority t a b)"
  unfolding signal_authority_def by (intro gate_keeps)

text \<open>Only the last step of a signal relies on an earlier check: the task it closes was not closed.\<close>

lemma find_taskD: "find_task i s = Some t \<Longrightarrow> t \<in> set (human_tasks s) \<and> tk_task_id t = i"
  by (auto simp: find_task_def find_Some_iff)

lemma find_task_unique:
  "distinct (map tk_task_id (human_tasks s)) \<Longrightarrow> find_task i s = Some t \<Longrightarrow> t' \<in> set (human_tasks s) \<Longrightarrow> tk_task_id t' = i \<Longrightarrow> t' = t"
  using find_taskD by (metis distinct_map inj_onD)

lemma gate_step_close_task:
  assumes "\<And>t'. t' \<in> set (human_tasks s) \<Longrightarrow> tk_task_id t' = tk_task_id t \<Longrightarrow> \<not> closed_status (tk_status t')"
  shows "gate_step s (snd (close_task E t votes s))"
proof -
  have u: "gate_step s (snd (update_task (tk_task_id t) (\<lambda>t. t\<lparr>tk_status := st\<rparr>) s))" for st
    by (rule gate_step_map) (use assms in \<open>auto simp: task_step_def\<close>)
  have then_keeps: "gate_step s (snd (andthen (update_task (tk_task_id t) (\<lambda>t. t\<lparr>tk_status := st\<rparr>)) f s))"
    if "\<And>x. keeps gate_step (f x)" for st and f :: "unit \<Rightarrow> (string \<times> bool) dbprog"
    by (rule gate_history.step_andthen) (use u that in \<open>auto simp: keeps_def\<close>)
  show ?thesis
    unfolding close_task_def Let_def
    by (auto simp: gate_history.rel_refl intro!: then_keeps gate_keeps split: prod.split)
qed

subsection \<open>The tables agree: what closes a task\<close>

definition outcome_ok :: "task_row \<Rightarrow> response_row list \<Rightarrow> bool" where
  "outcome_ok t rows \<longleftrightarrow>
     (tk_status t = ''open'' \<longrightarrow> rows = [] \<or> int (length (authorities rows)) < tk_quorum_required t)
     \<and> (tk_status t = ''answered'' \<longrightarrow> tk_quorum_required t \<le> int (length (authorities rows)) \<and> card (snd ` set (authorities rows)) = 1)
     \<and> (tk_status t = ''conflict'' \<longrightarrow> tk_quorum_required t \<le> int (length (authorities rows)) \<and> card (snd ` set (authorities rows)) \<noteq> 1)
     \<and> (tk_status t = ''open'' \<or> closed_status (tk_status t))"

definition subject_key :: "response_row \<Rightarrow> string \<times> string" where
  "subject_key r = (re_task_id r, re_subject r)"

definition authority_key :: "response_row \<Rightarrow> string \<times> string" where
  "authority_key r = (re_task_id r, response_authority r)"

definition gate_ok :: "db \<Rightarrow> bool" where
  "gate_ok s \<longleftrightarrow> distinct (map tk_task_id (human_tasks s))
     \<and> distinct (map subject_key (human_task_responses s))
     \<and> distinct (map authority_key (human_task_responses s))
     \<and> (\<forall>r \<in> set (human_task_responses s). \<exists>t \<in> set (human_tasks s). tk_task_id t = re_task_id r \<and> re_response r \<in> set (tk_allowed_responses t))
     \<and> (\<forall>t \<in> set (human_tasks s). outcome_ok t (task_answers (tk_task_id t) s))"

lemma gate_ok_frame:
  "human_tasks s' = human_tasks s \<Longrightarrow> human_task_responses s' = human_task_responses s \<Longrightarrow> gate_ok s' \<longleftrightarrow> gate_ok s"
  by (simp add: gate_ok_def task_answers_def)

lemma gate_ok_empty: "gate_ok empty_db"
  by (simp add: gate_ok_def empty_db_def)

lemma authorities_keys: "set (map fst (authorities rows)) = (\<lambda>r. str_or (re_on_behalf_of r) (re_subject r)) ` set rows"
  unfolding authorities_def by (induction rows rule: rev_induct) (auto simp: dom_update)

lemma authorities_Nil [simp]: "authorities [] = []"
  by (simp add: authorities_def)

lemma authorities_nonempty: "rows \<noteq> [] \<Longrightarrow> authorities rows \<noteq> []"
  using authorities_keys [of rows] by auto

lemma record_answer_effect:
  assumes "record_answer i actor resp obo au s = (x, s')" "au = (case obo of None \<Rightarrow> subject actor | Some p \<Rightarrow> p)"
  obtains c where "x = Inr c" "human_tasks s' = human_tasks s" "task_answers i s' \<noteq> []" "\<not> c \<Longrightarrow> s' = s"
    "human_task_responses s' = human_task_responses s \<or> (\<exists>row. human_task_responses s' = human_task_responses s @ [row]
       \<and> re_task_id row = i \<and> re_response row = resp \<and> re_subject row = subject actor \<and> response_authority row = au
       \<and> subject_key row \<notin> subject_key ` set (human_task_responses s)
       \<and> authority_key row \<notin> authority_key ` set (human_task_responses s))"
proof (cases "\<exists>r \<in> set (task_answers i s). response_authority r = au")
  case True
  then show thesis
    using assms(1) by (intro that [of False]) (auto simp: record_answer_def list_ex_iff)
next
  case False
  let ?row = "\<lparr>re_task_id = i, re_subject = subject actor, re_response = resp, re_on_behalf_of = obo, re_answered_seq = gseq s + 1\<rparr>"
  have au: "response_authority ?row = au"
    using assms(2) by (simp add: response_authority_def split: option.split)
  have "\<not> list_ex (\<lambda>r. response_authority r = au) (task_answers i s)"
    using False by (simp add: list_ex_iff)
  then have run: "x = Inr True" "s' = snd (insert_response ?row (s\<lparr>gseq := gseq s + 1\<rparr>))"
    using assms(1) by (auto simp: record_answer_def andthen_def nextval_def insert_response_def)
  show thesis
  proof (cases "\<exists>r \<in> set (task_answers i s). re_subject r = subject actor")
    case taken: True
    then have "list_ex (\<lambda>r. re_task_id r = i \<and> re_subject r = subject actor) (human_task_responses s)"
      by (auto simp: list_ex_iff task_answers_def)
    moreover have "task_answers i s \<noteq> []"
      using taken by auto
    ultimately show thesis
      using run by (intro that [of True]) (simp_all add: insert_response_def task_answers_def)
  next
    case free: False
    then have "\<not> list_ex (\<lambda>r. re_task_id r = i \<and> re_subject r = subject actor) (human_task_responses s)"
      by (auto simp: list_ex_iff task_answers_def)
    then show thesis
      using run False free au
      by (intro that [of True]) (auto simp: insert_response_def task_answers_def subject_key_def authority_key_def)
  qed
qed

lemma close_task_effect:
  assumes "close_task E t votes s = (x, s')"
  shows "human_task_responses s' = human_task_responses s
    \<and> human_tasks s' = (if tk_quorum_required t \<le> int (length votes)
        then map (\<lambda>t'. if tk_task_id t' = tk_task_id t
          then t'\<lparr>tk_status := if card (snd ` set votes) = 1 then ''answered'' else ''conflict''\<rparr> else t') (human_tasks s)
        else human_tasks s)"
  using assms
  by (cases "snd (task_aggregate (tk_run_id t) (tk_feature_id t) None)")
     (auto simp: close_task_def Let_def update_task_def cancel_timers_def andthen_def mint_id_def non_null_def insert_timer_def
       split: if_splits prod.splits sum.splits option.splits)

lemma signal_authority_Inr:
  "signal_authority t actor obo s = (Inr au, s1) \<Longrightarrow> s1 = s \<and> au = (case obo of None \<Rightarrow> subject actor | Some p \<Rightarrow> p)"
  by (auto simp: signal_authority_def split: option.splits if_splits)

lemma submit_cases:
  assumes "submit_human_signal E i resp actor expd obo s = (x, s')"
  obtains (unchanged) "s' = s" "\<And>r. x = Inr r \<Longrightarrow> \<not> sr_counted r"
  | (counted) t au c s1 y where "valid_principal actor" "find_task i s = Some t" "\<not> closed_status (tk_status t)"
      "is_int expd (tk_task_version t)" "resp \<in> JStr ` set (tk_allowed_responses t)"
      "signal_authority t actor obo s = (Inr au, s)" "gate_sod_reason (JStr (tk_gate t)) au (tk_run_id t) s = None"
      "record_answer i actor (str_or (as_ostr resp) []) obo au s = (Inr c, s1)"
      "close_task E t (authorities (task_answers i s1)) s1 = (y, s')"
      "x = (case y of Inl e \<Rightarrow> Inl e | Inr (st, q) \<Rightarrow> Inr \<lparr>sr_task_id = i, sr_status = st, sr_counted = c, sr_quorum_met = q\<rparr>)"
proof -
  have same: "snd (signal_authority t actor obo s) = s" for t
    by (auto simp: signal_authority_def split: option.split)
  have total: "\<exists>c s2. record_answer i actor r obo au s = (Inr c, s2)" for r au
    by (auto simp: record_answer_def andthen_def nextval_def insert_response_def)
  show thesis
  proof (cases "validate_identity actor = Inr () \<and> find_task i s \<noteq> None")
    case True
    then obtain t where t: "validate_identity actor = Inr ()" "find_task i s = Some t" by blast
    show thesis
    proof (cases "closed_status (tk_status t) \<or> \<not> is_int expd (tk_task_version t) \<or> resp \<notin> JStr ` set (tk_allowed_responses t)")
      case True
      then show thesis
        using assms t by (intro unchanged) (auto simp: submit_human_signal_def split: if_splits)
    next
      case open_task: False
      obtain a where a: "signal_authority t actor obo s = (a, s)"
        using same by (metis surjective_pairing)
      show thesis
      proof (cases "\<exists>au. a = Inr au \<and> gate_sod_reason (JStr (tk_gate t)) au (tk_run_id t) s = None")
        case True
        then obtain au where au: "a = Inr au" "gate_sod_reason (JStr (tk_gate t)) au (tk_run_id t) s = None" by blast
        obtain c s1 where c: "record_answer i actor (str_or (as_ostr resp) []) obo au s = (Inr c, s1)" using total by blast
        obtain y s2 where y: "close_task E t (authorities (task_answers i s1)) s1 = (y, s2)" by fastforce
        have "s2 = s'" "x = (case y of Inl e \<Rightarrow> Inl e | Inr (st, q) \<Rightarrow> Inr \<lparr>sr_task_id = i, sr_status = st, sr_counted = c, sr_quorum_met = q\<rparr>)"
          using assms t open_task a au c y
          by (auto simp: submit_human_signal_def andthen_def split: sum.splits)
        then show thesis
          using t open_task a au c y by (intro counted) (auto simp: validate_identity_Inr)
      next
        case False
        then show thesis
          using assms t open_task a
          by (intro unchanged) (auto simp: submit_human_signal_def andthen_def split: sum.splits option.splits)
      qed
    qed
  next
    case False
    then show thesis
      using assms by (intro unchanged) (auto simp: submit_human_signal_def andthen_def split: sum.splits option.splits)
  qed
qed

lemma gate_step_signal:
  assumes "distinct (map tk_task_id (human_tasks s))"
  shows "gate_step s (snd (submit_human_signal E i resp actor expd obo s))"
proof -
  obtain x s' where run: "submit_human_signal E i resp actor expd obo s = (x, s')" by fastforce
  then show ?thesis
  proof (cases rule: submit_cases)
    case unchanged
    then show ?thesis by (simp add: run gate_history.rel_refl)
  next
    case (counted t au c s1 y)
    have "gate_step s s1"
      using keepsD [OF keeps_record_answer counted(8)] .
    moreover have tasks: "human_tasks s1 = human_tasks s"
      using record_answer_effect [OF counted(8)] signal_authority_Inr [OF counted(6)] by blast
    have "\<not> closed_status (tk_status t')" if "t' \<in> set (human_tasks s1)" "tk_task_id t' = tk_task_id t" for t'
      using find_task_unique [OF assms counted(2)] find_taskD [OF counted(2)] that counted(3) tasks by auto
    then have "gate_step s1 s'"
      using gate_step_close_task [of s1 t E "authorities (task_answers i s1)"] counted(9) by simp
    ultimately show ?thesis
      using gate_history.rel_trans run by auto
  qed
qed

text \<open>The step that makes the tables agree: an answer is recorded, and the task closes if it must.\<close>

lemma outcome_ok_closed:
  assumes "outcome_ok t rows" "\<not> closed_status (tk_status t)" "rows' \<noteq> []"
    and "st = (if tk_quorum_required t \<le> int (length (authorities rows'))
                then if card (snd ` set (authorities rows')) = 1 then ''answered'' else ''conflict'' else tk_status t)"
  shows "outcome_ok (t\<lparr>tk_status := st\<rparr>) rows'"
  using assms by (auto simp: outcome_ok_def closed_status_def)

lemma gate_ok_add_answer:
  assumes "gate_ok s" "find_task i s = Some t" "r \<in> set (tk_allowed_responses t)"
    and "human_tasks s1 = human_tasks s"
    and "human_task_responses s1 = human_task_responses s \<or> (\<exists>row. human_task_responses s1 = human_task_responses s @ [row]
       \<and> re_task_id row = i \<and> re_response row = r \<and> re_subject row = who \<and> response_authority row = au
       \<and> subject_key row \<notin> subject_key ` set (human_task_responses s)
       \<and> authority_key row \<notin> authority_key ` set (human_task_responses s))"
  shows "distinct (map subject_key (human_task_responses s1))"
    and "distinct (map authority_key (human_task_responses s1))"
    and "\<forall>r \<in> set (human_task_responses s1). \<exists>t \<in> set (human_tasks s1). tk_task_id t = re_task_id r \<and> re_response r \<in> set (tk_allowed_responses t)"
    and "j \<noteq> i \<Longrightarrow> task_answers j s1 = task_answers j s"
  using assms find_taskD [OF assms(2)]
  by (auto simp: gate_ok_def task_answers_def) (use assms(3) in blast)+

lemma gate_ok_signal:
  assumes "gate_ok s"
  shows "gate_ok (snd (submit_human_signal E i resp actor expd obo s))"
proof -
  obtain x s' where run: "submit_human_signal E i resp actor expd obo s = (x, s')" by fastforce
  then show ?thesis
  proof (cases rule: submit_cases)
    case (counted t au c s1 y)
    have ids: "distinct (map tk_task_id (human_tasks s))" and t: "t \<in> set (human_tasks s)" "tk_task_id t = i"
      using assms find_taskD [OF counted(2)] by (auto simp: gate_ok_def)
    obtain r where r: "resp = JStr r" "r \<in> set (tk_allowed_responses t)"
      using counted(5) by blast
    obtain c' where e: "human_tasks s1 = human_tasks s" "task_answers i s1 \<noteq> []"
      "human_task_responses s1 = human_task_responses s \<or> (\<exists>row. human_task_responses s1 = human_task_responses s @ [row]
       \<and> re_task_id row = i \<and> re_response row = str_or (as_ostr resp) [] \<and> re_subject row = subject actor \<and> response_authority row = au
       \<and> subject_key row \<notin> subject_key ` set (human_task_responses s)
       \<and> authority_key row \<notin> authority_key ` set (human_task_responses s))"
      using record_answer_effect [OF counted(8)] signal_authority_Inr [OF counted(6)] by metis
    have "str_or (as_ostr resp) [] = r"
      using r by (simp add: str_or_def)
    note add = gate_ok_add_answer [OF assms counted(2) r(2) e(1) e(3) [unfolded this]]
    let ?votes = "authorities (task_answers i s1)"
    define st where "st = (if tk_quorum_required t \<le> int (length ?votes)
                then if card (snd ` set ?votes) = 1 then ''answered'' else ''conflict'' else tk_status t)"
    note close = close_task_effect [OF counted(9)]
    have same: "t' = t" if "t' \<in> set (human_tasks s)" "tk_task_id t' = i" for t'
      using find_task_unique [OF ids counted(2)] that by blast
    have tasks: "human_tasks s' = map (\<lambda>t'. if tk_task_id t' = i then t'\<lparr>tk_status := st\<rparr> else t') (human_tasks s)"
    proof (cases "tk_quorum_required t \<le> int (length ?votes)")
      case False
      then have "st = tk_status t" by (simp add: st_def)
      then have "(if tk_task_id t' = i then t'\<lparr>tk_status := st\<rparr> else t') = t'" if "t' \<in> set (human_tasks s)" for t'
        using same [OF that] by simp
      then show ?thesis
        using close e(1) False by (simp add: map_idI)
    qed (use close e(1) t(2) in \<open>simp add: st_def\<close>)
    have closed: "outcome_ok (t\<lparr>tk_status := st\<rparr>) (task_answers i s1)"
      by (rule outcome_ok_closed [where rows = "task_answers i s"])
         (use assms t counted(3) e(2) in \<open>auto simp: gate_ok_def st_def\<close>)
    have "task_answers j s' = task_answers j s1" for j
      using close by (simp add: task_answers_def)
    then have "outcome_ok (if tk_task_id t' = i then t'\<lparr>tk_status := st\<rparr> else t') (task_answers (tk_task_id t') s')"
      if "t' \<in> set (human_tasks s)" for t'
      using closed add(4) assms same [OF that] that by (cases "tk_task_id t' = i") (simp_all add: gate_ok_def)
    then have "\<forall>t' \<in> set (human_tasks s'). outcome_ok t' (task_answers (tk_task_id t') s')"
      by (force simp: tasks)
    moreover have "map tk_task_id (human_tasks s') = map tk_task_id (human_tasks s)"
      by (auto simp: tasks)
    moreover have "\<exists>t \<in> set (human_tasks s'). tk_task_id t = re_task_id r \<and> re_response r \<in> set (tk_allowed_responses t)"
      if r: "r \<in> set (human_task_responses s1)" for r
    proof -
      obtain u where "u \<in> set (human_tasks s)" "tk_task_id u = re_task_id r" "re_response r \<in> set (tk_allowed_responses u)"
        using add(3) r e(1) by auto
      then show ?thesis
        by (intro bexI [of _ "if tk_task_id u = i then u\<lparr>tk_status := st\<rparr> else u"]) (auto simp: tasks)
    qed
    ultimately have "gate_ok s'"
      using ids add(1,2) close by (simp add: gate_ok_def)
    then show ?thesis using run by simp
  qed (use assms run in simp)
qed


text \<open>The other operations keep the tables in agreement too.\<close>

definition gate_kept :: "db \<Rightarrow> db \<Rightarrow> bool" where
  "gate_kept s s' \<longleftrightarrow> (gate_ok s \<longrightarrow> gate_ok s')"

interpretation gate_safety: state_rel gate_kept
  by unfold_locales (auto simp: gate_kept_def)

lemma gate_kept_frame:
  "human_tasks s' = human_tasks s \<Longrightarrow> human_task_responses s' = human_task_responses s \<Longrightarrow> gate_kept s s'"
  using gate_ok_frame [of s' s] by (simp add: gate_kept_def)

lemma gate_kept_frames:
  "keeps gate_kept (mint_id E p)" "keeps gate_kept (cancel_timers i)"
  "keeps gate_kept (insert_timer_strict tr)" "keeps gate_kept (insert_timer tr)" "keeps gate_kept (insert_delegation d)"
  by (auto simp: keeps_def mint_id_def cancel_timers_def insert_timer_strict_def insert_timer_def
      insert_delegation_def intro!: gate_kept_frame)

lemma gate_kept_insert_task:
  assumes "tk_status row = ''open''"
  shows "keeps gate_kept (insert_task row)"
proof -
  have "outcome_ok row []"
    using assms by (simp add: outcome_ok_def)
  moreover have "task_answers (tk_task_id row) s = []" if "gate_ok s" "tk_task_id row \<notin> tk_task_id ` set (human_tasks s)" for s
    using that unfolding gate_ok_def task_answers_def filter_empty_conv by (metis image_eqI)
  ultimately show ?thesis
    by (auto simp: keeps_def gate_kept_def insert_task_def) (auto simp: gate_ok_def task_answers_def)
qed

lemma gate_kept_update_task:
  assumes "\<And>t rows. outcome_ok t rows \<Longrightarrow> outcome_ok (f t) rows"
    and "\<And>t. tk_task_id (f t) = tk_task_id t \<and> tk_allowed_responses (f t) = tk_allowed_responses t"
  shows "keeps gate_kept (update_task i f)"
proof (rule keepsI, unfold gate_kept_def, rule impI)
  fix s assume ok: "gate_ok s"
  let ?s = "snd (update_task i f s)"
  define g where "g t = (if tk_task_id t = i then f t else t)" for t
  have g: "tk_task_id (g t) = tk_task_id t" "tk_allowed_responses (g t) = tk_allowed_responses t"
    "outcome_ok t rows \<Longrightarrow> outcome_ok (g t) rows" for t rows
    using assms by (simp_all add: g_def)
  have s: "human_tasks ?s = map g (human_tasks s)" "human_task_responses ?s = human_task_responses s"
    "task_answers j ?s = task_answers j s" for j
    by (simp_all add: update_task_def g_def [abs_def] task_answers_def)
  have "map tk_task_id (map g ts) = map tk_task_id ts" for ts
    by (simp add: g)
  then show "gate_ok ?s"
    using ok g by (simp add: gate_ok_def s del: map_map add: map_map [symmetric])
qed

lemma gate_kept_not_null: "(\<And>v. keeps gate_kept (f v)) \<Longrightarrow> keeps gate_kept (non_null x f)"
  by (auto simp: non_null_def intro: gate_safety.keeps_rules split: option.split)

lemmas gate_kept_rules = gate_safety.keeps_rules gate_kept_frames gate_kept_insert_task gate_kept_update_task gate_kept_not_null

lemma gate_kept_open_task: "keeps gate_kept (open_task E spec actor)"
  unfolding open_task_def by (intro gate_kept_rules) (simp add: task_row_of_def)

lemma gate_kept_bump: "keeps gate_kept (bump_task_version i)"
  unfolding bump_task_version_def by (intro gate_kept_rules) (simp_all add: outcome_ok_def)

lemma gate_kept_cancel: "keeps gate_kept (cancel_task i st)"
  unfolding cancel_task_def by (intro gate_kept_rules) (auto simp: outcome_ok_def closed_status_def)

lemma gate_kept_cancel_tasks: "keeps gate_kept (cancel_tasks_on_run_advance run_id st)"
  unfolding cancel_tasks_on_run_advance_def by (intro gate_kept_rules gate_kept_cancel)

lemma gate_kept_grant: "keeps gate_kept (grant_task_delegation i p d g)"
  unfolding grant_task_delegation_def by (intro gate_kept_rules)

lemma gate_kept_signal: "keeps gate_kept (submit_human_signal E i resp actor expd obo)"
  by (simp add: keeps_def gate_kept_def gate_ok_signal)

subsection \<open>Runs of the gate operations\<close>

text \<open>One operation of this component, returning or raising.\<close>

inductive gate_op :: "env \<Rightarrow> db \<Rightarrow> db \<Rightarrow> bool" for E where
  opens: "gate_op E s (snd (open_task E spec actor s))"
| bumps: "gate_op E s (snd (bump_task_version i s))"
| cancels: "gate_op E s (snd (cancel_task i st s))"
| advances: "gate_op E s (snd (cancel_tasks_on_run_advance run_id st s))"
| grants: "gate_op E s (snd (grant_task_delegation i p d g s))"
| signals: "gate_op E s (snd (submit_human_signal E i resp actor expd obo s))"

lemmas gate_kept_operations =
  gate_kept_open_task gate_kept_bump gate_kept_cancel gate_kept_cancel_tasks gate_kept_grant gate_kept_signal

lemma gate_op_ok: "gate_op E s s' \<Longrightarrow> gate_ok s \<Longrightarrow> gate_ok s'"
  by (erule gate_op.cases) (use gate_kept_operations in \<open>auto simp: keeps_def gate_kept_def\<close>)

lemma gate_run_ok: "(gate_op E)\<^sup>*\<^sup>* s s' \<Longrightarrow> gate_ok s \<Longrightarrow> gate_ok s'"
  by (induction rule: rtranclp_induct) (auto intro: gate_op_ok)

lemma gate_op_step: "gate_op E s s' \<Longrightarrow> gate_ok s \<Longrightarrow> gate_step s s'"
  by (erule gate_op.cases)
     (use keeps_open_task keeps_bump_task_version keeps_cancel_task keeps_cancel_tasks keeps_grant gate_step_signal
      in \<open>auto simp: keeps_def gate_ok_def\<close>)

text \<open>Without a grant from the empty name, the code's key of an answer is its authority.\<close>

lemma authorities_distinct:
  assumes "distinct (map key rows)" "\<And>r. r \<in> set rows \<Longrightarrow> str_or (re_on_behalf_of r) (re_subject r) = key r"
  shows "authorities rows = map (\<lambda>r. (key r, re_response r)) rows"
  using assms
proof (induction rows rule: rev_induct)
  case (snoc r rows)
  have "AList.update k v xs = xs @ [(k, v)]" if "k \<notin> fst ` set xs" for k v and xs :: "(string \<times> string) list"
    using that by (induction xs) auto
  with snoc show ?case
    by (auto simp: authorities_def image_image)
qed simp

lemma authority_is_key: "re_on_behalf_of r \<noteq> Some [] \<Longrightarrow> str_or (re_on_behalf_of r) (re_subject r) = response_authority r"
  by (auto simp: str_or_def response_authority_def split: option.splits)

lemma answers_by_authority:
  assumes "gate_ok s" "\<forall>r \<in> set (task_answers i s). re_on_behalf_of r \<noteq> Some []"
  shows "authorities (task_answers i s) = map (\<lambda>r. (response_authority r, re_response r)) (task_answers i s)"
    and "length (task_answers i s) = card (response_authority ` set (task_answers i s))"
proof -
  have "distinct (filter (\<lambda>r. re_task_id r = i) (human_task_responses s))" "inj_on authority_key (set (human_task_responses s))"
    using assms(1) by (auto simp: gate_ok_def distinct_map)
  then have d: "distinct (map response_authority (task_answers i s))"
    by (auto simp: distinct_map task_answers_def inj_on_def authority_key_def)
  then show "authorities (task_answers i s) = map (\<lambda>r. (response_authority r, re_response r)) (task_answers i s)"
    by (rule authorities_distinct) (use assms(2) authority_is_key in auto)
  show "length (task_answers i s) = card (response_authority ` set (task_answers i s))"
    using distinct_card [OF d] by simp
qed

text \<open>No other operation touches the answers.\<close>

definition same_answers :: "db \<Rightarrow> db \<Rightarrow> bool" where
  "same_answers s s' \<longleftrightarrow> human_task_responses s' = human_task_responses s"

interpretation fixed_answers: state_rel same_answers
  by unfold_locales (auto simp: same_answers_def)

lemma same_answers_frames:
  "keeps same_answers (mint_id E p)" "keeps same_answers (cancel_timers i)" "keeps same_answers (insert_timer_strict tr)"
  "keeps same_answers (insert_delegation d)" "keeps same_answers (update_task i f)" "keeps same_answers (insert_task row)"
  by (auto simp: keeps_def same_answers_def mint_id_def cancel_timers_def insert_timer_strict_def insert_delegation_def
      update_task_def insert_task_def)

lemma same_answers_not_null: "(\<And>v. keeps same_answers (f v)) \<Longrightarrow> keeps same_answers (non_null x f)"
  by (auto simp: non_null_def intro: fixed_answers.keeps_rules split: option.split)

lemmas same_answers_rules = fixed_answers.keeps_rules same_answers_frames same_answers_not_null

lemma same_answers_cancel: "keeps same_answers (cancel_task i st)"
  unfolding cancel_task_def by (intro same_answers_rules)

lemma same_answers_operations:
  "keeps same_answers (open_task E spec actor)" "keeps same_answers (bump_task_version i)" "keeps same_answers (cancel_task i st)"
  "keeps same_answers (cancel_tasks_on_run_advance run_id st)" "keeps same_answers (grant_task_delegation i p d g)"
  unfolding open_task_def bump_task_version_def cancel_tasks_on_run_advance_def grant_task_delegation_def
  by (intro same_answers_rules same_answers_cancel)+

lemma gate_op_answers:
  assumes "gate_op E s s'" "gate_ok s" "t \<in> set (human_tasks s)" "closed_status (tk_status t)"
  shows "task_answers (tk_task_id t) s' = task_answers (tk_task_id t) s"
  using assms(1)
proof cases
  case (signals i resp actor expd obo)
  obtain x where run: "submit_human_signal E i resp actor expd obo s = (x, s')"
    using signals by (metis surjective_pairing)
  then show ?thesis
  proof (cases rule: submit_cases)
    case (counted t' au c s1 y)
    have "i \<noteq> tk_task_id t"
      using find_task_unique [OF _ counted(2) assms(3)] counted(3) assms(2,4) by (auto simp: gate_ok_def)
    moreover have "human_task_responses s' = human_task_responses s1"
      using close_task_effect [OF counted(9)] by simp
    moreover have "human_task_responses s1 = human_task_responses s
        \<or> (\<exists>row. human_task_responses s1 = human_task_responses s @ [row] \<and> re_task_id row = i)"
      using record_answer_effect [OF counted(8)] signal_authority_Inr [OF counted(6)] by metis
    ultimately show ?thesis
      unfolding task_answers_def by (elim disjE exE conjE) simp_all
  qed simp
qed (use same_answers_operations in \<open>simp_all add: keeps_def same_answers_def task_answers_def\<close>)

subsection \<open>A sample task\<close>

definition sample_spec :: "string \<Rightarrow> string option \<Rightarrow> string option \<Rightarrow> GateTaskSpec" where
  "sample_spec gate run_id fact_key =
     \<lparr>gs_gate = gate, gs_required_inputs = [], gs_eligible_assignees = [(''role'', JStr ''steward'')],
      gs_allowed_responses = [''approve'', ''reject''], gs_run_id = run_id, gs_feature_id = None, gs_quorum_required = 2,
      gs_quorum_of_role = None, gs_delegation_allowed = True, gs_sla = None, gs_fact_key = fact_key, gs_draft_event_id = None,
      gs_target_event_id = None, gs_evidence_ref = None\<rparr>"

definition steward :: "string \<Rightarrow> IdentityEnvelope" where
  "steward who = audit_actor\<lparr>subject := who, role_claims := [''steward'']\<rparr>"

definition opened_db :: "string option \<Rightarrow> string option \<Rightarrow> db" where
  "opened_db run_id fact_key = empty_db\<lparr>human_tasks := [task_row_of ''t1'' (sample_spec ''DATA_STEWARD'' run_id fact_key)]\<rparr>"

definition answer_by :: "string \<Rightarrow> string \<Rightarrow> SignalResult dbprog" where
  "answer_by who resp = submit_human_signal plain_env ''t1'' (JStr resp) (steward who) (JInt 1) None"

lemma opened_ok: "gate_ok (opened_db run_id fact_key)"
  by (simp add: gate_ok_def opened_db_def empty_db_def task_answers_def outcome_ok_def task_row_of_def)

definition agreed_db :: db where
  "agreed_db = snd (answer_by ''user:b'' ''approve'' (snd (answer_by ''user:a'' ''approve'' (opened_db (Some ''r1'') None))))"

lemma agreed_run: "(gate_op plain_env)\<^sup>*\<^sup>* (opened_db (Some ''r1'') None) agreed_db"
  unfolding agreed_db_def answer_by_def
  by (rule converse_rtranclp_into_rtranclp [OF gate_op.signals r_into_rtranclp [of "gate_op plain_env", OF gate_op.signals]])

lemma agreed_eval:
  "map (\<lambda>t. (tk_task_id t, tk_status t)) (human_tasks agreed_db) = [(''t1'', ''answered'')]"
  "map (\<lambda>r. (re_task_id r, re_subject r, re_on_behalf_of r)) (human_task_responses agreed_db) = [(''t1'', ''user:a'', None), (''t1'', ''user:b'', None)]"
  by code_simp+

subsection \<open>Properties\<close>

text \<open>
  C19: what a gate's status means.  After any run of the gate operations, a task that is answered has
  answers of at least \<open>quorum_required\<close> different authorities, all the same and allowed; a task in
  conflict has as many, but they differ; an open task has none or fewer than the quorum.  (A grant in
  the name of the empty subject is left out: \<open>obo or subj\<close> and \<open>coalesce\<close> read it differently.)
\<close>

theorem quorum_decides:
  assumes "(gate_op E)\<^sup>*\<^sup>* s0 s" "gate_ok s0" "t \<in> set (human_tasks s)"
    and "\<forall>r \<in> set (task_answers (tk_task_id t) s). re_on_behalf_of r \<noteq> Some []"
  shows "let answers = set (task_answers (tk_task_id t) s); voters = int (card (response_authority ` answers))
     in (tk_status t = ''answered'' \<longrightarrow> tk_quorum_required t \<le> voters \<and> (\<exists>v \<in> set (tk_allowed_responses t). re_response ` answers = {v}))
      \<and> (tk_status t = ''conflict'' \<longrightarrow> tk_quorum_required t \<le> voters \<and> (\<forall>v. re_response ` answers \<noteq> {v}))
      \<and> (tk_status t = ''open'' \<longrightarrow> answers = {} \<or> voters < tk_quorum_required t)"
proof -
  let ?rows = "task_answers (tk_task_id t) s"
  have ok: "gate_ok s"
    using gate_run_ok [OF assms(1,2)] .
  then have o: "outcome_ok t ?rows"
    using assms(3) by (simp add: gate_ok_def)
  have votes: "snd ` set (authorities ?rows) = re_response ` set ?rows" "length (authorities ?rows) = card (response_authority ` set ?rows)"
    using answers_by_authority [OF ok assms(4)] by (simp_all add: image_image)
  have "re_response r \<in> set (tk_allowed_responses t)" if "r \<in> set ?rows" for r
  proof -
    have "r \<in> set (human_task_responses s)" "re_task_id r = tk_task_id t"
      using that by (simp_all add: task_answers_def)
    then obtain u where "u \<in> set (human_tasks s)" "tk_task_id u = tk_task_id t" "re_response r \<in> set (tk_allowed_responses u)"
      using ok unfolding gate_ok_def by metis
    moreover have "u = t" if "u \<in> set (human_tasks s)" "tk_task_id u = tk_task_id t"
      using that ok assms(3) by (auto simp: gate_ok_def distinct_map dest: inj_onD)
    ultimately show ?thesis by simp
  qed
  then have "re_response ` set ?rows \<subseteq> set (tk_allowed_responses t)"
    by blast
  then show ?thesis
    using o by (auto simp: outcome_ok_def votes Let_def card_1_singleton_iff)
qed

theorem quorum_decides_witness:
  "\<exists>t. human_tasks agreed_db = [t] \<and> (\<exists>v. re_response ` set (task_answers ''t1'' agreed_db) = {v})
     \<and> card (response_authority ` set (task_answers ''t1'' agreed_db)) \<ge> 2"
proof -
  obtain t where t: "human_tasks agreed_db = [t]" "tk_task_id t = ''t1''" "tk_status t = ''answered''"
    using agreed_eval(1) by auto
  have q: "map tk_quorum_required (human_tasks agreed_db) = [2]"
    by code_simp
  have "re_on_behalf_of r = None" if "r \<in> set (human_task_responses agreed_db)" for r
  proof -
    have "(re_task_id r, re_subject r, re_on_behalf_of r) \<in> set (map (\<lambda>r. (re_task_id r, re_subject r, re_on_behalf_of r)) (human_task_responses agreed_db))"
      using that by (metis (mono_tags, lifting) image_eqI list.set_map)
    then show ?thesis unfolding agreed_eval(2) by auto
  qed
  then have "\<forall>r \<in> set (task_answers (tk_task_id t) agreed_db). re_on_behalf_of r \<noteq> Some []"
    by (simp add: task_answers_def)
  from quorum_decides [OF agreed_run opened_ok _ this] t q show ?thesis
    by (auto simp: Let_def)
qed

text \<open>
  C20: a closed gate is final.  Whatever runs afterwards, a task that was answered, in conflict, expired,
  cancelled or superseded keeps its status, its question and exactly its answers.
\<close>

theorem closed_gate_is_final:
  assumes "(gate_op E)\<^sup>*\<^sup>* s s'" "gate_ok s" "t \<in> set (human_tasks s)" "closed_status (tk_status t)"
  shows "\<exists>t' \<in> set (human_tasks s'). frozen t' = frozen t \<and> tk_status t' = tk_status t \<and> tk_task_version t \<le> tk_task_version t'
    \<and> task_answers (tk_task_id t) s' = task_answers (tk_task_id t) s"
  using assms(1)
proof (induction rule: rtranclp_induct)
  case (step u v)
  obtain t' where t': "t' \<in> set (human_tasks u)" "frozen t' = frozen t" "tk_status t' = tk_status t" "tk_task_version t \<le> tk_task_version t'"
    "task_answers (tk_task_id t) u = task_answers (tk_task_id t) s"
    using step.IH by blast
  have ok: "gate_ok u"
    using gate_run_ok [OF step.hyps(1) assms(2)] .
  have "task_history (human_tasks u) (human_tasks v)"
    using gate_op_step [OF step.hyps(2) ok] ok by (simp add: gate_step_def gate_ok_def)
  then obtain w where "w \<in> set (human_tasks v)" "task_step t' w"
    using task_rows.history_mem t'(1) by metis
  moreover have "task_answers (tk_task_id t) v = task_answers (tk_task_id t) u"
    using gate_op_answers [OF step.hyps(2) ok t'(1)] t'(2,3) assms(4) frozen_fields(1) [OF t'(2)] by simp
  ultimately show ?case
    using t' assms(4) by (intro bexI [of _ w]) (simp_all add: task_step_def)
qed (use assms(3) in blast)

theorem closed_gate_is_final_witness:
  "\<exists>t' \<in> set (human_tasks (snd (cancel_task ''t1'' ''cancelled'' agreed_db))). tk_status t' = ''answered''"
proof -
  obtain t where t: "human_tasks agreed_db = [t]" "tk_status t = ''answered''"
    using agreed_eval(1) by auto
  have "(gate_op plain_env)\<^sup>*\<^sup>* agreed_db (snd (cancel_task ''t1'' ''cancelled'' agreed_db))"
    by (rule r_into_rtranclp) (rule gate_op.cancels)
  from closed_gate_is_final [OF this gate_run_ok [OF agreed_run opened_ok], of t] t
  show ?thesis by (auto simp: closed_status_def)
qed

text \<open>
  C21: a counted answer was vetted.  It comes from a valid principal, at the version the task has, with an
  allowed response to a task that is not closed; its authority is the actor, who is eligible, or the
  principal of a recorded grant to the actor; no duty is violated; and the authority had not answered.
  An answer that is not counted changes nothing.
\<close>

theorem counted_answer_vetted:
  assumes "submit_human_signal E i resp actor expd obo s = (Inr r, s')" "gate_ok s"
  shows "(sr_counted r \<longrightarrow> valid_principal actor \<and> (\<exists>t authority. find_task i s = Some t \<and> tk_status t = ''open''
        \<and> is_int expd (tk_task_version t) \<and> resp \<in> JStr ` set (tk_allowed_responses t)
        \<and> (case obo of
             None \<Rightarrow> authority = subject actor \<and> eligible_for t actor
           | Some behalf \<Rightarrow> authority = behalf \<and> behalf \<noteq> subject actor
               \<and> (\<exists>d \<in> set (task_delegations s). de_task_id d = i \<and> de_principal d = behalf \<and> de_delegate d = subject actor))
        \<and> gate_sod_reason (JStr (tk_gate t)) authority (tk_run_id t) s = None
        \<and> authority \<notin> response_authority ` set (task_answers i s)))
    \<and> (\<not> sr_counted r \<longrightarrow> s' = s)"
  using assms(1)
proof (cases rule: submit_cases)
  case (counted t au c s1 y)
  have r: "sr_counted r = c"
    using counted(10) by (auto split: sum.splits)
  have t: "t \<in> set (human_tasks s)" "tk_task_id t = i"
    using find_taskD [OF counted(2)] by simp_all
  have o: "outcome_ok t (task_answers i s)"
    using assms(2) t by (auto simp: gate_ok_def)
  have au: "case obo of None \<Rightarrow> au = subject actor \<and> eligible_for t actor
      | Some behalf \<Rightarrow> au = behalf \<and> behalf \<noteq> subject actor
          \<and> (\<exists>d \<in> set (task_delegations s). de_task_id d = i \<and> de_principal d = behalf \<and> de_delegate d = subject actor)"
    using counted(6) t(2) by (auto simp: signal_authority_def list_ex_iff split: option.splits if_splits)
  have new: "c \<longleftrightarrow> au \<notin> response_authority ` set (task_answers i s)"
    using counted(8) by (auto simp: record_answer_def list_ex_iff andthen_def nextval_def insert_response_def split: if_splits)
  have "s' = s" if nc: "\<not> c"
  proof -
    have s1: "s1 = s" "task_answers i s \<noteq> []"
      using record_answer_effect [OF counted(8)] signal_authority_Inr [OF counted(6)] nc new by auto
    then have "int (length (authorities (task_answers i s))) < tk_quorum_required t"
      using o counted(3) by (auto simp: outcome_ok_def)
    then show ?thesis
      using counted(9) by (simp add: s1 close_task_def Let_def)
  qed
  then show ?thesis
    using r new au counted(1-5,7) o by (auto simp: outcome_ok_def)
qed simp

theorem counted_answer_vetted_witness:
  "\<exists>r s'. answer_by ''user:a'' ''approve'' (opened_db None None) = (Inr r, s') \<and> sr_counted r
     \<and> eligible_for (task_row_of ''t1'' (sample_spec ''DATA_STEWARD'' None None)) (steward ''user:a'')"
proof -
  have e: "fst (answer_by ''user:a'' ''approve'' (opened_db None None)) =
    Inr \<lparr>sr_task_id = ''t1'', sr_status = ''open'', sr_counted = True, sr_quorum_met = False\<rparr>"
    by code_simp
  then obtain r s' where run: "answer_by ''user:a'' ''approve'' (opened_db None None) = (Inr r, s')" "sr_counted r"
    by (cases "answer_by ''user:a'' ''approve'' (opened_db None None)") auto
  have "find_task ''t1'' (opened_db None None) = Some (task_row_of ''t1'' (sample_spec ''DATA_STEWARD'' None None))"
    by code_simp
  with counted_answer_vetted [OF run(1) [unfolded answer_by_def] opened_ok] run show ?thesis
    by auto
qed

definition principal_of :: "IdentityEnvelope \<Rightarrow> string option \<Rightarrow> string" where
  "principal_of actor obo = (case obo of None \<Rightarrow> subject actor | Some behalf \<Rightarrow> behalf)"

text \<open>
  C18: four eyes and three parties at the final gate.  Whenever an answer to a final-approval task of a run
  is counted - the gate and the run are those of the task, whatever the caller named - the authority it is
  counted for (the actor, or the principal a delegate acts for) is not the author of the run and did not
  answer the run's independent validation; so the three are disjoint whenever the author did not validate.
  It says nothing of the person who acts for a principal: see \<open>author_answers_as_delegate\<close>.
\<close>

theorem final_approval_three_party:
  assumes "submit_human_signal E i resp actor expd obo s = (Inr r, s')" "sr_counted r"
    and "find_task i s = Some t" "tk_gate t = ''FINAL_APPROVAL''" "tk_run_id t = Some run_id" "run_id \<noteq> []"
    and "resolve_run_author run_id s = Some author"
  shows "let authority = principal_of actor obo; validators = gather_gate_responders ''INDEPENDENT_VALIDATION'' (Some run_id) None s
    in author \<noteq> authority \<and> authority \<notin> validators
       \<and> (author \<notin> validators \<longrightarrow> three_party_disjoint author validators authority)"
  using assms(1)
proof (cases rule: submit_cases)
  case (counted t' au c s1 y)
  have "au = principal_of actor obo"
    using counted(6) by (auto simp: signal_authority_def principal_of_def list_ex_iff split: option.splits if_splits)
  then have "gate_sod_reason (JStr ''FINAL_APPROVAL'') (principal_of actor obo) (Some run_id) s = None"
    using counted(2,7) assms(3-5) by simp
  then show ?thesis
    using final_approval_reason assms(6,7) by (auto simp: three_party_disjoint_def Let_def)
qed (use assms(2) in simp)

text \<open>A run by \<open>user:ann\<close>, validated by \<open>user:val\<close>, at its final gate, with a grant of \<open>user:a\<close> to \<open>user:ann\<close>.\<close>

definition final_db :: db where
  "final_db = empty_db\<lparr>events := [run_started],
     human_tasks := [task_row_of ''t0'' (sample_spec ''INDEPENDENT_VALIDATION'' (Some ''run_1'') None),
       task_row_of ''t1'' (sample_spec ''FINAL_APPROVAL'' (Some ''run_1'') None)],
     human_task_responses := [\<lparr>re_task_id = ''t0'', re_subject = ''user:val'', re_response = ''approve'', re_on_behalf_of = None, re_answered_seq = 1\<rparr>],
     task_delegations := [\<lparr>de_task_id = ''t1'', de_principal = ''user:a'', de_delegate = ''user:ann'', de_granted_by = ''user:a''\<rparr>]\<rparr>"

lemma final_db_eval:
  "resolve_run_author ''run_1'' final_db = Some ''user:ann''"
  "gather_gate_responders ''INDEPENDENT_VALIDATION'' (Some ''run_1'') None final_db = {''user:val''}"
  "find_task ''t1'' final_db = Some (task_row_of ''t1'' (sample_spec ''FINAL_APPROVAL'' (Some ''run_1'') None))"
  "fst (answer_by ''user:a'' ''approve'' final_db) =
     Inr \<lparr>sr_task_id = ''t1'', sr_status = ''open'', sr_counted = True, sr_quorum_met = False\<rparr>"
  by code_simp+

theorem final_approval_three_party_witness:
  "\<exists>r s'. answer_by ''user:a'' ''approve'' final_db = (Inr r, s') \<and> sr_counted r
     \<and> three_party_disjoint ''user:ann'' {''user:val''} ''user:a''"
proof -
  obtain r s' where run: "answer_by ''user:a'' ''approve'' final_db = (Inr r, s')" "sr_counted r"
    using final_db_eval(4) by (cases "answer_by ''user:a'' ''approve'' final_db") auto
  have "three_party_disjoint ''user:ann'' {''user:val''} ''user:a''"
    using final_approval_three_party [OF run(1) [unfolded answer_by_def] run(2) final_db_eval(3) _ _ _ final_db_eval(1)]
    by (simp add: Let_def final_db_eval(2) principal_of_def steward_def task_row_of_def sample_spec_def)
  with run show ?thesis
    by blast
qed

subsection \<open>Findings\<close>

text \<open>
  The duties of the final gate are checked for the principal only.  The author of a run may answer its
  final-approval task as the delegate of somebody else: \<open>submit_human_signal\<close> never looks at the acting
  person, and the authorizer, which does, looks at the gate the caller names, which nothing compares with
  the gate of the task.
\<close>

lemma author_answers_as_delegate:
  "map_sum (\<lambda>_. ()) sr_counted (fst (submit_human_signal plain_env ''t1'' (JStr ''approve'') ((steward ''user:ann'')\<lparr>role_claims := [''data_scientist'']\<rparr>) (JInt 1)
       (Some ''user:a'') final_db))
     = Inr True"
  "authorize_command \<lparr>cm_action = ''submit_human_signal'', cm_aggregate = ''run'', cm_aggregate_id = Some ''run_1'',
       cm_args = [(''gate'', JStr ''CLARIFICATION''), (''task_id'', JStr ''t1''), (''on_behalf_of'', JStr ''user:a'')],
       cm_actor = (steward ''user:ann'')\<lparr>role_claims := [''data_scientist'']\<rparr>, cm_idempotency_key = ''k'', cm_expected_version = None\<rparr>
     (seeded final_db) = (Inr permit, seeded final_db)"
  by code_simp+


text \<open>
  A task on an overlay fact alone (no run, no feature) can never end in conflict: the branch that would
  close it computes the aggregate of the escalation timer without the fact key, the timer's aggregate id
  is null and the insert raises, so the differing answer is rolled back by the caller.
\<close>

theorem fact_task_never_conflicts:
  assumes "submit_human_signal E i resp actor expd obo s = (Inr r, s')" "find_task i s = Some t"
    and "tk_run_id t = None" "tk_feature_id t = None" "tk_status t = ''open''"
  shows "sr_status r \<noteq> ''conflict''"
  using assms(1)
proof (cases rule: submit_cases)
  case unchanged
  then show ?thesis
    using assms by (auto simp: submit_human_signal_def andthen_eq_Inr closed_status_def record_answer_def close_task_def Let_def
        task_aggregate_def str_or_def non_null_def split: if_splits option.splits prod.splits)
next
  case (counted t' au c s1 y)
  then show ?thesis
    using assms by (auto simp: close_task_def Let_def andthen_eq_Inr task_aggregate_def str_or_def non_null_def
        split: sum.splits if_splits)
qed

lemma fact_task_conflict_raises:
  assumes "tk_run_id t = None" "tk_feature_id t = None" "tk_quorum_required t \<le> int (length votes)" "card (snd ` set votes) \<noteq> 1"
  shows "fst (close_task E t votes s) = Inl NotNullViolation"
  using assms
  by (simp add: close_task_def Let_def andthen_def update_task_def cancel_timers_def task_aggregate_def str_or_def non_null_def mint_id_def)

text \<open>
  A delegate who answered for one principal and now answers for another is told that the answer counted,
  while the row is dropped: the table keys answers by task and acting subject, the code's own check by
  authority.
\<close>

theorem second_principal_dropped:
  assumes "record_answer i actor resp (Some other) other s = (x, s')"
    and "subject actor \<in> re_subject ` set (task_answers i s)" "other \<notin> response_authority ` set (task_answers i s)"
  shows "x = Inr True \<and> human_task_responses s' = human_task_responses s"
  using assms
  by (auto simp: record_answer_def list_ex_iff andthen_def nextval_def insert_response_def task_answers_def image_iff split: if_splits)

definition delegated_db :: db where
  "delegated_db = opened_db None None\<lparr>task_delegations :=
     [\<lparr>de_task_id = ''t1'', de_principal = ''user:p'', de_delegate = ''user:d'', de_granted_by = ''user:p''\<rparr>,
      \<lparr>de_task_id = ''t1'', de_principal = ''user:q'', de_delegate = ''user:d'', de_granted_by = ''user:q''\<rparr>]\<rparr>"

definition answer_for :: "string \<Rightarrow> SignalResult dbprog" where
  "answer_for who = submit_human_signal plain_env ''t1'' (JStr ''approve'') (steward ''user:d'') (JInt 1) (Some who)"

lemma second_principal_dropped_run:
  "fst (answer_for ''user:q'' (snd (answer_for ''user:p'' delegated_db))) =
     Inr \<lparr>sr_task_id = ''t1'', sr_status = ''open'', sr_counted = True, sr_quorum_met = False\<rparr>"
  "map re_on_behalf_of (human_task_responses (snd (answer_for ''user:q'' (snd (answer_for ''user:p'' delegated_db))))) = [Some ''user:p'']"
  by code_simp+

end
