(* ===== verification/Timers.thy ===== *)
theory Timers
  imports Queue Gates Datetime
begin

text \<open>
  Durable timers: \<open>runtime/business_calendar.py\<close> (durations, business days) and \<open>runtime/timers.py\<close>
  (scheduling, the escalation ladder, polling, firing, cancelling).  Instants are UTC microseconds;
  an instant past the year 9999 is \<open>OverflowError\<close>, which also ends the walk over business days in a
  calendar that has none.  The relation \<open>timer_op\<close> collects the operations on the table; a timer that
  fired or was cancelled keeps that status (\<open>tm_step\<close>).
\<close>

subsection \<open>Durations\<close>

definition parse_spec :: "string \<Rightarrow> exn + (int \<times> char)" where
  "parse_spec text =
     (let spec = map lower_char (strip text)
      in if length spec < 2 then Inl ValueError
         else if last spec \<notin> set ''dhms'' then Inl ValueError
         else chain (py_int (JStr (butlast spec))) (\<lambda>amount.
           if amount < 0 then Inl ValueError else Inr (amount, last spec)))"

definition WALL_CLOCK_SECONDS :: "(char \<times> int) list" where
  "WALL_CLOCK_SECONDS = [(CHR ''h'', 3600), (CHR ''m'', 60), (CHR ''s'', 1)]"

definition MAX_TIME :: int where
  "MAX_TIME = 253402300799999999"

definition later :: "int \<Rightarrow> int \<Rightarrow> exn + int" where
  "later t delta = (if t + delta > MAX_TIME then Inl OverflowError else Inr (t + delta))"

record Calendar =
  cal_workdays :: "int list"
  cal_holidays :: "int list"

definition load_calendar :: "string \<Rightarrow> db \<Rightarrow> exn + Calendar" where
  "load_calendar name s = (case find (\<lambda>r. bc_calendar_name r = name) (business_calendars s) of
     None \<Rightarrow> Inl KeyError
   | Some r \<Rightarrow> Inr \<lparr>cal_workdays = bc_workdays r, cal_holidays = bc_holidays r\<rparr>)"

definition business_day :: "Calendar \<Rightarrow> int \<Rightarrow> bool" where
  "business_day cal t \<longleftrightarrow> isoweekday t \<in> set (cal_workdays cal) \<and> day_of t \<notin> set (cal_holidays cal)"

text \<open>The loop ends at the latest with the calendar: each round is a day later.\<close>

function add_business_days :: "Calendar \<Rightarrow> int \<Rightarrow> int \<Rightarrow> exn + int" where
  "add_business_days cal cursor remaining =
     (if remaining \<le> 0 then Inr cursor
      else if cursor + usec_per_day > MAX_TIME then Inl OverflowError
      else add_business_days cal (cursor + usec_per_day)
        (if business_day cal (cursor + usec_per_day) then remaining - 1 else remaining))"
  by pat_completeness auto
termination
  by (relation "measure (\<lambda>(cal, cursor, remaining). nat (MAX_TIME - cursor))") (auto simp: usec_per_day_def)

declare add_business_days.simps [simp del]

definition resolve_business_deadline :: "string option \<Rightarrow> int \<Rightarrow> string \<Rightarrow> int dbprog" where
  "resolve_business_deadline calendar_name start spec =
     andthen (lift (parse_spec spec)) (\<lambda>(amount, unit).
     case map_of WALL_CLOCK_SECONDS unit of
       Some seconds \<Rightarrow> lift (later start (amount * seconds * MICROS))
     | None \<Rightarrow>
         (case calendar_name of
            None \<Rightarrow> lift (later start (amount * usec_per_day))
          | Some name \<Rightarrow>
              andthen (query (load_calendar name)) (\<lambda>loaded.
              andthen (lift loaded) (\<lambda>cal.
              lift (add_business_days cal start amount)))))"

subsection \<open>Scheduling\<close>

definition schedule_timer :: "env \<Rightarrow> string \<Rightarrow> string \<Rightarrow> NewTimer \<Rightarrow> string dbprog" where
  "schedule_timer E agg aid timer =
     andthen (new_id E ''tmr'') (\<lambda>timer_id.
     andthen (insert_timer \<lparr>tm_timer_id = timer_id, tm_idempotency_key = nt_idempotency_key timer, tm_aggregate = agg,
       tm_aggregate_id = aid, tm_task_id = nt_task_id timer, tm_kind = nt_kind timer, tm_fire_at = nt_fire_at timer,
       tm_business_calendar = nt_business_calendar timer, tm_status = ''scheduled'', tm_lease_owner = None,
       tm_lease_expires_at = None, tm_cas_task_version = nt_cas_task_version timer, tm_payload = nt_payload timer\<rparr>) (\<lambda>inserted.
     if inserted then ret timer_id
     else
       andthen (query (\<lambda>s. find (\<lambda>r. tm_idempotency_key r = nt_idempotency_key timer) (timers s))) (\<lambda>row.
       case row of None \<Rightarrow> throw TypeError | Some r \<Rightarrow> ret (tm_timer_id r))))"

definition rung :: "string \<Rightarrow> int \<Rightarrow> string option \<Rightarrow> string \<Rightarrow> int \<Rightarrow> NewTimer" where
  "rung task_id task_version business_calendar kind fire_at =
     \<lparr>nt_kind = kind, nt_fire_at = fire_at,
      nt_idempotency_key = ''ladder:'' @ task_id @ '':v'' @ int_text task_version @ '':'' @ kind,
      nt_task_id = Some task_id, nt_business_calendar = business_calendar, nt_cas_task_version = Some task_version,
      nt_payload = [(''gate_task_id'', JStr task_id), (''rung'', JStr kind)]\<rparr>"

definition build_escalation_ladder ::
  "string \<Rightarrow> int \<Rightarrow> int \<Rightarrow> string \<Rightarrow> string \<Rightarrow> string \<Rightarrow> string option \<Rightarrow> NewTimer list dbprog" where
  "build_escalation_ladder task_id task_version opened_at sla reminder escalation business_calendar =
     andthen (resolve_business_deadline business_calendar opened_at sla) (\<lambda>sla_at.
     andthen (resolve_business_deadline business_calendar opened_at reminder) (\<lambda>reminder_at.
     andthen (resolve_business_deadline business_calendar sla_at escalation) (\<lambda>escalation_at.
     andthen (resolve_business_deadline business_calendar escalation_at escalation) (\<lambda>park_at.
     ret (map (\<lambda>(kind, fire_at). rung task_id task_version business_calendar kind fire_at)
       [(''reminder'', reminder_at), (''sla'', sla_at), (''escalation'', escalation_at), (''auto_park'', park_at)])))))"

subsection \<open>Polling and firing\<close>

definition is_due :: "int \<Rightarrow> timer_row \<Rightarrow> bool" where
  "is_due now r \<longleftrightarrow> tm_kind r \<noteq> ''overlay_expiry'' \<and>
     (tm_status r = ''scheduled'' \<and> tm_fire_at r \<le> now
      \<or> tm_status r = ''leased'' \<and> (case tm_lease_expires_at r of None \<Rightarrow> False | Some t \<Rightarrow> t < now))"

definition update_timers :: "(timer_row \<Rightarrow> bool) \<Rightarrow> (timer_row \<Rightarrow> timer_row) \<Rightarrow> int dbprog" where
  "update_timers p f = (\<lambda>s. (Inr (int (length (filter p (timers s)))),
     s\<lparr>timers := map (\<lambda>r. if p r then f r else r) (timers s)\<rparr>))"

definition poll_due_timers :: "string \<Rightarrow> int \<Rightarrow> nat \<Rightarrow> int \<Rightarrow> string list dbprog" where
  "poll_due_timers owner lease_seconds batch now =
     andthen (query (\<lambda>s. map tm_timer_id (take batch (sort_key tm_fire_at (filter (is_due now) (timers s)))))) (\<lambda>due.
     andthen (update_timers (\<lambda>r. tm_timer_id r \<in> set due)
       (\<lambda>r. r\<lparr>tm_status := ''leased'', tm_lease_owner := Some owner, tm_lease_expires_at := Some (now + lease_seconds * MICROS)\<rparr>)) (\<lambda>_.
     query (\<lambda>s. map tm_timer_id (filter (\<lambda>r. tm_timer_id r \<in> set due) (timers s)))))"

definition default_task_version :: "string \<Rightarrow> int option dbprog" where
  "default_task_version task_id = query (\<lambda>s.
     map_option tk_task_version (find (\<lambda>t. tk_task_id t = task_id \<and> tk_status t = ''open'') (human_tasks s)))"

record TimerFireOutcome =
  tf_timer_id :: string
  tf_fired :: bool
  tf_suppressed_reason :: "string option"

definition fire_payload :: "timer_row \<Rightarrow> dict" where
  "fire_payload r =
     (let base = [(''timer_id'', JStr (tm_timer_id r)), (''kind'', JStr (tm_kind r)),
                  (''task_id'', (case tm_task_id r of None \<Rightarrow> JNull | Some i \<Rightarrow> JStr i))]
      in filter (\<lambda>(k, v). k \<notin> set (map fst base)) (tm_payload r) @ base)"

definition suppress :: "string \<Rightarrow> string \<Rightarrow> TimerFireOutcome" where
  "suppress timer_id why = \<lparr>tf_timer_id = timer_id, tf_fired = False, tf_suppressed_reason = Some why\<rparr>"

definition void_timer :: "string \<Rightarrow> string \<Rightarrow> TimerFireOutcome dbprog" where
  "void_timer timer_id why =
     andthen (update_timers (\<lambda>r. tm_timer_id r = timer_id) (\<lambda>r. r\<lparr>tm_status := ''cancelled''\<rparr>)) (\<lambda>_.
     ret (suppress timer_id why))"

definition apply_timer :: "timer_row \<Rightarrow> TimerFireOutcome dbprog" where
  "apply_timer r =
     (let handler = (if tm_kind r = ''auto_park'' then ''runtime.auto_park'' else ''timer.'' @ tm_kind r)
      in andthen (insert_queue (tm_idempotency_key r) (tm_aggregate r @ '':'' @ tm_aggregate_id r) handler (fire_payload r)) (\<lambda>_.
         andthen (update_timers (\<lambda>x. tm_timer_id x = tm_timer_id r) (\<lambda>x. x\<lparr>tm_status := ''fired''\<rparr>)) (\<lambda>_.
         ret \<lparr>tf_timer_id = tm_timer_id r, tf_fired = True, tf_suppressed_reason = None\<rparr>)))"

definition fire_timer :: "(string \<Rightarrow> int option dbprog) \<Rightarrow> string \<Rightarrow> TimerFireOutcome dbprog" where
  "fire_timer resolve_task_version timer_id =
     andthen (query (\<lambda>s. find (\<lambda>r. tm_timer_id r = timer_id) (timers s))) (\<lambda>row.
     case row of None \<Rightarrow> ret (suppress timer_id ''not_found'')
     | Some r \<Rightarrow>
         if tm_kind r = ''overlay_expiry'' then ret (suppress timer_id ''overlay_expiry'')
         else if tm_status r = ''fired'' then ret (suppress timer_id ''already_fired'')
         else if tm_status r = ''cancelled'' then ret (suppress timer_id ''task_closed'')
         else
           (case (tm_task_id r, tm_cas_task_version r) of
              (Some task_id, Some cas_version) \<Rightarrow>
                andthen (resolve_task_version task_id) (\<lambda>current.
                case current of
                  None \<Rightarrow> void_timer timer_id ''task_closed''
                | Some v \<Rightarrow> if v \<noteq> cas_version then void_timer timer_id ''cas_mismatch'' else apply_timer r)
            | _ \<Rightarrow> apply_timer r))"

definition cancel_timers_for_task :: "string \<Rightarrow> int dbprog" where
  "cancel_timers_for_task task_id =
     update_timers (\<lambda>r. tm_task_id r = Some task_id \<and> tm_status r \<in> {''scheduled'', ''leased''}) (\<lambda>r. r\<lparr>tm_status := ''cancelled''\<rparr>)"


subsection \<open>Business deadlines\<close>

lemma card_from_one: "card {i \<in> {1..Suc k}. P i} = (if P 1 then 1 else 0) + card {i \<in> {1..k}. P (Suc i)}"
proof -
  have "{i \<in> {1..Suc k}. P i} = (if P 1 then {1} else {}) \<union> Suc ` {i \<in> {1..k}. P (Suc i)}"
  proof (rule set_eqI)
    fix x
    show "x \<in> {i \<in> {1..Suc k}. P i} \<longleftrightarrow> x \<in> (if P 1 then {1} else {}) \<union> Suc ` {i \<in> {1..k}. P (Suc i)}"
      by (cases "x = 1"; cases x) (auto simp: image_iff not_less_eq_eq Suc_le_eq)
  qed
  then have "card {i \<in> {1..Suc k}. P i} = card ((if P 1 then {1} else {}) \<union> Suc ` {i \<in> {1..k}. P (Suc i)})"
    by (rule arg_cong)
  also have "... = card (if P 1 then {1 :: nat} else {}) + card (Suc ` {i \<in> {1..k}. P (Suc i)})"
    by (rule card_Un_disjoint) auto
  finally show ?thesis
    by (simp add: card_image)
qed

lemma business_day_walk:
  "add_business_days cal start n = Inr d \<Longrightarrow> 0 \<le> n \<Longrightarrow>
     \<exists>k. d = start + int k * usec_per_day \<and> int (card {i \<in> {1..k}. business_day cal (start + int i * usec_per_day)}) = n
       \<and> (if n = 0 then k = 0 else 0 < k \<and> business_day cal d)"
proof (induction cal start n rule: add_business_days.induct)
  case (1 cal start n)
  show ?case
  proof (cases "n \<le> 0")
    case True
    then show ?thesis
      using "1.prems" by (intro exI [of _ 0]) (simp add: add_business_days.simps [of cal start 0])
  next
    case False
    let ?next = "start + usec_per_day"
    have step: "\<not> ?next > MAX_TIME" "add_business_days cal ?next (if business_day cal ?next then n - 1 else n) = Inr d"
      using "1.prems"(1) False by (simp_all add: add_business_days.simps [of cal start n] split: if_splits)
    have "0 \<le> (if business_day cal ?next then n - 1 else n)"
      using False by simp
    from "1.IH" [OF False step this] obtain k where k: "d = ?next + int k * usec_per_day"
      "int (card {i \<in> {1..k}. business_day cal (?next + int i * usec_per_day)}) = (if business_day cal ?next then n - 1 else n)"
      "if (if business_day cal ?next then n - 1 else n) = 0 then k = 0 else 0 < k \<and> business_day cal d"
      by blast
    let ?days = "\<lambda>m. {i \<in> {1..m}. business_day cal (start + int i * usec_per_day)}"
    have "int (card (?days (Suc k))) = n"
      using k(2) card_from_one [of k "\<lambda>i. business_day cal (start + int i * usec_per_day)"] by (simp add: algebra_simps)
    moreover have "business_day cal d"
      using k False by (cases "business_day cal ?next \<and> n = 1") (auto split: if_splits)
    ultimately show ?thesis
      using k(1) False by (intro exI [of _ "Suc k"]) (simp add: algebra_simps)
  qed
qed


text \<open>A deadline of \<open>n\<close> business days against a named calendar is exactly the \<open>n\<close>-th business day after
  the start: it lies a whole number of days later, \<open>n\<close> of the days up to it are working days of the
  calendar that are no holidays, and it is one of them.  The walk always ends, if need be in
  \<open>OverflowError\<close>.\<close>

theorem business_deadline_counts:
  assumes "resolve_business_deadline (Some name) start spec s = (Inr deadline, s')"
    and "parse_spec spec = Inr (n, CHR ''d'')" "load_calendar name s = Inr cal"
  shows "\<exists>k. deadline = start + int k * usec_per_day
    \<and> int (card {i \<in> {1..k}. business_day cal (start + int i * usec_per_day)}) = n
    \<and> (if n = 0 then k = 0 else 0 < k \<and> business_day cal deadline)"
proof (rule business_day_walk)
  show "add_business_days cal start n = Inr deadline"
    using assms by (simp add: resolve_business_deadline_def WALL_CLOCK_SECONDS_def)
  show "0 \<le> n"
    using assms(2) by (auto simp: parse_spec_def Let_def chain_eq_Inr split: if_splits)
qed

text \<open>Two business days from Friday the 2nd of January 1970, with Monday a holiday: Wednesday the 7th.\<close>

definition calendar_db :: db where
  "calendar_db = empty_db\<lparr>business_calendars := [\<lparr>bc_calendar_name = ''uk'', bc_workdays = [1, 2, 3, 4, 5], bc_holidays = [4]\<rparr>]\<rparr>"

lemma business_deadline_counts_witness:
  "\<exists>k. 6 * usec_per_day = usec_per_day + int k * usec_per_day
    \<and> card {i \<in> {1..k}. business_day \<lparr>cal_workdays = [1, 2, 3, 4, 5], cal_holidays = [4]\<rparr> (usec_per_day + int i * usec_per_day)} = 2"
proof -
  let ?cal = "\<lparr>cal_workdays = [1, 2, 3, 4, 5], cal_holidays = [4]\<rparr>"
  have p: "parse_spec ''2d'' = Inr (2, CHR ''d'')" "load_calendar ''uk'' calendar_db = Inr ?cal"
    by (simp_all add: parse_spec_def strip_def is_space_char_def lower_char_def Prelude.is_blank_def load_calendar_def calendar_db_def)
  then have "resolve_business_deadline (Some ''uk'') usec_per_day ''2d'' calendar_db = (Inr (6 * usec_per_day), calendar_db)"
    by (simp add: resolve_business_deadline_def WALL_CLOCK_SECONDS_def add_business_days.simps business_day_def
        isoweekday_def day_of_def usec_per_day_def MAX_TIME_def)
  from business_deadline_counts [OF this p] show ?thesis
    by auto
qed

subsection \<open>The ladder\<close>

lemma later_Inr: "later t d = Inr u \<longleftrightarrow> u = t + d \<and> t + d \<le> MAX_TIME"
  by (auto simp: later_def)

lemma deadline_not_before:
  assumes "resolve_business_deadline calendar start spec s = (Inr t, s')"
  shows "start \<le> t" "s' = s"
proof -
  obtain n u where p: "parse_spec spec = Inr (n, u)" "0 \<le> n"
    using assms by (cases "parse_spec spec") (auto simp: resolve_business_deadline_def parse_spec_def Let_def chain_eq_Inr split: if_splits)
  have w: "start \<le> t" if "add_business_days cal start n = Inr t" for cal
    using business_day_walk [OF that p(2)] by (auto simp: usec_per_day_def)
  show "start \<le> t" "s' = s"
    using assms p w by (auto simp: resolve_business_deadline_def WALL_CLOCK_SECONDS_def later_Inr MICROS_def usec_per_day_def
        andthen_eq_Inr split: option.splits if_splits sum.splits)
qed

lemma ladder_times:
  assumes "build_escalation_ladder task_id v opened_at sla reminder escalation calendar s = (Inr ts, s')"
  obtains r a e p where "map nt_fire_at ts = [r, a, e, p]" "opened_at \<le> r" "opened_at \<le> a" "a \<le> e" "e \<le> p" "s' = s"
proof -
  let ?at = "resolve_business_deadline calendar"
  obtain a s1 r s2 e s3 p where t: "?at opened_at sla s = (Inr a, s1)" "?at opened_at reminder s1 = (Inr r, s2)"
    "?at a escalation s2 = (Inr e, s3)" "?at e escalation s3 = (Inr p, s')" "map nt_fire_at ts = [r, a, e, p]"
    using assms by (auto simp: build_escalation_ladder_def andthen_eq_Inr rung_def)
  show thesis
    by (rule that [OF t(5)]) (use t(1-4) [THEN deadline_not_before(1)] t(1-4) [THEN deadline_not_before(2)] in simp_all)
qed

text \<open>The rungs come in the order of their names; nothing checks that the reminder is due before the deadline.\<close>

theorem ladder_out_of_order:
  "\<exists>ts. fst (build_escalation_ladder ''t'' 1 0 ''4h'' ''2d'' ''1h'' None empty_db) = Inr ts \<and> \<not> sorted (map nt_fire_at ts)"
  by (simp add: build_escalation_ladder_def resolve_business_deadline_def WALL_CLOCK_SECONDS_def rung_def later_def MAX_TIME_def
      MICROS_def usec_per_day_def parse_spec_def strip_def is_space_char_def lower_char_def Prelude.is_blank_def andthen_def)


subsection \<open>Runs of the timers\<close>

definition tm_final :: "timer_row \<Rightarrow> bool" where
  "tm_final r \<longleftrightarrow> tm_status r \<in> {''fired'', ''cancelled''}"

definition tm_core :: "timer_row \<Rightarrow> timer_row" where
  "tm_core r = r\<lparr>tm_status := [], tm_lease_owner := None, tm_lease_expires_at := None\<rparr>"

definition tm_step :: "timer_row \<Rightarrow> timer_row \<Rightarrow> bool" where
  "tm_step r r' \<longleftrightarrow> tm_core r' = tm_core r \<and> (tm_final r \<longrightarrow> tm_status r' = tm_status r)"

definition timers_step :: "db \<Rightarrow> db \<Rightarrow> bool" where
  "timers_step s s' \<longleftrightarrow> (distinct (map tm_timer_id (timers s)) \<longrightarrow>
     distinct (map tm_timer_id (timers s')) \<and> history tm_step (timers s) (timers s'))"

lemma tm_step_refl: "tm_step r r"
  by (simp add: tm_step_def)

interpretation timer_rows: row_rel tm_step
  by unfold_locales (auto simp: tm_step_def tm_final_def)

interpretation timer_history: state_rel timers_step
  by unfold_locales (auto simp: timers_step_def timer_rows.history_refl intro: timer_rows.history_trans)

lemma tm_core_fields:
  assumes "tm_core r' = tm_core r"
  shows "tm_timer_id r' = tm_timer_id r" "tm_task_id r' = tm_task_id r" "tm_cas_task_version r' = tm_cas_task_version r" "tm_kind r' = tm_kind r"
  using assms [THEN arg_cong, of tm_timer_id] assms [THEN arg_cong, of tm_task_id]
    assms [THEN arg_cong, of tm_cas_task_version] assms [THEN arg_cong, of tm_kind]
  by (simp_all add: tm_core_def)

lemma timers_step_frame: "timers s' = timers s \<Longrightarrow> timers_step s s'"
  by (simp add: timers_step_def timer_rows.history_refl)

lemma timers_step_map:
  assumes "\<And>r. distinct (map tm_timer_id (timers s)) \<Longrightarrow> r \<in> set (timers s) \<Longrightarrow> tm_step r (g r)" "timers s' = map g (timers s)"
  shows "timers_step s s'"
  unfolding timers_step_def
proof (intro impI conjI)
  assume d: "distinct (map tm_timer_id (timers s))"
  have "tm_timer_id (g r) = tm_timer_id r" if "r \<in> set (timers s)" for r
    using assms(1) [OF d that] tm_core_fields(1) [of "g r" r] by (simp add: tm_step_def)
  then have "map tm_timer_id (map g (timers s)) = map tm_timer_id (timers s)"
    unfolding map_map by (intro map_cong) auto
  with d show "distinct (map tm_timer_id (timers s'))"
    by (simp add: assms(2) del: map_map)
  show "history tm_step (timers s) (timers s')"
    unfolding assms(2) by (rule timer_rows.history_map) (rule assms(1) [OF d])
qed

lemma keeps_update_timers:
  assumes "\<And>r. p r \<Longrightarrow> tm_step r (f r)"
  shows "keeps timers_step (update_timers p f)"
  by (rule keepsI, rule timers_step_map [where g = "\<lambda>r. if p r then f r else r"])
     (use assms in \<open>auto simp: update_timers_def tm_step_refl\<close>)

lemma keeps_insert_timer: "keeps timers_step (insert_timer row)" "keeps timers_step (insert_timer_strict row)"
  by (rule keepsI, auto simp: insert_timer_def insert_timer_strict_def timers_step_def timer_rows.history_refl intro: timer_rows.history_append)+

lemma timers_keep_new_id: "keeps timers_step (new_id E p)"
  by (rule keepsI) (simp add: new_id_def timers_step_frame)

lemma keeps_insert_queue: "keeps timers_step (insert_queue m p h d)"
proof (rule keepsI)
  fix s
  obtain n q where "snd (insert_queue m p h d s) = s\<lparr>queue_seq := n, queue := q\<rparr>"
    using insert_queue_state by blast
  then show "timers_step s (snd (insert_queue m p h d s))"
    by (simp add: timers_step_frame)
qed

lemma keeps_schedule: "keeps timers_step (schedule_timer E agg aid t)"
  unfolding schedule_timer_def by (intro timer_history.keeps_rules timers_keep_new_id keeps_insert_timer)

lemma timers_step_poll: "timers_step s (snd (poll_due_timers owner lease batch now s))"
proof -
  let ?rows = "take batch (sort_key tm_fire_at (filter (is_due now) (timers s)))"
  let ?g = "\<lambda>r. if tm_timer_id r \<in> set (map tm_timer_id ?rows) then r\<lparr>tm_status := ''leased'', tm_lease_owner := Some owner,
      tm_lease_expires_at := Some (now + lease * MICROS)\<rparr> else r"
  have poll: "timers (snd (poll_due_timers owner lease batch now s)) = map ?g (timers s)"
    unfolding poll_due_timers_def update_timers_def by simp (simp add: andthen_def)
  have due: "is_due now r" if d: "distinct (map tm_timer_id (timers s))" "r \<in> set (timers s)" and i: "tm_timer_id r \<in> set (map tm_timer_id ?rows)" for r
  proof -
    obtain r' where "r' \<in> set ?rows" "tm_timer_id r' = tm_timer_id r"
      using i by auto
    moreover from this have "r' \<in> set (timers s)" "is_due now r'"
      by (auto dest!: in_set_takeD)
    ultimately show ?thesis
      using distinct_keyD [OF d, of r'] by simp
  qed
  have "tm_step r (?g r)" if d: "distinct (map tm_timer_id (timers s))" "r \<in> set (timers s)" for r
    using due [OF d] by (cases "tm_timer_id r \<in> set (map tm_timer_id ?rows)") (auto simp: tm_step_def tm_core_def tm_final_def is_due_def)
  then show ?thesis
    using poll by (rule timers_step_map)
qed

lemma timers_step_update_one:
  assumes "find (\<lambda>r. tm_timer_id r = i) (timers s) = Some r" "tm_step r (f r)"
  shows "timers_step s (snd (update_timers (\<lambda>x. tm_timer_id x = i) f s))"
  using assms find_key_mem [OF assms(1)]
  by (intro timers_step_map [of s "\<lambda>x. if tm_timer_id x = i then f x else x"])
     (auto simp: update_timers_def tm_step_refl dest: distinct_keyD)

lemma apply_timer_timers:
  "timers (snd (apply_timer r s)) = map (\<lambda>x. if tm_timer_id x = tm_timer_id r then x\<lparr>tm_status := ''fired''\<rparr> else x) (timers s)"
  "fst (apply_timer r s) = Inr \<lparr>tf_timer_id = tm_timer_id r, tf_fired = True, tf_suppressed_reason = None\<rparr>"
  by (auto simp: apply_timer_def andthen_def update_timers_def insert_queue_def Let_def)

lemma timers_step_fire: "timers_step s (snd (fire_timer default_task_version i s))"
proof (cases "find (\<lambda>r. tm_timer_id r = i) (timers s)")
  case (Some r)
  show ?thesis
  proof (cases "tm_final r")
    case True
    then show ?thesis
      using Some by (auto simp: fire_timer_def tm_final_def timer_history.rel_refl)
  next
    case False
    have i: "tm_timer_id r = i"
      using find_key_mem [OF Some] by simp
    have void: "timers_step s (snd (void_timer i why s))" for why
      using timers_step_update_one [OF Some, of "\<lambda>r. r\<lparr>tm_status := ''cancelled''\<rparr>"] False
      by (simp add: void_timer_def andthen_def update_timers_def tm_step_def tm_core_def)
    have "timers_step s (snd (apply_timer r s))"
      using timers_step_update_one [OF Some, of "\<lambda>r. r\<lparr>tm_status := ''fired''\<rparr>"] False i
      by (simp add: apply_timer_timers timers_step_def update_timers_def tm_step_def tm_core_def)
    then show ?thesis
      using Some void by (auto simp: fire_timer_def default_task_version_def timer_history.rel_refl split: option.splits)
  qed
qed (simp add: fire_timer_def timer_history.rel_refl)

lemma keeps_timer_cancel: "keeps timers_step (cancel_timers_for_task i)" "keeps timers_step (cancel_timers i)"
proof -
  show "keeps timers_step (cancel_timers_for_task i)"
    unfolding cancel_timers_for_task_def by (rule keeps_update_timers) (auto simp: tm_step_def tm_core_def tm_final_def)
  show "keeps timers_step (cancel_timers i)"
    by (rule keepsI, rule timers_step_map [where g = "\<lambda>r. if tm_task_id r = Some i \<and> tm_status r = ''scheduled'' then r\<lparr>tm_status := ''cancelled''\<rparr> else r"])
       (auto simp: cancel_timers_def tm_step_def tm_core_def tm_final_def)
qed


text \<open>One operation of the poller, of a step or of a gate, or code that leaves the table alone.\<close>

inductive timer_op :: "env \<Rightarrow> db \<Rightarrow> db \<Rightarrow> bool" for E where
  schedules: "timer_op E s (snd (schedule_timer E agg aid t s))"
| inserts: "timer_op E s (snd (insert_timer row s))"
| inserts_strictly: "timer_op E s (snd (insert_timer_strict row s))"
| polls: "timer_op E s (snd (poll_due_timers owner lease batch now s))"
| fires: "timer_op E s (snd (fire_timer default_task_version i s))"
| voids: "timer_op E s (snd (cancel_timers_for_task task_id s))"
| voids_scheduled: "timer_op E s (snd (cancel_timers task_id s))"
| elsewhere: "timers s' = timers s \<Longrightarrow> timer_op E s s'"

lemma timer_op_step: "timer_op E s s' \<Longrightarrow> timers_step s s'"
  by (erule timer_op.cases)
     (use keeps_schedule keeps_insert_timer timers_step_poll timers_step_fire keeps_timer_cancel timers_step_frame in \<open>auto simp: keeps_def\<close>)

lemma timer_runs_step: "(timer_op E)\<^sup>*\<^sup>* s s' \<Longrightarrow> timers_step s s'"
  by (induction rule: rtranclp_induct) (auto intro: timer_history.rel_refl timer_history.rel_trans timer_op_step)

lemma fire_final:
  assumes "find (\<lambda>r. tm_timer_id r = i) (timers s) = Some r" "tm_final r"
  shows "\<exists>out. fire_timer resolve i s = (Inr out, s) \<and> \<not> tf_fired out"
  using assms by (auto simp: fire_timer_def tm_final_def suppress_def)

lemma fire_outcome:
  assumes "fire_timer default_task_version i s = (Inr out, s')" "tf_fired out"
  obtains r where "find (\<lambda>r. tm_timer_id r = i) (timers s) = Some r" "s' = snd (apply_timer r s)"
    "case (tm_task_id r, tm_cas_task_version r) of (Some t, Some v) \<Rightarrow> default_task_version t s = (Inr (Some v), s) | _ \<Rightarrow> True"
proof -
  obtain r where r: "find (\<lambda>r. tm_timer_id r = i) (timers s) = Some r"
    using assms by (auto simp: fire_timer_def suppress_def split: option.splits)
  have v: "void_timer i why s = (Inr out, s') \<Longrightarrow> False" for why
    using assms(2) by (auto simp: void_timer_def andthen_def update_timers_def suppress_def)
  have "s' = snd (apply_timer r s) \<and> (case (tm_task_id r, tm_cas_task_version r) of (Some t, Some v) \<Rightarrow> default_task_version t s = (Inr (Some v), s) | _ \<Rightarrow> True)"
    using assms r v
    by (auto simp: fire_timer_def default_task_version_def suppress_def split: option.splits if_splits)
  then show thesis
    using that r by blast
qed

text \<open>A timer takes effect at most once.  Once \<open>fire_timer\<close> has reported that a timer fired, then in every
  run of pollers, steps and gates that follows it never fires again, changes nothing when it is
  redelivered, and no poll claims it.\<close>

theorem timer_fires_once:
  assumes "(timer_op E)\<^sup>*\<^sup>* s0 s" "timers s0 = []"
    and "fire_timer default_task_version i s = (Inr out, s1)" "tf_fired out" "(timer_op E)\<^sup>*\<^sup>* s1 s2"
  shows "(\<exists>out'. fire_timer default_task_version i s2 = (Inr out', s2) \<and> \<not> tf_fired out')
    \<and> (\<forall>ids. fst (poll_due_timers owner lease batch now s2) = Inr ids \<longrightarrow> i \<notin> set ids)"
proof -
  have d: "distinct (map tm_timer_id (timers s))"
    using timer_runs_step [OF assms(1)] assms(2) by (simp add: timers_step_def)
  have "timers_step s s1"
    using timers_step_fire [of s i] assms(3) by simp
  then have d1: "distinct (map tm_timer_id (timers s1))"
    using d by (simp add: timers_step_def)
  obtain r where r: "find (\<lambda>r. tm_timer_id r = i) (timers s) = Some r" "s1 = snd (apply_timer r s)"
    using fire_outcome [OF assms(3,4)] by metis
  have "r\<lparr>tm_status := ''fired''\<rparr> \<in> set (timers s1)"
    using find_key_mem [OF r(1)] by (auto simp: r(2) apply_timer_timers)
  moreover have h: "distinct (map tm_timer_id (timers s2))" "history tm_step (timers s1) (timers s2)"
    using timer_runs_step [OF assms(5)] d1 by (simp_all add: timers_step_def)
  ultimately obtain r2 where r2: "r2 \<in> set (timers s2)" "tm_step (r\<lparr>tm_status := ''fired''\<rparr>) r2"
    using timer_rows.history_mem by metis
  have i: "tm_timer_id r2 = i" "tm_final r2"
    using r2(2) tm_core_fields(1) [of r2 "r\<lparr>tm_status := ''fired''\<rparr>"] find_key_mem [OF r(1)] by (auto simp: tm_step_def tm_final_def)
  have f: "find (\<lambda>r. tm_timer_id r = i) (timers s2) = Some r2"
    using find_key_unique [OF h(1) r2(1)] i(1) by simp
  have "i \<notin> tm_timer_id ` set (take batch (sort_key tm_fire_at (filter (is_due now) (timers s2))))"
  proof
    assume "i \<in> tm_timer_id ` set (take batch (sort_key tm_fire_at (filter (is_due now) (timers s2))))"
    then obtain x where "x \<in> set (timers s2)" "is_due now x" "tm_timer_id x = i"
      by (auto dest!: in_set_takeD)
    then show False
      using distinct_keyD [OF h(1) r2(1), of x] i by (auto simp: tm_final_def is_due_def)
  qed
  then have "\<forall>ids. fst (poll_due_timers owner lease batch now s2) = Inr ids \<longrightarrow> i \<notin> set ids"
    unfolding poll_due_timers_def update_timers_def by (simp add: andthen_def) (auto simp: image_iff)
  with fire_final [OF f i(2)] show ?thesis
    by blast
qed


definition timer_example :: timer_row where
  "timer_example = timer_row_of ''tmr_1'' ''k1'' ''run'' ''r1'' ''reminder'' 5 []"

lemma timer_example_evaluation:
  "snd (insert_timer timer_example empty_db) = empty_db\<lparr>timers := [timer_example]\<rparr>"
  by (simp add: insert_timer_def timer_example_def timer_row_of_def TIMER_KINDS_def empty_db_def)

lemma timer_fires_once_witness:
  "\<exists>out s1 out'. fire_timer default_task_version ''tmr_1'' (empty_db\<lparr>timers := [timer_example]\<rparr>) = (Inr out, s1)
    \<and> tf_fired out \<and> length (queue s1) = 1 \<and> fire_timer default_task_version ''tmr_1'' s1 = (Inr out', s1) \<and> \<not> tf_fired out'"
proof -
  let ?s = "empty_db\<lparr>timers := [timer_example]\<rparr>"
  have "(timer_op plain_env)\<^sup>*\<^sup>* empty_db ?s" "timers empty_db = []"
    using timer_op.inserts [of plain_env empty_db timer_example] by (auto simp: timer_example_evaluation) (simp add: empty_db_def)
  moreover obtain out s1 where f: "fire_timer default_task_version ''tmr_1'' ?s = (Inr out, s1)" "tf_fired out" "length (queue s1) = 1"
    by (simp add: fire_timer_def timer_example_def timer_row_of_def apply_timer_def insert_queue_def update_timers_def Let_def andthen_def empty_db_def)
  ultimately show ?thesis
    using timer_fires_once [of plain_env empty_db ?s "''tmr_1''" out s1 s1] by auto
qed

subsection \<open>Timers of a gate\<close>

text \<open>Gate operations and timer operations in any order; a timer operation leaves the tables of the gates alone.\<close>

inductive gate_or_timer :: "env \<Rightarrow> db \<Rightarrow> db \<Rightarrow> bool" for E where
  at_gate: "gate_op E s s' \<Longrightarrow> gate_or_timer E s s'"
| at_timers: "timer_op E s s' \<Longrightarrow> human_tasks s' = human_tasks s \<Longrightarrow> human_task_responses s' = human_task_responses s \<Longrightarrow> gate_or_timer E s s'"

lemma closed_gate_stays:
  assumes "(gate_or_timer E)\<^sup>*\<^sup>* s s'" "gate_ok s" "t \<in> set (human_tasks s)" "closed_status (tk_status t)"
  shows "gate_ok s' \<and> (\<exists>t' \<in> set (human_tasks s'). tk_task_id t' = tk_task_id t \<and> closed_status (tk_status t'))"
  using assms(1)
proof (induction rule: rtranclp_induct)
  case (step u v)
  then obtain t' where t': "gate_ok u" "t' \<in> set (human_tasks u)" "tk_task_id t' = tk_task_id t" "closed_status (tk_status t')"
    by blast
  from step.hyps(2) show ?case
  proof cases
    case at_gate
    have "history task_step (human_tasks u) (human_tasks v)"
      using gate_op_step [OF at_gate t'(1)] t'(1) by (simp add: gate_step_def gate_ok_def)
    then obtain w where "w \<in> set (human_tasks v)" "task_step t' w"
      using task_rows.history_mem t'(2) by metis
    then show ?thesis
      using gate_op_ok [OF at_gate t'(1)] t'(3,4) frozen_fields(1) [of w t'] by (auto simp: task_step_def)
  next
    case at_timers
    then show ?thesis
      using t' gate_ok_frame [of v u] by auto
  qed
qed (use assms in blast)

text \<open>A late timer cannot escalate an answered gate.  Once a task is closed, whatever gate and timer
  operations follow, firing any timer that guards the task - scheduled, overdue or leased by a poller
  before the answer came - does not fire it and puts nothing on the queue.\<close>

theorem answered_gate_silences_timers:
  assumes "(gate_or_timer E)\<^sup>*\<^sup>* s s'" "gate_ok s" "t \<in> set (human_tasks s)" "closed_status (tk_status t)"
    and "find (\<lambda>r. tm_timer_id r = i) (timers s') = Some r" "tm_task_id r = Some (tk_task_id t)" "tm_cas_task_version r \<noteq> None"
  shows "\<exists>out. fst (fire_timer default_task_version i s') = Inr out \<and> \<not> tf_fired out \<and> queue (snd (fire_timer default_task_version i s')) = queue s'"
proof -
  obtain t' where t': "gate_ok s'" "t' \<in> set (human_tasks s')" "tk_task_id t' = tk_task_id t" "closed_status (tk_status t')"
    using closed_gate_stays [OF assms(1-4)] by blast
  have "find (\<lambda>x. tk_task_id x = tk_task_id t \<and> tk_status x = ''open'') (human_tasks s') = None"
    unfolding find_None_iff
  proof clarify
    fix x assume "x \<in> set (human_tasks s')" "tk_task_id x = tk_task_id t" "tk_status x = ''open''"
    then show False
      using distinct_keyD [of tk_task_id "human_tasks s'" x t'] t' by (simp add: gate_ok_def closed_status_def)
  qed
  then have "default_task_version (tk_task_id t) s' = (Inr None, s')"
    by (simp add: default_task_version_def)
  moreover obtain v where "tm_cas_task_version r = Some v"
    using assms(7) by blast
  ultimately show ?thesis
    using assms(5,6) by (simp add: fire_timer_def suppress_def void_timer_def andthen_def update_timers_def)
qed

text \<open>The escalation of the answered task, leased by a poller.\<close>

lemma answered_gate_silences_timers_witness:
  "\<exists>out. fst (fire_timer default_task_version ''tmr_9'' (agreed_db\<lparr>timers :=
      [(task_timer ''tmr_9'' ''t1:escalation'' ''run'' ''r1'' ''t1'' ''escalation'' 0 1)\<lparr>tm_status := ''leased''\<rparr>]\<rparr>)) = Inr out \<and> \<not> tf_fired out"
proof -
  let ?r = "(task_timer ''tmr_9'' ''t1:escalation'' ''run'' ''r1'' ''t1'' ''escalation'' 0 1)\<lparr>tm_status := ''leased''\<rparr>"
  let ?s = "agreed_db\<lparr>timers := [?r]\<rparr>"
  have "gate_ok ?s"
    using gate_run_ok [OF agreed_run opened_ok] gate_ok_frame [of ?s agreed_db] by simp
  moreover obtain t where "t \<in> set (human_tasks ?s)" "tk_task_id t = ''t1''" "closed_status (tk_status t)"
    using agreed_eval(1) by (auto simp: closed_status_def)
  moreover have "find (\<lambda>r. tm_timer_id r = ''tmr_9'') (timers ?s) = Some ?r" "tm_task_id ?r = Some ''t1''" "tm_cas_task_version ?r \<noteq> None"
    by (simp_all add: task_timer_def timer_row_of_def)
  ultimately show ?thesis
    using answered_gate_silences_timers [OF rtranclp.rtrancl_refl, of ?s t "''tmr_9''" ?r] by auto
qed

end
