(* ===== verification/Outbox.thy ===== *)
theory Outbox
  imports Queue
begin

text \<open>
  The transactional outbox of \<open>runtime/outbox.py\<close>: one message per committed event, the leased relay
  that publishes a batch, recovery of expired leases, and the publisher that turns a routed topic
  into a row of the worker queue under admission control.  The relay owns its transactions: what
  \<open>publish\<close> wrote before it raised stays.  The clock stands still during one batch.
\<close>

subsection \<open>Messages\<close>

record OutboxMessage =
  om_message_id :: string
  om_partition_key :: string
  om_topic :: string
  om_payload :: dict
  om_caused_by_event :: "string option"

definition canonical_payload_hash :: "env \<Rightarrow> dict \<Rightarrow> string" where
  "canonical_payload_hash E payload = sha256_of E (json_dumps (JObj payload))"

definition partition_key_for :: "EventEnvelope \<Rightarrow> exn + string" where
  "partition_key_for e =
     (if ev_aggregate e = ''run'' then Inr (''run:'' @ str_or (ev_run_id e) (ev_aggregate_id e))
      else if ev_aggregate e = ''feature'' then Inr (''feature:'' @ str_or (ev_feature_id e) (ev_aggregate_id e))
      else if ev_aggregate e = ''request'' then Inr (''request:'' @ str_or (ev_request_id e) (ev_aggregate_id e))
      else if ev_aggregate e = ''overlay_fact'' then Inr (''overlay_fact:'' @ str_or (ev_overlay_fact_id e) (ev_aggregate_id e))
      else if ev_aggregate e = ''feature_contract'' then Inr (''feature_contract:'' @ str_or (ev_feature_contract_id e) (ev_aggregate_id e))
      else Inl ValueError)"

definition opt_json :: "string option \<Rightarrow> json" where
  "opt_json x = (case x of None \<Rightarrow> JNull | Some v \<Rightarrow> JStr v)"

definition outbox_message_of :: "EventEnvelope \<Rightarrow> exn + OutboxMessage" where
  "outbox_message_of e = chain (partition_key_for e) (\<lambda>key.
     Inr \<lparr>om_message_id = ev_event_id e, om_partition_key = key, om_topic = ev_type e,
       om_payload = [(''event_id'', JStr (ev_event_id e)), (''aggregate'', JStr (ev_aggregate e)),
         (''aggregate_id'', JStr (ev_aggregate_id e)), (''run_id'', opt_json (ev_run_id e)), (''feature_id'', opt_json (ev_feature_id e)),
         (''request_id'', opt_json (ev_request_id e)), (''type'', JStr (ev_type e)), (''global_seq'', JInt (ev_global_seq e)),
         (''stream_version'', JInt (ev_stream_version e))],
       om_caused_by_event = Some (ev_event_id e)\<rparr>)"

definition outbox_messages_for_events :: "EventEnvelope list \<Rightarrow> exn + OutboxMessage list" where
  "outbox_messages_for_events = map_chain outbox_message_of"

subsection \<open>Insertion\<close>

definition outbox_row_of :: "int \<Rightarrow> OutboxMessage \<Rightarrow> string option \<Rightarrow> int \<Rightarrow> outbox_row" where
  "outbox_row_of i msg hash now =
     \<lparr>ob_id = i, ob_message_id = om_message_id msg, ob_partition_key = om_partition_key msg, ob_topic = om_topic msg,
      ob_payload = om_payload msg, ob_payload_hash = hash, ob_caused_by_event = om_caused_by_event msg, ob_status = ''pending'',
      ob_lease_owner = None, ob_lease_expires_at = None, ob_attempts = 0, ob_max_attempts = 12, ob_next_attempt_at = now,
      ob_last_error = None, ob_sent_at = None\<rparr>"

definition outbox_at :: "string \<Rightarrow> db \<Rightarrow> outbox_row option" where
  "outbox_at message_id s = find (\<lambda>r. ob_message_id r = message_id) (outbox s)"

text \<open>\<open>INSERT ... ON CONFLICT (message_id) DO NOTHING RETURNING id\<close>; the causing event must be stored.\<close>

definition insert_outbox_row :: "OutboxMessage \<Rightarrow> string option \<Rightarrow> int option dbprog" where
  "insert_outbox_row msg hash = (\<lambda>s.
     let i = outbox_seq s + 1; s1 = s\<lparr>outbox_seq := i\<rparr>
     in case outbox_at (om_message_id msg) s of
          Some _ \<Rightarrow> (Inr None, s1)
        | None \<Rightarrow>
            if (case om_caused_by_event msg of None \<Rightarrow> False | Some e \<Rightarrow> e \<notin> er_event_id ` set (events s))
            then (Inl ForeignKeyViolation, s1)
            else (Inr (Some i), s1\<lparr>outbox := outbox s @ [outbox_row_of i msg hash (clock s)]\<rparr>))"

definition insert_outbox_message :: "OutboxMessage \<Rightarrow> int dbprog" where
  "insert_outbox_message msg =
     andthen (insert_outbox_row msg None) (\<lambda>new.
     case new of Some i \<Rightarrow> ret i
     | None \<Rightarrow>
         andthen (query (outbox_at (om_message_id msg))) (\<lambda>row.
         case row of None \<Rightarrow> throw TypeError | Some r \<Rightarrow> ret (ob_id r)))"

definition insert_outbox_message_checked :: "env \<Rightarrow> OutboxMessage \<Rightarrow> int dbprog" where
  "insert_outbox_message_checked E msg =
     (let hash = canonical_payload_hash E (om_payload msg)
      in andthen (insert_outbox_row msg (Some hash)) (\<lambda>new.
         case new of Some i \<Rightarrow> ret i
         | None \<Rightarrow>
             andthen (query (outbox_at (om_message_id msg))) (\<lambda>row.
             case row of None \<Rightarrow> throw OutboxIdempotencyConflict
             | Some r \<Rightarrow>
                 if ob_partition_key r \<noteq> om_partition_key msg \<or> ob_topic r \<noteq> om_topic msg
                    \<or> str_or (ob_payload_hash r) (canonical_payload_hash E (ob_payload r)) \<noteq> hash
                 then throw OutboxIdempotencyConflict else ret (ob_id r))))"

subsection \<open>The relay\<close>

definition update_outbox :: "(outbox_row \<Rightarrow> bool) \<Rightarrow> (outbox_row \<Rightarrow> outbox_row) \<Rightarrow> int dbprog" where
  "update_outbox p f = (\<lambda>s. (Inr (int (length (filter p (outbox s)))),
     s\<lparr>outbox := map (\<lambda>r. if p r then f r else r) (outbox s)\<rparr>))"

definition relay_due :: "nat \<Rightarrow> db \<Rightarrow> int list" where
  "relay_due batch s =
     map ob_id (take batch (sort_key ob_id (filter (\<lambda>r. ob_status r = ''pending'' \<and> ob_next_attempt_at r \<le> clock s) (outbox s))))"

definition relay_lease :: "string \<Rightarrow> int \<Rightarrow> nat \<Rightarrow> outbox_row list dbprog" where
  "relay_lease owner lease batch =
     andthen (query (\<lambda>s. (relay_due batch s, clock s + lease))) (\<lambda>(ids, until).
     andthen (update_outbox (\<lambda>r. ob_id r \<in> set ids)
       (\<lambda>r. r\<lparr>ob_status := ''leased'', ob_lease_owner := Some owner, ob_lease_expires_at := Some until\<rparr>)) (\<lambda>_.
     query (\<lambda>s. filter (\<lambda>r. ob_id r \<in> set ids) (outbox s))))"

definition message_of :: "outbox_row \<Rightarrow> OutboxMessage" where
  "message_of r = \<lparr>om_message_id = ob_message_id r, om_partition_key = ob_partition_key r, om_topic = ob_topic r,
     om_payload = ob_payload r, om_caused_by_event = ob_caused_by_event r\<rparr>"

definition put_back :: "string \<Rightarrow> outbox_row \<Rightarrow> outbox_row" where
  "put_back st r = r\<lparr>ob_status := st, ob_lease_owner := None, ob_lease_expires_at := None\<rparr>"

definition set_row :: "int \<Rightarrow> (outbox_row \<Rightarrow> outbox_row) \<Rightarrow> unit dbprog" where
  "set_row i f = andthen (update_outbox (\<lambda>r. ob_id r = i) f) (\<lambda>_. ret ())"

text \<open>One leased row: whether it was sent.\<close>

definition relay_row :: "env \<Rightarrow> (OutboxMessage \<Rightarrow> unit dbprog) \<Rightarrow> int \<Rightarrow> outbox_row \<Rightarrow> bool dbprog" where
  "relay_row E publish lease row =
     andthen (attempt (publish (message_of row))) (\<lambda>outcome.
     case outcome of
       Inr _ \<Rightarrow>
         andthen (query clock) (\<lambda>now.
         andthen (set_row (ob_id row) (\<lambda>r. r\<lparr>ob_status := ''sent'', ob_sent_at := Some now\<rparr>)) (\<lambda>_. ret True))
     | Inl e \<Rightarrow>
         if e = BackpressureError then
           andthen (query (\<lambda>s. clock s + lease)) (\<lambda>next.
           andthen (set_row (ob_id row) (\<lambda>r. (put_back ''pending'' r)\<lparr>ob_last_error := Some (exn_text E e), ob_next_attempt_at := next\<rparr>)) (\<lambda>_.
           ret False))
         else
           (let attempts = ob_attempts row + 1
            in if attempts \<ge> ob_max_attempts row then
                 andthen (set_row (ob_id row) (\<lambda>r. (put_back ''dead'' r)\<lparr>ob_attempts := attempts, ob_last_error := Some (exn_text E e)\<rparr>)) (\<lambda>_. ret False)
               else
                 andthen (compute_backoff E attempts) (\<lambda>delay.
                 andthen (query (\<lambda>s. clock s + delay)) (\<lambda>next.
                 andthen (set_row (ob_id row) (\<lambda>r. (put_back ''pending'' r)\<lparr>ob_attempts := attempts, ob_last_error := Some (exn_text E e),
                   ob_next_attempt_at := next\<rparr>)) (\<lambda>_. ret False)))))"

definition relay_publish_batch :: "env \<Rightarrow> (OutboxMessage \<Rightarrow> unit dbprog) \<Rightarrow> string \<Rightarrow> int \<Rightarrow> nat \<Rightarrow> int dbprog" where
  "relay_publish_batch E publish owner lease batch =
     andthen (relay_lease owner lease batch) (\<lambda>leased.
     andthen (for_each leased (relay_row E publish lease)) (\<lambda>sent.
     ret (int (length (filter (\<lambda>b. b) sent)))))"

definition reclaim_stuck_outbox :: "int dbprog" where
  "reclaim_stuck_outbox = (\<lambda>s.
     update_outbox (\<lambda>r. ob_status r = ''leased'' \<and> (case ob_lease_expires_at r of None \<Rightarrow> False | Some t \<Rightarrow> t < clock s)) (put_back ''pending'') s)"

definition outbox_pending_depth :: "db \<Rightarrow> int" where
  "outbox_pending_depth s = int (length (filter (\<lambda>r. ob_status r \<in> {''pending'', ''leased''}) (outbox s)))"

subsection \<open>The queue publisher\<close>

definition make_queue_publisher ::
  "env \<Rightarrow> (string \<times> string) list \<Rightarrow> int option \<Rightarrow> string list \<Rightarrow> OutboxMessage \<Rightarrow> unit dbprog" where
  "make_queue_publisher E route max_partition_depth route_required msg =
     (case map_of route (om_topic msg) of
        None \<Rightarrow> if om_topic msg \<in> set route_required then throw UnroutedOutboxTopic else ret ()
      | Some handler \<Rightarrow>
          andthen (query (queue_depth (Some (om_partition_key msg)))) (\<lambda>depth.
          if (case max_partition_depth of None \<Rightarrow> False | Some m \<Rightarrow> depth \<ge> m) then throw BackpressureError
          else
            andthen (if handler \<in> set FORMULA_SHADOW_QUEUE_HANDLERS
              then enqueue_checked E (om_message_id msg) (om_partition_key msg) handler (om_payload msg) None 100
              else enqueue (om_message_id msg) (om_partition_key msg) handler (om_payload msg) None 100) (\<lambda>_. ret ())))"


subsection \<open>What the publisher does\<close>

lemma insert_message_effect:
  "outbox (snd (insert_message m p h d hash av pr s)) = outbox s" "outbox_seq (snd (insert_message m p h d hash av pr s)) = outbox_seq s"
  "m \<in> qu_message_id ` set (queue (snd (insert_message m p h d hash av pr s)))"
  by (auto simp: insert_message_def Let_def message_at_def queue_row_of_def find_Some_iff image_iff split: option.split)

lemma enqueue_effect:
  "outbox (snd (enqueue m p h d av pr s)) = outbox s" "outbox_seq (snd (enqueue m p h d av pr s)) = outbox_seq s"
  "m \<in> qu_message_id ` set (queue (snd (enqueue m p h d av pr s)))"
  "outbox (snd (enqueue_checked E m p h d av pr s)) = outbox s" "outbox_seq (snd (enqueue_checked E m p h d av pr s)) = outbox_seq s"
  "m \<in> qu_message_id ` set (queue (snd (enqueue_checked E m p h d av pr s)))"
proof -
  have e: "snd (enqueue m p h d av pr s) = snd (insert_message m p h d None av pr s)"
    by (auto simp: enqueue_def andthen_def split: prod.split sum.split option.split)
  have c: "snd (enqueue_checked E m p h d av pr s) = snd (insert_message m p h d (Some (payload_hash E d)) av pr s)"
    by (auto simp: enqueue_checked_def Let_def andthen_def split: prod.split sum.split option.split)
  show "outbox (snd (enqueue m p h d av pr s)) = outbox s" "outbox_seq (snd (enqueue m p h d av pr s)) = outbox_seq s"
    "m \<in> qu_message_id ` set (queue (snd (enqueue m p h d av pr s)))"
    "outbox (snd (enqueue_checked E m p h d av pr s)) = outbox s" "outbox_seq (snd (enqueue_checked E m p h d av pr s)) = outbox_seq s"
    "m \<in> qu_message_id ` set (queue (snd (enqueue_checked E m p h d av pr s)))"
    unfolding e c by (rule insert_message_effect)+
qed

lemma publisher_effect:
  assumes "make_queue_publisher E route depth required msg s = (r, s')"
  shows "outbox s' = outbox s" "outbox_seq s' = outbox_seq s" "queue_step s s'"
    "r = Inr () \<Longrightarrow> map_of route (om_topic msg) \<noteq> None \<Longrightarrow> om_message_id msg \<in> qu_message_id ` set (queue s')"
proof -
  have "keeps queue_step (make_queue_publisher E route depth required msg)"
    unfolding make_queue_publisher_def by (intro queues.keeps_rules keeps_enqueue)
  then show "queue_step s s'"
    using keepsD assms by metis
  show "outbox s' = outbox s" "outbox_seq s' = outbox_seq s"
    "r = Inr () \<Longrightarrow> map_of route (om_topic msg) \<noteq> None \<Longrightarrow> om_message_id msg \<in> qu_message_id ` set (queue s')"
    using assms enqueue_effect [where s = s]
    by (auto simp: make_queue_publisher_def andthen_def split: option.splits if_splits prod.splits sum.splits)
       (metis snd_conv)+
qed

subsection \<open>Invariant of the outbox\<close>

definition ob_core :: "outbox_row \<Rightarrow> outbox_row" where
  "ob_core r = r\<lparr>ob_status := [], ob_lease_owner := None, ob_lease_expires_at := None, ob_attempts := 0,
     ob_next_attempt_at := 0, ob_last_error := None, ob_sent_at := None\<rparr>"

abbreviation ob_step :: "outbox_row \<Rightarrow> outbox_row \<Rightarrow> bool" where
  "ob_step r r' \<equiv> ob_core r' = ob_core r"

definition outbox_ok :: "(string \<times> string) list \<Rightarrow> db \<Rightarrow> bool" where
  "outbox_ok route s \<longleftrightarrow> distinct (map ob_id (outbox s)) \<and> (\<forall>r \<in> set (outbox s). ob_id r \<le> outbox_seq s)
     \<and> distinct (map ob_message_id (outbox s))
     \<and> (\<forall>r \<in> set (outbox s). ob_status r = ''sent'' \<longrightarrow> map_of route (ob_topic r) \<noteq> None \<longrightarrow> ob_message_id r \<in> qu_message_id ` set (queue s))
     \<and> (\<forall>r \<in> set (outbox s). ob_status r = ''dead'' \<longrightarrow> ob_max_attempts r \<le> ob_attempts r)"

definition outbox_step :: "(string \<times> string) list \<Rightarrow> db \<Rightarrow> db \<Rightarrow> bool" where
  "outbox_step route s s' \<longleftrightarrow> queue_step s s' \<and> outbox_seq s \<le> outbox_seq s'
     \<and> (outbox_ok route s \<longrightarrow> history ob_step (outbox s) (outbox s') \<and> outbox_ok route s')"

interpretation outbox_rows: row_rel ob_step
  by unfold_locales auto

interpretation outboxes: state_rel "outbox_step route"
  by unfold_locales (auto simp: outbox_step_def outbox_rows.history_refl queues.rel_refl intro: queues.rel_trans outbox_rows.history_trans)

lemma ob_core_fields:
  assumes "ob_core r' = ob_core r"
  shows "ob_id r' = ob_id r" "ob_message_id r' = ob_message_id r" "ob_topic r' = ob_topic r" "ob_max_attempts r' = ob_max_attempts r"
  using assms [THEN arg_cong, of ob_id] assms [THEN arg_cong, of ob_message_id]
    assms [THEN arg_cong, of ob_topic] assms [THEN arg_cong, of ob_max_attempts]
  by (simp_all add: ob_core_def)

lemma queued_stays: "queue_step s s' \<Longrightarrow> m \<in> qu_message_id ` set (queue s) \<Longrightarrow> m \<in> qu_message_id ` set (queue s')"
proof -
  assume "queue_step s s'"
  then have "prefix (map qu_message_id (queue s)) (map qu_message_id (queue s'))"
    unfolding queue_step_def using history_keys [of row_step] row_core_fields(2) row_step_def by metis
  from set_mono_prefix [OF this] show "m \<in> qu_message_id ` set (queue s) \<Longrightarrow> m \<in> qu_message_id ` set (queue s')"
    by auto
qed

text \<open>Rows changed in place: what a new status needs.\<close>

lemma outbox_step_map:
  assumes "queue_step s s'" "outbox_seq s' = outbox_seq s" "outbox s' = map g (outbox s)"
    and "\<And>r. outbox_ok route s \<Longrightarrow> r \<in> set (outbox s) \<Longrightarrow> ob_core (g r) = ob_core r
        \<and> (ob_status (g r) = ''sent'' \<longrightarrow> map_of route (ob_topic r) \<noteq> None \<longrightarrow> ob_message_id r \<in> qu_message_id ` set (queue s'))
        \<and> (ob_status (g r) = ''dead'' \<longrightarrow> ob_max_attempts r \<le> ob_attempts (g r))"
  shows "outbox_step route s s'"
proof -
  have "history ob_step (outbox s) (outbox s') \<and> outbox_ok route s'" if ok: "outbox_ok route s"
  proof
    have k: "ob_id (g r) = ob_id r" "ob_message_id (g r) = ob_message_id r" "ob_topic (g r) = ob_topic r" "ob_max_attempts (g r) = ob_max_attempts r"
      if "r \<in> set (outbox s)" for r
      using ob_core_fields [of "g r" r] assms(4) [OF ok that] by blast+
    have "map ob_id (map g (outbox s)) = map ob_id (outbox s)" "map ob_message_id (map g (outbox s)) = map ob_message_id (outbox s)"
      unfolding map_map by (intro map_cong; simp add: k)+
    moreover have "\<forall>r \<in> set (outbox s). ob_id (g r) \<le> outbox_seq s
        \<and> (ob_status (g r) = ''sent'' \<longrightarrow> map_of route (ob_topic (g r)) \<noteq> None \<longrightarrow> ob_message_id (g r) \<in> qu_message_id ` set (queue s'))
        \<and> (ob_status (g r) = ''dead'' \<longrightarrow> ob_max_attempts (g r) \<le> ob_attempts (g r))"
      using ok assms(4) [OF ok] k by (simp add: outbox_ok_def)
    ultimately show "outbox_ok route s'"
      using ok unfolding outbox_ok_def assms(2,3) by (simp del: map_map)
    show "history ob_step (outbox s) (outbox s')"
      unfolding assms(3) by (rule outbox_rows.history_map) (use assms(4) [OF ok] in blast)
  qed
  then show ?thesis
    using assms(1,2) by (simp add: outbox_step_def)
qed


lemma keeps_update_outbox:
  assumes "\<And>r. p r \<Longrightarrow> ob_core (f r) = ob_core r" "\<And>r. p r \<Longrightarrow> ob_status (f r) \<notin> {''sent'', ''dead''}"
  shows "keeps (outbox_step route) (update_outbox p f)"
proof (rule keepsI)
  fix s
  show "outbox_step route s (snd (update_outbox p f s))"
    by (rule outbox_step_map [where g = "\<lambda>r. if p r then f r else r"])
       (use assms in \<open>auto simp: update_outbox_def outbox_ok_def queue_step_frame\<close>)
qed

lemma outbox_step_frame:
  assumes "queue_step s s'" "outbox s' = outbox s" "outbox_seq s' = outbox_seq s"
  shows "outbox_step route s s'"
proof -
  have "outbox_ok route s \<Longrightarrow> outbox_ok route s'"
    using queued_stays [OF assms(1)] by (auto simp: outbox_ok_def assms(2,3))
  then show ?thesis
    using assms by (simp add: outbox_step_def outbox_rows.history_refl)
qed

lemma keeps_relay_lease: "keeps (outbox_step route) (relay_lease owner lease batch)"
  unfolding relay_lease_def
  by (intro outboxes.keeps_rules keeps_update_outbox) (auto simp: ob_core_def)

lemma keeps_reclaim_outbox: "keeps (outbox_step route) reclaim_stuck_outbox"
proof -
  have "keeps (outbox_step route) (update_outbox p (put_back ''pending''))" for p
    by (rule keeps_update_outbox) (simp_all add: ob_core_def put_back_def)
  then show ?thesis
    by (simp add: keeps_def reclaim_stuck_outbox_def)
qed

lemma outbox_step_insert: "outbox_step route s (snd (insert_outbox_row msg hash s))"
proof (cases "outbox_at (om_message_id msg) s")
  case None
  let ?r = "outbox_row_of (outbox_seq s + 1) msg hash (clock s)"
  let ?s = "s\<lparr>outbox_seq := outbox_seq s + 1, outbox := outbox s @ [?r]\<rparr>"
  have "om_message_id msg \<notin> ob_message_id ` set (outbox s)"
    using None by (auto simp: outbox_at_def find_None_iff)
  then have "outbox_ok route s \<Longrightarrow> outbox_ok route ?s"
    by (auto simp: outbox_ok_def outbox_row_of_def)
  then have "outbox_step route s ?s"
    by (simp add: outbox_step_def queue_step_frame outbox_rows.history_append)
  moreover have "outbox_step route s (s\<lparr>outbox_seq := outbox_seq s + 1\<rparr>)"
    by (auto simp: outbox_step_def queue_step_frame outbox_rows.history_refl outbox_ok_def)
  ultimately show ?thesis
    using None by (simp add: insert_outbox_row_def Let_def)
next
  case (Some r)
  then show ?thesis
    by (auto simp: insert_outbox_row_def Let_def outbox_step_def queue_step_frame outbox_rows.history_refl outbox_ok_def)
qed

lemma keeps_insert_outbox:
  "keeps (outbox_step route) (insert_outbox_message msg)" "keeps (outbox_step route) (insert_outbox_message_checked E msg)"
proof -
  have ins: "keeps (outbox_step route) (insert_outbox_row msg hash)" for hash
    by (rule keepsI) (rule outbox_step_insert)
  show "keeps (outbox_step route) (insert_outbox_message msg)" "keeps (outbox_step route) (insert_outbox_message_checked E msg)"
    unfolding insert_outbox_message_def insert_outbox_message_checked_def Let_def
    by (intro outboxes.keeps_rules ins)+
qed

text \<open>A row written after its message was published, failed or held back.\<close>

lemma outbox_step_set_row:
  assumes "row \<in> set (outbox s)" "\<And>r. ob_core (f r) = ob_core r"
    and "\<And>r. ob_status (f r) = ''sent'' \<Longrightarrow> map_of route (ob_topic row) \<noteq> None \<Longrightarrow> ob_message_id row \<in> qu_message_id ` set (queue s)"
    and "\<And>r. ob_core r = ob_core row \<Longrightarrow> ob_status (f r) = ''dead'' \<Longrightarrow> ob_max_attempts row \<le> ob_attempts (f r)"
  shows "outbox_step route s (snd (set_row (ob_id row) f s))"
proof (rule outbox_step_map [where g = "\<lambda>r. if ob_id r = ob_id row then f r else r"])
  fix r assume ok: "outbox_ok route s" and r: "r \<in> set (outbox s)"
  have same: "ob_id r = ob_id row \<Longrightarrow> r = row"
    using distinct_keyD [of ob_id "outbox s" r row] ok r assms(1) by (simp add: outbox_ok_def)
  let ?g = "if ob_id r = ob_id row then f r else r"
  show "ob_core ?g = ob_core r
      \<and> (ob_status ?g = ''sent'' \<longrightarrow> map_of route (ob_topic r) \<noteq> None \<longrightarrow> ob_message_id r \<in> qu_message_id ` set (queue (snd (set_row (ob_id row) f s))))
      \<and> (ob_status ?g = ''dead'' \<longrightarrow> ob_max_attempts r \<le> ob_attempts ?g)"
    using assms(2-4) ok r same
    by (cases "ob_id r = ob_id row") (auto simp: outbox_ok_def set_row_def update_outbox_def andthen_def)
qed (simp_all add: set_row_def update_outbox_def andthen_def queue_step_frame)


lemma outbox_step_relay_row:
  assumes "r0 \<in> set (outbox s)" "ob_core row = ob_core r0"
  shows "outbox_step route s (snd (relay_row E (make_queue_publisher E route depth required) lease row s))"
proof -
  note k = ob_core_fields [OF assms(2)]
  obtain out s1 where p: "make_queue_publisher E route depth required (message_of row) s = (out, s1)"
    by fastforce
  note eff = publisher_effect [OF p]
  have r0: "r0 \<in> set (outbox s1)"
    using assms(1) eff(1) by simp
  have pend: "outbox_step route t (snd (set_row (ob_id row) f t))"
    if "outbox t = outbox s1" "\<And>r. ob_core (f r) = ob_core r" "\<And>r. ob_status (f r) = ''pending''" for f t
    using outbox_step_set_row [of r0 t f route] r0 that by (simp add: k)
  have dead: "outbox_step route s1 (snd (set_row (ob_id row) f s1))"
    if "\<And>r. ob_core (f r) = ob_core r" "\<And>r. ob_status (f r) = ''dead''" "\<And>r. ob_attempts (f r) \<ge> ob_max_attempts row" for f
    using outbox_step_set_row [of r0 s1 f route] r0 that by (simp add: k)
  have sent: "outbox_step route s1 (snd (set_row (ob_id row) (\<lambda>r. r\<lparr>ob_status := ''sent'', ob_sent_at := Some now\<rparr>) s1))" if "out = Inr ()" for now
    using outbox_step_set_row [of r0 s1 "\<lambda>r. r\<lparr>ob_status := ''sent'', ob_sent_at := Some now\<rparr>" route] r0 eff(4) [OF that]
    by (simp add: k ob_core_def message_of_def)
  have first: "outbox_step route s s1"
    using eff by (simp add: outbox_step_frame)
  have core: "ob_core ((put_back st r)\<lparr>ob_last_error := e, ob_next_attempt_at := a\<rparr>) = ob_core r"
    "ob_core ((put_back st r)\<lparr>ob_attempts := n, ob_last_error := e\<rparr>) = ob_core r"
    "ob_core ((put_back st r)\<lparr>ob_attempts := n, ob_last_error := e, ob_next_attempt_at := a\<rparr>) = ob_core r" for st r e a n
    by (simp_all add: ob_core_def put_back_def)
  have drawn: "outbox_step route s1 s2" if "s2 = s1 \<or> s2 = s1\<lparr>draws := Suc (draws s1)\<rparr>" for s2
    using that by (auto simp: outboxes.rel_refl intro!: outbox_step_frame queue_step_frame)
  have "outbox_step route s1 (snd (relay_row E (make_queue_publisher E route depth required) lease row s))"
  proof (cases out)
    case (Inr u)
    then show ?thesis
      using sent p by (simp add: relay_row_def attempt_def andthen_def set_row_def update_outbox_def)
  next
    case (Inl e)
    have "outbox_step route s1 (snd (andthen (compute_backoff E n) (\<lambda>delay. andthen (query (\<lambda>s. clock s + delay)) (\<lambda>next.
        andthen (set_row (ob_id row) (\<lambda>r. (put_back ''pending'' r)\<lparr>ob_attempts := n, ob_last_error := Some (exn_text E e), ob_next_attempt_at := next\<rparr>)) (\<lambda>_. ret False))) s1))" for n
    proof (rule outboxes.step_andthen)
      show "outbox_step route s1 (snd (compute_backoff E n s1))"
        using backoff_state drawn by (metis prod.collapse)
      fix d s2 assume "compute_backoff E n s1 = (Inr d, s2)"
      then have "outbox s2 = outbox s1"
        using backoff_state by fastforce
      then show "outbox_step route s2 (snd (andthen (query (\<lambda>s. clock s + d)) (\<lambda>next.
        andthen (set_row (ob_id row) (\<lambda>r. (put_back ''pending'' r)\<lparr>ob_attempts := n, ob_last_error := Some (exn_text E e), ob_next_attempt_at := next\<rparr>)) (\<lambda>_. ret False)) s2))"
        using pend core(3) by (simp add: andthen_def set_row_def update_outbox_def put_back_def)
    qed
    then show ?thesis
      using p Inl pend [of s1] dead core
      by (simp add: relay_row_def attempt_def andthen_def set_row_def update_outbox_def Let_def put_back_def)
  qed
  then show ?thesis
    using first outboxes.rel_trans by blast
qed


lemma outbox_step_relay_rows:
  assumes "outbox_ok route s" "\<And>row. row \<in> set rows \<Longrightarrow> \<exists>r0 \<in> set (outbox s). ob_core row = ob_core r0"
  shows "outbox_step route s (snd (for_each rows (relay_row E (make_queue_publisher E route depth required) lease) s))"
  using assms
proof (induction rows arbitrary: s)
  case (Cons row rows)
  let ?relay = "relay_row E (make_queue_publisher E route depth required) lease"
  obtain x s1 where r: "?relay row s = (x, s1)"
    by fastforce
  have step: "outbox_step route s s1"
    using outbox_step_relay_row [of _ s row route E depth required lease] Cons.prems(2) [of row] r by auto
  have "\<exists>r0 \<in> set (outbox s1). ob_core row' = ob_core r0" if "row' \<in> set rows" for row'
    using Cons.prems(1) Cons.prems(2) [of row'] that step by (metis list.set_intros(2) outbox_rows.history_mem outbox_step_def)
  then have "outbox_step route s1 (snd (for_each rows ?relay s1))"
    using Cons.IH [of s1] Cons.prems(1) step by (simp add: outbox_step_def)
  then have "outbox_step route s (snd (for_each rows ?relay s1))"
    using step outboxes.rel_trans by blast
  then show ?case
    using step by (auto simp: andthen_def r split: sum.split prod.split)
qed (simp add: outboxes.rel_refl)

lemma relay_lease_rows: "relay_lease owner lease batch s = (Inr rows, s') \<Longrightarrow> set rows \<subseteq> set (outbox s')"
  by (auto simp: relay_lease_def update_outbox_def andthen_def)

lemma outbox_step_relay:
  assumes "outbox_ok route s"
  shows "outbox_step route s (snd (relay_publish_batch E (make_queue_publisher E route depth required) owner lease batch s))"
  unfolding relay_publish_batch_def
proof (rule outboxes.step_andthen)
  show "outbox_step route s (snd (relay_lease owner lease batch s))"
    using keeps_relay_lease by (simp add: keeps_def)
  fix rows s1 assume l: "relay_lease owner lease batch s = (Inr rows, s1)"
  then have "outbox_ok route s1"
    using keepsD [OF keeps_relay_lease l, of route] assms by (simp add: outbox_step_def)
  then have "outbox_step route s1 (snd (for_each rows (relay_row E (make_queue_publisher E route depth required) lease) s1))"
    using relay_lease_rows [OF l] by (intro outbox_step_relay_rows) auto
  then show "outbox_step route s1 (snd (andthen (for_each rows (relay_row E (make_queue_publisher E route depth required) lease))
      (\<lambda>sent. ret (int (length (filter (\<lambda>b. b) sent)))) s1))"
    by (auto simp: andthen_def split: prod.split sum.split)
qed

text \<open>
  Relays of several workers: whole batches, and the lease and the publication of a row apart, so that a
  row may be published from a lease that was reclaimed meanwhile.
\<close>

inductive outbox_op :: "env \<Rightarrow> (string \<times> string) list \<Rightarrow> int option \<Rightarrow> string list \<Rightarrow> db \<Rightarrow> db \<Rightarrow> bool" for E route depth required where
  puts: "outbox_op E route depth required s (snd (insert_outbox_message msg s))"
| puts_checked: "outbox_op E route depth required s (snd (insert_outbox_message_checked E msg s))"
| relays: "outbox_op E route depth required s (snd (relay_publish_batch E (make_queue_publisher E route depth required) owner lease batch s))"
| leases: "outbox_op E route depth required s (snd (relay_lease owner lease batch s))"
| publishes: "r \<in> set (outbox s) \<Longrightarrow> ob_core row = ob_core r \<Longrightarrow>
    outbox_op E route depth required s (snd (relay_row E (make_queue_publisher E route depth required) lease row s))"
| reclaims: "outbox_op E route depth required s (snd (reclaim_stuck_outbox s))"
| works: "queue_op E s s' \<Longrightarrow> outbox s' = outbox s \<Longrightarrow> outbox_seq s' = outbox_seq s \<Longrightarrow> outbox_op E route depth required s s'"

lemma outbox_op_step: "outbox_op E route depth required s s' \<Longrightarrow> outbox_ok route s \<Longrightarrow> outbox_step route s s'"
  by (erule outbox_op.cases)
     (use keeps_insert_outbox outbox_step_relay keeps_relay_lease outbox_step_relay_row keeps_reclaim_outbox outbox_step_frame queue_op_step
      in \<open>auto simp: keeps_def\<close>)

lemma outbox_runs_step:
  "(outbox_op E route depth required)\<^sup>*\<^sup>* s s' \<Longrightarrow> outbox_ok route s \<Longrightarrow> outbox_step route s s'"
proof (induction rule: rtranclp_induct)
  case (step t u)
  then show ?case
    using outbox_op_step [of E route depth required t u] outboxes.rel_trans by (metis outbox_step_def)
qed (rule outboxes.rel_refl)

text \<open>No routed event is lost between the outbox and the worker queue, whatever relays, crashes and
  reclaims interleave: every outbox message that is marked sent and whose topic has a route is on the
  queue, as exactly one message under its id; and a message is given up only after its attempts are
  used up, so never because the queue pushed back.\<close>

theorem sent_is_queued:
  assumes "(outbox_op E route depth required)\<^sup>*\<^sup>* s0 s" "outbox s0 = []" "queue s0 = []" "r \<in> set (outbox s)"
  shows "(ob_status r = ''sent'' \<longrightarrow> map_of route (ob_topic r) \<noteq> None \<longrightarrow> (\<exists>!q. q \<in> set (queue s) \<and> qu_message_id q = ob_message_id r))
    \<and> (ob_status r = ''dead'' \<longrightarrow> ob_max_attempts r \<le> ob_attempts r)"
proof -
  have "outbox_ok route s0" "queue_ok s0"
    using assms(2,3) by (simp_all add: outbox_ok_def queue_ok_def leased_keys_def)
  then have ok: "outbox_ok route s" "distinct (map qu_message_id (queue s))"
    using outbox_runs_step [OF assms(1)] by (simp_all add: outbox_step_def queue_step_def queue_ok_def)
  have "\<exists>!q. q \<in> set (queue s) \<and> qu_message_id q = ob_message_id r" if "ob_message_id r \<in> qu_message_id ` set (queue s)"
    using that distinct_keyD [OF ok(2)] by (metis imageE)
  then show ?thesis
    using ok(1) assms(4) by (simp add: outbox_ok_def)
qed

text \<open>One event of a routed topic, relayed once.\<close>

definition relay_example :: db where
  "relay_example = snd (relay_publish_batch plain_env (make_queue_publisher plain_env [(''T'', ''draft'')] (Some 1) []) ''w'' 30 10
     (snd (insert_outbox_message \<lparr>om_message_id = ''e1'', om_partition_key = ''run:r1'', om_topic = ''T'', om_payload = [], om_caused_by_event = None\<rparr> empty_db)))"

lemma sent_is_queued_witness:
  "\<exists>r. outbox relay_example = [r] \<and> ob_status r = ''sent'' \<and> (\<exists>!q. q \<in> set (queue relay_example) \<and> qu_message_id q = ''e1'')"
proof -
  obtain r where r: "outbox relay_example = [r]" "ob_status r = ''sent''" "ob_topic r = ''T''" "ob_message_id r = ''e1''"
    by (simp add: relay_example_def relay_publish_batch_def relay_lease_def relay_due_def update_outbox_def relay_row_def attempt_def
        make_queue_publisher_def enqueue_def insert_message_def message_at_def FORMULA_SHADOW_QUEUE_HANDLERS_def queue_depth_def
        insert_outbox_message_def insert_outbox_row_def outbox_at_def outbox_row_of_def message_of_def set_row_def Let_def andthen_def empty_db_def)
  have run: "(outbox_op plain_env [(''T'', ''draft'')] (Some 1) [])\<^sup>*\<^sup>* empty_db relay_example"
    unfolding relay_example_def by (rule converse_rtranclp_into_rtranclp, rule outbox_op.puts, rule r_into_rtranclp, rule outbox_op.relays)
  have e: "outbox empty_db = []" "queue empty_db = []"
    by (simp_all add: empty_db_def)
  show ?thesis
    using sent_is_queued [OF run e, of r] r by auto
qed

end
