(* ===== verification/External.thy ===== *)
theory External
  imports Queue
begin

text \<open>
  External side effects and their cost: \<open>runtime/external_commands.py\<close> and \<open>runtime/cost_budget.py\<close>.
  A command is recorded in the step that declares it, claimed (durably), called outside any
  transaction, and finalized.  The external system is the record \<open>IntegrationCaller\<close>: its \<open>invoke\<close>
  and \<open>reconcile\<close> are arbitrary functions that may raise.  A crash between the steps is a run that
  does not take the next one, so the relation \<open>xc_op\<close> has the claim and the finalization apart.
\<close>

subsection \<open>Decimals\<close>

text \<open>Division rounded half away from zero, as \<open>numeric\<close> rounds.\<close>

definition round_div :: "int \<Rightarrow> int \<Rightarrow> int" where
  "round_div m d = sgn m * ((2 * \<bar>m\<bar> + d) div (2 * d))"

text \<open>\<open>m * 10 ** e\<close> plus \<open>u\<close> units of the fourth decimal, in such units.\<close>

definition add_units :: "int \<Rightarrow> int \<Rightarrow> int \<Rightarrow> int" where
  "add_units u m e =
     (if e \<ge> -4 then u + m * 10 ^ nat (e + 4) else round_div (u * 10 ^ nat (- e - 4) + m) (10 ^ nat (- e - 4)))"

definition NUMERIC_18_4 :: int where
  "NUMERIC_18_4 = 10 ^ 18"

text \<open>A value stored in a column of type \<open>numeric(18,4)\<close>.\<close>

definition store_numeric :: "decimal \<Rightarrow> exn + decimal" where
  "store_numeric x = (case x of
     Dec m e \<Rightarrow> (let u = add_units 0 m e in if \<bar>u\<bar> \<ge> NUMERIC_18_4 then Inl NumericValueOutOfRange else Inr (Dec u (-4)))
   | NaN \<Rightarrow> Inr NaN
   | Infinity \<Rightarrow> Inl NumericValueOutOfRange)"

definition reaches :: "int \<Rightarrow> decimal \<Rightarrow> bool" where
  "reaches u ceiling = (case ceiling of
     Dec m e \<Rightarrow> if e \<ge> -4 then u \<ge> m * 10 ^ nat (e + 4) else u * 10 ^ nat (- e - 4) \<ge> m
   | _ \<Rightarrow> False)"

subsection \<open>The cost budget\<close>

record CostBreakerOutcome =
  cb_tripped :: bool
  cb_ceiling :: "string option"
  cb_run_cost :: int
  cb_request_cost :: int

definition run_state :: "string \<Rightarrow> db \<Rightarrow> rws_row option" where
  "run_state run_id s = find (\<lambda>r. rw_run_id r = run_id) (run_workflow_state s)"

definition record_cost :: "string \<Rightarrow> int \<Rightarrow> int \<Rightarrow> int dbprog" where
  "record_cost run_id m e = (\<lambda>s.
     case run_state run_id s of
       None \<Rightarrow> (Inl KeyError, s)
     | Some r \<Rightarrow>
         (let total = add_units (rw_cost_units r) m e
          in if \<bar>total\<bar> \<ge> NUMERIC_18_4 then (Inl NumericValueOutOfRange, s)
             else (Inr total, s\<lparr>run_workflow_state :=
               map (\<lambda>x. if rw_run_id x = run_id then x\<lparr>rw_cost_units := total\<rparr> else x) (run_workflow_state s)\<rparr>)))"

definition request_cost :: "string \<Rightarrow> db \<Rightarrow> int" where
  "request_cost request_id s = sum_list (map rw_cost_units (filter (\<lambda>r. rw_request_id r = request_id) (run_workflow_state s)))"

definition check_cost_breaker :: "string \<Rightarrow> CostCeilings \<Rightarrow> CostBreakerOutcome dbprog" where
  "check_cost_breaker run_id ceilings =
     andthen (query (run_state run_id)) (\<lambda>row.
     case row of None \<Rightarrow> throw KeyError
     | Some r \<Rightarrow>
         andthen (query (request_cost (rw_request_id r))) (\<lambda>req_cost.
         let outcome = (\<lambda>tripped ceiling. \<lparr>cb_tripped = tripped, cb_ceiling = ceiling, cb_run_cost = rw_cost_units r, cb_request_cost = req_cost\<rparr>)
         in if (case cc_per_run ceilings of None \<Rightarrow> False | Some c \<Rightarrow> reaches (rw_cost_units r) c) then ret (outcome True (Some ''per_run''))
            else if (case cc_per_request ceilings of None \<Rightarrow> False | Some c \<Rightarrow> reaches req_cost c) then ret (outcome True (Some ''per_request''))
            else if (case cc_max_candidates ceilings of None \<Rightarrow> False | Some c \<Rightarrow> rw_candidates_explored r \<ge> c) then ret (outcome True (Some ''max_candidates''))
            else ret (outcome False None)))"

definition trip_cost_breaker :: "string \<Rightarrow> string \<Rightarrow> bool dbprog" where
  "trip_cost_breaker run_id ceiling =
     insert_queue (''cost-breaker:'' @ run_id @ '':'' @ ceiling) (''run:'' @ run_id) ''runtime.auto_park''
       [(''run_id'', JStr run_id), (''reason'', JStr ''cost_ceiling''), (''ceiling'', JStr ceiling)]"

subsection \<open>Recording\<close>

definition xc_at :: "string \<Rightarrow> db \<Rightarrow> xcmd_row option" where
  "xc_at command_id s = find (\<lambda>r. ec_command_id r = command_id) (external_commands s)"

definition record_external_command :: "NewExternalCommand \<Rightarrow> string \<Rightarrow> string option \<Rightarrow> string list \<Rightarrow> string dbprog" where
  "record_external_command cmd command_id run_id require_dedup =
     andthen (require (\<not> (xc_integration cmd \<in> set require_dedup \<and> \<not> xc_dedup_supported cmd \<and> xc_job_handle cmd = None)) HighCostWithoutDedup) (\<lambda>_.
     andthen (query (\<lambda>s. find (\<lambda>r. ec_idempotency_key r = xc_idempotency_key cmd) (external_commands s))) (\<lambda>taken.
     case taken of
       Some r \<Rightarrow> ret (ec_command_id r)
     | None \<Rightarrow>
         andthen (query (xc_at command_id)) (\<lambda>same_id.
         if same_id \<noteq> None then throw (UniqueViolation ''external_commands_pkey'')
         else
           andthen (update (\<lambda>s. s\<lparr>external_commands := external_commands s @
             [\<lparr>ec_command_id = command_id, ec_idempotency_key = xc_idempotency_key cmd, ec_run_id = run_id,
               ec_integration = xc_integration cmd, ec_request_payload = xc_request_payload cmd,
               ec_expected_run_id = xc_expected_run_id cmd, ec_expected_stream_version = xc_expected_stream_version cmd,
               ec_expected_task_id = xc_expected_task_id cmd, ec_job_handle = xc_job_handle cmd,
               ec_dedup_supported = xc_dedup_supported cmd, ec_status = ''pending'', ec_attempts = 0, ec_result = None,
               ec_result_event_id = None, ec_next_attempt_at = None, ec_dispatched_at = None, ec_completed_at = None,
               ec_cost_units = None, ec_created_at = clock s\<rparr>]\<rparr>)) (\<lambda>_.
           ret command_id))))"

subsection \<open>The cost of a result\<close>

definition is_charge :: "decimal \<Rightarrow> bool" where
  "is_charge x = (case x of Dec m e \<Rightarrow> m \<ge> 0 | _ \<Rightarrow> False)"

text \<open>The breaker is evaluated on the fresh spend; an evaluation that fails is skipped.\<close>

definition enforce_budget :: "env \<Rightarrow> string \<Rightarrow> unit dbprog" where
  "enforce_budget E run =
     andthen (attempt (andthen (lift (cost_ceilings E)) (check_cost_breaker run))) (\<lambda>checked.
     case checked of
       Inl err \<Rightarrow> if err = CostConfigError \<or> err = KeyError then ret () else throw err
     | Inr outcome \<Rightarrow>
         (case cb_ceiling outcome of
            Some ceiling \<Rightarrow> if cb_tripped outcome then andthen (trip_cost_breaker run ceiling) (\<lambda>_. ret ()) else ret ()
          | None \<Rightarrow> ret ()))"

definition record_external_cost :: "env \<Rightarrow> string option \<Rightarrow> decimal option \<Rightarrow> unit dbprog" where
  "record_external_cost E run_id cost_units =
     (case (run_id, cost_units) of
        (Some run, Some (Dec m e)) \<Rightarrow>
          if m < 0 then ret ()
          else
            andthen (attempt (record_cost run m e)) (\<lambda>recorded.
            case recorded of
              Inl err \<Rightarrow> if err = KeyError then ret () else throw err
            | Inr _ \<Rightarrow> enforce_budget E run)
      | _ \<Rightarrow> ret ())"

subsection \<open>Claim, call, finalize\<close>

record IntegrationResult =
  ir_ok :: bool
  ir_result :: dict
  ir_cost_units :: "decimal option"
  ir_job_handle :: "string option"
  ir_permanent :: bool

record IntegrationCaller =
  integration :: string
  invoke :: "dict \<Rightarrow> exn + IntegrationResult"
  reconcile :: "string \<Rightarrow> exn + IntegrationResult option"

record DispatchOutcome =
  do_command_id :: string
  do_status :: string
  do_reinvoked :: bool
  do_residual_duplicate_risk :: bool
  do_reconciled :: bool

definition flag_residual :: "dict \<Rightarrow> bool \<Rightarrow> dict" where
  "flag_residual result residual =
     (if residual then filter (\<lambda>(k, v). k \<noteq> ''_residual_duplicate_risk'') result @ [(''_residual_duplicate_risk'', JBool True)] else result)"

definition update_xc :: "string \<Rightarrow> (xcmd_row \<Rightarrow> xcmd_row) \<Rightarrow> unit dbprog" where
  "update_xc command_id f = update (\<lambda>s. s\<lparr>external_commands :=
     map (\<lambda>r. if ec_command_id r = command_id then f r else r) (external_commands s)\<rparr>)"

definition settled_status :: "string \<Rightarrow> bool" where
  "settled_status st \<longleftrightarrow> st \<in> {''succeeded'', ''failed'', ''stale_ignored''}"

definition succeed :: "env \<Rightarrow> xcmd_row \<Rightarrow> IntegrationResult \<Rightarrow> int \<Rightarrow> bool \<Rightarrow> string dbprog" where
  "succeed E r res now residual =
     andthen (lift (case ir_cost_units res of None \<Rightarrow> Inr None | Some c \<Rightarrow> chain (store_numeric c) (\<lambda>n. Inr (Some n)))) (\<lambda>cost.
     andthen (update_xc (ec_command_id r) (\<lambda>x. x\<lparr>ec_status := ''succeeded'', ec_result := Some (flag_residual (ir_result res) residual),
       ec_cost_units := cost, ec_completed_at := Some now,
       ec_job_handle := (case ir_job_handle res of None \<Rightarrow> ec_job_handle x | Some h \<Rightarrow> Some h)\<rparr>)) (\<lambda>_.
     andthen (record_external_cost E (ec_run_id r) (ir_cost_units res)) (\<lambda>_.
     ret ''succeeded'')))"

definition fail_or_retry :: "env \<Rightarrow> xcmd_row \<Rightarrow> IntegrationResult \<Rightarrow> int \<Rightarrow> string dbprog" where
  "fail_or_retry E r res now =
     (if ir_permanent res then
        andthen (update_xc (ec_command_id r) (\<lambda>x. x\<lparr>ec_status := ''failed'', ec_result := Some (ir_result res), ec_completed_at := Some now\<rparr>)) (\<lambda>_.
        ret ''failed'')
      else if ec_attempts r \<ge> external_max_attempts E then
        andthen (update_xc (ec_command_id r) (\<lambda>x. x\<lparr>ec_status := ''failed'',
          ec_result := Some (if ''_dlq'' \<in> fst ` set (ir_result res) then ir_result res else (''_dlq'', JStr ''max_attempts_exhausted'') # ir_result res),
          ec_completed_at := Some now\<rparr>)) (\<lambda>_.
        ret ''failed'')
      else
        andthen (compute_backoff E (ec_attempts r)) (\<lambda>delay.
        andthen (update_xc (ec_command_id r) (\<lambda>x. x\<lparr>ec_status := ''pending'', ec_next_attempt_at := Some (now + delay)\<rparr>)) (\<lambda>_.
        ret ''pending'')))"

definition finalize_xc :: "env \<Rightarrow> string \<Rightarrow> IntegrationResult \<Rightarrow> int \<Rightarrow> bool \<Rightarrow> bool \<Rightarrow> bool \<Rightarrow> DispatchOutcome dbprog" where
  "finalize_xc E command_id res now reinvoked residual reconciled =
     (let outcome = (\<lambda>st. \<lparr>do_command_id = command_id, do_status = st, do_reinvoked = reinvoked,
            do_residual_duplicate_risk = residual, do_reconciled = reconciled\<rparr>)
      in savepoint rollback (
        andthen (query (xc_at command_id)) (\<lambda>row.
        case row of None \<Rightarrow> throw KeyError
        | Some r \<Rightarrow>
            if settled_status (ec_status r) then ret (outcome (ec_status r))
            else
              andthen (if ir_ok res then succeed E r res now residual else fail_or_retry E r res now) (\<lambda>st.
              ret (outcome st)))))"

text \<open>Step 1 of \<open>dispatch_command\<close>: the row at claim time, with its status before the claim.\<close>

definition claim_dispatch :: "string \<Rightarrow> int \<Rightarrow> xcmd_row dbprog" where
  "claim_dispatch command_id now =
     andthen (query (xc_at command_id)) (\<lambda>row.
     case row of None \<Rightarrow> throw KeyError
     | Some r \<Rightarrow>
         if ec_status r = ''pending'' then
           andthen (update_xc command_id (\<lambda>x. x\<lparr>ec_status := ''dispatched'', ec_dispatched_at := Some now, ec_attempts := ec_attempts x + 1\<rparr>)) (\<lambda>_. ret r)
         else ret r)"

definition dispatch_command :: "env \<Rightarrow> string \<Rightarrow> IntegrationCaller \<Rightarrow> int \<Rightarrow> DispatchOutcome dbprog" where
  "dispatch_command E command_id caller now =
     andthen (claim_dispatch command_id now) (\<lambda>r.
     let outcome = (\<lambda>st reconciled. \<lparr>do_command_id = command_id, do_status = st, do_reinvoked = False,
           do_residual_duplicate_risk = False, do_reconciled = reconciled\<rparr>)
     in if settled_status (ec_status r) then ret (outcome (ec_status r) False)
        else if ec_status r = ''dispatched'' then
          (case ec_job_handle r of
             Some h \<Rightarrow>
               andthen (lift (reconcile caller h)) (\<lambda>found.
               case found of None \<Rightarrow> ret (outcome ''dispatched'' True)
               | Some res \<Rightarrow> finalize_xc E command_id res now False False True)
           | None \<Rightarrow>
               andthen (lift (invoke caller (ec_request_payload r))) (\<lambda>res.
               finalize_xc E command_id res now True (\<not> ec_dedup_supported r) False))
        else
          andthen (lift (invoke caller (ec_request_payload r))) (\<lambda>res.
          finalize_xc E command_id res now False False False))"

subsection \<open>Accepting a result\<close>

record ResultAcceptance =
  ra_command_id :: string
  ra_accepted :: bool
  ra_stale :: bool
  ra_cached :: bool

definition moved_on :: "string option \<Rightarrow> string option \<Rightarrow> bool" where
  "moved_on expected current \<longleftrightarrow> expected \<noteq> None \<and> expected \<noteq> current"

definition accept_result :: "string \<Rightarrow> string option \<Rightarrow> int option \<Rightarrow> string option \<Rightarrow> ResultAcceptance dbprog" where
  "accept_result command_id current_run_id current_stream_version current_task_id =
     (let verdict = (\<lambda>acc stale cached. \<lparr>ra_command_id = command_id, ra_accepted = acc, ra_stale = stale, ra_cached = cached\<rparr>)
      in andthen (query (xc_at command_id)) (\<lambda>row.
         case row of None \<Rightarrow> throw KeyError
         | Some r \<Rightarrow>
             if ec_status r = ''stale_ignored'' then ret (verdict False True True)
             else if ec_result_event_id r \<noteq> None then ret (verdict True False True)
             else if moved_on (ec_expected_run_id r) current_run_id
                  \<or> (case (ec_expected_stream_version r, current_stream_version) of (Some e, Some c) \<Rightarrow> c > e | _ \<Rightarrow> False)
                  \<or> moved_on (ec_expected_task_id r) current_task_id then
               andthen (query clock) (\<lambda>now.
               andthen (update_xc command_id (\<lambda>x. x\<lparr>ec_status := ''stale_ignored'', ec_completed_at := Some now\<rparr>)) (\<lambda>_.
               ret (verdict False True False)))
             else ret (verdict True False False)))"

subsection \<open>The worker's sweeps\<close>

definition register_integration_caller :: "IntegrationCaller \<Rightarrow> (string \<times> IntegrationCaller) list \<Rightarrow> (string \<times> IntegrationCaller) list" where
  "register_integration_caller caller callers = (integration caller, caller) # filter (\<lambda>(i, c). i \<noteq> integration caller) callers"

record ClaimedExternal =
  ce_command_id :: string
  ce_integration :: string
  ce_payload :: dict
  ce_job_handle :: "string option"
  ce_dedup_supported :: bool

definition claim_next_pending :: "string list \<Rightarrow> int \<Rightarrow> ClaimedExternal option dbprog" where
  "claim_next_pending registered now =
     andthen (query (\<lambda>s. sort_key ec_created_at (filter (\<lambda>r. ec_status r = ''pending'' \<and> ec_integration r \<in> set registered
       \<and> (case ec_next_attempt_at r of None \<Rightarrow> True | Some t \<Rightarrow> t \<le> now)) (external_commands s)))) (\<lambda>rows.
     case rows of [] \<Rightarrow> ret None
     | r # _ \<Rightarrow>
         andthen (update_xc (ec_command_id r) (\<lambda>x. x\<lparr>ec_status := ''dispatched'', ec_dispatched_at := Some now, ec_attempts := ec_attempts x + 1\<rparr>)) (\<lambda>_.
         ret (Some \<lparr>ce_command_id = ec_command_id r, ce_integration = ec_integration r, ce_payload = ec_request_payload r,
           ce_job_handle = ec_job_handle r, ce_dedup_supported = ec_dedup_supported r\<rparr>)))"

definition invoke_claimed_external :: "env \<Rightarrow> ClaimedExternal \<Rightarrow> IntegrationCaller \<Rightarrow> int \<Rightarrow> DispatchOutcome dbprog" where
  "invoke_claimed_external E claimed caller now =
     andthen (lift (invoke caller (ce_payload claimed))) (\<lambda>res.
     finalize_xc E (ce_command_id claimed) res now False False False)"

definition claim_stale_dispatched :: "string list \<Rightarrow> int \<Rightarrow> int \<Rightarrow> nat \<Rightarrow> (string \<times> string) list dbprog" where
  "claim_stale_dispatched registered stale_after now limit =
     andthen (query (\<lambda>s. map ec_command_id (take limit (sort_key (\<lambda>r. the (ec_dispatched_at r)) (filter (\<lambda>r. ec_status r = ''dispatched''
       \<and> ec_integration r \<in> set registered \<and> (case ec_dispatched_at r of None \<Rightarrow> False | Some t \<Rightarrow> t < now - stale_after)) (external_commands s)))))) (\<lambda>ids.
     andthen (update (\<lambda>s. s\<lparr>external_commands :=
       map (\<lambda>r. if ec_command_id r \<in> set ids then r\<lparr>ec_dispatched_at := Some now\<rparr> else r) (external_commands s)\<rparr>)) (\<lambda>_.
     query (\<lambda>s. map (\<lambda>r. (ec_command_id r, ec_integration r)) (filter (\<lambda>r. ec_command_id r \<in> set ids) (external_commands s)))))"

definition pending_unhandled_count :: "string list \<Rightarrow> db \<Rightarrow> int" where
  "pending_unhandled_count registered s =
     int (length (filter (\<lambda>r. ec_status r = ''pending'' \<and> ec_integration r \<notin> set registered) (external_commands s)))"

text \<open>The stage \<open>_dispatch_external\<close> of the worker's tick.\<close>

fun dispatch_fresh :: "env \<Rightarrow> (string \<times> IntegrationCaller) list \<Rightarrow> int \<Rightarrow> nat \<Rightarrow> nat dbprog" where
  "dispatch_fresh E callers now 0 = ret 0"
| "dispatch_fresh E callers now (Suc batch) =
     andthen (claim_next_pending (map fst callers) now) (\<lambda>claimed.
     case claimed of None \<Rightarrow> ret 0
     | Some c \<Rightarrow>
         (case map_of callers (ce_integration c) of None \<Rightarrow> throw KeyError
          | Some caller \<Rightarrow>
              andthen (invoke_claimed_external E c caller now) (\<lambda>_.
              andthen (dispatch_fresh E callers now batch) (\<lambda>n. ret (Suc n)))))"

definition dispatch_external :: "env \<Rightarrow> (string \<times> IntegrationCaller) list \<Rightarrow> int \<Rightarrow> int \<Rightarrow> nat \<Rightarrow> nat dbprog" where
  "dispatch_external E callers now stale_after batch =
     andthen (dispatch_fresh E callers now batch) (\<lambda>fresh.
     andthen (claim_stale_dispatched (map fst callers) stale_after now batch) (\<lambda>stale.
     andthen (for_each stale (\<lambda>(command_id, i).
       case map_of callers i of None \<Rightarrow> throw KeyError | Some caller \<Rightarrow> dispatch_command E command_id caller now)) (\<lambda>_.
     ret (fresh + length stale))))"


subsection \<open>What a finalization does\<close>

lemma round_div_nonneg: "0 \<le> m \<Longrightarrow> 0 < d \<Longrightarrow> round_div m d = (2 * m + d) div (2 * d)"
  by (cases "m = 0") (auto simp: round_div_def)

lemma add_units_plus:
  assumes "0 \<le> u" "0 \<le> m"
  shows "add_units u m e = u + add_units 0 m e"
proof (cases "e \<ge> -4")
  case False
  define d :: int where "d = 10 ^ nat (- e - 4)"
  have d: "0 < d"
    by (simp add: d_def)
  have "round_div (u * d + m) d = (2 * m + d + u * (2 * d)) div (2 * d)"
    using assms d by (subst round_div_nonneg) (simp_all add: algebra_simps)
  also have "... = u + round_div m d"
    using assms d by (subst div_mult_self1) (simp_all add: round_div_nonneg)
  finally show ?thesis
    using False by (simp add: add_units_def d_def)
qed (simp add: add_units_def)

lemma round_div_sign: "0 < d \<Longrightarrow> 0 \<le> m \<Longrightarrow> 0 \<le> round_div m d" "0 < d \<Longrightarrow> m < 0 \<Longrightarrow> round_div m d \<le> 0"
proof -
  assume d: "0 < d"
  have "0 \<le> (2 * \<bar>m\<bar> + d) div (2 * d)"
    using d by (simp add: pos_imp_zdiv_nonneg_iff)
  then show "0 \<le> m \<Longrightarrow> 0 \<le> round_div m d" "m < 0 \<Longrightarrow> round_div m d \<le> 0"
    by (auto simp: round_div_def sgn_if)
qed

lemma add_units_sign: "0 \<le> m \<Longrightarrow> 0 \<le> add_units 0 m e" "m < 0 \<Longrightarrow> add_units 0 m e \<le> 0"
  using round_div_sign [of "10 ^ nat (- e - 4)" m] by (auto simp: add_units_def mult_nonpos_nonneg)

text \<open>What a stored cost adds to the budget of its run.\<close>

definition charge :: "decimal option \<Rightarrow> int" where
  "charge c = (case c of Some (Dec m e) \<Rightarrow> max 0 (add_units 0 m e) | _ \<Rightarrow> 0)"

lemma charge_stored: "store_numeric x = Inr n \<Longrightarrow> charge (Some n) = charge (Some x)"
  by (auto simp: store_numeric_def charge_def Let_def add_units_def split: decimal.splits if_splits)

definition charge_run :: "string option \<Rightarrow> int \<Rightarrow> rws_row list \<Rightarrow> rws_row list" where
  "charge_run run_id amount = map (\<lambda>x. if run_id = Some (rw_run_id x) then x\<lparr>rw_cost_units := rw_cost_units x + amount\<rparr> else x)"

lemma charge_run_none:
  "charge_run None n rows = rows" "charge_run run_id 0 rows = rows"
  by (auto simp: charge_run_def intro!: map_idI)

lemma record_cost_charges:
  assumes "record_cost run m e s = (Inr tot, s')" "0 \<le> m" "distinct (map rw_run_id (run_workflow_state s))"
    and "\<forall>r \<in> set (run_workflow_state s). 0 \<le> rw_cost_units r"
  shows "s' = s\<lparr>run_workflow_state := charge_run (Some run) (charge (Some (Dec m e))) (run_workflow_state s)\<rparr>"
proof -
  obtain r where r: "find (\<lambda>x. rw_run_id x = run) (run_workflow_state s) = Some r"
    "s' = s\<lparr>run_workflow_state := map (\<lambda>x. if rw_run_id x = run then x\<lparr>rw_cost_units := add_units (rw_cost_units r) m e\<rparr> else x) (run_workflow_state s)\<rparr>"
    using assms(1) by (auto simp: record_cost_def run_state_def Let_def split: option.splits if_splits)
  have "x = r" if "x \<in> set (run_workflow_state s)" "rw_run_id x = run" for x
    using distinct_keyD [OF assms(3) that(1)] find_key_mem [OF r(1)] that(2) by simp
  moreover have "add_units (rw_cost_units r) m e = rw_cost_units r + charge (Some (Dec m e))"
    using add_units_plus [of "rw_cost_units r" m e] add_units_sign(1) [OF assms(2)] assms(2,4) find_key_mem [OF r(1)] by (simp add: charge_def)
  ultimately have "map (\<lambda>x. if rw_run_id x = run then x\<lparr>rw_cost_units := add_units (rw_cost_units r) m e\<rparr> else x) (run_workflow_state s)
      = charge_run (Some run) (charge (Some (Dec m e))) (run_workflow_state s)"
    unfolding charge_run_def by (intro map_cong) auto
  then show ?thesis
    by (simp add: r(2))
qed

lemma record_cost_unknown: "record_cost run m e s = (Inl KeyError, s') \<Longrightarrow> run \<notin> rw_run_id ` set (run_workflow_state s)"
  by (auto simp: record_cost_def run_state_def Let_def find_None_iff split: option.splits if_splits)

lemma trip_frame: "\<exists>n q. snd (trip_cost_breaker run ceiling s) = s\<lparr>queue_seq := n, queue := q\<rparr>"
  unfolding trip_cost_breaker_def by (rule insert_queue_state)


definition budget_frame :: "db \<Rightarrow> db \<Rightarrow> bool" where
  "budget_frame s s' \<longleftrightarrow> run_workflow_state s' = run_workflow_state s \<and> external_commands s' = external_commands s"

interpretation budget_frames: state_rel budget_frame
  by unfold_locales (auto simp: budget_frame_def)

lemma keeps_trip: "keeps budget_frame (trip_cost_breaker run ceiling)"
proof (rule keepsI)
  fix s
  show "budget_frame s (snd (trip_cost_breaker run ceiling s))"
    using trip_frame [of run ceiling s] by (auto simp: budget_frame_def)
qed

lemma keeps_enforce: "keeps budget_frame (enforce_budget E run)"
  unfolding enforce_budget_def check_cost_breaker_def Let_def
  by (intro budget_frames.keeps_rules keeps_trip)

lemma record_external_cost_charges:
  assumes "record_external_cost E run_id c s = (Inr (), s')" "distinct (map rw_run_id (run_workflow_state s))"
    and "\<forall>r \<in> set (run_workflow_state s). 0 \<le> rw_cost_units r"
  shows "run_workflow_state s' = charge_run run_id (charge c) (run_workflow_state s) \<and> external_commands s' = external_commands s"
proof (cases "\<exists>run m e. run_id = Some run \<and> c = Some (Dec m e) \<and> 0 \<le> m")
  case False
  then have "s' = s" "run_id = None \<or> charge c = 0"
    using assms(1) add_units_sign(2) by (auto simp: record_external_cost_def charge_def split: option.splits decimal.splits if_splits)
  then show ?thesis
    by (auto simp: charge_run_none)
next
  case True
  then obtain run m e where c: "run_id = Some run" "c = Some (Dec m e)" "0 \<le> m"
    by blast
  obtain x s1 where r: "record_cost run m e s = (x, s1)"
    by fastforce
  have later: "run_workflow_state s' = run_workflow_state s1 \<and> external_commands s' = external_commands s1" if "x = Inr v" for v
    using assms(1) c r that keepsD [OF keeps_enforce, of E run s1]
    by (simp add: record_external_cost_def attempt_def andthen_def budget_frame_def)
  show ?thesis
  proof (cases x)
    case (Inr v)
    then show ?thesis
      using record_cost_charges [OF r [unfolded Inr] c(3) assms(2,3)] later [OF Inr] c by simp
  next
    case (Inl err)
    then have "err = KeyError" "s' = s1" "s1 = s"
      using assms(1) c r by (auto simp: record_external_cost_def attempt_def andthen_def record_cost_def Let_def split: if_splits option.splits)
    then show ?thesis
      using record_cost_unknown [of run m e s s1] r Inl c by (auto simp: charge_run_def intro!: map_idI [symmetric])
  qed
qed


subsection \<open>Every cost is counted once\<close>

definition spent :: "string \<Rightarrow> db \<Rightarrow> int" where
  "spent run s = sum_list (map (\<lambda>c. if ec_run_id c = Some run then charge (ec_cost_units c) else 0) (external_commands s))"

definition charged :: "(string \<Rightarrow> int) \<Rightarrow> db \<Rightarrow> bool" where
  "charged base s \<longleftrightarrow> distinct (map ec_command_id (external_commands s)) \<and> distinct (map rw_run_id (run_workflow_state s))
     \<and> (\<forall>r \<in> set (run_workflow_state s). 0 \<le> rw_cost_units r \<and> rw_cost_units r - spent (rw_run_id r) s = base (rw_run_id r))
     \<and> (\<forall>c \<in> set (external_commands s). \<not> settled_status (ec_status c) \<longrightarrow> ec_cost_units c = None)"

definition cost_step :: "(string \<Rightarrow> int) \<Rightarrow> db \<Rightarrow> db \<Rightarrow> bool" where
  "cost_step base s s' \<longleftrightarrow> (charged base s \<longrightarrow> charged base s' \<and> map rw_run_id (run_workflow_state s') = map rw_run_id (run_workflow_state s))"

interpretation costs: state_rel "cost_step base"
  by unfold_locales (auto simp: cost_step_def)

lemma cost_step_frame: "budget_frame s s' \<Longrightarrow> cost_step base s s'"
  by (simp add: budget_frame_def cost_step_def charged_def spent_def)

text \<open>Rows changed without a charge.\<close>

lemma cost_step_map:
  assumes "run_workflow_state s' = run_workflow_state s" "external_commands s' = map g (external_commands s)"
    and "\<And>c. charged base s \<Longrightarrow> c \<in> set (external_commands s) \<Longrightarrow> ec_command_id (g c) = ec_command_id c \<and> ec_run_id (g c) = ec_run_id c
        \<and> ec_cost_units (g c) = ec_cost_units c \<and> (\<not> settled_status (ec_status (g c)) \<longrightarrow> ec_cost_units c = None)"
  shows "cost_step base s s'"
  unfolding cost_step_def
proof (intro impI conjI)
  assume c: "charged base s"
  note g = assms(3) [OF c]
  have "map ec_command_id (map g (external_commands s)) = map ec_command_id (external_commands s)"
    unfolding map_map by (intro map_cong) (simp_all add: g)
  moreover have "spent run s' = spent run s" for run
    unfolding spent_def assms(2) map_map by (intro arg_cong [where f = sum_list] map_cong) (simp_all add: g)
  ultimately show "charged base s'"
    using c g unfolding charged_def assms(1,2) by (simp del: map_map)
qed (simp add: assms(1))

lemma update_xc_frame:
  "external_commands (snd (update_xc i f s)) = map (\<lambda>x. if ec_command_id x = i then f x else x) (external_commands s)"
  "run_workflow_state (snd (update_xc i f s)) = run_workflow_state s"
  by (simp_all add: update_xc_def)

lemma cost_step_update:
  assumes "xc_at i s = Some r" "\<And>x. ec_command_id (f x) = ec_command_id x \<and> ec_run_id (f x) = ec_run_id x \<and> ec_cost_units (f x) = ec_cost_units x"
    and "settled_status (ec_status (f r)) \<or> \<not> settled_status (ec_status r)"
  shows "cost_step base s (snd (update_xc i f s))"
proof (rule cost_step_map [OF update_xc_frame(2) update_xc_frame(1)])
  fix c assume k: "charged base s" "c \<in> set (external_commands s)"
  have r: "r \<in> set (external_commands s)" "ec_command_id r = i"
    using find_key_mem [of ec_command_id i] assms(1) by (auto simp: xc_at_def)
  have "ec_command_id c = i \<Longrightarrow> c = r"
    using distinct_keyD [of ec_command_id, OF _ k(2) r(1)] k(1) r(2) by (simp add: charged_def)
  then show "ec_command_id (if ec_command_id c = i then f c else c) = ec_command_id c \<and> ec_run_id (if ec_command_id c = i then f c else c) = ec_run_id c
      \<and> ec_cost_units (if ec_command_id c = i then f c else c) = ec_cost_units c
      \<and> (\<not> settled_status (ec_status (if ec_command_id c = i then f c else c)) \<longrightarrow> ec_cost_units c = None)"
    using assms(2,3) k by (auto simp: charged_def)
qed

text \<open>The one transition that charges: into \<open>succeeded\<close>.\<close>

lemma charged_success:
  assumes "charged base s" "xc_at i s = Some r" "\<not> settled_status (ec_status r)"
    and "\<And>x. ec_command_id (f x) = ec_command_id x \<and> ec_run_id (f x) = ec_run_id x \<and> settled_status (ec_status (f x)) \<and> ec_cost_units (f x) = cost"
    and "external_commands s' = map (\<lambda>x. if ec_command_id x = i then f x else x) (external_commands s)"
    and "run_workflow_state s' = charge_run (ec_run_id r) (charge cost) (run_workflow_state s)"
  shows "charged base s' \<and> map rw_run_id (run_workflow_state s') = map rw_run_id (run_workflow_state s)"
proof
  have r: "r \<in> set (external_commands s)" "ec_command_id r = i" "ec_cost_units r = None"
    using find_key_mem [of ec_command_id i "external_commands s" r] assms(1-3) by (auto simp: xc_at_def charged_def)
  have ids: "map ec_command_id (external_commands s') = map ec_command_id (external_commands s)"
    unfolding assms(5) map_map by (intro map_cong) (simp_all add: assms(4))
  show runs: "map rw_run_id (run_workflow_state s') = map rw_run_id (run_workflow_state s)"
    by (simp add: assms(6) charge_run_def)
  let ?share = "\<lambda>run c. if ec_run_id c = Some run then charge (ec_cost_units c) else 0"
  have spent: "spent run s' = spent run s + (if ec_run_id r = Some run then charge cost else 0)" for run
    using sum_update_key [of ec_command_id "external_commands s" r "?share run" f] assms(1,4) r
    by (simp add: spent_def assms(5) charged_def) (simp add: charge_def)
  have nonneg: "0 \<le> charge cost"
    by (simp add: charge_def split: option.split decimal.split)
  have "\<forall>x \<in> set (run_workflow_state s'). 0 \<le> rw_cost_units x \<and> rw_cost_units x - spent (rw_run_id x) s' = base (rw_run_id x)"
    using assms(1) nonneg by (auto simp: assms(6) charge_run_def charged_def spent)
  then show "charged base s'"
    using assms(1,4) ids runs unfolding charged_def by (auto simp: assms(5) simp del: map_map)
qed


lemma xc_at_frame: "external_commands t = external_commands s \<Longrightarrow> xc_at i t = xc_at i s"
  by (simp add: xc_at_def)

lemma xc_at_id: "xc_at i s = Some r \<Longrightarrow> ec_command_id r = i"
  unfolding xc_at_def using find_key_mem [of ec_command_id i "external_commands s" r] by blast

lemma cost_step_fail_or_retry:
  assumes "xc_at i s = Some r" "\<not> settled_status (ec_status r)"
  shows "cost_step base s (snd (fail_or_retry E r res now s))"
proof -
  have plain: "cost_step base t (snd (andthen (update_xc (ec_command_id r) f) (\<lambda>_. ret st) t))" if "external_commands t = external_commands s"
    "\<And>x. ec_command_id (f x) = ec_command_id x \<and> ec_run_id (f x) = ec_run_id x \<and> ec_cost_units (f x) = ec_cost_units x" for f t and st :: string
    using cost_step_update [of i t r f] xc_at_frame [OF that(1)] assms xc_at_id [OF assms(1)] that(2) by (simp add: andthen_def update_xc_def)
  have "cost_step base s (snd (andthen (compute_backoff E n) (\<lambda>delay. andthen (update_xc (ec_command_id r)
      (\<lambda>x. x\<lparr>ec_status := ''pending'', ec_next_attempt_at := Some (now + delay)\<rparr>)) (\<lambda>_. ret ''pending'')) s))" for n
  proof (rule costs.step_andthen)
    have "budget_frame s (snd (compute_backoff E n s))"
      using backoff_state [OF prod.collapse [symmetric], of E n s] by (auto simp: budget_frame_def)
    then show "cost_step base s (snd (compute_backoff E n s))"
      by (rule cost_step_frame)
    fix d t assume "compute_backoff E n s = (Inr d, t)"
    then have "external_commands t = external_commands s"
      using backoff_state by fastforce
    then show "cost_step base t (snd (andthen (update_xc (ec_command_id r)
      (\<lambda>x. x\<lparr>ec_status := ''pending'', ec_next_attempt_at := Some (now + d)\<rparr>)) (\<lambda>_. ret ''pending'') t))"
      by (rule plain) simp
  qed
  then show ?thesis
    using plain by (simp add: fail_or_retry_def)
qed

lemma cost_step_succeed:
  assumes "xc_at i s = Some r" "\<not> settled_status (ec_status r)" "succeed E r res now residual s = (Inr st, s')"
  shows "cost_step base s s'"
proof -
  obtain cost where c: "(case ir_cost_units res of None \<Rightarrow> Inr None | Some c \<Rightarrow> chain (store_numeric c) (\<lambda>n. Inr (Some n))) = Inr cost"
    using assms(3) by (cases "case ir_cost_units res of None \<Rightarrow> Inr None | Some c \<Rightarrow> chain (store_numeric c) (\<lambda>n. Inr (Some n))") (simp_all add: succeed_def)
  let ?f = "\<lambda>x. x\<lparr>ec_status := ''succeeded'', ec_result := Some (flag_residual (ir_result res) residual), ec_cost_units := cost,
      ec_completed_at := Some now, ec_job_handle := (case ir_job_handle res of None \<Rightarrow> ec_job_handle x | Some h \<Rightarrow> Some h)\<rparr>"
  let ?s1 = "snd (update_xc i ?f s)"
  have "record_external_cost E (ec_run_id r) (ir_cost_units res) ?s1 = (Inr (), s')"
    using assms(3) xc_at_id [OF assms(1)] by (auto simp: succeed_def c andthen_eq_Inr update_xc_def)
  then have "charged base s \<Longrightarrow> run_workflow_state s' = charge_run (ec_run_id r) (charge (ir_cost_units res)) (run_workflow_state s)
      \<and> external_commands s' = external_commands ?s1"
    using record_external_cost_charges [of E "ec_run_id r" "ir_cost_units res" ?s1 s'] by (auto simp: charged_def update_xc_frame(2))
  moreover have "charge (ir_cost_units res) = charge cost"
    using c charge_stored by (auto simp: chain_eq_Inr split: option.splits)
  ultimately show ?thesis
    using charged_success [OF _ assms(1,2), of base ?f cost s']
    unfolding cost_step_def by (simp add: update_xc_frame(1) settled_status_def)
qed

lemma cost_step_finalize: "keeps (cost_step base) (finalize_xc E i res now reinvoked residual reconciled)"
proof (rule keepsI)
  fix s
  let ?m = "finalize_xc E i res now reinvoked residual reconciled"
  have undone: "cost_step base s (rollback s t)" for t
    by (rule cost_step_frame) (simp add: budget_frame_def rollback_def)
  show "cost_step base s (snd (?m s))"
  proof (cases "\<exists>r. xc_at i s = Some r \<and> \<not> settled_status (ec_status r)")
    case False
    then show ?thesis
      using undone by (auto simp: finalize_xc_def Let_def savepoint_def costs.rel_refl split: option.split)
  next
    case True
    then obtain r where r: "xc_at i s = Some r" "\<not> settled_status (ec_status r)"
      by blast
    let ?w = "if ir_ok res then succeed E r res now residual else fail_or_retry E r res now"
    show ?thesis
    proof (cases "?w s")
      case (Pair x t)
      have "x = Inr st \<Longrightarrow> cost_step base s t" for st
        using Pair cost_step_succeed [OF r] cost_step_fail_or_retry [OF r, of base E res now] by (auto split: if_splits)
      then show ?thesis
        using r Pair undone by (auto simp: finalize_xc_def Let_def savepoint_def andthen_def split: sum.split)
    qed
  qed
qed


lemma cost_step_record: "cost_step base s (snd (record_external_command cmd i run dedup s))"
proof (cases "require (\<not> (xc_integration cmd \<in> set dedup \<and> \<not> xc_dedup_supported cmd \<and> xc_job_handle cmd = None)) HighCostWithoutDedup s")
  case (Pair x s1)
  then have s1: "s1 = s"
    by (simp add: require_def)
  have fresh: "charged base s \<Longrightarrow> charged base (s\<lparr>external_commands := external_commands s @ [c]\<rparr>)"
    if "ec_command_id c \<notin> ec_command_id ` set (external_commands s)" "ec_cost_units c = None" for c
    using that by (auto simp: charged_def spent_def charge_def)
  have free: "xc_at i s = None \<Longrightarrow> i \<notin> ec_command_id ` set (external_commands s)"
    by (auto simp: xc_at_def find_None_iff)
  show ?thesis
    using Pair fresh free
    by (auto simp: record_external_command_def cost_step_def s1 split: option.split)
qed

lemma cost_step_dispatched:
  assumes "xc_at i s = Some r" "\<not> settled_status (ec_status r)"
  shows "cost_step base s (snd (update_xc i (\<lambda>x. x\<lparr>ec_status := ''dispatched'', ec_dispatched_at := Some now, ec_attempts := ec_attempts x + 1\<rparr>) s))"
  using cost_step_update [OF assms(1)] assms(2) by simp

lemma cost_step_claim: "cost_step base s (snd (claim_dispatch i now s))"
proof (cases "xc_at i s")
  case (Some r)
  then show ?thesis
    using cost_step_dispatched [of i s r base now]
    by (auto simp: claim_dispatch_def andthen_def update_xc_def settled_status_def costs.rel_refl)
qed (simp add: claim_dispatch_def costs.rel_refl)

lemma pending_found:
  assumes "charged base s" "sort_key ec_created_at (filter P (external_commands s)) = r # rs"
  shows "xc_at (ec_command_id r) s = Some r" "P r"
proof -
  have "r \<in> set (sort_key ec_created_at (filter P (external_commands s)))"
    by (simp only: assms(2) list.set_intros)
  then show "xc_at (ec_command_id r) s = Some r" "P r"
    using assms(1) by (auto simp: xc_at_def charged_def intro: find_key_unique)
qed

lemma cost_step_claim_next: "cost_step base s (snd (claim_next_pending registered now s))"
proof -
  let ?P = "\<lambda>r. ec_status r = ''pending'' \<and> ec_integration r \<in> set registered
       \<and> (case ec_next_attempt_at r of None \<Rightarrow> True | Some t \<Rightarrow> t \<le> now)"
  show ?thesis
  proof (cases "sort_key ec_created_at (filter ?P (external_commands s))")
    case (Cons r rs)
    have "charged base s \<Longrightarrow> cost_step base s (snd (update_xc (ec_command_id r)
        (\<lambda>x. x\<lparr>ec_status := ''dispatched'', ec_dispatched_at := Some now, ec_attempts := ec_attempts x + 1\<rparr>) s))"
      using pending_found [OF _ Cons, of base] by (intro cost_step_dispatched) (auto simp: settled_status_def)
    then show ?thesis
      using Cons by (simp add: claim_next_pending_def cost_step_def) (simp add: andthen_def update_xc_def)
  qed (simp add: claim_next_pending_def costs.rel_refl)
qed

lemma cost_step_sweep: "cost_step base s (snd (claim_stale_dispatched registered age now limit s))"
proof -
  have "\<exists>ids. snd (claim_stale_dispatched registered age now limit s)
      = s\<lparr>external_commands := map (\<lambda>r. if ec_command_id r \<in> set ids then r\<lparr>ec_dispatched_at := Some now\<rparr> else r) (external_commands s)\<rparr>"
    unfolding claim_stale_dispatched_def by (simp only: andthen_query andthen_update query_apply snd_conv) blast
  then obtain ids where e: "snd (claim_stale_dispatched registered age now limit s)
      = s\<lparr>external_commands := map (\<lambda>r. if ec_command_id r \<in> set ids then r\<lparr>ec_dispatched_at := Some now\<rparr> else r) (external_commands s)\<rparr>" ..
  show ?thesis
    unfolding e by (rule cost_step_map [where g = "\<lambda>r. if ec_command_id r \<in> set ids then r\<lparr>ec_dispatched_at := Some now\<rparr> else r"])
      (simp_all add: charged_def)
qed

lemma cost_step_accept: "cost_step base s (snd (accept_result i run v task s))"
proof (cases "xc_at i s")
  case (Some r)
  have "cost_step base s (snd (update_xc i (\<lambda>x. x\<lparr>ec_status := ''stale_ignored'', ec_completed_at := Some now\<rparr>) s))" for now
    using cost_step_update [OF Some] by (simp add: settled_status_def)
  then show ?thesis
    using Some by (auto simp: accept_result_def Let_def andthen_def update_xc_def costs.rel_refl)
qed (simp add: accept_result_def costs.rel_refl)

text \<open>
  The steps of any number of workers: a finalization may come with any result of the external system,
  from the worker that claimed the command, from one that recovered it, or from both.
\<close>

inductive xc_op :: "env \<Rightarrow> db \<Rightarrow> db \<Rightarrow> bool" for E where
  records: "xc_op E s (snd (record_external_command cmd i run dedup s))"
| claims: "xc_op E s (snd (claim_dispatch i now s))"
| claims_next: "xc_op E s (snd (claim_next_pending registered now s))"
| sweeps: "xc_op E s (snd (claim_stale_dispatched registered age now limit s))"
| finalizes: "xc_op E s (snd (finalize_xc E i res now reinvoked residual reconciled s))"
| accepts: "xc_op E s (snd (accept_result i run v task s))"
| elsewhere: "budget_frame s s' \<Longrightarrow> xc_op E s s'"

lemma xc_op_step: "xc_op E s s' \<Longrightarrow> cost_step base s s'"
  by (erule xc_op.cases)
     (use cost_step_record cost_step_claim cost_step_claim_next cost_step_sweep cost_step_finalize cost_step_accept cost_step_frame
      in \<open>auto simp: keeps_def\<close>)

lemma xc_runs_step: "(xc_op E)\<^sup>*\<^sup>* s s' \<Longrightarrow> cost_step base s s'"
  by (induction rule: rtranclp_induct) (auto intro: costs.rel_refl costs.rel_trans xc_op_step)

text \<open>C25: The cost of an external command is counted into its run's budget exactly once.  In every run of
  workers - claims, crashes and recoveries, finalizations racing on one command, results accepted or
  gone stale - the budget of a run is what it was plus the stored costs of its commands.\<close>

theorem cost_counted_once:
  assumes "(xc_op E)\<^sup>*\<^sup>* s0 s" "external_commands s0 = []" "distinct (map rw_run_id (run_workflow_state s0))"
    and "\<forall>r \<in> set (run_workflow_state s0). 0 \<le> rw_cost_units r" "r0 \<in> set (run_workflow_state s0)"
  shows "\<exists>r \<in> set (run_workflow_state s). rw_run_id r = rw_run_id r0 \<and> rw_cost_units r = rw_cost_units r0
    + sum_list (map (charge \<circ> ec_cost_units) (filter (\<lambda>c. ec_run_id c = Some (rw_run_id r0)) (external_commands s)))"
proof -
  define base where "base run = (case find (\<lambda>r. rw_run_id r = run) (run_workflow_state s0) of None \<Rightarrow> 0 | Some r \<Rightarrow> rw_cost_units r)" for run
  have b: "base (rw_run_id r) = rw_cost_units r" if "r \<in> set (run_workflow_state s0)" for r
    using find_key_unique [OF assms(3) that] by (simp add: base_def)
  have "charged base s0"
    using assms(2-4) b by (simp add: charged_def spent_def)
  then have ok: "charged base s" "map rw_run_id (run_workflow_state s) = map rw_run_id (run_workflow_state s0)"
    using xc_runs_step [OF assms(1), of base] by (simp_all add: cost_step_def)
  from ok(2) have "rw_run_id r0 \<in> rw_run_id ` set (run_workflow_state s)"
    using assms(5) by (metis list.set_map imageI)
  then obtain r where r: "r \<in> set (run_workflow_state s)" "rw_run_id r = rw_run_id r0"
    by auto
  have "spent (rw_run_id r0) s = sum_list (map (charge \<circ> ec_cost_units) (filter (\<lambda>c. ec_run_id c = Some (rw_run_id r0)) (external_commands s)))"
    by (simp add: spent_def sum_list_map_filter' comp_def)
  moreover have "rw_cost_units r - spent (rw_run_id r0) s = rw_cost_units r0"
    using ok(1) r b [OF assms(5)] by (auto simp: charged_def)
  ultimately show ?thesis
    using r by (intro bexI [of _ r]) auto
qed


text \<open>One command of a run that had spent 2, claimed, and finalized twice with a cost of 1.5: the second is too late.\<close>

definition budget_example :: db where
  "budget_example = empty_db\<lparr>run_workflow_state := [\<lparr>rw_run_id = ''r1'', rw_request_id = ''q1'', rw_table_version = 1,
     rw_cost_units = 20000, rw_candidates_explored = 0\<rparr>]\<rparr>"

definition paid_twice :: db where
  "paid_twice =
     (let cmd = \<lparr>xc_integration = ''erp'', xc_idempotency_key = ''k'', xc_request_payload = [], xc_expected_run_id = None,
            xc_expected_stream_version = None, xc_expected_task_id = None, xc_job_handle = None, xc_dedup_supported = True\<rparr>;
          res = \<lparr>ir_ok = True, ir_result = [], ir_cost_units = Some (Dec 15 (-1)), ir_job_handle = None, ir_permanent = False\<rparr>;
          s1 = snd (record_external_command cmd ''c1'' (Some ''r1'') [''sandbox''] budget_example);
          s2 = snd (finalize_xc plain_env ''c1'' res 0 False False False s1)
      in snd (finalize_xc plain_env ''c1'' res 0 True False False s2))"

lemma cost_counted_once_witness:
  "\<exists>r \<in> set (run_workflow_state paid_twice). rw_run_id r = ''r1'' \<and> rw_cost_units r = 35000"
proof -
  have run: "(xc_op plain_env)\<^sup>*\<^sup>* budget_example paid_twice"
    unfolding paid_twice_def Let_def
    by (rule converse_rtranclp_into_rtranclp, rule xc_op.records,
        rule converse_rtranclp_into_rtranclp, rule xc_op.finalizes, rule r_into_rtranclp, rule xc_op.finalizes)
  have spent: "map (charge \<circ> ec_cost_units) (filter (\<lambda>c. ec_run_id c = Some ''r1'') (external_commands paid_twice)) = [15000]"
    by (simp add: paid_twice_def budget_example_def empty_db_def Let_def record_external_command_def require_def xc_at_def finalize_xc_def
        settled_status_def succeed_def store_numeric_def add_units_def NUMERIC_18_4_def update_xc_def record_external_cost_def record_cost_def
        run_state_def enforce_budget_def plain_env_def check_cost_breaker_def attempt_def savepoint_def andthen_def charge_def)
  show ?thesis
    using cost_counted_once [OF run] by (simp add: budget_example_def empty_db_def) (use spent in simp)
qed

subsection \<open>Two gaps\<close>

text \<open>
  A cost of \<open>Infinity\<close> is meant to be refused by \<open>_record_external_cost\<close>, but \<open>_finalize\<close> first stores it
  in \<open>external_commands.cost_units\<close>: the update raises, the command stays \<open>dispatched\<close> and the
  recovery sweep calls the external system again.
\<close>

theorem infinite_cost_strands:
  assumes "xc_at i s = Some r" "ec_status r = ''dispatched''" "ir_ok res" "ir_cost_units res = Some Infinity"
  shows "fst (finalize_xc E i res now a b c s) = Inl NumericValueOutOfRange \<and> xc_at i (snd (finalize_xc E i res now a b c s)) = Some r"
  using assms by (simp add: finalize_xc_def Let_def settled_status_def succeed_def store_numeric_def savepoint_def andthen_def rollback_def xc_at_def)

text \<open>\<open>accept_result\<close> looks at neither the status nor the result: a pending command is accepted, each time anew.\<close>

theorem unfinished_result_accepted:
  assumes "xc_at i s = Some r" "ec_status r \<in> {''pending'', ''dispatched'', ''failed''}" "ec_result_event_id r = None"
    and "ec_expected_run_id r = None" "ec_expected_stream_version r = None" "ec_expected_task_id r = None"
  shows "accept_result i run v task s = (Inr \<lparr>ra_command_id = i, ra_accepted = True, ra_stale = False, ra_cached = False\<rparr>, s)"
  using assms by (auto simp: accept_result_def Let_def moved_on_def split: option.split)

end
