(* ===== verification/Event_Store.thy ===== *)
theory Event_Store
  imports Database
begin

text \<open>
  The append-only event log of \<open>events/store.py\<close>.  \<open>append_event\<close> is \<open>append_check\<close> (schema,
  inline-PII guard, optimistic-concurrency pre-check) followed by \<open>append_write\<close> (the \<open>INSERT\<close>
  inside a savepoint), so that the race of two writers that both passed the check is stated on the
  second half.
\<close>

definition stream_rows :: "string \<Rightarrow> string option \<Rightarrow> db \<Rightarrow> event_row list" where
  "stream_rows agg aid s = filter (\<lambda>r. er_aggregate r = agg \<and> aid = Some (er_aggregate_id r)) (events s)"

text \<open>\<open>SELECT coalesce(max(stream_version), 0)\<close>.\<close>

definition current_stream_version :: "string \<Rightarrow> string option \<Rightarrow> db \<Rightarrow> int" where
  "current_stream_version agg aid s =
     (case map er_stream_version (stream_rows agg aid s) of [] \<Rightarrow> 0 | v # vs \<Rightarrow> fold max vs v)"

text \<open>
  The \<open>CHECK\<close> of the migrations ties \<open>aggregate_id\<close> to the id column of its aggregate.  A
  comparison with \<open>NULL\<close> is unknown, and a \<open>CHECK\<close> refuses only what is false.
\<close>

definition eq_or_null :: "string option \<Rightarrow> string \<Rightarrow> bool" where
  "eq_or_null col v \<longleftrightarrow> col = None \<or> col = Some v"

definition aggregate_id_consistent :: "event_row \<Rightarrow> bool" where
  "aggregate_id_consistent r \<longleftrightarrow>
     (if er_aggregate r = ''request'' then eq_or_null (er_request_id r) (er_aggregate_id r)
      else if er_aggregate r = ''feature'' then eq_or_null (er_feature_id r) (er_aggregate_id r)
      else if er_aggregate r = ''run'' then eq_or_null (er_run_id r) (er_aggregate_id r)
      else if er_aggregate r = ''overlay_fact'' then
        eq_or_null (er_overlay_fact_id r) (er_aggregate_id r)
        \<and> er_request_id r = None \<and> er_feature_id r = None \<and> er_run_id r = None
      else if er_aggregate r = ''feature_contract'' then
        eq_or_null (er_feature_contract_id r) (er_aggregate_id r) \<and> er_run_id r \<noteq> None \<and> er_feature_id r = None
      else False)"

definition AGGREGATES :: "string list" where
  "AGGREGATES = [''request'', ''feature'', ''run'', ''overlay_fact'', ''feature_contract'']"

definition event_row_of :: "NewEvent \<Rightarrow> string \<Rightarrow> string \<Rightarrow> int \<Rightarrow> int \<Rightarrow> int \<Rightarrow> int \<Rightarrow> int \<Rightarrow> event_row" where
  "event_row_of new aid eid version table_version occurred seq recorded =
     \<lparr>er_event_id = eid, er_global_seq = seq, er_aggregate = ne_aggregate new, er_aggregate_id = aid,
      er_stream_version = version, er_type = ne_type new, er_schema_version = ne_schema_version new,
      er_table_version = table_version, er_actor = identity_to_jsonb (ne_actor new),
      er_payload = ne_payload new, er_provenance = provenance_to_jsonb (ne_provenance new),
      er_occurred_at = occurred, er_recorded_at = recorded,
      er_request_id = ne_request_id new, er_feature_id = ne_feature_id new, er_run_id = ne_run_id new,
      er_overlay_fact_id = ne_overlay_fact_id new, er_feature_contract_id = ne_feature_contract_id new,
      er_caused_by = ne_caused_by new\<rparr>"

definition stream_key :: "event_row \<Rightarrow> string \<times> string \<times> int" where
  "stream_key r = (er_aggregate r, er_aggregate_id r, er_stream_version r)"

text \<open>The \<open>INSERT\<close>: the sequence value is taken first and is not given back.\<close>

definition insert_event :: "NewEvent \<Rightarrow> string \<Rightarrow> int \<Rightarrow> int \<Rightarrow> int \<Rightarrow> event_row dbprog" where
  "insert_event new eid version table_version occurred = (\<lambda>s.
     let s1 = s\<lparr>gseq := gseq s + 1\<rparr>
     in case ne_aggregate_id new of
          None \<Rightarrow> (Inl NotNullViolation, s1)
        | Some aid \<Rightarrow>
            let row = event_row_of new aid eid version table_version occurred (gseq s + 1) (clock s)
            in if ne_aggregate new \<notin> set AGGREGATES then (Inl (CheckViolation ''events_aggregate_check''), s1)
               else if \<not> aggregate_id_consistent row then (Inl (CheckViolation ''events_aggregate_id_consistent''), s1)
               else if version \<le> 0 then (Inl (CheckViolation ''events_stream_version_check''), s1)
               else if eid \<in> er_event_id ` set (events s) then (Inl (UniqueViolation ''events_pkey''), s1)
               else if stream_key row \<in> stream_key ` set (events s)
                 then (Inl (UniqueViolation ''events_optimistic_concurrency''), s1)
               else if gseq s + 1 \<in> er_global_seq ` set (events s)
                 then (Inl (UniqueViolation ''events_global_seq_unique''), s1)
               else if \<exists>c \<in> set_option (ne_caused_by new). c \<notin> insert eid (er_event_id ` set (events s))
                 then (Inl ForeignKeyViolation, s1)
               else (Inr row, s1\<lparr>events := events s @ [row]\<rparr>))"

definition append_check :: "env \<Rightarrow> NewEvent \<Rightarrow> int \<Rightarrow> unit dbprog" where
  "append_check E new expected_version =
     andthen (lift (assert_writable (env_registry E) (ne_type new) (ne_schema_version new))) (\<lambda>_.
     andthen (lift (registry_validate (js_valid E) (env_registry E) (ne_type new) (ne_schema_version new) (ne_payload new))) (\<lambda>_.
     andthen (lift (assert_no_inline_pii (ne_payload new))) (\<lambda>_.
     andthen (query (current_stream_version (ne_aggregate new) (ne_aggregate_id new))) (\<lambda>current.
     require (current = expected_version) ConcurrencyError))))"

definition lost_race :: "exn \<Rightarrow> exn" where
  "lost_race e = (if e = UniqueViolation ''events_optimistic_concurrency'' then ConcurrencyError else e)"

definition appended_envelope :: "NewEvent \<Rightarrow> string \<Rightarrow> int \<Rightarrow> int \<Rightarrow> int \<Rightarrow> event_row \<Rightarrow> EventEnvelope" where
  "appended_envelope new event_id stream_version table_version occurred row =
     \<lparr>ev_event_id = event_id, ev_global_seq = er_global_seq row, ev_aggregate = ne_aggregate new,
      ev_aggregate_id = er_aggregate_id row, ev_stream_version = stream_version,
      ev_type = ne_type new, ev_schema_version = ne_schema_version new,
      ev_table_version = table_version, ev_actor = ne_actor new, ev_payload = ne_payload new,
      ev_provenance = ne_provenance new, ev_occurred_at = occurred,
      ev_recorded_at = er_recorded_at row, ev_request_id = ne_request_id new,
      ev_feature_id = ne_feature_id new, ev_run_id = ne_run_id new,
      ev_overlay_fact_id = ne_overlay_fact_id new,
      ev_feature_contract_id = ne_feature_contract_id new, ev_caused_by = ne_caused_by new\<rparr>"

definition append_write :: "env \<Rightarrow> NewEvent \<Rightarrow> int \<Rightarrow> int \<Rightarrow> EventEnvelope dbprog" where
  "append_write E new expected_version table_version =
     andthen (new_id E ''evt'') (\<lambda>event_id.
     andthen (query clock) (\<lambda>now.
     (let stream_version = expected_version + 1;
          occurred = (case ne_occurred_at new of Some t \<Rightarrow> t | None \<Rightarrow> now)
      in andthen (catch (savepoint rollback (insert_event new event_id stream_version table_version occurred))
                    (\<lambda>e. throw (lost_race e))) (\<lambda>row.
         ret (appended_envelope new event_id stream_version table_version occurred row)))))"

definition append_event :: "env \<Rightarrow> NewEvent \<Rightarrow> int \<Rightarrow> int \<Rightarrow> EventEnvelope dbprog" where
  "append_event E new expected_version table_version =
     andthen (append_check E new expected_version) (\<lambda>_. append_write E new expected_version table_version)"

text \<open>\<open>load_stream\<close>: \<open>upto_seq\<close> and \<open>expected\<close> are the optional arguments.\<close>

definition upcast_event :: "event_registry \<Rightarrow> (string \<times> int) list \<Rightarrow> EventEnvelope \<Rightarrow> exn + EventEnvelope" where
  "upcast_event reg expected event =
     (case map_of expected (ev_type event) of
        None \<Rightarrow> Inr event
      | Some target \<Rightarrow>
          if target = ev_schema_version event then Inr event
          else chain (upcast reg (ev_type event) (ev_payload event) (ev_schema_version event) target)
                 (\<lambda>payload. Inr (event\<lparr>ev_payload := payload, ev_schema_version := target\<rparr>)))"

definition load_stream_with ::
  "env \<Rightarrow> string \<Rightarrow> string option \<Rightarrow> int option \<Rightarrow> (string \<times> int) list \<Rightarrow> EventEnvelope list dbprog" where
  "load_stream_with E agg aid upto_seq expected =
     andthen (query (\<lambda>s. sort_key er_stream_version
       (filter (\<lambda>r. case upto_seq of None \<Rightarrow> True | Some n \<Rightarrow> er_global_seq r \<le> n) (stream_rows agg aid s)))) (\<lambda>rows.
     lift (map_chain (\<lambda>row. chain (row_to_event row) (upcast_event (env_registry E) expected)) rows))"

abbreviation load_stream :: "env \<Rightarrow> string \<Rightarrow> string option \<Rightarrow> EventEnvelope list dbprog" where
  "load_stream E agg aid \<equiv> load_stream_with E agg aid None []"

subsection \<open>The store invariant\<close>

text \<open>What a stored row satisfies: it was valid for its registered schema and free of inline PII.\<close>

definition row_ok :: "env \<Rightarrow> event_row \<Rightarrow> bool" where
  "row_ok E r \<longleftrightarrow> decodable r \<and> clean (er_payload r)
     \<and> registry_validate (js_valid E) (env_registry E) (er_type r) (er_schema_version r) (er_payload r) = Inr ()"

definition contiguous :: "event_row list \<Rightarrow> bool" where
  "contiguous rows \<longleftrightarrow> map er_stream_version rows = map int [1..<Suc (length rows)]"

definition wf_store :: "env \<Rightarrow> db \<Rightarrow> bool" where
  "wf_store E s \<longleftrightarrow>
     (\<forall>agg aid. contiguous (stream_rows agg (Some aid) s))
     \<and> sorted_wrt (<) (map er_global_seq (events s)) \<and> (\<forall>r \<in> set (events s). er_global_seq r \<le> gseq s)
     \<and> distinct (map er_event_id (events s)) \<and> (\<forall>r \<in> set (events s). row_ok E r)"

lemma stream_rows_None [simp]: "stream_rows agg None s = []"
  by (simp add: stream_rows_def)

lemma fold_max_le: "fold max vs v \<ge> (v :: int)" "x \<in> set vs \<Longrightarrow> x \<le> fold max vs v"
proof (induction vs arbitrary: v)
  case (Cons a vs)
  { case 1 from Cons.IH(1) [of "max a v"] show ?case by simp }
  { case 2 with Cons.IH [of "max a v"] show ?case by (auto intro: order_trans [OF max.cobounded1]) }
qed auto

lemma fold_max_in: "fold max vs v \<in> insert (v :: int) (set vs)"
proof (induction vs arbitrary: v)
  case (Cons a vs)
  from Cons.IH [of "max a v"] show ?case by (auto simp: max_def split: if_splits)
qed simp

lemma current_version_contiguous:
  assumes "contiguous (stream_rows agg aid s)"
  shows "current_stream_version agg aid s = int (length (stream_rows agg aid s))"
proof -
  let ?vs = "map er_stream_version (stream_rows agg aid s)"
  have vs: "?vs = map int [1..<Suc (length ?vs)]"
    using assms by (simp add: contiguous_def del: upt_Suc)
  show ?thesis
  proof (cases ?vs)
    case Nil
    then show ?thesis by (simp add: current_stream_version_def)
  next
    case (Cons v ws)
    have set: "set ?vs = int ` {1..<Suc (length ?vs)}"
      by (subst vs) (simp del: upt_Suc)
    have "int (length ?vs) \<in> set ?vs"
      unfolding set using Cons by (intro imageI) (auto simp: Cons_eq_map_conv)
    then have "int (length ?vs) \<le> fold max ws v"
      unfolding Cons using fold_max_le by auto
    moreover have "fold max ws v \<in> set ?vs"
      unfolding Cons using fold_max_in [of ws v] by simp
    then have "fold max ws v \<le> int (length ?vs)"
      unfolding set by auto
    ultimately have "fold max ws v = int (length (stream_rows agg aid s))"
      by simp
    then show ?thesis
      unfolding current_stream_version_def Cons by simp
  qed
qed

lemma contiguous_snoc:
  "contiguous rows \<Longrightarrow> er_stream_version r = int (length rows) + 1 \<Longrightarrow> contiguous (rows @ [r])"
  by (simp add: contiguous_def)

lemma decodable_event_row_of [simp]: "decodable (event_row_of new aid eid v tv oc sq rc)"
  by (simp add: decodable_def row_to_event_def event_row_of_def)

subsection \<open>What an append does\<close>

lemma append_check_state: "snd (append_check E new v s) = s"
  by (simp add: append_check_def andthen_def require_def split: sum.splits)

lemma append_check_Inr:
  "append_check E new v s = (Inr (), s') \<longleftrightarrow>
     s' = s \<and> assert_writable (env_registry E) (ne_type new) (ne_schema_version new) = Inr ()
     \<and> registry_validate (js_valid E) (env_registry E) (ne_type new) (ne_schema_version new) (ne_payload new) = Inr ()
     \<and> clean (ne_payload new) \<and> current_stream_version (ne_aggregate new) (ne_aggregate_id new) s = v"
  unfolding append_check_def andthen_eq_Inr
  by (auto simp: require_def assert_no_inline_pii_Inr split: if_splits)

lemma insert_event_Inr:
  assumes "insert_event new eid v tv oc s = (Inr row, s')"
  obtains aid where "ne_aggregate_id new = Some aid" "row = event_row_of new aid eid v tv oc (gseq s + 1) (clock s)"
    "s' = s\<lparr>gseq := gseq s + 1, events := events s @ [row]\<rparr>"
    "eid \<notin> er_event_id ` set (events s)" "stream_key row \<notin> stream_key ` set (events s)" "0 < v"
    "ne_aggregate new \<in> set AGGREGATES" "aggregate_id_consistent row"
  using assms by (auto simp: insert_event_def Let_def split: option.splits if_splits)

lemma insert_event_Inl:
  "insert_event new eid v tv oc s = (Inl e, s') \<Longrightarrow> s' = s\<lparr>gseq := gseq s + 1\<rparr>"
  by (auto simp: insert_event_def Let_def split: option.splits if_splits)

text \<open>The outcome of the second half, in one rule per result.\<close>

definition occurred_of :: "NewEvent \<Rightarrow> db \<Rightarrow> int" where
  "occurred_of new s = (case ne_occurred_at new of Some t \<Rightarrow> t | None \<Rightarrow> clock s)"

definition next_event_id :: "env \<Rightarrow> db \<Rightarrow> string" where
  "next_event_id E s = ''evt_'' @ py_ulid E (draws s)"

lemma append_write_eq:
  "append_write E new v tv s =
     (case insert_event new (next_event_id E s) (v + 1) tv (occurred_of new s) (s\<lparr>draws := Suc (draws s)\<rparr>) of
        (Inl e, t) \<Rightarrow> (Inl (lost_race e), rollback (s\<lparr>draws := Suc (draws s)\<rparr>) t)
      | (Inr row, t) \<Rightarrow> (Inr (appended_envelope new (next_event_id E s) (v + 1) tv (occurred_of new s) row), t))"
proof -
  have oc: "(case ne_occurred_at new of None \<Rightarrow> clock (s\<lparr>draws := Suc (draws s)\<rparr>) | Some t \<Rightarrow> t) = occurred_of new s"
    by (simp add: occurred_of_def split: option.splits)
  show ?thesis
    by (simp add: append_write_def new_id_def andthen_def Let_def catch_def savepoint_def oc next_event_id_def
        split: prod.split sum.split)
qed

lemma row_to_event_appended:
  "row = event_row_of new aid eid v tv oc sq rc \<Longrightarrow> row_to_event row = Inr (appended_envelope new eid v tv oc row)"
  by (simp add: row_to_event_def event_row_of_def appended_envelope_def)

lemma append_write_Inr:
  assumes "append_write E new v tv s = (Inr e, s')"
  obtains aid row where "ne_aggregate_id new = Some aid"
    "row = event_row_of new aid (next_event_id E s) (v + 1) tv (occurred_of new s) (gseq s + 1) (clock s)"
    "s' = s\<lparr>draws := Suc (draws s), gseq := gseq s + 1, events := events s @ [row]\<rparr>"
    "row_to_event row = Inr e"
    "next_event_id E s \<notin> er_event_id ` set (events s)" "stream_key row \<notin> stream_key ` set (events s)"
    "ne_aggregate new \<in> set AGGREGATES" "aggregate_id_consistent row"
proof -
  let ?s = "s\<lparr>draws := Suc (draws s)\<rparr>"
  obtain row where ins: "insert_event new (next_event_id E s) (v + 1) tv (occurred_of new s) ?s = (Inr row, s')"
    and e: "e = appended_envelope new (next_event_id E s) (v + 1) tv (occurred_of new s) row"
    using assms by (auto simp: append_write_eq split: prod.splits sum.splits)
  from insert_event_Inr [OF ins] obtain aid where a: "ne_aggregate_id new = Some aid"
    "row = event_row_of new aid (next_event_id E s) (v + 1) tv (occurred_of new s) (gseq s + 1) (clock s)"
    "s' = s\<lparr>draws := Suc (draws s), gseq := gseq s + 1, events := events s @ [row]\<rparr>"
    "next_event_id E s \<notin> er_event_id ` set (events s)" "stream_key row \<notin> stream_key ` set (events s)"
    "ne_aggregate new \<in> set AGGREGATES" "aggregate_id_consistent row"
    by simp metis
  from that [OF a(1-3) _ a(4-7)] row_to_event_appended [OF a(2)] e show thesis
    by simp
qed

lemma append_write_Inl:
  "append_write E new v tv s = (Inl e, s') \<Longrightarrow> s' = s\<lparr>draws := Suc (draws s), gseq := gseq s + 1\<rparr>"
  by (auto simp: append_write_eq rollback_def dest!: insert_event_Inl split: prod.splits sum.splits)


text \<open>Both halves together.\<close>

lemma append_event_Inr:
  assumes "append_event E new v tv s = (Inr e, s')"
  obtains aid row where "ne_aggregate_id new = Some aid"
    "row = event_row_of new aid (next_event_id E s) (v + 1) tv (occurred_of new s) (gseq s + 1) (clock s)"
    "s' = s\<lparr>draws := Suc (draws s), gseq := gseq s + 1, events := events s @ [row]\<rparr>"
    "row_to_event row = Inr e" "next_event_id E s \<notin> er_event_id ` set (events s)"
    "current_stream_version (ne_aggregate new) (Some aid) s = v" "row_ok E row"
proof -
  have c: "append_check E new v s = (Inr (), s)" and w: "append_write E new v tv s = (Inr e, s')"
    using assms append_check_state [of E new v s]
    by (auto simp: append_event_def andthen_eq_Inr)
  obtain aid row where a: "ne_aggregate_id new = Some aid"
    "row = event_row_of new aid (next_event_id E s) (v + 1) tv (occurred_of new s) (gseq s + 1) (clock s)"
    "s' = s\<lparr>draws := Suc (draws s), gseq := gseq s + 1, events := events s @ [row]\<rparr>"
    "row_to_event row = Inr e" "next_event_id E s \<notin> er_event_id ` set (events s)"
    using append_write_Inr [OF w] by metis
  have "row_ok E row"
    using c unfolding append_check_Inr a(2) by (simp add: row_ok_def) (simp add: event_row_of_def)
  moreover have "current_stream_version (ne_aggregate new) (Some aid) s = v"
    using c unfolding append_check_Inr a(1) by simp
  ultimately show thesis
    using that [OF a] by simp
qed

lemma append_event_Inl:
  assumes "append_event E new v tv s = (Inl e, s')"
  shows "s' = s \<or> s' = s\<lparr>draws := Suc (draws s), gseq := gseq s + 1\<rparr>"
  using assms append_check_state [of E new v s] append_write_Inl [of E new v tv s]
  by (cases "append_check E new v s") (auto simp: append_event_def andthen_def split: sum.splits prod.splits)

lemma event_row_of_simps [simp]:
  "er_aggregate (event_row_of new aid eid v tv oc sq rc) = ne_aggregate new"
  "er_aggregate_id (event_row_of new aid eid v tv oc sq rc) = aid"
  "er_event_id (event_row_of new aid eid v tv oc sq rc) = eid"
  "er_stream_version (event_row_of new aid eid v tv oc sq rc) = v"
  "er_global_seq (event_row_of new aid eid v tv oc sq rc) = sq"
  "er_type (event_row_of new aid eid v tv oc sq rc) = ne_type new"
  "er_payload (event_row_of new aid eid v tv oc sq rc) = ne_payload new"
  "er_run_id (event_row_of new aid eid v tv oc sq rc) = ne_run_id new"
  "er_request_id (event_row_of new aid eid v tv oc sq rc) = ne_request_id new"
  "er_feature_id (event_row_of new aid eid v tv oc sq rc) = ne_feature_id new"
  "er_actor (event_row_of new aid eid v tv oc sq rc) = identity_to_jsonb (ne_actor new)"
  "er_overlay_fact_id (event_row_of new aid eid v tv oc sq rc) = ne_overlay_fact_id new"
  "er_feature_contract_id (event_row_of new aid eid v tv oc sq rc) = ne_feature_contract_id new"
  by (simp_all add: event_row_of_def)

lemma stream_rows_snoc:
  "stream_rows agg aid (s\<lparr>draws := d, gseq := g, events := events s @ [row]\<rparr>) =
     stream_rows agg aid s @ (if er_aggregate row = agg \<and> aid = Some (er_aggregate_id row) then [row] else [])"
  by (simp add: stream_rows_def)

text \<open>
  One step of the log: what was written stays, in its place; the sequence only grows; and the store
  invariant is kept.
\<close>

definition store_step :: "env \<Rightarrow> db \<Rightarrow> db \<Rightarrow> bool" where
  "store_step E s s' \<longleftrightarrow> prefix (events s) (events s') \<and> gseq s \<le> gseq s' \<and> (wf_store E s \<longrightarrow> wf_store E s')"

interpretation log: state_rel "store_step E" for E
  by unfold_locales (auto simp: store_step_def dest: prefix_order.trans)

lemma wf_store_frame: "events s' = events s \<Longrightarrow> gseq s \<le> gseq s' \<Longrightarrow> wf_store E s \<Longrightarrow> wf_store E s'"
  by (fastforce simp: wf_store_def stream_rows_def)

lemma store_step_frame: "events s' = events s \<Longrightarrow> gseq s \<le> gseq s' \<Longrightarrow> store_step E s s'"
  by (auto simp: store_step_def intro: wf_store_frame)

lemma wf_store_append:
  assumes wf: "wf_store E s" and ok: "row_ok E row"
    and v: "er_stream_version row = current_stream_version (er_aggregate row) (Some (er_aggregate_id row)) s + 1"
    and g: "er_global_seq row = gseq s + 1" and id: "er_event_id row \<notin> er_event_id ` set (events s)"
  shows "wf_store E (s\<lparr>draws := d, gseq := gseq s + 1, events := events s @ [row]\<rparr>)"
proof -
  have c: "contiguous (stream_rows agg (Some aid) s)" for agg aid
    using wf by (simp add: wf_store_def)
  have "contiguous (stream_rows agg (Some aid) s @ [row])"
    if "er_aggregate row = agg" "er_aggregate_id row = aid" for agg aid
    using c [of agg aid] v that by (intro contiguous_snoc) (simp_all add: current_version_contiguous)
  with c have "contiguous (stream_rows agg (Some aid) (s\<lparr>draws := d, gseq := gseq s + 1, events := events s @ [row]\<rparr>))" for agg aid
    by (simp add: stream_rows_snoc)
  then show ?thesis
    using wf ok g id by (fastforce simp: wf_store_def sorted_wrt_append stream_rows_def)
qed

lemma keeps_append_event [keeps_intro]: "keeps (store_step E) (append_event E new v tv)"
proof (rule keepsI)
  fix s
  obtain r s' where r: "append_event E new v tv s = (r, s')"
    by (cases "append_event E new v tv s")
  show "store_step E s (snd (append_event E new v tv s))"
  proof (cases r)
    case (Inl e)
    then show ?thesis
      using append_event_Inl r by (fastforce intro: store_step_frame)
  next
    case (Inr e)
    from append_event_Inr [OF r [unfolded Inr]] obtain aid row where a:
      "row = event_row_of new aid (next_event_id E s) (v + 1) tv (occurred_of new s) (gseq s + 1) (clock s)"
      "s' = s\<lparr>draws := Suc (draws s), gseq := gseq s + 1, events := events s @ [row]\<rparr>"
      "next_event_id E s \<notin> er_event_id ` set (events s)"
      "current_stream_version (ne_aggregate new) (Some aid) s = v" "row_ok E row"
      by metis
    have "wf_store E s \<Longrightarrow> wf_store E s'"
      unfolding a(2) by (rule wf_store_append) (use a in simp_all)
    then show ?thesis
      by (simp add: r store_step_def a(2))
  qed
qed

text \<open>When an append must succeed: nothing else can stop it.\<close>

lemma append_event_total:
  assumes "wf_store E s" "assert_writable (env_registry E) (ne_type new) (ne_schema_version new) = Inr ()"
    and "registry_validate (js_valid E) (env_registry E) (ne_type new) (ne_schema_version new) (ne_payload new) = Inr ()"
    and "clean (ne_payload new)" "ne_aggregate_id new = Some aid" "ne_aggregate new \<in> set AGGREGATES"
    and "current_stream_version (ne_aggregate new) (Some aid) s = v"
    and "aggregate_id_consistent (event_row_of new aid [] 0 0 0 0 0)"
    and "next_event_id E s \<notin> er_event_id ` set (events s)" "ne_caused_by new = None"
  shows "\<exists>e s'. append_event E new v tv s = (Inr e, s')"
proof -
  have c: "append_check E new v s = (Inr (), s)"
    unfolding append_check_Inr using assms by simp
  have len: "v = int (length (stream_rows (ne_aggregate new) (Some aid) s))"
    using assms(1,7) current_version_contiguous [of "ne_aggregate new" "Some aid" s] by (simp add: wf_store_def)
  have cont: "contiguous (stream_rows (ne_aggregate new) (Some aid) s)"
    using assms(1) by (simp add: wf_store_def)
  have "er_stream_version r \<le> v" if "r \<in> set (stream_rows (ne_aggregate new) (Some aid) s)" for r
  proof -
    have "er_stream_version r \<in> int ` set [1..<Suc (length (stream_rows (ne_aggregate new) (Some aid) s))]"
      using that cont unfolding contiguous_def by (metis image_eqI list.set_map)
    then show ?thesis using len by auto
  qed
  then have key: "stream_key (event_row_of new aid eid (v + 1) tv oc sq rc) \<notin> stream_key ` set (events s)" for eid oc sq rc
    by (fastforce simp: stream_key_def event_row_of_def stream_rows_def)
  have seq: "gseq s + 1 \<notin> er_global_seq ` set (events s)"
    using assms(1) by (fastforce simp: wf_store_def)
  have "aggregate_id_consistent (event_row_of new aid eid (v + 1) tv oc sq rc)" for eid oc sq rc
    using assms(8) unfolding aggregate_id_consistent_def event_row_of_simps by assumption
  then have "\<exists>row. fst (insert_event new (next_event_id E s) (v + 1) tv (occurred_of new s) (s\<lparr>draws := Suc (draws s)\<rparr>)) = Inr row"
    using assms key seq len by (simp add: insert_event_def Let_def)
  then have "\<exists>e s'. append_write E new v tv s = (Inr e, s')"
    by (auto simp: append_write_eq split: prod.splits sum.splits)
  then show ?thesis
    by (auto simp: append_event_def andthen_def c)
qed

lemmas log_keeps_rules = log.keeps_rules

lemma keeps_new_id [keeps_intro]: "keeps (store_step E) (new_id F pre)"
  by (rule keepsI) (simp add: new_id_def store_step_frame)

lemma keeps_mint_id [keeps_intro]: "keeps (store_step E) (mint_id F pre)"
  by (rule keepsI) (simp add: mint_id_def store_step_frame)

lemma keeps_nextval [keeps_intro]: "keeps (store_step E) nextval"
  by (rule keepsI) (simp add: nextval_def store_step_frame)

lemma keeps_load_stream [keeps_intro]: "keeps (store_step E) (load_stream_with F agg aid u expected)"
  unfolding load_stream_with_def by (intro log_keeps_rules)

subsection \<open>Reading a stream back\<close>

lemma sorted_contiguous: "contiguous rows \<Longrightarrow> sorted (map er_stream_version rows)"
  by (simp add: contiguous_def sorted_map sorted_wrt_upt del: upt_Suc)

lemma sort_contiguous: "contiguous rows \<Longrightarrow> sort_key er_stream_version rows = rows"
  by (rule sort_key_id_if_sorted) (rule sorted_contiguous)

lemma wf_stream: "wf_store E s \<Longrightarrow> contiguous (stream_rows agg aid s)"
  by (cases aid) (auto simp: wf_store_def contiguous_def)

lemma wf_decodable: "wf_store E s \<Longrightarrow> r \<in> set (stream_rows agg aid s) \<Longrightarrow> decodable r"
  by (auto simp: wf_store_def stream_rows_def row_ok_def)

lemma upcast_event_none [simp]: "upcast_event reg [] e = Inr e"
  by (simp add: upcast_event_def)

text \<open>In a well-formed store a stream loads, and gives the decoded rows in the order written.\<close>

lemma load_stream_wf:
  assumes "wf_store E s"
  shows "load_stream F agg aid s = (Inr (map event_of (stream_rows agg aid s)), s)"
proof -
  have "map_chain (\<lambda>row. chain (row_to_event row) (upcast_event (env_registry F) [])) (stream_rows agg aid s)
      = Inr (map event_of (stream_rows agg aid s))"
    using wf_decodable [OF assms] by (intro map_chain_Inr) (simp add: decodable_event_of)
  then show ?thesis
    by (simp add: load_stream_with_def sort_contiguous [OF wf_stream [OF assms]])
qed

lemma load_stream_state: "snd (load_stream_with F agg aid u expected s) = s"
  by (simp add: load_stream_with_def)

subsection \<open>A concrete environment and event\<close>

definition sample_actor :: IdentityEnvelope where
  "sample_actor = \<lparr>subject = ''user:ana'', actor_kind = ''human'', authenticated = True, auth_method = ''oidc'',
     role_claims = [''data_scientist''], groups = [], tenant = None, on_behalf_of = None, impersonation = None,
     break_glass = False, source_of_authority = None, attestation = None\<rparr>"

definition sample_provenance :: ProvenanceEnvelope where
  "sample_provenance = \<lparr>pv_artifact_type = ''APPROVAL_RECORD'', pv_schema_version = 1, pv_producing_component = ''c'',
     pv_tool_versions = [], pv_dsl_operation_catalog_version = None, pv_source_snapshots = [],
     pv_event_registry_snapshot = None, pv_doc_registry_snapshot = None, pv_evaluation_dataset_ref = None,
     pv_holdout_partition_spec = None, pv_random_seed = None, pv_candidates_explored_count = None, pv_external_refs = []\<rparr>"

definition sample_event :: "string \<Rightarrow> string \<Rightarrow> NewEvent" where
  "sample_event run typ = \<lparr>ne_aggregate = ''run'', ne_aggregate_id = Some run, ne_type = typ, ne_schema_version = 1,
     ne_payload = [(''run_id'', JStr run)], ne_actor = sample_actor, ne_provenance = sample_provenance,
     ne_request_id = None, ne_feature_id = None, ne_run_id = Some run, ne_overlay_fact_id = None,
     ne_feature_contract_id = None, ne_caused_by = None, ne_occurred_at = None\<rparr>"

definition sample_types :: "string list" where
  "sample_types = [''RUN_CREATED'', ''RUN_PARKED'', ''RUN_UNPARKED'', ''RUN_REJECTED'', ''REQUEST_CREATED'', ''DUPLICATE_OF'',
     ''VERSION_ACTIVATED'', ''VERSION_SUPERSEDED'', ''VERSION_MINTED'']"

definition sample_env :: env where
  "sample_env = \<lparr>env_registry = \<lparr>rg_schemas = map (\<lambda>t. ((t, 1), [])) sample_types,
       rg_owners = map (\<lambda>t. ((t, 1), ''o'')) sample_types,
       rg_status = map (\<lambda>t. ((t, 1), ''active'')) sample_types, rg_upcasters = []\<rparr>,
     js_valid = schema_subset_valid, py_ulid = (\<lambda>n. replicate n CHR ''A''), urandom = (\<lambda>n. n),
     hmac_sha256 = (\<lambda>k m. k @ m), audit_hmac_key = Some ''k'', exn_text = (\<lambda>_. []),
     uniform = (\<lambda>_ a _. a), sha256_of = (\<lambda>t. t),
     cost_ceilings = Inr \<lparr>cc_per_run = None, cc_per_request = None, cc_max_candidates = None\<rparr>,
     external_max_attempts = 10, uuid4_hex = (\<lambda>n. dec n)\<rparr>"

lemma wf_empty_db: "wf_store E empty_db"
  by (simp add: wf_store_def empty_db_def stream_rows_def contiguous_def)

subsection \<open>Properties\<close>

text \<open>
  C31: a successful append is the next event of exactly one stream.  Its version is one more than the
  number of events the stream had, which is the version the caller expected; loading the stream
  afterwards gives the earlier events and then the returned one; and every other stream is unchanged.
\<close>

theorem append_reads_back:
  assumes "wf_store E s" and "append_event E new v tv s = (Inr e, s')"
  shows "load_stream F (ne_aggregate new) (ne_aggregate_id new) s' =
      (Inr (map event_of (stream_rows (ne_aggregate new) (ne_aggregate_id new) s) @ [e]), s')
    \<and> v = int (length (stream_rows (ne_aggregate new) (ne_aggregate_id new) s)) \<and> ev_stream_version e = v + 1
    \<and> (\<forall>agg aid. (agg, aid) \<noteq> (ne_aggregate new, ne_aggregate_id new) \<longrightarrow> stream_rows agg aid s' = stream_rows agg aid s)"
proof -
  from append_event_Inr [OF assms(2)] obtain aid row where a: "ne_aggregate_id new = Some aid"
    "row = event_row_of new aid (next_event_id E s) (v + 1) tv (occurred_of new s) (gseq s + 1) (clock s)"
    "s' = s\<lparr>draws := Suc (draws s), gseq := gseq s + 1, events := events s @ [row]\<rparr>"
    "row_to_event row = Inr e" "current_stream_version (ne_aggregate new) (Some aid) s = v"
    by metis
  have wf': "wf_store E s'"
    using keepsD [OF keeps_append_event assms(2)] assms(1) by (simp add: store_step_def)
  have e: "event_of row = e" "ev_stream_version e = v + 1"
    using a(4) event_of_fields(2) [of row] by (auto simp: event_of_def a(2))
  have "stream_rows (ne_aggregate new) (Some aid) s' = stream_rows (ne_aggregate new) (Some aid) s @ [row]"
    unfolding a(3) stream_rows_snoc by (simp add: a(2))
  moreover have "stream_rows agg b s' = stream_rows agg b s" if "(agg, b) \<noteq> (ne_aggregate new, Some aid)" for agg b
    unfolding a(3) stream_rows_snoc using that by (auto simp: a(2))
  moreover have "v = int (length (stream_rows (ne_aggregate new) (Some aid) s))"
    using a(5) current_version_contiguous [OF wf_stream [OF assms(1)]] by simp
  ultimately show ?thesis
    using load_stream_wf [OF wf'] e by (simp add: a(1))
qed

theorem append_reads_back_witness:
  "\<exists>e s'. append_event sample_env (sample_event ''run_1'' ''RUN_CREATED'') 0 1 empty_db = (Inr e, s')
     \<and> load_stream sample_env ''run'' (Some ''run_1'') s' = (Inr [e], s')"
proof -
  have ok: "\<not> isl (fst (append_event sample_env (sample_event ''run_1'' ''RUN_CREATED'') 0 1 empty_db))"
    by code_simp
  then obtain e s' where r: "append_event sample_env (sample_event ''run_1'' ''RUN_CREATED'') 0 1 empty_db = (Inr e, s')"
    by (metis isl_def obj_sumE prod.collapse)
  from append_reads_back [OF wf_empty_db r, of sample_env] r show ?thesis
    by (simp add: sample_event_def stream_rows_def empty_db_def)
qed

text \<open>
  C32: optimistic concurrency has one winner.  When one writer's insert at a stream version has
  committed, a second writer that had passed its check for the same stream and version writes nothing,
  however much the log has grown in between; it gets \<open>ConcurrencyError\<close>, unless its row would break
  another constraint first.
\<close>

theorem append_race_one_winner:
  assumes "append_write E new v tv s = (Inr e, s1)" and "prefix (events s1) (events s2)"
    and "ne_aggregate new' = ne_aggregate new" "ne_aggregate_id new' = ne_aggregate_id new"
    and "append_write E new' v tv' s2 = (r, s3)"
  shows "events s3 = events s2 \<and> isl r
    \<and> (next_event_id E s2 \<notin> er_event_id ` set (events s2) \<longrightarrow> 0 \<le> v \<longrightarrow>
       (\<forall>aid eid sq rc oc. ne_aggregate_id new' = Some aid \<longrightarrow>
          aggregate_id_consistent (event_row_of new' aid eid (v + 1) tv' oc sq rc)) \<longrightarrow> r = Inl ConcurrencyError)"
proof -
  obtain aid row where a: "ne_aggregate_id new = Some aid"
    "row = event_row_of new aid (next_event_id E s) (v + 1) tv (occurred_of new s) (gseq s + 1) (clock s)"
    "s1 = s\<lparr>draws := Suc (draws s), gseq := gseq s + 1, events := events s @ [row]\<rparr>" "ne_aggregate new \<in> set AGGREGATES"
    using append_write_Inr [OF assms(1)] by metis
  have row: "row \<in> set (events s2)"
    using assms(2) a(3) by (auto dest: set_mono_prefix)
  have key: "stream_key (event_row_of new' aid eid (v + 1) tv' oc sq rc) = stream_key row" for eid oc sq rc
    by (simp add: stream_key_def a(2) assms(3))
  have no: "\<not> (\<exists>e'. r = Inr e')"
    using append_write_Inr [of E new' v tv' s2 _ s3] assms(4,5) a(1) row key by (metis imageI option.inject)
  then obtain x where r: "r = Inl x" by (cases r) auto
  have "x = ConcurrencyError" if "next_event_id E s2 \<notin> er_event_id ` set (events s2)" "0 \<le> v"
    "\<And>eid sq rc oc. aggregate_id_consistent (event_row_of new' aid eid (v + 1) tv' oc sq rc)"
    using assms(5) that row key a(4) assms(3,4) a(1)
    by (auto simp: append_write_eq insert_event_def Let_def r lost_race_def split: if_splits)
  then show ?thesis
    using append_write_Inl [of E new' v tv' s2 x s3] assms(4,5) a(1) by (auto simp: r)
qed

theorem append_race_one_winner_witness:
  "fst (append_write sample_env (sample_event ''run_1'' ''RUN_PARKED'') 0 1
     (snd (append_write sample_env (sample_event ''run_1'' ''RUN_CREATED'') 0 1 empty_db))) = Inl ConcurrencyError"
proof -
  let ?w = "append_write sample_env (sample_event ''run_1'' ''RUN_CREATED'') 0 1 empty_db"
  have "\<not> isl (fst ?w)"
    by code_simp
  then obtain e where w: "?w = (Inr e, snd ?w)"
    by (metis isl_def obj_sumE prod.collapse)
  have fresh: "next_event_id sample_env (snd ?w) \<notin> er_event_id ` set (events (snd ?w))"
    by code_simp
  obtain r s3 where r: "append_write sample_env (sample_event ''run_1'' ''RUN_PARKED'') 0 1 (snd ?w) = (r, s3)"
    by fastforce
  have "r = Inl ConcurrencyError"
    using append_race_one_winner [OF w prefix_order.refl _ _ r] fresh
    by (simp add: sample_event_def aggregate_id_consistent_def eq_or_null_def event_row_of_def)
  with r show ?thesis by simp
qed

end
