(* ===== verification/Aggregates.thy ===== *)
theory Aggregates
  imports Event_Store
begin

text \<open>
  The request and run aggregates: the append helper of \<open>aggregates/_append.py\<close>, the concept claim,
  and the command handlers of \<open>aggregates/request_aggregate.py\<close> and \<open>aggregates/run_lifecycle.py\<close>.
  A handler is a program over the database that returns a \<open>CommandResult\<close>.  An argument the code
  uses as an identifier is a text; where Python would go on with a value of another type the model
  raises \<open>TypeError\<close>.
\<close>

subsection \<open>The append helper\<close>

record append_spec =
  ap_aggregate :: string
  ap_aggregate_id :: "string option"
  ap_type :: string
  ap_payload :: dict
  ap_actor :: IdentityEnvelope
  ap_provenance :: "ProvenanceEnvelope option"
  ap_request_id :: "string option"
  ap_feature_id :: "string option"
  ap_run_id :: "string option"
  ap_overlay_fact_id :: "string option"
  ap_feature_contract_id :: "string option"
  ap_caused_by :: "string option"
  ap_expected_version :: "int option"

text \<open>The keyword arguments every caller gives; the others default to \<open>None\<close>.\<close>

definition event_spec :: "string \<Rightarrow> string option \<Rightarrow> string \<Rightarrow> dict \<Rightarrow> IdentityEnvelope \<Rightarrow> append_spec" where
  "event_spec agg aid typ payload actor =
     \<lparr>ap_aggregate = agg, ap_aggregate_id = aid, ap_type = typ, ap_payload = payload, ap_actor = actor,
      ap_provenance = None, ap_request_id = None, ap_feature_id = None, ap_run_id = None,
      ap_overlay_fact_id = None, ap_feature_contract_id = None, ap_caused_by = None, ap_expected_version = None\<rparr>"

definition current_version :: "env \<Rightarrow> string \<Rightarrow> string option \<Rightarrow> int dbprog" where
  "current_version E agg aid =
     andthen (load_stream E agg aid) (\<lambda>stream.
     ret (if stream = [] then 0 else ev_stream_version (last stream)))"

definition table_version_for :: "string \<Rightarrow> string option \<Rightarrow> db \<Rightarrow> int" where
  "table_version_for agg aid s =
     (if agg = ''run'' then
        (case aid of None \<Rightarrow> 1
         | Some run_id \<Rightarrow> (case find (\<lambda>r. rw_run_id r = run_id) (run_workflow_state s) of None \<Rightarrow> 1 | Some r \<Rightarrow> rw_table_version r))
      else 1)"

definition provenance_for :: "int option \<Rightarrow> ProvenanceEnvelope" where
  "provenance_for candidates_explored =
     \<lparr>pv_artifact_type = ''APPROVAL_RECORD'', pv_schema_version = 1,
      pv_producing_component = ''featuregen-aggregates@0.1.0'', pv_tool_versions = [],
      pv_dsl_operation_catalog_version = None, pv_source_snapshots = [], pv_event_registry_snapshot = None,
      pv_doc_registry_snapshot = None, pv_evaluation_dataset_ref = None, pv_holdout_partition_spec = None,
      pv_random_seed = None, pv_candidates_explored_count = candidates_explored, pv_external_refs = []\<rparr>"

definition new_event_of :: "append_spec \<Rightarrow> int \<Rightarrow> NewEvent" where
  "new_event_of sp now =
     \<lparr>ne_aggregate = ap_aggregate sp, ne_aggregate_id = ap_aggregate_id sp, ne_type = ap_type sp,
      ne_schema_version = 1, ne_payload = ap_payload sp, ne_actor = ap_actor sp,
      ne_provenance = (case ap_provenance sp of None \<Rightarrow> provenance_for None | Some p \<Rightarrow> p),
      ne_request_id = ap_request_id sp, ne_feature_id = ap_feature_id sp, ne_run_id = ap_run_id sp,
      ne_overlay_fact_id = ap_overlay_fact_id sp, ne_feature_contract_id = ap_feature_contract_id sp,
      ne_caused_by = ap_caused_by sp, ne_occurred_at = Some now\<rparr>"

definition append :: "env \<Rightarrow> append_spec \<Rightarrow> EventEnvelope dbprog" where
  "append E sp =
     andthen (case ap_expected_version sp of
                None \<Rightarrow> current_version E (ap_aggregate sp) (ap_aggregate_id sp)
              | Some v \<Rightarrow> ret v) (\<lambda>expected_version.
     andthen (query clock) (\<lambda>now.
     andthen (query (table_version_for (ap_aggregate sp) (ap_aggregate_id sp))) (\<lambda>table_version.
     append_event E (new_event_of sp now) expected_version table_version)))"

type_synonym handler = "env \<Rightarrow> Command \<Rightarrow> CommandResult dbprog"

text \<open>Append one event and accept with it, as most handlers end.\<close>

definition append_accept :: "env \<Rightarrow> append_spec \<Rightarrow> string option \<Rightarrow> CommandResult dbprog" where
  "append_accept E sp aid = andthen (append E sp) (\<lambda>evt. ret (accept aid [ev_event_id evt]))"

subsection \<open>Run lifecycle\<close>

definition TERMINAL_RUN_TYPES :: "string list" where
  "TERMINAL_RUN_TYPES = [''RUN_REJECTED'', ''RUN_CANCELLED'', ''RUN_WITHDRAWN'']"

definition run_is_terminal :: "env \<Rightarrow> string option \<Rightarrow> bool dbprog" where
  "run_is_terminal E run_id =
     andthen (load_stream E ''run'' run_id) (\<lambda>stream.
     ret (list_ex (\<lambda>e. ev_type e \<in> set TERMINAL_RUN_TYPES) stream))"

definition run_event :: "string option \<Rightarrow> string \<Rightarrow> dict \<Rightarrow> IdentityEnvelope \<Rightarrow> append_spec" where
  "run_event run_id typ payload actor = (event_spec ''run'' run_id typ payload actor)\<lparr>ap_run_id := run_id\<rparr>"

definition terminal_command :: "string \<Rightarrow> handler" where
  "terminal_command event_type E cmd =
     andthen (run_is_terminal E (cm_aggregate_id cmd)) (\<lambda>terminal.
     if terminal then ret (refuse (cm_aggregate_id cmd) ''run already terminal'')
     else append_accept E (run_event (cm_aggregate_id cmd) event_type
            [(''run_id'', ostr (cm_aggregate_id cmd)), (''reason'', dget (cm_args cmd) ''reason'')] (cm_actor cmd))
            (cm_aggregate_id cmd))"

definition reject_command :: handler where "reject_command = terminal_command ''RUN_REJECTED''"
definition cancel_command :: handler where "cancel_command = terminal_command ''RUN_CANCELLED''"
definition withdraw_command :: handler where "withdraw_command = terminal_command ''RUN_WITHDRAWN''"

definition park_command :: handler where
  "park_command E cmd =
     append_accept E (run_event (cm_aggregate_id cmd) ''RUN_PARKED''
       [(''run_id'', ostr (cm_aggregate_id cmd)), (''owner'', dget (cm_args cmd) ''owner''),
        (''waiting_on_fact'', dget (cm_args cmd) ''waiting_on_fact'')] (cm_actor cmd))
       (cm_aggregate_id cmd)"

definition unpark_command :: handler where
  "unpark_command E cmd =
     append_accept E (run_event (cm_aggregate_id cmd) ''RUN_UNPARKED''
       [(''run_id'', ostr (cm_aggregate_id cmd))] (cm_actor cmd)) (cm_aggregate_id cmd)"

definition candidate_added :: "string option \<Rightarrow> string option \<Rightarrow> IdentityEnvelope \<Rightarrow> append_spec" where
  "candidate_added request_id run_id actor =
     (event_spec ''request'' request_id ''CANDIDATE_ADDED''
        [(''request_id'', ostr request_id), (''run_id'', ostr run_id)] actor)
     \<lparr>ap_request_id := request_id, ap_run_id := run_id\<rparr>"

definition reopen_as_new_run_command :: handler where
  "reopen_as_new_run_command E cmd =
     andthen (lift (dict_str (cm_args cmd) ''source_run_id'')) (\<lambda>source_run.
     andthen (load_stream E ''run'' (Some source_run)) (\<lambda>src_stream.
     if \<not> list_ex (\<lambda>e. ev_type e = ''RUN_REJECTED'') src_stream
     then ret (refuse (Some source_run) ''reopen requires a rejected run'')
     else
       (let request_id = (case find (\<lambda>e. ev_type e = ''RUN_CREATED'') src_stream of
                            None \<Rightarrow> None | Some e \<Rightarrow> ev_request_id e)
        in andthen (mint_id E ''run'') (\<lambda>new_run.
           andthen (append E ((run_event (Some new_run) ''RUN_CREATED''
             [(''run_id'', JStr new_run), (''request_id'', ostr request_id), (''reopened_from'', JStr source_run)]
             (cm_actor cmd))\<lparr>ap_request_id := request_id, ap_expected_version := Some 0\<rparr>)) (\<lambda>created.
           if request_id = None then ret (accept (Some new_run) [ev_event_id created])
           else andthen (append E (candidate_added request_id (Some new_run) (cm_actor cmd))) (\<lambda>added.
             ret (accept (Some new_run) [ev_event_id created, ev_event_id added])))))))"

text \<open>
  \<open>SELECT DISTINCT run_id ... WHERE type = 'RUN_PARKED' AND payload->>'waiting_on_fact' = fact AND
  run_id NOT IN (...)\<close>, in the order of first occurrence.  A \<open>NULL\<close> run id is \<open>NOT IN\<close> only the
  empty set.
\<close>

definition runs_parked_on_fact :: "string \<Rightarrow> db \<Rightarrow> string option list" where
  "runs_parked_on_fact fact_key s =
     (let unparked = List.map_filter (\<lambda>r. if er_type r = ''RUN_UNPARKED'' then er_run_id r else None) (events s)
      in rev (remdups (rev (map er_run_id (filter (\<lambda>r. er_type r = ''RUN_PARKED''
           \<and> dget (er_payload r) ''waiting_on_fact'' = JStr fact_key
           \<and> (case er_run_id r of None \<Rightarrow> unparked = [] | Some run_id \<Rightarrow> run_id \<notin> set unparked)) (events s))))))"

definition resume_one :: "env \<Rightarrow> string \<Rightarrow> IdentityEnvelope \<Rightarrow> string option \<Rightarrow> string list dbprog" where
  "resume_one E fact_key actor run_id =
     andthen (append E (run_event run_id ''FACT_CONFIRMED_RESUME''
       [(''run_id'', ostr run_id), (''fact_key'', JStr fact_key)] actor)) (\<lambda>resume.
     andthen (append E (run_event run_id ''RUN_UNPARKED'' [(''run_id'', ostr run_id)] actor)) (\<lambda>unparked.
     ret [ev_event_id resume, ev_event_id unparked]))"

definition or_else :: "string option \<Rightarrow> string \<Rightarrow> string option" where
  "or_else x d = (case x of None \<Rightarrow> Some d | Some [] \<Rightarrow> Some d | Some v \<Rightarrow> Some v)"

definition fact_confirmed_resume_command :: handler where
  "fact_confirmed_resume_command E cmd =
     andthen (lift (dict_str (cm_args cmd) ''fact_key'')) (\<lambda>fact_key.
     andthen (query (runs_parked_on_fact fact_key)) (\<lambda>runs.
     andthen (for_each runs (resume_one E fact_key (cm_actor cmd))) (\<lambda>produced.
     ret (accept (or_else (cm_aggregate_id cmd) fact_key) (concat produced)))))"

definition source_changed_revalidate_command :: handler where
  "source_changed_revalidate_command E cmd =
     andthen (run_is_terminal E (cm_aggregate_id cmd)) (\<lambda>terminal.
     if terminal then ret (refuse (cm_aggregate_id cmd) ''run is terminal; nothing to revalidate'')
     else andthen (lift (dict_item (cm_args cmd) ''source_ref'')) (\<lambda>source_ref.
       append_accept E (run_event (cm_aggregate_id cmd) ''SOURCE_CHANGED_REVALIDATE''
         [(''run_id'', ostr (cm_aggregate_id cmd)), (''source_ref'', source_ref),
          (''new_snapshot'', dget (cm_args cmd) ''new_snapshot'')] (cm_actor cmd)) (cm_aggregate_id cmd)))"

text \<open>\<open>runtime/_park.py\<close>: whether the run is parked now.\<close>

definition run_is_parked :: "env \<Rightarrow> string option \<Rightarrow> bool dbprog" where
  "run_is_parked E run_id =
     andthen (load_stream E ''run'' run_id) (\<lambda>stream.
     ret (foldl (\<lambda>parked e. if ev_type e = ''RUN_PARKED'' then True
                  else if ev_type e = ''RUN_UNPARKED'' then False else parked) False stream))"

subsection \<open>Requests and candidates\<close>

text \<open>\<open>INSERT ... ON CONFLICT (concept_key) DO NOTHING\<close>, then who holds the key.\<close>

definition claim_concept :: "string \<Rightarrow> string \<Rightarrow> string option dbprog" where
  "claim_concept concept_key request_id = (\<lambda>s.
     case map_of (concept_claims s) concept_key of
       None \<Rightarrow> (Inr None, s\<lparr>concept_claims := concept_claims s @ [(concept_key, request_id)]\<rparr>)
     | Some winner \<Rightarrow> (Inr (Some winner), s))"

definition request_event :: "string option \<Rightarrow> string \<Rightarrow> dict \<Rightarrow> IdentityEnvelope \<Rightarrow> append_spec" where
  "request_event request_id typ payload actor =
     (event_spec ''request'' request_id typ payload actor)\<lparr>ap_request_id := request_id\<rparr>"

definition create_request_command :: handler where
  "create_request_command E cmd =
     andthen (mint_id E ''req'') (\<lambda>request_id.
     andthen (lift (dict_str (cm_args cmd) ''feature_concept'')) (\<lambda>concept.
     (let concept_key = normalize_concept_key concept
      in andthen (append E ((request_event (Some request_id) ''REQUEST_CREATED''
           [(''request_id'', JStr request_id), (''concept_key'', JStr concept_key),
            (''intake_mode'', dget_or (cm_args cmd) ''intake_mode'' (JStr ''hypothesis''))] (cm_actor cmd))
           \<lparr>ap_expected_version := Some 0\<rparr>)) (\<lambda>created.
         andthen (claim_concept concept_key request_id) (\<lambda>winner.
         case winner of
           None \<Rightarrow> ret (accept (Some request_id) [ev_event_id created])
         | Some w \<Rightarrow>
             if w = request_id then ret (accept (Some request_id) [ev_event_id created])
             else andthen (append E (request_event (Some request_id) ''DUPLICATE_OF''
                 [(''request_id'', JStr request_id), (''duplicate_of_request_id'', JStr w),
                  (''concept_key'', JStr concept_key)] (cm_actor cmd))) (\<lambda>dup.
               ret (accept (Some request_id) [ev_event_id created, ev_event_id dup])))))))"

definition request_is_open :: "env \<Rightarrow> string option \<Rightarrow> bool dbprog" where
  "request_is_open E request_id =
     andthen (load_stream E ''request'' request_id) (\<lambda>stream.
     ret (list_ex (\<lambda>e. ev_type e = ''REQUEST_CREATED'') stream \<and> \<not> list_ex (\<lambda>e. ev_type e = ''DUPLICATE_OF'') stream))"

definition create_run_command :: handler where
  "create_run_command E cmd =
     andthen (lift (dict_str (cm_args cmd) ''request_id'')) (\<lambda>request_id.
     andthen (request_is_open E (Some request_id)) (\<lambda>is_open.
     if \<not> is_open then ret (refuse (Some request_id) ''request does not exist or is not open'')
     else
       andthen (mint_id E ''run'') (\<lambda>run_id.
       andthen (append E ((run_event (Some run_id) ''RUN_CREATED''
         [(''run_id'', JStr run_id), (''request_id'', JStr request_id), (''reopened_from'', JNull)] (cm_actor cmd))
         \<lparr>ap_request_id := Some request_id, ap_expected_version := Some 0\<rparr>)) (\<lambda>run_event.
       andthen (append E (candidate_added (Some request_id) (Some run_id) (cm_actor cmd))) (\<lambda>added.
       ret (accept (Some run_id) [ev_event_id run_event, ev_event_id added]))))))"

definition duplicate_of_command :: handler where
  "duplicate_of_command E cmd =
     append_accept E (request_event (cm_aggregate_id cmd) ''DUPLICATE_OF''
       [(''request_id'', ostr (cm_aggregate_id cmd)),
        (''duplicate_of_request_id'', dget (cm_args cmd) ''duplicate_of_request_id''),
        (''duplicate_of_feature_id'', dget (cm_args cmd) ''duplicate_of_feature_id''),
        (''concept_key'', dget (cm_args cmd) ''concept_key'')] (cm_actor cmd)) (cm_aggregate_id cmd)"

text \<open>\<open>f"{sorted(ids)}"\<close>: Python's text of a list of strings without quotes or backslashes in them.\<close>

definition list_text :: "string list \<Rightarrow> string" where
  "list_text xs = ''['' @ concat (case map (\<lambda>x. [CHR 0x27] @ x @ [CHR 0x27]) xs of
     [] \<Rightarrow> [] | y # ys \<Rightarrow> y # map (\<lambda>z. '', '' @ z) ys) @ '']''"

definition selection_dicts :: "json \<Rightarrow> exn + dict list" where
  "selection_dicts j =
     (case j of JArr xs \<Rightarrow> map_chain (\<lambda>x. case x of JObj d \<Rightarrow> Inr d | _ \<Rightarrow> Inl TypeError) xs | _ \<Rightarrow> Inl TypeError)"

definition select_one ::
  "env \<Rightarrow> Command \<Rightarrow> string option \<Rightarrow> json \<Rightarrow> dict \<Rightarrow> string list dbprog" where
  "select_one E cmd request_id explored sel =
     andthen (lift (dict_str sel ''run_id'')) (\<lambda>run_id.
     andthen (case dget sel ''feature_id'' of
         JStr f \<Rightarrow> ret (f, [])
       | JNull \<Rightarrow>
           andthen (mint_id E ''feat'') (\<lambda>feature_id.
           andthen (append E ((event_spec ''feature'' (Some feature_id) ''FEATURE_CREATED''
             [(''feature_id'', JStr feature_id), (''request_id'', ostr request_id),
              (''concept_key'', dget (cm_args cmd) ''concept_key''), (''origin_run_id'', JStr run_id)] (cm_actor cmd))
             \<lparr>ap_request_id := request_id, ap_feature_id := Some feature_id, ap_run_id := Some run_id,
              ap_expected_version := Some 0\<rparr>)) (\<lambda>created.
           ret (feature_id, [ev_event_id created])))
       | _ \<Rightarrow> throw TypeError) (\<lambda>(feature_id, produced).
     andthen (append E ((request_event request_id ''CANDIDATE_SELECTED''
         [(''request_id'', ostr request_id), (''selected_run_id'', JStr run_id), (''feature_id'', JStr feature_id),
          (''candidates_explored_count'', explored)] (cm_actor cmd))
         \<lparr>ap_provenance := Some (provenance_for (as_oint explored)), ap_feature_id := Some feature_id,
          ap_run_id := Some run_id\<rparr>)) (\<lambda>chosen.
     ret (produced @ [ev_event_id chosen]))))"

definition close_sibling ::
  "env \<Rightarrow> Command \<Rightarrow> string option \<Rightarrow> string list \<Rightarrow> string \<Rightarrow> string list dbprog" where
  "close_sibling E cmd request_id selected run_id =
     (if run_id \<in> set selected then ret []
      else andthen (run_is_terminal E (Some run_id)) (\<lambda>terminal.
        if terminal then ret []
        else
          andthen (append E ((request_event request_id ''CANDIDATE_REJECTED''
            [(''request_id'', ostr request_id), (''run_id'', JStr run_id), (''reason'', JStr ''sibling_closed'')] (cm_actor cmd))
            \<lparr>ap_run_id := Some run_id\<rparr>)) (\<lambda>rej_req.
          andthen (append E (run_event (Some run_id) ''RUN_REJECTED''
            [(''run_id'', JStr run_id), (''reason'', JStr ''sibling_closed'')] (cm_actor cmd))) (\<lambda>rej_run.
          ret [ev_event_id rej_req, ev_event_id rej_run]))))"

definition select_candidate_command :: handler where
  "select_candidate_command E cmd =
     (let request_id = cm_aggregate_id cmd
      in andthen (load_stream E ''request'' request_id) (\<lambda>stream.
         andthen (lift (map_chain (\<lambda>e. dict_str (ev_payload e) ''run_id'')
                   (filter (\<lambda>e. ev_type e = ''CANDIDATE_ADDED'') stream))) (\<lambda>all_runs.
         andthen (lift (chain (dict_item (cm_args cmd) ''selections'') selection_dicts)) (\<lambda>selections.
         andthen (lift (map_chain (\<lambda>d. dict_str d ''run_id'') selections)) (\<lambda>selected.
         (let not_candidates = filter (\<lambda>r. r \<notin> set all_runs) selected
          in if not_candidates \<noteq> []
             then ret (refuse request_id (''selected runs are not candidates of this request: ''
                        @ list_text (foldr insert_name not_candidates [])))
             else
               (let explored = dget_or (cm_args cmd) ''candidates_explored_count'' (JInt (int (length all_runs)))
                in andthen (for_each selections (select_one E cmd request_id explored)) (\<lambda>chosen.
                   andthen (for_each all_runs (close_sibling E cmd request_id selected)) (\<lambda>closed.
                   ret (accept request_id (concat chosen @ concat closed)))))))))))"

subsection \<open>What an append leaves\<close>

text \<open>On a well-formed store, the helper appends the event it was asked for.\<close>

lemma keeps_append_store: "keeps (store_step E) (append E sp)"
  unfolding append_def current_version_def by (intro log_keeps_rules keeps_intro)

lemma current_version_state: "snd (current_version E agg aid s) = s"
  using load_stream_state [of E agg aid None "[]" s]
  by (cases "load_stream E agg aid s") (auto simp: current_version_def andthen_def split: sum.splits)

lemma append_Inr_version:
  assumes "append E sp s = (Inr e, s')"
  obtains aid row v where "ap_aggregate_id sp = Some aid" "row_to_event row = Inr e" "row_ok E row"
    "row = event_row_of (new_event_of sp (clock s)) aid (next_event_id E s) (v + 1)
       (table_version_for (ap_aggregate sp) (ap_aggregate_id sp) s) (clock s) (gseq s + 1) (clock s)"
    "s' = s\<lparr>draws := Suc (draws s), gseq := gseq s + 1, events := events s @ [row]\<rparr>"
    "current_stream_version (ap_aggregate sp) (Some aid) s = v" "\<And>x. ap_expected_version sp = Some x \<Longrightarrow> v = x"
proof -
  obtain v where a: "append_event E (new_event_of sp (clock s)) v
      (table_version_for (ap_aggregate sp) (ap_aggregate_id sp) s) s = (Inr e, s')"
    and v: "\<And>x. ap_expected_version sp = Some x \<Longrightarrow> v = x"
    using assms current_version_state [of E "ap_aggregate sp" "ap_aggregate_id sp" s]
    by (auto simp: append_def andthen_eq_Inr split: option.splits)
  have oc: "occurred_of (new_event_of sp (clock s)) s = clock s" "ne_aggregate_id (new_event_of sp (clock s)) = ap_aggregate_id sp"
    "ne_aggregate (new_event_of sp (clock s)) = ap_aggregate sp"
    by (simp_all add: new_event_of_def occurred_of_def)
  from append_event_Inr [OF a, unfolded oc] obtain aid row where r: "ap_aggregate_id sp = Some aid"
    "row = event_row_of (new_event_of sp (clock s)) aid (next_event_id E s) (v + 1)
       (table_version_for (ap_aggregate sp) (ap_aggregate_id sp) s) (clock s) (gseq s + 1) (clock s)"
    "s' = s\<lparr>draws := Suc (draws s), gseq := gseq s + 1, events := events s @ [row]\<rparr>"
    "row_to_event row = Inr e" "current_stream_version (ap_aggregate sp) (Some aid) s = v" "row_ok E row"
    by metis
  show thesis
    by (rule that [OF r(1,4,6,2,3,5) v])
qed

lemma append_Inr:
  assumes "append E sp s = (Inr e, s')"
  obtains aid row v where "ap_aggregate_id sp = Some aid" "row_to_event row = Inr e" "row_ok E row"
    "row = event_row_of (new_event_of sp (clock s)) aid (next_event_id E s) v
       (table_version_for (ap_aggregate sp) (ap_aggregate_id sp) s) (clock s) (gseq s + 1) (clock s)"
    "s' = s\<lparr>draws := Suc (draws s), gseq := gseq s + 1, events := events s @ [row]\<rparr>"
  using append_Inr_version [OF assms] by metis

lemma append_Inl:
  assumes "append E sp s = (Inl x, s')"
  shows "s' = s \<or> s' = s\<lparr>draws := Suc (draws s), gseq := gseq s + 1\<rparr>"
proof -
  let ?v = "case ap_expected_version sp of None \<Rightarrow> current_version E (ap_aggregate sp) (ap_aggregate_id sp) | Some v \<Rightarrow> ret v"
  have "snd (?v s) = s"
    using current_version_state by (simp split: option.splits)
  then show ?thesis
    using assms append_event_Inl
    by (cases "?v s") (fastforce simp: append_def andthen_def split: sum.splits)
qed

lemma append_only_log:
  assumes "append E sp s = (r, s')"
  obtains d g evs where "s' = s\<lparr>draws := d, gseq := g, events := evs\<rparr>"
proof (cases r)
  case (Inl x)
  then have "s' = s \<or> s' = s\<lparr>draws := Suc (draws s), gseq := gseq s + 1\<rparr>"
    using append_Inl assms by simp
  then show thesis
    by (elim disjE) (use that [where d = "draws s" and g = "gseq s" and evs = "events s"]
        that [where d = "Suc (draws s)" and g = "gseq s + 1" and evs = "events s"] in auto)
next
  case (Inr e)
  with append_Inr [of E sp s e s'] assms that show thesis by metis
qed

lemma append_frame:
  assumes "append E sp s = (r, s')"
  shows "concept_claims s' = concept_claims s" "feature_versions s' = feature_versions s"
    "feature_active_versions s' = feature_active_versions s" "consumers s' = consumers s" "timers s' = timers s"
    "queue s' = queue s" "command_idempotency s' = command_idempotency s" "clock s' = clock s"
    "human_tasks s' = human_tasks s" "security_audit s' = security_audit s" "projection_degraded s' = projection_degraded s"
  by (rule append_only_log [OF assms], simp)+

lemma new_event_of_simps [simp]:
  "ne_type (new_event_of sp now) = ap_type sp" "ne_aggregate (new_event_of sp now) = ap_aggregate sp"
  "ne_payload (new_event_of sp now) = ap_payload sp" "ne_run_id (new_event_of sp now) = ap_run_id sp"
  "ne_request_id (new_event_of sp now) = ap_request_id sp" "ne_actor (new_event_of sp now) = ap_actor sp"
  "ne_feature_id (new_event_of sp now) = ap_feature_id sp" "ne_aggregate_id (new_event_of sp now) = ap_aggregate_id sp"
  by (simp_all add: new_event_of_def)


subsection \<open>Runs end once\<close>

definition is_terminal_row :: "event_row \<Rightarrow> bool" where
  "is_terminal_row r \<longleftrightarrow> er_type r \<in> set TERMINAL_RUN_TYPES"

definition run_terminal :: "string option \<Rightarrow> db \<Rightarrow> bool" where
  "run_terminal run_id s \<longleftrightarrow> (\<exists>r \<in> set (stream_rows ''run'' run_id s). is_terminal_row r)"

lemma run_is_terminal_wf: "wf_store E s \<Longrightarrow> run_is_terminal F run_id s = (Inr (run_terminal run_id s), s)"
  using wf_decodable [of E s _ "''run''" run_id]
  by (auto simp: run_is_terminal_def andthen_def load_stream_wf run_terminal_def list_ex_iff is_terminal_row_def event_of_fields(1))

lemma stream_rows_mono: "prefix (events s) (events s') \<Longrightarrow> prefix (stream_rows agg aid s) (stream_rows agg aid s')"
  by (auto simp: stream_rows_def prefix_def)

lemma run_terminal_mono: "prefix (events s) (events s') \<Longrightarrow> run_terminal run_id s \<Longrightarrow> run_terminal run_id s'"
  using set_mono_prefix [OF stream_rows_mono] by (fastforce simp: run_terminal_def)

text \<open>No run stream has two terminal events.\<close>

definition ends_once :: "db \<Rightarrow> bool" where
  "ends_once s \<longleftrightarrow> (\<forall>run_id. length (filter is_terminal_row (stream_rows ''run'' (Some run_id) s)) \<le> 1)"

definition run_step :: "env \<Rightarrow> db \<Rightarrow> db \<Rightarrow> bool" where
  "run_step E s s' \<longleftrightarrow> store_step E s s' \<and> (wf_store E s \<longrightarrow> ends_once s \<longrightarrow> ends_once s')"

interpretation runs: state_rel "run_step E" for E
proof unfold_locales
  fix s t u
  show "run_step E s s"
    by (simp add: run_step_def log.rel_refl)
  assume "run_step E s t" "run_step E t u"
  then show "run_step E s u"
    using log.rel_trans [of E s t u] by (auto simp: run_step_def store_step_def)
qed

lemmas run_keeps_rules = runs.keeps_rules

lemma ends_once_frame: "events s' = events s \<Longrightarrow> ends_once s' \<longleftrightarrow> ends_once s"
  by (simp add: ends_once_def stream_rows_def)

lemma run_step_frame: "events s' = events s \<Longrightarrow> gseq s \<le> gseq s' \<Longrightarrow> run_step E s s'"
  using store_step_frame [of s' s E] ends_once_frame [of s' s] unfolding run_step_def by blast

lemma store_stepI: "keeps (run_step E) m \<Longrightarrow> keeps (store_step E) m"
  by (simp add: keeps_def run_step_def)

lemma ends_once_append:
  assumes "ends_once s" "row = event_row_of new aid eid v tv oc sq rc"
    and "is_terminal_row row \<Longrightarrow> ne_aggregate new = ''run'' \<Longrightarrow> \<not> run_terminal (Some aid) s"
  shows "ends_once (s\<lparr>draws := d, gseq := g, events := events s @ [row]\<rparr>)"
proof -
  have "filter is_terminal_row (stream_rows ''run'' (Some aid) s) = []" if "\<not> run_terminal (Some aid) s"
    using that by (auto simp: run_terminal_def filter_empty_conv)
  then show ?thesis
    using assms by (auto simp: ends_once_def stream_rows_snoc)
qed

lemma append_run_step:
  assumes "append E sp s = (r, s')"
    and ok: "wf_store E s \<Longrightarrow> ends_once s \<Longrightarrow> ap_aggregate sp = ''run'' \<Longrightarrow> ap_type sp \<in> set TERMINAL_RUN_TYPES \<Longrightarrow>
      \<not> run_terminal (ap_aggregate_id sp) s"
  shows "run_step E s s'"
proof (cases r)
  case (Inl x)
  then show ?thesis
    using append_Inl assms(1) by (fastforce intro: run_step_frame)
next
  case (Inr e)
  from append_Inr [OF assms(1) [unfolded Inr]] obtain aid row v where a: "ap_aggregate_id sp = Some aid"
    "row = event_row_of (new_event_of sp (clock s)) aid (next_event_id E s) v
       (table_version_for (ap_aggregate sp) (ap_aggregate_id sp) s) (clock s) (gseq s + 1) (clock s)"
    "s' = s\<lparr>draws := Suc (draws s), gseq := gseq s + 1, events := events s @ [row]\<rparr>"
    by metis
  have "ends_once s'" if "wf_store E s" "ends_once s"
    unfolding a(3) by (rule ends_once_append [OF that(2) a(2)])
      (use ok [OF that] a(1) in \<open>auto simp: a(2) is_terminal_row_def\<close>)
  moreover have "store_step E s s'"
    using keepsD [OF keeps_append_store assms(1)] .
  ultimately show ?thesis
    by (simp add: run_step_def)
qed

text \<open>An append that cannot end a run.\<close>

definition ends_no_run :: "append_spec \<Rightarrow> bool" where
  "ends_no_run sp \<longleftrightarrow> ap_aggregate sp = ''run'' \<longrightarrow> ap_type sp \<notin> set TERMINAL_RUN_TYPES"

lemma ends_no_run_specs [simp]:
  "ends_no_run (event_spec agg aid typ p a) \<longleftrightarrow> agg \<noteq> ''run'' \<or> typ \<notin> set TERMINAL_RUN_TYPES"
  "ends_no_run (run_event rid typ p a) \<longleftrightarrow> typ \<notin> set TERMINAL_RUN_TYPES"
  "ends_no_run (request_event rid typ p a)" "ends_no_run (candidate_added rq rn a)"
  "ends_no_run (sp\<lparr>ap_request_id := x\<rparr>) = ends_no_run sp" "ends_no_run (sp\<lparr>ap_feature_id := x\<rparr>) = ends_no_run sp"
  "ends_no_run (sp\<lparr>ap_run_id := x\<rparr>) = ends_no_run sp" "ends_no_run (sp\<lparr>ap_expected_version := v\<rparr>) = ends_no_run sp"
  "ends_no_run (sp\<lparr>ap_provenance := pv\<rparr>) = ends_no_run sp"
  by (auto simp: ends_no_run_def event_spec_def run_event_def request_event_def candidate_added_def)

lemma keeps_append: "ends_no_run sp \<Longrightarrow> keeps (run_step E) (append E sp)"
  by (rule keepsI) (metis append_run_step ends_no_run_def prod.collapse)

lemma keeps_append_accept: "ends_no_run sp \<Longrightarrow> keeps (run_step E) (append_accept E sp aid)"
  unfolding append_accept_def by (intro run_keeps_rules keeps_append)

lemma keeps_load [keeps_intro]: "keeps (run_step E) (load_stream_with F agg aid u expected)"
  by (rule keepsI) (simp add: load_stream_state runs.rel_refl)

lemma keeps_mint [keeps_intro]: "keeps (run_step E) (mint_id F pre)"
  by (rule keepsI) (simp add: mint_id_def run_step_frame)

lemma keeps_nextval_run [keeps_intro]: "keeps (run_step E) nextval"
  by (rule keepsI) (simp add: nextval_def run_step_frame)

subsection \<open>Every handler keeps the log and ends no run twice\<close>

lemmas handler_keeps = run_keeps_rules keeps_append keeps_append_accept keeps_load keeps_mint

lemma terminal_types [simp]:
  "typ \<in> set TERMINAL_RUN_TYPES \<longleftrightarrow> typ = ''RUN_REJECTED'' \<or> typ = ''RUN_CANCELLED'' \<or> typ = ''RUN_WITHDRAWN''"
  by (auto simp: TERMINAL_RUN_TYPES_def)

lemma keeps_claim_concept [keeps_intro]: "keeps (run_step E) (claim_concept k r)"
  by (rule keepsI) (auto simp: claim_concept_def intro!: run_step_frame split: option.splits)

lemma keeps_run_is_terminal [keeps_intro]: "keeps (run_step E) (run_is_terminal E run_id)"
  unfolding run_is_terminal_def by (intro handler_keeps keeps_intro)

text \<open>The two places that end a run look at the stream first.\<close>

lemma keeps_after_terminal_check:
  assumes "\<And>s. wf_store E s \<longrightarrow> \<not> run_terminal run_id s \<Longrightarrow> run_step E s (snd (m s))"
  shows "keeps (run_step E) (andthen (run_is_terminal E run_id) (\<lambda>t. if t then ret x else m))"
proof (rule keepsI)
  fix s
  have "run_is_terminal E run_id s = (fst (run_is_terminal E run_id s), s)"
    using load_stream_state [of E "''run''" run_id None "[]" s]
    by (auto simp: andthen_def run_is_terminal_def split: sum.splits prod.splits)
  moreover have "run_step E s (snd (m s))" if "fst (run_is_terminal E run_id s) = Inr False"
    using that run_is_terminal_wf [of E s E run_id] by (intro assms) auto
  ultimately show "run_step E s (snd (andthen (run_is_terminal E run_id) (\<lambda>t. if t then ret x else m) s))"
    by (cases "run_is_terminal E run_id s") (auto simp: andthen_def runs.rel_refl split: sum.splits)
qed

lemma append_ends:
  assumes "wf_store E s \<longrightarrow> \<not> run_terminal run_id s"
  shows "run_step E s (snd (append E (run_event run_id typ p a) s))"
proof -
  obtain r s' where r: "append E (run_event run_id typ p a) s = (r, s')" by fastforce
  have "run_step E s s'"
    by (rule append_run_step [OF r]) (use assms in \<open>auto simp: run_event_def event_spec_def\<close>)
  with r show ?thesis by simp
qed

lemma keeps_terminal_command [keeps_intro]: "keeps (run_step E) (terminal_command typ E cmd)"
  unfolding terminal_command_def append_accept_def
  by (rule keeps_after_terminal_check, rule runs.step_andthen) (simp_all add: append_ends runs.rel_refl)

lemma append_other_stream:
  assumes "append E sp s = (Inr e, s')" "ap_aggregate sp \<noteq> ''run''"
  shows "run_terminal run_id s' \<longleftrightarrow> run_terminal run_id s"
proof -
  obtain aid row v where r: "row = event_row_of (new_event_of sp (clock s)) aid (next_event_id E s) v
       (table_version_for (ap_aggregate sp) (ap_aggregate_id sp) s) (clock s) (gseq s + 1) (clock s)"
    "s' = s\<lparr>draws := Suc (draws s), gseq := gseq s + 1, events := events s @ [row]\<rparr>"
    using append_Inr [OF assms(1)] by metis
  have "stream_rows ''run'' run_id s' = stream_rows ''run'' run_id s"
    unfolding r(2) stream_rows_snoc using assms(2) by (simp add: r(1))
  then show ?thesis
    by (simp add: run_terminal_def)
qed

lemma run_stepI:
  "keeps (store_step E) m \<Longrightarrow> (\<And>s. wf_store E s \<Longrightarrow> run_step E s (snd (m s))) \<Longrightarrow> keeps (run_step E) m"
  by (auto simp: keeps_def run_step_def)

lemma keeps_terminal_check_store: "keeps (store_step E) (run_is_terminal F run_id)"
  by (rule keepsI) (simp add: run_is_terminal_def andthen_def log.rel_refl load_stream_state split: prod.splits sum.splits,
      metis load_stream_state log.rel_refl snd_conv)

lemma keeps_close_sibling [keeps_intro]: "keeps (run_step E) (close_sibling E cmd rq sel run)"
proof (rule run_stepI)
  show "keeps (store_step E) (close_sibling E cmd rq sel run)"
    unfolding close_sibling_def by (intro log_keeps_rules keeps_append_store keeps_terminal_check_store)
next
  fix s assume wf: "wf_store E s"
  let ?q = "(request_event rq ''CANDIDATE_REJECTED''
            [(''request_id'', ostr rq), (''run_id'', JStr run), (''reason'', JStr ''sibling_closed'')] (cm_actor cmd))
            \<lparr>ap_run_id := Some run\<rparr>"
  let ?e = "run_event (Some run) ''RUN_REJECTED'' [(''run_id'', JStr run), (''reason'', JStr ''sibling_closed'')] (cm_actor cmd)"
  let ?m = "andthen (append E ?q) (\<lambda>rej_req. andthen (append E ?e) (\<lambda>rej_run. ret [ev_event_id rej_req, ev_event_id rej_run]))"
  have step: "run_step E s (snd (?m s))" if nt: "\<not> run_terminal (Some run) s"
  proof (rule runs.step_andthen)
    show "run_step E s (snd (append E ?q s))"
      using keeps_append [of ?q E] by (simp add: keeps_def)
    fix e s' assume q: "append E ?q s = (Inr e, s')"
    have "\<not> run_terminal (Some run) s'"
      using append_other_stream [OF q, of "Some run"] nt by (simp add: request_event_def event_spec_def)
    then show "run_step E s' (snd (andthen (append E ?e) (\<lambda>rej_run. ret [ev_event_id e, ev_event_id rej_run]) s'))"
      by (intro runs.step_andthen append_ends) (simp_all add: runs.rel_refl)
  qed
  show "run_step E s (snd (close_sibling E cmd rq sel run s))"
    using step by (auto simp: close_sibling_def andthen_def [of "run_is_terminal E (Some run)"] run_is_terminal_wf [OF wf] runs.rel_refl)
qed

subsection \<open>What every handler keeps\<close>

text \<open>
  The interface of the handlers to the rest of the store: a relation that one append, an id draw, a
  read, a concept claim and the two places that end a run all keep is kept by every handler.
\<close>

locale aggregate_rel = state_rel R for R :: "db \<Rightarrow> db \<Rightarrow> bool" +
  fixes E :: env
  assumes appends: "ends_no_run sp \<Longrightarrow> keeps R (append E sp)"
    and loads: "keeps R (load_stream_with E agg aid u expected)"
    and mints: "keeps R (mint_id E pre)"
    and claims: "keeps R (claim_concept k r)"
    and terminals: "keeps R (terminal_command typ E cmd)"
    and siblings: "keeps R (close_sibling E cmd rq sel run)"
begin

lemma accepts: "ends_no_run sp \<Longrightarrow> keeps R (append_accept E sp aid)"
  unfolding append_accept_def by (intro keeps_rules appends)

lemmas rules = keeps_rules appends accepts loads mints claims siblings

lemma open_check: "keeps R (request_is_open E request_id)"
  unfolding request_is_open_def by (intro rules)

lemma park: "keeps R (park_command E cmd)"
  unfolding park_command_def by (intro rules) simp_all

lemma unpark: "keeps R (unpark_command E cmd)"
  unfolding unpark_command_def by (intro rules) simp_all

lemma reopen: "keeps R (reopen_as_new_run_command E cmd)"
  unfolding reopen_as_new_run_command_def by (intro rules) simp_all

lemma resume_run: "keeps R (resume_one E k a r)"
  unfolding resume_one_def by (intro rules) simp_all

lemma resume: "keeps R (fact_confirmed_resume_command E cmd)"
  unfolding fact_confirmed_resume_command_def by (intro rules resume_run)

lemma revalidate: "keeps R (source_changed_revalidate_command E cmd)"
  unfolding source_changed_revalidate_command_def run_is_terminal_def by (intro rules) simp_all

lemma create_request: "keeps R (create_request_command E cmd)"
  unfolding create_request_command_def by (intro rules) simp_all

lemma create_run: "keeps R (create_run_command E cmd)"
  unfolding create_run_command_def by (intro rules open_check) simp_all

lemma duplicate: "keeps R (duplicate_of_command E cmd)"
  unfolding duplicate_of_command_def by (intro rules) simp_all

lemma select_run: "keeps R (select_one E cmd r x sel)"
  unfolding select_one_def by (intro rules) simp_all

lemma select: "keeps R (select_candidate_command E cmd)"
  unfolding select_candidate_command_def by (intro rules select_run)

lemmas catalogue =
  terminals park unpark reopen resume revalidate create_request create_run duplicate select

end

interpretation run_handlers: aggregate_rel "run_step E" E for E
  by unfold_locales (simp_all add: keeps_append keeps_load keeps_mint keeps_claim_concept keeps_terminal_command keeps_close_sibling)

text \<open>The stream an append went to, in a well-formed store.\<close>

lemma append_stream:
  assumes "wf_store E s" "append E sp s = (Inr e, s')"
  shows "wf_store E s' \<and> (\<exists>row. stream_rows (ap_aggregate sp) (ap_aggregate_id sp) s' =
      stream_rows (ap_aggregate sp) (ap_aggregate_id sp) s @ [row]
      \<and> er_type row = ap_type sp \<and> er_payload row = ap_payload sp \<and> er_event_id row = ev_event_id e)
    \<and> (ap_expected_version sp = Some 0 \<longrightarrow> stream_rows (ap_aggregate sp) (ap_aggregate_id sp) s = [])
    \<and> (\<forall>t. events t = events s' \<longrightarrow> gseq s' \<le> gseq t \<longrightarrow> wf_store E t)"
proof -
  obtain aid row v where r: "ap_aggregate_id sp = Some aid" "row_to_event row = Inr e" "row_ok E row"
    "row = event_row_of (new_event_of sp (clock s)) aid (next_event_id E s) (v + 1)
       (table_version_for (ap_aggregate sp) (ap_aggregate_id sp) s) (clock s) (gseq s + 1) (clock s)"
    "s' = s\<lparr>draws := Suc (draws s), gseq := gseq s + 1, events := events s @ [row]\<rparr>"
    "current_stream_version (ap_aggregate sp) (Some aid) s = v" "\<And>x. ap_expected_version sp = Some x \<Longrightarrow> v = x"
    using append_Inr_version [OF assms(2)] by metis
  have wf: "wf_store E s'"
    using keepsD [OF keeps_append_store assms(2)] assms(1) by (simp add: store_step_def)
  have id: "er_event_id row = ev_event_id e"
    using r(2) by (auto simp: row_to_event_def chain_eq_Inr)
  have "stream_rows (ap_aggregate sp) (Some aid) s' = stream_rows (ap_aggregate sp) (Some aid) s @ [row]"
    unfolding r(5) stream_rows_snoc by (simp add: r(4))
  moreover have "er_type row = ap_type sp" "er_payload row = ap_payload sp"
    by (simp_all add: r(4))
  moreover have "v = int (length (stream_rows (ap_aggregate sp) (Some aid) s))"
    using r(6) current_version_contiguous [OF wf_stream [OF assms(1)]] by simp
  ultimately show ?thesis
    using wf id r(7) by (auto simp: r(1) intro: wf_store_frame)
qed

text \<open>When the helper must succeed.\<close>

definition appendable :: "env \<Rightarrow> append_spec \<Rightarrow> bool" where
  "appendable E sp \<longleftrightarrow> assert_writable (env_registry E) (ap_type sp) 1 = Inr ()
     \<and> registry_validate (js_valid E) (env_registry E) (ap_type sp) 1 (ap_payload sp) = Inr ()
     \<and> clean (ap_payload sp) \<and> ap_caused_by sp = None \<and> ap_aggregate sp \<in> set [''request'', ''feature'', ''run'']
     \<and> (case ap_aggregate_id sp of None \<Rightarrow> False
        | Some aid \<Rightarrow> (if ap_aggregate sp = ''request'' then ap_request_id sp else if ap_aggregate sp = ''feature''
            then ap_feature_id sp else ap_run_id sp) \<in> {None, Some aid})"

lemma append_total:
  assumes "wf_store E s" "appendable E sp" "next_event_id E s \<notin> er_event_id ` set (events s)"
    and "\<And>v. ap_expected_version sp = Some v \<Longrightarrow> v = current_stream_version (ap_aggregate sp) (ap_aggregate_id sp) s"
  shows "\<exists>e s'. append E sp s = (Inr e, s')"
proof -
  obtain aid where aid: "ap_aggregate_id sp = Some aid"
    using assms(2) by (auto simp: appendable_def split: option.splits)
  define v where "v = current_stream_version (ap_aggregate sp) (Some aid) s"
  have "\<exists>e s'. append_event E (new_event_of sp (clock s)) v (table_version_for (ap_aggregate sp) (Some aid) s) s = (Inr e, s')"
    by (rule append_event_total [OF assms(1), where aid = aid])
       (use assms(2,3) in \<open>auto simp: appendable_def aid new_event_of_def v_def AGGREGATES_def aggregate_id_consistent_def
          eq_or_null_def cong: if_cong\<close>)
  moreover have "(case ap_expected_version sp of None \<Rightarrow> current_version E (ap_aggregate sp) (Some aid) | Some v \<Rightarrow> ret v) s = (Inr v, s)"
  proof (cases "ap_expected_version sp")
    case None
    have rows: "stream_rows (ap_aggregate sp) (Some aid) s = [] \<or>
        ev_stream_version (event_of (last (stream_rows (ap_aggregate sp) (Some aid) s))) = v"
    proof (cases "stream_rows (ap_aggregate sp) (Some aid) s" rule: rev_cases)
      case (snoc rs r)
      have "er_stream_version r = int (length rs) + 1"
        using wf_stream [OF assms(1), of "ap_aggregate sp" "Some aid"] by (simp add: snoc contiguous_def)
      moreover have "v = int (length rs) + 1"
        using current_version_contiguous [OF wf_stream [OF assms(1)], of "ap_aggregate sp" "Some aid"] by (simp add: v_def snoc)
      ultimately show ?thesis
        using wf_decodable [OF assms(1), of r "ap_aggregate sp" "Some aid"] by (simp add: snoc event_of_fields(2))
    qed simp
    then show ?thesis
      using None current_version_contiguous [OF wf_stream [OF assms(1)], of "ap_aggregate sp" "Some aid"]
      by (auto simp: current_version_def andthen_def load_stream_wf [OF assms(1)] v_def last_map)
  next
    case (Some x)
    with assms(4) show ?thesis by (simp add: aid v_def)
  qed
  ultimately show ?thesis
    unfolding append_def aid andthen_def query_def by auto
qed

lemma request_is_open_wf:
  "wf_store E s \<Longrightarrow> request_is_open F rid s =
     (Inr ((\<exists>r \<in> set (stream_rows ''request'' rid s). er_type r = ''REQUEST_CREATED'')
        \<and> \<not> (\<exists>r \<in> set (stream_rows ''request'' rid s). er_type r = ''DUPLICATE_OF'')), s)"
  using wf_decodable [of E s _ "''request''" rid]
  by (auto simp: request_is_open_def andthen_def load_stream_wf list_ex_iff event_of_fields(1))

lemma request_event_simps [simp]:
  "ap_aggregate (request_event rid typ p a) = ''request''" "ap_aggregate_id (request_event rid typ p a) = rid"
  "ap_type (request_event rid typ p a) = typ" "ap_payload (request_event rid typ p a) = p"
  "ap_expected_version (request_event rid typ p a) = None"
  by (simp_all add: request_event_def event_spec_def)

subsection \<open>Properties\<close>

text \<open>
  C35: a run that has ended has ended for good.  Once its stream has a terminal event, then after
  whatever has been done to the store since, every terminal command and every revalidation of that run
  is refused and changes nothing.
\<close>

theorem terminal_run_is_final:
  assumes "wf_store E s" "run_terminal (cm_aggregate_id cmd) s" "store_step E s s'"
  shows "terminal_command typ E cmd s' = (Inr (refuse (cm_aggregate_id cmd) ''run already terminal''), s')
    \<and> source_changed_revalidate_command E cmd s' =
        (Inr (refuse (cm_aggregate_id cmd) ''run is terminal; nothing to revalidate''), s')"
proof -
  have "run_is_terminal E (cm_aggregate_id cmd) s' = (Inr True, s')"
    using assms run_terminal_mono [of s s'] run_is_terminal_wf [of E s' E] by (auto simp: store_step_def)
  then show ?thesis
    by (simp add: terminal_command_def source_changed_revalidate_command_def andthen_def)
qed

definition sample_command :: "string option \<Rightarrow> dict \<Rightarrow> Command" where
  "sample_command aid args = \<lparr>cm_action = ''a'', cm_aggregate = ''run'', cm_aggregate_id = aid, cm_args = args,
     cm_actor = sample_actor, cm_idempotency_key = ''k'', cm_expected_version = None\<rparr>"

lemma reject_from_empty:
  "run_terminal (Some ''run_1'') (snd (reject_command sample_env (sample_command (Some ''run_1'') []) empty_db))"
  by code_simp

theorem terminal_run_is_final_witness:
  "fst (cancel_command sample_env (sample_command (Some ''run_1'') [])
     (snd (reject_command sample_env (sample_command (Some ''run_1'') []) empty_db))) =
   Inr (refuse (Some ''run_1'') ''run already terminal'')"
proof -
  let ?s = "snd (reject_command sample_env (sample_command (Some ''run_1'') []) empty_db)"
  have "run_step sample_env empty_db ?s"
    using keeps_terminal_command [of sample_env "''RUN_REJECTED''"] by (simp add: keeps_def reject_command_def)
  then have "wf_store sample_env ?s"
    using wf_empty_db by (simp add: run_step_def store_step_def)
  from terminal_run_is_final [OF this _ log.rel_refl, of "sample_command (Some ''run_1'') []" "''RUN_CANCELLED''"]
  show ?thesis
    using reject_from_empty by (simp add: sample_command_def cancel_command_def)
qed

text \<open>
  One request owns a concept.  A new request whose normalised concept nobody holds takes the claim
  and is open; one whose concept another request holds leaves the claim as it is and is closed as a
  duplicate in the same transaction, so that no run can be created for it.
\<close>

theorem concept_has_one_owner:
  assumes "wf_store E s" and "map_of (cm_args cmd) ''feature_concept'' = Some (JStr c)"
    and "create_request_command E cmd s = (Inr res, s')" and "cr_aggregate_id res = Some rid"
  shows "(map_of (concept_claims s) (normalize_concept_key c) = None \<longrightarrow>
        map_of (concept_claims s') (normalize_concept_key c) = Some rid \<and> request_is_open E (Some rid) s' = (Inr True, s'))
    \<and> (\<forall>w. map_of (concept_claims s) (normalize_concept_key c) = Some w \<longrightarrow> w \<noteq> rid \<longrightarrow>
        concept_claims s' = concept_claims s \<and> request_is_open E (Some rid) s' = (Inr False, s')
        \<and> (\<forall>cmd'. map_of (cm_args cmd') ''request_id'' = Some (JStr rid) \<longrightarrow>
             create_run_command E cmd' s' = (Inr (refuse (Some rid) ''request does not exist or is not open''), s')))"
proof -
  let ?k = "normalize_concept_key c"
  let ?created = "\<lambda>rid. (request_event (Some rid) ''REQUEST_CREATED''
           [(''request_id'', JStr rid), (''concept_key'', JStr ?k),
            (''intake_mode'', dget_or (cm_args cmd) ''intake_mode'' (JStr ''hypothesis''))] (cm_actor cmd))
           \<lparr>ap_expected_version := Some 0\<rparr>"
  let ?dup = "\<lambda>rid w. request_event (Some rid) ''DUPLICATE_OF''
                 [(''request_id'', JStr rid), (''duplicate_of_request_id'', JStr w), (''concept_key'', JStr ?k)] (cm_actor cmd)"
  have "dict_str (cm_args cmd) ''feature_concept'' = Inr c"
    using assms(2) by (simp add: dict_str_def)
  then obtain s0 e1 s1 where m: "mint_id E ''req'' s = (Inr rid, s0)"
    and a: "append E (?created rid) s0 = (Inr e1, s1)"
    and rest: "(\<lambda>s. andthen (claim_concept ?k rid) (\<lambda>winner. case winner of
           None \<Rightarrow> ret (accept (Some rid) [ev_event_id e1])
         | Some w \<Rightarrow> if w = rid then ret (accept (Some rid) [ev_event_id e1])
             else andthen (append E (?dup rid w)) (\<lambda>dup. ret (accept (Some rid) [ev_event_id e1, ev_event_id dup]))) s) s1
       = (Inr res, s')"
    using assms(3,4)
    by (auto simp: create_request_command_def andthen_eq_Inr Let_def split: option.splits if_splits)
  have "wf_store E s0" "concept_claims s0 = concept_claims s"
    using m assms(1) by (auto simp: mint_id_def intro: wf_store_frame)
  have cc: "concept_claims s1 = concept_claims s"
    using append_frame(1) [OF a] \<open>concept_claims s0 = _\<close> by simp
  obtain row where s1: "wf_store E s1" "stream_rows ''request'' (Some rid) s1 = [row]" "er_type row = ''REQUEST_CREATED''"
    using append_stream [OF \<open>wf_store E s0\<close> a] by auto
  show ?thesis
  proof (cases "map_of (concept_claims s) ?k")
    case None
    then have s': "s' = s1\<lparr>concept_claims := concept_claims s1 @ [(?k, rid)]\<rparr>"
      using rest cc by (auto simp: andthen_def claim_concept_def)
    have "wf_store E s'" "stream_rows ''request'' (Some rid) s' = [row]"
      using s1 by (auto simp: s' stream_rows_def intro: wf_store_frame)
    then show ?thesis
      using None s1(3) request_is_open_wf [of E s' E "Some rid"] by (simp add: s' cc map_add_def)
  next
    case (Some w)
    show ?thesis
    proof (cases "w = rid")
      case True
      with Some show ?thesis by simp
    next
      case False
      then obtain e2 where d: "append E (?dup rid w) s1 = (Inr e2, s')"
        using rest cc Some by (auto simp: andthen_def claim_concept_def split: prod.splits sum.splits)
      obtain row2 where s2: "wf_store E s'" "stream_rows ''request'' (Some rid) s' = [row, row2]" "er_type row2 = ''DUPLICATE_OF''"
        using append_stream [OF s1(1) d] s1(2) by auto
      have closed: "request_is_open E (Some rid) s' = (Inr False, s')"
        using request_is_open_wf [OF s2(1)] s2(2,3) by simp
      moreover have "concept_claims s' = concept_claims s"
        using append_frame(1) [OF d] cc by simp
      moreover have "create_run_command E cmd' s' = (Inr (refuse (Some rid) ''request does not exist or is not open''), s')"
        if "map_of (cm_args cmd') ''request_id'' = Some (JStr rid)" for cmd'
        using closed that by (simp add: create_run_command_def dict_str_def andthen_def)
      ultimately show ?thesis
        using Some by simp
    qed
  qed
qed

theorem concept_has_one_owner_witness:
  "\<exists>res s'. create_request_command sample_env (sample_command None [(''feature_concept'', JStr ''Churn Rate'')]) empty_db = (Inr res, s')
     \<and> map_of (concept_claims s') ''churn-rate'' = cr_aggregate_id res"
proof -
  let ?c = "sample_command None [(''feature_concept'', JStr ''Churn Rate'')]"
  let ?rid = "mint_id_text ''req'' 0 0" and ?s = "empty_db\<lparr>draws := 1\<rparr>"
  let ?sp = "(request_event (Some ?rid) ''REQUEST_CREATED'' [(''request_id'', JStr ?rid), (''concept_key'', JStr ''churn-rate''),
            (''intake_mode'', JStr ''hypothesis'')] sample_actor)\<lparr>ap_expected_version := Some 0\<rparr>"
  have k: "normalize_concept_key ''Churn Rate'' = ''churn-rate''"
    by code_simp
  have m: "mint_id sample_env ''req'' empty_db = (Inr ?rid, ?s)"
    by (simp add: mint_id_def empty_db_def sample_env_def)
  have "appendable sample_env ?sp"
    by code_simp
  moreover have "wf_store sample_env ?s"
    by (rule wf_store_frame [OF _ _ wf_empty_db]) simp_all
  ultimately obtain e s1 where a: "append sample_env ?sp ?s = (Inr e, s1)"
    using append_total [of sample_env ?s ?sp] by (auto simp: empty_db_def current_stream_version_def stream_rows_def)
  have cc: "concept_claims s1 = []"
    using append_frame(1) [OF a] by (simp add: empty_db_def)
  have r: "create_request_command sample_env ?c empty_db =
      (Inr (accept (Some ?rid) [ev_event_id e]), s1\<lparr>concept_claims := [(''churn-rate'', ?rid)]\<rparr>)"
    using m a cc by (simp add: create_request_command_def andthen_def Let_def sample_command_def k claim_concept_def)
  have "map_of (cm_args ?c) ''feature_concept'' = Some (JStr ''Churn Rate'')" "map_of (concept_claims empty_db) ''churn-rate'' = None"
    by (simp_all add: sample_command_def empty_db_def)
  with concept_has_one_owner [OF wf_empty_db _ r, of "''Churn Rate''" ?rid]
  show ?thesis unfolding r k by simp
qed

text \<open>
  A run that is parked a second time is never resumed by its fact.  After park, unpark and park
  again the run is parked by \<open>run_is_parked\<close>, yet confirming the fact it waits on appends nothing,
  because \<open>_runs_parked_on_fact\<close> leaves out every run that was ever unparked.
\<close>

definition parked_twice :: db where
  "parked_twice =
     (let park = park_command sample_env (sample_command (Some ''run_1'') [(''waiting_on_fact'', JStr ''f'')])
      in snd (park (snd (unpark_command sample_env (sample_command (Some ''run_1'') []) (snd (park empty_db))))))"

theorem reparked_run_not_resumed:
  "fst (run_is_parked sample_env (Some ''run_1'') parked_twice) = Inr True
     \<and> map er_type (events parked_twice) = [''RUN_PARKED'', ''RUN_UNPARKED'', ''RUN_PARKED'']
     \<and> fst (fact_confirmed_resume_command sample_env (sample_command None [(''fact_key'', JStr ''f'')]) parked_twice) =
       Inr (accept (Some ''f'') [])"
proof -
  have 1: "fst (run_is_parked sample_env (Some ''run_1'') parked_twice) = Inr True"
    by code_simp
  have 2: "map er_type (events parked_twice) = [''RUN_PARKED'', ''RUN_UNPARKED'', ''RUN_PARKED'']"
    by code_simp
  have 3: "fst (fact_confirmed_resume_command sample_env (sample_command None [(''fact_key'', JStr ''f'')]) parked_twice) =
       Inr (accept (Some ''f'') [])"
    by code_simp
  from 1 2 3 show ?thesis by blast
qed

end
