(* ===== verification/Commands.thy ===== *)
theory Commands
  imports Authz Aggregates
begin

text \<open>
  The command entry point: \<open>commands/registry.py\<close>, \<open>commands/authz_seam.py\<close> and \<open>commands/api.py\<close>.

  The two process globals, the handler registry and the active authorizer, are the record \<open>process\<close>.
  \<open>execute_command\<close> runs its body in a savepoint; its three branches (a transaction of its own on an
  autocommit connection, a managed savepoint inside a transaction, a raw savepoint on an idle connection)
  differ in who commits, which is outside of one program, and undo the body alike when it raises.

  \<open>command_clients\<close> is what the entry point needs of an authorizer and of handlers: they do not touch
  the claims.  Inside it the protocol refines an abstract memo table of accepted results.
  \<open>command_rel\<close> carries a relation of another component through the entry point.
\<close>

subsection \<open>The registry and the seam\<close>

type_synonym handlers = "(string \<times> handler) list"

definition register_command :: "string \<Rightarrow> handler \<Rightarrow> (handlers, unit) prog" where
  "register_command action h =
     andthen (query (\<lambda>reg. map_of reg action \<noteq> None)) (\<lambda>taken.
     if taken then throw ValueError else update (\<lambda>reg. reg @ [(action, h)]))"

definition get_command :: "string \<Rightarrow> handlers \<Rightarrow> exn + handler" where
  "get_command action reg = (case map_of reg action of None \<Rightarrow> Inl KeyError | Some h \<Rightarrow> Inr h)"

definition clear_registry :: "(handlers, unit) prog" where
  "clear_registry = update (\<lambda>_. [])"

record process =
  pc_handlers :: handlers
  pc_authorizer :: authorizer

definition started :: process where
  "started = \<lparr>pc_handlers = [], pc_authorizer = deny_all_authorizer\<rparr>"

definition register_command_authorizer :: "authorizer \<Rightarrow> (process, unit) prog" where
  "register_command_authorizer a = update (\<lambda>p. p\<lparr>pc_authorizer := a\<rparr>)"

definition current_authorizer :: "process \<Rightarrow> authorizer" where
  "current_authorizer p = pc_authorizer p"

subsection \<open>Results as rows\<close>

definition PENDING :: dict where
  "PENDING = [(''_pending'', JBool True)]"

definition serialize :: "CommandResult \<Rightarrow> dict" where
  "serialize r =
     [(''accepted'', JBool (accepted r)), (''aggregate_id'', ostr (cr_aggregate_id r)),
      (''produced_event_ids'', JArr (map JStr (produced_event_ids r))), (''denied_reason'', ostr (denied_reason r))]"

fun json_bool :: "json \<Rightarrow> exn + bool" where
  "json_bool (JBool b) = Inr b"
| "json_bool _ = Inl TypeError"

fun json_str :: "json \<Rightarrow> exn + string" where
  "json_str (JStr s) = Inr s"
| "json_str _ = Inl TypeError"

fun json_strs :: "json \<Rightarrow> exn + string list" where
  "json_strs (JArr xs) = map_chain json_str xs"
| "json_strs _ = Inl TypeError"

text \<open>Only \<open>serialize\<close> writes rows that are read back, so a value of another type is an error here.\<close>

definition deserialize :: "dict \<Rightarrow> exn + CommandResult" where
  "deserialize d =
     chain (chain (dict_item d ''accepted'') json_bool) (\<lambda>acc.
     chain (chain (dict_item d ''aggregate_id'') opt_str) (\<lambda>aid.
     chain (chain (dict_item d ''produced_event_ids'') json_strs) (\<lambda>ids.
     chain (opt_str (dget d ''denied_reason'')) (\<lambda>why.
     Inr \<lparr>accepted = acc, cr_aggregate_id = aid, produced_event_ids = ids, denied_reason = why\<rparr>))))"

subsection \<open>Claims\<close>

definition claim :: "string \<Rightarrow> string \<Rightarrow> bool dbprog" where
  "claim key action =
     andthen (query (\<lambda>s. key \<in> id_key ` set (command_idempotency s))) (\<lambda>taken.
     if taken then ret False
     else andthen (update (\<lambda>s. s\<lparr>command_idempotency := command_idempotency s @
            [\<lparr>id_key = key, id_action = action, id_result = PENDING\<rparr>]\<rparr>)) (\<lambda>_. ret True))"

definition finalize :: "string \<Rightarrow> CommandResult \<Rightarrow> unit dbprog" where
  "finalize key r = update (\<lambda>s. s\<lparr>command_idempotency :=
     map (\<lambda>row. if id_key row = key then row\<lparr>id_result := serialize r\<rparr> else row) (command_idempotency s)\<rparr>)"

definition release :: "string \<Rightarrow> unit dbprog" where
  "release key = update (\<lambda>s. s\<lparr>command_idempotency := filter (\<lambda>row. id_key row \<noteq> key) (command_idempotency s)\<rparr>)"

definition idem_at :: "string \<Rightarrow> db \<Rightarrow> idem_row option" where
  "idem_at key s = find (\<lambda>row. id_key row = key) (command_idempotency s)"

definition replay :: "string \<Rightarrow> CommandResult option dbprog" where
  "replay key =
     andthen (query (idem_at key)) (\<lambda>row.
     case row of None \<Rightarrow> ret None
     | Some r \<Rightarrow>
         if truthy (dget (id_result r) ''_pending'') then ret None
         else andthen (lift (deserialize (id_result r))) (\<lambda>res. ret (Some res)))"

definition is_degraded :: "Command \<Rightarrow> db \<Rightarrow> bool" where
  "is_degraded cmd s = (case cm_aggregate_id cmd of None \<Rightarrow> False
     | Some aid \<Rightarrow> list_ex (\<lambda>m. dg_aggregate m = cm_aggregate cmd \<and> dg_aggregate_id m = aid) (projection_degraded s))"

subsection \<open>The entry point\<close>

text \<open>The part of the body after the claim is won.\<close>

definition run_claimed :: "process \<Rightarrow> env \<Rightarrow> Command \<Rightarrow> CommandResult dbprog" where
  "run_claimed P E cmd =
     (let key = cm_idempotency_key cmd; aid = Some (str_or (cm_aggregate_id cmd) [])
      in andthen (current_authorizer P E cmd) (\<lambda>decision.
         if \<not> az_allowed decision then
           andthen (release key) (\<lambda>_.
           ret \<lparr>accepted = False, cr_aggregate_id = aid, produced_event_ids = [], denied_reason = az_reason decision\<rparr>)
         else
           andthen (query (\<lambda>s. cm_action cmd \<noteq> ''resolve_degraded'' \<and> is_degraded cmd s)) (\<lambda>blocked.
           if blocked then andthen (release key) (\<lambda>_. ret (refuse aid ''aggregate is degraded''))
           else
             andthen (lift (get_command (cm_action cmd) (pc_handlers P))) (\<lambda>h.
             andthen (h E cmd) (\<lambda>result.
             andthen (if accepted result then finalize key result else release key) (\<lambda>_.
             ret result))))))"

definition execute_command_body :: "process \<Rightarrow> env \<Rightarrow> Command \<Rightarrow> CommandResult dbprog" where
  "execute_command_body P E cmd =
     (let key = cm_idempotency_key cmd
      in andthen (claim key (cm_action cmd)) (\<lambda>owned.
         if owned then run_claimed P E cmd
         else
           andthen (replay key) (\<lambda>prior.
           case prior of Some r \<Rightarrow> ret r
           | None \<Rightarrow>
               andthen (claim key (cm_action cmd)) (\<lambda>owned.
               if owned then run_claimed P E cmd
               else
                 andthen (replay key) (\<lambda>prior.
                 case prior of Some r \<Rightarrow> ret r
                 | None \<Rightarrow> ret (refuse (Some (str_or (cm_aggregate_id cmd) [])) ''idempotency claim contended; retry''))))))"

definition execute_command :: "process \<Rightarrow> env \<Rightarrow> Command \<Rightarrow> CommandResult dbprog" where
  "execute_command P E cmd = savepoint rollback (execute_command_body P E cmd)"

subsection \<open>The abstract memo table\<close>

lemma deserialize_serialize [simp]: "deserialize (serialize r) = Inr r"
proof -
  have "map_chain json_str (map JStr xs) = Inr xs" for xs
    by (induction xs) simp_all
  moreover have "opt_str (ostr x) = Inr x" for x
    by (cases x) simp_all
  ultimately show ?thesis
    by (simp add: deserialize_def serialize_def)
qed

lemma serialize_done [simp]: "\<not> truthy (dget (serialize r) ''_pending'')"
  by (simp add: serialize_def)

text \<open>What a key remembers: the result its row holds, unless it is pending.\<close>

definition memo :: "db \<Rightarrow> string \<Rightarrow> CommandResult option" where
  "memo s key = (case idem_at key s of None \<Rightarrow> None
     | Some row \<Rightarrow> if truthy (dget (id_result row) ''_pending'') then None
         else (case deserialize (id_result row) of Inl _ \<Rightarrow> None | Inr r \<Rightarrow> Some r))"

text \<open>Between commands every row is the accepted result of its key, and no claim is pending.\<close>

definition settled :: "db \<Rightarrow> bool" where
  "settled s \<longleftrightarrow> distinct (map id_key (command_idempotency s))
     \<and> (\<forall>row \<in> set (command_idempotency s). \<exists>r. accepted r \<and> id_result row = serialize r)"

inductive once :: "string \<Rightarrow> (string \<Rightarrow> CommandResult option) \<Rightarrow> exn + CommandResult \<Rightarrow> (string \<Rightarrow> CommandResult option) \<Rightarrow> bool"
  for key where
  replayed: "M key = Some r \<Longrightarrow> once key M (Inr r) M"
| recorded: "M key = None \<Longrightarrow> accepted r \<Longrightarrow> once key M (Inr r) (M(key \<mapsto> r))"
| refused: "M key = None \<Longrightarrow> \<not> accepted r \<Longrightarrow> once key M (Inr r) M"
| raised: "M key = None \<Longrightarrow> once key M (Inl e) M"

inductive_cases onceE: "once key M r M'"

text \<open>The rule of the table on its own: the first accepted result of a key is final.\<close>

lemma once_final: "once key' M r M' \<Longrightarrow> M key = Some x \<Longrightarrow> M' key = Some x"
  by (erule onceE) (auto split: if_splits)


subsection \<open>What the entry point needs of its clients\<close>

definition idem_kept :: "db \<Rightarrow> db \<Rightarrow> bool" where
  "idem_kept s s' \<longleftrightarrow> command_idempotency s' = command_idempotency s"

interpretation claims_kept: state_rel idem_kept
  by unfold_locales (auto simp: idem_kept_def)

definition claimed :: "Command \<Rightarrow> db \<Rightarrow> db" where
  "claimed cmd s = s\<lparr>command_idempotency := command_idempotency s @
     [\<lparr>id_key = cm_idempotency_key cmd, id_action = cm_action cmd, id_result = PENDING\<rparr>]\<rparr>"

definition recorded_row :: "Command \<Rightarrow> CommandResult \<Rightarrow> idem_row" where
  "recorded_row cmd r = \<lparr>id_key = cm_idempotency_key cmd, id_action = cm_action cmd, id_result = serialize r\<rparr>"

lemma claim_free:
  "cm_idempotency_key cmd \<notin> id_key ` set (command_idempotency s) \<Longrightarrow>
     claim (cm_idempotency_key cmd) (cm_action cmd) s = (Inr True, claimed cmd s)"
  by (simp add: claim_def claimed_def)

lemma claim_taken: "key \<in> id_key ` set (command_idempotency s) \<Longrightarrow> claim key a s = (Inr False, s)"
  by (simp add: claim_def)

lemma settled_at:
  assumes "settled s"
  shows "idem_at key s = None \<longleftrightarrow> key \<notin> id_key ` set (command_idempotency s)"
    and "idem_at key s = Some row \<Longrightarrow> \<exists>r. accepted r \<and> id_result row = serialize r \<and> memo s key = Some r"
    and "memo s key = None \<longleftrightarrow> key \<notin> id_key ` set (command_idempotency s)"
proof -
  show n: "idem_at key s = None \<longleftrightarrow> key \<notin> id_key ` set (command_idempotency s)"
    by (auto simp: idem_at_def find_None_iff)
  show r: "\<exists>r. accepted r \<and> id_result row = serialize r \<and> memo s key = Some r" if "idem_at key s = Some row" for row
  proof -
    have "row \<in> set (command_idempotency s)"
      using that by (auto simp: idem_at_def find_Some_iff)
    then obtain r where "accepted r" "id_result row = serialize r"
      using assms by (auto simp: settled_def)
    then show ?thesis
      using that by (simp add: memo_def)
  qed
  show "memo s key = None \<longleftrightarrow> key \<notin> id_key ` set (command_idempotency s)"
    using n r by (cases "idem_at key s") (auto simp: memo_def)
qed

text \<open>A key with a result: the result is returned and nothing is touched, not even by the authorizer.\<close>

lemma execute_remembered:
  assumes "settled s" "memo s (cm_idempotency_key cmd) = Some r"
  shows "execute_command P E cmd s = (Inr r, s)"
proof -
  let ?k = "cm_idempotency_key cmd"
  obtain row where row: "idem_at ?k s = Some row"
    using assms(2) by (auto simp: memo_def split: option.splits)
  then have "id_result row = serialize r"
    using settled_at(2) [OF assms(1) row] assms(2) by auto
  then have "replay ?k s = (Inr (Some r), s)"
    by (simp add: replay_def row)
  moreover have "claim ?k (cm_action cmd) s = (Inr False, s)"
    using settled_at(1) [OF assms(1), of ?k] row by (intro claim_taken) simp
  ultimately show ?thesis
    by (simp add: execute_command_def execute_command_body_def savepoint_def Let_def andthen_def)
qed

lemma execute_fresh:
  assumes "settled s" "memo s (cm_idempotency_key cmd) = None"
  shows "execute_command P E cmd s =
    (case run_claimed P E cmd (claimed cmd s) of (Inl e, s') \<Rightarrow> (Inl e, rollback s s') | r \<Rightarrow> r)"
  using claim_free settled_at(3) assms
  by (simp add: execute_command_def execute_command_body_def savepoint_def Let_def andthen_def)

lemma memo_append:
  assumes "command_idempotency s' = command_idempotency s @ [recorded_row cmd r]" "memo s (cm_idempotency_key cmd) = None" "settled s"
  shows "memo s' = (memo s)(cm_idempotency_key cmd \<mapsto> r)"
proof
  fix key
  have f: "find p (xs @ [x]) = (case find p xs of None \<Rightarrow> if p x then Some x else None | Some y \<Rightarrow> Some y)" for p x and xs :: "idem_row list"
    by (induction xs) auto
  have "idem_at (cm_idempotency_key cmd) s = None"
    using assms settled_at by blast
  then show "memo s' key = ((memo s)(cm_idempotency_key cmd \<mapsto> r)) key"
    using assms(1) by (auto simp: memo_def idem_at_def f recorded_row_def split: option.split)
qed

lemma memo_frame: "command_idempotency s' = command_idempotency s \<Longrightarrow> memo s' = memo s"
  by (simp add: memo_def idem_at_def fun_eq_iff)

locale command_clients =
  fixes P :: process and E :: env
  assumes authorizes: "keeps idem_kept (current_authorizer P E cmd)"
    and handles: "get_command a (pc_handlers P) = Inr h \<Longrightarrow> keeps idem_kept (h E cmd)"
begin

text \<open>How a claimed run ends: refused by the authorizer or the block, or with what the handler returned.\<close>

lemma run_cases:
  assumes "run_claimed P E cmd s = (Inr r, s')"
  obtains (denied) d s1 where "current_authorizer P E cmd s = (Inr d, s1)" "\<not> az_allowed d" "\<not> accepted r"
      "denied_reason r = az_reason d" "s' = snd (release (cm_idempotency_key cmd) s1)" "command_idempotency s1 = command_idempotency s"
  | (degraded) d s1 where "current_authorizer P E cmd s = (Inr d, s1)" "az_allowed d" "cm_action cmd \<noteq> ''resolve_degraded''"
      "is_degraded cmd s1" "\<not> accepted r" "denied_reason r = Some ''aggregate is degraded''"
      "s' = snd (release (cm_idempotency_key cmd) s1)" "command_idempotency s1 = command_idempotency s"
  | (handled) d s1 h s2 where "current_authorizer P E cmd s = (Inr d, s1)" "az_allowed d"
      "cm_action cmd = ''resolve_degraded'' \<or> \<not> is_degraded cmd s1" "get_command (cm_action cmd) (pc_handlers P) = Inr h"
      "h E cmd s1 = (Inr r, s2)" "command_idempotency s2 = command_idempotency s"
      "s' = snd ((if accepted r then finalize (cm_idempotency_key cmd) r else release (cm_idempotency_key cmd)) s2)"
proof -
  let ?k = "cm_idempotency_key cmd" and ?aid = "Some (str_or (cm_aggregate_id cmd) [])"
  obtain d s1 where a: "current_authorizer P E cmd s = (Inr d, s1)"
    and rest: "(if \<not> az_allowed d then
           andthen (release ?k) (\<lambda>_.
           ret \<lparr>accepted = False, cr_aggregate_id = ?aid, produced_event_ids = [], denied_reason = az_reason d\<rparr>)
         else
           andthen (query (\<lambda>s. cm_action cmd \<noteq> ''resolve_degraded'' \<and> is_degraded cmd s)) (\<lambda>blocked.
           if blocked then andthen (release ?k) (\<lambda>_. ret (refuse ?aid ''aggregate is degraded''))
           else
             andthen (lift (get_command (cm_action cmd) (pc_handlers P))) (\<lambda>h.
             andthen (h E cmd) (\<lambda>result.
             andthen (if accepted result then finalize ?k result else release ?k) (\<lambda>_.
             ret result))))) s1 = (Inr r, s')"
    using assms unfolding run_claimed_def Let_def andthen_eq_Inr by blast
  have k1: "command_idempotency s1 = command_idempotency s"
    using keepsD [OF authorizes a] by (simp add: idem_kept_def)
  consider "\<not> az_allowed d" | "az_allowed d" "cm_action cmd \<noteq> ''resolve_degraded''" "is_degraded cmd s1"
    | "az_allowed d" "cm_action cmd = ''resolve_degraded'' \<or> \<not> is_degraded cmd s1"
    by blast
  then show thesis
  proof cases
    case 1
    with rest show thesis
      by (intro denied [OF a 1]) (auto simp: release_def k1)
  next
    case 2
    with rest show thesis
      by (intro degraded [OF a 2]) (auto simp: release_def k1)
  next
    case 3
    then obtain h s2 where h: "get_command (cm_action cmd) (pc_handlers P) = Inr h" "h E cmd s1 = (Inr r, s2)"
      and s': "s' = snd ((if accepted r then finalize ?k r else release ?k) s2)"
      using rest by (cases "get_command (cm_action cmd) (pc_handlers P)")
        (auto simp: andthen_eq_Inr release_def finalize_def split: if_splits)
    have "command_idempotency s2 = command_idempotency s"
      using keepsD [OF handles [OF h(1)] h(2)] k1 by (simp add: idem_kept_def)
    then show thesis
      by (rule handled [OF a 3 h _ s'])
  qed
qed

lemma run_claims:
  assumes "run_claimed P E cmd (claimed cmd s) = (Inr r, s')" "cm_idempotency_key cmd \<notin> id_key ` set (command_idempotency s)"
  shows "command_idempotency s' = command_idempotency s @ (if accepted r then [recorded_row cmd r] else [])"
proof -
  have "filter (\<lambda>row. id_key row \<noteq> cm_idempotency_key cmd) (command_idempotency s) = command_idempotency s"
    by (rule filter_True) (metis assms(2) imageI)
  moreover have "map (\<lambda>row. if id_key row = cm_idempotency_key cmd then row\<lparr>id_result := serialize r\<rparr> else row) (command_idempotency s)
      = command_idempotency s"
    by (rule map_idI) (metis assms(2) imageI)
  ultimately show ?thesis
    by (cases rule: run_cases [OF assms(1)]) (auto simp: release_def finalize_def claimed_def recorded_row_def)
qed

text \<open>One call refines one step of the table.\<close>

lemma refines:
  assumes "settled s" "execute_command P E cmd s = (r, s')"
  shows "settled s' \<and> once (cm_idempotency_key cmd) (memo s) r (memo s')"
proof (cases "memo s (cm_idempotency_key cmd)")
  case (Some x)
  then show ?thesis
    using execute_remembered [OF assms(1) Some] assms by (auto intro: once.replayed)
next
  case None
  then have free: "cm_idempotency_key cmd \<notin> id_key ` set (command_idempotency s)"
    using settled_at(3) [OF assms(1)] by simp
  obtain x t where run: "run_claimed P E cmd (claimed cmd s) = (x, t)"
    by fastforce
  have ex: "(r, s') = (case (x, t) of (Inl e, s') \<Rightarrow> (Inl e, rollback s s') | r \<Rightarrow> r)"
    using execute_fresh [OF assms(1) None] assms(2) run by simp
  show ?thesis
  proof (cases x)
    case (Inl e)
    then have i: "command_idempotency s' = command_idempotency s" and "r = Inl e"
      using ex by (auto simp: rollback_def)
    with None assms(1) memo_frame [OF i] show ?thesis
      by (auto simp: settled_def intro: once.raised)
  next
    case (Inr y)
    then have y: "r = Inr y" "s' = t" "run_claimed P E cmd (claimed cmd s) = (Inr y, s')"
      using ex run by auto
    note ids = run_claims [OF y(3) free]
    show ?thesis
    proof (cases "accepted y")
      case True
      then have "settled s'"
        using ids assms(1) free by (auto simp: settled_def recorded_row_def)
      moreover have "memo s' = (memo s)(cm_idempotency_key cmd \<mapsto> y)"
        using ids True None assms(1) by (intro memo_append) simp_all
      ultimately show ?thesis
        using once.recorded [of "memo s", OF None True] y(1) by simp
    next
      case False
      then have i: "command_idempotency s' = command_idempotency s"
        using ids by simp
      with memo_frame [OF i] show ?thesis
        using None assms(1) False y(1) by (auto simp: settled_def intro: once.refused)
    qed
  qed
qed

end

subsection \<open>Commands and other transactions\<close>

text \<open>Commands of one process, between them any transactions that leave the claims alone.\<close>

inductive session :: "process \<Rightarrow> env \<Rightarrow> db \<Rightarrow> db \<Rightarrow> bool" for P E where
  command: "session P E s (snd (execute_command P E cmd s))"
| other: "idem_kept s s' \<Longrightarrow> session P E s s'"

context command_clients
begin

lemma session_memo:
  assumes "session P E s s'" "settled s"
  shows "settled s' \<and> (memo s key = Some r \<longrightarrow> memo s' key = Some r)"
  using assms(1)
proof cases
  case (command cmd)
  then have "execute_command P E cmd s = (fst (execute_command P E cmd s), s')"
    by simp
  from refines [OF assms(2) this] once_final show ?thesis
    by blast
next
  case other
  then have i: "command_idempotency s' = command_idempotency s"
    by (simp add: idem_kept_def)
  with memo_frame [OF i] assms(2) show ?thesis
    by (simp add: settled_def)
qed

lemma sessions_memo:
  "(session P E)\<^sup>*\<^sup>* s s' \<Longrightarrow> settled s \<Longrightarrow> settled s' \<and> (memo s key = Some r \<longrightarrow> memo s' key = Some r)"
  by (induction rule: rtranclp_induct) (use session_memo in blast)+

text \<open>Whatever happens after a command was accepted, its key returns that result and runs nothing.\<close>

lemma final:
  assumes "settled s" "execute_command P E cmd s = (Inr r, s1)" "accepted r" "(session P E)\<^sup>*\<^sup>* s1 s2"
    and "cm_idempotency_key cmd' = cm_idempotency_key cmd"
  shows "execute_command P E cmd' s2 = (Inr r, s2)"
proof -
  have st: "settled s1" "once (cm_idempotency_key cmd) (memo s) (Inr r) (memo s1)"
    using refines [OF assms(1,2)] by auto
  then have "memo s1 (cm_idempotency_key cmd) = Some r"
    using assms(3) by (auto elim: onceE)
  then have "settled s2" "memo s2 (cm_idempotency_key cmd') = Some r"
    using sessions_memo [OF assms(4) st(1)] assms(5) by auto
  then show ?thesis
    by (rule execute_remembered)
qed

text \<open>What an accepted fresh command went through.\<close>

lemma accepted_was_handled:
  assumes "settled s" "memo s (cm_idempotency_key cmd) = None" "execute_command P E cmd s = (Inr r, s')" "accepted r"
  shows "\<exists>d s1 h s2. current_authorizer P E cmd (claimed cmd s) = (Inr d, s1) \<and> az_allowed d
    \<and> (cm_action cmd = ''resolve_degraded'' \<or> \<not> is_degraded cmd s1)
    \<and> get_command (cm_action cmd) (pc_handlers P) = Inr h \<and> h E cmd s1 = (Inr r, s2)
    \<and> s' = s2\<lparr>command_idempotency := command_idempotency s @ [recorded_row cmd r]\<rparr>"
proof -
  have run: "run_claimed P E cmd (claimed cmd s) = (Inr r, s')"
    using execute_fresh [OF assms(1,2), of P E] assms(3) by (auto split: prod.splits sum.splits)
  have ids: "command_idempotency s' = command_idempotency s @ [recorded_row cmd r]"
    using run_claims [OF run] settled_at(3) [OF assms(1)] assms(2,4) by auto
  show ?thesis
    using assms(4)
  proof (cases rule: run_cases [OF run])
    case (3 d s1 h s2)
    then have "s' = s2\<lparr>command_idempotency := command_idempotency s'\<rparr>"
      using assms(4) by (simp add: finalize_def)
    with 3 ids show ?thesis
      by metis
  qed auto
qed

end

text \<open>
  A relation of another component goes through the entry point when the authorizer and the handlers keep
  it, the claims do not matter to it, and it survives a rollback.
\<close>

locale command_rel = state_rel R for R :: "db \<Rightarrow> db \<Rightarrow> bool" +
  fixes P :: process and E :: env
  assumes authorizes: "keeps R (current_authorizer P E cmd)"
    and handles: "get_command a (pc_handlers P) = Inr h \<Longrightarrow> keeps R (h E cmd)"
    and ledger: "R s (s\<lparr>command_idempotency := x\<rparr>)"
    and undone: "R s s' \<Longrightarrow> R s (rollback s s')"
begin

lemma keeps_claims: "keeps R (claim k a)" "keeps R (finalize k r)" "keeps R (release k)"
  unfolding claim_def finalize_def release_def by (intro keeps_rules keeps_update ledger)+

lemma keeps_lookup: "(\<And>x. r = Inr x \<Longrightarrow> keeps R (f x)) \<Longrightarrow> keeps R (andthen (lift r) f)"
  by (cases r) (auto intro: keeps_rules)

lemma keeps_replay: "keeps R (replay k)"
  unfolding replay_def by (intro keeps_rules)

lemma keeps_run: "keeps R (run_claimed P E cmd)"
  unfolding run_claimed_def Let_def
  by (intro keeps_rules keeps_claims authorizes keeps_lookup handles)

lemma execute: "keeps R (execute_command P E cmd)"
  unfolding execute_command_def execute_command_body_def Let_def
  by (intro keeps_savepoint undone keeps_rules keeps_claims keeps_replay keeps_run)

end

end
