(* ===== verification/Documents.thy ===== *)
theory Documents
  imports Event_Store
begin

text \<open>
  The staged documents of a run: the write-once document store (\<open>documents/store.py\<close>), the draft schema
  (\<open>documents/draft.py\<close>) and the selection of the primary document of a stage
  (\<open>documents/primary.py\<close>).  The table's trigger refuses updates and deletes, so the only operation is
  the append; \<open>docs_ok\<close> is the invariant that makes the lineage a directed acyclic graph.
\<close>

subsection \<open>The document store\<close>

definition validate_structure :: "NewDocument \<Rightarrow> exn + unit" where
  "validate_structure new =
     (if nd_stage new \<notin> set STAGES then Inl DocumentValidationError
      else if nd_branch_role new \<notin> set BRANCH_ROLES then Inl DocumentValidationError
      else if nd_body_classification new \<notin> set BODY_CLASSIFICATIONS then Inl DocumentValidationError
      else if nd_branch_role new = ''rejected'' \<and> str_or (nd_reject_reason new) [] = [] then Inl DocumentValidationError
      else Inr ())"

text \<open>\<open>"sha256:" + hexdigest\<close>; the digest is a parameter.\<close>

definition compute_content_hash :: "(string \<Rightarrow> string) \<Rightarrow> string \<Rightarrow> string" where
  "compute_content_hash sha256_hex body = ''sha256:'' @ sha256_hex body"

definition validate_dag :: "NewDocument \<Rightarrow> unit dbprog" where
  "validate_dag new =
     (let refs = nd_derived_from new @ nd_supersedes new
      in if refs = [] then ret ()
         else andthen (query (\<lambda>s. filter (\<lambda>i. i \<in> set refs) (map dc_doc_id (documents s)))) (\<lambda>found.
              if filter (\<lambda>r. r \<notin> set found) refs \<noteq> [] then throw DagViolationError else ret ()))"

definition insert_document :: "doc_row \<Rightarrow> unit dbprog" where
  "insert_document row = (\<lambda>s.
     let s1 = s\<lparr>gseq := gseq s + 1\<rparr>
     in if dc_branch_role row \<notin> set BRANCH_ROLES then (Inl (CheckViolation ''documents_branch_role_check''), s1)
        else if dc_body_classification row \<notin> set BODY_CLASSIFICATIONS then (Inl (CheckViolation ''documents_body_classification_check''), s1)
        else if dc_stage row \<notin> set STAGES then (Inl (CheckViolation ''documents_stage_enum''), s1)
        else if dc_branch_role row = ''rejected'' \<and> dc_reject_reason row = None
          then (Inl (CheckViolation ''documents_reject_reason_present''), s1)
        else if dc_doc_id row \<in> dc_doc_id ` set (documents s) then (Inl (UniqueViolation ''documents_pkey''), s1)
        else (Inr (), s1\<lparr>documents := documents s @ [row\<lparr>dc_global_seq := gseq s + 1\<rparr>]\<rparr>))"

definition doc_row_of :: "NewDocument \<Rightarrow> string option \<Rightarrow> string option \<Rightarrow> string option \<Rightarrow> IdentityEnvelope \<Rightarrow> doc_row" where
  "doc_row_of new run_id feature_id request_id actor =
     \<lparr>dc_doc_id = nd_doc_id new, dc_global_seq = 0, dc_request_id = request_id, dc_feature_id = feature_id, dc_run_id = run_id,
      dc_stage = nd_stage new, dc_schema_version = nd_schema_version new, dc_branch_role = nd_branch_role new,
      dc_derived_from = nd_derived_from new, dc_supersedes = nd_supersedes new, dc_body_ref = nd_body_ref new,
      dc_content_hash = nd_content_hash new, dc_body_classification = nd_body_classification new,
      dc_actor = identity_to_jsonb actor, dc_provenance = provenance_to_jsonb (nd_provenance new),
      dc_reject_reason = nd_reject_reason new\<rparr>"

definition append_document ::
  "NewDocument \<Rightarrow> string option \<Rightarrow> string option \<Rightarrow> string option \<Rightarrow> IdentityEnvelope \<Rightarrow> string dbprog" where
  "append_document new run_id feature_id request_id actor =
     andthen (lift (validate_structure new)) (\<lambda>_.
     andthen (validate_dag new) (\<lambda>_.
     andthen (insert_document (doc_row_of new run_id feature_id request_id actor)) (\<lambda>_.
     ret (nd_doc_id new))))"

definition get_document :: "string \<Rightarrow> db \<Rightarrow> doc_row option" where
  "get_document doc_id s = find (\<lambda>d. dc_doc_id d = doc_id) (documents s)"

subsection \<open>Drafts\<close>

definition RAW_INPUT_CLASSIFICATIONS :: "string list" where
  "RAW_INPUT_CLASSIFICATIONS = [''contains_pii'', ''clean'', ''unscanned'']"

definition INTAKE_MODES :: "string list" where
  "INTAKE_MODES = [''hypothesis'', ''definition'']"

definition UNKNOWN :: string where
  "UNKNOWN = ''UNKNOWN''"

definition DRAFT_REQUIRED :: "string list" where
  "DRAFT_REQUIRED = [''request_id'', ''intake_mode'', ''raw_input_ref'', ''raw_input_classification'', ''open_fields'',
     ''assumption_ledger_ref'', ''status'']"

definition unknown_unlisted :: "dict \<Rightarrow> json list \<Rightarrow> string list" where
  "unknown_unlisted body open_fields = map fst (filter (\<lambda>(k, v). v = JStr UNKNOWN \<and> JStr k \<notin> set open_fields) body)"

definition validate_draft :: "dict \<Rightarrow> exn + unit" where
  "validate_draft body =
     (if has_key body ''raw_input'' then Inl DraftValidationError
      else if filter (\<lambda>k. \<not> has_key body k) DRAFT_REQUIRED \<noteq> [] then Inl DraftValidationError
      else if dget body ''raw_input_classification'' \<notin> JStr ` set RAW_INPUT_CLASSIFICATIONS then Inl DraftValidationError
      else if dget body ''intake_mode'' \<notin> JStr ` set INTAKE_MODES then Inl DraftValidationError
      else (case dget body ''open_fields'' of
              JArr open_fields \<Rightarrow>
                if unknown_unlisted body open_fields \<noteq> [] then Inl DraftValidationError
                else if \<not> truthy (dget body ''assumption_ledger_ref'') then Inl DraftValidationError
                else Inr ()
            | _ \<Rightarrow> Inl DraftValidationError))"

definition draft_has_open_fields :: "dict \<Rightarrow> bool" where
  "draft_has_open_fields body \<longleftrightarrow> truthy (dget body ''open_fields'')"

subsection \<open>Primary selection\<close>

definition PRIMARY_SELECTED :: string where
  "PRIMARY_SELECTED = ''PRIMARY_SELECTED''"

definition new_primary_selected ::
  "string \<Rightarrow> string \<Rightarrow> string \<Rightarrow> IdentityEnvelope \<Rightarrow> ProvenanceEnvelope \<Rightarrow> string option \<Rightarrow> NewEvent" where
  "new_primary_selected run_id stage doc_id actor prov caused_by =
     \<lparr>ne_aggregate = ''run'', ne_aggregate_id = Some run_id, ne_type = PRIMARY_SELECTED, ne_schema_version = 1,
      ne_payload = [(''doc_id'', JStr doc_id), (''stage'', JStr stage)], ne_actor = actor, ne_provenance = prov,
      ne_request_id = None, ne_feature_id = None, ne_run_id = Some run_id, ne_overlay_fact_id = None,
      ne_feature_contract_id = None, ne_caused_by = caused_by, ne_occurred_at = None\<rparr>"

text \<open>\<open>ON CONFLICT (run_id, stage) DO UPDATE ... WHERE selected_seq < EXCLUDED.selected_seq\<close>.\<close>

definition upsert_primary :: "primary_row \<Rightarrow> primary_row list \<Rightarrow> primary_row list" where
  "upsert_primary row rows =
     (if list_ex (\<lambda>r. sp_run_id r = sp_run_id row \<and> sp_stage r = sp_stage row) rows
      then map (\<lambda>r. if sp_run_id r = sp_run_id row \<and> sp_stage r = sp_stage row \<and> sp_selected_seq r < sp_selected_seq row
                    then row else r) rows
      else rows @ [row])"

text \<open>
  \<open>StagePrimaryProjection.apply\<close> as a function of the documents and of its own table.  The payload's two
  fields are texts by the registered schema; a missing run id finds no document.
\<close>

definition primary_step :: "doc_row list \<Rightarrow> EventEnvelope \<Rightarrow> primary_row list \<Rightarrow> exn + primary_row list" where
  "primary_step docs e rows =
     (if ev_type e \<noteq> PRIMARY_SELECTED then Inr rows
      else chain (dict_str (ev_payload e) ''doc_id'') (\<lambda>doc_id.
        chain (dict_str (ev_payload e) ''stage'') (\<lambda>stage.
        case ev_run_id e of
          Some run_id \<Rightarrow>
            if list_ex (\<lambda>d. dc_doc_id d = doc_id \<and> dc_run_id d = Some run_id \<and> dc_stage d = stage) docs
            then Inr (upsert_primary \<lparr>sp_run_id = run_id, sp_stage = stage, sp_doc_id = doc_id, sp_selected_seq = ev_global_seq e\<rparr> rows)
            else Inl (ProjectionApplyError ''run'' run_id (''PRIMARY_SELECTED references unknown doc '' @ doc_id @ '' for ('' @ run_id @ '','' @ stage @ '')''))
        | None \<Rightarrow> Inl (ProjectionApplyError ''run'' [] (''PRIMARY_SELECTED references unknown doc '' @ doc_id @ '' for (None,'' @ stage @ '')'')))))"

definition primary_apply :: "EventEnvelope \<Rightarrow> unit dbprog" where
  "primary_apply e =
     andthen (query (\<lambda>s. primary_step (documents s) e (stage_primary s))) (\<lambda>r.
     andthen (lift r) (\<lambda>rows. update (\<lambda>s. s\<lparr>stage_primary := rows\<rparr>)))"

definition primary_reset :: "unit dbprog" where
  "primary_reset = update (\<lambda>s. s\<lparr>stage_primary := []\<rparr>)"

definition current_primary :: "string \<Rightarrow> string \<Rightarrow> db \<Rightarrow> string option" where
  "current_primary run_id stage s =
     map_option sp_doc_id (find (\<lambda>r. sp_run_id r = run_id \<and> sp_stage r = stage) (stage_primary s))"

subsection \<open>The lineage is acyclic\<close>

definition doc_refs :: "doc_row \<Rightarrow> string set" where
  "doc_refs d = set (dc_derived_from d) \<union> set (dc_supersedes d)"

definition lineage :: "db \<Rightarrow> (string \<times> string) set" where
  "lineage s = {(r, dc_doc_id d) | r d. d \<in> set (documents s) \<and> r \<in> doc_refs d}"

definition docs_ok :: "db \<Rightarrow> bool" where
  "docs_ok s \<longleftrightarrow> distinct (map dc_doc_id (documents s)) \<and> (\<forall>d \<in> set (documents s). dc_global_seq d \<le> gseq s)
     \<and> (\<forall>d \<in> set (documents s). \<forall>r \<in> doc_refs d. \<exists>p \<in> set (documents s). dc_doc_id p = r \<and> dc_global_seq p < dc_global_seq d)"

text \<open>The sequence number of a document strictly increases along every edge.\<close>

lemma lineage_acyclic:
  assumes "docs_ok s"
  shows "acyclic (lineage s)"
proof -
  define seq where "seq i = dc_global_seq (the (get_document i s))" for i
  have seq: "seq (dc_doc_id d) = dc_global_seq d" if "d \<in> set (documents s)" for d
  proof -
    have "find (\<lambda>e. dc_doc_id e = dc_doc_id d) ds = Some d" if "distinct (map dc_doc_id ds)" "d \<in> set ds" for ds
      using that by (induction ds) auto
    then show ?thesis
      using assms that by (simp add: seq_def get_document_def docs_ok_def)
  qed
  have up: "seq a < seq b" if "(a, b) \<in> (lineage s)\<^sup>+" for a b
    using that
  proof (induction rule: trancl_induct)
    case (base b)
    then show ?case
      using assms seq by (fastforce simp: lineage_def docs_ok_def)
  next
    case (step b c)
    then have "seq b < seq c"
      using assms seq by (fastforce simp: lineage_def docs_ok_def)
    with step.IH show ?case by simp
  qed
  show ?thesis
    unfolding acyclic_def using up by blast
qed

lemma append_document_cases:
  assumes "append_document new run_id feature_id request_id actor s = (r, s')"
  obtains (raised) e where "r = Inl e" "documents s' = documents s" "gseq s \<le> gseq s'"
  | (appended) "r = Inr (nd_doc_id new)" "nd_doc_id new \<notin> dc_doc_id ` set (documents s)"
      "set (nd_derived_from new @ nd_supersedes new) \<subseteq> dc_doc_id ` set (documents s)" "validate_structure new = Inr ()"
      "s' = s\<lparr>gseq := gseq s + 1, documents := documents s @ [(doc_row_of new run_id feature_id request_id actor)\<lparr>dc_global_seq := gseq s + 1\<rparr>]\<rparr>"
proof -
  have dag: "validate_dag new s = ((if set (nd_derived_from new @ nd_supersedes new) \<subseteq> dc_doc_id ` set (documents s)
      then Inr () else Inl DagViolationError), s)"
    by (auto simp: validate_dag_def Let_def filter_empty_conv)
  show thesis
  proof (cases "validate_structure new = Inr () \<and> set (nd_derived_from new @ nd_supersedes new) \<subseteq> dc_doc_id ` set (documents s)")
    case True
    let ?row = "doc_row_of new run_id feature_id request_id actor"
    have id: "dc_doc_id ?row = nd_doc_id new"
      by (simp add: doc_row_of_def)
    show thesis
    proof (cases "insert_document ?row s")
      case (Pair x s1)
      then have run: "r = (case x of Inl e \<Rightarrow> Inl e | Inr _ \<Rightarrow> Inr (nd_doc_id new))" "s' = s1"
        using assms True dag by (auto simp: append_document_def andthen_def split: sum.splits)
      show thesis
      proof (cases x)
        case (Inl e)
        then show thesis
          using Pair run by (intro raised [of e]) (auto simp: insert_document_def Let_def split: if_splits)
      next
        case (Inr u)
        then show thesis
          using Pair run True id by (intro appended) (auto simp: insert_document_def Let_def split: if_splits)
      qed
    qed
  next
    case False
    then show thesis
      using assms dag
      by (intro raised [of "case validate_structure new of Inl e \<Rightarrow> e | Inr _ \<Rightarrow> DagViolationError"])
         (auto simp: append_document_def andthen_def split: sum.splits if_splits)
  qed
qed

lemma append_document_ok:
  assumes "append_document new run_id feature_id request_id actor s = (r, s')" "docs_ok s"
  shows "docs_ok s' \<and> prefix (documents s) (documents s')"
  using assms(1)
proof (cases rule: append_document_cases)
  case (raised e)
  then show ?thesis
    using assms(2) by (fastforce simp: docs_ok_def)
next
  case appended
  let ?d = "(doc_row_of new run_id feature_id request_id actor)\<lparr>dc_global_seq := gseq s + 1\<rparr>"
  have old: "dc_global_seq d < gseq s + 1" if "d \<in> set (documents s)" for d
    using assms(2) that by (fastforce simp: docs_ok_def)
  have "\<exists>p \<in> set (documents s). dc_doc_id p = r \<and> dc_global_seq p < dc_global_seq ?d" if "r \<in> doc_refs ?d" for r
    using appended(3) that old by (fastforce simp: doc_refs_def doc_row_of_def)
  then show ?thesis
    using assms(2) appended(2) old
    by (auto simp: appended(5) docs_ok_def doc_row_of_def intro: order_less_imp_le)
qed

text \<open>The table keeps, per run and stage, the selection with the highest sequence number.\<close>

definition primary_key :: "primary_row \<Rightarrow> string \<times> string" where
  "primary_key r = (sp_run_id r, sp_stage r)"

definition live_primary :: "string \<times> string \<Rightarrow> primary_row list \<Rightarrow> primary_row option" where
  "live_primary k rows = find (\<lambda>r. primary_key r = k) rows"

lemma upsert_by_key:
  "upsert_primary r rows = (if list_ex (\<lambda>q. primary_key q = primary_key r) rows
     then map (\<lambda>q. if primary_key q = primary_key r \<and> sp_selected_seq q < sp_selected_seq r then r else q) rows else rows @ [r])"
  by (simp add: upsert_primary_def primary_key_def)

lemma live_primary_upsert:
  "live_primary k (upsert_primary r rows) =
     (if primary_key r = k then (case live_primary k rows of None \<Rightarrow> Some r | Some q \<Rightarrow> Some (if sp_selected_seq q < sp_selected_seq r then r else q))
      else live_primary k rows)"
proof -
  define g where "g q = (if primary_key q = primary_key r \<and> sp_selected_seq q < sp_selected_seq r then r else q)" for q
  have "primary_key (g q) = primary_key q" for q
    by (simp add: g_def)
  then have m: "live_primary k (map g rows) = map_option g (live_primary k rows)"
    by (induction rows) (auto simp: live_primary_def)
  have app: "live_primary k (rows @ [r]) = (case live_primary k rows of None \<Rightarrow> if primary_key r = k then Some r else None | Some q \<Rightarrow> Some q)"
    by (induction rows) (auto simp: live_primary_def)
  have key: "primary_key q = k \<and> q \<in> set rows" if "live_primary k rows = Some q" for q
    using that by (auto simp: live_primary_def find_Some_iff)
  have ex: "list_ex (\<lambda>q. primary_key q = primary_key r) rows \<longleftrightarrow> live_primary (primary_key r) rows \<noteq> None"
    by (auto simp: live_primary_def list_ex_iff find_None_iff)
  have up: "upsert_primary r rows = (if live_primary (primary_key r) rows \<noteq> None then map g rows else rows @ [r])"
    unfolding upsert_by_key ex g_def [abs_def] ..
  show ?thesis
  proof (cases "live_primary k rows")
    case None
    then show ?thesis
      by (auto simp: up m app)
  next
    case (Some q)
    then have "g q = (if primary_key r = k \<and> sp_selected_seq q < sp_selected_seq r then r else q)"
      using key by (auto simp: g_def)
    with Some show ?thesis
      by (auto simp: up m app)
  qed
qed

lemma live_primary_fold:
  assumes "live_primary k (fold upsert_primary rs rows) = Some q"
  shows "(q \<in> set rs \<and> primary_key q = k \<or> live_primary k rows = Some q)
    \<and> (\<forall>r \<in> set rs. primary_key r = k \<longrightarrow> sp_selected_seq r \<le> sp_selected_seq q)
    \<and> (\<forall>p. live_primary k rows = Some p \<longrightarrow> sp_selected_seq p \<le> sp_selected_seq q)"
  using assms
proof (induction rs arbitrary: rows)
  case (Cons r rs)
  note ih = Cons.IH [of "upsert_primary r rows"]
  show ?case
    using ih Cons.prems
    by (cases "live_primary k rows"; cases "primary_key r = k") (auto simp: live_primary_upsert split: if_splits)
qed simp

lemma live_primary_None: "live_primary k (fold upsert_primary rs rows) = None \<longleftrightarrow> live_primary k rows = None \<and> (\<forall>r \<in> set rs. primary_key r \<noteq> k)"
  by (induction rs arbitrary: rows) (auto simp: live_primary_upsert split: option.split)

subsection \<open>Properties\<close>

text \<open>
  Documents are write-once and their lineage is a directed acyclic graph.  However the appends of a
  run succeed or fail, earlier documents stay, ids are unique, every \<open>derived_from\<close> and \<open>supersedes\<close>
  edge points to a document with a smaller sequence number, and there is no cycle.
\<close>

theorem document_lineage_acyclic:
  assumes "append_document new run_id feature_id request_id actor s = (r, s')" "docs_ok s"
  shows "docs_ok s' \<and> acyclic (lineage s') \<and> prefix (documents s) (documents s')
    \<and> (\<forall>doc_id. r = Inr doc_id \<longrightarrow> (\<exists>d. get_document doc_id s' = Some d \<and> dc_stage d = nd_stage new
          \<and> doc_refs d = set (nd_derived_from new) \<union> set (nd_supersedes new)))"
proof -
  have "\<exists>d. get_document doc_id s' = Some d \<and> dc_stage d = nd_stage new \<and> doc_refs d = set (nd_derived_from new) \<union> set (nd_supersedes new)"
    if "r = Inr doc_id" for doc_id
    using assms(1)
  proof (cases rule: append_document_cases)
    case appended
    have "find (\<lambda>d. dc_doc_id d = doc_id) (ds @ [d]) = Some d" if "dc_doc_id d = doc_id" "doc_id \<notin> dc_doc_id ` set ds" for d ds
      using that by (induction ds) auto
    from this [of "(doc_row_of new run_id feature_id request_id actor)\<lparr>dc_global_seq := gseq s + 1\<rparr>" "documents s"]
    show ?thesis
      using appended(1,2,5) that by (auto simp: get_document_def doc_row_of_def doc_refs_def)
  qed (use that in simp)
  then show ?thesis
    using append_document_ok [OF assms] lineage_acyclic by blast
qed

definition sample_document :: NewDocument where
  "sample_document = \<lparr>nd_doc_id = ''d2'', nd_stage = ''FEATURE_PLAN'', nd_schema_version = 1, nd_branch_role = ''candidate'',
     nd_content_hash = ''sha256:0'', nd_body_classification = ''governance-retained'', nd_provenance = sample_provenance,
     nd_body_ref = None, nd_derived_from = [''d1''], nd_supersedes = [], nd_reject_reason = None\<rparr>"

definition drafted_db :: db where
  "drafted_db = snd (append_document (sample_document\<lparr>nd_doc_id := ''d1'', nd_derived_from := []\<rparr>) (Some ''r1'') None None sample_actor empty_db)"

lemma drafted_ok: "docs_ok drafted_db"
proof -
  obtain r s' where r: "append_document (sample_document\<lparr>nd_doc_id := ''d1'', nd_derived_from := []\<rparr>) (Some ''r1'') None None sample_actor empty_db = (r, s')"
    by fastforce
  moreover have "docs_ok empty_db"
    by (simp add: docs_ok_def empty_db_def)
  ultimately show ?thesis
    using append_document_ok by (simp add: drafted_db_def)
qed

theorem document_lineage_acyclic_witness:
  "\<exists>s'. append_document sample_document (Some ''r1'') None None sample_actor drafted_db = (Inr ''d2'', s') \<and> acyclic (lineage s')
     \<and> (\<exists>d. get_document ''d2'' s' = Some d \<and> doc_refs d = {''d1''})"
proof -
  have "fst (append_document sample_document (Some ''r1'') None None sample_actor drafted_db) = Inr ''d2''"
    by code_simp
  then obtain s' where r: "append_document sample_document (Some ''r1'') None None sample_actor drafted_db = (Inr ''d2'', s')"
    by (metis surjective_pairing)
  from document_lineage_acyclic [OF r drafted_ok] r show ?thesis
    by (auto simp: sample_document_def)
qed

text \<open>
  The primary document of a stage does not depend on the order of delivery.  Applying the same
  selections in any order, with any repetitions, leaves the same primary for every run and stage: the one
  selected by the event with the highest sequence number.
\<close>

theorem primary_order_free:
  assumes "set rs = set rs'" "\<And>p q. p \<in> set rs \<Longrightarrow> q \<in> set rs \<Longrightarrow> primary_key p = primary_key q \<Longrightarrow> sp_selected_seq p = sp_selected_seq q \<Longrightarrow> p = q"
  shows "live_primary k (fold upsert_primary rs []) = live_primary k (fold upsert_primary rs' [])
    \<and> (\<forall>q. live_primary k (fold upsert_primary rs []) = Some q \<longrightarrow> (\<forall>r \<in> set rs. primary_key r = k \<longrightarrow> sp_selected_seq r \<le> sp_selected_seq q))"
proof (cases "live_primary k (fold upsert_primary rs [])")
  case None
  then show ?thesis
    using assms(1) live_primary_None [of k rs' "[]"] live_primary_None [of k rs "[]"] by (simp add: None)
next
  case (Some q)
  then obtain q' where q': "live_primary k (fold upsert_primary rs' []) = Some q'"
    using live_primary_None [of k rs "[]"] live_primary_None [of k rs' "[]"] assms(1) by (metis not_Some_eq option.distinct(1))
  have "live_primary k [] = None"
    by (simp add: live_primary_def)
  note m = live_primary_fold [OF Some, unfolded this] live_primary_fold [OF q', unfolded this]
  have "q = q'"
    using m assms by (intro assms(2)) force+
  then show ?thesis
    using Some q' m by simp
qed

theorem primary_order_free_witness:
  "live_primary (''r'', ''S'') (fold upsert_primary [\<lparr>sp_run_id = ''r'', sp_stage = ''S'', sp_doc_id = ''a'', sp_selected_seq = 1\<rparr>,
      \<lparr>sp_run_id = ''r'', sp_stage = ''S'', sp_doc_id = ''b'', sp_selected_seq = 2\<rparr>] []) =
   live_primary (''r'', ''S'') (fold upsert_primary [\<lparr>sp_run_id = ''r'', sp_stage = ''S'', sp_doc_id = ''b'', sp_selected_seq = 2\<rparr>,
      \<lparr>sp_run_id = ''r'', sp_stage = ''S'', sp_doc_id = ''a'', sp_selected_seq = 1\<rparr>] [])"
  by (rule primary_order_free [THEN conjunct1]) auto

end
