(* ===== verification/Projections.thy ===== *)
theory Projections
  imports Documents Security_Audit "HOL-Library.AList"
begin

text \<open>
  Read models: the projection runner of \<open>projections/runner.py\<close>, the parallel migration of
  \<open>projections/migration.py\<close> and the command that clears a degraded marker
  (\<open>resolve_degraded_command\<close> of \<open>aggregates/run_lifecycle.py\<close>).

  A projection is a record of its four members.  The runner's loops call \<open>run_projection\<close> until a call
  applies nothing, so they get the number of events plus one as fuel; \<open>replay_terminates\<close> shows that this is
  enough.  The locale \<open>read_model\<close> is the contract of a projection that owns one table: there the batched,
  checkpointed replay is the plain fold over the events.
\<close>

record Projection =
  pj_name :: string
  pj_is_analytics :: bool
  pj_apply :: "EventEnvelope \<Rightarrow> unit dbprog"
  pj_reset :: "unit dbprog"

definition StagePrimaryProjection :: Projection where
  "StagePrimaryProjection = \<lparr>pj_name = ''stage_primary'', pj_is_analytics = False, pj_apply = primary_apply, pj_reset = primary_reset\<rparr>"

subsection \<open>Checkpoints and ledgers\<close>

definition ensure_checkpoint :: "string \<Rightarrow> bool \<Rightarrow> unit dbprog" where
  "ensure_checkpoint name is_analytics = update (\<lambda>s.
     if name \<in> ck_projection_name ` set (projection_checkpoints s) then s
     else s\<lparr>projection_checkpoints := projection_checkpoints s @
       [\<lparr>ck_projection_name = name, ck_checkpoint_seq = 0, ck_head_seq = 0, ck_is_analytics = is_analytics\<rparr>]\<rparr>)"

definition find_checkpoint :: "string \<Rightarrow> db \<Rightarrow> checkpoint_row option" where
  "find_checkpoint name s = find (\<lambda>r. ck_projection_name r = name) (projection_checkpoints s)"

definition checkpoint_seq :: "string \<Rightarrow> db \<Rightarrow> int" where
  "checkpoint_seq name s = (case find_checkpoint name s of None \<Rightarrow> 0 | Some r \<Rightarrow> ck_checkpoint_seq r)"

definition set_checkpoint :: "string \<Rightarrow> int \<Rightarrow> int \<Rightarrow> unit dbprog" where
  "set_checkpoint name seq head = update (\<lambda>s. s\<lparr>projection_checkpoints :=
     map (\<lambda>r. if ck_projection_name r = name then r\<lparr>ck_checkpoint_seq := seq, ck_head_seq := head\<rparr> else r) (projection_checkpoints s)\<rparr>)"

definition head_seq :: "db \<Rightarrow> int" where
  "head_seq s = (case map er_global_seq (events s) of [] \<Rightarrow> 0 | v # vs \<Rightarrow> fold max vs v)"

definition insert_skip :: "string \<Rightarrow> int \<Rightarrow> string \<Rightarrow> unit dbprog" where
  "insert_skip name seq reason = update (\<lambda>s.
     if list_ex (\<lambda>(n, q, _). n = name \<and> q = seq) (projection_skips s) then s
     else s\<lparr>projection_skips := projection_skips s @ [(name, seq, reason)]\<rparr>)"

definition same_marker :: "degraded_row \<Rightarrow> degraded_row \<Rightarrow> bool" where
  "same_marker m m' \<longleftrightarrow> dg_projection_name m = dg_projection_name m' \<and> dg_aggregate m = dg_aggregate m'
     \<and> dg_aggregate_id m = dg_aggregate_id m'"

definition mark_degraded :: "string \<Rightarrow> string \<Rightarrow> string \<Rightarrow> string \<Rightarrow> EventEnvelope \<Rightarrow> unit dbprog" where
  "mark_degraded name agg aid reason event =
     (let row = \<lparr>dg_projection_name = name, dg_aggregate = agg, dg_aggregate_id = aid, dg_reason = reason,
                 dg_poison_event_id = ev_event_id event, dg_poison_seq = ev_global_seq event\<rparr>
      in update (\<lambda>s. s\<lparr>projection_degraded :=
           (if list_ex (same_marker row) (projection_degraded s)
            then map (\<lambda>m. if same_marker row m then row else m) (projection_degraded s)
            else projection_degraded s @ [row])\<rparr>))"

subsection \<open>The runner\<close>

text \<open>The text of a \<open>ProjectionApplyError\<close>, \<open>str(exc)\<close>.\<close>

definition apply_error_text :: "string \<Rightarrow> string \<Rightarrow> string \<Rightarrow> string" where
  "apply_error_text agg aid reason = agg @ '':'' @ aid @ '': '' @ reason"

definition degrade :: "env \<Rightarrow> string \<Rightarrow> exn \<Rightarrow> EventEnvelope \<Rightarrow> unit dbprog" where
  "degrade E name e event =
     (case e of
        ProjectionApplyError agg aid reason \<Rightarrow> mark_degraded name agg aid reason event
      | _ \<Rightarrow> mark_degraded name (ev_aggregate event) (ev_aggregate_id event) (take 500 (''unexpected '' @ exn_text E e)) event)"

fun apply_rows :: "env \<Rightarrow> Projection \<Rightarrow> event_row list \<Rightarrow> int \<Rightarrow> int \<Rightarrow> (int \<times> int) dbprog" where
  "apply_rows E P [] last_seq applied = ret (last_seq, applied)"
| "apply_rows E P (row # rows) last_seq applied =
     andthen (lift (row_to_event row)) (\<lambda>event.
     andthen (attempt (savepoint rollback (pj_apply P event))) (\<lambda>r.
     case r of
       Inr _ \<Rightarrow> apply_rows E P rows (ev_global_seq event) (applied + 1)
     | Inl e \<Rightarrow>
         if pj_is_analytics P then
           (case e of
              ProjectionApplyError agg aid reason \<Rightarrow>
                andthen (insert_skip (pj_name P) (ev_global_seq event) (take 500 (apply_error_text agg aid reason))) (\<lambda>_.
                apply_rows E P rows (ev_global_seq event) applied)
            | _ \<Rightarrow> throw e)
         else andthen (degrade E (pj_name P) e event) (\<lambda>_. ret (last_seq, applied))))"

definition pending_events :: "int \<Rightarrow> db \<Rightarrow> event_row list" where
  "pending_events checkpoint s = sort_key er_global_seq (filter (\<lambda>r. checkpoint < er_global_seq r) (events s))"

definition run_projection :: "env \<Rightarrow> Projection \<Rightarrow> nat \<Rightarrow> int dbprog" where
  "run_projection E P batch =
     andthen (ensure_checkpoint (pj_name P) (pj_is_analytics P)) (\<lambda>_.
     andthen (query (checkpoint_seq (pj_name P))) (\<lambda>checkpoint.
     andthen (query (\<lambda>s. take batch (pending_events checkpoint s))) (\<lambda>rows.
     andthen (apply_rows E P rows checkpoint 0) (\<lambda>(last_seq, applied).
     andthen (query head_seq) (\<lambda>head.
     andthen (set_checkpoint (pj_name P) last_seq head) (\<lambda>_.
     ret applied))))))"

definition DEFAULT_BATCH :: nat where
  "DEFAULT_BATCH = 500"

text \<open>\<open>while run_projection(conn, projection) > 0: pass\<close>.\<close>

primrec drain :: "nat \<Rightarrow> env \<Rightarrow> Projection \<Rightarrow> unit dbprog" where
  "drain 0 E P = throw Diverges"
| "drain (Suc fuel) E P = andthen (run_projection E P DEFAULT_BATCH) (\<lambda>applied. if applied > 0 then drain fuel E P else ret ())"

definition replay_all :: "env \<Rightarrow> Projection \<Rightarrow> unit dbprog" where
  "replay_all E P = andthen (query (\<lambda>s. Suc (length (events s)))) (\<lambda>fuel. drain fuel E P)"

definition projection_lag :: "string \<Rightarrow> db \<Rightarrow> int" where
  "projection_lag name s = head_seq s - checkpoint_seq name s"

definition read_as_of :: "string \<Rightarrow> db \<Rightarrow> int" where
  "read_as_of name s = checkpoint_seq name s"

definition rebuild_projection :: "env \<Rightarrow> Projection \<Rightarrow> unit dbprog" where
  "rebuild_projection E P =
     andthen (pj_reset P) (\<lambda>_.
     andthen (update (\<lambda>s. s\<lparr>projection_skips := filter (\<lambda>(n, _). n \<noteq> pj_name P) (projection_skips s)\<rparr>)) (\<lambda>_.
     andthen (ensure_checkpoint (pj_name P) (pj_is_analytics P)) (\<lambda>_.
     andthen (set_checkpoint (pj_name P) 0 0) (\<lambda>_.
     andthen (replay_all E P) (\<lambda>_.
     andthen (query (projection_lag (pj_name P))) (\<lambda>lag.
     if lag = 0 then
       update (\<lambda>s. s\<lparr>projection_degraded := filter (\<lambda>m. dg_projection_name m \<noteq> pj_name P) (projection_degraded s)\<rparr>)
     else ret ()))))))"

subsection \<open>Repair\<close>

type_synonym repair_registry = "(string \<times> Projection) list"

definition register_projection_for_repair :: "string \<Rightarrow> Projection \<Rightarrow> repair_registry \<Rightarrow> repair_registry" where
  "register_projection_for_repair name P reg = AList.update name P reg"

definition projection_for_repair :: "string \<Rightarrow> repair_registry \<Rightarrow> Projection option" where
  "projection_for_repair name reg = map_of reg name"

definition marker_of :: "string \<Rightarrow> string \<Rightarrow> string \<Rightarrow> db \<Rightarrow> degraded_row option" where
  "marker_of name agg aid s = find (\<lambda>m. dg_projection_name m = name \<and> dg_aggregate m = agg \<and> dg_aggregate_id m = aid) (projection_degraded s)"

definition advance_projection_past :: "env \<Rightarrow> Projection \<Rightarrow> string \<Rightarrow> string \<Rightarrow> (bool \<times> int option) dbprog" where
  "advance_projection_past E P agg aid =
     andthen (replay_all E P) (\<lambda>_.
     andthen (query (marker_of (pj_name P) agg aid)) (\<lambda>marker.
     case marker of None \<Rightarrow> ret (True, None)
     | Some m \<Rightarrow>
         andthen (query (checkpoint_seq (pj_name P))) (\<lambda>seq.
         ret (if seq \<ge> dg_poison_seq m then (True, Some (dg_poison_seq m)) else (False, None)))))"

definition quoted :: "string \<Rightarrow> string" where
  "quoted name = CHR 0x27 # name @ [CHR 0x27]"

text \<open>The loop over the markers: the refusal that ends it, or what was proven.\<close>

fun prove_markers :: "env \<Rightarrow> repair_registry \<Rightarrow> string \<Rightarrow> string \<Rightarrow> string list \<Rightarrow> (CommandResult + (string \<times> int) list) dbprog" where
  "prove_markers E reg agg aid [] = ret (Inr [])"
| "prove_markers E reg agg aid (name # names) =
     (case projection_for_repair name reg of
        None \<Rightarrow> ret (Inl (refuse (Some aid) (''cannot prove health: projection '' @ quoted name @ '' is not registered for repair'')))
      | Some P \<Rightarrow>
          andthen (advance_projection_past E P agg aid) (\<lambda>(healthy, poison).
          if \<not> healthy then
            ret (Inl (refuse (Some aid) (''projection '' @ quoted name
              @ '' still cannot advance past the poison; remediate the cause before resolving'')))
          else
            andthen (prove_markers E reg agg aid names) (\<lambda>r.
            ret (case r of Inl no \<Rightarrow> Inl no
                 | Inr proven \<Rightarrow> Inr (case poison of None \<Rightarrow> proven | Some p \<Rightarrow> (name, p) # proven)))))"

definition delete_marker :: "string \<Rightarrow> string \<Rightarrow> string \<times> int \<Rightarrow> unit dbprog" where
  "delete_marker agg aid t = (case t of (name, poison_seq) \<Rightarrow> update (\<lambda>s. s\<lparr>projection_degraded :=
     filter (\<lambda>m. \<not> (dg_projection_name m = name \<and> dg_aggregate m = agg \<and> dg_aggregate_id m = aid \<and> dg_poison_seq m = poison_seq))
       (projection_degraded s)\<rparr>))"

definition degraded_names :: "string \<Rightarrow> string option \<Rightarrow> db \<Rightarrow> string list" where
  "degraded_names agg aid s =
     remdups (map dg_projection_name (filter (\<lambda>m. dg_aggregate m = agg \<and> aid = Some (dg_aggregate_id m)) (projection_degraded s)))"

definition resolve_degraded_command :: "repair_registry \<Rightarrow> env \<Rightarrow> Command \<Rightarrow> CommandResult dbprog" where
  "resolve_degraded_command reg E cmd =
     (let agg = cm_aggregate cmd; aid = str_or (cm_aggregate_id cmd) []
      in andthen (query (degraded_names agg (cm_aggregate_id cmd))) (\<lambda>names.
         if names = [] then ret (refuse (Some aid) ''no degraded marker for this aggregate'')
         else
           andthen (prove_markers E reg agg aid names) (\<lambda>r.
           case r of Inl no \<Rightarrow> ret no
           | Inr proven \<Rightarrow>
               if proven = [] then ret (refuse (Some aid) ''no degraded marker remained to clear for this aggregate'')
               else
                 andthen (for_each proven (delete_marker agg aid)) (\<lambda>_.
                 andthen (record_security_event E ''DEGRADED_RESOLVED'' (cm_actor cmd) ''resolve_degraded'' ''flagged''
                   (Some ''operator remediation proven healthy (projection advanced past poison)'') (Some agg) (cm_aggregate_id cmd)
                   ''regulator'' None) (\<lambda>_.
                 ret (accept (Some aid) []))))))"

subsection \<open>Aliases and migration\<close>

definition upsert_alias :: "string \<Rightarrow> string \<Rightarrow> int option \<Rightarrow> unit dbprog" where
  "upsert_alias al name seq = update (\<lambda>s. s\<lparr>projection_active_alias :=
     (if al \<in> al_alias ` set (projection_active_alias s)
      then map (\<lambda>r. if al_alias r = al then r\<lparr>al_projection_name := name,
             al_switched_seq := (case seq of None \<Rightarrow> al_switched_seq r | Some n \<Rightarrow> n)\<rparr> else r) (projection_active_alias s)
      else projection_active_alias s @ [\<lparr>al_alias = al, al_projection_name = name,
             al_switched_seq = (case seq of None \<Rightarrow> 0 | Some n \<Rightarrow> n)\<rparr>])\<rparr>)"

definition set_alias :: "string \<Rightarrow> string \<Rightarrow> unit dbprog" where
  "set_alias al name = upsert_alias al name None"

definition resolve_projection :: "string \<Rightarrow> db \<Rightarrow> string" where
  "resolve_projection al s = (case find (\<lambda>r. al_alias r = al) (projection_active_alias s) of None \<Rightarrow> al | Some r \<Rightarrow> al_projection_name r)"

definition migrate_projection :: "env \<Rightarrow> string \<Rightarrow> Projection \<Rightarrow> unit dbprog" where
  "migrate_projection E al new_projection =
     andthen (rebuild_projection E new_projection) (\<lambda>_.
     andthen (query (projection_lag (pj_name new_projection))) (\<lambda>lag.
     if lag \<noteq> 0 then throw RuntimeError
     else
       andthen (query head_seq) (\<lambda>head.
       upsert_alias al (pj_name new_projection) (Some head))))"

subsection \<open>The loops end\<close>

definition log_kept :: "db \<Rightarrow> db \<Rightarrow> bool" where
  "log_kept s s' \<longleftrightarrow> events s' = events s \<and> projection_checkpoints s' = projection_checkpoints s"

interpretation logs: state_rel log_kept
  by unfold_locales (auto simp: log_kept_def)

lemma row_to_event_seq: "row_to_event row = Inr e \<Longrightarrow> ev_global_seq e = er_global_seq row \<and> ev_event_id e = er_event_id row"
  by (auto simp: row_to_event_def chain_eq_Inr)

lemma chain_ends: "r \<noteq> Inl Diverges \<Longrightarrow> (\<And>x. f x \<noteq> Inl Diverges) \<Longrightarrow> chain r f \<noteq> Inl Diverges"
  by (cases r) auto

lemma dict_ends: "dict_str d k \<noteq> Inl Diverges" "dict_item d k \<noteq> Inl Diverges"
  by (auto simp: dict_str_def dict_item_def split: option.splits json.splits)

lemma row_to_event_ends: "row_to_event row \<noteq> Inl Diverges"
  unfolding row_to_event_def identity_from_jsonb_def provenance_from_jsonb_def Let_def
  by (intro chain_ends dict_ends) auto

lemma savepoint_kept:
  assumes "keeps log_kept (pj_apply P e)"
  shows "keeps log_kept (attempt (savepoint rollback (pj_apply P e)))"
  by (intro logs.keeps_attempt logs.keeps_savepoint assms) (simp add: log_kept_def rollback_def)

lemma ledgers_kept: "keeps log_kept (insert_skip n q r)" "keeps log_kept (degrade E n x e)"
  by (auto simp: keeps_def log_kept_def insert_skip_def degrade_def mark_degraded_def Let_def split: exn.split)

lemma keeps_apply_rows:
  assumes "\<And>e. keeps log_kept (pj_apply P e)"
  shows "keeps log_kept (apply_rows E P rows l n)"
proof (induction rows arbitrary: l n)
  case (Cons row rows)
  have exn: "keeps log_kept (case x of ProjectionApplyError a b c \<Rightarrow> f a b c | _ \<Rightarrow> throw x)" if "\<And>a b c. keeps log_kept (f a b c)"
    for x and f :: "string \<Rightarrow> string \<Rightarrow> string \<Rightarrow> (int \<times> int) dbprog"
    using that by (cases x) (simp_all add: logs.keeps_throw)
  show ?case
    unfolding apply_rows.simps
    by (intro logs.keeps_rules savepoint_kept assms ledgers_kept exn Cons.IH)
qed (simp add: logs.keeps_rules)

lemma apply_rows_progress:
  assumes "apply_rows E P rows l n s = (Inr (l', n'), s')" "sorted (l # map er_global_seq rows)"
  shows "n \<le> n' \<and> l \<le> l' \<and> (n < n' \<longrightarrow> l' \<in> er_global_seq ` set rows) \<and> (l' = l \<or> l' \<in> er_global_seq ` set rows)"
  using assms
proof (induction rows arbitrary: l n s)
  case (Cons row rows)
  obtain e r s1 where e: "row_to_event row = Inr e" "ev_global_seq e = er_global_seq row"
    and r: "attempt (savepoint rollback (pj_apply P e)) s = (Inr r, s1)"
    using Cons.prems(1) row_to_event_seq
    by (cases "row_to_event row"; cases "pj_apply P (projr (row_to_event row)) s") (auto simp: andthen_eq_Inr attempt_def savepoint_def)
  have a: "andthen (attempt (savepoint rollback (pj_apply P e))) f s = f r s1" for f :: "exn + unit \<Rightarrow> (int \<times> int) dbprog"
    by (rule andthen_Inr) (rule r)
  have step: "n \<le> n' \<and> l \<le> l' \<and> l' \<in> er_global_seq ` set (row # rows)"
    if "apply_rows E P rows (er_global_seq row) m t = (Inr (l', n'), s')" "n \<le> m" for m t
    using Cons.IH [OF that(1)] Cons.prems(2) that(2) by (auto simp: e)
  show ?case
  proof (cases r)
    case (Inr u)
    then show ?thesis
      using Cons.prems(1) step [of "n + 1" s1] by (simp add: e a)
  next
    case (Inl x)
    then have run: "(if pj_is_analytics P then case x of
              ProjectionApplyError agg aid reason \<Rightarrow>
                andthen (insert_skip (pj_name P) (ev_global_seq e) (take 500 (apply_error_text agg aid reason))) (\<lambda>_.
                apply_rows E P rows (ev_global_seq e) n)
            | _ \<Rightarrow> throw x
         else andthen (degrade E (pj_name P) x e) (\<lambda>_. ret (l, n))) s1 = (Inr (l', n'), s')"
      using Cons.prems(1) by (simp add: e(1) a)
    show ?thesis
    proof (cases "pj_is_analytics P")
      case True
      then obtain agg aid reason t where "apply_rows E P rows (er_global_seq row) n t = (Inr (l', n'), s')"
        using run by (cases x) (auto simp: andthen_eq_Inr e(2))
      from step [OF this] show ?thesis by simp
    next
      case False
      then show ?thesis
        using run by (auto simp: andthen_eq_Inr)
    qed
  qed
qed simp


lemma checkpoint_seq_set: "find_checkpoint name s \<noteq> None \<Longrightarrow> checkpoint_seq name (snd (set_checkpoint name q h s)) = q"
proof -
  have f: "find (\<lambda>r. ck_projection_name r = name) (map (\<lambda>r. if ck_projection_name r = name then r\<lparr>ck_checkpoint_seq := q, ck_head_seq := h\<rparr> else r) rows) =
    map_option (\<lambda>r. r\<lparr>ck_checkpoint_seq := q, ck_head_seq := h\<rparr>) (find (\<lambda>r. ck_projection_name r = name) rows)" for rows
    by (induction rows) auto
  assume "find_checkpoint name s \<noteq> None"
  then show ?thesis
    by (auto simp: checkpoint_seq_def find_checkpoint_def set_checkpoint_def f)
qed

lemma ensure_checkpoint_effect:
  "find_checkpoint name (snd (ensure_checkpoint name a s)) \<noteq> None" "checkpoint_seq name (snd (ensure_checkpoint name a s)) = checkpoint_seq name s"
  "events (snd (ensure_checkpoint name a s)) = events s"
proof -
  have f: "find (\<lambda>r. ck_projection_name r = name) (rows @ [x]) = (case find (\<lambda>r. ck_projection_name r = name) rows of None \<Rightarrow> if ck_projection_name x = name then Some x else None | r \<Rightarrow> r)"
    for rows x by (induction rows) auto
  show "find_checkpoint name (snd (ensure_checkpoint name a s)) \<noteq> None" "checkpoint_seq name (snd (ensure_checkpoint name a s)) = checkpoint_seq name s"
    "events (snd (ensure_checkpoint name a s)) = events s"
    by (auto simp: ensure_checkpoint_def find_checkpoint_def checkpoint_seq_def f find_None_iff find_Some_iff split: option.split)
qed

lemma pending_sorted: "sorted (map er_global_seq (take b (pending_events l s)))"
  "r \<in> set (take b (pending_events l s)) \<Longrightarrow> l < er_global_seq r"
  by (auto simp: pending_events_def sorted_wrt_take simp flip: take_map dest: in_set_takeD)

lemma pending_shrinks:
  assumes "r \<in> set (pending_events l s)"
  shows "length (pending_events (er_global_seq r) s) < length (pending_events l s)"
proof -
  have r: "r \<in> set (events s)" "l < er_global_seq r"
    using assms by (auto simp: pending_events_def)
  have "length (filter (\<lambda>x. er_global_seq r < er_global_seq x) (events s)) < length (filter (\<lambda>x. l < er_global_seq x) (events s))"
  proof -
    have "filter (\<lambda>x. er_global_seq r < er_global_seq x) (events s) =
        filter (\<lambda>x. er_global_seq r < er_global_seq x) (filter (\<lambda>x. l < er_global_seq x) (events s))"
      using r(2) by (auto intro: filter_cong)
    moreover have "r \<in> set (filter (\<lambda>x. l < er_global_seq x) (events s))"
      using r by simp
    ultimately show ?thesis
      by (simp only:) (rule length_filter_less [of r], auto)
  qed
  then show ?thesis
    by (simp add: pending_events_def)
qed

lemma run_projection_progress:
  assumes "run_projection E P b s = (Inr k, s')" "\<And>e. keeps log_kept (pj_apply P e)"
  shows "events s' = events s \<and> checkpoint_seq (pj_name P) s \<le> checkpoint_seq (pj_name P) s'
    \<and> (0 < k \<longrightarrow> length (pending_events (checkpoint_seq (pj_name P) s') s') < length (pending_events (checkpoint_seq (pj_name P) s) s))"
proof -
  let ?n = "pj_name P"
  define s1 where "s1 = snd (ensure_checkpoint ?n (pj_is_analytics P) s)"
  have s1: "find_checkpoint ?n s1 \<noteq> None" "checkpoint_seq ?n s1 = checkpoint_seq ?n s" "events s1 = events s"
    using ensure_checkpoint_effect by (simp_all add: s1_def)
  define rows where "rows = take b (pending_events (checkpoint_seq ?n s) s)"
  have "pending_events l s1 = pending_events l s" for l
    by (simp add: pending_events_def s1(3))
  then obtain l' s2 where a: "apply_rows E P rows (checkpoint_seq ?n s) 0 s1 = (Inr (l', k), s2)" and s': "s' = snd (set_checkpoint ?n l' (head_seq s2) s2)"
    using assms(1) s1
    by (auto simp: run_projection_def andthen_eq_Inr s1_def rows_def ensure_checkpoint_def set_checkpoint_def split: prod.splits)
  have kept: "log_kept s1 s2"
    using keepsD [OF keeps_apply_rows [OF assms(2)] a] .
  have "0 \<le> k \<and> checkpoint_seq ?n s \<le> l' \<and> (0 < k \<longrightarrow> l' \<in> er_global_seq ` set rows)"
    using apply_rows_progress [OF a] pending_sorted [where b = b and l = "checkpoint_seq ?n s" and s = s] by (auto simp: rows_def intro: order_less_imp_le)
  moreover have "find_checkpoint ?n s2 \<noteq> None"
    using kept s1(1) by (simp add: log_kept_def find_checkpoint_def)
  then have "checkpoint_seq ?n s' = l'"
    using checkpoint_seq_set s' by simp
  moreover have ev: "events s' = events s"
    using kept s1(3) by (simp add: s' log_kept_def set_checkpoint_def)
  moreover have "pending_events l s' = pending_events l s" for l
    by (simp add: pending_events_def ev)
  moreover have "length (pending_events q s) < length (pending_events (checkpoint_seq ?n s) s)" if "q \<in> er_global_seq ` set rows" for q
    using that pending_shrinks in_set_takeD unfolding rows_def by fastforce
  ultimately show ?thesis by auto
qed

lemma drain_enough:
  assumes "\<And>e. keeps log_kept (pj_apply P e)" "length (pending_events (checkpoint_seq (pj_name P) s) s) < fuel"
  shows "drain (fuel + extra) E P s = drain fuel E P s"
  using assms(2)
proof (induction fuel arbitrary: s)
  case (Suc fuel)
  show ?case
  proof (cases "run_projection E P DEFAULT_BATCH s")
    case (Pair x s')
    then show ?thesis
    proof (cases x)
      case (Inr k)
      then show ?thesis
        using Pair Suc run_projection_progress [OF Pair [unfolded Inr] assms(1)] by (auto simp: andthen_def)
    qed (simp add: andthen_def)
  qed
qed simp

definition ends :: "'a dbprog \<Rightarrow> bool" where
  "ends m \<longleftrightarrow> (\<forall>s. fst (m s) \<noteq> Inl Diverges)"

lemma ends_andthen: "ends m \<Longrightarrow> (\<And>x. ends (f x)) \<Longrightarrow> ends (andthen m f)"
  by (auto simp: ends_def andthen_def split: prod.split sum.split) (metis fst_conv)

lemma ends_basic: "ends (ret x)" "ends (query f)" "ends (update g)" "e \<noteq> Diverges \<Longrightarrow> ends (throw e)" "r \<noteq> Inl Diverges \<Longrightarrow> ends (lift r)"
  by (auto simp: ends_def)

lemma ends_ledgers: "ends (insert_skip n q r)" "ends (degrade E n x e)" "ends (ensure_checkpoint n a)" "ends (set_checkpoint n q h)"
  by (auto simp: ends_def insert_skip_def degrade_def mark_degraded_def ensure_checkpoint_def set_checkpoint_def Let_def split: exn.split)

lemma ends_savepoint: "ends m \<Longrightarrow> ends (savepoint u m)"
  by (auto simp: ends_def savepoint_def split: prod.split sum.split) (metis fst_conv)

lemma ends_apply_rows:
  assumes "\<And>e. ends (pj_apply P e)"
  shows "ends (apply_rows E P rows l n)"
proof (induction rows arbitrary: l n)
  case (Cons row rows)
  have cont: "ends (case r of Inr _ \<Rightarrow> apply_rows E P rows (ev_global_seq event) (n + 1)
     | Inl e \<Rightarrow> if pj_is_analytics P then
           (case e of ProjectionApplyError agg aid reason \<Rightarrow>
                andthen (insert_skip (pj_name P) (ev_global_seq event) (take 500 (apply_error_text agg aid reason))) (\<lambda>_.
                apply_rows E P rows (ev_global_seq event) n)
            | _ \<Rightarrow> throw e)
         else andthen (degrade E (pj_name P) e event) (\<lambda>_. ret (l, n)))" if "r \<noteq> Inl Diverges" for r :: "exn + unit" and event
    using that by (auto intro!: ends_andthen ends_basic ends_ledgers Cons.IH split: sum.split exn.split)
  have try_ends: "ends (andthen (attempt (savepoint rollback (pj_apply P event))) f)" if "\<And>r. r \<noteq> Inl Diverges \<Longrightarrow> ends (f r)" for event and f :: "exn + unit \<Rightarrow> (int \<times> int) dbprog"
  proof -
    have "fst (savepoint rollback (pj_apply P event) s) \<noteq> Inl Diverges" for s
      using ends_savepoint [OF assms] by (simp add: ends_def)
    then show ?thesis
      using that by (auto simp: ends_def andthen_def attempt_def split: prod.split) (metis fst_conv)
  qed
  show ?case
    unfolding apply_rows.simps by (rule ends_andthen, rule ends_basic(5), rule row_to_event_ends, rule try_ends, rule cont)
qed (simp add: ends_basic)

lemma ends_run_projection: "(\<And>e. ends (pj_apply P e)) \<Longrightarrow> ends (run_projection E P b)"
  unfolding run_projection_def
  by (intro ends_andthen ends_basic ends_ledgers) (auto intro!: ends_apply_rows ends_andthen ends_basic ends_ledgers split: prod.split)

lemma drain_ends:
  assumes "\<And>e. keeps log_kept (pj_apply P e)" "\<And>e. ends (pj_apply P e)"
    and "length (pending_events (checkpoint_seq (pj_name P) s) s) < fuel"
  shows "fst (drain fuel E P s) \<noteq> Inl Diverges"
  using assms(3)
proof (induction fuel arbitrary: s)
  case (Suc fuel)
  show ?case
  proof (cases "run_projection E P DEFAULT_BATCH s")
    case (Pair x s')
    then show ?thesis
    proof (cases x)
      case (Inr k)
      then show ?thesis
        using Pair Suc run_projection_progress [OF Pair [unfolded Inr] assms(1)] by (auto simp: andthen_def)
    next
      case (Inl e)
      have "fst (run_projection E P DEFAULT_BATCH s) \<noteq> Inl Diverges"
        using ends_run_projection [OF assms(2)] by (simp add: ends_def)
      then show ?thesis
        using Pair Inl by (simp add: andthen_def)
    qed
  qed
qed simp

subsection \<open>A replay is a fold\<close>

text \<open>The reference: apply events until one fails; what was reached and how many were applied.\<close>

fun fold_until :: "('e \<Rightarrow> 'v \<Rightarrow> exn + 'v) \<Rightarrow> 'e list \<Rightarrow> 'v \<Rightarrow> 'v \<times> nat" where
  "fold_until f [] v = (v, 0)"
| "fold_until f (e # es) v =
     (case f e v of Inl _ \<Rightarrow> (v, 0) | Inr w \<Rightarrow> (case fold_until f es w of (u, k) \<Rightarrow> (u, Suc k)))"

lemma fold_until_le: "fold_until f es v = (u, k) \<Longrightarrow> k \<le> length es"
  by (induction es arbitrary: v u k) (fastforce split: sum.splits prod.splits)+

lemma fold_until_poison: "fold_until f es v = (u, k) \<Longrightarrow> k < length es \<Longrightarrow> \<exists>x. f (es ! k) u = Inl x"
  by (induction es arbitrary: v u k) (fastforce split: sum.splits prod.splits)+

lemma fold_until_batch:
  assumes "fold_until f (take b es) v = (u, k)"
  shows "fold_until f es v = (case fold_until f (drop k es) u of (w, m) \<Rightarrow> (w, k + m))"
  using assms
proof (induction es arbitrary: v b u k)
  case (Cons e es)
  then show ?case
    by (cases b) (auto split: sum.splits prod.splits)
qed auto

lemma fold_until_stuck:
  assumes "fold_until f (take b es) v = (u, 0)" "0 < b"
  shows "fold_until f es v = (v, 0)"
  using assms by (cases es; cases b) (auto split: sum.splits prod.splits)

definition decoded :: "event_row \<Rightarrow> EventEnvelope" where
  "decoded r = projr (row_to_event r)"

definition reached :: "int \<Rightarrow> event_row list \<Rightarrow> nat \<Rightarrow> int" where
  "reached l rows k = (if k = 0 then l else er_global_seq (rows ! (k - 1)))"

definition ledger :: "checkpoint_row list \<Rightarrow> degraded_row list \<Rightarrow> (string \<times> int \<times> string) list \<Rightarrow> db \<Rightarrow> db" where
  "ledger c d k s = s\<lparr>projection_checkpoints := c, projection_degraded := d, projection_skips := k\<rparr>"

lemma degrade_ledger:
  obtains d where "degrade E name x e s = (Inr (), ledger (projection_checkpoints s) d (projection_skips s) s)"
    "\<exists>m \<in> set d. dg_projection_name m = name \<and> dg_poison_seq m = ev_global_seq e"
proof -
  obtain agg aid reason where dg: "degrade E name x e = mark_degraded name agg aid reason e"
    by (cases x) (simp_all add: degrade_def)
  let ?row = "\<lparr>dg_projection_name = name, dg_aggregate = agg, dg_aggregate_id = aid, dg_reason = reason,
     dg_poison_event_id = ev_event_id e, dg_poison_seq = ev_global_seq e\<rparr>"
  let ?d = "if list_ex (same_marker ?row) (projection_degraded s)
    then map (\<lambda>m. if same_marker ?row m then ?row else m) (projection_degraded s) else projection_degraded s @ [?row]"
  have "?row \<in> set ?d"
    by (auto simp: list_ex_iff image_iff)
  then show thesis
    by (intro that [of ?d]) (auto simp: dg mark_degraded_def Let_def ledger_def intro!: bexI [of _ ?row] simp del: set_map)
qed

lemma rollback_same [simp]: "rollback s s = s"
  by (simp add: rollback_def)

lemma head_last:
  assumes "sorted_wrt (<) (map er_global_seq (events s))"
  shows "head_seq s = (if events s = [] then 0 else er_global_seq (last (events s)))"
proof (cases "events s" rule: rev_cases)
  case (snoc rs r)
  obtain v vs where v: "map er_global_seq (events s) = v # vs"
    using snoc by (cases "map er_global_seq (events s)") auto
  have "head_seq s \<in> set (v # vs)" "\<forall>x \<in> set (v # vs). x \<le> head_seq s"
    using fold_max_in [of vs v] fold_max_le(1) [of v vs] fold_max_le(2) [of _ vs v] by (auto simp: head_seq_def v)
  then have h: "head_seq s \<in> er_global_seq ` set (events s)" "er_global_seq r \<le> head_seq s"
    using v [symmetric] snoc by (simp_all flip: set_map)
  have "x \<le> er_global_seq r" if "x \<in> er_global_seq ` set (events s)" for x
    using assms that by (auto simp: snoc sorted_wrt_append intro: order_less_imp_le)
  with h snoc show ?thesis by (auto intro: antisym)
qed (simp add: head_seq_def)

text \<open>
  The contract of a fail-closed projection that owns its table \<open>view\<close>: \<open>apply\<close> is one step on that table,
  reads besides it only what no projection writes, and writes nothing when it fails.
\<close>

locale read_model =
  fixes P :: Projection and view :: "db \<Rightarrow> 'v" and put :: "'v \<Rightarrow> db \<Rightarrow> db"
    and astep :: "db \<Rightarrow> EventEnvelope \<Rightarrow> 'v \<Rightarrow> exn + 'v" and empty :: 'v
  assumes fail_closed: "\<not> pj_is_analytics P"
    and apply_step: "pj_apply P e s = (case astep s e (view s) of Inl x \<Rightarrow> (Inl x, s) | Inr v \<Rightarrow> (Inr (), put v s))"
    and reset_step: "pj_reset P s = (Inr (), put empty s)"
    and view_put: "view (put v s) = v" and put_put: "put v (put w s) = put v s" and put_view: "put (view s) s = s"
    and astep_put: "astep (put v s) = astep s"
    and log_put: "log_kept s (put v s)" and degraded_put: "projection_degraded (put v s) = projection_degraded s"
    and skips_put: "projection_skips (put v s) = projection_skips s"
    and put_ledger: "put v (ledger c d k s) = ledger c d k (put v s)"
    and view_ledger: "view (ledger c d k s) = view s" and astep_ledger: "astep (ledger c d k s) = astep s"
begin

lemma apply_rows_fold:
  assumes "\<And>r. r \<in> set rows \<Longrightarrow> \<exists>e. row_to_event r = Inr e" "fold_until (astep s) (map decoded rows) (view s) = (v, k)"
  shows "\<exists>d. apply_rows E P rows l n s =
      (Inr (reached l rows k, n + int k), ledger (projection_checkpoints s) d (projection_skips s) (put v s))
    \<and> (k = length rows \<longrightarrow> d = projection_degraded s)
    \<and> (k < length rows \<longrightarrow> (\<exists>m \<in> set d. dg_projection_name m = pj_name P \<and> dg_poison_seq m = er_global_seq (rows ! k)))"
  using assms
proof (induction rows arbitrary: s l n k)
  case Nil
  then show ?case
    by (auto simp: reached_def put_view ledger_def)
next
  case (Cons row rows)
  obtain e where e: "row_to_event row = Inr e" "ev_global_seq e = er_global_seq row" "decoded row = e"
    using Cons.prems(1) row_to_event_seq by (fastforce simp: decoded_def)
  show ?case
  proof (cases "astep s e (view s)")
    case (Inl x)
    then have vk: "v = view s" "k = 0"
      using Cons.prems(2) e(3) by simp_all
    obtain d where d: "degrade E (pj_name P) x e s = (Inr (), ledger (projection_checkpoints s) d (projection_skips s) s)"
      "\<exists>m \<in> set d. dg_projection_name m = pj_name P \<and> dg_poison_seq m = ev_global_seq e"
      by (rule degrade_ledger)
    have "apply_rows E P (row # rows) l n s = (Inr (l, n), ledger (projection_checkpoints s) d (projection_skips s) s)"
      using d(1) by (simp add: e(1) andthen_def attempt_def savepoint_def apply_step Inl fail_closed)
    then show ?thesis
      using d(2) e(2) by (auto simp: vk reached_def put_view)
  next
    case (Inr w)
    obtain u m where um: "fold_until (astep (put w s)) (map decoded rows) (view (put w s)) = (u, m)"
      by fastforce
    then have vk: "v = u" "k = Suc m"
      using Cons.prems(2) by (simp_all add: e(3) Inr astep_put view_put)
    have run: "apply_rows E P (row # rows) l n s = apply_rows E P rows (er_global_seq row) (n + 1) (put w s)"
      by (simp add: e(1,2) andthen_def attempt_def savepoint_def apply_step Inr)
    have "reached (er_global_seq row) rows m = reached l (row # rows) (Suc m)"
      by (cases m) (simp_all add: reached_def)
    then show ?thesis
      using Cons.IH [OF _ um [folded vk(1)], of "er_global_seq row" "n + 1"] Cons.prems(1) log_put [of s w]
      unfolding run vk(2) by (auto simp: put_put degraded_put skips_put log_kept_def)
  qed
qed

text \<open>The state after a run, up to the runner's own three tables.\<close>

definition ran_to :: "'v \<Rightarrow> int \<Rightarrow> db \<Rightarrow> db \<Rightarrow> bool" where
  "ran_to v seq s s' \<longleftrightarrow> (\<exists>c d. s' = ledger c d (projection_skips s) (put v s)) \<and> checkpoint_seq (pj_name P) s' = seq"

lemma events_put: "events (put v s) = events s"
  using log_put by (simp add: log_kept_def)

lemma events_ledger [simp]: "events (ledger c d k s) = events s"
  by (simp add: ledger_def)

lemma set_checkpoint_ledger:
  "snd (set_checkpoint n q h (ledger c d k s)) =
     ledger (map (\<lambda>r. if ck_projection_name r = n then r\<lparr>ck_checkpoint_seq := q, ck_head_seq := h\<rparr> else r) c) d k s"
  by (simp add: set_checkpoint_def ledger_def)

lemma ran_to_frame:
  assumes "ran_to v q s s'"
  shows "view s' = v" "astep s' = astep s" "events s' = events s" "checkpoint_seq (pj_name P) s' = q" "projection_skips s' = projection_skips s"
  using assms by (auto simp: ran_to_def view_ledger view_put astep_ledger astep_put events_put) (simp add: ledger_def)

lemma ran_to_trans: "ran_to v q s t \<Longrightarrow> ran_to w r t u \<Longrightarrow> ran_to w r s u"
  by (auto simp: ran_to_def put_ledger put_put) (auto simp: ledger_def)

lemma run_projection_fold:
  assumes "\<And>r. r \<in> set (events s) \<Longrightarrow> \<exists>e. row_to_event r = Inr e" "rows = take b (pending_events (checkpoint_seq (pj_name P) s) s)"
    and "fold_until (astep s) (map decoded rows) (view s) = (v, k)"
  obtains s' where "run_projection E P b s = (Inr (int k), s')" "ran_to v (reached (checkpoint_seq (pj_name P) s) rows k) s s'"
    "k = length rows \<longrightarrow> projection_degraded s' = projection_degraded s"
    "k < length rows \<longrightarrow> (\<exists>m \<in> set (projection_degraded s'). dg_projection_name m = pj_name P \<and> dg_poison_seq m = er_global_seq (rows ! k))"
proof -
  let ?n = "pj_name P" and ?l = "checkpoint_seq (pj_name P) s"
  obtain c where c: "ensure_checkpoint ?n (pj_is_analytics P) s = (Inr (), ledger c (projection_degraded s) (projection_skips s) s)"
    by (cases "?n \<in> ck_projection_name ` set (projection_checkpoints s)")
       (auto simp: ensure_checkpoint_def ledger_def intro: that [of "projection_checkpoints s"])
  define s1 where "s1 = ledger c (projection_degraded s) (projection_skips s) s"
  have s1: "checkpoint_seq ?n s1 = ?l" "find_checkpoint ?n s1 \<noteq> None" "events s1 = events s"
    using ensure_checkpoint_effect [of ?n "pj_is_analytics P" s] by (simp_all add: c s1_def)
  have dec: "\<exists>e. row_to_event r = Inr e" if "r \<in> set rows" for r
    using assms(1) that by (auto simp: assms(2) pending_events_def dest: in_set_takeD)
  have f: "fold_until (astep s1) (map decoded rows) (view s1) = (v, k)"
    using assms(3) by (simp add: s1_def astep_ledger view_ledger)
  obtain d where a: "apply_rows E P rows ?l 0 s1 = (Inr (reached ?l rows k, int k), ledger c d (projection_skips s) (put v s1))"
    "k = length rows \<longrightarrow> d = projection_degraded s"
    "k < length rows \<longrightarrow> (\<exists>m \<in> set d. dg_projection_name m = ?n \<and> dg_poison_seq m = er_global_seq (rows ! k))"
    using apply_rows_fold [OF dec f, of E ?l 0] by (auto simp: s1_def ledger_def)
  define s2 where "s2 = ledger c d (projection_skips s) (put v s1)"
  define s' where "s' = snd (set_checkpoint ?n (reached ?l rows k) (head_seq s2) s2)"
  have "find_checkpoint ?n s2 \<noteq> None"
    using s1(2) by (simp add: s2_def s1_def find_checkpoint_def ledger_def)
  then have ck: "checkpoint_seq ?n s' = reached ?l rows k"
    by (simp add: s'_def checkpoint_seq_set)
  have p: "pending_events l s1 = pending_events l s" for l
    by (simp add: pending_events_def s1(3))
  have run: "run_projection E P b s = (Inr (int k), s')"
    using a(1) by (simp add: run_projection_def andthen_def c s1_def [symmetric] s1(1) p assms(2) [symmetric] s'_def s2_def set_checkpoint_def)
  have "s2 = ledger c d (projection_skips s) (put v s)"
    by (simp add: s2_def s1_def put_ledger) (simp add: ledger_def)
  then have "\<exists>c. s' = ledger c d (projection_skips s) (put v s)"
    by (simp only: s'_def set_checkpoint_ledger) blast
  then have "ran_to v (reached ?l rows k) s s'" "projection_degraded s' = d"
    using ck by (auto simp: ran_to_def) (simp add: ledger_def)
  then show thesis
    using run a(2,3) by (intro that) auto
qed

text \<open>Where the checkpoint stands after a prefix, the rest of the prefix is what is pending.\<close>

lemma pending_after:
  assumes "distinct (map er_global_seq (events s))" "0 < k" "k \<le> length (pending_events l s)"
  shows "pending_events (er_global_seq (pending_events l s ! (k - 1))) s = drop k (pending_events l s)"
proof -
  let ?ps = "pending_events l s"
  have "distinct (map er_global_seq ?ps)"
    unfolding pending_events_def using assms(1) by (simp add: distinct_map inj_on_def)
  then have strict: "sorted_wrt (<) (map er_global_seq ?ps)"
    by (simp add: pending_events_def strict_sorted_iff)
  define q where "q = er_global_seq (?ps ! (k - 1))"
  have "filter (\<lambda>r. q < er_global_seq r) ?ps = drop k ?ps"
  proof -
    have "er_global_seq r \<le> q" if mem: "r \<in> set (take k ?ps)" for r
    proof -
      obtain i where "i < length (take k ?ps)" "r = take k ?ps ! i"
        using mem unfolding in_set_conv_nth by blast
      then have "i < k" "r = ?ps ! i"
        by simp_all
      then show ?thesis
        using sorted_wrt_iff_nth_less [of "(<)" "map er_global_seq ?ps"] strict assms(2,3)
        by (cases "i = k - 1") (auto simp: q_def intro: order_less_imp_le)
    qed
    then have "filter (\<lambda>r. q < er_global_seq r) (take k ?ps) = []"
      unfolding filter_empty_conv by (metis linorder_not_less)
    moreover have "q < er_global_seq r" if mem: "r \<in> set (drop k ?ps)" for r
    proof -
      obtain i where "i < length ?ps - k" "r = ?ps ! (k + i)"
        using mem by (auto simp: in_set_conv_nth)
      then show ?thesis
        using sorted_wrt_iff_nth_less [of "(<)" "map er_global_seq ?ps"] strict assms(2,3) by (auto simp: q_def)
    qed
    then have "filter (\<lambda>r. q < er_global_seq r) (drop k ?ps) = drop k ?ps"
      by simp
    ultimately show ?thesis
      by (metis append_Nil append_take_drop_id filter_append)
  qed
  moreover have "l < q"
    using assms(2,3) nth_mem [of "k - 1" ?ps] by (auto simp: q_def pending_events_def simp del: nth_mem)
  then have "filter (\<lambda>r. q < er_global_seq r) (events s) = filter (\<lambda>r. q < er_global_seq r) (filter (\<lambda>r. l < er_global_seq r) (events s))"
    by (auto intro: filter_cong)
  then have "pending_events q s = filter (\<lambda>r. q < er_global_seq r) ?ps"
    by (simp add: pending_events_def filter_sort [symmetric])
  ultimately show ?thesis
    by (simp add: q_def)
qed

lemma drain_fold:
  assumes "\<And>r. r \<in> set (events s) \<Longrightarrow> \<exists>e. row_to_event r = Inr e" "distinct (map er_global_seq (events s))"
    and "length (pending_events (checkpoint_seq (pj_name P) s) s) < fuel"
    and "fold_until (astep s) (map decoded (pending_events (checkpoint_seq (pj_name P) s) s)) (view s) = (v, k)"
  shows "\<exists>s'. drain fuel E P s = (Inr (), s')
    \<and> ran_to v (reached (checkpoint_seq (pj_name P) s) (pending_events (checkpoint_seq (pj_name P) s) s) k) s s'
    \<and> (k = length (pending_events (checkpoint_seq (pj_name P) s) s) \<longrightarrow> projection_degraded s' = projection_degraded s)
    \<and> (k < length (pending_events (checkpoint_seq (pj_name P) s) s) \<longrightarrow>
         (\<exists>m \<in> set (projection_degraded s'). dg_projection_name m = pj_name P
            \<and> dg_poison_seq m = er_global_seq (pending_events (checkpoint_seq (pj_name P) s) s ! k)))"
  using assms
proof (induction fuel arbitrary: s k)
  case (Suc fuel)
  let ?l = "checkpoint_seq (pj_name P) s"
  define ps where "ps = pending_events ?l s"
  define bs where "bs = take DEFAULT_BATCH ps"
  obtain v1 k1 where f1: "fold_until (astep s) (map decoded bs) (view s) = (v1, k1)"
    by fastforce
  have le: "k1 \<le> length bs" "k1 \<le> length ps"
    using fold_until_le [OF f1] by (auto simp: bs_def)
  obtain s1 where run: "run_projection E P DEFAULT_BATCH s = (Inr (int k1), s1)" and ran: "ran_to v1 (reached ?l bs k1) s s1"
    and d1: "k1 = length bs \<longrightarrow> projection_degraded s1 = projection_degraded s"
      "k1 < length bs \<longrightarrow> (\<exists>m \<in> set (projection_degraded s1). dg_projection_name m = pj_name P \<and> dg_poison_seq m = er_global_seq (bs ! k1))"
    by (rule run_projection_fold [OF Suc.prems(1) _ f1, where b = DEFAULT_BATCH and E = E]) (auto simp: bs_def ps_def)
  have batch: "fold_until (astep s) (take DEFAULT_BATCH (map decoded ps)) (view s) = (v1, k1)"
    using f1 by (simp add: bs_def take_map)
  show ?case
  proof (cases "k1 = 0")
    case True
    then have "v = view s" "k = 0"
      using fold_until_stuck [OF batch [unfolded True]] Suc.prems(4) by (simp_all add: ps_def DEFAULT_BATCH_def)
    moreover have "v1 = view s"
      using f1 True by (cases bs) (auto split: sum.splits prod.splits)
    moreover have "bs ! 0 = ps ! 0" if "ps \<noteq> []"
      using that by (simp add: bs_def DEFAULT_BATCH_def)
    moreover have "length bs = 0 \<longleftrightarrow> length ps = 0"
      by (cases ps) (simp_all add: bs_def DEFAULT_BATCH_def)
    ultimately show ?thesis
      using True run ran d1 by (auto simp: andthen_def reached_def ps_def [symmetric])
  next
    case False
    note fr = ran_to_frame [OF ran]
    have "reached ?l bs k1 = er_global_seq (ps ! (k1 - 1))"
      using False le by (simp add: reached_def bs_def)
    then have ps1: "pending_events (checkpoint_seq (pj_name P) s1) s1 = drop k1 ps"
      using pending_after [OF Suc.prems(2), of k1 ?l] False le(2) fr(3,4) by (simp add: ps_def pending_events_def)
    obtain w m where wm: "fold_until (astep s1) (map decoded (drop k1 ps)) (view s1) = (w, m)"
      by fastforce
    have "fold_until (astep s) (map decoded ps) (view s) = (w, k1 + m)"
      using fold_until_batch [OF batch] wm by (simp add: fr(1,2) drop_map)
    then have vk: "w = v" "k = k1 + m"
      using Suc.prems(4) by (simp_all add: ps_def)
    have fuel: "length (drop k1 ps) < fuel"
      using Suc.prems(3) False le(2) by (simp add: ps_def)
    obtain s' where s': "drain fuel E P s1 = (Inr (), s')" "ran_to v (reached (checkpoint_seq (pj_name P) s1) (drop k1 ps) m) s1 s'"
      "m = length (drop k1 ps) \<longrightarrow> projection_degraded s' = projection_degraded s1"
      "m < length (drop k1 ps) \<longrightarrow> (\<exists>x \<in> set (projection_degraded s'). dg_projection_name x = pj_name P \<and> dg_poison_seq x = er_global_seq (drop k1 ps ! m))"
      using Suc.IH [of s1 m, unfolded ps1 fr(3), OF Suc.prems(1,2) fuel wm [unfolded vk(1)]] by blast
    have r: "reached (checkpoint_seq (pj_name P) s1) (drop k1 ps) m = reached ?l ps k"
      using fr(4) le False fold_until_le [OF wm] by (cases m) (auto simp: reached_def vk(2) bs_def)
    have "ran_to v (reached ?l ps k) s s'"
      using ran_to_trans [OF ran s'(2)] r by simp
    moreover have "projection_degraded s' = projection_degraded s" if "k = length ps"
    proof -
      have "k1 = length bs"
      proof (rule ccontr)
        assume "k1 \<noteq> length bs"
        then have less: "k1 < length bs" "k1 < length ps"
          using le(1) by (auto simp: bs_def)
        then obtain x where "astep s (decoded (bs ! k1)) v1 = Inl x"
          using fold_until_poison [OF f1] by auto
        moreover have "drop k1 ps = bs ! k1 # drop (Suc k1) ps"
          using less by (simp add: Cons_nth_drop_Suc bs_def)
        ultimately have "m = 0"
          using wm by (simp add: fr(1,2))
        then show False
          using that vk(2) less by simp
      qed
      moreover have "m = length (drop k1 ps)"
        using that vk(2) by simp
      ultimately show ?thesis
        using d1(1) s'(3) by simp
    qed
    ultimately show ?thesis
      using run s' False le(2) vk(2) by (auto simp: andthen_def ps_def [symmetric])
  qed
qed simp

lemma replay_fold:
  assumes "\<And>r. r \<in> set (events s) \<Longrightarrow> \<exists>e. row_to_event r = Inr e" "distinct (map er_global_seq (events s))"
    and "ps = pending_events (checkpoint_seq (pj_name P) s) s" "fold_until (astep s) (map decoded ps) (view s) = (v, k)"
  obtains s' where "replay_all E P s = (Inr (), s')" "ran_to v (reached (checkpoint_seq (pj_name P) s) ps k) s s'"
    "k = length ps \<longrightarrow> projection_degraded s' = projection_degraded s"
    "k < length ps \<longrightarrow> (\<exists>m \<in> set (projection_degraded s'). dg_projection_name m = pj_name P \<and> dg_poison_seq m = er_global_seq (ps ! k))"
proof -
  have "length (pending_events l s) < Suc (length (events s))" for l
    by (simp add: pending_events_def less_Suc_eq_le)
  from drain_fold [OF assms(1,2) this assms(4) [unfolded assms(3)], of E] that show thesis
    unfolding assms(3) replay_all_def by (simp only: andthen_query) blast
qed

lemma rebuild_fold:
  assumes "\<And>r. r \<in> set (events s) \<Longrightarrow> \<exists>e. row_to_event r = Inr e" "sorted_wrt (<) (map er_global_seq (events s))"
    and "\<forall>r \<in> set (events s). 0 < er_global_seq r" "fold_until (astep s) (map decoded (events s)) empty = (v, k)"
  obtains s' where "rebuild_projection E P s = (Inr (), s')" "view s' = v" "events s' = events s"
    "k = length (events s) \<Longrightarrow> projection_lag (pj_name P) s' = 0 \<and> (\<forall>m \<in> set (projection_degraded s'). dg_projection_name m \<noteq> pj_name P)"
    "k < length (events s) \<Longrightarrow> 0 < projection_lag (pj_name P) s' \<and> (\<exists>m \<in> set (projection_degraded s'). dg_projection_name m = pj_name P
       \<and> dg_poison_seq m = er_global_seq (events s ! k) \<and> checkpoint_seq (pj_name P) s' < dg_poison_seq m)"
proof -
  let ?n = "pj_name P"
  obtain c where c: "ensure_checkpoint ?n (pj_is_analytics P) t = (Inr (), ledger (c t) (projection_degraded t) (projection_skips t) t)" for t
  proof
    show "ensure_checkpoint ?n (pj_is_analytics P) t = (Inr (), ledger (if ?n \<in> ck_projection_name ` set (projection_checkpoints t)
      then projection_checkpoints t else projection_checkpoints t @ [\<lparr>ck_projection_name = ?n, ck_checkpoint_seq = 0, ck_head_seq = 0, ck_is_analytics = pj_is_analytics P\<rparr>])
      (projection_degraded t) (projection_skips t) t)" for t
      by (simp add: ensure_checkpoint_def ledger_def)
  qed
  let ?t = "put empty s"
  define s1 where "s1 = ledger (projection_checkpoints ?t) (projection_degraded ?t) (filter (\<lambda>(n, _). n \<noteq> ?n) (projection_skips ?t)) ?t"
  define s2 where "s2 = ledger (c s1) (projection_degraded s1) (projection_skips s1) s1"
  define s3 where "s3 = snd (set_checkpoint ?n 0 0 s2)"
  have skips: "?t\<lparr>projection_skips := filter (\<lambda>(n, _). n \<noteq> ?n) (projection_skips ?t)\<rparr> = s1"
    by (simp add: s1_def ledger_def)
  have "find_checkpoint ?n s2 \<noteq> None"
    using ensure_checkpoint_effect(1) [of ?n "pj_is_analytics P" s1] c [of s1] by (simp add: s2_def)
  then have ck: "checkpoint_seq ?n s3 = 0"
    by (simp add: s3_def checkpoint_seq_set)
  have s3: "events s3 = events s" "view s3 = empty" "astep s3 = astep s"
    by (simp_all add: s3_def s2_def s1_def set_checkpoint_ledger view_ledger view_put astep_ledger astep_put events_put)
  have ps: "events s = pending_events (checkpoint_seq ?n s3) s3"
    using assms(2,3) by (simp add: ck pending_events_def s3(1) filter_id_conv sort_key_id_if_sorted strict_sorted_iff)
  have dist: "distinct (map er_global_seq (events s))"
    using assms(2) by (simp add: strict_sorted_iff)
  obtain s4 where s4: "replay_all E P s3 = (Inr (), s4)" "ran_to v (reached 0 (events s) k) s3 s4"
    "k < length (events s) \<longrightarrow> (\<exists>m \<in> set (projection_degraded s4). dg_projection_name m = ?n \<and> dg_poison_seq m = er_global_seq (events s ! k))"
    by (rule replay_fold [of s3 "events s" v k E]) (use assms(1,4) dist ps in \<open>auto simp: s3 ck\<close>)
  note fr = ran_to_frame [OF s4(2)]
  have head: "head_seq s4 = (if events s = [] then 0 else er_global_seq (last (events s)))"
    using head_last assms(2) fr(3) s3(1) by simp
  have le: "k \<le> length (events s)"
    using fold_until_le [OF assms(4)] by simp
  have last: "events s \<noteq> [] \<Longrightarrow> er_global_seq (last (events s)) = er_global_seq (events s ! (length (events s) - 1))"
    by (simp add: last_conv_nth)
  have below: "reached 0 (events s) k < er_global_seq (events s ! j)" if "k \<le> j" "j < length (events s)" for j
    using assms(2,3) that sorted_wrt_nth_less [of "(<)" "map er_global_seq (events s)" "k - 1" j] by (cases k) (auto simp: reached_def)
  have lag: "projection_lag ?n s4 = (if events s = [] then 0 else er_global_seq (last (events s))) - reached 0 (events s) k"
    using fr(4) head by (simp add: projection_lag_def)
  have run: "rebuild_projection E P s = (if projection_lag ?n s4 = 0
      then update (\<lambda>s. s\<lparr>projection_degraded := filter (\<lambda>m. dg_projection_name m \<noteq> ?n) (projection_degraded s)\<rparr>) else ret ()) s4"
    using s4(1) c [of s1]
    by (simp add: rebuild_projection_def andthen_def reset_step skips s2_def [symmetric] s3_def set_checkpoint_def)
  show thesis
  proof (cases "k = length (events s)")
    case True
    then have "projection_lag ?n s4 = 0"
      using lag last by (cases "events s = []") (auto simp: reached_def)
    let ?s = "s4\<lparr>projection_degraded := filter (\<lambda>m. dg_projection_name m \<noteq> ?n) (projection_degraded s4)\<rparr>"
    have s: "?s = ledger (projection_checkpoints s4) (filter (\<lambda>m. dg_projection_name m \<noteq> ?n) (projection_degraded s4)) (projection_skips s4) s4"
      by (simp add: ledger_def)
    show thesis
    proof (rule that [of ?s])
      show "view ?s = v" "events ?s = events s"
        using fr(1,3) s3(1) by (simp_all only: s view_ledger events_ledger)
      show "projection_lag ?n ?s = 0 \<and> (\<forall>m \<in> set (projection_degraded ?s). dg_projection_name m \<noteq> ?n)"
        using \<open>projection_lag ?n s4 = 0\<close> by (simp add: projection_lag_def head_seq_def checkpoint_seq_def find_checkpoint_def)
    qed (use run \<open>projection_lag ?n s4 = 0\<close> True in simp_all)
  next
    case False
    then have less: "k < length (events s)" using le by simp
    then have "0 < projection_lag ?n s4"
      using lag last below [of "length (events s) - 1"] by (cases "events s = []") auto
    then show thesis
      using run fr(1,3,4) s3(1) s4(3) less below [of k] False by (intro that [of s4]) auto
  qed
qed

end

interpretation stage_primaries: read_model StagePrimaryProjection stage_primary "\<lambda>v s. s\<lparr>stage_primary := v\<rparr>" "\<lambda>s. primary_step (documents s)" "[]"
  by unfold_locales
     (auto simp: StagePrimaryProjection_def primary_apply_def primary_reset_def ledger_def log_kept_def andthen_def split: sum.split)

text \<open>\<open>PRIMARY_SELECTED\<close> rows also keep the log, so the general facts about the loops apply to them.\<close>

lemma stage_primary_kept: "keeps log_kept (pj_apply StagePrimaryProjection e)" "ends (pj_apply StagePrimaryProjection e)"
  unfolding StagePrimaryProjection_def primary_apply_def
  by (auto simp: keeps_def ends_def andthen_def log_kept_def primary_step_def chain_def dict_str_def
      split: sum.splits option.splits json.splits if_splits)

lemma find_alias_map:
  "find (\<lambda>r. al_alias r = a) (map (\<lambda>r. if al_alias r = al then r\<lparr>al_projection_name := n, al_switched_seq := f r\<rparr> else r) rows)
     = map_option (\<lambda>r. if al_alias r = al then r\<lparr>al_projection_name := n, al_switched_seq := f r\<rparr> else r) (find (\<lambda>r. al_alias r = a) rows)"
  for rows :: "alias_row list"
  by (induction rows) auto

lemma find_alias_append:
  "find (\<lambda>r. al_alias r = a) (rows @ [x]) =
     (case find (\<lambda>r. al_alias r = a) rows of None \<Rightarrow> if al_alias x = a then Some x else None | y \<Rightarrow> y)"
  for rows :: "alias_row list"
  by (induction rows) auto

lemma resolve_upsert: "resolve_projection a (snd (upsert_alias al n q s)) = (if a = al then n else resolve_projection a s)"
proof (cases "find (\<lambda>r. al_alias r = a) (projection_active_alias s)")
  case None
  then have "a \<notin> al_alias ` set (projection_active_alias s)"
    by (auto simp: find_None_iff)
  then show ?thesis
    using None by (auto simp: resolve_projection_def upsert_alias_def find_alias_map find_alias_append)
next
  case (Some x)
  then have "al_alias x = a" "a \<in> al_alias ` set (projection_active_alias s)"
    by (auto simp: find_Some_iff)
  then show ?thesis
    using Some by (auto simp: resolve_projection_def upsert_alias_def find_alias_map find_alias_append)
qed

subsection \<open>Markers are cleared only by progress\<close>

text \<open>What a projection's code must leave alone: the runner's own ledgers.\<close>

definition books_kept :: "db \<Rightarrow> db \<Rightarrow> bool" where
  "books_kept s s' \<longleftrightarrow> projection_checkpoints s' = projection_checkpoints s \<and> projection_degraded s' = projection_degraded s"

definition marker_key :: "degraded_row \<Rightarrow> string \<times> string \<times> string" where
  "marker_key m = (dg_projection_name m, dg_aggregate m, dg_aggregate_id m)"

text \<open>A run of the projection \<open>name\<close> changes only its own rows of the two ledgers.\<close>

definition own_rows :: "string \<Rightarrow> db \<Rightarrow> db \<Rightarrow> bool" where
  "own_rows name s s' \<longleftrightarrow>
     (\<forall>n. n \<noteq> name \<longrightarrow> find_checkpoint n s' = find_checkpoint n s
        \<and> filter (\<lambda>m. dg_projection_name m = n) (projection_degraded s') = filter (\<lambda>m. dg_projection_name m = n) (projection_degraded s))
     \<and> (distinct (map marker_key (projection_degraded s)) \<longrightarrow> distinct (map marker_key (projection_degraded s')))"

interpretation owns: state_rel "own_rows name" for name
  by unfold_locales (auto simp: own_rows_def)

lemma own_rows_frame: "books_kept s s' \<Longrightarrow> own_rows name s s'"
  by (simp add: own_rows_def books_kept_def find_checkpoint_def)

lemma own_set_checkpoint: "keeps (own_rows name) (set_checkpoint name q h)"
proof -
  have "find (\<lambda>r. ck_projection_name r = n) (map (\<lambda>r. if ck_projection_name r = name then r\<lparr>ck_checkpoint_seq := q, ck_head_seq := h\<rparr> else r) rows)
    = find (\<lambda>r. ck_projection_name r = n) rows" if "n \<noteq> name" for n and rows :: "checkpoint_row list"
    using that by (induction rows) auto
  then show ?thesis
    by (auto simp: keeps_def own_rows_def set_checkpoint_def find_checkpoint_def)
qed

lemma own_ensure_checkpoint: "keeps (own_rows name) (ensure_checkpoint name a)"
proof -
  have "find (\<lambda>r. ck_projection_name r = n) (rows @ [x]) = find (\<lambda>r. ck_projection_name r = n) rows" if "n \<noteq> ck_projection_name x" for n x and rows :: "checkpoint_row list"
    using that by (induction rows) auto
  then show ?thesis
    by (auto simp: keeps_def own_rows_def ensure_checkpoint_def find_checkpoint_def)
qed

lemma own_mark_degraded: "keeps (own_rows name) (mark_degraded name agg aid reason event)"
proof (rule keepsI)
  fix s
  let ?row = "\<lparr>dg_projection_name = name, dg_aggregate = agg, dg_aggregate_id = aid, dg_reason = reason,
     dg_poison_event_id = ev_event_id event, dg_poison_seq = ev_global_seq event\<rparr>"
  define g where "g m = (if same_marker ?row m then ?row else m)" for m
  have g: "marker_key (g m) = marker_key m" "n \<noteq> name \<Longrightarrow> dg_projection_name (g m) = n \<longleftrightarrow> dg_projection_name m = n"
    "n \<noteq> name \<Longrightarrow> dg_projection_name m = n \<Longrightarrow> g m = m" for m n
    by (auto simp: g_def same_marker_def marker_key_def)
  have "filter (\<lambda>m. dg_projection_name m = n) (map g ms) = filter (\<lambda>m. dg_projection_name m = n) ms" if "n \<noteq> name" for n ms
    using that by (induction ms) (simp_all add: g)
  moreover have "map marker_key (map g ms) = map marker_key ms" for ms
    by (simp add: g)
  moreover have "marker_key ?row \<notin> marker_key ` set ms" if "\<not> list_ex (same_marker ?row) ms" for ms
    using that by (auto simp: list_ex_iff same_marker_def marker_key_def)
  ultimately show "own_rows name s (snd (mark_degraded name agg aid reason event s))"
    by (auto simp: own_rows_def mark_degraded_def Let_def g_def [abs_def, symmetric] find_checkpoint_def simp del: map_map)
qed

lemma own_degrade: "keeps (own_rows name) (degrade E name x e)"
  by (cases x) (simp_all add: degrade_def own_mark_degraded)

lemma own_apply_rows:
  assumes "\<And>e. keeps books_kept (pj_apply P e)"
  shows "keeps (own_rows (pj_name P)) (apply_rows E P rows l n)"
proof (induction rows arbitrary: l n)
  case (Cons row rows)
  have ap: "keeps (own_rows (pj_name P)) (pj_apply P e)" for e
    using assms by (auto simp: keeps_def intro: own_rows_frame)
  have sk: "keeps (own_rows (pj_name P)) (insert_skip n q r)" for n q r
    by (auto simp: keeps_def insert_skip_def books_kept_def intro!: own_rows_frame)
  have exn: "keeps (own_rows (pj_name P)) (case x of ProjectionApplyError a b c \<Rightarrow> f a b c | _ \<Rightarrow> throw x)"
    if "\<And>a b c. keeps (own_rows (pj_name P)) (f a b c)" for x and f :: "string \<Rightarrow> string \<Rightarrow> string \<Rightarrow> (int \<times> int) dbprog"
    using that by (cases x) (simp_all add: owns.keeps_throw)
  have rb: "own_rows n s (rollback s s')" for n s s'
    by (rule own_rows_frame) (simp add: books_kept_def rollback_def)
  show ?case
    unfolding apply_rows.simps
    by (intro owns.keeps_rules owns.keeps_savepoint rb ap sk exn own_degrade Cons.IH)
qed (simp add: owns.keeps_rules)

lemma own_run_projection:
  assumes "\<And>e. keeps books_kept (pj_apply P e)"
  shows "keeps (own_rows (pj_name P)) (run_projection E P b)"
  unfolding run_projection_def
  by (intro owns.keeps_rules own_ensure_checkpoint own_apply_rows own_set_checkpoint assms)

lemma own_replay_all:
  assumes "\<And>e. keeps books_kept (pj_apply P e)"
  shows "keeps (own_rows (pj_name P)) (replay_all E P)"
proof -
  have "keeps (own_rows (pj_name P)) (drain fuel E P)" for fuel
    by (induction fuel) (simp_all only: drain.simps owns.keeps_throw, intro owns.keeps_rules own_run_projection assms)
  then show ?thesis
    unfolding replay_all_def by (intro owns.keeps_rules)
qed

definition repairs_well :: "repair_registry \<Rightarrow> bool" where
  "repairs_well reg \<longleftrightarrow> (\<forall>name P. projection_for_repair name reg = Some P \<longrightarrow> pj_name P = name \<and> (\<forall>e. keeps books_kept (pj_apply P e)))"

definition untouched :: "string \<Rightarrow> db \<Rightarrow> db \<Rightarrow> bool" where
  "untouched n s s' \<longleftrightarrow> find_checkpoint n s' = find_checkpoint n s
     \<and> filter (\<lambda>m. dg_projection_name m = n) (projection_degraded s') = filter (\<lambda>m. dg_projection_name m = n) (projection_degraded s)"

lemma untouched_markers:
  "untouched n s s' \<Longrightarrow> dg_projection_name m = n \<Longrightarrow> m \<in> set (projection_degraded s') \<longleftrightarrow> m \<in> set (projection_degraded s)"
  unfolding untouched_def by (drule conjunct2, drule arg_cong [of _ _ set]) auto

lemma advance_projection_Inr:
  assumes "advance_projection_past E P agg aid s = (Inr (healthy, poison), s')" "\<And>e. keeps books_kept (pj_apply P e)"
    and "distinct (map marker_key (projection_degraded s))"
  shows "distinct (map marker_key (projection_degraded s')) \<and> (\<forall>n. n \<noteq> pj_name P \<longrightarrow> untouched n s s')
    \<and> (healthy \<longrightarrow> (\<forall>m \<in> set (projection_degraded s'). marker_key m = (pj_name P, agg, aid) \<longrightarrow>
          poison = Some (dg_poison_seq m) \<and> dg_poison_seq m \<le> checkpoint_seq (pj_name P) s'))"
proof -
  obtain s1 where rep: "replay_all E P s = (Inr (), s1)"
    and q: "(case marker_of (pj_name P) agg aid s1 of None \<Rightarrow> ret (True, None)
      | Some m \<Rightarrow> andthen (query (checkpoint_seq (pj_name P))) (\<lambda>seq.
         ret (if seq \<ge> dg_poison_seq m then (True, Some (dg_poison_seq m)) else (False, None)))) s1 = (Inr (healthy, poison), s')"
    using assms(1) by (auto simp: advance_projection_past_def andthen_eq_Inr)
  have r: "replay_all E P s = (Inr (), s1)" "s' = s1"
    using rep q by (cases "marker_of (pj_name P) agg aid s1"; simp)+
  have h: "(healthy, poison) = (case marker_of (pj_name P) agg aid s' of None \<Rightarrow> (True, None)
      | Some m \<Rightarrow> if checkpoint_seq (pj_name P) s' \<ge> dg_poison_seq m then (True, Some (dg_poison_seq m)) else (False, None))"
    using q by (cases "marker_of (pj_name P) agg aid s1") (simp_all add: r(2))
  have own: "own_rows (pj_name P) s s'"
    using keepsD [OF own_replay_all [OF assms(2)] r(1)] r(2) by simp
  have d: "distinct (map marker_key (projection_degraded s'))"
    using own assms(3) by (simp add: own_rows_def)
  have "marker_of (pj_name P) agg aid s' = Some m" if "m \<in> set (projection_degraded s')" "marker_key m = (pj_name P, agg, aid)" for m
  proof -
    have "find (\<lambda>m. marker_key m = k) ms = Some m" if "distinct (map marker_key ms)" "m \<in> set ms" "marker_key m = k" for ms k
      using that by (induction ms) force+
    from this [OF d that] show ?thesis
      by (simp add: marker_of_def marker_key_def)
  qed
  then show ?thesis
    using h own d r(2) by (auto simp: own_rows_def untouched_def split: if_splits)
qed

lemma verdict_eq:
  "(case r of Inl no \<Rightarrow> Inl no | Inr x \<Rightarrow> Inr (g x)) = Inr y \<longleftrightarrow> (\<exists>x. r = Inr x \<and> g x = y)"
  "(case r of Inl no \<Rightarrow> Inl no | Inr x \<Rightarrow> Inr (g x)) = Inl z \<longleftrightarrow> r = Inl z"
  by (cases r; simp)+

lemma prove_markers_Inr:
  assumes "prove_markers E reg agg aid names s = (Inr (Inr proven), s')" "repairs_well reg" "distinct names"
    and "distinct (map marker_key (projection_degraded s))"
  shows "distinct (map marker_key (projection_degraded s')) \<and> (\<forall>n. n \<notin> set names \<longrightarrow> untouched n s s')
    \<and> (\<forall>m \<in> set (projection_degraded s'). \<forall>n \<in> set names. marker_key m = (n, agg, aid) \<longrightarrow>
          (n, dg_poison_seq m) \<in> set proven \<and> dg_poison_seq m \<le> checkpoint_seq n s')"
  using assms(1,3,4)
proof (induction names arbitrary: s proven)
  case (Cons name names)
  obtain P where P: "projection_for_repair name reg = Some P"
    using Cons.prems(1) by (cases "projection_for_repair name reg") auto
  then have w: "pj_name P = name" "\<And>e. keeps books_kept (pj_apply P e)"
    using assms(2) by (auto simp: repairs_well_def)
  obtain poison s1 rest where a: "advance_projection_past E P agg aid s = (Inr (True, poison), s1)"
    and r: "prove_markers E reg agg aid names s1 = (Inr (Inr rest), s')"
    and p: "proven = (case poison of None \<Rightarrow> rest | Some p \<Rightarrow> (name, p) # rest)"
    using Cons.prems(1) P by (auto simp: andthen_eq_Inr verdict_eq split: if_splits)
  note adv = advance_projection_Inr [OF a w(2) Cons.prems(3)]
  have ih: "distinct (map marker_key (projection_degraded s'))" "\<And>n. n \<notin> set names \<Longrightarrow> untouched n s1 s'"
    "\<And>m n. m \<in> set (projection_degraded s') \<Longrightarrow> n \<in> set names \<Longrightarrow> marker_key m = (n, agg, aid) \<Longrightarrow>
       (n, dg_poison_seq m) \<in> set rest \<and> dg_poison_seq m \<le> checkpoint_seq n s'"
    using Cons.IH [OF r] Cons.prems(2) adv by auto
  have name: "untouched name s1 s'"
    using ih(2) Cons.prems(2) by simp
  have "(n, dg_poison_seq m) \<in> set proven \<and> dg_poison_seq m \<le> checkpoint_seq n s'"
    if m: "m \<in> set (projection_degraded s')" "n \<in> set (name # names)" "marker_key m = (n, agg, aid)" for m n
  proof (cases "n = name")
    case True
    then have "m \<in> set (projection_degraded s1)"
      using m untouched_markers [OF name, of m] by (simp add: marker_key_def)
    then have "poison = Some (dg_poison_seq m)" "dg_poison_seq m \<le> checkpoint_seq name s1"
      using adv m(3) True w(1) by auto
    then show ?thesis
      using name True p by (simp add: untouched_def checkpoint_seq_def)
  next
    case False
    then show ?thesis
      using ih(3) m p by (auto split: option.splits)
  qed
  moreover have "untouched n s s'" if "n \<notin> set (name # names)" for n
    using that adv ih(2) w(1) by (auto simp: untouched_def)
  ultimately show ?case
    using ih(1) by blast
qed (auto simp: untouched_def)

lemma prove_markers_refuses: "prove_markers E reg agg aid names s = (Inr (Inl no), s') \<Longrightarrow> \<not> accepted no"
  by (induction names arbitrary: s) (auto simp: andthen_eq_Inr verdict_eq split: option.splits if_splits)

lemma delete_markers:
  "for_each ts (delete_marker agg aid) s = (Inr (map (\<lambda>_. ()) ts), s\<lparr>projection_degraded :=
     filter (\<lambda>m. \<not> (dg_aggregate m = agg \<and> dg_aggregate_id m = aid \<and> (dg_projection_name m, dg_poison_seq m) \<in> set ts)) (projection_degraded s)\<rparr>)"
proof (induction ts arbitrary: s)
  case (Cons t ts)
  have t: "delete_marker agg aid t s = (Inr (), s\<lparr>projection_degraded :=
     filter (\<lambda>m. \<not> (dg_aggregate m = agg \<and> dg_aggregate_id m = aid \<and> (dg_projection_name m, dg_poison_seq m) = t)) (projection_degraded s)\<rparr>)"
    by (cases t) (auto simp: delete_marker_def intro!: arg_cong [of _ _ "\<lambda>d. s\<lparr>projection_degraded := d\<rparr>"] filter_cong)
  show ?case
    by (simp add: andthen_def t Cons.IH) (auto intro!: arg_cong [of _ _ "\<lambda>d. s\<lparr>projection_degraded := d\<rparr>"] filter_cong)
qed simp

definition select_env :: env where
  "select_env = sample_env\<lparr>env_registry := \<lparr>rg_schemas = [((PRIMARY_SELECTED, 1), [])], rg_owners = [((PRIMARY_SELECTED, 1), ''featuregen'')],
     rg_status = [((PRIMARY_SELECTED, 1), ''active'')], rg_upcasters = []\<rparr>\<rparr>"

definition selected_db :: db where
  "selected_db = snd (append_event select_env (new_primary_selected ''r1'' ''FEATURE_PLAN'' ''d1'' sample_actor sample_provenance None) 0 1 drafted_db)"

lemma wf_selected: "wf_store select_env selected_db"
proof -
  have e: "events drafted_db = []"
    by code_simp
  have "wf_store select_env drafted_db"
    by (simp add: wf_store_def e stream_rows_def contiguous_def)
  moreover obtain r where "append_event select_env (new_primary_selected ''r1'' ''FEATURE_PLAN'' ''d1'' sample_actor sample_provenance None) 0 1 drafted_db = (r, selected_db)"
    unfolding selected_db_def by (metis surjective_pairing)
  from keepsD [OF keeps_append_event this] have "store_step select_env drafted_db selected_db" .
  ultimately show ?thesis
    by (simp add: store_step_def)
qed

lemma selected_eval:
  "map er_global_seq (events selected_db) = [2]"
  "fold_until (primary_step (documents selected_db)) (map decoded (events selected_db)) [] =
     ([\<lparr>sp_run_id = ''r1'', sp_stage = ''FEATURE_PLAN'', sp_doc_id = ''d1'', sp_selected_seq = 2\<rparr>], 1)"
  by code_simp+

subsection \<open>Properties\<close>

text \<open>
  C28: the replay loops end.  For every projection whose \<open>apply\<close> leaves the event log and the checkpoints
  alone and itself ends, calling \<open>run_projection\<close> until it applies nothing takes at most as many calls as
  there are events, plus one: more fuel changes nothing, and the fuel is never used up.
\<close>

theorem replay_terminates:
  assumes "\<And>e. keeps log_kept (pj_apply P e)" "\<And>e. ends (pj_apply P e)"
  shows "fst (replay_all E P s) \<noteq> Inl Diverges \<and> drain (Suc (length (events s)) + extra) E P s = replay_all E P s"
proof -
  have fuel: "length (pending_events (checkpoint_seq (pj_name P) s) s) < Suc (length (events s))"
    by (simp add: pending_events_def less_Suc_eq_le)
  show ?thesis
    using drain_ends [OF assms fuel] drain_enough [OF assms(1) fuel] by (simp add: replay_all_def)
qed

theorem replay_terminates_witness:
  "fst (replay_all plain_env StagePrimaryProjection empty_db) \<noteq> Inl Diverges"
  using replay_terminates [of StagePrimaryProjection plain_env empty_db 0] stage_primary_kept by blast

text \<open>
  C29: a rebuild is a fold.  Rebuilding the stage-primary read model in batches, with checkpoints and
  savepoints, leaves exactly the table that folding \<open>apply\<close> over all events from the empty table leaves, up to
  the first event that cannot be applied.  If there is none the projection is caught up and no degraded
  marker of it remains; if there is one, it lags and a marker names that event, which it has not passed.
\<close>

theorem rebuild_is_fold:
  assumes "wf_store E s" "\<forall>r \<in> set (events s). 0 < er_global_seq r"
    and "fold_until (primary_step (documents s)) (map decoded (events s)) [] = (rows, k)"
  shows "\<exists>s'. rebuild_projection E' StagePrimaryProjection s = (Inr (), s') \<and> stage_primary s' = rows
    \<and> (k = length (events s) \<longrightarrow> projection_lag ''stage_primary'' s' = 0
         \<and> (\<forall>m \<in> set (projection_degraded s'). dg_projection_name m \<noteq> ''stage_primary''))
    \<and> (k < length (events s) \<longrightarrow> 0 < projection_lag ''stage_primary'' s'
         \<and> (\<exists>m \<in> set (projection_degraded s'). dg_projection_name m = ''stage_primary''
              \<and> dg_poison_seq m = er_global_seq (events s ! k) \<and> checkpoint_seq ''stage_primary'' s' < dg_poison_seq m))"
proof -
  have "\<exists>e. row_to_event r = Inr e" if "r \<in> set (events s)" for r
    using assms(1) that by (auto simp: wf_store_def row_ok_def decodable_def)
  moreover have "sorted_wrt (<) (map er_global_seq (events s))"
    using assms(1) by (simp add: wf_store_def)
  ultimately obtain s' where "rebuild_projection E' StagePrimaryProjection s = (Inr (), s')" "stage_primary s' = rows"
    "k = length (events s) \<Longrightarrow> projection_lag (pj_name StagePrimaryProjection) s' = 0
       \<and> (\<forall>m \<in> set (projection_degraded s'). dg_projection_name m \<noteq> pj_name StagePrimaryProjection)"
    "k < length (events s) \<Longrightarrow> 0 < projection_lag (pj_name StagePrimaryProjection) s'
       \<and> (\<exists>m \<in> set (projection_degraded s'). dg_projection_name m = pj_name StagePrimaryProjection
            \<and> dg_poison_seq m = er_global_seq (events s ! k) \<and> checkpoint_seq (pj_name StagePrimaryProjection) s' < dg_poison_seq m)"
    using stage_primaries.rebuild_fold [OF _ _ assms(2,3), of E'] by metis
  then show ?thesis
    by (auto simp: StagePrimaryProjection_def)
qed

theorem rebuild_is_fold_witness:
  "\<exists>s'. rebuild_projection select_env StagePrimaryProjection selected_db = (Inr (), s')
     \<and> current_primary ''r1'' ''FEATURE_PLAN'' s' = Some ''d1'' \<and> projection_lag ''stage_primary'' s' = 0"
proof -
  have "length (events selected_db) = 1"
    using selected_eval(1) by (metis length_map list.size(3) length_Cons One_nat_def)
  moreover have "er_global_seq r = 2" if "r \<in> set (events selected_db)" for r
    using selected_eval(1) that by (metis empty_iff image_eqI list.set_map list.simps(15) list.set(1) singletonD)
  then have "\<forall>r \<in> set (events selected_db). 0 < er_global_seq r"
    by simp
  from rebuild_is_fold [OF wf_selected this selected_eval(2), of select_env] calculation show ?thesis
    by (auto simp: current_primary_def)
qed

text \<open>
  An aggregate is unblocked only by proof.  When \<open>resolve_degraded\<close> is accepted, every marker of the
  aggregate is gone, the others are as the replays left them, and each cleared marker's projection had its
  checkpoint at or past the event it names; the act is on the security stream.  (The projections
  registered for repair leave the runner's two ledgers alone, and markers have the key of their table.)
\<close>

theorem resolve_needs_progress:
  assumes "resolve_degraded_command reg E cmd s = (Inr r, s')" "accepted r" "repairs_well reg"
    and "distinct (map marker_key (projection_degraded s))" "cm_aggregate_id cmd = Some aid"
  shows "\<exists>s1 row. (\<forall>m \<in> set (projection_degraded s1). dg_aggregate m = cm_aggregate cmd \<and> dg_aggregate_id m = aid \<longrightarrow>
        dg_poison_seq m \<le> checkpoint_seq (dg_projection_name m) s1)
    \<and> projection_degraded s' = filter (\<lambda>m. \<not> (dg_aggregate m = cm_aggregate cmd \<and> dg_aggregate_id m = aid)) (projection_degraded s1)
    \<and> projection_checkpoints s' = projection_checkpoints s1
    \<and> security_audit s' = security_audit s1 @ [row] \<and> au_event_type row = ''DEGRADED_RESOLVED'' \<and> au_actor row = identity_to_jsonb (cm_actor cmd)"
proof -
  let ?agg = "cm_aggregate cmd"
  let ?names = "degraded_names ?agg (Some aid) s"
  have aid: "str_or (Some aid) [] = aid"
    by (simp add: str_or_def)
  have ne: "?names \<noteq> []"
    using assms(1,2) by (auto simp: resolve_degraded_command_def Let_def assms(5))
  obtain verdict s1 where p: "prove_markers E reg ?agg aid ?names s = (Inr verdict, s1)"
    and q: "(case verdict of Inl no \<Rightarrow> ret no
           | Inr proven \<Rightarrow>
               if proven = [] then ret (refuse (Some aid) ''no degraded marker remained to clear for this aggregate'')
               else
                 andthen (for_each proven (delete_marker ?agg aid)) (\<lambda>_.
                 andthen (record_security_event E ''DEGRADED_RESOLVED'' (cm_actor cmd) ''resolve_degraded'' ''flagged''
                   (Some ''operator remediation proven healthy (projection advanced past poison)'') (Some ?agg) (Some aid)
                   ''regulator'' None) (\<lambda>_.
                 ret (accept (Some aid) [])))) s1 = (Inr r, s')"
    using assms(1) ne unfolding resolve_degraded_command_def Let_def assms(5) aid
    by (auto simp: andthen_eq_Inr)
  obtain proven where v: "verdict = Inr proven"
    using q p assms(2) prove_markers_refuses by (cases verdict) auto
  then have p: "prove_markers E reg ?agg aid ?names s = (Inr (Inr proven), s1)"
    using p by simp
  obtain sec_id where rec: "record_security_event E ''DEGRADED_RESOLVED'' (cm_actor cmd) ''resolve_degraded'' ''flagged''
        (Some ''operator remediation proven healthy (projection advanced past poison)'') (Some ?agg) (Some aid) ''regulator'' None
        (snd (for_each proven (delete_marker ?agg aid) s1)) = (Inr sec_id, s')"
    using q assms(2) by (auto simp: v andthen_eq_Inr delete_markers split: if_splits)
  have d: "distinct ?names"
    by (simp add: degraded_names_def)
  note pm = prove_markers_Inr [OF p assms(3) d assms(4)]
  have known: "dg_projection_name m \<in> set ?names" if "m \<in> set (projection_degraded s1)" "dg_aggregate m = ?agg" "dg_aggregate_id m = aid" for m
  proof (rule ccontr)
    assume no: "dg_projection_name m \<notin> set ?names"
    then have "m \<in> set (projection_degraded s)"
      using pm untouched_markers [of "dg_projection_name m" s s1 m] that(1) by blast
    then show False
      using no that(2,3) by (auto simp: degraded_names_def)
  qed
  have proved: "(dg_projection_name m, dg_poison_seq m) \<in> set proven \<and> dg_poison_seq m \<le> checkpoint_seq (dg_projection_name m) s1"
    if "m \<in> set (projection_degraded s1)" "dg_aggregate m = ?agg" "dg_aggregate_id m = aid" for m
    using pm that known [OF that] by (auto simp: marker_key_def)
  have del: "projection_degraded (snd (for_each proven (delete_marker ?agg aid) s1)) =
      filter (\<lambda>m. \<not> (dg_aggregate m = ?agg \<and> dg_aggregate_id m = aid)) (projection_degraded s1)"
    using proved by (auto simp: delete_markers intro!: filter_cong)
  define s2 where "s2 = snd (for_each proven (delete_marker ?agg aid) s1)"
  have s2: "security_audit s2 = security_audit s1" "projection_checkpoints s2 = projection_checkpoints s1"
    by (simp_all add: s2_def delete_markers)
  have "\<exists>row. security_audit s' = security_audit s2 @ [row] \<and> au_event_type row = ''DEGRADED_RESOLVED'' \<and> au_actor row = identity_to_jsonb (cm_actor cmd)
      \<and> projection_degraded s' = projection_degraded s2 \<and> projection_checkpoints s' = projection_checkpoints s2"
    by (rule record_security_event_Inr [OF rec [folded s2_def]]) simp
  then obtain row where row: "au_event_type row = ''DEGRADED_RESOLVED''" "au_actor row = identity_to_jsonb (cm_actor cmd)"
    "security_audit s' = security_audit s1 @ [row]" "projection_degraded s' = projection_degraded s2" "projection_checkpoints s' = projection_checkpoints s1"
    using s2 by auto
  then show ?thesis
    using proved del row by (intro exI [of _ s1] exI [of _ row]) (auto simp: s2_def)
qed

definition marked_db :: db where
  "marked_db = selected_db\<lparr>projection_degraded := [\<lparr>dg_projection_name = ''stage_primary'', dg_aggregate = ''run'',
     dg_aggregate_id = ''r1'', dg_reason = ''unknown doc'', dg_poison_event_id = ''e'', dg_poison_seq = 2\<rparr>]\<rparr>"

definition repair_primary :: repair_registry where
  "repair_primary = register_projection_for_repair ''stage_primary'' StagePrimaryProjection []"

definition resolve_r1 :: Command where
  "resolve_r1 = \<lparr>cm_action = ''resolve_degraded'', cm_aggregate = ''run'', cm_aggregate_id = Some ''r1'', cm_args = [],
     cm_actor = audit_actor, cm_idempotency_key = ''k1'', cm_expected_version = None\<rparr>"

lemma repair_primary_well: "repairs_well repair_primary"
  by (auto simp: repairs_well_def repair_primary_def register_projection_for_repair_def projection_for_repair_def
      StagePrimaryProjection_def primary_apply_def keeps_def books_kept_def andthen_def split: if_splits sum.split)

lemma marked_proven:
  "fst (prove_markers plain_env repair_primary ''run'' ''r1'' [''stage_primary''] marked_db) = Inr (Inr [(''stage_primary'', 2)])"
  "security_audit (snd (prove_markers plain_env repair_primary ''run'' ''r1'' [''stage_primary''] marked_db)) = []"
  "degraded_names ''run'' (Some ''r1'') marked_db = [''stage_primary'']"
  by code_simp+

theorem resolve_needs_progress_witness:
  "\<exists>s'. fst (resolve_degraded_command repair_primary plain_env resolve_r1 marked_db) = Inr (accept (Some ''r1'') [])
     \<and> snd (resolve_degraded_command repair_primary plain_env resolve_r1 marked_db) = s' \<and> (\<exists>row. security_audit s' = [row])"
proof -
  obtain s1 where p: "prove_markers plain_env repair_primary ''run'' ''r1'' [''stage_primary''] marked_db = (Inr (Inr [(''stage_primary'', 2)]), s1)"
    "security_audit s1 = []"
    using marked_proven(1,2) by (metis prod.collapse)
  define s2 where "s2 = snd (for_each [(''stage_primary'', 2)] (delete_marker ''run'' ''r1'') s1)"
  have s2: "for_each [(''stage_primary'', 2)] (delete_marker ''run'' ''r1'') s1 = (Inr [()], s2)" "security_audit s2 = []"
    using p(2) by (simp_all add: s2_def delete_markers del: for_each.simps)
  obtain sec_id s' where rec: "record_security_event plain_env ''DEGRADED_RESOLVED'' audit_actor ''resolve_degraded'' ''flagged''
        (Some ''operator remediation proven healthy (projection advanced past poison)'') (Some ''run'') (Some ''r1'') ''regulator'' None s2 = (Inr sec_id, s')"
    by (rule record_total [of plain_env "''k''" "''flagged''" s2]) (auto simp: plain_env_def s2(2))
  have run: "resolve_degraded_command repair_primary plain_env resolve_r1 marked_db = (Inr (accept (Some ''r1'') []), s')"
    unfolding resolve_degraded_command_def Let_def
    by (simp add: resolve_r1_def str_or_def marked_proven(3) andthen_Inr [where m = "prove_markers _ _ _ _ _", OF p(1)]
      andthen_Inr [where m = "for_each _ (delete_marker _ _)", OF s2(1)] andthen_Inr [where m = "record_security_event _ _ _ _ _ _ _ _ _ _", OF rec]
      del: for_each.simps prove_markers.simps)
  have "distinct (map marker_key (projection_degraded marked_db))" "cm_aggregate_id resolve_r1 = Some ''r1''"
    by (simp_all add: marked_db_def resolve_r1_def)
  from resolve_needs_progress [OF run _ repair_primary_well this] obtain t :: db and row where "security_audit s' = security_audit t @ [row]"
    by auto
  moreover have "\<exists>row. security_audit s' = security_audit s2 @ [row]"
    by (rule record_security_event_Inr [OF rec]) simp
  ultimately show ?thesis
    using run s2(2) by auto
qed

text \<open>
  An alias is switched only to a read model that has caught up.  When a migration returns, the alias
  resolves to the new projection, whose checkpoint is at the head of the log, and other aliases still resolve
  as after the rebuild; when the rebuilt projection lags, it raises and switches nothing.
\<close>

theorem alias_switches_when_caught_up:
  assumes "rebuild_projection E P s = (Inr (), s1)" "migrate_projection E al P s = (r, s')"
  shows "if projection_lag (pj_name P) s1 = 0
     then r = Inr () \<and> resolve_projection al s' = pj_name P \<and> projection_lag (pj_name P) s' = 0
       \<and> (\<forall>other. other \<noteq> al \<longrightarrow> resolve_projection other s' = resolve_projection other s1)
     else r = Inl RuntimeError \<and> s' = s1"
proof (cases "projection_lag (pj_name P) s1 = 0")
  case True
  then have r: "r = Inr ()" "s' = snd (upsert_alias al (pj_name P) (Some (head_seq s1)) s1)"
    using assms by (simp_all add: migrate_projection_def andthen_def upsert_alias_def)
  have "resolve_projection a s' = (if a = al then pj_name P else resolve_projection a s1)" for a
    by (simp add: r(2) resolve_upsert)
  moreover have "projection_lag (pj_name P) s' = 0"
    using True by (simp add: r upsert_alias_def projection_lag_def head_seq_def checkpoint_seq_def find_checkpoint_def)
  ultimately show ?thesis
    using True r by simp
qed (use assms in \<open>simp add: migrate_projection_def andthen_def\<close>)

theorem alias_switches_when_caught_up_witness:
  "\<exists>s'. migrate_projection select_env ''primary'' StagePrimaryProjection selected_db = (Inr (), s')
     \<and> resolve_projection ''primary'' s' = ''stage_primary''"
proof -
  have e: "fst (rebuild_projection select_env StagePrimaryProjection selected_db) = Inr ()"
    "projection_lag ''stage_primary'' (snd (rebuild_projection select_env StagePrimaryProjection selected_db)) = 0"
    by code_simp+
  obtain r s' where m: "migrate_projection select_env ''primary'' StagePrimaryProjection selected_db = (r, s')"
    by fastforce
  have "rebuild_projection select_env StagePrimaryProjection selected_db =
      (Inr (), snd (rebuild_projection select_env StagePrimaryProjection selected_db))"
    using e(1) by (metis prod.collapse)
  from alias_switches_when_caught_up [OF this m] e(2) m show ?thesis
    by (simp add: StagePrimaryProjection_def)
qed

subsection \<open>Finding\<close>

text \<open>
  An analytics projection fails open, but the loops count only events it applied: when every event of a
  whole batch is skipped, \<open>run_projection\<close> returns 0 although it advanced, and the replay stops there with
  events left.
\<close>

lemma insert_skip_cases:
  "\<exists>k. (Inr (), if b then s else s\<lparr>projection_skips := x\<rparr>) = (Inr () :: exn + unit, s\<lparr>projection_skips := k\<rparr>)"
  by (cases b) (auto intro: exI [of _ "projection_skips s"])

lemma apply_rows_all_skipped:
  assumes "pj_is_analytics P" "\<And>e s. pj_apply P e s = (Inl (ProjectionApplyError a b c), s)"
    and "\<And>r. r \<in> set rows \<Longrightarrow> \<exists>e. row_to_event r = Inr e"
  shows "\<exists>k. apply_rows E P rows l n s = (Inr (reached l rows (length rows), n), s\<lparr>projection_skips := k\<rparr>)"
  using assms(3)
proof (induction rows arbitrary: l s)
  case Nil
  then show ?case
    by (intro exI [of _ "projection_skips s"]) (simp add: reached_def)
next
  case (Cons row rows)
  obtain e where e: "row_to_event row = Inr e" "ev_global_seq e = er_global_seq row"
    using Cons.prems row_to_event_seq by fastforce
  obtain k where k: "insert_skip (pj_name P) (ev_global_seq e) (take 500 (apply_error_text a b c)) s = (Inr (), s\<lparr>projection_skips := k\<rparr>)"
  proof -
    have "\<exists>k. insert_skip (pj_name P) (ev_global_seq e) (take 500 (apply_error_text a b c)) s = (Inr (), s\<lparr>projection_skips := k\<rparr>)"
      unfolding insert_skip_def update_apply by (rule insert_skip_cases)
    then show ?thesis
      using that by blast
  qed
  have "reached (er_global_seq row) rows (length rows) = reached l (row # rows) (length (row # rows))"
    by (cases rows) (simp_all add: reached_def)
  moreover have "rollback s s = s"
    by (simp add: rollback_def)
  then have "apply_rows E P (row # rows) l n s = apply_rows E P rows (er_global_seq row) n (s\<lparr>projection_skips := k\<rparr>)"
    using assms(1,2) k by (simp add: e andthen_def attempt_def savepoint_def)
  moreover obtain k' where "apply_rows E P rows (er_global_seq row) n (s\<lparr>projection_skips := k\<rparr>) =
      (Inr (reached (er_global_seq row) rows (length rows), n), s\<lparr>projection_skips := k\<rparr>\<lparr>projection_skips := k'\<rparr>)"
    using Cons.IH Cons.prems by fastforce
  ultimately show ?case
    by auto
qed

theorem skipped_batch_stops_replay:
  assumes "pj_is_analytics P" "\<And>e s. pj_apply P e s = (Inl (ProjectionApplyError a b c), s)"
    and "\<And>r. r \<in> set (events s) \<Longrightarrow> \<exists>e. row_to_event r = Inr e" "find_checkpoint (pj_name P) s \<noteq> None"
    and "rows = pending_events (checkpoint_seq (pj_name P) s) s" "rows \<noteq> []"
  shows "\<exists>s'. replay_all E P s = (Inr (), s')
    \<and> checkpoint_seq (pj_name P) s' = er_global_seq (rows ! (min DEFAULT_BATCH (length rows) - 1))"
proof -
  let ?n = "pj_name P" and ?bs = "take DEFAULT_BATCH rows"
  have en: "ensure_checkpoint ?n True s = (Inr (), s)"
    using assms(4) by (auto simp: ensure_checkpoint_def find_checkpoint_def find_None_iff image_iff)
  have "\<exists>e. row_to_event r = Inr e" if "r \<in> set ?bs" for r
    using assms(3) that by (auto simp: assms(5) pending_events_def dest: in_set_takeD)
  then obtain k where a: "apply_rows E P ?bs (checkpoint_seq ?n s) 0 s =
      (Inr (reached (checkpoint_seq ?n s) ?bs (length ?bs), 0), s\<lparr>projection_skips := k\<rparr>)"
    using apply_rows_all_skipped [OF assms(1,2), of ?bs E "checkpoint_seq ?n s" 0 s] by blast
  define s2 where "s2 = s\<lparr>projection_skips := k\<rparr>"
  define s' where "s' = snd (set_checkpoint ?n (reached (checkpoint_seq ?n s) ?bs (length ?bs)) (head_seq s2) s2)"
  have "run_projection E P DEFAULT_BATCH s = (Inr 0, s')"
    using a assms(1) by (simp add: run_projection_def andthen_def en assms(5) [symmetric] s'_def s2_def set_checkpoint_def)
  then have "replay_all E P s = (Inr (), s')"
    by (simp add: replay_all_def andthen_def)
  moreover have "find_checkpoint ?n s2 \<noteq> None"
    using assms(4) by (simp add: s2_def find_checkpoint_def)
  then have "checkpoint_seq ?n s' = reached (checkpoint_seq ?n s) ?bs (length ?bs)"
    by (simp add: s'_def checkpoint_seq_set)
  moreover have "length ?bs = min DEFAULT_BATCH (length rows)" "length ?bs \<noteq> 0"
    using assms(6) by (auto simp: DEFAULT_BATCH_def)
  ultimately show ?thesis
    by (auto simp: reached_def)
qed

end
