(* ===== verification/Governance.thy ===== *)
theory Governance
  imports Database Datetime
begin

text \<open>
  Feature-version governance: the typed slots of \<open>governance/attributes.py\<close> and their row, the guard
  predicates of \<open>governance/predicates.py\<close> as members of the predicate registry, and the activation
  guards of \<open>governance/activation_policy.py\<close>.  An injected policy is any function of the
  attributes; \<open>StandardActivationPolicy\<close> is the one the repository ships.
\<close>

record GovernanceAttributes =
  ga_feature_version_id :: string
  ga_feature_id :: string
  ga_produced_by_run :: string
  ga_verification_stamp :: string
  ga_risk_tier :: string
  ga_approval_type :: string
  ga_base_feature_version_id :: "string option"
  ga_approved_use_cases :: "string list"
  ga_blocked_use_cases :: "string list"
  ga_required_artifact_refs :: dict
  ga_dsl_operation_catalog_version :: "string option"
  ga_conditions :: "string list"
  ga_expires_at :: "int option"
  ga_max_uses :: "int option"
  ga_reviewed_evidence_refs :: "string list"
  ga_immutable :: bool

definition VERIFICATION_STAMPS :: "string list" where
  "VERIFICATION_STAMPS = [''DESIGN-CHECKED'', ''DATA-CHECKED'', ''USEFULNESS-CHECKED'']"

definition APPROVAL_TYPES :: "string list" where
  "APPROVAL_TYPES = [''EXPERIMENTAL'', ''PRODUCTION'']"

definition validate_governance_attributes :: "GovernanceAttributes \<Rightarrow> exn + unit" where
  "validate_governance_attributes attrs =
     (if [] \<in> {ga_feature_version_id attrs, ga_feature_id attrs, ga_produced_by_run attrs, ga_risk_tier attrs}
      then Inl GovernanceAttributeError
      else if ga_verification_stamp attrs \<notin> set VERIFICATION_STAMPS then Inl GovernanceAttributeError
      else if ga_approval_type attrs \<notin> set APPROVAL_TYPES then Inl GovernanceAttributeError
      else if \<exists>n \<in> set_option (ga_max_uses attrs). n \<le> 0 then Inl GovernanceAttributeError
      else Inr ())"

definition to_feature_version_row :: "GovernanceAttributes \<Rightarrow> string \<Rightarrow> fv_row" where
  "to_feature_version_row attrs content_hash =
     \<lparr>fv_feature_version_id = ga_feature_version_id attrs, fv_feature_id = ga_feature_id attrs,
      fv_produced_by_run = ga_produced_by_run attrs,
      fv_base_feature_version_id = ga_base_feature_version_id attrs,
      fv_verification_stamp = ga_verification_stamp attrs, fv_risk_tier = ga_risk_tier attrs,
      fv_approval_type = ga_approval_type attrs, fv_approved_use_cases = ga_approved_use_cases attrs,
      fv_blocked_use_cases = ga_blocked_use_cases attrs,
      fv_required_artifact_refs = ga_required_artifact_refs attrs,
      fv_dsl_operation_catalog_version = ga_dsl_operation_catalog_version attrs,
      fv_approval = [(''conditions'', JArr (map JStr (ga_conditions attrs))),
        (''expires_at'', ostr (map_option isoformat (ga_expires_at attrs))),
        (''max_uses'', oint (ga_max_uses attrs)),
        (''reviewed_evidence_refs'', JArr (map JStr (ga_reviewed_evidence_refs attrs)))],
      fv_expires_at = ga_expires_at attrs, fv_content_hash = content_hash, fv_immutable = ga_immutable attrs\<rparr>"

text \<open>\<open>x or None\<close> on an optional text column.\<close>

definition nonempty :: "string option \<Rightarrow> string option" where
  "nonempty x = (if x = Some [] then None else x)"

definition from_feature_version_row :: "fv_row \<Rightarrow> GovernanceAttributes" where
  "from_feature_version_row row =
     \<lparr>ga_feature_version_id = fv_feature_version_id row, ga_feature_id = fv_feature_id row,
      ga_produced_by_run = fv_produced_by_run row, ga_verification_stamp = fv_verification_stamp row,
      ga_risk_tier = fv_risk_tier row, ga_approval_type = fv_approval_type row,
      ga_base_feature_version_id = nonempty (fv_base_feature_version_id row),
      ga_approved_use_cases = fv_approved_use_cases row, ga_blocked_use_cases = fv_blocked_use_cases row,
      ga_required_artifact_refs = fv_required_artifact_refs row,
      ga_dsl_operation_catalog_version = nonempty (fv_dsl_operation_catalog_version row),
      ga_conditions = as_strs (dget (fv_approval row) ''conditions''),
      ga_expires_at = fv_expires_at row,
      ga_max_uses = as_oint (dget (fv_approval row) ''max_uses''),
      ga_reviewed_evidence_refs = as_strs (dget (fv_approval row) ''reviewed_evidence_refs''),
      ga_immutable = fv_immutable row\<rparr>"

subsection \<open>The guard predicates\<close>

text \<open>\<open>tuple.index(x)\<close>.\<close>

fun index_of :: "string list \<Rightarrow> json \<Rightarrow> exn + int" where
  "index_of [] x = Inl ValueError"
| "index_of (s # ss) x = (if x = JStr s then Inr 0 else chain (index_of ss x) (\<lambda>n. Inr (n + 1)))"

fun int_of :: "json \<Rightarrow> exn + int" where
  "int_of (JInt n) = Inr n"
| "int_of (JBool b) = Inr (if b then 1 else 0)"
| "int_of _ = Inl TypeError"

text \<open>\<open>tuple(x)\<close> on a JSON-shaped value: a mapping gives its keys, a text its characters.\<close>

fun items_of :: "json \<Rightarrow> exn + json list" where
  "items_of (JArr xs) = Inr xs"
| "items_of (JObj kvs) = Inr (map (\<lambda>kv. JStr (fst kv)) kvs)"
| "items_of (JStr s) = Inr (map (\<lambda>c. JStr [c]) s)"
| "items_of _ = Inl TypeError"

definition verification_stamp_satisfies :: guard_predicate where
  "verification_stamp_satisfies =
     \<lparr>gp_name = ''verification_stamp_satisfies'', gp_declared_inputs = [''verification_stamp'', ''required_stamp''],
      gp_call = (\<lambda>d. chain (dict_item d ''verification_stamp'') (\<lambda>v.
        chain (index_of VERIFICATION_STAMPS v) (\<lambda>i. chain (dict_item d ''required_stamp'') (\<lambda>w.
        chain (index_of VERIFICATION_STAMPS w) (\<lambda>j. Inr (i \<ge> j))))))\<rparr>"

definition approval_type_is :: guard_predicate where
  "approval_type_is =
     \<lparr>gp_name = ''approval_type_is'', gp_declared_inputs = [''approval_type'', ''expected_approval_type''],
      gp_call = (\<lambda>d. chain (dict_item d ''approval_type'') (\<lambda>v.
        chain (dict_item d ''expected_approval_type'') (\<lambda>w. Inr (v = w))))\<rparr>"

definition use_case_not_blocked :: guard_predicate where
  "use_case_not_blocked =
     \<lparr>gp_name = ''use_case_not_blocked'', gp_declared_inputs = [''target_use_case'', ''blocked_use_cases''],
      gp_call = (\<lambda>d. chain (dict_item d ''target_use_case'') (\<lambda>v.
        chain (dict_item d ''blocked_use_cases'') (\<lambda>w. chain (items_of w) (\<lambda>xs. Inr (v \<notin> set xs)))))\<rparr>"

text \<open>\<open>refs\<close> is a mapping; \<open>name in refs and bool(refs[name])\<close>.\<close>

definition required_artifact_present :: guard_predicate where
  "required_artifact_present =
     \<lparr>gp_name = ''required_artifact_present'', gp_declared_inputs = [''required_artifact_refs'', ''artifact_name''],
      gp_call = (\<lambda>d. chain (dict_item d ''required_artifact_refs'') (\<lambda>refs.
        chain (dict_str d ''artifact_name'') (\<lambda>name.
        Inr (has_key (as_dict refs) name \<and> truthy (dget (as_dict refs) name)))))\<rparr>"

definition risk_tier_within_ceiling :: guard_predicate where
  "risk_tier_within_ceiling =
     \<lparr>gp_name = ''risk_tier_within_ceiling'', gp_declared_inputs = [''risk_tier_rank'', ''ceiling_rank''],
      gp_call = (\<lambda>d. chain (chain (dict_item d ''risk_tier_rank'') int_of) (\<lambda>i.
        chain (chain (dict_item d ''ceiling_rank'') int_of) (\<lambda>j. Inr (i \<le> j))))\<rparr>"

definition approval_not_expired :: guard_predicate where
  "approval_not_expired =
     \<lparr>gp_name = ''approval_not_expired'', gp_declared_inputs = [''expires_at'', ''as_of''],
      gp_call = (\<lambda>d. chain (dict_item d ''expires_at'') (\<lambda>e. if e = JNull then Inr True
        else chain (chain (dict_item d ''as_of'') int_of) (\<lambda>a. chain (int_of e) (\<lambda>x. Inr (a \<le> x)))))\<rparr>"

definition max_uses_not_exceeded :: guard_predicate where
  "max_uses_not_exceeded =
     \<lparr>gp_name = ''max_uses_not_exceeded'', gp_declared_inputs = [''max_uses'', ''uses_count''],
      gp_call = (\<lambda>d. chain (dict_item d ''max_uses'') (\<lambda>m. if m = JNull then Inr True
        else chain (chain (dict_item d ''uses_count'') int_of) (\<lambda>u. chain (int_of m) (\<lambda>x. Inr (u < x)))))\<rparr>"

definition GOVERNANCE_PREDICATES :: "guard_predicate list" where
  "GOVERNANCE_PREDICATES = [verification_stamp_satisfies, approval_type_is, use_case_not_blocked,
     required_artifact_present, risk_tier_within_ceiling, approval_not_expired, max_uses_not_exceeded]"

definition register_governance_predicates :: "predicate_registry \<Rightarrow> exn + predicate_registry" where
  "register_governance_predicates reg =
     foldl (\<lambda>r p. chain r (\<lambda>reg'. register_predicate reg' p)) (Inr reg) GOVERNANCE_PREDICATES"

subsection \<open>Activation guards\<close>

record GuardFailure =
  gf_guard :: string
  gf_inputs :: dict
  gf_result :: bool

type_synonym activation_policy = "GovernanceAttributes \<Rightarrow> string \<Rightarrow> string \<Rightarrow> exn + GuardFailure option"

record StandardActivationPolicy =
  production_required_stamp :: "string option"
  required_artifacts :: "string list"
  use_case_risk_ceiling :: "(string \<times> string) list"
  risk_tier_ranks :: "(string \<times> int) list"

definition guard_or :: "guard_predicate \<Rightarrow> dict \<Rightarrow> (exn + GuardFailure option) \<Rightarrow> exn + GuardFailure option" where
  "guard_or p inputs rest =
     chain (gp_call p inputs) (\<lambda>b.
       if b then rest else Inr (Some \<lparr>gf_guard = gp_name p, gf_inputs = inputs, gf_result = False\<rparr>))"

fun artifact_guards :: "dict \<Rightarrow> string list \<Rightarrow> (exn + GuardFailure option) \<Rightarrow> exn + GuardFailure option" where
  "artifact_guards refs [] rest = rest"
| "artifact_guards refs (name # names) rest =
     guard_or required_artifact_present [(''required_artifact_refs'', JObj refs), (''artifact_name'', JStr name)]
       (artifact_guards refs names rest)"

definition rank_of :: "(string \<times> int) list \<Rightarrow> string \<Rightarrow> exn + int" where
  "rank_of ranks t = (case map_of ranks t of None \<Rightarrow> Inl KeyError | Some n \<Rightarrow> Inr n)"

definition policy_evaluate :: "StandardActivationPolicy \<Rightarrow> activation_policy" where
  "policy_evaluate pol attrs use_case approval_type =
     (let ceiling_check =
        (case map_of (use_case_risk_ceiling pol) use_case of
           None \<Rightarrow> Inr None
         | Some ceiling \<Rightarrow>
             chain (rank_of (risk_tier_ranks pol) (ga_risk_tier attrs)) (\<lambda>r.
             chain (rank_of (risk_tier_ranks pol) ceiling) (\<lambda>c.
             guard_or risk_tier_within_ceiling [(''risk_tier_rank'', JInt r), (''ceiling_rank'', JInt c)] (Inr None))))
      in case production_required_stamp pol of
           Some stamp \<Rightarrow>
             if approval_type = ''PRODUCTION'' then
               guard_or verification_stamp_satisfies
                 [(''verification_stamp'', JStr (ga_verification_stamp attrs)), (''required_stamp'', JStr stamp)]
                 (artifact_guards (ga_required_artifact_refs attrs) (required_artifacts pol) ceiling_check)
             else ceiling_check
         | None \<Rightarrow> ceiling_check)"

definition DEFAULT_ACTIVATION_POLICY :: activation_policy where
  "DEFAULT_ACTIVATION_POLICY =
     policy_evaluate \<lparr>production_required_stamp = None, required_artifacts = [], use_case_risk_ceiling = [], risk_tier_ranks = []\<rparr>"

definition evaluate_activation_guards ::
  "GovernanceAttributes \<Rightarrow> string \<Rightarrow> string \<Rightarrow> activation_policy option \<Rightarrow> exn + GuardFailure option" where
  "evaluate_activation_guards attrs use_case approval_type policy =
     guard_or use_case_not_blocked
       [(''target_use_case'', JStr use_case), (''blocked_use_cases'', JArr (map JStr (ga_blocked_use_cases attrs)))]
       ((case policy of None \<Rightarrow> DEFAULT_ACTIVATION_POLICY | Some p \<Rightarrow> p) attrs use_case approval_type)"

subsection \<open>Lemmas\<close>

lemma guards_passed_not_blocked:
  "evaluate_activation_guards attrs uc at policy = Inr None \<Longrightarrow> uc \<notin> set (ga_blocked_use_cases attrs)"
  by (auto simp: evaluate_activation_guards_def guard_or_def use_case_not_blocked_def chain_eq_Inr image_iff
      split: if_splits)

lemma default_guards:
  "evaluate_activation_guards attrs uc at None =
     Inr (if uc \<in> set (ga_blocked_use_cases attrs)
          then Some \<lparr>gf_guard = ''use_case_not_blocked'',
                 gf_inputs = [(''target_use_case'', JStr uc), (''blocked_use_cases'', JArr (map JStr (ga_blocked_use_cases attrs)))],
                 gf_result = False\<rparr>
          else None)"
  by (auto simp: evaluate_activation_guards_def guard_or_def use_case_not_blocked_def image_iff
      DEFAULT_ACTIVATION_POLICY_def policy_evaluate_def)

lemma artifact_guards_passed:
  "artifact_guards refs names rest = Inr None \<Longrightarrow>
     rest = Inr None \<and> (\<forall>n \<in> set names. has_key refs n \<and> truthy (dget refs n))"
  by (induction names)
     (auto simp: guard_or_def required_artifact_present_def chain_eq_Inr split: if_splits)

subsection \<open>Properties\<close>

text \<open>
  The governance slots survive their row: writing attributes to a \<open>feature_versions\<close> row and reading
  them back gives the same attributes (an empty text in an optional slot reads back as absent).
\<close>

theorem governance_row_roundtrip:
  assumes "ga_base_feature_version_id a \<noteq> Some []" "ga_dsl_operation_catalog_version a \<noteq> Some []"
  shows "from_feature_version_row (to_feature_version_row a h) = a"
  using assms by (cases a) (simp add: from_feature_version_row_def to_feature_version_row_def nonempty_def)

definition sample_attrs :: GovernanceAttributes where
  "sample_attrs = \<lparr>ga_feature_version_id = ''fv_1'', ga_feature_id = ''feat_1'', ga_produced_by_run = ''run_1'',
     ga_verification_stamp = ''DATA-CHECKED'', ga_risk_tier = ''high'', ga_approval_type = ''PRODUCTION'',
     ga_base_feature_version_id = None, ga_approved_use_cases = [], ga_blocked_use_cases = [''marketing''],
     ga_required_artifact_refs = [], ga_dsl_operation_catalog_version = None, ga_conditions = [''c''],
     ga_expires_at = Some 0, ga_max_uses = Some 3, ga_reviewed_evidence_refs = [], ga_immutable = True\<rparr>"

theorem governance_row_roundtrip_witness:
  "from_feature_version_row (to_feature_version_row sample_attrs ''h'') = sample_attrs"
  using governance_row_roundtrip [of sample_attrs "''h''"] by (simp add: sample_attrs_def)

text \<open>
  Passing the guards of a standard policy means what its thresholds say.  The use case is not
  blocked; for a production activation under a required stamp the version's stamp is at least that
  one on the ladder and every required artifact is present; and the version's risk rank is within the
  ceiling of the use case.
\<close>

theorem guards_passed_meaning:
  assumes "evaluate_activation_guards attrs uc at (Some (policy_evaluate pol)) = Inr None"
  shows "uc \<notin> set (ga_blocked_use_cases attrs)
    \<and> (at = ''PRODUCTION'' \<longrightarrow> (\<forall>stamp. production_required_stamp pol = Some stamp \<longrightarrow>
        projr (index_of VERIFICATION_STAMPS (JStr stamp)) \<le> projr (index_of VERIFICATION_STAMPS (JStr (ga_verification_stamp attrs)))
        \<and> (\<forall>n \<in> set (required_artifacts pol). truthy (dget (ga_required_artifact_refs attrs) n))))
    \<and> (\<forall>ceiling. map_of (use_case_risk_ceiling pol) uc = Some ceiling \<longrightarrow>
        projr (rank_of (risk_tier_ranks pol) (ga_risk_tier attrs)) \<le> projr (rank_of (risk_tier_ranks pol) ceiling))"
proof -
  have p: "policy_evaluate pol attrs uc at = Inr None"
    using assms by (auto simp: evaluate_activation_guards_def guard_or_def chain_eq_Inr split: if_splits)
  then show ?thesis
    using guards_passed_not_blocked [OF assms]
    by (auto simp: policy_evaluate_def Let_def guard_or_def chain_eq_Inr verification_stamp_satisfies_def
        risk_tier_within_ceiling_def split: option.splits if_splits dest!: artifact_guards_passed)
qed

definition sample_policy :: StandardActivationPolicy where
  "sample_policy = \<lparr>production_required_stamp = Some ''DESIGN-CHECKED'', required_artifacts = [],
     use_case_risk_ceiling = [(''credit'', ''high'')], risk_tier_ranks = [(''low'', 1), (''high'', 2)]\<rparr>"

theorem guards_passed_meaning_witness: "''credit'' \<notin> set (ga_blocked_use_cases sample_attrs)"
proof -
  have "evaluate_activation_guards sample_attrs ''credit'' ''PRODUCTION'' (Some (policy_evaluate sample_policy)) = Inr None"
    by (simp add: evaluate_activation_guards_def guard_or_def use_case_not_blocked_def policy_evaluate_def
        sample_attrs_def sample_policy_def verification_stamp_satisfies_def VERIFICATION_STAMPS_def rank_of_def
        risk_tier_within_ceiling_def)
  from guards_passed_meaning [OF this] show ?thesis by simp
qed

text \<open>
  A standard policy that requires artifacts but no stamp does not require them: the artifact guard
  is nested inside the stamp guard, although the class documents each parameter as its own guard.
\<close>

theorem artifacts_need_a_stamp:
  "production_required_stamp pol = None \<longrightarrow> use_case_risk_ceiling pol = [] \<longrightarrow> policy_evaluate pol attrs uc ''PRODUCTION'' = Inr None"
  by (simp add: policy_evaluate_def)

theorem artifacts_need_a_stamp_witness:
  "policy_evaluate (sample_policy\<lparr>production_required_stamp := None, required_artifacts := [''dq_report''], use_case_risk_ceiling := []\<rparr>)
     sample_attrs ''credit'' ''PRODUCTION'' = Inr None"
  using artifacts_need_a_stamp
    [of "sample_policy\<lparr>production_required_stamp := None, required_artifacts := [''dq_report''], use_case_risk_ceiling := []\<rparr>"]
  by simp

end
