(* ===== verification/Features.thy ===== *)
theory Features
  imports Aggregates Governance Work_Tables
begin

text \<open>
  The feature aggregate: minting of frozen versions (\<open>aggregates/feature_versions.py\<close>), the
  activation saga and its timers (\<open>aggregates/activation.py\<close>), consumers, supersession and
  deprecation (\<open>aggregates/consumers.py\<close>), and the monitoring lifecycle
  (\<open>aggregates/feature_lifecycle.py\<close>).  The invariant of the active map \<open>feature_active_versions\<close>
  is \<open>slots_ok\<close>; every operation here and every handler of the other aggregates keeps it.
\<close>

subsection \<open>Feature versions\<close>

definition load_governance_attributes :: "string \<Rightarrow> GovernanceAttributes dbprog" where
  "load_governance_attributes feature_version_id =
     andthen (query (\<lambda>s. find (\<lambda>r. fv_feature_version_id r = feature_version_id) (feature_versions s))) (\<lambda>row.
     case row of None \<Rightarrow> throw KeyError | Some r \<Rightarrow> ret (from_feature_version_row r))"

definition insert_feature_version :: "fv_row \<Rightarrow> unit dbprog" where
  "insert_feature_version row = (\<lambda>s.
     let ids = map fv_feature_version_id (feature_versions s)
     in if fv_verification_stamp row \<notin> set VERIFICATION_STAMPS
          then (Inl (CheckViolation ''feature_versions_verification_stamp_check''), s)
        else if fv_approval_type row \<notin> set APPROVAL_TYPES
          then (Inl (CheckViolation ''feature_versions_approval_type_check''), s)
        else if fv_feature_version_id row \<in> set ids then (Inl (UniqueViolation ''feature_versions_pkey''), s)
        else if \<exists>b \<in> set_option (fv_base_feature_version_id row). b \<notin> insert (fv_feature_version_id row) (set ids)
          then (Inl ForeignKeyViolation, s)
        else (Inr (), s\<lparr>feature_versions := feature_versions s @ [row]\<rparr>))"

text \<open>An event of a feature's own stream, and its \<open>feature_id\<close> column.\<close>

definition feature_event :: "string option \<Rightarrow> string \<Rightarrow> dict \<Rightarrow> IdentityEnvelope \<Rightarrow> append_spec" where
  "feature_event feature_id typ payload actor =
     (event_spec ''feature'' feature_id typ payload actor)\<lparr>ap_feature_id := feature_id\<rparr>"

text \<open>The keyword arguments are the columns of \<open>cols\<close>; the id is minted and the row is frozen.\<close>

definition mint_feature_version :: "env \<Rightarrow> fv_row \<Rightarrow> IdentityEnvelope \<Rightarrow> ProvenanceEnvelope \<Rightarrow> string dbprog" where
  "mint_feature_version E cols actor provenance =
     andthen (mint_id E ''fv'') (\<lambda>fv_id.
     andthen (insert_feature_version (cols\<lparr>fv_feature_version_id := fv_id, fv_immutable := True\<rparr>)) (\<lambda>_.
     andthen (append E ((feature_event (Some (fv_feature_id cols)) ''VERSION_MINTED''
       [(''feature_id'', JStr (fv_feature_id cols)), (''feature_version_id'', JStr fv_id),
        (''produced_by_run'', JStr (fv_produced_by_run cols)),
        (''base_feature_version_id'', ostr (fv_base_feature_version_id cols))] actor)
       \<lparr>ap_provenance := Some provenance, ap_run_id := Some (fv_produced_by_run cols)\<rparr>)) (\<lambda>_.
     ret fv_id)))"

subsection \<open>The active map\<close>

definition slot_of :: "string option \<Rightarrow> string \<Rightarrow> db \<Rightarrow> slot_row option" where
  "slot_of feature_id use_case s =
     find (\<lambda>r. feature_id = Some (sl_feature_id r) \<and> sl_use_case r = use_case) (feature_active_versions s)"

definition current_of :: "string option \<Rightarrow> string \<Rightarrow> db \<Rightarrow> string option" where
  "current_of feature_id use_case s = map_option sl_feature_version_id (slot_of feature_id use_case s)"

text \<open>The target of the composite foreign key.\<close>

definition version_keys :: "db \<Rightarrow> (string \<times> string) set" where
  "version_keys s = (\<lambda>r. (fv_feature_id r, fv_feature_version_id r)) ` set (feature_versions s)"

text \<open>\<open>UPDATE feature_active_versions SET ... WHERE ...\<close>, with the number of rows it changed.\<close>

definition update_slots :: "(slot_row \<Rightarrow> bool) \<Rightarrow> (slot_row \<Rightarrow> slot_row) \<Rightarrow> nat dbprog" where
  "update_slots sel f = (\<lambda>s.
     let hit = filter sel (feature_active_versions s)
     in if list_all (\<lambda>r. (sl_feature_id (f r), sl_feature_version_id (f r)) \<in> version_keys s) hit
        then (Inr (length hit), s\<lparr>feature_active_versions := map (\<lambda>r. if sel r then f r else r) (feature_active_versions s)\<rparr>)
        else (Inl ForeignKeyViolation, s))"

definition slot_is :: "string option \<Rightarrow> string \<Rightarrow> slot_row \<Rightarrow> bool" where
  "slot_is feature_id use_case r \<longleftrightarrow> feature_id = Some (sl_feature_id r) \<and> sl_use_case r = use_case"

definition cas_claim_slot :: "string option \<Rightarrow> string \<Rightarrow> string \<Rightarrow> string option \<Rightarrow> string \<Rightarrow> int \<Rightarrow> bool dbprog" where
  "cas_claim_slot feature_id use_case new_fv base state activated_seq = (\<lambda>s.
     case base of
       None \<Rightarrow>
         (case feature_id of
            None \<Rightarrow> (Inl NotNullViolation, s)
          | Some fid \<Rightarrow>
              if slot_of feature_id use_case s \<noteq> None then (Inr False, s)
              else if (fid, new_fv) \<notin> version_keys s then (Inl ForeignKeyViolation, s)
              else (Inr True, s\<lparr>feature_active_versions := feature_active_versions s @
                [\<lparr>sl_feature_id = fid, sl_use_case = use_case, sl_feature_version_id = new_fv,
                  sl_activation_state = state, sl_activated_seq = activated_seq, sl_activated_at = clock s\<rparr>]\<rparr>))
     | Some b \<Rightarrow>
         andthen (update_slots (\<lambda>r. slot_is feature_id use_case r \<and> sl_feature_version_id r = b)
           (\<lambda>r. r\<lparr>sl_feature_version_id := new_fv, sl_activation_state := state, sl_activated_seq := activated_seq,
                  sl_activated_at := clock s\<rparr>)) (\<lambda>n. ret (n \<noteq> 0)) s)"

definition set_activated_seq :: "string option \<Rightarrow> string \<Rightarrow> int \<Rightarrow> unit dbprog" where
  "set_activated_seq feature_id use_case seq =
     update (\<lambda>s. s\<lparr>feature_active_versions :=
       map (\<lambda>r. if slot_is feature_id use_case r then r\<lparr>sl_activated_seq := seq\<rparr> else r) (feature_active_versions s)\<rparr>)"

subsection \<open>Activation\<close>

record ActivationResult =
  ar_activated :: bool
  ar_conflict :: bool
  ar_feature_version_id :: string
  ar_use_case :: string
  ar_event_id :: string

record SagaStep1Result =
  ss_feature_version_id :: string
  ss_activation_message_id :: string

text \<open>A column of the aggregate that may not be \<open>NULL\<close>.\<close>

definition not_null :: "string option \<Rightarrow> string dbprog" where
  "not_null x = (case x of None \<Rightarrow> throw NotNullViolation | Some v \<Rightarrow> ret v)"

definition schedule_expiry_timer :: "env \<Rightarrow> string option \<Rightarrow> string \<Rightarrow> string \<Rightarrow> int \<Rightarrow> unit dbprog" where
  "schedule_expiry_timer E feature_id feature_version_id use_case expires_at =
     andthen (mint_id E ''tmr'') (\<lambda>timer_id.
     andthen (not_null feature_id) (\<lambda>fid.
     andthen (insert_timer (timer_row_of timer_id (''expiry:'' @ feature_version_id @ '':'' @ use_case) ''feature'' fid
       ''experiment_expiry'' expires_at
       [(''handler'', JStr ''deactivate_expired_version''), (''feature_id'', JStr fid),
        (''feature_version_id'', JStr feature_version_id), (''use_case'', JStr use_case)])) (\<lambda>_.
     ret ())))"

definition activation_result :: "bool \<Rightarrow> bool \<Rightarrow> string \<Rightarrow> string \<Rightarrow> string \<Rightarrow> ActivationResult" where
  "activation_result activated conflict fv use_case event_id =
     \<lparr>ar_activated = activated, ar_conflict = conflict, ar_feature_version_id = fv, ar_use_case = use_case, ar_event_id = event_id\<rparr>"

text \<open>The version and, where given, its base belong to the feature that is to be activated.\<close>

definition same_feature :: "string option \<Rightarrow> string \<Rightarrow> GovernanceAttributes dbprog" where
  "same_feature feature_id feature_version_id =
     andthen (load_governance_attributes feature_version_id) (\<lambda>attrs.
     if Some (ga_feature_id attrs) \<noteq> feature_id then throw ValueError else ret attrs)"

definition claim_and_activate ::
  "env \<Rightarrow> string option \<Rightarrow> string \<Rightarrow> string \<Rightarrow> string option \<Rightarrow> string \<Rightarrow> IdentityEnvelope \<Rightarrow> int option
   \<Rightarrow> ProvenanceEnvelope option \<Rightarrow> ActivationResult dbprog" where
  "claim_and_activate E feature_id fv use_case base approval_type actor expires_at provenance =
     (let activation_state = (if approval_type = ''EXPERIMENTAL'' then ''ACTIVE_EXPERIMENTAL'' else ''PRODUCTION'')
      in andthen (cas_claim_slot feature_id use_case fv base activation_state 0) (\<lambda>won.
         if \<not> won then
           andthen (append E (feature_event feature_id ''ACTIVATION_CONFLICT''
             [(''feature_id'', ostr feature_id), (''feature_version_id'', JStr fv), (''use_case'', JStr use_case),
              (''base_feature_version_id'', ostr base), (''current_active_version_id'', JNull),
              (''reason'', JStr ''lost_cas_race'')] actor)) (\<lambda>evt.
           ret (activation_result False True fv use_case (ev_event_id evt)))
         else
           andthen (append E ((feature_event feature_id ''VERSION_ACTIVATED''
             [(''feature_id'', ostr feature_id), (''feature_version_id'', JStr fv), (''use_case'', JStr use_case),
              (''base_feature_version_id'', ostr base), (''activation_state'', JStr activation_state)] actor)
             \<lparr>ap_provenance := provenance\<rparr>)) (\<lambda>evt.
           andthen (set_activated_seq feature_id use_case (ev_global_seq evt)) (\<lambda>_.
           andthen (case expires_at of
               Some t \<Rightarrow> if activation_state = ''ACTIVE_EXPERIMENTAL'' then schedule_expiry_timer E feature_id fv use_case t else ret ()
             | None \<Rightarrow> ret ()) (\<lambda>_.
           ret (activation_result True False fv use_case (ev_event_id evt)))))))"

text \<open>The reads before anything is written: ownership of the version and of the base, then the guards.\<close>

definition check_activation ::
  "string option \<Rightarrow> string \<Rightarrow> string \<Rightarrow> string option \<Rightarrow> string \<Rightarrow> activation_policy option \<Rightarrow> GuardFailure option dbprog" where
  "check_activation feature_id fv use_case base approval_type policy =
     andthen (same_feature feature_id fv) (\<lambda>attrs.
     andthen (case base of None \<Rightarrow> ret attrs | Some b \<Rightarrow> same_feature feature_id b) (\<lambda>_.
     lift (evaluate_activation_guards attrs use_case approval_type policy)))"

definition apply_activation ::
  "env \<Rightarrow> string option \<Rightarrow> string \<Rightarrow> string \<Rightarrow> string option \<Rightarrow> string \<Rightarrow> IdentityEnvelope \<Rightarrow> int option
   \<Rightarrow> ProvenanceEnvelope option \<Rightarrow> activation_policy option \<Rightarrow> ActivationResult dbprog" where
  "apply_activation E feature_id fv use_case base approval_type actor expires_at provenance policy =
     andthen (query (current_of feature_id use_case)) (\<lambda>current.
     if current = Some fv then ret (activation_result True False fv use_case [])
     else
       andthen (check_activation feature_id fv use_case base approval_type policy) (\<lambda>failure.
       case failure of
         Some f \<Rightarrow>
           andthen (append E (feature_event feature_id ''ACTIVATION_BLOCKED''
             [(''feature_id'', ostr feature_id), (''feature_version_id'', JStr fv), (''use_case'', JStr use_case),
              (''base_feature_version_id'', ostr base), (''approval_type'', JStr approval_type),
              (''guard'', JStr (gf_guard f)), (''guard_inputs'', JObj (gf_inputs f)), (''guard_result'', JBool (gf_result f))] actor)) (\<lambda>evt.
           ret (activation_result False False fv use_case (ev_event_id evt)))
       | None \<Rightarrow>
           if current \<noteq> base then
             andthen (append E (feature_event feature_id ''ACTIVATION_CONFLICT''
               [(''feature_id'', ostr feature_id), (''feature_version_id'', JStr fv), (''use_case'', JStr use_case),
                (''base_feature_version_id'', ostr base), (''current_active_version_id'', ostr current)] actor)) (\<lambda>evt.
             ret (activation_result False True fv use_case (ev_event_id evt)))
           else claim_and_activate E feature_id fv use_case base approval_type actor expires_at provenance))"

text \<open>
  \<open>args.get("expires_at")\<close> is a \<open>datetime\<close> or \<open>None\<close>; an instant among the arguments is its number.
\<close>

fun opt_time :: "json \<Rightarrow> exn + int option" where
  "opt_time JNull = Inr None"
| "opt_time (JInt t) = Inr (Some t)"
| "opt_time _ = Inl TypeError"

definition activate_command :: handler where
  "activate_command E cmd =
     andthen (lift (dict_str (cm_args cmd) ''feature_version_id'')) (\<lambda>fv.
     andthen (lift (dict_str (cm_args cmd) ''use_case'')) (\<lambda>use_case.
     andthen (lift (opt_str (dget (cm_args cmd) ''base_feature_version_id''))) (\<lambda>base.
     andthen (lift (dict_str (cm_args cmd) ''approval_type'')) (\<lambda>approval_type.
     andthen (lift (opt_time (dget (cm_args cmd) ''expires_at''))) (\<lambda>expires_at.
     andthen (apply_activation E (cm_aggregate_id cmd) fv use_case base approval_type (cm_actor cmd) expires_at None None) (\<lambda>res.
     ret (accept (cm_aggregate_id cmd) (if ar_event_id res = [] then [] else [ar_event_id res]))))))))"

definition request_activation ::
  "env \<Rightarrow> string \<Rightarrow> string \<Rightarrow> string \<Rightarrow> string option \<Rightarrow> string \<Rightarrow> string \<Rightarrow> IdentityEnvelope \<Rightarrow> int option \<Rightarrow> string dbprog" where
  "request_activation E feature_id fv use_case base approval_type produced_by_run actor expires_at =
     andthen (append E ((run_event (Some produced_by_run) ''ACTIVATION_REQUESTED''
       [(''run_id'', JStr produced_by_run), (''feature_id'', JStr feature_id), (''feature_version_id'', JStr fv),
        (''use_case'', JStr use_case), (''base_feature_version_id'', ostr base), (''approval_type'', JStr approval_type),
        (''expires_at'', ostr (map_option isoformat expires_at))] actor)\<lparr>ap_feature_id := Some feature_id\<rparr>)) (\<lambda>req.
     (let message_id = ''activate:'' @ fv @ '':'' @ use_case
      in andthen (insert_queue message_id (''feature:'' @ feature_id) ''activate_version''
           [(''run_id'', JStr produced_by_run), (''event_id'', JStr (ev_event_id req))]) (\<lambda>_.
         ret message_id)))"

definition on_run_approved ::
  "env \<Rightarrow> fv_row \<Rightarrow> string \<Rightarrow> IdentityEnvelope \<Rightarrow> ProvenanceEnvelope \<Rightarrow> SagaStep1Result dbprog" where
  "on_run_approved E cols use_case actor provenance =
     andthen (mint_feature_version E cols actor provenance) (\<lambda>fv_id.
     andthen (request_activation E (fv_feature_id cols) fv_id use_case (fv_base_feature_version_id cols)
       (fv_approval_type cols) (fv_produced_by_run cols) actor (fv_expires_at cols)) (\<lambda>message_id.
     ret \<lparr>ss_feature_version_id = fv_id, ss_activation_message_id = message_id\<rparr>))"

definition deactivate_expired_version_command :: handler where
  "deactivate_expired_version_command E cmd =
     andthen (lift (dict_str (cm_args cmd) ''feature_version_id'')) (\<lambda>fv.
     andthen (lift (dict_str (cm_args cmd) ''use_case'')) (\<lambda>use_case.
     andthen (query (slot_of (cm_aggregate_id cmd) use_case)) (\<lambda>row.
     if (case row of None \<Rightarrow> True
         | Some r \<Rightarrow> sl_feature_version_id r \<noteq> fv \<or> sl_activation_state r \<noteq> ''ACTIVE_EXPERIMENTAL'')
     then ret (accept (cm_aggregate_id cmd) [])
     else
       andthen (append E (feature_event (cm_aggregate_id cmd) ''VERSION_EXPIRED''
         [(''feature_id'', ostr (cm_aggregate_id cmd)), (''feature_version_id'', JStr fv), (''use_case'', JStr use_case)]
         (cm_actor cmd))) (\<lambda>evt.
       andthen (update (\<lambda>s. s\<lparr>feature_active_versions :=
         filter (\<lambda>r. \<not> slot_is (cm_aggregate_id cmd) use_case r) (feature_active_versions s)\<rparr>)) (\<lambda>_.
       ret (accept (cm_aggregate_id cmd) [ev_event_id evt]))))))"

subsection \<open>Consumers, supersession and deprecation\<close>

definition insert_consumer :: "consumer_row \<Rightarrow> string dbprog" where
  "insert_consumer row = (\<lambda>s.
     let same = (\<lambda>r. co_feature_id r = co_feature_id row \<and> co_consumer_kind r = co_consumer_kind row
                    \<and> co_consumer_ref r = co_consumer_ref row)
     in if co_consumer_kind row \<notin> {''model'', ''feature''} then (Inl (CheckViolation ''consumers_consumer_kind_check''), s)
        else case find same (consumers s) of
          Some r \<Rightarrow> (Inr (co_consumer_id r), s\<lparr>consumers :=
            map (\<lambda>r. if same r then r\<lparr>co_edge_status := ''active'', co_deregistered_at := None\<rparr> else r) (consumers s)\<rparr>)
        | None \<Rightarrow>
            if co_consumer_id row \<in> co_consumer_id ` set (consumers s) then (Inl (UniqueViolation ''consumers_pkey''), s)
            else if \<exists>v \<in> set_option (co_feature_version_id row). v \<notin> fv_feature_version_id ` set (feature_versions s)
            then (Inl ForeignKeyViolation, s)
            else (Inr (co_consumer_id row), s\<lparr>consumers := consumers s @ [row]\<rparr>))"

definition consumer_payload :: "string option \<Rightarrow> string option \<Rightarrow> string \<Rightarrow> string \<Rightarrow> dict" where
  "consumer_payload feature_id consumer_id kind ref =
     [(''feature_id'', ostr feature_id), (''consumer_id'', ostr consumer_id), (''consumer_kind'', JStr kind), (''consumer_ref'', JStr ref)]"

definition register_consumer_command :: handler where
  "register_consumer_command E cmd =
     andthen (mint_id E ''con'') (\<lambda>new_id.
     andthen (lift (opt_str (dget (cm_args cmd) ''feature_version_id''))) (\<lambda>fv.
     andthen (lift (dict_str (cm_args cmd) ''consumer_kind'')) (\<lambda>kind.
     andthen (lift (dict_str (cm_args cmd) ''consumer_ref'')) (\<lambda>ref.
     andthen (not_null (cm_aggregate_id cmd)) (\<lambda>fid.
     andthen (insert_consumer \<lparr>co_consumer_id = new_id, co_feature_id = fid, co_feature_version_id = fv,
       co_consumer_kind = kind, co_consumer_ref = ref, co_edge_status = ''active'',
       co_registered_by = identity_to_jsonb (cm_actor cmd), co_deregistered_at = None\<rparr>) (\<lambda>consumer_id.
     append_accept E (feature_event (cm_aggregate_id cmd) ''CONSUMER_REGISTERED''
       (consumer_payload (cm_aggregate_id cmd) (Some consumer_id) kind ref) (cm_actor cmd)) (cm_aggregate_id cmd)))))))"

definition deregister_rows :: "string option \<Rightarrow> string \<Rightarrow> string \<Rightarrow> string option dbprog" where
  "deregister_rows feature_id kind ref = (\<lambda>s.
     let sel = (\<lambda>r. feature_id = Some (co_feature_id r) \<and> co_consumer_kind r = kind \<and> co_consumer_ref r = ref)
     in (Inr (map_option co_consumer_id (find sel (consumers s))),
         s\<lparr>consumers := map (\<lambda>r. if sel r then r\<lparr>co_edge_status := ''deregistered'', co_deregistered_at := Some (clock s)\<rparr> else r)
             (consumers s)\<rparr>))"

definition deregister_consumer_command :: handler where
  "deregister_consumer_command E cmd =
     andthen (lift (dict_str (cm_args cmd) ''consumer_kind'')) (\<lambda>kind.
     andthen (lift (dict_str (cm_args cmd) ''consumer_ref'')) (\<lambda>ref.
     andthen (deregister_rows (cm_aggregate_id cmd) kind ref) (\<lambda>consumer_id.
     append_accept E (feature_event (cm_aggregate_id cmd) ''CONSUMER_DEREGISTERED''
       (consumer_payload (cm_aggregate_id cmd) consumer_id kind ref) (cm_actor cmd)) (cm_aggregate_id cmd))))"

definition promote_slot :: "env \<Rightarrow> Command \<Rightarrow> string \<Rightarrow> string \<Rightarrow> string \<Rightarrow> string option \<Rightarrow> CommandResult dbprog" where
  "promote_slot E cmd use_case new_fv expected_prior prior =
     andthen (query clock) (\<lambda>now.
     andthen (update_slots (\<lambda>r. slot_is (cm_aggregate_id cmd) use_case r \<and> sl_feature_version_id r = expected_prior)
       (\<lambda>r. r\<lparr>sl_feature_version_id := new_fv, sl_activation_state := ''PRODUCTION'', sl_activated_seq := 0,
              sl_activated_at := now\<rparr>)) (\<lambda>updated.
     if updated = 0 then ret (refuse (cm_aggregate_id cmd) ''supersede CAS conflict'')
     else
       andthen (append E (feature_event (cm_aggregate_id cmd) ''VERSION_SUPERSEDED''
         [(''feature_id'', ostr (cm_aggregate_id cmd)), (''feature_version_id'', JStr new_fv),
          (''superseded_version_id'', ostr prior), (''use_case'', JStr use_case)] (cm_actor cmd))) (\<lambda>evt.
       andthen (set_activated_seq (cm_aggregate_id cmd) use_case (ev_global_seq evt)) (\<lambda>_.
       ret (accept (cm_aggregate_id cmd) [ev_event_id evt])))))"

definition supersede_command :: handler where
  "supersede_command E cmd =
     andthen (lift (dict_str (cm_args cmd) ''use_case'')) (\<lambda>use_case.
     andthen (lift (dict_str (cm_args cmd) ''feature_version_id'')) (\<lambda>new_fv.
     if \<not> truthy (dget (cm_args cmd) ''expected_prior'')
     then ret (refuse (cm_aggregate_id cmd) ''supersede requires expected_prior (CAS)'')
     else
       andthen (query (current_of (cm_aggregate_id cmd) use_case)) (\<lambda>prior.
       andthen (load_governance_attributes new_fv) (\<lambda>attrs.
       andthen (lift (evaluate_activation_guards attrs use_case ''PRODUCTION'' None)) (\<lambda>failure.
       case failure of
         Some f \<Rightarrow>
           append_accept E (feature_event (cm_aggregate_id cmd) ''ACTIVATION_BLOCKED''
             [(''feature_id'', ostr (cm_aggregate_id cmd)), (''feature_version_id'', JStr new_fv), (''use_case'', JStr use_case),
              (''approval_type'', JStr ''PRODUCTION''), (''guard'', JStr (gf_guard f)), (''guard_inputs'', JObj (gf_inputs f)),
              (''guard_result'', JBool (gf_result f))] (cm_actor cmd)) (cm_aggregate_id cmd)
       | None \<Rightarrow>
           andthen (lift (dict_str (cm_args cmd) ''expected_prior'')) (\<lambda>expected_prior.
           promote_slot E cmd use_case new_fv expected_prior prior))))))"

definition deprecate_now :: "string \<Rightarrow> handler" where
  "deprecate_now via E cmd =
     andthen (lift (dict_str (cm_args cmd) ''use_case'')) (\<lambda>use_case.
     andthen (lift (dict_str (cm_args cmd) ''feature_version_id'')) (\<lambda>fv.
     andthen (append E (feature_event (cm_aggregate_id cmd) ''VERSION_DEPRECATED''
       [(''feature_id'', ostr (cm_aggregate_id cmd)), (''feature_version_id'', JStr fv), (''use_case'', JStr use_case),
        (''reason'', dget (cm_args cmd) ''reason''), (''via'', JStr via)] (cm_actor cmd))) (\<lambda>evt.
     andthen (update_slots (\<lambda>r. slot_is (cm_aggregate_id cmd) use_case r \<and> sl_feature_version_id r = fv)
       (\<lambda>r. r\<lparr>sl_activation_state := ''DEPRECATED''\<rparr>)) (\<lambda>_.
     ret (accept (cm_aggregate_id cmd) [ev_event_id evt])))))"

definition active_refs :: "string option \<Rightarrow> db \<Rightarrow> string list" where
  "active_refs feature_id s =
     map co_consumer_ref (filter (\<lambda>r. feature_id = Some (co_feature_id r) \<and> co_edge_status r = ''active'') (consumers s))"

definition DEFAULT_GRACE_SECONDS :: int where
  "DEFAULT_GRACE_SECONDS = 7 * 24 * 3600"

definition quiesce :: "env \<Rightarrow> Command \<Rightarrow> string \<Rightarrow> string \<Rightarrow> string list \<Rightarrow> CommandResult dbprog" where
  "quiesce E cmd use_case fv refs =
     andthen (lift (py_int (dget_or (cm_args cmd) ''grace_seconds'' (JInt DEFAULT_GRACE_SECONDS)))) (\<lambda>grace_seconds.
     andthen (append E (feature_event (cm_aggregate_id cmd) ''VERSION_QUIESCED''
       [(''feature_id'', ostr (cm_aggregate_id cmd)), (''feature_version_id'', JStr fv), (''use_case'', JStr use_case),
        (''impacted_consumers'', JArr (map JStr refs)), (''grace_seconds'', JInt grace_seconds),
        (''reason'', dget (cm_args cmd) ''reason'')] (cm_actor cmd))) (\<lambda>quiesced.
     andthen (query clock) (\<lambda>now.
     andthen (mint_id E ''tmr'') (\<lambda>timer_id.
     andthen (not_null (cm_aggregate_id cmd)) (\<lambda>fid.
     andthen (insert_timer (timer_row_of timer_id (''quiesce:'' @ fv @ '':'' @ use_case) ''feature'' fid ''business_repair''
       (now + grace_seconds * 1000000)
       [(''handler'', JStr ''finalize_deprecate''), (''feature_id'', JStr fid), (''feature_version_id'', JStr fv),
        (''use_case'', JStr use_case)])) (\<lambda>_.
     ret (accept (cm_aggregate_id cmd) [ev_event_id quiesced])))))))"

definition deprecate_command :: handler where
  "deprecate_command E cmd =
     andthen (lift (dict_str (cm_args cmd) ''use_case'')) (\<lambda>use_case.
     andthen (lift (dict_str (cm_args cmd) ''feature_version_id'')) (\<lambda>fv.
     andthen (query (active_refs (cm_aggregate_id cmd))) (\<lambda>refs.
     if refs \<noteq> [] \<and> \<not> truthy (dget (cm_args cmd) ''force_quiesce'')
     then ret (refuse (cm_aggregate_id cmd) (''deprecate blocked: '' @ dec (length refs) @ '' active consumer(s)''))
     else if refs \<noteq> [] then quiesce E cmd use_case fv refs
     else deprecate_now ''direct'' E cmd)))"

definition finalize_deprecate_command :: handler where
  "finalize_deprecate_command E cmd =
     andthen (lift (dict_str (cm_args cmd) ''use_case'')) (\<lambda>use_case.
     andthen (lift (dict_str (cm_args cmd) ''feature_version_id'')) (\<lambda>fv.
     andthen (query (slot_of (cm_aggregate_id cmd) use_case)) (\<lambda>row.
     if (case row of None \<Rightarrow> True | Some r \<Rightarrow> sl_feature_version_id r \<noteq> fv \<or> sl_activation_state r = ''DEPRECATED'')
     then ret (accept (cm_aggregate_id cmd) [])
     else deprecate_now ''quiesce'' E cmd)))"

definition retier_command :: handler where
  "retier_command E cmd =
     andthen (lift (dict_str (cm_args cmd) ''feature_version_id'')) (\<lambda>fv.
     andthen (query (\<lambda>s. map_option fv_risk_tier (find (\<lambda>r. fv_feature_version_id r = fv) (feature_versions s)))) (\<lambda>old_tier.
     andthen (lift (dict_item (cm_args cmd) ''new_risk_tier'')) (\<lambda>new_tier.
     append_accept E (feature_event (cm_aggregate_id cmd) ''VERSION_RETIERED''
       [(''feature_id'', ostr (cm_aggregate_id cmd)), (''feature_version_id'', JStr fv), (''old_risk_tier'', ostr old_tier),
        (''new_risk_tier'', new_tier), (''requested_by'', dget (cm_args cmd) ''requested_by'')] (cm_actor cmd))
       (cm_aggregate_id cmd))))"

subsection \<open>Monitoring and revalidation\<close>

definition LIFECYCLE_TYPES :: "string list" where
  "LIFECYCLE_TYPES = [''MONITORING_ALERT_RAISED'', ''REVALIDATION_REQUIRED'', ''REVALIDATION_OUTCOME_RECORDED'']"

definition last_lifecycle :: "env \<Rightarrow> string option \<Rightarrow> string option dbprog" where
  "last_lifecycle E feature_id =
     andthen (load_stream E ''feature'' feature_id) (\<lambda>stream.
     ret (map_option ev_type (find (\<lambda>e. ev_type e \<in> set LIFECYCLE_TYPES) (rev stream))))"

definition raise_monitoring_alert_command :: handler where
  "raise_monitoring_alert_command E cmd =
     append_accept E (feature_event (cm_aggregate_id cmd) ''MONITORING_ALERT_RAISED''
       [(''feature_id'', ostr (cm_aggregate_id cmd)), (''feature_version_id'', dget (cm_args cmd) ''feature_version_id''),
        (''alert_ref'', dget (cm_args cmd) ''alert_ref'')] (cm_actor cmd)) (cm_aggregate_id cmd)"

definition require_revalidation_command :: handler where
  "require_revalidation_command E cmd =
     andthen (last_lifecycle E (cm_aggregate_id cmd)) (\<lambda>latest.
     if latest \<noteq> Some ''MONITORING_ALERT_RAISED''
     then ret (refuse (cm_aggregate_id cmd) ''require_revalidation requires a prior MONITORING_ALERT'')
     else append_accept E (feature_event (cm_aggregate_id cmd) ''REVALIDATION_REQUIRED''
       [(''feature_id'', ostr (cm_aggregate_id cmd)), (''feature_version_id'', dget (cm_args cmd) ''feature_version_id''),
        (''reason'', dget (cm_args cmd) ''reason'')] (cm_actor cmd)) (cm_aggregate_id cmd))"

definition record_outcome :: "env \<Rightarrow> Command \<Rightarrow> json \<Rightarrow> string option \<Rightarrow> CommandResult dbprog" where
  "record_outcome E cmd outcome fv =
     andthen (if outcome = JStr ''requires_change'' then
         andthen (mint_id E ''run'') (\<lambda>new_run.
         andthen (lift (opt_str (dget (cm_args cmd) ''request_id''))) (\<lambda>request_id.
         andthen (append E ((run_event (Some new_run) ''RUN_CREATED''
           [(''run_id'', JStr new_run), (''request_id'', ostr request_id), (''feature_id'', ostr (cm_aggregate_id cmd)),
            (''reopened_from'', JNull), (''origin'', JStr ''revalidation'')] (cm_actor cmd))
           \<lparr>ap_request_id := request_id, ap_feature_id := cm_aggregate_id cmd, ap_expected_version := Some 0\<rparr>)) (\<lambda>created.
         ret (Some new_run, [ev_event_id created]))))
       else ret (None, [])) (\<lambda>(new_run, produced).
     andthen (append E (feature_event (cm_aggregate_id cmd) ''REVALIDATION_OUTCOME_RECORDED''
       [(''feature_id'', ostr (cm_aggregate_id cmd)), (''feature_version_id'', ostr fv), (''outcome'', outcome),
        (''new_run_id'', ostr new_run)] (cm_actor cmd))) (\<lambda>evt.
     ret (accept (cm_aggregate_id cmd) (produced @ [ev_event_id evt]))))"

definition record_revalidation_outcome_command :: handler where
  "record_revalidation_outcome_command E cmd =
     andthen (lift (dict_item (cm_args cmd) ''outcome'')) (\<lambda>outcome.
     andthen (lift (opt_str (dget (cm_args cmd) ''feature_version_id''))) (\<lambda>fv.
     andthen (last_lifecycle E (cm_aggregate_id cmd)) (\<lambda>latest.
     if latest \<noteq> Some ''REVALIDATION_REQUIRED''
     then ret (refuse (cm_aggregate_id cmd) ''record_revalidation_outcome requires REVALIDATION_REQUIRED'')
     else if outcome = JStr ''deprecate'' \<and> fv = None
     then ret (refuse (cm_aggregate_id cmd) ''deprecate outcome requires feature_version_id'')
     else if outcome = JStr ''deprecate'' then
       andthen (update_slots (\<lambda>r. cm_aggregate_id cmd = Some (sl_feature_id r) \<and> fv = Some (sl_feature_version_id r))
         (\<lambda>r. r\<lparr>sl_activation_state := ''DEPRECATED''\<rparr>)) (\<lambda>updated.
       if updated = 0
       then ret (refuse (cm_aggregate_id cmd) ''deprecate outcome matched no active version (already superseded?)'')
       else record_outcome E cmd outcome fv)
     else record_outcome E cmd outcome fv)))"

subsection \<open>Timer commands\<close>

definition TIMER_RUNTIME_ACTOR :: IdentityEnvelope where
  "TIMER_RUNTIME_ACTOR = mint_trusted_identity
     \<lparr>subject = ''service:timer-runtime'', actor_kind = ''service'', authenticated = False, auth_method = ''internal'',
      role_claims = [], groups = [], tenant = None, on_behalf_of = None, impersonation = None, break_glass = False,
      source_of_authority = None, attestation = Some ''internal-trust-root:timer-runtime''\<rparr>"

definition TIMER_COMMAND_ALLOWLIST :: "string list" where
  "TIMER_COMMAND_ALLOWLIST = [''deactivate_expired_version'', ''finalize_deprecate'']"

definition dispatch_timer_command :: "(string \<Rightarrow> handler option) \<Rightarrow> env \<Rightarrow> dict \<Rightarrow> CommandResult dbprog" where
  "dispatch_timer_command get_command E payload =
     andthen (lift (dict_item payload ''handler'')) (\<lambda>action.
     if action \<notin> JStr ` set TIMER_COMMAND_ALLOWLIST then throw DisallowedTimerCommand
     else
       andthen (lift (dict_str payload ''handler'')) (\<lambda>act.
       andthen (lift (dict_str payload ''feature_id'')) (\<lambda>fid.
       andthen (lift (dict_item payload ''feature_version_id'')) (\<lambda>fv.
       andthen (lift (dict_item payload ''use_case'')) (\<lambda>use_case.
       andthen (lift (dict_str payload ''timer_id'')) (\<lambda>timer_id.
       case get_command act of
         None \<Rightarrow> throw KeyError
       | Some h \<Rightarrow> h E \<lparr>cm_action = act, cm_aggregate = ''feature'', cm_aggregate_id = Some fid,
           cm_args = [(''feature_version_id'', fv), (''use_case'', use_case)], cm_actor = TIMER_RUNTIME_ACTOR,
           cm_idempotency_key = ''timer-cmd:'' @ timer_id, cm_expected_version = None\<rparr>))))))"

subsection \<open>The invariant of the active map\<close>

definition slot_ok :: "db \<Rightarrow> slot_row \<Rightarrow> bool" where
  "slot_ok s r \<longleftrightarrow> sl_activation_state r \<in> {''ACTIVE_EXPERIMENTAL'', ''PRODUCTION'', ''DEPRECATED''}
     \<and> (\<exists>v \<in> set (feature_versions s). fv_feature_version_id v = sl_feature_version_id r
          \<and> fv_feature_id v = sl_feature_id r \<and> sl_use_case r \<notin> set (fv_blocked_use_cases v))"

abbreviation slot_key :: "slot_row \<Rightarrow> string \<times> string" where
  "slot_key r \<equiv> (sl_feature_id r, sl_use_case r)"

definition slots_ok :: "db \<Rightarrow> bool" where
  "slots_ok s \<longleftrightarrow> distinct (map fv_feature_version_id (feature_versions s))
     \<and> distinct (map slot_key (feature_active_versions s)) \<and> (\<forall>r \<in> set (feature_active_versions s). slot_ok s r)"

text \<open>One step: versions are never changed or removed, and the invariant is kept.\<close>

definition slot_step :: "db \<Rightarrow> db \<Rightarrow> bool" where
  "slot_step s s' \<longleftrightarrow> prefix (feature_versions s) (feature_versions s') \<and> (slots_ok s \<longrightarrow> slots_ok s')"

interpretation slots: state_rel slot_step
  by unfold_locales (auto simp: slot_step_def dest: prefix_order.trans)

lemma slot_step_frame:
  assumes "feature_versions s' = feature_versions s" "feature_active_versions s' = feature_active_versions s"
  shows "slot_step s s'"
  using assms by (auto simp: slot_step_def slots_ok_def slot_ok_def)

text \<open>Removing rows, or changing rows in place without their keys.\<close>

lemma slot_step_filter: "slot_step s (s\<lparr>feature_active_versions := filter P (feature_active_versions s)\<rparr>)"
  by (auto simp: slot_step_def slots_ok_def slot_ok_def distinct_map_filter)

lemma slot_step_map:
  assumes key: "\<And>r. slot_key (g r) = slot_key r"
    and ok: "\<And>r. slots_ok s \<Longrightarrow> r \<in> set (feature_active_versions s) \<Longrightarrow> slot_ok s r \<Longrightarrow> slot_ok s (g r)"
  shows "slot_step s (s\<lparr>feature_active_versions := map g (feature_active_versions s)\<rparr>)"
proof -
  have "map slot_key (map g xs) = map slot_key xs" for xs
    using key by simp
  moreover have "slot_ok (s\<lparr>feature_active_versions := xs\<rparr>) = slot_ok s" for xs
    by (auto simp: slot_ok_def fun_eq_iff)
  ultimately show ?thesis
    using ok by (simp add: slot_step_def slots_ok_def del: map_map)
qed

lemma update_slots_step:
  assumes "\<And>r. slot_key (f r) = slot_key r"
    and "\<And>r. slots_ok s \<Longrightarrow> sel r \<Longrightarrow> slot_ok s r \<Longrightarrow> (sl_feature_id r, sl_feature_version_id (f r)) \<in> version_keys s \<Longrightarrow> slot_ok s (f r)"
  shows "slot_step s (snd (update_slots sel f s))"
proof -
  have "slot_step s (s\<lparr>feature_active_versions := map (\<lambda>r. if sel r then f r else r) (feature_active_versions s)\<rparr>)"
    if "list_all (\<lambda>r. (sl_feature_id (f r), sl_feature_version_id (f r)) \<in> version_keys s) (filter sel (feature_active_versions s))"
    using assms that by (intro slot_step_map) (auto simp: list_all_iff)
  then show ?thesis
    by (simp add: update_slots_def Let_def slots.rel_refl)
qed

text \<open>A version whose guards have been looked at for a use case.\<close>

definition vetted :: "string \<Rightarrow> string \<Rightarrow> db \<Rightarrow> bool" where
  "vetted fv use_case s \<longleftrightarrow> (\<exists>v. find (\<lambda>r. fv_feature_version_id r = fv) (feature_versions s) = Some v
     \<and> use_case \<notin> set (fv_blocked_use_cases v))"

lemma vetted_slot_ok:
  assumes "slots_ok s" "vetted fv (sl_use_case r) s" "sl_feature_version_id r = fv" "(sl_feature_id r, fv) \<in> version_keys s"
    and "sl_activation_state r \<in> {''ACTIVE_EXPERIMENTAL'', ''PRODUCTION'', ''DEPRECATED''}"
  shows "slot_ok s r"
proof -
  obtain v where v: "v \<in> set (feature_versions s)" "fv_feature_version_id v = fv" "sl_use_case r \<notin> set (fv_blocked_use_cases v)"
    using assms(2) by (auto simp: vetted_def find_Some_iff intro: nth_mem)
  obtain w where w: "w \<in> set (feature_versions s)" "fv_feature_version_id w = fv" "fv_feature_id w = sl_feature_id r"
    using assms(4) by (auto simp: version_keys_def)
  have "v = w"
    using assms(1) v w by (auto simp: slots_ok_def distinct_map inj_on_def)
  then show ?thesis
    using v w assms(3,5) by (auto simp: slot_ok_def)
qed

lemma cas_claim_slot_step:
  assumes "vetted new_fv use_case s" "state \<in> {''ACTIVE_EXPERIMENTAL'', ''PRODUCTION''}"
  shows "slot_step s (snd (cas_claim_slot feature_id use_case new_fv base state n s))"
proof (cases base)
  case None
  have "slot_step s (s\<lparr>feature_active_versions := feature_active_versions s @ [r]\<rparr>)"
    if "sl_use_case r = use_case" "sl_feature_version_id r = new_fv" "sl_activation_state r = state"
      "(sl_feature_id r, new_fv) \<in> version_keys s" "slot_of (Some (sl_feature_id r)) use_case s = None" for r
  proof -
    have "slot_ok s r" if "slots_ok s"
      using vetted_slot_ok [OF that, of new_fv r] assms \<open>sl_use_case r = _\<close> \<open>sl_feature_version_id r = _\<close>
        \<open>sl_activation_state r = _\<close> \<open>_ \<in> version_keys s\<close> by auto
    moreover have "slot_key r \<notin> slot_key ` set (feature_active_versions s)"
      using that by (auto simp: slot_of_def find_None_iff)
    moreover have "slot_ok (s\<lparr>feature_active_versions := xs\<rparr>) = slot_ok s" for xs
      by (auto simp: slot_ok_def fun_eq_iff)
    ultimately show ?thesis
      by (auto simp: slot_step_def slots_ok_def)
  qed
  then show ?thesis
    using None by (auto simp: cas_claim_slot_def slots.rel_refl split: option.splits)
next
  case (Some b)
  let ?f = "\<lambda>r. r\<lparr>sl_feature_version_id := new_fv, sl_activation_state := state, sl_activated_seq := n, sl_activated_at := clock s\<rparr>"
  have "slot_step s (snd (update_slots (\<lambda>r. slot_is feature_id use_case r \<and> sl_feature_version_id r = b) ?f s))"
    by (rule update_slots_step)
       (use assms in \<open>auto simp: slot_is_def intro!: vetted_slot_ok\<close>)
  then show ?thesis
    using Some by (auto simp: cas_claim_slot_def andthen_def split: prod.splits sum.splits)
qed

lemma append_slot_step: "slot_step s (snd (append E sp s))"
proof -
  obtain r s' where a: "append E sp s = (r, s')" by fastforce
  show ?thesis
    using slot_step_frame [OF append_frame(2,3) [OF a]] a by simp
qed

lemma keeps_append_slot: "keeps slot_step (append E sp)"
  by (rule keepsI) (rule append_slot_step)

lemma keeps_load_slot: "keeps slot_step (load_stream_with F agg aid u expected)"
  by (rule keepsI) (simp add: load_stream_state slots.rel_refl)

lemma keeps_mint_slot: "keeps slot_step (mint_id F pre)"
  by (rule keepsI) (simp add: mint_id_def slot_step_frame)

lemma keeps_claim_slot: "keeps slot_step (claim_concept k r)"
  by (rule keepsI) (auto simp: claim_concept_def intro!: slot_step_frame split: option.splits)

lemma keeps_terminal_slot: "keeps slot_step (terminal_command typ E cmd)"
  unfolding terminal_command_def run_is_terminal_def append_accept_def
  by (intro slots.keeps_rules keeps_append_slot keeps_load_slot)

lemma keeps_sibling_slot: "keeps slot_step (close_sibling E cmd rq sel run)"
  unfolding close_sibling_def run_is_terminal_def
  by (intro slots.keeps_rules keeps_append_slot keeps_load_slot)

interpretation slot_handlers: aggregate_rel slot_step E for E
  by unfold_locales (rule keeps_append_slot keeps_load_slot keeps_mint_slot keeps_claim_slot keeps_terminal_slot keeps_sibling_slot)+

subsection \<open>What every feature operation keeps\<close>

lemma ends_no_run_feature [simp]: "ends_no_run (feature_event fid typ p a)"
  by (simp add: feature_event_def)

text \<open>
  The interface of the feature commands to the store.  Beside what the aggregates rely on, the
  relation is kept by each table write of this theory and by the two operations that promote a
  version; then it is kept by every feature command.
\<close>

locale feature_rel = aggregate_rel R E for R :: "db \<Rightarrow> db \<Rightarrow> bool" and E :: env +
  assumes new_timers: "keeps R (insert_timer row)"
    and new_messages: "keeps R (insert_queue m p h d)"
    and new_consumers: "keeps R (insert_consumer c)"
    and deregisters: "keeps R (deregister_rows fid kind ref)"
    and new_versions: "keeps R (insert_feature_version v)"
    and deprecates: "keeps R (update_slots sel (\<lambda>r. r\<lparr>sl_activation_state := ''DEPRECATED''\<rparr>))"
    and removes: "keeps R (update (\<lambda>s. s\<lparr>feature_active_versions := filter P (feature_active_versions s)\<rparr>))"
    and activations: "keeps R (apply_activation E feature_id fv uc base at actor expires prov policy)"
    and supersedes: "keeps R (supersede_command E cmd)"
begin

lemma not_nulls: "keeps R (not_null x)"
  by (auto simp: not_null_def intro: keeps_rules split: option.splits)

lemmas feature_rules = rules new_timers new_messages new_consumers deregisters new_versions deprecates removes
  activations not_nulls

lemma mint_version: "keeps R (mint_feature_version E cols a p)"
  unfolding mint_feature_version_def by (intro feature_rules) simp_all

lemma activate: "keeps R (activate_command E cmd)"
  unfolding activate_command_def by (intro feature_rules)

lemma request: "keeps R (request_activation E f v u b t r a x)"
  unfolding request_activation_def by (intro feature_rules) simp_all

lemma run_approved: "keeps R (on_run_approved E cols u a p)"
  unfolding on_run_approved_def by (intro feature_rules mint_version request)

lemma expire: "keeps R (deactivate_expired_version_command E cmd)"
  unfolding deactivate_expired_version_command_def by (intro feature_rules) simp_all

lemma register_consumer: "keeps R (register_consumer_command E cmd)"
  unfolding register_consumer_command_def by (intro feature_rules) simp_all

lemma deregister_consumer: "keeps R (deregister_consumer_command E cmd)"
  unfolding deregister_consumer_command_def by (intro feature_rules) simp_all

lemma deprecate_direct: "keeps R (deprecate_now via E cmd)"
  unfolding deprecate_now_def by (intro feature_rules) simp_all

lemma deprecate: "keeps R (deprecate_command E cmd)"
  unfolding deprecate_command_def quiesce_def by (intro feature_rules deprecate_direct) simp_all

lemma finalize_deprecate: "keeps R (finalize_deprecate_command E cmd)"
  unfolding finalize_deprecate_command_def by (intro feature_rules deprecate_direct)

lemma retier: "keeps R (retier_command E cmd)"
  unfolding retier_command_def by (intro feature_rules) simp_all

lemma alert: "keeps R (raise_monitoring_alert_command E cmd)"
  unfolding raise_monitoring_alert_command_def by (intro feature_rules) simp_all

lemma require_revalidation: "keeps R (require_revalidation_command E cmd)"
  unfolding require_revalidation_command_def last_lifecycle_def by (intro feature_rules) simp_all

lemma outcome: "keeps R (record_revalidation_outcome_command E cmd)"
  unfolding record_revalidation_outcome_command_def last_lifecycle_def record_outcome_def
  by (intro feature_rules) simp_all

lemmas feature_catalogue = catalogue activate expire supersedes register_consumer deregister_consumer deprecate
  finalize_deprecate retier alert require_revalidation outcome

end

text \<open>The two provers of the interface: the log with its runs, and the active map.\<close>

lemma insert_version_frame:
  "snd (insert_feature_version v s) = s \<or>
   snd (insert_feature_version v s) = s\<lparr>feature_versions := feature_versions s @ [v]\<rparr>
     \<and> fv_feature_version_id v \<notin> fv_feature_version_id ` set (feature_versions s)"
  by (auto simp: insert_feature_version_def Let_def)

lemma run_step_keeps_update:
  "(\<And>s. events (snd (m s)) = events s \<and> gseq (snd (m s)) = gseq s) \<Longrightarrow> keeps (run_step E) m"
  by (rule keepsI) (simp add: run_step_frame)

lemma run_keeps_tables:
  "keeps (run_step E) (insert_timer row)" "keeps (run_step E) (insert_queue m p h d)"
  "keeps (run_step E) (insert_consumer c)" "keeps (run_step E) (deregister_rows fid kind ref)"
  "keeps (run_step E) (insert_feature_version v)" "keeps (run_step E) (update_slots sel f)"
  "keeps (run_step E) (update (\<lambda>s. s\<lparr>feature_active_versions := filter P (feature_active_versions s)\<rparr>))"
  "keeps (run_step E) (set_activated_seq fid uc n)"
  by (rule run_step_keeps_update,
      simp add: insert_timer_def insert_queue_def insert_consumer_def deregister_rows_def insert_feature_version_def
        update_slots_def set_activated_seq_def Let_def split: option.splits)+

lemma run_keeps_cas: "keeps (run_step E) (cas_claim_slot fid uc fv base st n)"
  by (rule run_step_keeps_update)
     (simp add: cas_claim_slot_def andthen_def update_slots_def Let_def split: option.splits)

lemma run_keeps_not_null: "keeps (run_step E) (not_null x)"
  by (auto simp: not_null_def intro: run_keeps_rules split: option.splits)

lemmas run_feature_rules = handler_keeps run_keeps_tables run_keeps_cas run_keeps_not_null

lemma run_keeps_activation: "keeps (run_step E) (apply_activation E feature_id fv uc base at actor expires prov policy)"
  unfolding apply_activation_def check_activation_def same_feature_def load_governance_attributes_def claim_and_activate_def schedule_expiry_timer_def
  by (intro run_feature_rules) simp_all

lemma run_keeps_supersede: "keeps (run_step E) (supersede_command E cmd)"
  unfolding supersede_command_def load_governance_attributes_def promote_slot_def
  by (intro run_feature_rules) simp_all

interpretation run_features: feature_rel "run_step E" E for E
  by unfold_locales (rule run_keeps_tables run_keeps_activation run_keeps_supersede)+

lemma slot_keeps_frame:
  "(\<And>s. feature_versions (snd (m s)) = feature_versions s \<and> feature_active_versions (snd (m s)) = feature_active_versions s)
     \<Longrightarrow> keeps slot_step m"
  by (rule keepsI) (simp add: slot_step_frame)

lemma slot_keeps_tables:
  "keeps slot_step (insert_timer row)" "keeps slot_step (insert_queue m p h d)"
  "keeps slot_step (insert_consumer c)" "keeps slot_step (deregister_rows fid kind ref)"
  by (rule slot_keeps_frame,
      simp add: insert_timer_def insert_queue_def insert_consumer_def deregister_rows_def Let_def split: option.splits)+

lemma slot_keeps_versions: "keeps slot_step (insert_feature_version v)"
proof (rule keepsI)
  fix s
  show "slot_step s (snd (insert_feature_version v s))"
    using insert_version_frame [of v s]
    by (elim disjE) (auto simp: slots.rel_refl slot_step_def slots_ok_def slot_ok_def)
qed

lemma slot_keeps_deprecate: "keeps slot_step (update_slots sel (\<lambda>r. r\<lparr>sl_activation_state := ''DEPRECATED''\<rparr>))"
  by (rule keepsI, rule update_slots_step) (auto simp: slot_ok_def)

lemma slot_keeps_remove:
  "keeps slot_step (update (\<lambda>s. s\<lparr>feature_active_versions := filter P (feature_active_versions s)\<rparr>))"
  by (rule keepsI) (simp add: slot_step_filter)

lemma slot_keeps_seq: "keeps slot_step (set_activated_seq fid uc n)"
  unfolding set_activated_seq_def by (rule keepsI) (auto intro!: slot_step_map simp: slot_ok_def)

lemma load_governance_attributes_Inr:
  "load_governance_attributes fv s = (Inr attrs, s') \<longleftrightarrow>
     s' = s \<and> (\<exists>v. find (\<lambda>r. fv_feature_version_id r = fv) (feature_versions s) = Some v \<and> attrs = from_feature_version_row v)"
  by (auto simp: load_governance_attributes_def split: option.splits)

lemma load_governance_attributes_state: "snd (load_governance_attributes fv s) = s"
  by (simp add: load_governance_attributes_def split: option.splits)

lemma found_vetted:
  "find (\<lambda>r. fv_feature_version_id r = fv) (feature_versions s) = Some v \<Longrightarrow>
     evaluate_activation_guards (from_feature_version_row v) uc at policy = Inr None \<Longrightarrow> vetted fv uc s"
  unfolding vetted_def by (auto dest!: guards_passed_not_blocked simp: from_feature_version_row_def)

lemma guards_vetted:
  "load_governance_attributes fv s = (Inr attrs, s) \<Longrightarrow> evaluate_activation_guards attrs uc at policy = Inr None \<Longrightarrow> vetted fv uc s"
  unfolding load_governance_attributes_Inr by (auto intro: found_vetted)

lemmas slot_rules = slots.keeps_rules keeps_append_slot keeps_mint_slot slot_keeps_tables slot_keeps_seq

lemma claim_and_activate_step:
  assumes "vetted fv uc s"
  shows "slot_step s (snd (claim_and_activate E fid fv uc base at actor expires prov s))"
  unfolding claim_and_activate_def Let_def
proof (rule slots.step_andthen)
  show "slot_step s (snd (cas_claim_slot fid uc fv base (if at = ''EXPERIMENTAL'' then ''ACTIVE_EXPERIMENTAL'' else ''PRODUCTION'') 0 s))"
    by (rule cas_claim_slot_step [OF assms]) simp
qed (rule keepsD [OF _ prod.collapse [symmetric]], unfold schedule_expiry_timer_def not_null_def, intro slot_rules)

lemma same_feature_Inr:
  "same_feature fid fv s = (Inr attrs, s') \<longleftrightarrow>
     s' = s \<and> load_governance_attributes fv s = (Inr attrs, s) \<and> fid = Some (ga_feature_id attrs)"
  by (auto simp: same_feature_def andthen_eq_Inr load_governance_attributes_Inr)

lemma same_feature_state: "snd (same_feature fid fv s) = s"
  using load_governance_attributes_state [of fv s]
  by (cases "load_governance_attributes fv s") (auto simp: same_feature_def andthen_def split: sum.splits)

lemma check_activation_Inr:
  "check_activation fid fv uc base at policy s = (Inr failure, s') \<longleftrightarrow>
     s' = s \<and> (\<exists>attrs. same_feature fid fv s = (Inr attrs, s) \<and> evaluate_activation_guards attrs uc at policy = Inr failure)
     \<and> (\<forall>b. base = Some b \<longrightarrow> (\<exists>attrs. same_feature fid b s = (Inr attrs, s)))"
  by (cases base) (auto simp: check_activation_def andthen_eq_Inr same_feature_Inr)

lemma check_activation_state: "snd (check_activation fid fv uc base at policy s) = s"
  using same_feature_state [of fid fv s] same_feature_state [of fid _ s]
  by (cases base) (auto simp: check_activation_def andthen_def split: sum.splits prod.splits, (metis snd_conv)+)

lemma check_vetted: "check_activation fid fv uc base at policy s = (Inr None, s') \<Longrightarrow> s' = s \<and> vetted fv uc s"
  unfolding check_activation_Inr same_feature_Inr by (auto dest: guards_vetted)

lemma apply_activation_slot_step:
  "slot_step s (snd (apply_activation E fid fv uc base at actor expires prov policy s))"
proof -
  have append: "slot_step t (snd (andthen (append E sp) (\<lambda>evt. ret (activation_result x y fv uc (ev_event_id evt))) t))" for sp x y t
    by (rule slots.step_andthen) (simp_all add: append_slot_step slots.rel_refl)
  show ?thesis
    unfolding apply_activation_def andthen_query
    by (cases "current_of fid uc s = Some fv")
       (auto simp: slots.rel_refl check_activation_state append claim_and_activate_step
          dest!: check_vetted intro!: slots.step_andthen split: option.splits)
qed

lemma promote_slot_step:
  assumes "vetted new_fv uc s"
  shows "slot_step s (snd (promote_slot E cmd uc new_fv expected prior s))"
  unfolding promote_slot_def andthen_query
proof (rule slots.step_andthen)
  show "slot_step s (snd (update_slots (\<lambda>r. slot_is (cm_aggregate_id cmd) uc r \<and> sl_feature_version_id r = expected)
       (\<lambda>r. r\<lparr>sl_feature_version_id := new_fv, sl_activation_state := ''PRODUCTION'', sl_activated_seq := 0, sl_activated_at := clock s\<rparr>) s))"
    by (rule update_slots_step) (use assms in \<open>auto simp: slot_is_def intro!: vetted_slot_ok\<close>)
qed (rule keepsD [OF _ prod.collapse [symmetric]], intro slot_rules)

lemma supersede_slot_step: "slot_step s (snd (supersede_command E cmd s))"
proof -
  have append: "slot_step t (snd (append_accept E sp aid t))" for sp aid t
    unfolding append_accept_def by (rule slots.step_andthen) (simp_all add: append_slot_step slots.rel_refl)
  have "slot_step s (snd (andthen (load_governance_attributes fv) (\<lambda>attrs. andthen (lift (evaluate_activation_guards attrs uc ''PRODUCTION'' None))
      (case_option (andthen (lift x) (\<lambda>expected. promote_slot E cmd uc fv expected prior)) (\<lambda>f. append_accept E (sp f) aid))) s))" for fv uc x prior sp aid
    by (rule slots.step_andthen)
       (auto simp: load_governance_attributes_state slots.rel_refl append promote_slot_step found_vetted load_governance_attributes_Inr
          intro!: slots.step_andthen split: option.splits)
  then show ?thesis
    unfolding supersede_command_def
    by (intro slots.step_andthen) (auto simp: slots.rel_refl)
qed

lemma slot_keeps_activation: "keeps slot_step (apply_activation E feature_id fv uc base at actor expires prov policy)"
  by (rule keepsI) (rule apply_activation_slot_step)

lemma slot_keeps_supersede: "keeps slot_step (supersede_command E cmd)"
  by (rule keepsI) (rule supersede_slot_step)

interpretation slot_features: feature_rel slot_step E for E
  by unfold_locales (rule slot_keeps_tables slot_keeps_versions slot_keeps_deprecate slot_keeps_remove slot_keeps_activation slot_keeps_supersede)+

subsection \<open>How the active map changes\<close>

lemma find_map_key: "(\<And>x. P (g x) = P x) \<Longrightarrow> find P (map g xs) = map_option g (find P xs)"
  by (induction xs) auto

lemma slot_of_map:
  "(\<And>r. slot_key (g r) = slot_key r) \<Longrightarrow>
     slot_of fid uc (s\<lparr>feature_active_versions := map g (feature_active_versions s)\<rparr>) = map_option g (slot_of fid uc s)"
  unfolding slot_of_def by (simp, intro find_map_key) auto

lemma slot_of_frame: "feature_active_versions s' = feature_active_versions s \<Longrightarrow> slot_of fid uc s' = slot_of fid uc s"
  by (simp add: slot_of_def)

lemma current_of_frame: "feature_active_versions s' = feature_active_versions s \<Longrightarrow> current_of fid uc s' = current_of fid uc s"
  by (simp add: current_of_def slot_of_def)

lemma slot_of_is: "slot_of fid uc s = Some r \<Longrightarrow> slot_is fid uc r \<and> r \<in> set (feature_active_versions s)"
  by (auto simp: slot_of_def find_Some_iff slot_is_def)

lemma cas_claim_slot_Inr:
  assumes "cas_claim_slot fid uc fv base st n s = (Inr won, s')" "current_of fid uc s = base"
  shows "won \<and> current_of fid uc s' = Some fv \<and> (\<forall>f u. (f, u) \<noteq> (fid, uc) \<longrightarrow> current_of f u s' = current_of f u s)
    \<and> events s' = events s"
proof (cases base)
  case None
  then obtain f where f: "fid = Some f" "slot_of fid uc s = None" "won"
    "s' = s\<lparr>feature_active_versions := feature_active_versions s @
       [\<lparr>sl_feature_id = f, sl_use_case = uc, sl_feature_version_id = fv, sl_activation_state = st, sl_activated_seq = n, sl_activated_at = clock s\<rparr>]\<rparr>"
    using assms by (auto simp: cas_claim_slot_def current_of_def split: option.splits if_splits)
  have "find P (xs @ [x]) = (case find P xs of None \<Rightarrow> if P x then Some x else None | Some y \<Rightarrow> Some y)" for P xs and x :: slot_row
    by (induction xs) auto
  with f show ?thesis
    by (auto simp: current_of_def slot_of_def split: option.splits)
next
  case (Some b)
  let ?sel = "\<lambda>r. slot_is fid uc r \<and> sl_feature_version_id r = b"
  let ?f = "\<lambda>r. r\<lparr>sl_feature_version_id := fv, sl_activation_state := st, sl_activated_seq := n, sl_activated_at := clock s\<rparr>"
  let ?g = "\<lambda>r. if ?sel r then ?f r else r"
  have s': "s' = s\<lparr>feature_active_versions := map ?g (feature_active_versions s)\<rparr>" "won = (filter ?sel (feature_active_versions s) \<noteq> [])"
    using assms(1) Some by (auto simp: cas_claim_slot_def andthen_eq_Inr update_slots_def Let_def split: if_splits)
  have slots: "slot_of f u s' = map_option ?g (slot_of f u s)" for f u
    unfolding s'(1) by (rule slot_of_map) simp
  obtain r where r: "slot_of fid uc s = Some r" "sl_feature_version_id r = b"
    using assms(2) Some by (auto simp: current_of_def)
  have "current_of f u s' = current_of f u s" if "(f, u) \<noteq> (fid, uc)" for f u
    using that slot_of_is [of f u s] unfolding current_of_def slots
    by (cases "slot_of f u s") (auto simp: slot_is_def)
  moreover have "current_of fid uc s' = Some fv"
    using slot_of_is [OF r(1)] r by (simp add: current_of_def slots)
  moreover have won
    using slot_of_is [OF r(1)] r(2) unfolding s'(2) by (auto simp: filter_empty_conv)
  ultimately show ?thesis
    by (simp add: s'(1))
qed

lemma append_one:
  assumes "append E sp s = (Inr e, s')"
  shows "\<exists>row. events s' = events s @ [row] \<and> er_type row = ap_type sp" "feature_active_versions s' = feature_active_versions s"
proof -
  obtain row where row: "s' = s\<lparr>draws := Suc (draws s), gseq := gseq s + 1, events := events s @ [row]\<rparr>" "er_type row = ap_type sp"
    using append_Inr [OF assms] by (metis event_row_of_simps(6) new_event_of_simps(1))
  then show "\<exists>row. events s' = events s @ [row] \<and> er_type row = ap_type sp" "feature_active_versions s' = feature_active_versions s"
    by auto
qed

lemma feature_event_type [simp]:
  "ap_type (feature_event fid typ p a) = typ" "ap_aggregate (feature_event fid typ p a) = ''feature''"
  "ap_aggregate_id (feature_event fid typ p a) = fid" "ap_payload (feature_event fid typ p a) = p"
  "ap_expected_version (feature_event fid typ p a) = None" "ap_feature_id (feature_event fid typ p a) = fid"
  by (simp_all add: feature_event_def event_spec_def)

lemma set_activated_seq_current: "set_activated_seq fid uc n s = (Inr (), s') \<Longrightarrow> current_of f u s' = current_of f u s \<and> events s' = events s"
  by (cases "slot_of f u s") (auto simp: set_activated_seq_def current_of_def slot_of_map)

lemma schedule_frame:
  "schedule_expiry_timer E fid fv uc t s = (Inr u, s') \<Longrightarrow> feature_active_versions s' = feature_active_versions s \<and> events s' = events s"
  by (auto simp: schedule_expiry_timer_def andthen_eq_Inr mint_id_def not_null_def insert_timer_def split: option.splits if_splits)

lemma claim_and_activate_Inr:
  assumes "claim_and_activate E fid fv uc base at actor expires prov s = (Inr res, s')" "current_of fid uc s = base"
  shows "ar_activated res \<and> current_of fid uc s' = Some fv \<and> (\<forall>f u. (f, u) \<noteq> (fid, uc) \<longrightarrow> current_of f u s' = current_of f u s)
    \<and> (\<exists>row. events s' = events s @ [row] \<and> er_type row = ''VERSION_ACTIVATED'')"
proof -
  let ?st = "if at = ''EXPERIMENTAL'' then ''ACTIVE_EXPERIMENTAL'' else ''PRODUCTION''"
  obtain won s1 where cas: "cas_claim_slot fid uc fv base ?st 0 s = (Inr won, s1)"
    using assms(1) by (auto simp: claim_and_activate_def Let_def andthen_eq_Inr split: if_splits)
  note c = cas_claim_slot_Inr [OF cas assms(2)]
  obtain sp evt s2 s3 s4 where a: "append E sp s1 = (Inr evt, s2)" "ap_type sp = ''VERSION_ACTIVATED''"
    and q: "set_activated_seq fid uc (ev_global_seq evt) s2 = (Inr (), s3)" and res: "ar_activated res"
    and t: "(case expires of Some t \<Rightarrow> if ?st = ''ACTIVE_EXPERIMENTAL'' then schedule_expiry_timer E fid fv uc t else ret () | None \<Rightarrow> ret ()) s3 = (Inr (), s')"
    using assms(1) cas c
    by (auto simp: claim_and_activate_def Let_def andthen_eq_Inr activation_result_def simp del: terminal_types cong: option.case_cong if_cong)
  have "feature_active_versions s' = feature_active_versions s3 \<and> events s' = events s3"
    using t schedule_frame [of E fid fv uc _ s3 _ s'] by (auto split: option.splits if_splits)
  then have "current_of f u s' = current_of f u s1" "events s' = events s2" for f u
    using set_activated_seq_current [OF q, of f u] current_of_frame [OF append_one(2) [OF a(1)], of f u]
      current_of_frame [of s' s3 f u] by simp_all
  then show ?thesis
    using c append_one(1) [OF a(1)] a(2) res by auto
qed

subsection \<open>Properties\<close>

text \<open>
  C36: activation never overwrites a version the caller did not name.  An activation that reports
  success leaves the slot holding its version, and the slot held that version or exactly the stated
  base before; one that does not leaves the whole active map as it was and puts the reason,
  \<open>ACTIVATION_CONFLICT\<close> or \<open>ACTIVATION_BLOCKED\<close>, on the log.  No other slot changes.
\<close>

theorem activation_no_clobber:
  assumes "apply_activation E fid fv uc base at actor expires prov policy s = (Inr res, s')"
  shows "(ar_activated res \<longrightarrow> current_of fid uc s' = Some fv \<and> current_of fid uc s \<in> {Some fv, base}
        \<and> (current_of fid uc s \<noteq> Some fv \<longrightarrow> (\<exists>row. events s' = events s @ [row] \<and> er_type row = ''VERSION_ACTIVATED'')))
    \<and> (\<not> ar_activated res \<longrightarrow> feature_active_versions s' = feature_active_versions s
        \<and> (\<exists>row. events s' = events s @ [row]
             \<and> er_type row = (if ar_conflict res then ''ACTIVATION_CONFLICT'' else ''ACTIVATION_BLOCKED'')))
    \<and> (\<forall>f u. (f, u) \<noteq> (fid, uc) \<longrightarrow> current_of f u s' = current_of f u s)"
proof (cases "current_of fid uc s = Some fv")
  case True
  then show ?thesis
    using assms by (auto simp: apply_activation_def activation_result_def)
next
  case False
  then obtain failure where c: "check_activation fid fv uc base at policy s = (Inr failure, s)"
    and rest: "(case failure of
         Some f \<Rightarrow>
           andthen (append E (feature_event fid ''ACTIVATION_BLOCKED''
             [(''feature_id'', ostr fid), (''feature_version_id'', JStr fv), (''use_case'', JStr uc),
              (''base_feature_version_id'', ostr base), (''approval_type'', JStr at),
              (''guard'', JStr (gf_guard f)), (''guard_inputs'', JObj (gf_inputs f)), (''guard_result'', JBool (gf_result f))] actor)) (\<lambda>evt.
           ret (activation_result False False fv uc (ev_event_id evt)))
       | None \<Rightarrow>
           if current_of fid uc s \<noteq> base then
             andthen (append E (feature_event fid ''ACTIVATION_CONFLICT''
               [(''feature_id'', ostr fid), (''feature_version_id'', JStr fv), (''use_case'', JStr uc),
                (''base_feature_version_id'', ostr base), (''current_active_version_id'', ostr (current_of fid uc s))] actor)) (\<lambda>evt.
             ret (activation_result False True fv uc (ev_event_id evt)))
           else claim_and_activate E fid fv uc base at actor expires prov) s = (Inr res, s')"
    using assms by (auto simp: apply_activation_def andthen_eq_Inr check_activation_Inr)
  have written: "feature_active_versions s' = feature_active_versions s \<and> (\<exists>row. events s' = events s @ [row] \<and> er_type row = ap_type sp)
      \<and> (\<forall>f u. current_of f u s' = current_of f u s)"
    if "append E sp s = (Inr e, s')" for sp e
    using append_one [OF that] current_of_frame by blast
  show ?thesis
  proof (cases failure)
    case (Some f)
    then show ?thesis
      using rest by (auto simp: andthen_eq_Inr activation_result_def dest!: written)
  next
    case None
    show ?thesis
    proof (cases "current_of fid uc s = base")
      case True
      then show ?thesis
        using claim_and_activate_Inr [OF _ True] rest None False by simp
    next
      case ne: False
      then show ?thesis
        using rest None by (auto simp: andthen_eq_Inr activation_result_def dest!: written)
    qed
  qed
qed

definition sample_active :: db where
  "sample_active = empty_db\<lparr>feature_versions := [to_feature_version_row sample_attrs ''h'']\<rparr>"

abbreviation sample_activation :: "ActivationResult dbprog" where
  "sample_activation \<equiv> apply_activation sample_env (Some ''feat_1'') ''fv_1'' ''credit'' None ''PRODUCTION'' sample_actor None None None"

lemma sample_activation_runs: "\<exists>res s'. sample_activation sample_active = (Inr res, s') \<and> ar_activated res"
proof -
  let ?s = "sample_active\<lparr>feature_active_versions := [\<lparr>sl_feature_id = ''feat_1'', sl_use_case = ''credit'', sl_feature_version_id = ''fv_1'',
     sl_activation_state = ''PRODUCTION'', sl_activated_seq = 0, sl_activated_at = 0\<rparr>]\<rparr>"
  let ?sp = "(feature_event (Some ''feat_1'') ''VERSION_ACTIVATED''
     [(''feature_id'', JStr ''feat_1''), (''feature_version_id'', JStr ''fv_1''), (''use_case'', JStr ''credit''),
      (''base_feature_version_id'', JNull), (''activation_state'', JStr ''PRODUCTION'')] sample_actor)\<lparr>ap_provenance := None\<rparr>"
  have wf: "wf_store sample_env ?s"
    by (rule wf_store_frame [OF _ _ wf_empty_db]) (simp_all add: sample_active_def)
  have "appendable sample_env ?sp"
    by code_simp
  then obtain e s1 where a: "append sample_env ?sp ?s = (Inr e, s1)"
    using append_total [OF wf, of ?sp] by (auto simp: sample_active_def empty_db_def)
  have c: "check_activation (Some ''feat_1'') ''fv_1'' ''credit'' None ''PRODUCTION'' None sample_active = (Inr None, sample_active)"
    by (simp add: check_activation_def same_feature_def load_governance_attributes_def andthen_def sample_active_def
        to_feature_version_row_def sample_attrs_def from_feature_version_row_def default_guards)
  have k: "cas_claim_slot (Some ''feat_1'') ''credit'' ''fv_1'' None ''PRODUCTION'' 0 sample_active = (Inr True, ?s)"
    by (simp add: cas_claim_slot_def slot_of_def version_keys_def sample_active_def empty_db_def to_feature_version_row_def sample_attrs_def)
  have "claim_and_activate sample_env (Some ''feat_1'') ''fv_1'' ''credit'' None ''PRODUCTION'' sample_actor None None sample_active =
      (Inr (activation_result True False ''fv_1'' ''credit'' (ev_event_id e)), snd (set_activated_seq (Some ''feat_1'') ''credit'' (ev_global_seq e) s1))"
    using k a by (simp add: claim_and_activate_def Let_def andthen_def set_activated_seq_def)
  then show ?thesis
    using c by (simp add: apply_activation_def andthen_def current_of_def slot_of_def activation_result_def) (simp add: sample_active_def empty_db_def)
qed

theorem activation_no_clobber_witness:
  "current_of (Some ''feat_1'') ''credit'' (snd (sample_activation sample_active)) = Some ''fv_1''"
proof -
  obtain res s' where r: "sample_activation sample_active = (Inr res, s')" "ar_activated res"
    using sample_activation_runs by blast
  with activation_no_clobber [OF r(1)] show ?thesis
    by simp
qed

text \<open>
  A feature cannot activate another feature's version, nor claim to replace one.  When the
  version, or the base, belongs to another feature the activation raises \<open>ValueError\<close> and the store
  is as it was.
\<close>

theorem cross_feature_refused:
  assumes "find (\<lambda>r. fv_feature_version_id r = fv) (feature_versions s) = Some v" "current_of fid uc s \<noteq> Some fv"
    and "Some (fv_feature_id v) \<noteq> fid \<or>
      (\<exists>b w. base = Some b \<and> find (\<lambda>r. fv_feature_version_id r = b) (feature_versions s) = Some w \<and> Some (fv_feature_id w) \<noteq> fid)"
  shows "apply_activation E fid fv uc base at actor expires prov policy s = (Inl ValueError, s)"
proof -
  have "same_feature fid x s = (if Some (fv_feature_id r) = fid then Inr (from_feature_version_row r) else Inl ValueError, s)"
    if "find (\<lambda>r. fv_feature_version_id r = x) (feature_versions s) = Some r" for x r
    using that by (simp add: same_feature_def load_governance_attributes_def andthen_def from_feature_version_row_def)
  then have "check_activation fid fv uc base at policy s = (Inl ValueError, s)"
    using assms(1,3) by (auto simp: check_activation_def andthen_def split: option.splits if_splits)
  then show ?thesis
    using assms(2) by (simp add: apply_activation_def andthen_def)
qed

theorem cross_feature_refused_witness:
  "apply_activation sample_env (Some ''feat_2'') ''fv_1'' ''credit'' None ''PRODUCTION'' sample_actor None None None sample_active =
     (Inl ValueError, sample_active)"
  by (rule cross_feature_refused [where v = "to_feature_version_row sample_attrs ''h''"])
     (simp_all add: sample_active_def to_feature_version_row_def sample_attrs_def current_of_def slot_of_def empty_db_def)

text \<open>
  An expiry message may be delivered twice.  Only an experimental slot that still holds the named
  version is cleared, and running the command again on what it left accepts and changes nothing.
\<close>

theorem expiry_redelivery_is_noop:
  assumes "deactivate_expired_version_command E cmd s = (Inr res, s')"
    and "map_of (cm_args cmd) ''feature_version_id'' = Some (JStr fv)" "map_of (cm_args cmd) ''use_case'' = Some (JStr uc)"
  shows "deactivate_expired_version_command E cmd s' = (Inr (accept (cm_aggregate_id cmd) []), s')
    \<and> (\<forall>r. slot_of (cm_aggregate_id cmd) uc s = Some r \<longrightarrow>
         (sl_feature_version_id r = fv \<and> sl_activation_state r = ''ACTIVE_EXPERIMENTAL'') = (s' \<noteq> s))"
proof -
  have args: "dict_str (cm_args cmd) ''feature_version_id'' = Inr fv" "dict_str (cm_args cmd) ''use_case'' = Inr uc"
    using assms(2,3) by (simp_all add: dict_str_def)
  let ?idle = "case slot_of (cm_aggregate_id cmd) uc s of None \<Rightarrow> True
         | Some r \<Rightarrow> sl_feature_version_id r \<noteq> fv \<or> sl_activation_state r \<noteq> ''ACTIVE_EXPERIMENTAL''"
  show ?thesis
  proof (cases ?idle)
    case True
    then have "s' = s" "deactivate_expired_version_command E cmd s = (Inr (accept (cm_aggregate_id cmd) []), s)"
      using assms(1) by (simp_all add: deactivate_expired_version_command_def args)
    with True show ?thesis by (auto split: option.splits)
  next
    case False
    then obtain evt s1 sp where a: "append E sp s = (Inr evt, s1)"
      and s': "s' = s1\<lparr>feature_active_versions := filter (\<lambda>r. \<not> slot_is (cm_aggregate_id cmd) uc r) (feature_active_versions s1)\<rparr>"
      using assms(1) by (auto simp: deactivate_expired_version_command_def args andthen_eq_Inr)
    have "slot_of (cm_aggregate_id cmd) uc s' = None"
      by (auto simp: s' slot_of_def find_None_iff slot_is_def)
    moreover have "s' \<noteq> s"
      using append_one(1) [OF a] by (auto simp: s')
    ultimately show ?thesis
      using False by (auto simp: deactivate_expired_version_command_def args split: option.splits)
  qed
qed

theorem expiry_redelivery_is_noop_witness:
  "fst (deactivate_expired_version_command sample_env
      (sample_command (Some ''feat_1'') [(''feature_version_id'', JStr ''fv_1''), (''use_case'', JStr ''credit'')]) sample_active) =
     Inr (accept (Some ''feat_1'') [])"
proof -
  let ?c = "sample_command (Some ''feat_1'') [(''feature_version_id'', JStr ''fv_1''), (''use_case'', JStr ''credit'')]"
  have "deactivate_expired_version_command sample_env ?c sample_active = (Inr (accept (Some ''feat_1'') []), sample_active)"
    by (simp add: deactivate_expired_version_command_def sample_command_def slot_of_def sample_active_def empty_db_def)
  from expiry_redelivery_is_noop [OF this, of "''fv_1''" "''credit''"] show ?thesis
    by (simp add: sample_command_def)
qed

text \<open>
  The timer path runs two commands and no other.  A message that names any other action is
  refused before a command is built, whatever is registered; an accepted one runs the registered
  handler as the timer runtime, an authenticated internal principal.
\<close>

theorem timer_allowlist:
  shows "(act \<notin> set TIMER_COMMAND_ALLOWLIST \<longrightarrow>
      dispatch_timer_command reg E ((''handler'', JStr act) # payload) s = (Inl DisallowedTimerCommand, s))
    \<and> (dispatch_timer_command reg E d s = (Inr res, s') \<longrightarrow>
        (\<exists>a h cmd. a \<in> set TIMER_COMMAND_ALLOWLIST \<and> reg a = Some h \<and> h E cmd s = (Inr res, s') \<and> cm_action cmd = a
           \<and> cm_actor cmd = TIMER_RUNTIME_ACTOR \<and> validate_identity (cm_actor cmd) = Inr ()))"
proof -
  have "validate_identity TIMER_RUNTIME_ACTOR = Inr ()"
    by (simp add: validate_identity_def TIMER_RUNTIME_ACTOR_def mint_trusted_identity_def)
  moreover have "\<exists>a h cmd. a \<in> set TIMER_COMMAND_ALLOWLIST \<and> reg a = Some h \<and> h E cmd s = (Inr res, s') \<and> cm_action cmd = a
      \<and> cm_actor cmd = TIMER_RUNTIME_ACTOR" if run: "dispatch_timer_command reg E d s = (Inr res, s')"
  proof -
    obtain act where act: "map_of d ''handler'' = Some (JStr act)" "act \<in> set TIMER_COMMAND_ALLOWLIST"
      using run by (auto simp: dispatch_timer_command_def andthen_eq_Inr dict_item_def split: option.splits if_splits)
    obtain h cmd where "reg act = Some h" "h E cmd s = (Inr res, s')" "cm_action cmd = act" "cm_actor cmd = TIMER_RUNTIME_ACTOR"
      using run act by (fastforce simp: dispatch_timer_command_def andthen_eq_Inr dict_item_def dict_str_def split: option.splits if_splits)
    with act(2) show ?thesis by blast
  qed
  moreover have "act \<notin> set TIMER_COMMAND_ALLOWLIST \<longrightarrow>
      dispatch_timer_command reg E ((''handler'', JStr act) # payload) s = (Inl DisallowedTimerCommand, s)"
    by (auto simp: dispatch_timer_command_def image_iff)
  ultimately show ?thesis
    by metis
qed

theorem timer_allowlist_witness:
  "dispatch_timer_command (\<lambda>_. Some activate_command) sample_env [(''handler'', JStr ''activate'')] sample_active =
     (Inl DisallowedTimerCommand, sample_active)"
  using timer_allowlist [of "''activate''" "\<lambda>_. Some activate_command" sample_env "[]" sample_active]
  by (simp add: TIMER_COMMAND_ALLOWLIST_def)

text \<open>
  Consumers hold off a deprecation.  While a feature has an active consumer no deprecation of any
  of its versions changes the active map: without \<open>force_quiesce\<close> the command is refused and changes
  nothing, with it a timer is pending that will finish the deprecation.
\<close>

theorem consumers_hold_deprecation:
  assumes "active_refs (cm_aggregate_id cmd) s \<noteq> []" "deprecate_command E cmd s = (Inr res, s')"
    and "map_of (cm_args cmd) ''feature_version_id'' = Some (JStr fv)" "map_of (cm_args cmd) ''use_case'' = Some (JStr uc)"
  shows "feature_active_versions s' = feature_active_versions s
    \<and> (if truthy (dget (cm_args cmd) ''force_quiesce'')
       then accepted res \<and> (''quiesce:'' @ fv @ '':'' @ uc) \<in> tm_idempotency_key ` set (timers s')
       else \<not> accepted res \<and> s' = s)"
proof -
  have args: "dict_str (cm_args cmd) ''feature_version_id'' = Inr fv" "dict_str (cm_args cmd) ''use_case'' = Inr uc"
    using assms(3,4) by (simp_all add: dict_str_def)
  have q: "feature_active_versions s' = feature_active_versions s \<and> accepted res
      \<and> (''quiesce:'' @ fv @ '':'' @ uc) \<in> tm_idempotency_key ` set (timers s')"
    if "quiesce E cmd uc fv refs s = (Inr res, s')" for refs
    using that
    by (auto simp: quiesce_def andthen_eq_Inr mint_id_def not_null_def insert_timer_def timer_row_of_def
        dest!: append_one(2) split: option.splits if_splits)
  show ?thesis
    using assms(1,2) q by (auto simp: deprecate_command_def args split: if_splits)
qed

definition sample_consumed :: db where
  "sample_consumed = sample_active\<lparr>consumers := [\<lparr>co_consumer_id = ''con_1'', co_feature_id = ''feat_1'', co_feature_version_id = None,
     co_consumer_kind = ''model'', co_consumer_ref = ''m'', co_edge_status = ''active'', co_registered_by = [], co_deregistered_at = None\<rparr>]\<rparr>"

theorem consumers_hold_deprecation_witness:
  "\<exists>res. deprecate_command sample_env (sample_command (Some ''feat_1'') [(''feature_version_id'', JStr ''fv_1''), (''use_case'', JStr ''credit'')])
      sample_consumed = (Inr res, sample_consumed) \<and> \<not> accepted res"
proof -
  let ?c = "sample_command (Some ''feat_1'') [(''feature_version_id'', JStr ''fv_1''), (''use_case'', JStr ''credit'')]"
  have refs: "active_refs (cm_aggregate_id ?c) sample_consumed \<noteq> []"
    by (simp add: active_refs_def sample_consumed_def sample_command_def)
  obtain res s' where r: "deprecate_command sample_env ?c sample_consumed = (Inr res, s')"
    by (simp add: deprecate_command_def sample_command_def active_refs_def sample_consumed_def)
  from consumers_hold_deprecation [OF refs r, of "''fv_1''" "''credit''"] r show ?thesis
    by (simp add: sample_command_def)
qed

text \<open>
  Deregistering a consumer that was never registered raises.  The event carries a null
  \<open>consumer_id\<close>, which the registered schema of \<open>CONSUMER_DEREGISTERED\<close> does not allow, so the append
  fails with \<open>SchemaValidationError\<close>; the branch of the code that goes on with \<open>None\<close> cannot succeed.
\<close>

definition catalogue_env :: env where
  "catalogue_env = sample_env\<lparr>env_registry := register_phase06_event_types empty_registry\<rparr>"

theorem deregister_unknown_raises:
  "fst (deregister_consumer_command catalogue_env
     (sample_command (Some ''feat_1'') [(''consumer_kind'', JStr ''model''), (''consumer_ref'', JStr ''m'')]) empty_db) =
   Inl SchemaValidationError"
  by code_simp

end
