(* ===== verification/Catalogue.thy ===== *)
theory Catalogue
  imports Commands Gates Projections Features
begin

text \<open>
  The command catalogue of \<open>aggregates/commands.py\<close>, its registration and the bootstraps, and the store as
  the commands see it.

  The locales of the other theories meet here: \<open>aggregate_rel\<close> and \<open>feature_rel\<close> are interpreted on the
  frame of the tables that the aggregates do not own, \<open>command_clients\<close> and \<open>command_rel\<close> on the process
  that the bootstraps leave, so that the protocol of the entry point and the invariants of all components
  hold of every run of commands.
\<close>

subsection \<open>The catalogue\<close>

definition CATALOG :: "repair_registry \<Rightarrow> handlers" where
  "CATALOG repairs =
    [(''create_request'', create_request_command), (''create_run'', create_run_command),
     (''duplicate_of'', duplicate_of_command), (''select_candidate'', select_candidate_command),
     (''cancel'', cancel_command), (''withdraw'', withdraw_command), (''reject'', reject_command),
     (''park'', park_command), (''unpark'', unpark_command), (''reopen_as_new_run'', reopen_as_new_run_command),
     (''resolve_degraded'', resolve_degraded_command repairs),
     (''fact_confirmed_resume'', fact_confirmed_resume_command),
     (''source_changed_revalidate'', source_changed_revalidate_command), (''activate'', activate_command),
     (''supersede'', supersede_command), (''deprecate'', deprecate_command),
     (''finalize_deprecate'', finalize_deprecate_command), (''retier'', retier_command),
     (''register_consumer'', register_consumer_command), (''deregister_consumer'', deregister_consumer_command),
     (''raise_monitoring_alert'', raise_monitoring_alert_command),
     (''require_revalidation'', require_revalidation_command),
     (''record_revalidation_outcome'', record_revalidation_outcome_command),
     (''deactivate_expired_version'', deactivate_expired_version_command),
     (''submit_human_signal'', submit_human_signal_command)]"

definition register_phase06_commands :: "repair_registry \<Rightarrow> (handlers, unit) prog" where
  "register_phase06_commands repairs =
     andthen (for_each (CATALOG repairs) (\<lambda>(action, h). register_command action h)) (\<lambda>_. ret ())"

text \<open>\<open>_ensure_phase06_commands\<close> of \<open>runtime/worker.py\<close>: registers unless \<open>create_run\<close> is there already.\<close>

definition ensure_phase06_commands :: "repair_registry \<Rightarrow> (handlers, unit) prog" where
  "ensure_phase06_commands repairs =
     andthen (attempt (\<lambda>reg. (get_command ''create_run'' reg, reg))) (\<lambda>found.
     case found of Inr _ \<Rightarrow> ret ()
     | Inl e \<Rightarrow> if e = KeyError then register_phase06_commands repairs else throw e)"

text \<open>\<open>bootstrap_phase07\<close> seeds the policy rows and then plugs in the policy authorizer.\<close>

definition bootstrap_phase07 :: "(process \<times> db, unit) prog" where
  "bootstrap_phase07 = (\<lambda>(p, s). case seed_authz_policy s of
     (Inl e, s') \<Rightarrow> (Inl e, (p, s'))
   | (Inr _, s') \<Rightarrow> (Inr (), (snd (register_command_authorizer policy_authorizer p), s')))"

text \<open>The process after its bootstraps.\<close>

definition production :: "repair_registry \<Rightarrow> process" where
  "production repairs = \<lparr>pc_handlers = CATALOG repairs, pc_authorizer = policy_authorizer\<rparr>"

lemma register_all:
  "distinct (map fst (reg @ cat)) \<Longrightarrow>
     for_each cat (\<lambda>(action, h). register_command action h) reg = (Inr (map (\<lambda>_. ()) cat), reg @ cat)"
proof (induction cat arbitrary: reg)
  case (Cons p cat)
  obtain a h where p: "p = (a, h)" by fastforce
  have "map_of reg a = None"
    using Cons.prems p by (auto simp: map_of_eq_None_iff)
  then have "register_command a h reg = (Inr (), reg @ [p])"
    by (simp add: register_command_def p)
  then show ?case
    using Cons.IH [of "reg @ [p]"] Cons.prems by (simp add: p andthen_def)
qed simp

lemma catalogue_distinct: "distinct (map fst (CATALOG repairs))"
  unfolding CATALOG_def by (simp only: list.map fst_conv) code_simp

lemma get_production:
  "get_command a (pc_handlers (production repairs)) = Inr h \<Longrightarrow> (a, h) \<in> set (CATALOG repairs)"
  by (auto simp: get_command_def production_def split: option.splits dest: map_of_SomeD)

text \<open>Registration fills an empty registry with the catalogue, once; a second one raises.\<close>

lemma register_catalogue:
  "register_phase06_commands repairs [] = (Inr (), CATALOG repairs)"
  "register_phase06_commands repairs (CATALOG repairs) = (Inl ValueError, CATALOG repairs)"
  "ensure_phase06_commands repairs (CATALOG repairs) = (Inr (), CATALOG repairs)"
proof -
  show "register_phase06_commands repairs [] = (Inr (), CATALOG repairs)"
    using register_all [of "[]" "CATALOG repairs"] catalogue_distinct
    by (simp add: register_phase06_commands_def andthen_def)
  obtain h rest where c: "CATALOG repairs = (''create_request'', h) # rest"
    by (simp add: CATALOG_def)
  show "register_phase06_commands repairs (CATALOG repairs) = (Inl ValueError, CATALOG repairs)"
    unfolding c by (simp add: register_phase06_commands_def register_command_def c andthen_def)
  have "get_command ''create_run'' (CATALOG repairs) = Inr create_run_command"
    by (simp add: get_command_def CATALOG_def)
  then show "ensure_phase06_commands repairs (CATALOG repairs) = (Inr (), CATALOG repairs)"
    by (simp add: ensure_phase06_commands_def andthen_def attempt_def)
qed

lemma bootstraps:
  "authz_policy s = [] \<Longrightarrow>
     bootstrap_phase07 (\<lparr>pc_handlers = CATALOG repairs, pc_authorizer = deny_all_authorizer\<rparr>, s) =
       (Inr (), (production repairs, seeded s))"
  by (simp add: bootstrap_phase07_def seed_empty register_command_authorizer_def production_def)

subsection \<open>Frames\<close>

text \<open>An operation that leaves a view of the store alone and never turns the sequence back.\<close>

definition frame :: "(db \<Rightarrow> 'a) \<Rightarrow> db \<Rightarrow> db \<Rightarrow> bool" where
  "frame view s s' \<longleftrightarrow> view s' = view s \<and> gseq s \<le> gseq s'"

interpretation framed: state_rel "frame view" for view
  by unfold_locales (auto simp: frame_def)

text \<open>What the aggregates do not own, what the gates do not own, what the projections do not own.\<close>

definition beside_aggregates where
  "beside_aggregates s = (command_idempotency s, human_tasks s, human_task_responses s, task_delegations s, security_audit s,
     authz_policy s, projection_degraded s, processed_messages s)"

definition beside_gates where
  "beside_gates s = (command_idempotency s, events s, feature_versions s, feature_active_versions s, security_audit s,
     authz_policy s, projection_degraded s)"

definition beside_repair where
  "beside_repair s = (command_idempotency s, events s, feature_versions s, feature_active_versions s, human_tasks s,
     human_task_responses s, task_delegations s, authz_policy s)"

lemma append_event_frame: "keeps (frame beside_aggregates) (append_event E new v tv)"
proof (rule keepsI)
  fix s
  obtain r s' where r: "append_event E new v tv s = (r, s')"
    by fastforce
  show "frame beside_aggregates s (snd (append_event E new v tv s))"
  proof (cases r)
    case (Inl e)
    then show ?thesis
      using append_event_Inl r by (fastforce simp: frame_def beside_aggregates_def)
  next
    case (Inr e)
    with r have a: "append_event E new v tv s = (Inr e, s')"
      by simp
    show ?thesis
      by (rule append_event_Inr [OF a]) (simp add: r frame_def beside_aggregates_def)
  qed
qed

lemma framed_load: "keeps (frame view) (load_stream_with F agg aid u expected)"
  by (rule keepsI) (simp add: load_stream_state framed.rel_refl)

lemma framed_append: "keeps (frame beside_aggregates) (append E sp)"
  unfolding append_def current_version_def by (intro framed.keeps_rules append_event_frame framed_load)

lemma framed_mint: "keeps (frame beside_aggregates) (mint_id E pre)"
  by (rule keepsI) (simp add: mint_id_def frame_def beside_aggregates_def)

lemma framed_claim: "keeps (frame beside_aggregates) (claim_concept k r)"
  by (rule keepsI) (auto simp: claim_concept_def frame_def beside_aggregates_def split: option.splits)

lemmas framed_rules = framed.keeps_rules framed_append framed_load framed_mint framed_claim

lemma framed_terminal: "keeps (frame beside_aggregates) (terminal_command typ E cmd)"
  unfolding terminal_command_def run_is_terminal_def append_accept_def by (intro framed_rules)

lemma framed_sibling: "keeps (frame beside_aggregates) (close_sibling E cmd rq sel run)"
  unfolding close_sibling_def run_is_terminal_def by (intro framed_rules)

lemma framed_tables:
  "keeps (frame beside_aggregates) (insert_timer row)" "keeps (frame beside_aggregates) (insert_queue m p h d)"
  "keeps (frame beside_aggregates) (insert_consumer c)" "keeps (frame beside_aggregates) (deregister_rows fid kind ref)"
  "keeps (frame beside_aggregates) (insert_feature_version v)" "keeps (frame beside_aggregates) (update_slots sel f)"
  "keeps (frame beside_aggregates) (update (\<lambda>s. s\<lparr>feature_active_versions := filter P (feature_active_versions s)\<rparr>))"
  "keeps (frame beside_aggregates) (set_activated_seq fid uc n)"
  "keeps (frame beside_aggregates) (cas_claim_slot fid uc fv base st n)"
  by (rule keepsI,
      simp add: insert_timer_def insert_queue_def insert_consumer_def deregister_rows_def insert_feature_version_def
        update_slots_def set_activated_seq_def cas_claim_slot_def andthen_def Let_def frame_def beside_aggregates_def
        split: option.splits)+

lemma framed_not_null: "keeps (frame beside_aggregates) (not_null x)"
  by (auto simp: not_null_def intro: framed_rules split: option.splits)

lemma framed_activation:
  "keeps (frame beside_aggregates) (apply_activation E feature_id fv uc base at actor expires prov policy)"
  unfolding apply_activation_def check_activation_def same_feature_def load_governance_attributes_def
    claim_and_activate_def schedule_expiry_timer_def
  by (intro framed_rules framed_tables framed_not_null)

lemma framed_supersede: "keeps (frame beside_aggregates) (supersede_command E cmd)"
  unfolding supersede_command_def load_governance_attributes_def promote_slot_def append_accept_def
  by (intro framed_rules framed_tables)

interpretation framed_handlers: feature_rel "frame beside_aggregates" E for E
  by unfold_locales
     (rule framed_append framed_load framed_mint framed_claim framed_terminal framed_sibling framed_tables framed_activation framed_supersede)+


text \<open>Answering a gate task.\<close>

lemma gate_frames:
  "keeps (frame beside_gates) (mint_id E p)" "keeps (frame beside_gates) (cancel_timers i)" "keeps (frame beside_gates) (insert_timer tr)"
  "keeps (frame beside_gates) (insert_timer_strict tr)" "keeps (frame beside_gates) (insert_delegation d)"
  "keeps (frame beside_gates) (update_task i f)" "keeps (frame beside_gates) (insert_task row)"
  "keeps (frame beside_gates) (insert_response a)" "keeps (frame beside_gates) nextval"
  by (auto simp: keeps_def frame_def beside_gates_def mint_id_def cancel_timers_def insert_timer_strict_def insert_timer_def
      insert_delegation_def update_task_def insert_task_def insert_response_def nextval_def)

lemma gate_frame_non_null: "(\<And>v. keeps (frame beside_gates) (f v)) \<Longrightarrow> keeps (frame beside_gates) (non_null x f)"
  by (auto simp: non_null_def intro: framed.keeps_rules split: option.split)

lemmas gate_frame_rules = framed.keeps_rules gate_frames gate_frame_non_null

lemma framed_signal: "keeps (frame beside_gates) (submit_human_signal E i resp actor expd obo)"
  unfolding submit_human_signal_def signal_authority_def record_answer_def close_task_def Let_def
  by (intro gate_frame_rules)

lemma framed_signal_command: "keeps (frame beside_gates) (submit_human_signal_command E cmd)"
  unfolding submit_human_signal_command_def by (intro framed.keeps_rules framed_signal)

text \<open>Other gate operations.\<close>

lemma framed_cancel: "keeps (frame beside_gates) (cancel_task i st)"
  unfolding cancel_task_def by (intro gate_frame_rules)

lemma framed_gate_operations:
  "keeps (frame beside_gates) (open_task E spec actor)" "keeps (frame beside_gates) (bump_task_version i)"
  "keeps (frame beside_gates) (cancel_tasks_on_run_advance run_id st)" "keeps (frame beside_gates) (grant_task_delegation i p d g)"
  unfolding open_task_def bump_task_version_def cancel_tasks_on_run_advance_def grant_task_delegation_def
  by (intro gate_frame_rules framed_cancel)+

lemma gate_op_frame: "gate_op E s s' \<Longrightarrow> frame beside_gates s s'"
  by (erule gate_op.cases) (use framed_gate_operations framed_signal framed_cancel in \<open>auto simp: keeps_def\<close>)

text \<open>Repairing a projection, when its fold writes only its own read model.\<close>

definition repairs_framed :: "repair_registry \<Rightarrow> bool" where
  "repairs_framed reg \<longleftrightarrow> (\<forall>name P e. projection_for_repair name reg = Some P \<longrightarrow>
     keeps (frame beside_repair) (pj_apply P e) \<and> keeps (frame security_audit) (pj_apply P e))"

lemma repair_frames:
  "keeps (frame beside_repair) (ensure_checkpoint n a)" "keeps (frame beside_repair) (set_checkpoint n q h)"
  "keeps (frame beside_repair) (insert_skip n r t)" "keeps (frame beside_repair) (degrade E n x e)"
  "keeps (frame beside_repair) (delete_marker ag ai mk)"
  "keeps (frame security_audit) (ensure_checkpoint n a)" "keeps (frame security_audit) (set_checkpoint n q h)"
  "keeps (frame security_audit) (insert_skip n r t)" "keeps (frame security_audit) (degrade E n x e)"
  "keeps (frame security_audit) (delete_marker ag ai mk)"
  by (auto simp: keeps_def frame_def beside_repair_def ensure_checkpoint_def set_checkpoint_def insert_skip_def degrade_def
      mark_degraded_def delete_marker_def Let_def split: exn.split prod.split)

locale repair_view =
  fixes view :: "db \<Rightarrow> 'a"
  assumes views: "keeps (frame view) (ensure_checkpoint n a)" "keeps (frame view) (set_checkpoint n q h)"
    "keeps (frame view) (insert_skip n r t)" "keeps (frame view) (degrade E n x e)" "keeps (frame view) (delete_marker ag ai mk)"
    and restored: "frame view s s' \<Longrightarrow> frame view s (rollback s s')"
begin

lemma rows: "(\<And>e. keeps (frame view) (pj_apply P e)) \<Longrightarrow> keeps (frame view) (apply_rows E P rows l n)"
proof (induction rows arbitrary: l n)
  case (Cons row rows)
  have a: "keeps (frame view) (attempt (savepoint rollback (pj_apply P e)))" for e
    by (intro framed.keeps_attempt framed.keeps_savepoint restored Cons.prems)
  have b: "keeps (frame view) (case x of ProjectionApplyError ag ai why \<Rightarrow> f ag ai why | _ \<Rightarrow> throw x)"
    if "\<And>ag ai why. keeps (frame view) (f ag ai why)" for x and f :: "string \<Rightarrow> string \<Rightarrow> string \<Rightarrow> (int \<times> int) dbprog"
    using that by (cases x) (simp_all add: framed.keeps_throw)
  show ?case
    unfolding apply_rows.simps by (intro framed.keeps_rules a b views Cons.IH Cons.prems)
qed (simp add: framed.keeps_ret)

lemma run: "(\<And>e. keeps (frame view) (pj_apply P e)) \<Longrightarrow> keeps (frame view) (run_projection E P b)"
  unfolding run_projection_def by (intro framed.keeps_rules views rows)

lemma drains:
  assumes "\<And>e. keeps (frame view) (pj_apply P e)"
  shows "keeps (frame view) (drain n E P)"
  by (induction n) (simp_all only: drain.simps, (intro framed.keeps_rules run assms | assumption)+)

lemma replays: "(\<And>e. keeps (frame view) (pj_apply P e)) \<Longrightarrow> keeps (frame view) (replay_all E P)"
  unfolding replay_all_def by (intro framed.keeps_rules drains)

lemma proves:
  assumes "\<And>name P e. projection_for_repair name reg = Some P \<Longrightarrow> keeps (frame view) (pj_apply P e)"
  shows "keeps (frame view) (prove_markers E reg ag ai names)"
proof (induction names)
  case (Cons name names)
  have adv: "keeps (frame view) (advance_projection_past E P ag ai)" if "projection_for_repair name reg = Some P" for P
    unfolding advance_projection_past_def using that by (intro framed.keeps_rules replays assms)
  show ?case
  proof (cases "projection_for_repair name reg")
    case None
    show ?thesis
      unfolding prove_markers.simps None option.case by (rule framed.keeps_ret)
  next
    case (Some P)
    show ?thesis
      unfolding prove_markers.simps Some option.case
      by (intro framed.keeps_rules Cons adv [OF Some])
  qed
qed (simp only: prove_markers.simps framed.keeps_ret)

end

interpretation beside: repair_view beside_repair
  by unfold_locales (rule repair_frames | simp add: frame_def beside_repair_def rollback_def)+

interpretation quiet: repair_view security_audit
  by unfold_locales (rule repair_frames | simp add: frame_def rollback_def)+


lemma keeps_weaken: "keeps R m \<Longrightarrow> (\<And>s s'. R s s' \<Longrightarrow> S s s') \<Longrightarrow> keeps S m"
  by (simp add: keeps_def)

lemma framed_record: "keeps (frame beside_repair) (record_security_event E et a act dcn why ag ai rc key)"
proof (rule keepsI)
  fix s
  obtain r s' where r: "record_security_event E et a act dcn why ag ai rc key s = (r, s')"
    by fastforce
  show "frame beside_repair s (snd (record_security_event E et a act dcn why ag ai rc key s))"
  proof (cases r)
    case (Inl e)
    then show ?thesis
      using r by (auto simp: record_security_event_def andthen_def Let_def mint_id_def insert_audit_def signing_key_def frame_def
          beside_repair_def split: if_splits option.splits sum.splits prod.splits)
  next
    case (Inr i)
    with r have a: "record_security_event E et a act dcn why ag ai rc key s = (Inr i, s')"
      by simp
    show ?thesis
      by (rule record_security_event_Inr [OF a]) (simp add: r frame_def beside_repair_def)
  qed
qed

lemma framed_resolve:
  assumes "repairs_framed repairs"
  shows "keeps (frame beside_repair) (resolve_degraded_command repairs E cmd)"
proof -
  have "keeps (frame beside_repair) (prove_markers E repairs ag ai names)" for ag ai names
    using assms by (intro beside.proves) (simp add: repairs_framed_def)
  then show ?thesis
    unfolding resolve_degraded_command_def by (intro framed.keeps_rules beside.views framed_record)
qed

lemma audited_resolve:
  assumes "repairs_framed repairs" "audit_hmac_key E = Some k"
  shows "keeps (audit_step E k) (resolve_degraded_command repairs E cmd)"
proof -
  have quiet: "keeps (frame security_audit) m \<Longrightarrow> keeps (audit_step E k) m" for m :: "'x dbprog"
    by (erule keeps_weaken) (simp add: frame_def audit_step_frame)
  have "keeps (audit_step E k) (prove_markers E repairs ag ai names)" for ag ai names
    using assms(1) by (intro quiet quiet.proves) (simp add: repairs_framed_def)
  moreover have "keeps (audit_step E k) (delete_marker ag ai mk)" for ag ai mk
    by (intro quiet quiet.views)
  ultimately show ?thesis
    unfolding resolve_degraded_command_def by (intro audits.keeps_rules keeps_record [OF assms(2)])
qed

lemma framed_authorizer: "keeps (frame beside_repair) (policy_authorizer E cmd)"
proof -
  have "keeps (frame beside_repair) (authorize_command cmd)"
    by (rule keepsI) (simp add: authorize_command_state framed.rel_refl)
  then show ?thesis
    unfolding policy_authorizer_def record_denial_def by (intro framed.keeps_rules framed_record)
qed

subsection \<open>The catalogue under the entry point\<close>

lemma catalogue_keeps:
  assumes "feature_rel R E" "\<And>cmd. keeps R (submit_human_signal_command E cmd)"
    and "\<And>cmd. keeps R (resolve_degraded_command repairs E cmd)" "(a, h) \<in> set (CATALOG repairs)"
  shows "keeps R (h E cmd)"
  using assms(4) feature_rel.feature_catalogue [OF assms(1)] assms(2,3)
  by (auto simp: CATALOG_def cancel_command_def withdraw_command_def reject_command_def)

lemma handlers_keep:
  assumes "feature_rel R E" "\<And>cmd. keeps R (submit_human_signal_command E cmd)"
    and "\<And>cmd. keeps R (resolve_degraded_command repairs E cmd)" "get_command a (pc_handlers (production repairs)) = Inr h"
  shows "keeps R (h E cmd)"
  using catalogue_keeps [OF assms(1-3) get_production [OF assms(4)]] .

lemma production_clients:
  assumes "repairs_framed repairs"
  shows "command_clients (production repairs) E"
proof
  show "keeps idem_kept (current_authorizer (production repairs) E cmd)" for cmd
    unfolding current_authorizer_def production_def process.simps
    by (rule keeps_weaken [OF framed_authorizer]) (simp add: frame_def beside_repair_def idem_kept_def)
  fix a h cmd assume h: "get_command a (pc_handlers (production repairs)) = Inr h"
  from get_production [OF h] consider "h = submit_human_signal_command" | "h = resolve_degraded_command repairs"
    | "h \<noteq> submit_human_signal_command" "h \<noteq> resolve_degraded_command repairs"
    by blast
  then show "keeps idem_kept (h E cmd)"
  proof cases
    case 3
    then have "keeps (frame beside_aggregates) (h E cmd)"
      using get_production [OF h] framed_handlers.feature_catalogue
      by (auto simp: CATALOG_def cancel_command_def withdraw_command_def reject_command_def)
    then show ?thesis
      by (rule keeps_weaken) (simp add: frame_def beside_aggregates_def idem_kept_def)
  qed (use framed_signal_command framed_resolve [OF assms] in
      \<open>auto simp: keeps_def frame_def beside_gates_def beside_repair_def idem_kept_def\<close>)
qed


definition worker_repairs :: repair_registry where
  "worker_repairs = register_projection_for_repair ''stage_primary'' StagePrimaryProjection []"

lemma framed_primary: "keeps (frame beside_repair) (primary_apply e)" "keeps (frame security_audit) (primary_apply e)"
  by (auto simp: primary_apply_def keeps_def frame_def beside_repair_def andthen_def upsert_primary_def split: if_splits sum.split)

lemma worker_repairs_framed: "repairs_framed worker_repairs"
  using framed_primary by (auto simp: repairs_framed_def worker_repairs_def register_projection_for_repair_def
      projection_for_repair_def StagePrimaryProjection_def split: if_splits)

interpretation worker: command_clients "production worker_repairs" E for E
  by (rule production_clients [OF worker_repairs_framed])

subsection \<open>The invariants of all components\<close>

definition sound :: "env \<Rightarrow> db \<Rightarrow> bool" where
  "sound E s \<longleftrightarrow> wf_store E s \<and> ends_once s \<and> slots_ok s \<and> gate_ok s \<and> (\<forall>k. audit_hmac_key E = Some k \<longrightarrow> audit_ok E k s)"

definition sound_step :: "env \<Rightarrow> db \<Rightarrow> db \<Rightarrow> bool" where
  "sound_step E s s' \<longleftrightarrow> run_step E s s' \<and> slot_step s s' \<and> gate_kept s s'
     \<and> (\<forall>k. audit_hmac_key E = Some k \<longrightarrow> audit_step E k s s') \<and> gseq s \<le> gseq s'"

interpretation sounds: state_rel "sound_step E" for E
proof unfold_locales
  show "sound_step E s s" for s
    by (simp add: sound_step_def runs.rel_refl slots.rel_refl gate_safety.rel_refl audits.rel_refl)
  show "sound_step E s t \<Longrightarrow> sound_step E t u \<Longrightarrow> sound_step E s u" for s t u
    unfolding sound_step_def
    by (blast intro: runs.rel_trans slots.rel_trans gate_safety.rel_trans audits.rel_trans order_trans)
qed

lemma sound_step_sound: "sound_step E s s' \<Longrightarrow> sound E s \<Longrightarrow> sound E s'"
  by (auto simp: sound_def sound_step_def run_step_def store_step_def slot_step_def gate_kept_def audit_step_def)

lemma sound_aggregates:
  assumes "run_step E s s'" "slot_step s s'" "frame beside_aggregates s s'"
  shows "sound_step E s s'"
  using assms by (auto simp: sound_step_def frame_def beside_aggregates_def intro: gate_kept_frame audit_step_frame)

lemma sound_gates:
  assumes "frame beside_gates s s'" "gate_kept s s'"
  shows "sound_step E s s'"
  using assms by (auto simp: sound_step_def frame_def beside_gates_def intro: run_step_frame slot_step_frame audit_step_frame)

lemma sound_repair:
  assumes "frame beside_repair s s'" "\<And>k. audit_hmac_key E = Some k \<Longrightarrow> audit_step E k s s'"
  shows "sound_step E s s'"
  using assms by (auto simp: sound_step_def frame_def beside_repair_def intro: run_step_frame slot_step_frame gate_kept_frame)

lemma sound_quiet: "frame beside_repair s s' \<Longrightarrow> frame security_audit s s' \<Longrightarrow> sound_step E s s'"
  by (rule sound_repair) (auto simp: frame_def intro: audit_step_frame)

lemma sound_handlers:
  assumes "repairs_framed repairs" "(a, h) \<in> set (CATALOG repairs)"
  shows "keeps (sound_step E) (h E cmd)"
proof -
  consider "h = submit_human_signal_command" | "h = resolve_degraded_command repairs"
    | "h \<noteq> submit_human_signal_command" "h \<noteq> resolve_degraded_command repairs"
    by blast
  then show ?thesis
  proof cases
    case 1
    have "keeps gate_kept (submit_human_signal_command E cmd)"
      unfolding submit_human_signal_command_def by (intro gate_safety.keeps_rules gate_kept_signal)
    then show ?thesis
      using framed_signal_command by (auto simp: 1 keeps_def intro: sound_gates)
  next
    case 2
    then show ?thesis
      using framed_resolve [OF assms(1)] audited_resolve [OF assms(1)] by (auto simp: keeps_def intro!: sound_repair)
  next
    case 3
    then have "keeps (run_step E) (h E cmd)" "keeps slot_step (h E cmd)" "keeps (frame beside_aggregates) (h E cmd)"
      using assms(2) run_features.feature_catalogue slot_features.feature_catalogue framed_handlers.feature_catalogue
      by (auto simp: CATALOG_def cancel_command_def withdraw_command_def reject_command_def)
    then show ?thesis
      by (auto simp: keeps_def intro: sound_aggregates)
  qed
qed

lemma production_runs:
  assumes "repairs_framed repairs"
  shows "command_rel (sound_step E) (production repairs) E"
proof
  show "keeps (sound_step E) (current_authorizer (production repairs) E cmd)" for cmd
    using framed_authorizer keeps_policy_authorizer
    by (auto simp: current_authorizer_def production_def keeps_def intro!: sound_repair)
  show "keeps (sound_step E) (h E cmd)" if "get_command a (pc_handlers (production repairs)) = Inr h" for a h cmd
    using sound_handlers [OF assms get_production [OF that]] .
  show "sound_step E s (s\<lparr>command_idempotency := x\<rparr>)" for s x
    by (simp add: sound_step_def run_step_frame slot_step_frame gate_kept_frame audit_step_frame)
  show "sound_step E s (rollback s s')" if "sound_step E s s'" for s s'
    using that by (intro sound_quiet) (simp_all add: sound_step_def frame_def beside_repair_def rollback_def)
qed

interpretation worker_runs: command_rel "sound_step E" "production worker_repairs" E for E
  by (rule production_runs [OF worker_repairs_framed])


subsection \<open>Reachable stores\<close>

text \<open>
  The transactions of a process: commands of anyone, gate operations of the workflow, documents, runs of
  read models, the saga step of an approved run, events that end no run, and the clock.
\<close>

inductive reachable :: "repair_registry \<Rightarrow> env \<Rightarrow> db \<Rightarrow> bool" for repairs E where
  boot: "reachable repairs E (seeded empty_db)"
| command: "reachable repairs E s \<Longrightarrow> reachable repairs E (snd (execute_command (production repairs) E cmd s))"
| gate: "reachable repairs E s \<Longrightarrow> gate_op E s s' \<Longrightarrow> reachable repairs E s'"
| document: "reachable repairs E s \<Longrightarrow> reachable repairs E (snd (append_document new run_id fid rid actor s))"
| project: "reachable repairs E s \<Longrightarrow> projection_for_repair name repairs = Some P \<Longrightarrow> reachable repairs E (snd (run_projection E P batch s))"
| approved: "reachable repairs E s \<Longrightarrow> reachable repairs E (snd (on_run_approved E cols uc actor prov s))"
| event: "reachable repairs E s \<Longrightarrow> ends_no_run sp \<Longrightarrow> reachable repairs E (snd (append E sp s))"
| tick: "reachable repairs E s \<Longrightarrow> clock s \<le> t \<Longrightarrow> reachable repairs E (s\<lparr>clock := t\<rparr>)"

lemma framed_document:
  "frame beside_repair s (snd (append_document new run_id fid rid actor s))"
  "frame security_audit s (snd (append_document new run_id fid rid actor s))"
  by (auto simp: append_document_def andthen_def validate_dag_def insert_document_def lift_def require_def frame_def beside_repair_def
      Let_def split: sum.splits prod.splits if_splits option.splits)

lemma aggregate_transaction:
  assumes "keeps (run_step E) m" "keeps slot_step m" "keeps (frame beside_aggregates) m" "sound E s \<and> settled s"
  shows "sound E (snd (m s)) \<and> settled (snd (m s))"
proof -
  have f: "frame beside_aggregates s (snd (m s))"
    using assms(3) by (simp add: keeps_def)
  have "sound_step E s (snd (m s))"
    using assms(1,2) f by (intro sound_aggregates) (simp_all add: keeps_def)
  then show ?thesis
    using assms(4) f sound_step_sound by (auto simp: settled_def frame_def beside_aggregates_def)
qed

lemma quiet_transaction:
  assumes "frame beside_repair s s'" "frame security_audit s s'" "sound E s \<and> settled s"
  shows "sound E s' \<and> settled s'"
  using assms sound_step_sound [OF sound_quiet [OF assms(1,2), of E]]
  by (auto simp: settled_def frame_def beside_repair_def)

lemma reachable_step:
  assumes "repairs_framed repairs" "reachable repairs E s"
  shows "sound E s \<and> settled s"
  using assms(2)
proof induction
  case boot
  have "settled (seeded empty_db)" "wf_store E (seeded empty_db)" "ends_once (seeded empty_db)" "slots_ok (seeded empty_db)"
    "gate_ok (seeded empty_db)" "audit_ok E k (seeded empty_db)" for k
    by (simp_all add: settled_def seeded_def empty_db_def wf_store_def ends_once_def stream_rows_def contiguous_def slots_ok_def
        gate_ok_def audit_ok_def)
  then show ?case
    by (simp add: sound_def)
next
  case (command s cmd)
  then have "settled (snd (execute_command (production repairs) E cmd s))"
    using command_clients.refines [OF production_clients [OF assms(1)], of s E cmd] by (metis prod.collapse)
  moreover have "sound_step E s (snd (execute_command (production repairs) E cmd s))"
    using command_rel.execute [OF production_runs [OF assms(1)]] by (simp add: keeps_def)
  ultimately show ?case
    using command sound_step_sound by blast
next
  case (gate s s')
  then have "frame beside_gates s s'" "gate_kept s s'"
    using gate_op_frame gate_op_ok by (auto simp: gate_kept_def)
  with gate show ?case
    using sound_step_sound [OF sound_gates] by (auto simp: frame_def beside_gates_def settled_def)
next
  case (document s new run_id fid rid actor)
  then show ?case
    by (intro quiet_transaction [OF framed_document])
next
  case (project s name P batch)
  have "frame beside_repair s (snd (run_projection E P batch s))" "frame security_audit s (snd (run_projection E P batch s))"
    using beside.run [of P E batch] quiet.run [of P E batch] assms(1) project(2) by (auto simp: keeps_def repairs_framed_def)
  then show ?case
    using project(3) by (rule quiet_transaction)
next
  case (approved s cols uc actor prov)
  then show ?case
    by (intro aggregate_transaction run_features.run_approved slot_features.run_approved framed_handlers.run_approved)
next
  case (event s sp)
  then show ?case
    by (intro aggregate_transaction keeps_append keeps_append_slot framed_append)
next
  case (tick s t)
  have "frame beside_repair s (s\<lparr>clock := t\<rparr>)" "frame security_audit s (s\<lparr>clock := t\<rparr>)"
    by (simp_all add: frame_def beside_repair_def)
  then show ?case
    using tick(3) by (rule quiet_transaction)
qed

lemma entitled_claimed: "entitled cmd (claimed cmd s) = entitled cmd s"
proof -
  have g: "gather_gate_responders g r f (claimed cmd s) = gather_gate_responders g r f s" "resolve_run_author i (claimed cmd s) = resolve_run_author i s" for g r f i
    by (simp_all add: gather_gate_responders_def resolve_run_author_def claimed_def)
  have "gate_sod_reason j u r (claimed cmd s) = gate_sod_reason j u r s" for j u r
    by (simp add: gate_sod_reason_def g)
  then have "fst (enforce_sod cmd (claimed cmd s)) = fst (enforce_sod cmd s)"
    by (cases "opt_str (dget (cm_args cmd) ''run_id'')") (auto simp: enforce_sod_def andthen_def g)
  then show ?thesis
    using enforce_sod_state [of cmd s] enforce_sod_state [of cmd "claimed cmd s"]
    by (auto simp: entitled_def claimed_def prod_eq_iff)
qed

lemma authorizer_allows:
  assumes "policy_authorizer E cmd s = (Inr d, s')" "az_allowed d"
  shows "entitled cmd s \<and> s' = s"
proof -
  obtain base where a: "authorize_command cmd s = (Inr base, s)"
    and r: "(if \<not> az_allowed base then let reason = str_or (az_reason base) ''command denied''
        in andthen (record_denial E cmd reason) (\<lambda>_. ret (deny reason)) else ret permit) s = (Inr d, s')"
    using assms(1) authorize_command_state [of cmd s] by (auto simp: policy_authorizer_def andthen_eq_Inr split: if_splits)
  then show ?thesis
    using authorize_command_Inr [OF a] assms(2) by (auto simp: andthen_eq_Inr Let_def split: if_splits)
qed

subsection \<open>Properties\<close>

text \<open>
  C1: the claim protocol refines an abstract memo table of results.  Running a command against the
  production process either returns the stored result of its key and changes nothing of the table, or it
  stores an accepted result under a free key, or it leaves the table as it was (a refusal, a denial, a
  degraded block or an exception), so the key can be tried again; afterwards no claim is pending.
\<close>

theorem commands_refine_memo:
  assumes "repairs_framed repairs" "settled s" "execute_command (production repairs) E cmd s = (r, s')"
  shows "settled s' \<and> once (cm_idempotency_key cmd) (memo s) r (memo s')"
  by (rule command_clients.refines [OF production_clients [OF assms(1)] assms(2,3)])

definition overlay_service :: IdentityEnvelope where
  "overlay_service = audit_actor\<lparr>subject := ''service:overlay'', actor_kind := ''service'', auth_method := ''workload-identity'',
     role_claims := [''overlay''],
     attestation := Some ''spiffe''\<rparr>"

definition resume_cmd :: Command where
  "resume_cmd = \<lparr>cm_action = ''fact_confirmed_resume'', cm_aggregate = ''run'', cm_aggregate_id = Some ''f1'',
     cm_args = [(''fact_key'', JStr ''f1'')], cm_actor = overlay_service, cm_idempotency_key = ''k1'', cm_expected_version = None\<rparr>"

lemma resume_runs:
  "execute_command (production worker_repairs) plain_env resume_cmd (seeded empty_db) =
     (Inr (accept (Some ''f1'') []), (seeded empty_db)\<lparr>command_idempotency := [recorded_row resume_cmd (accept (Some ''f1'') [])]\<rparr>)"
proof -
  let ?s = "claimed resume_cmd (seeded empty_db)"
  have "authorize_command resume_cmd ?s = (Inr permit, ?s)"
    by code_simp
  then have a: "current_authorizer (production worker_repairs) plain_env resume_cmd ?s = (Inr permit, ?s)"
    by (simp add: current_authorizer_def production_def policy_authorizer_def andthen_def)
  have h: "get_command (cm_action resume_cmd) (pc_handlers (production worker_repairs)) = Inr fact_confirmed_resume_command"
    by (simp add: get_command_def production_def CATALOG_def resume_cmd_def)
  have f: "fact_confirmed_resume_command plain_env resume_cmd ?s = (Inr (accept (Some ''f1'') []), ?s)"
    by (simp add: fact_confirmed_resume_command_def resume_cmd_def dict_str_def runs_parked_on_fact_def claimed_def seeded_def
        empty_db_def andthen_def map_filter_simps or_else_def)
  have d: "is_degraded resume_cmd ?s = False"
    by (simp add: is_degraded_def claimed_def seeded_def empty_db_def resume_cmd_def)
  have "claim (cm_idempotency_key resume_cmd) (cm_action resume_cmd) (seeded empty_db) = (Inr True, ?s)"
    by (rule claim_free) (simp add: seeded_def empty_db_def)
  then show ?thesis
    by (simp add: execute_command_def execute_command_body_def run_claimed_def Let_def andthen_def savepoint_def a h f d finalize_def)
       (simp add: claimed_def recorded_row_def seeded_def empty_db_def)
qed

theorem commands_refine_memo_witness:
  "\<exists>s'. execute_command (production worker_repairs) plain_env resume_cmd (seeded empty_db) = (Inr (accept (Some ''f1'') []), s')
     \<and> memo s' ''k1'' = Some (accept (Some ''f1'') [])"
proof -
  have "settled (seeded empty_db)" "memo (seeded empty_db) ''k1'' = None"
    by (simp_all add: settled_def seeded_def empty_db_def memo_def idem_at_def)
  with commands_refine_memo [OF worker_repairs_framed _ resume_runs] show ?thesis
    unfolding resume_runs by (auto simp: resume_cmd_def elim!: onceE)
qed


text \<open>
  C4: an accepted result is final.  Whatever commands run afterwards and whatever other transactions that
  leave the claims alone, a command with the same key, of anyone and with any action, gets that very
  result and changes nothing: no authorizer and no handler runs a second time.
\<close>

theorem accepted_result_is_final:
  assumes "repairs_framed repairs" "settled s" "execute_command (production repairs) E cmd s = (Inr r, s1)" "accepted r"
    and "(session (production repairs) E)\<^sup>*\<^sup>* s1 s2" "cm_idempotency_key cmd' = cm_idempotency_key cmd"
  shows "execute_command (production repairs) E cmd' s2 = (Inr r, s2)"
  by (rule command_clients.final [OF production_clients [OF assms(1)] assms(2-6)])

lemma settled_boot: "settled (seeded empty_db)" "memo (seeded empty_db) key = None"
  by (simp_all add: settled_def seeded_def empty_db_def memo_def idem_at_def)

theorem accepted_result_is_final_witness:
  "\<exists>s. (session (production worker_repairs) plain_env)\<^sup>*\<^sup>* (seeded empty_db) s
     \<and> execute_command (production worker_repairs) plain_env (final_answer\<lparr>cm_idempotency_key := ''k1''\<rparr>) s
         = (Inr (accept (Some ''f1'') []), s)"
proof -
  obtain s1 where run: "execute_command (production worker_repairs) plain_env resume_cmd (seeded empty_db) = (Inr (accept (Some ''f1'') []), s1)"
    using resume_runs by blast
  have step: "(session (production worker_repairs) plain_env)\<^sup>*\<^sup>* (seeded empty_db) s1"
    using session.command [of "production worker_repairs" plain_env "seeded empty_db" resume_cmd] by (simp add: run)
  have "session (production worker_repairs) plain_env s1 (s1\<lparr>clock := 5\<rparr>)"
    by (rule session.other) (simp add: idem_kept_def)
  then have later: "(session (production worker_repairs) plain_env)\<^sup>*\<^sup>* s1 (s1\<lparr>clock := 5\<rparr>)"
    by blast
  have "execute_command (production worker_repairs) plain_env (final_answer\<lparr>cm_idempotency_key := ''k1''\<rparr>) (s1\<lparr>clock := 5\<rparr>)
      = (Inr (accept (Some ''f1'') []), s1\<lparr>clock := 5\<rparr>)"
    by (rule accepted_result_is_final [OF worker_repairs_framed settled_boot(1) run _ later]) (simp_all add: resume_cmd_def)
  then show ?thesis
    using step later by (meson rtranclp_trans)
qed

text \<open>
  C3: no command takes effect without the right to it.  When a fresh command is accepted, its actor was
  entitled to it (a valid identity, a matching policy row, no duty violated), its aggregate was not
  degraded unless the command repairs it, its action is in the catalogue and its handler returned the
  result on the store with nothing added but the claim.
\<close>

theorem accepted_command_was_entitled:
  assumes "repairs_framed repairs" "settled s" "memo s (cm_idempotency_key cmd) = None"
    and "execute_command (production repairs) E cmd s = (Inr r, s')" "accepted r"
  shows "entitled cmd s \<and> (cm_action cmd = ''resolve_degraded'' \<or> \<not> is_degraded cmd s)
    \<and> (\<exists>h. (cm_action cmd, h) \<in> set (CATALOG repairs) \<and> fst (h E cmd (claimed cmd s)) = Inr r)"
proof -
  obtain d s1 h s2 where a: "policy_authorizer E cmd (claimed cmd s) = (Inr d, s1)" "az_allowed d"
    and g: "cm_action cmd = ''resolve_degraded'' \<or> \<not> is_degraded cmd s1"
    and h: "get_command (cm_action cmd) (pc_handlers (production repairs)) = Inr h" "h E cmd s1 = (Inr r, s2)"
    using command_clients.accepted_was_handled [OF production_clients [OF assms(1)] assms(2-5)]
    by (auto simp: current_authorizer_def production_def)
  have "entitled cmd s" "s1 = claimed cmd s"
    using authorizer_allows [OF a] by (simp_all add: entitled_claimed)
  moreover have "is_degraded cmd (claimed cmd s) = is_degraded cmd s"
    by (simp add: is_degraded_def claimed_def split: option.split)
  ultimately show ?thesis
    using g h get_production [OF h(1)] by auto
qed

theorem accepted_command_was_entitled_witness:
  "entitled resume_cmd (seeded empty_db) \<and> \<not> is_degraded resume_cmd (seeded empty_db)"
  using accepted_command_was_entitled [OF worker_repairs_framed settled_boot resume_runs] by (simp add: resume_cmd_def)

text \<open>
  C2: in every store that a process can reach by commands, gate operations, documents, read-model runs,
  approved runs and other appends, all invariants hold together: every stream is numbered without gaps, a run
  ends at most once, an active version was minted and is not blocked for its use case, an answered task has
  its quorum, the audit chain verifies, and every stored result is that of an accepted command.
\<close>

theorem reachable_stores_sound:
  assumes "repairs_framed repairs" "reachable repairs E s"
  shows "contiguous (stream_rows agg (Some aid) s) \<and> distinct (map er_event_id (events s))
    \<and> length (filter is_terminal_row (stream_rows ''run'' (Some run_id) s)) \<le> 1
    \<and> (\<forall>r \<in> set (feature_active_versions s). \<exists>v \<in> set (feature_versions s).
          fv_feature_version_id v = sl_feature_version_id r \<and> sl_use_case r \<notin> set (fv_blocked_use_cases v))
    \<and> (\<forall>t \<in> set (human_tasks s). tk_status t = ''answered'' \<longrightarrow>
          tk_quorum_required t \<le> int (length (authorities (task_answers (tk_task_id t) s))))
    \<and> (\<forall>k. audit_hmac_key E = Some k \<longrightarrow> verify_rows E k None (security_audit s))
    \<and> (\<forall>row \<in> set (command_idempotency s). \<exists>r. accepted r \<and> id_result row = serialize r)"
  using reachable_step [OF assms]
  unfolding sound_def wf_store_def ends_once_def slots_ok_def slot_ok_def gate_ok_def outcome_ok_def audit_ok_def settled_def
  by blast

theorem reachable_stores_sound_witness:
  "\<exists>s. reachable worker_repairs plain_env s \<and> length (command_idempotency s) = 1
     \<and> (\<forall>row \<in> set (command_idempotency s). \<exists>r. accepted r \<and> id_result row = serialize r)"
proof -
  have "reachable worker_repairs plain_env (snd (execute_command (production worker_repairs) plain_env resume_cmd (seeded empty_db)))"
    by (intro reachable.intros)
  from this reachable_stores_sound [OF worker_repairs_framed this] show ?thesis
    unfolding resume_runs by (intro exI [of _ "snd (execute_command (production worker_repairs) plain_env resume_cmd (seeded empty_db))"])
      (simp add: resume_runs)
qed


subsection \<open>Finding\<close>

text \<open>Three actions of the catalogue have no row in the seeded policy, so nobody is entitled to them.\<close>

theorem unseeded_commands_denied:
  assumes "cm_action cmd \<in> {''source_changed_revalidate'', ''finalize_deprecate'', ''deactivate_expired_version''}"
    and "authz_policy s = authz_policy (seeded empty_db)"
  shows "cm_action cmd \<in> fst ` set (CATALOG repairs) \<and> \<not> entitled cmd s"
proof -
  have "\<forall>r \<in> set (map policy_row_of POLICY_ROWS). po_action r \<notin> {''source_changed_revalidate'', ''finalize_deprecate'', ''deactivate_expired_version''}"
    by code_simp
  then show ?thesis
    using assms by (auto simp: entitled_def seeded_def CATALOG_def)
qed

end
