(* ===== verification/Dispatch.thy ===== *)
theory Dispatch
  imports Timers Outbox External Catalogue
begin

text \<open>
  The worker of the durable runtime: the ledger of processed messages (\<open>runtime/ledger.py\<close>), the
  registry of step handlers (\<open>runtime/handlers.py\<close>), the atomic step (\<open>runtime/step.py\<close>), the dispatch
  of one message (\<open>runtime/dispatch.py\<close>) and the control signals (\<open>runtime/worker.py\<close>).

  A step handler is code outside the model: an arbitrary function of its context and of the committed
  store (its read-only connection), which returns a declared result, raises, or runs out of its time
  (\<open>HandlerTimeout\<close>).  Every write of a step is made by \<open>commit_step\<close>.
\<close>

subsection \<open>The ledger\<close>

definition is_processed :: "string \<Rightarrow> db \<Rightarrow> bool" where
  "is_processed message_id s \<longleftrightarrow> list_ex (\<lambda>r. pm_message_id r = message_id) (processed_messages s)"

definition record_processed :: "string \<Rightarrow> string \<Rightarrow> string \<Rightarrow> string option \<Rightarrow> int \<Rightarrow> unit dbprog" where
  "record_processed message_id agg aid result_event_id processed_seq = (\<lambda>s.
     if is_processed message_id s then (Inl (UniqueViolation ''processed_messages_pkey''), s)
     else (Inr (), s\<lparr>processed_messages := processed_messages s @
       [\<lparr>pm_message_id = message_id, pm_aggregate = agg, pm_aggregate_id = aid, pm_result_event_id = result_event_id,
         pm_processed_seq = processed_seq\<rparr>]\<rparr>))"

definition processed_watermark :: "db \<Rightarrow> int" where
  "processed_watermark s =
     (if projection_checkpoints s = [] then 0 else Min (set (map ck_checkpoint_seq (projection_checkpoints s))))"

definition prune_processed_messages :: "int dbprog" where
  "prune_processed_messages = (\<lambda>s.
     let watermark = processed_watermark s
     in (Inr (int (length (filter (\<lambda>r. pm_processed_seq r < watermark) (processed_messages s)))),
         s\<lparr>processed_messages := filter (\<lambda>r. \<not> pm_processed_seq r < watermark) (processed_messages s)\<rparr>))"

subsection \<open>Step handlers\<close>

record HandlerContext =
  hc_run_id :: string
  hc_triggering_event :: EventEnvelope
  hc_documents :: "(string \<times> NewDocument) list"

record step_handler =
  sh_name :: string
  sh_handle :: "HandlerContext \<Rightarrow> db \<Rightarrow> exn + HandlerResult"

type_synonym handler_registry = "(string \<times> step_handler) list"

definition register_handler :: "step_handler \<Rightarrow> (handler_registry, unit) prog" where
  "register_handler h = (\<lambda>reg. if map_of reg (sh_name h) \<noteq> None then (Inl ValueError, reg) else (Inr (), reg @ [(sh_name h, h)]))"

definition get_handler :: "string \<Rightarrow> handler_registry \<Rightarrow> exn + step_handler" where
  "get_handler name reg = (case map_of reg name of None \<Rightarrow> Inl KeyError | Some h \<Rightarrow> Inr h)"

text \<open>The handler of the activation saga; an instant in a payload is its number.\<close>

definition activate_version_handle :: "HandlerContext \<Rightarrow> db \<Rightarrow> exn + HandlerResult" where
  "activate_version_handle ctx committed =
     (let p = ev_payload (hc_triggering_event ctx)
      in chain (dict_str p ''feature_id'') (\<lambda>fid.
         chain (dict_str p ''feature_version_id'') (\<lambda>fv.
         chain (dict_str p ''use_case'') (\<lambda>use_case.
         chain (opt_str (dget p ''base_feature_version_id'')) (\<lambda>base.
         chain (dict_str p ''approval_type'') (\<lambda>approval_type.
         chain (opt_time (dget p ''expires_at'')) (\<lambda>expires_at.
         Inr \<lparr>hr_disposition = OK, hr_new_events = [], hr_document = None, hr_external_commands = [], hr_timers = [],
           hr_activations = [\<lparr>na_feature_id = fid, na_feature_version_id = fv, na_use_case = use_case,
             na_base_feature_version_id = base, na_approval_type = approval_type, na_expires_at = expires_at, na_provenance = None\<rparr>],
           hr_error = None\<rparr>)))))))"

definition ACTIVATE_VERSION_HANDLER :: step_handler where
  "ACTIVATE_VERSION_HANDLER = \<lparr>sh_name = ''activate_version'', sh_handle = activate_version_handle\<rparr>"

definition register_phase06_handlers :: "(handler_registry, unit) prog" where
  "register_phase06_handlers = register_handler ACTIVATE_VERSION_HANDLER"

subsection \<open>The atomic step\<close>

record StepCommit =
  sc_appended_event_ids :: "string list"
  sc_document_id :: "string option"
  sc_outbox_message_ids :: "string list"
  sc_processed_seq :: int
  sc_timer_ids :: "string list"
  sc_external_command_ids :: "string list"

definition gen_id :: "env \<Rightarrow> string \<Rightarrow> string dbprog" where
  "gen_id E pre = (\<lambda>s. (Inr (pre @ ''_'' @ uuid4_hex E (draws s)), s\<lparr>draws := Suc (draws s)\<rparr>))"

definition insert_step_document :: "HandlerContext \<Rightarrow> NewDocument option \<Rightarrow> string option dbprog" where
  "insert_step_document ctx doc =
     (case doc of None \<Rightarrow> ret None
      | Some d \<Rightarrow>
          (let te = hc_triggering_event ctx
           in andthen (append_document d (Some (hc_run_id ctx)) (ev_feature_id te) (ev_request_id te) (ev_actor te)) (\<lambda>i. ret (Some i))))"

text \<open>A reference that is no text is a parameter the comparison with a text column refuses.\<close>

definition validate_event_doc_refs :: "NewEvent list \<Rightarrow> string option \<Rightarrow> unit dbprog" where
  "validate_event_doc_refs evs document_id =
     andthen (for_each evs (\<lambda>ne.
       case dget (ne_payload ne) ''document_id'' of
         JNull \<Rightarrow> ret ()
       | JStr i \<Rightarrow>
           if Some i = document_id then ret ()
           else andthen (query (get_document i)) (\<lambda>found. if found = None then throw ValueError else ret ())
       | _ \<Rightarrow> throw TypeError)) (\<lambda>_. ret ())"

definition apply_activations :: "env \<Rightarrow> HandlerContext \<Rightarrow> NewActivation list \<Rightarrow> unit dbprog" where
  "apply_activations E ctx acts =
     andthen (for_each acts (\<lambda>act.
       apply_activation E (Some (na_feature_id act)) (na_feature_version_id act) (na_use_case act) (na_base_feature_version_id act)
         (na_approval_type act) (ev_actor (hc_triggering_event ctx)) (na_expires_at act) (na_provenance act) None)) (\<lambda>_. ret ())"

text \<open>The events in order, each on the version the one before it made.\<close>

fun append_chain :: "env \<Rightarrow> NewEvent list \<Rightarrow> int \<Rightarrow> int \<Rightarrow> EventEnvelope list dbprog" where
  "append_chain E [] version table_version = ret []"
| "append_chain E (ne # evs) version table_version =
     andthen (append_event E ne version table_version) (\<lambda>e.
     andthen (append_chain E evs (ev_stream_version e) table_version) (\<lambda>es. ret (e # es)))"

definition step_seq :: "EventEnvelope list \<Rightarrow> db \<Rightarrow> int" where
  "step_seq appended s = (if appended = [] then max 1 (gseq s) else Max (set (map ev_global_seq appended)))"

definition commit_step :: "env \<Rightarrow> HandlerContext \<Rightarrow> HandlerResult \<Rightarrow> string \<Rightarrow> int \<Rightarrow> int \<Rightarrow> StepCommit dbprog" where
  "commit_step E ctx result message_id expected_version table_version =
     (let te = hc_triggering_event ctx
      in andthen (insert_step_document ctx (hr_document result)) (\<lambda>document_id.
         andthen (validate_event_doc_refs (hr_new_events result) document_id) (\<lambda>_.
         andthen (apply_activations E ctx (hr_activations result)) (\<lambda>_.
         andthen (append_chain E (hr_new_events result) expected_version table_version) (\<lambda>appended.
         andthen (for_each (hr_timers result) (schedule_timer E (ev_aggregate te) (ev_aggregate_id te))) (\<lambda>timer_ids.
         andthen (for_each (hr_external_commands result) (\<lambda>cmd.
           andthen (gen_id E ''cmd'') (\<lambda>command_id.
           record_external_command cmd command_id (Some (hc_run_id ctx)) [''sandbox'']))) (\<lambda>external_command_ids.
         andthen (lift (outbox_messages_for_events appended)) (\<lambda>msgs.
         andthen (for_each msgs insert_outbox_message) (\<lambda>_.
         andthen (query (step_seq appended)) (\<lambda>processed_seq.
         andthen (record_processed message_id (ev_aggregate te) (ev_aggregate_id te)
           (if appended = [] then None else Some (ev_event_id (last appended))) processed_seq) (\<lambda>_.
         ret \<lparr>sc_appended_event_ids = map ev_event_id appended, sc_document_id = document_id,
           sc_outbox_message_ids = map om_message_id msgs, sc_processed_seq = processed_seq, sc_timer_ids = timer_ids,
           sc_external_command_ids = external_command_ids\<rparr>)))))))))))"

subsection \<open>One message\<close>

record ProcessOutcome =
  po_status :: string
  po_message_id :: "string option"
  po_queue_id :: "int option"

definition is_timer_command_message :: "QueueClaim \<Rightarrow> bool" where
  "is_timer_command_message qc \<longleftrightarrow> take 6 (qc_handler qc) = ''timer.'' \<and> ''handler'' \<in> fst ` set (qc_payload qc)"

type_synonym document_loader = "db \<Rightarrow> string \<Rightarrow> (string \<times> NewDocument) list"

definition default_document_loader :: document_loader where
  "default_document_loader s run_id = []"

text \<open>\<open>payload.get("run_id") or payload.get("aggregate_id")\<close>.\<close>

definition run_ref :: "dict \<Rightarrow> json" where
  "run_ref payload = (if truthy (dget payload ''run_id'') then dget payload ''run_id'' else dget payload ''aggregate_id'')"

text \<open>
  The reference is compared with a text column.  The server rejects the statement for a number, a truth
  value or a list, which aborts the transaction of the delivery: the poison guard's own update fails too,
  and \<open>process_one\<close> raises.  An object is refused by the driver before the server sees it.
\<close>

definition statement_rejected :: "dict \<Rightarrow> bool" where
  "statement_rejected payload \<longleftrightarrow> has_key payload ''event_id'' \<and>
     (case run_ref payload of JBool _ \<Rightarrow> True | JInt _ \<Rightarrow> True | JArr xs \<Rightarrow> xs \<noteq> [] | _ \<Rightarrow> False)"

definition build_context :: "env \<Rightarrow> QueueClaim \<Rightarrow> document_loader \<Rightarrow> HandlerContext dbprog" where
  "build_context E qc loader =
     (let payload = qc_payload qc
      in andthen (lift (dict_item payload ''event_id'')) (\<lambda>event_id.
         andthen (lift (opt_str (run_ref payload))) (\<lambda>run_id.
         andthen (load_stream E ''run'' run_id) (\<lambda>stream.
         case find (\<lambda>e. JStr (ev_event_id e) = event_id) stream of
           None \<Rightarrow> throw KeyError
         | Some e \<Rightarrow>
             andthen (query (\<lambda>s. loader s (str_or run_id []))) (\<lambda>docs.
             ret \<lparr>hc_run_id = str_or run_id [], hc_triggering_event = e, hc_documents = docs\<rparr>)))))"

definition outcome :: "QueueClaim \<Rightarrow> string \<Rightarrow> ProcessOutcome" where
  "outcome qc status = \<lparr>po_status = status, po_message_id = Some (qc_message_id qc), po_queue_id = Some (qc_id qc)\<rparr>"

definition retry_later :: "env \<Rightarrow> QueueClaim \<Rightarrow> string \<Rightarrow> ProcessOutcome dbprog" where
  "retry_later E qc error = andthen (fail_retryable E (qc_id qc) error) (\<lambda>_. ret (outcome qc ''retryable''))"

definition give_up :: "QueueClaim \<Rightarrow> string \<Rightarrow> ProcessOutcome dbprog" where
  "give_up qc error = andthen (fail_permanent (qc_id qc) error) (\<lambda>_. ret (outcome qc ''permanent''))"

definition finish :: "QueueClaim \<Rightarrow> string \<Rightarrow> ProcessOutcome dbprog" where
  "finish qc status = andthen (complete (qc_id qc)) (\<lambda>_. ret (outcome qc status))"

definition timer_command_message :: "env \<Rightarrow> (string \<Rightarrow> handler option) \<Rightarrow> QueueClaim \<Rightarrow> ProcessOutcome dbprog" where
  "timer_command_message E lookup qc =
     andthen (attempt (savepoint rollback (dispatch_timer_command lookup E (qc_payload qc)))) (\<lambda>r.
     case r of
       Inr _ \<Rightarrow> finish qc ''ok''
     | Inl e \<Rightarrow> if e = DisallowedTimerCommand then give_up qc (exn_text E e)
               else retry_later E qc (''timer command fault: '' @ exn_text E e))"

definition step_message :: "env \<Rightarrow> step_handler \<Rightarrow> document_loader \<Rightarrow> db \<Rightarrow> QueueClaim \<Rightarrow> ProcessOutcome dbprog" where
  "step_message E h loader committed qc =
     andthen (build_context E qc loader) (\<lambda>ctx.
     case sh_handle h ctx committed of
       Inl e \<Rightarrow> if e = HandlerTimeout then retry_later E qc (exn_text E e) else throw e
     | Inr result \<Rightarrow>
         (case hr_disposition result of
            OK \<Rightarrow>
              andthen (attempt (savepoint rollback (commit_step E ctx result (qc_message_id qc)
                (ev_stream_version (hc_triggering_event ctx)) (ev_table_version (hc_triggering_event ctx))))) (\<lambda>r.
              case r of
                Inr _ \<Rightarrow> finish qc ''ok''
              | Inl e \<Rightarrow> if e = ConcurrencyError then retry_later E qc (''OCC: '' @ exn_text E e) else throw e)
          | RETRYABLE \<Rightarrow> retry_later E qc (str_or (hr_error result) ''retryable'')
          | PERMANENT \<Rightarrow> give_up qc (str_or (hr_error result) ''permanent'')))"

definition process_claim ::
  "env \<Rightarrow> handler_registry \<Rightarrow> (string \<Rightarrow> handler option) \<Rightarrow> document_loader \<Rightarrow> db \<Rightarrow> QueueClaim \<Rightarrow> ProcessOutcome dbprog" where
  "process_claim E registry lookup loader committed qc =
     andthen (query (is_processed (qc_message_id qc))) (\<lambda>seen.
     if seen then finish qc ''duplicate''
     else if is_timer_command_message qc then timer_command_message E lookup qc
     else
       (case get_handler (qc_handler qc) registry of
          Inl e \<Rightarrow> give_up qc (exn_text E e)
        | Inr h \<Rightarrow>
            if statement_rejected (qc_payload qc) then throw InFailedSqlTransaction
            else catch (step_message E h loader committed qc) (\<lambda>e.
              retry_later E qc (''handler fault: '' @ exn_text E e))))"

definition process_one ::
  "env \<Rightarrow> handler_registry \<Rightarrow> (string \<Rightarrow> handler option) \<Rightarrow> document_loader \<Rightarrow> string \<Rightarrow> ProcessOutcome dbprog" where
  "process_one E registry lookup loader owner = (\<lambda>committed.
     savepoint rollback (
       andthen (claim_one owner (30 * MICROS)) (\<lambda>claimed.
       case claimed of
         None \<Rightarrow> ret \<lparr>po_status = ''idle'', po_message_id = None, po_queue_id = None\<rparr>
       | Some qc \<Rightarrow> process_claim E registry lookup loader committed qc)) committed)"

definition recover_stuck :: "(int \<times> int) dbprog" where
  "recover_stuck = andthen reclaim_stuck_queue (\<lambda>q. andthen reclaim_stuck_outbox (\<lambda>ob. ret (q, ob)))"

subsection \<open>Control signals\<close>

text \<open>\<open>as_text\<close> is the \<open>format\<close> of a value in an f-string.\<close>

definition park_run :: "env \<Rightarrow> (json \<Rightarrow> string) \<Rightarrow> string \<Rightarrow> IdentityEnvelope \<Rightarrow> dict \<Rightarrow> unit dbprog" where
  "park_run E as_text run_id actor payload =
     andthen (run_is_terminal E (Some run_id)) (\<lambda>terminal.
     if terminal then ret ()
     else
       andthen (run_is_parked E (Some run_id)) (\<lambda>parked.
       if parked then ret ()
       else
         andthen (park_command E \<lparr>cm_action = ''park'', cm_aggregate = ''run'', cm_aggregate_id = Some run_id,
           cm_args = [(''owner'', dget payload ''owner''), (''waiting_on_fact'', dget payload ''waiting_on_fact''), (''reason'', dget payload ''reason'')],
           cm_actor = actor, cm_idempotency_key = ''auto-park:'' @ run_id @ '':'' @ as_text (case map_of payload ''reason'' of None \<Rightarrow> JStr [] | Some v \<Rightarrow> v), cm_expected_version = None\<rparr>) (\<lambda>_. ret ())))"

definition control_actor :: "exn + IdentityEnvelope" where
  "control_actor = build_service_identity ''service:control-plane'' [''worker''] ''auto-park-poller'' [] None None False"

definition control_signal :: "env \<Rightarrow> (json \<Rightarrow> string) \<Rightarrow> queue_row \<Rightarrow> nat dbprog" where
  "control_signal E as_text row =
     (let payload = qu_payload row; run_ref = dget payload ''run_id''
      in if qu_handler row = ''runtime.auto_park'' \<and> truthy run_ref then
           andthen (lift control_actor) (\<lambda>actor.
           andthen (lift (case run_ref of JStr i \<Rightarrow> Inr i | _ \<Rightarrow> Inl TypeError)) (\<lambda>run_id.
           andthen (park_run E as_text run_id actor payload) (\<lambda>_.
           andthen (complete (qu_id row)) (\<lambda>_. ret 1))))
         else
           andthen (fail_permanent (qu_id row) (''no consumer wired for '' @ qu_handler row @ '' (SP-0.5 follow-up)'')) (\<lambda>_. ret 0))"

definition control_rows :: "db \<Rightarrow> queue_row list" where
  "control_rows s = sort_key qu_priority (sort_key qu_available_at (sort_key qu_id
     (filter (\<lambda>r. qu_status r = ''ready'' \<and> qu_available_at r \<le> clock s \<and> qu_handler r \<in> set CONTROL_SIGNAL_HANDLERS) (queue s))))"

definition drain_control_signals :: "env \<Rightarrow> (json \<Rightarrow> string) \<Rightarrow> nat dbprog" where
  "drain_control_signals E as_text = savepoint rollback (
     andthen (query control_rows) (\<lambda>rows.
     andthen (for_each rows (control_signal E as_text)) (\<lambda>parked. ret (sum_list parked))))"


subsection \<open>What the parts of a step leave alone\<close>

lemma ledger_parts:
  "keeps (frame processed_messages) (append_document d run_id fid rid actor)"
  "keeps (frame processed_messages) (append_event E ne v tv)"
  "keeps (frame processed_messages) (apply_activation E feature_id fv uc base at actor expires prov policy)"
  "keeps (frame processed_messages) (schedule_timer E agg aid timer)"
  "keeps (frame processed_messages) (gen_id E pre)"
  "keeps (frame processed_messages) (record_external_command cmd i run dedup)"
  "keeps (frame processed_messages) (insert_outbox_message msg)"
  "keeps (frame processed_messages) (complete qid)"
proof -
  have u: "keeps (frame processed_messages) (update f)"
    if "\<And>s. processed_messages (f s) = processed_messages s \<and> gseq (f s) = gseq s" for f
    using that by (intro framed.keeps_update) (simp add: frame_def)
  have new: "keeps (frame processed_messages) (new_id E p)" "keeps (frame processed_messages) (insert_timer row)"
    "keeps (frame processed_messages) (insert_outbox_row msg hash)" for p row hash
    by (auto simp: keeps_def frame_def new_id_def insert_timer_def insert_outbox_row_def Let_def split: option.split)
  show "keeps (frame processed_messages) (append_event E ne v tv)"
    by (rule keeps_weaken [OF append_event_frame]) (simp add: frame_def beside_aggregates_def)
  show "keeps (frame processed_messages) (apply_activation E feature_id fv uc base at actor expires prov policy)"
    by (rule keeps_weaken [OF framed_activation]) (simp add: frame_def beside_aggregates_def)
  show "keeps (frame processed_messages) (schedule_timer E agg aid timer)"
    unfolding schedule_timer_def by (intro framed.keeps_rules new)
  show "keeps (frame processed_messages) (record_external_command cmd i run dedup)"
    unfolding record_external_command_def by (intro framed.keeps_rules u) simp
  show "keeps (frame processed_messages) (insert_outbox_message msg)"
    unfolding insert_outbox_message_def by (intro framed.keeps_rules new)
  show "keeps (frame processed_messages) (append_document d run_id fid rid actor)"
    by (auto simp: keeps_def append_document_def andthen_def validate_dag_def insert_document_def lift_def require_def frame_def
        Let_def split: sum.splits prod.splits if_splits option.splits)
qed (auto simp: keeps_def frame_def gen_id_def complete_def update_queue_def)

lemma ledger_chain: "keeps (frame processed_messages) (append_chain E evs v tv)"
  by (induction evs arbitrary: v) (auto intro!: framed.keeps_rules ledger_parts)

lemma record_processed_ok:
  "record_processed m agg aid res n s = (Inr x, s') \<longleftrightarrow> \<not> is_processed m s \<and> s' = s\<lparr>processed_messages := processed_messages s @
     [\<lparr>pm_message_id = m, pm_aggregate = agg, pm_aggregate_id = aid, pm_result_event_id = res, pm_processed_seq = n\<rparr>]\<rparr>"
  by (auto simp: record_processed_def)

text \<open>A step that commits had not been recorded, and is the one row it adds to the ledger.\<close>

lemma commit_step_ledger:
  assumes "commit_step E ctx result m v tv s = (Inr st, s')"
  shows "\<not> is_processed m s \<and> (\<exists>row. pm_message_id row = m \<and> processed_messages s' = processed_messages s @ [row])"
proof -
  let ?L = "frame processed_messages"
  have parts: "keeps ?L (insert_step_document ctx d)" "keeps ?L (validate_event_doc_refs evs i)" "keeps ?L (apply_activations E ctx acts)"
    "keeps ?L (for_each ts (schedule_timer E agg aid))" "keeps ?L (for_each msgs insert_outbox_message)"
    "keeps ?L (for_each cmds (\<lambda>cmd. andthen (gen_id E p) (\<lambda>i. record_external_command cmd i run ds)))"
    for d evs i acts ts agg aid msgs cmds p run ds
    unfolding insert_step_document_def validate_event_doc_refs_def apply_activations_def Let_def
    by (intro framed.keeps_rules ledger_parts)+
  obtain s0 agg aid res n where rec: "record_processed m agg aid res n s0 = (Inr (), s')" "processed_messages s0 = processed_messages s"
    using assms unfolding commit_step_def Let_def andthen_eq_Inr
    by (elim exE conjE)
       (auto 0 0 simp: ret_def lift_def query_def frame_def
         dest!: keepsD [OF parts(1)] keepsD [OF parts(2)] keepsD [OF parts(3)] keepsD [OF parts(4)] keepsD [OF parts(5)]
           keepsD [OF parts(6)] keepsD [OF ledger_chain])
  then show ?thesis
    by (auto simp: record_processed_ok is_processed_def)
qed


subsection \<open>The ways a message ends\<close>

text \<open>A store with more sequence values and random numbers taken, and nothing written.\<close>

definition contents :: "db \<Rightarrow> db" where
  "contents s = s\<lparr>gseq := 0, draws := 0, queue_seq := 0, outbox_seq := 0\<rparr>"

definition drawn :: "db \<Rightarrow> db \<Rightarrow> bool" where
  "drawn s t \<longleftrightarrow> contents t = contents s"

text \<open>A store in which at most the queue has been written.\<close>

definition delivered :: "db \<Rightarrow> db \<Rightarrow> bool" where
  "delivered s t \<longleftrightarrow> drawn (s\<lparr>queue := queue t\<rparr>) t"

lemma drawn_rollback [simp]: "drawn s (rollback s t)"
  by (simp add: drawn_def contents_def rollback_def)

lemma drawn_fields:
  assumes "drawn s t"
  shows "queue t = queue s" "clock t = clock s" "processed_messages t = processed_messages s"
  using assms [unfolded drawn_def, THEN arg_cong, of queue] assms [unfolded drawn_def, THEN arg_cong, of clock]
    assms [unfolded drawn_def, THEN arg_cong, of processed_messages]
  by (simp_all add: contents_def)

interpretation sequences: state_rel drawn
  by unfold_locales (auto simp: drawn_def)

lemma contents_queue: "contents (s\<lparr>queue := q\<rparr>) = (contents s)\<lparr>queue := q\<rparr>"
  by (simp add: contents_def)

lemma delivered_eq: "delivered s t \<longleftrightarrow> contents (t\<lparr>queue := []\<rparr>) = contents (s\<lparr>queue := []\<rparr>)"
proof
  assume "delivered s t"
  then have "(contents t)\<lparr>queue := []\<rparr> = (contents (s\<lparr>queue := queue t\<rparr>))\<lparr>queue := []\<rparr>"
    by (simp add: delivered_def drawn_def)
  then show "contents (t\<lparr>queue := []\<rparr>) = contents (s\<lparr>queue := []\<rparr>)"
    by (simp add: contents_queue)
next
  assume "contents (t\<lparr>queue := []\<rparr>) = contents (s\<lparr>queue := []\<rparr>)"
  then have "(contents (t\<lparr>queue := []\<rparr>))\<lparr>queue := queue t\<rparr> = (contents (s\<lparr>queue := []\<rparr>))\<lparr>queue := queue t\<rparr>"
    by simp
  then show "delivered s t"
    by (simp add: delivered_def drawn_def contents_def)
qed

interpretation deliveries: state_rel delivered
  by unfold_locales (simp_all add: delivered_eq)

lemma drawn_delivered: "drawn s t \<Longrightarrow> delivered s t"
  using drawn_fields(1) by (simp add: delivered_def)

lemma delivered_ledger: "delivered s t \<Longrightarrow> processed_messages t = processed_messages s"
  unfolding delivered_def by (drule drawn_fields(3)) simp

lemma update_queue_eq: "update_queue i f s = (Inr (), s\<lparr>queue := map (\<lambda>r. if qu_id r = i then f r else r) (queue s)\<rparr>)"
  by (simp add: update_queue_def)

lemma keeps_delivered:
  "keeps delivered (claim_one owner lease)" "keeps delivered (retry_later E qc e)" "keeps delivered (give_up qc e)"
  "keeps delivered (finish qc st)"
proof -
  have u: "keeps delivered (update_queue i f)" for i f
    by (rule keepsI) (simp add: update_queue_eq delivered_eq contents_def)
  have b: "keeps delivered (compute_backoff E n)" for n
  proof (rule keepsI)
    fix s
    show "delivered s (snd (compute_backoff E n s))"
      using backoff_state [of E n s] by (cases "compute_backoff E n s") (auto simp: delivered_eq contents_def)
  qed
  show "keeps delivered (claim_one owner lease)"
    by (rule keepsI) (auto simp: claim_one_eq delivered_eq contents_def split: option.split)
  show "keeps delivered (retry_later E qc e)" "keeps delivered (give_up qc e)" "keeps delivered (finish qc st)"
    unfolding retry_later_def give_up_def finish_def fail_retryable_def fail_permanent_def complete_def
    by (intro deliveries.keeps_rules u b)+
qed

text \<open>A rescheduling that fails has written nothing.\<close>

lemma retry_later_Inl: "retry_later E qc e s = (Inl x, s') \<Longrightarrow> drawn s s'"
  by (auto simp: retry_later_def fail_retryable_def fail_permanent_def update_queue_eq andthen_def drawn_def contents_def
      dest!: backoff_state split: option.splits if_splits prod.splits sum.splits)

lemma outcomes:
  "finish qc st t = (r, s') \<Longrightarrow> r = Inr (outcome qc st)"
  "give_up qc e t = (r, s') \<Longrightarrow> r = Inr (outcome qc ''permanent'')"
  "retry_later E qc e t = (Inr po, s') \<Longrightarrow> po = outcome qc ''retryable''"
  by (simp_all add: finish_def complete_def update_queue_eq give_up_def fail_permanent_def andthen_def)
     (auto simp: retry_later_def andthen_eq_Inr)

lemma build_context_state: "keeps (frame (\<lambda>s. s)) (build_context E qc loader)"
  unfolding build_context_def Let_def by (intro framed.keeps_rules framed_load)

text \<open>The message failed, and was rescheduled or given up.\<close>

definition failed :: "env \<Rightarrow> QueueClaim \<Rightarrow> db \<Rightarrow> (exn + ProcessOutcome) \<times> db \<Rightarrow> bool" where
  "failed E qc s res \<longleftrightarrow> (\<exists>e t. drawn s t \<and> (retry_later E qc e t = res \<or> give_up qc e t = res))"

lemma failedI:
  "retry_later E qc e t = res \<Longrightarrow> drawn s t \<Longrightarrow> failed E qc s res" "give_up qc e t = res \<Longrightarrow> drawn s t \<Longrightarrow> failed E qc s res"
  by (auto simp: failed_def)

lemma step_message_cases:
  assumes "step_message E h loader committed qc s = (r, s')"
  obtains ctx result st s1 where "sh_handle h ctx committed = Inr result" "hr_disposition result = OK"
      "commit_step E ctx result (qc_message_id qc) (ev_stream_version (hc_triggering_event ctx))
         (ev_table_version (hc_triggering_event ctx)) s = (Inr st, s1)" "finish qc ''ok'' s1 = (r, s')"
    | "failed E qc s (r, s')"
    | x where "r = Inl x" "drawn s s'"
proof -
  obtain rc sc where c: "build_context E qc loader s = (rc, sc)"
    by fastforce
  have "sc = s"
    using keepsD [OF build_context_state c] by (simp add: frame_def)
  note c = c [unfolded this]
  note failure = that(2) [OF failedI(1)] that(2) [OF failedI(2)]
  show thesis
  proof (cases rc)
    case (Inl e)
    then show thesis
      using assms that(3) by (auto simp: step_message_def andthen_def c sequences.rel_refl)
  next
    case ctx: (Inr ctx)
    show thesis
    proof (cases "sh_handle h ctx committed")
      case (Inl e)
      then show thesis
        using assms by (auto simp: step_message_def andthen_def c ctx sequences.rel_refl split: if_splits intro: failure that(3))
    next
      case result: (Inr result)
      let ?commit = "commit_step E ctx result (qc_message_id qc) (ev_stream_version (hc_triggering_event ctx))
        (ev_table_version (hc_triggering_event ctx))"
      obtain rs s1 where k: "?commit s = (rs, s1)"
        by fastforce
      show thesis
      proof (cases "hr_disposition result")
        case OK
        then show thesis
          using assms that(1) [OF result OK]
          by (cases rs) (auto simp: step_message_def andthen_def c ctx result k attempt_def savepoint_def split: if_splits
              intro: failure that(3))
      qed (use assms in \<open>auto simp: step_message_def andthen_def c ctx result sequences.rel_refl intro: failure\<close>)
    qed
  qed
qed

lemma guarded_step_cases:
  assumes "catch (step_message E h loader committed qc) (\<lambda>e. retry_later E qc (''handler fault: '' @ exn_text E e)) s = (r, s')"
  obtains (step) ctx result st s1 where "sh_handle h ctx committed = Inr result" "hr_disposition result = OK"
      "commit_step E ctx result (qc_message_id qc) (ev_stream_version (hc_triggering_event ctx))
         (ev_table_version (hc_triggering_event ctx)) s = (Inr st, s1)" "finish qc ''ok'' s1 = (r, s')"
    | (failure) "failed E qc s (r, s')"
proof -
  obtain rm sm where m: "step_message E h loader committed qc s = (rm, sm)"
    by fastforce
  have run: "(case rm of Inl e \<Rightarrow> retry_later E qc (''handler fault: '' @ exn_text E e) sm | Inr y \<Rightarrow> (Inr y, sm)) = (r, s')"
    using assms by (cases rm) (auto simp: catch_def m)
  from m show thesis
  proof (cases rule: step_message_cases)
    case (1 ctx result st s1)
    then show thesis
      using run outcomes(1) [OF 1(4)] that(1) by auto
  next
    case 2
    show thesis
    proof (cases rm)
      case (Inl x)
      then have "drawn s sm"
        using 2 retry_later_Inl outcomes(2) sequences.rel_trans unfolding failed_def by blast
      then show thesis
        using run Inl by (auto intro!: that(2) failedI(1))
    qed (use run that(2) 2 in simp)
  next
    case (3 x)
    then show thesis
      using run by (auto intro!: that(2) failedI(1))
  qed
qed

lemma process_claim_cases:
  assumes "process_claim E registry lookup loader committed qc s = (r, s')"
  obtains (duplicate) "is_processed (qc_message_id qc) s" "finish qc ''duplicate'' s = (r, s')"
    | (timer) x s1 where "\<not> is_processed (qc_message_id qc) s" "is_timer_command_message qc"
        "dispatch_timer_command lookup E (qc_payload qc) s = (Inr x, s1)" "finish qc ''ok'' s1 = (r, s')"
    | (step) h ctx result st s1 where "get_handler (qc_handler qc) registry = Inr h" "\<not> is_timer_command_message qc"
        "sh_handle h ctx committed = Inr result" "hr_disposition result = OK"
        "commit_step E ctx result (qc_message_id qc) (ev_stream_version (hc_triggering_event ctx))
           (ev_table_version (hc_triggering_event ctx)) s = (Inr st, s1)" "finish qc ''ok'' s1 = (r, s')"
    | (failure) "\<not> is_processed (qc_message_id qc) s" "failed E qc s (r, s')"
    | (aborted) "r = Inl InFailedSqlTransaction" "s' = s"
proof -
  note failure = that(4) [OF _ failedI(1)] that(4) [OF _ failedI(2)]
  consider "is_processed (qc_message_id qc) s" | "\<not> is_processed (qc_message_id qc) s" "is_timer_command_message qc"
    | "\<not> is_processed (qc_message_id qc) s" "\<not> is_timer_command_message qc"
    by blast
  then show thesis
  proof cases
    case 1
    then show thesis
      using assms that(1) by (simp add: process_claim_def andthen_def)
  next
    case 2
    then show thesis
      using assms that(2)
      by (auto simp: process_claim_def timer_command_message_def andthen_def attempt_def savepoint_def
          split: prod.splits sum.splits if_splits intro: failure)
  next
    case 3
    show thesis
    proof (cases "get_handler (qc_handler qc) registry")
      case (Inl e)
      then show thesis
        using assms 3 by (auto simp: process_claim_def andthen_def sequences.rel_refl intro: failure)
    next
      case h: (Inr h)
      show thesis
      proof (cases "statement_rejected (qc_payload qc)")
        case True
        then show thesis
          using assms 3 that(5) by (simp add: process_claim_def andthen_def h throw_def)
      next
        case False
        then have "catch (step_message E h loader committed qc) (\<lambda>e. retry_later E qc (''handler fault: '' @ exn_text E e)) s = (r, s')"
          using assms 3 by (simp add: process_claim_def andthen_def h)
        then show thesis
          by (cases rule: guarded_step_cases) (use that(3) [OF h 3(2)] that(4) [OF 3(1)] in blast)+
      qed
    qed
  qed
qed


lemma process_claim_outcome:
  assumes "process_claim E registry lookup loader committed qc s = (Inr po, s')"
  shows "\<exists>st \<in> {''ok'', ''duplicate'', ''retryable'', ''permanent''}. po = outcome qc st"
  using assms
proof (cases rule: process_claim_cases)
  case aborted
  then show ?thesis
    by simp
next
  case failure
  then show ?thesis
    using outcomes(2,3) unfolding failed_def by blast
qed (use outcomes(1) in blast)+

text \<open>The message a worker leased, as the claim has it and as the queue had it.\<close>

lemma claimed:
  assumes "claim_one owner lease s = (Inr (Some qc), s1)"
  obtains c where "c \<in> set (queue s)" "claimable (\<lambda>h. h \<notin> set DEDICATED_HANDLERS) s c"
    "qc = claim_of (leased_row owner (clock s + lease) 0 c)"
    "s1 = s\<lparr>queue := map (\<lambda>r. if qu_id r = qu_id c then leased_row owner (clock s + lease) 0 r else r) (queue s)\<rparr>"
proof -
  obtain c where c: "claim_pick (\<lambda>h. h \<notin> set DEDICATED_HANDLERS) s = Some c"
    using assms by (auto simp: claim_one_eq split: option.splits)
  then show thesis
    using assms by (intro that [OF claim_pick_mem [OF c]]) (auto simp: claim_one_eq)
qed

lemma process_one_cases:
  assumes "process_one E registry lookup loader owner s = (Inr po, s')"
  obtains (idle) "claim_one owner (30 * MICROS) s = (Inr None, s')" "po = \<lparr>po_status = ''idle'', po_message_id = None, po_queue_id = None\<rparr>"
    | (ran) qc s1 where "claim_one owner (30 * MICROS) s = (Inr (Some qc), s1)"
        "process_claim E registry lookup loader s qc s1 = (Inr po, s')"
  using assms unfolding process_one_def
  by (auto simp: savepoint_def andthen_def split: prod.splits sum.splits option.splits)

text \<open>
  C23: \<open>process_one\<close> has one of two effects.  Either nothing but the queue has been written (and sequence
  values taken) - the message was rescheduled, given up, found processed already, or there was none - or it
  reports \<open>ok\<close> for a message the ledger did not have, whose handler's declared result has been committed by
  one \<open>commit_step\<close> (or whose timer command has run), and the ledger has exactly that message more, when it
  was a step.  A result of a handler that is not \<open>OK\<close>, a conflict and a fault leave no partial effect.
\<close>

theorem step_effect_once:
  assumes "process_one E registry lookup loader owner s = (r, s')"
  shows "delivered s s' \<and> (\<forall>po. r = Inr po \<longrightarrow> po_status po \<in> {''idle'', ''duplicate'', ''retryable'', ''permanent''})
    \<or> (\<exists>po qc s1 s2. r = Inr po \<and> po = outcome qc ''ok'' \<and> \<not> is_processed (qc_message_id qc) s
        \<and> claim_one owner (30 * MICROS) s = (Inr (Some qc), s1) \<and> delivered s2 s'
        \<and> (is_timer_command_message qc \<and> (\<exists>x. dispatch_timer_command lookup E (qc_payload qc) s1 = (Inr x, s2))
           \<or> (\<exists>h ctx result st row. get_handler (qc_handler qc) registry = Inr h \<and> sh_handle h ctx s = Inr result
               \<and> hr_disposition result = OK
               \<and> commit_step E ctx result (qc_message_id qc) (ev_stream_version (hc_triggering_event ctx))
                   (ev_table_version (hc_triggering_event ctx)) s1 = (Inr st, s2)
               \<and> processed_messages s' = processed_messages s @ [row] \<and> pm_message_id row = qc_message_id qc)))"
proof (cases r)
  case (Inl e)
  then have "drawn s s'"
    using assms by (auto simp: process_one_def savepoint_def split: prod.splits sum.splits)
  then show ?thesis
    using drawn_delivered by (intro disjI1) (simp add: Inl)
next
  case (Inr po)
  from assms [unfolded Inr] show ?thesis
  proof (cases rule: process_one_cases)
    case idle
    then show ?thesis
      using keepsD [OF keeps_delivered(1)] Inr by auto
  next
    case (ran qc s1)
    have s1: "delivered s s1"
      using keepsD [OF keeps_delivered(1) ran(1)] .
    have mem: "is_processed (qc_message_id qc) s1 = is_processed (qc_message_id qc) s"
      by (simp add: is_processed_def delivered_ledger [OF s1])
    note fin = keepsD [OF keeps_delivered(4)]
    from ran(2) show ?thesis
    proof (cases rule: process_claim_cases)
      case duplicate
      then show ?thesis
        using deliveries.rel_trans [OF s1 fin [OF duplicate(2)]] outcomes(1) [OF duplicate(2)] Inr by (simp add: outcome_def)
    next
      case (timer x s2)
      then show ?thesis
        using fin [OF timer(4)] outcomes(1) [OF timer(4)] ran(1) Inr mem by auto
    next
      case (step h ctx result st s2)
      obtain row where "\<not> is_processed (qc_message_id qc) s1" "pm_message_id row = qc_message_id qc"
        "processed_messages s2 = processed_messages s1 @ [row]"
        using commit_step_ledger [OF step(5)] by blast
      then show ?thesis
        using fin [OF step(6)] outcomes(1) [OF step(6)] ran(1) Inr mem step(1,3,4,5) delivered_ledger [OF s1]
          delivered_ledger [OF fin [OF step(6)]]
        by (intro disjI2 exI [of _ po] exI [of _ qc] exI [of _ s1] exI [of _ s2] conjI exI [of _ h] exI [of _ ctx]
            exI [of _ result] exI [of _ st] exI [of _ row]) simp_all
    next
      case aborted
      then show ?thesis
        by simp
    next
      case failure
      then obtain e t where t: "drawn s1 t" "retry_later E qc e t = (Inr po, s') \<or> give_up qc e t = (Inr po, s')"
        by (auto simp: failed_def)
      then have "delivered t s'"
        using keepsD [OF keeps_delivered(2)] keepsD [OF keeps_delivered(3)] by blast
      then have "delivered s s'"
        using s1 drawn_delivered [OF t(1)] deliveries.rel_trans by blast
      then show ?thesis
        using t(2) outcomes(2) [of qc e t "Inr po" s'] outcomes(3) [of E qc e t po s'] Inr by (auto simp: outcome_def)
    qed
  qed
qed






subsection \<open>Runs of the worker\<close>

text \<open>The command registry as the timer messages see it.\<close>

definition command_of :: "repair_registry \<Rightarrow> string \<Rightarrow> handler option" where
  "command_of repairs act = (case get_command act (pc_handlers (production repairs)) of Inr h \<Rightarrow> Some h | Inl _ \<Rightarrow> None)"

text \<open>
  Messages worked, by any worker, registry of handlers and document loader, between anything else of the
  program: only \<open>commit_step\<close> adds to the ledger, and \<open>prune_processed_messages\<close>, which deletes from it, is no
  step of these runs.
\<close>

inductive worker_step :: "env \<Rightarrow> repair_registry \<Rightarrow> db \<Rightarrow> db \<Rightarrow> bool" for E repairs where
  works: "worker_step E repairs s (snd (process_one E registry (command_of repairs) loader owner s))"
| else: "processed_messages s' = processed_messages s \<Longrightarrow> worker_step E repairs s s'"

lemma timer_command_ledger:
  assumes "dispatch_timer_command (command_of repairs) E payload s = (Inr x, s')"
  shows "processed_messages s' = processed_messages s"
proof -
  obtain act h cmd where "act \<in> set TIMER_COMMAND_ALLOWLIST" "command_of repairs act = Some h" "h E cmd s = (Inr x, s')"
    using assms by (fastforce simp: dispatch_timer_command_def andthen_eq_Inr dict_item_def dict_str_def split: option.splits if_splits)
  moreover have "h = finalize_deprecate_command \<or> h = deactivate_expired_version_command"
    if "act \<in> set TIMER_COMMAND_ALLOWLIST" "command_of repairs act = Some h"
    using that by (auto simp: TIMER_COMMAND_ALLOWLIST_def command_of_def production_def get_command_def CATALOG_def)
  ultimately have "keeps (frame beside_aggregates) (h E cmd)" "h E cmd s = (Inr x, s')"
    using framed_handlers.feature_catalogue by auto
  then show ?thesis
    by (auto dest: keepsD simp: frame_def beside_aggregates_def)
qed

lemma process_one_ledger:
  assumes "process_one E registry (command_of repairs) loader owner s = (r, s')"
  shows "processed_messages s' = processed_messages s
    \<or> (\<exists>row. processed_messages s' = processed_messages s @ [row] \<and> \<not> is_processed (pm_message_id row) s)"
proof (cases r)
  case (Inl e)
  then have "drawn s s'"
    using assms by (auto simp: process_one_def savepoint_def split: prod.splits sum.splits)
  then show ?thesis
    by (simp add: drawn_fields)
next
  case (Inr po)
  from assms [unfolded Inr] show ?thesis
  proof (cases rule: process_one_cases)
    case idle
    then show ?thesis
      using keepsD [OF keeps_delivered(1)] delivered_ledger by blast
  next
    case (ran qc s1)
    have s1: "processed_messages s1 = processed_messages s"
      using keepsD [OF keeps_delivered(1) ran(1)] by (rule delivered_ledger)
    note writes = keepsD [OF keeps_delivered(2), THEN delivered_ledger] keepsD [OF keeps_delivered(3), THEN delivered_ledger]
      keepsD [OF keeps_delivered(4), THEN delivered_ledger]
    from ran(2) show ?thesis
    proof (cases rule: process_claim_cases)
      case duplicate
      then show ?thesis
        using writes(3) [OF duplicate(2)] s1 by simp
    next
      case (timer x s2)
      then show ?thesis
        using writes(3) [OF timer(4)] timer_command_ledger [OF timer(3)] s1 by simp
    next
      case (step h ctx result st s2)
      then show ?thesis
        using writes(3) [OF step(6)] commit_step_ledger [OF step(5)] s1 by (auto simp: is_processed_def)
    next
      case aborted
      then show ?thesis
        by simp
    next
      case failure
      then show ?thesis
        using writes(1,2) drawn_fields(3) s1 by (fastforce simp: failed_def)
    qed
  qed
qed

definition ledger_step :: "db \<Rightarrow> db \<Rightarrow> bool" where
  "ledger_step s s' \<longleftrightarrow> prefix (processed_messages s) (processed_messages s')
     \<and> (distinct (map pm_message_id (processed_messages s)) \<longrightarrow> distinct (map pm_message_id (processed_messages s')))"

interpretation ledgers: state_rel ledger_step
  by unfold_locales (auto simp: ledger_step_def)

lemma worker_step_ledger: "worker_step E repairs s s' \<Longrightarrow> ledger_step s s'"
proof (induction rule: worker_step.induct)
  case (works s registry loader owner)
  obtain r s' where p: "process_one E registry (command_of repairs) loader owner s = (r, s')"
    by fastforce
  from process_one_ledger [OF p] show ?case
    by (auto simp: p ledger_step_def is_processed_def list_ex_iff) blast
next
  case (else s' s)
  then show ?case
    by (simp add: ledger_step_def)
qed

lemma worker_runs_ledger: "(worker_step E repairs)\<^sup>*\<^sup>* s s' \<Longrightarrow> ledger_step s s'"
  by (induction rule: rtranclp_induct) (auto intro: ledgers.rel_refl ledgers.rel_trans worker_step_ledger)

lemma process_one_duplicate:
  assumes "process_one E registry lookup loader owner s = (Inr po, s')" "po_message_id po = Some m" "is_processed m s"
  shows "po_status po = ''duplicate'' \<and> delivered s s'"
proof -
  obtain qc s1 where ran: "claim_one owner (30 * MICROS) s = (Inr (Some qc), s1)"
      "process_claim E registry lookup loader s qc s1 = (Inr po, s')"
    using assms(1,2) by (cases rule: process_one_cases) auto
  have s1: "delivered s s1"
    using keepsD [OF keeps_delivered(1) ran(1)] .
  have mem: "is_processed i s1 = is_processed i s" for i
    by (simp add: is_processed_def delivered_ledger [OF s1])
  have once: "\<not> is_processed (qc_message_id qc) s" if "po = outcome qc st" "\<not> is_processed (qc_message_id qc) s1" for st
    using that mem by simp
  have m: "qc_message_id qc = m" if "po = outcome qc st" for st
    using that assms(2) by (simp add: outcome_def)
  from ran(2) show ?thesis
  proof (cases rule: process_claim_cases)
    case duplicate
    then show ?thesis
      using outcomes(1) [OF duplicate(2)] deliveries.rel_trans [OF s1 keepsD [OF keeps_delivered(4) duplicate(2)]] by (simp add: outcome_def)
  next
    case (timer x s2)
    then show ?thesis
      using outcomes(1) [OF timer(4)] m assms(3) mem by auto
  next
    case (step h ctx result st s2)
    then show ?thesis
      using outcomes(1) [OF step(6)] m assms(3) mem commit_step_ledger [OF step(5)] by auto
  next
    case aborted
    then show ?thesis
      by simp
  next
    case failure
    then obtain st where "po = outcome qc st"
      using outcomes(2,3) by (fastforce simp: failed_def)
    then show ?thesis
      using m assms(3) mem failure(1) by auto
  qed
qed

text \<open>
  C22: A step takes effect at most once.  Once a message is in the ledger, then after any run of the
  workers - its redeliveries by reclaimed leases, by other workers and under other registries included - a
  delivery of it is reported \<open>duplicate\<close> and writes nothing but the queue, so its handler's result is not
  committed again; and no message is in the ledger twice.
\<close>

theorem effect_at_most_once:
  assumes "is_processed m s1" "(worker_step E repairs)\<^sup>*\<^sup>* s1 s"
    and "process_one E registry (command_of repairs) loader owner s = (Inr po, s')" "po_message_id po = Some m"
  shows "po_status po = ''duplicate'' \<and> delivered s s'
    \<and> (distinct (map pm_message_id (processed_messages s1)) \<longrightarrow> distinct (map pm_message_id (processed_messages s')))"
proof -
  have run: "ledger_step s1 s"
    using worker_runs_ledger [OF assms(2)] .
  then have "is_processed m s"
    using assms(1) by (auto simp: ledger_step_def is_processed_def list_ex_iff dest: set_mono_prefix)
  note twice = process_one_duplicate [OF assms(3,4) this]
  then show ?thesis
    using run delivered_ledger [of s s'] by (simp add: ledger_step_def)
qed


text \<open>A run with one event, a message for it, and handlers that park the run, fail, and do nothing.\<close>

definition drafting :: "HandlerResult \<Rightarrow> step_handler" where
  "drafting result = \<lparr>sh_name = ''draft'', sh_handle = (\<lambda>_ _. Inr result)\<rparr>"

definition step_result :: "Disposition \<Rightarrow> NewEvent list \<Rightarrow> HandlerResult" where
  "step_result disposition evs = \<lparr>hr_disposition = disposition, hr_new_events = evs, hr_document = None, hr_external_commands = [],
     hr_timers = [], hr_activations = [], hr_error = None\<rparr>"

definition step_example :: db where
  "step_example =
     (case append_event sample_env (sample_event ''run_1'' ''RUN_CREATED'') 0 1 empty_db of
        (Inr e, s) \<Rightarrow> snd (enqueue ''m1'' ''run/run_1'' ''draft'' [(''run_id'', JStr ''run_1''), (''event_id'', JStr (ev_event_id e))] None 100 s)
      | (_, s) \<Rightarrow> s)"

definition registered :: "HandlerResult \<Rightarrow> handler_registry" where
  "registered result = [(''draft'', drafting result)]"

abbreviation works_on :: "HandlerResult \<Rightarrow> db \<Rightarrow> (exn + ProcessOutcome) \<times> db" where
  "works_on result \<equiv> process_one sample_env (registered result) (command_of worker_repairs) default_document_loader ''w''"

abbreviation parking :: HandlerResult where
  "parking \<equiv> step_result OK [sample_event ''run_1'' ''RUN_PARKED'']"

text \<open>After the step, with the row of its message back as if its completion had been lost.\<close>

definition redelivered :: db where
  "redelivered = (snd (works_on parking step_example))\<lparr>queue := queue step_example\<rparr>"

lemma works_on_eval:
  "case works_on parking step_example of (Inr po, s') \<Rightarrow> po_status po = ''ok'' \<and> is_processed ''m1'' s' | _ \<Rightarrow> False"
  "case works_on (step_result RETRYABLE []) step_example of (Inr po, s') \<Rightarrow> po_status po = ''retryable'' \<and> po_queue_id po = Some 1 | _ \<Rightarrow> False"
  "case works_on parking redelivered of (Inr po, s') \<Rightarrow> po_message_id po = Some ''m1'' | _ \<Rightarrow> False"
  "is_processed ''m1'' redelivered"
  "queue_ok step_example"
  by code_simp+

lemma step_effect_once_witness:
  "\<exists>qc s'. works_on parking step_example = (Inr (outcome qc ''ok''), s') \<and> \<not> is_processed (qc_message_id qc) step_example"
proof -
  obtain r s' where r: "works_on parking step_example = (r, s')"
    by fastforce
  then have "\<forall>po. r = Inr po \<longrightarrow> po_status po = ''ok''" "\<exists>po. r = Inr po"
    using works_on_eval(1) by (auto split: sum.splits)
  with step_effect_once [OF r] show ?thesis
    unfolding r by auto
qed


lemma effect_at_most_once_witness:
  "\<exists>po s'. works_on parking redelivered = (Inr po, s') \<and> po_status po = ''duplicate'' \<and> delivered redelivered s'"
proof -
  obtain po s' where r: "works_on parking redelivered = (Inr po, s')" "po_message_id po = Some ''m1''"
    using works_on_eval(3) by (auto split: prod.splits sum.splits)
  then show ?thesis
    using effect_at_most_once [OF works_on_eval(4) rtranclp.rtrancl_refl r] by blast
qed

end
