(* ===== verification/Worker.thy ===== *)
theory Worker
  imports Dispatch
begin

text \<open>
  The stages of the worker's pass over the runtime tables (\<open>runtime/worker.py\<close>): the guard around a
  stage, the drained queue, the due timers, the projections, the routes of the relay's publisher, and what
  \<open>compose\<close> registers of the modelled parts.
\<close>

subsection \<open>Stages\<close>

definition stage :: "'a dbprog \<Rightarrow> 'a \<Rightarrow> 'a dbprog" where
  "stage m fallback = catch m (\<lambda>e. ret fallback)"

definition tx :: "'a dbprog \<Rightarrow> 'a dbprog" where
  "tx m = savepoint rollback m"

text \<open>\<open>for _ in range(batch)\<close>; \<open>halted\<close> is the test of the leaked connections against their cap.\<close>

fun drain_loop ::
  "env \<Rightarrow> handler_registry \<Rightarrow> (string \<Rightarrow> handler option) \<Rightarrow> string \<Rightarrow> nat \<Rightarrow> nat dbprog" where
  "drain_loop E registry lookup owner 0 = ret 0"
| "drain_loop E registry lookup owner (Suc batch) =
     andthen (process_one E registry lookup default_document_loader owner) (\<lambda>po.
     if po_status po = ''idle'' then ret 0
     else andthen (drain_loop E registry lookup owner batch) (\<lambda>n. ret (Suc n)))"

definition drain_queue ::
  "env \<Rightarrow> handler_registry \<Rightarrow> (string \<Rightarrow> handler option) \<Rightarrow> string \<Rightarrow> nat \<Rightarrow> bool \<Rightarrow> nat dbprog" where
  "drain_queue E registry lookup owner batch halted = (if halted then ret 0 else drain_loop E registry lookup owner batch)"

definition fire_timers :: "string \<Rightarrow> nat \<Rightarrow> int \<Rightarrow> nat dbprog" where
  "fire_timers owner batch now =
     andthen (tx (poll_due_timers owner 30 batch now)) (\<lambda>tids.
     andthen (for_each tids (\<lambda>tid. andthen (tx (fire_timer default_task_version tid)) (\<lambda>out. ret (tf_fired out)))) (\<lambda>fired.
     ret (length (filter (\<lambda>f. f) fired))))"

definition advance_projections :: "env \<Rightarrow> Projection list \<Rightarrow> int dbprog" where
  "advance_projections E projections =
     andthen (for_each projections (\<lambda>P. stage (tx (run_projection E P DEFAULT_BATCH)) 0)) (\<lambda>advanced. ret (sum_list advanced))"

subsection \<open>The routes of the relay\<close>

definition RECIPE_FORMULA_SHADOW_TOPIC :: string where
  "RECIPE_FORMULA_SHADOW_TOPIC = ''recipe_formula_shadow.requested.v1''"
definition RECIPE_FORMULA_SHADOW_HANDLER :: string where
  "RECIPE_FORMULA_SHADOW_HANDLER = ''recipe_formula_shadow.author.v1''"
definition FORMULA_DRAFT_TOPIC :: string where "FORMULA_DRAFT_TOPIC = ''formula_draft.requested.v1''"
definition FORMULA_DRAFT_HANDLER :: string where "FORMULA_DRAFT_HANDLER = ''formula_draft.author.v1''"

text \<open>\<open>text.split(",")\<close>\<close>

fun comma_parts :: "string \<Rightarrow> string \<Rightarrow> string list" where
  "comma_parts part [] = [rev part]"
| "comma_parts part (c # cs) = (if c = CHR '','' then rev part # comma_parts [] cs else comma_parts (c # part) cs)"

definition reserve :: "string \<Rightarrow> string \<Rightarrow> (string \<times> string) list \<Rightarrow> exn + (string \<times> string) list" where
  "reserve topic handler routes =
     (if map_of routes topic \<noteq> None \<and> map_of routes topic \<noteq> Some handler then Inl ValueError
      else Inr ((topic, handler) # filter (\<lambda>(t, h). t \<noteq> topic) routes))"

text \<open>The configured routes and the text of \<open>FEATUREGEN_RELAY_REQUIRED\<close> give the routes and the required topics.\<close>

definition relay_policy :: "(string \<times> string) list \<Rightarrow> string \<Rightarrow> exn + (string \<times> string) list \<times> string list" where
  "relay_policy configured required =
     chain (reserve RECIPE_FORMULA_SHADOW_TOPIC RECIPE_FORMULA_SHADOW_HANDLER configured) (\<lambda>r1.
     chain (reserve FORMULA_DRAFT_TOPIC FORMULA_DRAFT_HANDLER r1) (\<lambda>r2.
     Inr (r2, filter (\<lambda>t. t \<noteq> []) (map strip (comma_parts [] (strip required)))
       @ [RECIPE_FORMULA_SHADOW_TOPIC, FORMULA_DRAFT_TOPIC])))"

definition relay_publisher ::
  "env \<Rightarrow> (string \<times> string) list \<Rightarrow> string \<Rightarrow> exn + (OutboxMessage \<Rightarrow> unit dbprog)" where
  "relay_publisher E configured required =
     chain (relay_policy configured required) (\<lambda>(routes, route_required).
     Inr (make_queue_publisher E routes None route_required))"

subsection \<open>What the stages promise\<close>

text \<open>A stage never raises.\<close>

lemma stage_total: "\<exists>x s'. stage m fallback s = (Inr x, s')"
  by (cases "m s") (auto simp: stage_def catch_def split: sum.split)

text \<open>An idle worker is one that finds nothing claimable.\<close>

lemma process_one_idle:
  assumes "process_one E registry lookup loader owner s = (Inr po, s')" "po_status po = ''idle''"
  shows "s' = s \<and> (\<forall>r \<in> set (queue s). \<not> claimable (\<lambda>h. h \<notin> set DEDICATED_HANDLERS) s r)"
  using assms(1)
proof (cases rule: process_one_cases)
  case idle
  then show ?thesis
    using claim_pick_None [of _ s] by (auto simp: claim_one_eq split: option.splits)
next
  case (ran qc s1)
  then have "po_status po \<in> {''ok'', ''duplicate'', ''retryable'', ''permanent''}"
    using process_claim_outcome by (fastforce simp: outcome_def)
  then show ?thesis
    using assms(2) by auto
qed

text \<open>The drained queue: no more messages than the batch, and fewer only when nothing is claimable any more.\<close>

lemma drain_loop_result:
  assumes "drain_loop E registry lookup owner batch s = (Inr n, s')"
  shows "n \<le> batch \<and> (n < batch \<longrightarrow> (\<forall>r \<in> set (queue s'). \<not> claimable (\<lambda>h. h \<notin> set DEDICATED_HANDLERS) s' r))"
  using assms
proof (induction batch arbitrary: s n)
  case (Suc batch)
  from Suc.prems obtain po s1 where po: "process_one E registry lookup default_document_loader owner s = (Inr po, s1)"
    and rest: "(if po_status po = ''idle'' then ret 0
      else andthen (drain_loop E registry lookup owner batch) (\<lambda>n. ret (Suc n))) s1 = (Inr n, s')"
    by (auto simp: andthen_eq_Inr)
  show ?case
  proof (cases "po_status po = ''idle''")
    case True
    then show ?thesis
      using process_one_idle [OF po True] rest by simp
  next
    case False
    then obtain k where "drain_loop E registry lookup owner batch s1 = (Inr k, s')" "n = Suc k"
      using rest by (auto simp: andthen_eq_Inr)
    then show ?thesis
      using Suc.IH by fastforce
  qed
qed simp

text \<open>The reserved topics of the dedicated lanes are always routed to them and required, whatever is configured.\<close>

lemma reserve_routes:
  assumes "reserve topic handler routes = Inr routes'"
  shows "map_of routes' topic = Some handler" "t \<noteq> topic \<Longrightarrow> map_of routes' t = map_of routes t"
proof -
  have r: "routes' = (topic, handler) # filter (\<lambda>(t, h). t \<noteq> topic) routes"
    using assms by (auto simp: reserve_def split: if_splits)
  have "map_of (filter (\<lambda>(t, h). t \<noteq> topic) xs) t = map_of xs t" if "t \<noteq> topic" for xs :: "(string \<times> string) list"
    using that by (induction xs) auto
  then show "map_of routes' topic = Some handler" "t \<noteq> topic \<Longrightarrow> map_of routes' t = map_of routes t"
    by (simp_all add: r)
qed

lemma relay_policy_reserved:
  assumes "relay_policy configured required = Inr (routes, req)"
  shows "map_of routes RECIPE_FORMULA_SHADOW_TOPIC = Some RECIPE_FORMULA_SHADOW_HANDLER
    \<and> map_of routes FORMULA_DRAFT_TOPIC = Some FORMULA_DRAFT_HANDLER
    \<and> {RECIPE_FORMULA_SHADOW_TOPIC, FORMULA_DRAFT_TOPIC} \<subseteq> set req"
proof -
  obtain r1 where r: "reserve RECIPE_FORMULA_SHADOW_TOPIC RECIPE_FORMULA_SHADOW_HANDLER configured = Inr r1"
    "reserve FORMULA_DRAFT_TOPIC FORMULA_DRAFT_HANDLER r1 = Inr routes"
    "{RECIPE_FORMULA_SHADOW_TOPIC, FORMULA_DRAFT_TOPIC} \<subseteq> set req"
    using assms by (auto simp: relay_policy_def chain_eq_Inr)
  have "RECIPE_FORMULA_SHADOW_TOPIC \<noteq> FORMULA_DRAFT_TOPIC"
    by (simp add: RECIPE_FORMULA_SHADOW_TOPIC_def FORMULA_DRAFT_TOPIC_def)
  then show ?thesis
    using reserve_routes [OF r(1)] reserve_routes [OF r(2)] r(3) by simp
qed

text \<open>
  The rungs of an escalation ladder reach no handler: the registry that \<open>compose\<close> fills holds
  \<open>activate_version\<close> alone, so the message of a fired reminder, SLA or escalation timer - which names no
  command - goes to the dead letters at its first delivery.
\<close>

theorem ladder_rungs_dead_letter:
  assumes "register_phase06_handlers [] = (Inr (), registry)" "kind \<in> {''reminder'', ''sla'', ''escalation''}"
    and "qc_handler qc = ''timer.'' @ kind" "''handler'' \<notin> fst ` set (qc_payload qc)" "\<not> is_processed (qc_message_id qc) s"
  shows "process_claim E registry lookup loader committed qc s = give_up qc (exn_text E KeyError) s"
proof -
  have "registry = [(''activate_version'', ACTIVATE_VERSION_HANDLER)]"
    using assms(1) by (simp add: register_phase06_handlers_def register_handler_def ACTIVATE_VERSION_HANDLER_def)
  then have "get_handler (qc_handler qc) registry = Inl KeyError"
    using assms(2,3) by (auto simp: get_handler_def)
  then show ?thesis
    using assms(4,5) by (simp add: process_claim_def andthen_def is_timer_command_message_def)
qed

end
