(* ===== verification/Overlay_Identity.thy ===== *)
theory Overlay_Identity
  imports Event_Store Canonical_Json "HOL-Library.Multiset"
begin

text \<open>
  References to catalog objects and the identity of a governed fact, \<open>overlay/identity.py\<close>: the typed
  references, their normalisation, the canonical order of a bridge's endpoints, the digest \<open>fact_key\<close>
  that names a fact, the fingerprint of a proposal, and the decoder of the reference an event carries.

  A typed reference travels in a command's arguments as the dictionary \<open>asdict(ref)\<close>, the form the
  event payload stores.  A component that is not a text is refused when the reference is built; the
  code would build it and raise at the first \<open>.strip()\<close>.
\<close>

subsection \<open>References\<close>

record CatalogObjectRef =
  rf_catalog_source :: string
  rf_object_kind :: string
  rf_schema :: string
  rf_table :: string
  rf_column :: "string option"

record ColumnPair =
  cp_from_col :: string
  cp_to_col :: string

record ApprovedJoinRef =
  jn_from_ref :: CatalogObjectRef
  jn_to_ref :: CatalogObjectRef
  jn_column_pairs :: "ColumnPair list"
  jn_cardinality :: "string option"

record EntityBridgeRef =
  br_entity_id :: string
  br_left_ref :: CatalogObjectRef
  br_right_ref :: CatalogObjectRef

datatype fact_ref =
    ObjectRef CatalogObjectRef
  | JoinRef ApprovedJoinRef
  | BridgeRef EntityBridgeRef

text \<open>\<open>value.strip().lower()\<close>.\<close>

definition norm_text :: "string \<Rightarrow> string" where
  "norm_text v = map lower_char (strip v)"

definition ref_tuple :: "CatalogObjectRef \<Rightarrow> string option list" where
  "ref_tuple r = [Some (norm_text (rf_catalog_source r)), Some (norm_text (rf_object_kind r)),
     Some (norm_text (rf_schema r)), Some (norm_text (rf_table r)), map_option norm_text (rf_column r)]"

definition endpoint_order_key :: "string option list \<Rightarrow> string list" where
  "endpoint_order_key parts = map (\<lambda>p. case p of None \<Rightarrow> [] | Some v \<Rightarrow> norm_text v) parts"

definition canonical_bridge_endpoints :: "CatalogObjectRef \<Rightarrow> CatalogObjectRef \<Rightarrow> CatalogObjectRef \<times> CatalogObjectRef" where
  "canonical_bridge_endpoints left right =
     (if endpoint_order_key (ref_tuple left) \<le> endpoint_order_key (ref_tuple right) then (left, right) else (right, left))"

text \<open>The constructor with its \<open>__post_init__\<close>.\<close>

definition entity_bridge_ref :: "string \<Rightarrow> CatalogObjectRef \<Rightarrow> CatalogObjectRef \<Rightarrow> EntityBridgeRef" where
  "entity_bridge_ref entity_id left right =
     (case canonical_bridge_endpoints left right of (l, r) \<Rightarrow>
        \<lparr>br_entity_id = entity_id, br_left_ref = l, br_right_ref = r\<rparr>)"

subsection \<open>References as dictionaries\<close>

definition object_ref_dict :: "CatalogObjectRef \<Rightarrow> dict" where
  "object_ref_dict r = [(''catalog_source'', JStr (rf_catalog_source r)), (''object_kind'', JStr (rf_object_kind r)),
     (''schema'', JStr (rf_schema r)), (''table'', JStr (rf_table r)), (''column'', ostr (rf_column r))]"

definition pair_dict :: "ColumnPair \<Rightarrow> dict" where
  "pair_dict p = [(''from_col'', JStr (cp_from_col p)), (''to_col'', JStr (cp_to_col p))]"

fun asdict_ref :: "fact_ref \<Rightarrow> dict" where
  "asdict_ref (ObjectRef r) = object_ref_dict r"
| "asdict_ref (JoinRef j) = [(''from_ref'', JObj (object_ref_dict (jn_from_ref j))), (''to_ref'', JObj (object_ref_dict (jn_to_ref j))),
     (''column_pairs'', JArr (map (\<lambda>p. JObj (pair_dict p)) (jn_column_pairs j))), (''cardinality'', ostr (jn_cardinality j))]"
| "asdict_ref (BridgeRef b) = [(''entity_id'', JStr (br_entity_id b)), (''left_ref'', JObj (object_ref_dict (br_left_ref b))),
     (''right_ref'', JObj (object_ref_dict (br_right_ref b)))]"

text \<open>\<open>Cls(**d)\<close>: an unknown or a missing keyword raises \<open>TypeError\<close>.\<close>

definition keywords_ok :: "string list \<Rightarrow> dict \<Rightarrow> bool" where
  "keywords_ok names d \<longleftrightarrow> list_all (\<lambda>(k, _). k \<in> set names) d"

definition text_arg :: "dict \<Rightarrow> string \<Rightarrow> exn + string" where
  "text_arg d k = (case map_of d k of Some (JStr v) \<Rightarrow> Inr v | _ \<Rightarrow> Inl TypeError)"

definition object_ref_of_dict :: "dict \<Rightarrow> exn + CatalogObjectRef" where
  "object_ref_of_dict d =
     (if \<not> keywords_ok [''catalog_source'', ''object_kind'', ''schema'', ''table'', ''column''] d then Inl TypeError
      else
        chain (text_arg d ''catalog_source'') (\<lambda>source.
        chain (text_arg d ''object_kind'') (\<lambda>kind.
        chain (text_arg d ''schema'') (\<lambda>schema.
        chain (text_arg d ''table'') (\<lambda>table.
        chain (opt_str (dget d ''column'')) (\<lambda>column.
        Inr \<lparr>rf_catalog_source = source, rf_object_kind = kind, rf_schema = schema, rf_table = table, rf_column = column\<rparr>))))))"

fun object_ref_of_json :: "json \<Rightarrow> exn + CatalogObjectRef" where
  "object_ref_of_json (JObj d) = object_ref_of_dict d"
| "object_ref_of_json _ = Inl TypeError"

fun pair_of_json :: "json \<Rightarrow> exn + ColumnPair" where
  "pair_of_json (JObj d) =
     (if \<not> keywords_ok [''from_col'', ''to_col''] d then Inl TypeError
      else chain (text_arg d ''from_col'') (\<lambda>a. chain (text_arg d ''to_col'') (\<lambda>b.
           Inr \<lparr>cp_from_col = a, cp_to_col = b\<rparr>)))"
| "pair_of_json _ = Inl TypeError"

fun pairs_of_json :: "json \<Rightarrow> exn + ColumnPair list" where
  "pairs_of_json (JArr xs) = map_chain pair_of_json xs"
| "pairs_of_json _ = Inl TypeError"

text \<open>The endpoints, pairs and cardinality of a join, each read with \<open>d[k]\<close>.\<close>

definition join_ref_of_dict :: "dict \<Rightarrow> exn + ApprovedJoinRef" where
  "join_ref_of_dict d =
     chain (chain (dict_item d ''from_ref'') object_ref_of_json) (\<lambda>from_ref.
     chain (chain (dict_item d ''to_ref'') object_ref_of_json) (\<lambda>to_ref.
     chain (chain (dict_item d ''column_pairs'') pairs_of_json) (\<lambda>pairs.
     chain (chain (dict_item d ''cardinality'') opt_str) (\<lambda>cardinality.
     Inr \<lparr>jn_from_ref = from_ref, jn_to_ref = to_ref, jn_column_pairs = pairs, jn_cardinality = cardinality\<rparr>))))"

definition ref_from_payload :: "dict \<Rightarrow> exn + fact_ref" where
  "ref_from_payload d =
     (if has_key d ''entity_id'' \<and> has_key d ''left_ref'' \<and> has_key d ''right_ref'' then
        chain (dict_str d ''entity_id'') (\<lambda>entity_id.
        chain (object_ref_of_json (dget d ''left_ref'')) (\<lambda>left.
        chain (object_ref_of_json (dget d ''right_ref'')) (\<lambda>right.
        Inr (BridgeRef (entity_bridge_ref entity_id left right)))))
      else if has_key d ''column_pairs'' then chain (join_ref_of_dict d) (\<lambda>j. Inr (JoinRef j))
      else chain (object_ref_of_dict d) (\<lambda>r. Inr (ObjectRef r)))"

subsection \<open>The key of a fact\<close>

definition digest :: "env \<Rightarrow> json \<Rightarrow> string" where
  "digest E canonical = sha256_of E (json_dumps_ascii canonical)"

definition ref_json :: "CatalogObjectRef \<Rightarrow> json" where
  "ref_json r = JArr (map ostr (ref_tuple r))"

definition norm_pair :: "ColumnPair \<Rightarrow> string list" where
  "norm_pair p = [norm_text (cp_from_col p), norm_text (cp_to_col p)]"

definition norm_pairs :: "ColumnPair list \<Rightarrow> string list list" where
  "norm_pairs ps = sort (map norm_pair ps)"

fun canonical_identity :: "fact_ref \<Rightarrow> string \<Rightarrow> string option \<Rightarrow> json" where
  "canonical_identity (BridgeRef b) fact_type use_case =
     (case canonical_bridge_endpoints (br_left_ref b) (br_right_ref b) of (l, r) \<Rightarrow>
        JObj [(''kind'', JStr ''bridge''), (''entity_id'', JStr (norm_text (br_entity_id b))),
          (''endpoints'', JArr [ref_json l, ref_json r]), (''fact_type'', JStr (norm_text fact_type)),
          (''use_case'', ostr (map_option norm_text use_case))])"
| "canonical_identity (JoinRef j) fact_type use_case =
     JObj [(''kind'', JStr ''relation''), (''from'', ref_json (jn_from_ref j)), (''to'', ref_json (jn_to_ref j)),
       (''cardinality'', ostr (map_option norm_text (jn_cardinality j))),
       (''column_pairs'', JArr (map (\<lambda>p. JArr (map JStr p)) (norm_pairs (jn_column_pairs j)))),
       (''fact_type'', JStr (norm_text fact_type)), (''use_case'', ostr (map_option norm_text use_case))]"
| "canonical_identity (ObjectRef r) fact_type use_case =
     JObj [(''kind'', JStr ''object''), (''ref'', ref_json r), (''fact_type'', JStr (norm_text fact_type)),
       (''use_case'', ostr (map_option norm_text use_case))]"

definition fact_key :: "env \<Rightarrow> fact_ref \<Rightarrow> string \<Rightarrow> string option \<Rightarrow> string" where
  "fact_key E ref fact_type use_case = digest E (canonical_identity ref fact_type use_case)"

text \<open>\<open>".".join(parts)\<close>.\<close>

fun dotted :: "string list \<Rightarrow> string" where
  "dotted [] = []"
| "dotted [x] = x"
| "dotted (x # y # zs) = x @ CHR ''.'' # dotted (y # zs)"

definition display_object :: "CatalogObjectRef \<Rightarrow> string" where
  "display_object r = dotted ([rf_schema r, rf_table r] @ (if str_or (rf_column r) [] \<noteq> [] then [str_or (rf_column r) []] else []))"

fun display_object_ref :: "fact_ref \<Rightarrow> string" where
  "display_object_ref (BridgeRef b) =
     br_entity_id b @ '': '' @ display_object (br_left_ref b) @ '' <-> '' @ display_object (br_right_ref b)"
| "display_object_ref (JoinRef j) = display_object (jn_from_ref j) @ '' -> '' @ display_object (jn_to_ref j)"
| "display_object_ref (ObjectRef r) = display_object r"

subsection \<open>The fingerprint of a proposal\<close>

definition ENDPOINT_FIELDS :: "string list" where
  "ENDPOINT_FIELDS = [''catalog_source'', ''object_kind'', ''schema'', ''table'', ''column'']"

text \<open>The endpoint parts of a bridge value are texts or null: its schema has been checked.\<close>

definition endpoint_key_of :: "dict \<Rightarrow> string list" where
  "endpoint_key_of d = endpoint_order_key (map (\<lambda>f. as_ostr (dget d f)) ENDPOINT_FIELDS)"

text \<open>\<open>dict(value) | {...}\<close> for keys the value has.\<close>

definition with_endpoints :: "dict \<Rightarrow> dict \<Rightarrow> dict \<Rightarrow> dict" where
  "with_endpoints value l r = map (\<lambda>(k, v). (k, if k = ''left_ref'' then JObj l else if k = ''right_ref'' then JObj r else v)) value"

definition canonical_bridge_value :: "dict \<Rightarrow> dict" where
  "canonical_bridge_value value =
     (if \<not> has_key value ''entity_id'' then value
      else case (dget value ''left_ref'', dget value ''right_ref'') of
        (JObj l, JObj r) \<Rightarrow>
          if endpoint_key_of l \<le> endpoint_key_of r then value else with_endpoints value r l
      | _ \<Rightarrow> value)"

fun mapping_or_null :: "json \<Rightarrow> exn + json" where
  "mapping_or_null JNull = Inr JNull"
| "mapping_or_null (JObj d) = Inr (JObj d)"
| "mapping_or_null _ = Inl TypeError"

definition fingerprint :: "env \<Rightarrow> dict \<Rightarrow> json \<Rightarrow> json \<Rightarrow> string" where
  "fingerprint E value profile_version thresholds =
     digest E (JObj [(''value'', JObj (canonical_bridge_value value)), (''profile_version'', profile_version),
       (''thresholds'', thresholds)])"

definition proposal_fingerprint :: "env \<Rightarrow> dict \<Rightarrow> json \<Rightarrow> json \<Rightarrow> exn + string" where
  "proposal_fingerprint E value profile_version thresholds =
     chain (mapping_or_null thresholds) (\<lambda>t. Inr (fingerprint E value profile_version t))"

subsection \<open>The write gate\<close>

text \<open>\<open>repr\<close> of a text, for the messages.\<close>

definition printable :: "char \<Rightarrow> bool" where
  "printable c \<longleftrightarrow> (let n = of_char c :: nat in 32 \<le> n \<and> n \<le> 126 \<or> 161 \<le> n \<and> n \<noteq> 173)"

definition repr_char :: "char \<Rightarrow> char \<Rightarrow> string" where
  "repr_char q c =
     (if c = q \<or> c = CHR 0x5C then [CHR 0x5C, c]
      else if c = CHR 0x0A then [CHR 0x5C, CHR ''n''] else if c = CHR 0x0D then [CHR 0x5C, CHR ''r'']
      else if c = CHR 0x09 then [CHR 0x5C, CHR ''t'']
      else if printable c then [c]
      else [CHR 0x5C, CHR ''x'', hex_digit (of_char c div 16), hex_digit (of_char c mod 16)])"

definition repr_str :: "string \<Rightarrow> string" where
  "repr_str v = (let q = (if CHR 0x27 \<in> set v \<and> CHR 0x22 \<notin> set v then CHR 0x22 else CHR 0x27)
     in [q] @ concat (map (repr_char q) v) @ [q])"

definition bridge_write_error :: "env \<Rightarrow> fact_ref \<Rightarrow> dict \<Rightarrow> exn + string option" where
  "bridge_write_error E ref value =
     (case ref of
        BridgeRef b \<Rightarrow>
          if norm_text (rf_catalog_source (br_left_ref b)) = norm_text (rf_catalog_source (br_right_ref b)) then
            Inr (Some (''entity_bridge requires two distinct catalog sources (left='' @ rf_catalog_source (br_left_ref b)
              @ '', right='' @ rf_catalog_source (br_right_ref b) @ '')''))
          else
            chain (ref_from_payload value) (\<lambda>value_ref.
            case value_ref of
              BridgeRef _ \<Rightarrow>
                if fact_key E value_ref ''entity_bridge'' None \<noteq> fact_key E ref ''entity_bridge'' None
                then Inr (Some ''entity_bridge proposed_value does not match ref'') else Inr None
            | _ \<Rightarrow> Inr (Some ''entity_bridge proposed_value is not a bridge ref''))
      | _ \<Rightarrow> Inr (Some ''entity_bridge requires an EntityBridgeRef''))"

text \<open>\<open>known\<close> is \<open>known_entities()\<close>, the entities the concept registry links to.\<close>

definition entity_assignment_write_error :: "string list \<Rightarrow> fact_ref \<Rightarrow> dict \<Rightarrow> string option" where
  "entity_assignment_write_error known ref value =
     (case ref of
        ObjectRef r \<Rightarrow>
          if str_or (rf_column r) [] = [] then Some ''entity_assignment subject must be a column (ref carries no column)''
          else (case as_ostr (dget value ''entity_id'') of
              None \<Rightarrow> Some ''entity_assignment entity_id None is not a known entity''
            | Some e \<Rightarrow> if e \<in> set known then None
                else Some (''entity_assignment entity_id '' @ repr_str e @ '' is not a known entity''))
      | _ \<Rightarrow> Some ''entity_assignment requires a CatalogObjectRef'')"

definition KNOWN_CURRENCY_CODES :: "string list" where
  "KNOWN_CURRENCY_CODES =
     [''AED'', ''ARS'', ''AUD'', ''BDT'', ''BGN'', ''BHD'', ''BRL'', ''CAD'', ''CHF'', ''CLP'', ''CNY'', ''COP'', ''CZK'',
      ''DKK'', ''EGP'', ''EUR'', ''GBP'', ''HKD'', ''HUF'', ''IDR'', ''ILS'', ''INR'', ''JOD'', ''JPY'', ''KES'', ''KRW'',
      ''KWD'', ''LKR'', ''MAD'', ''MXN'', ''MYR'', ''NGN'', ''NOK'', ''NZD'', ''OMR'', ''PHP'', ''PKR'', ''PLN'', ''QAR'',
      ''RON'', ''RUB'', ''SAR'', ''SEK'', ''SGD'', ''THB'', ''TRY'', ''TWD'', ''USD'', ''VND'', ''ZAR'']"

definition norm_part :: "dict \<Rightarrow> string \<Rightarrow> string option" where
  "norm_part d k = map_option norm_text (as_ostr (dget d k))"

definition currency_binding_write_error :: "fact_ref \<Rightarrow> dict \<Rightarrow> string option" where
  "currency_binding_write_error ref value =
     (case ref of
        ObjectRef r \<Rightarrow>
          if str_or (rf_column r) [] = [] then Some ''currency_binding subject (measure) must be a column (ref carries no column)''
          else if dget value ''currency_code'' \<noteq> JNull \<and> dget value ''currency_column'' = JNull then
            (case as_ostr (dget value ''currency_code'') of
               None \<Rightarrow> Some ''currency_binding currency_code is not a known ISO-4217 code''
             | Some code \<Rightarrow> if code \<in> set KNOWN_CURRENCY_CODES then None
                 else Some (''currency_binding currency_code '' @ repr_str code @ '' is not a known ISO-4217 code''))
          else (case dget value ''currency_column'' of
              JObj cc \<Rightarrow>
                if \<not> truthy (dget cc ''column'') then Some ''currency_binding currency_column must reference a concrete column''
                else if norm_part cc ''catalog_source'' \<noteq> Some (norm_text (rf_catalog_source r))
                     \<or> norm_part cc ''schema'' \<noteq> Some (norm_text (rf_schema r))
                     \<or> norm_part cc ''table'' \<noteq> Some (norm_text (rf_table r))
                  then Some (''currency_binding target currency column must be in the same source/schema/table as the measure ('' @
                    rf_schema r @ ''.'' @ rf_table r @ '')'')
                else None
            | _ \<Rightarrow> Some ''currency_binding value.currency_column must be a CatalogObjectRef'')
      | _ \<Rightarrow> Some ''currency_binding requires a CatalogObjectRef'')"

definition join_write_error :: "env \<Rightarrow> string list \<Rightarrow> fact_ref \<Rightarrow> string \<Rightarrow> dict \<Rightarrow> exn + string option" where
  "join_write_error E known ref fact_type value =
     (if fact_type = ''entity_bridge'' then bridge_write_error E ref value
      else if fact_type = ''entity_assignment'' then Inr (entity_assignment_write_error known ref value)
      else if fact_type = ''currency_binding'' then Inr (currency_binding_write_error ref value)
      else if fact_type \<noteq> ''approved_join'' then Inr None
      else case ref of
        JoinRef j \<Rightarrow>
          if norm_text (rf_catalog_source (jn_from_ref j)) \<noteq> norm_text (rf_catalog_source (jn_to_ref j)) then
            Inr (Some (''cross-catalog approved_join disallowed in SP-1.5 (from='' @ rf_catalog_source (jn_from_ref j)
              @ '', to='' @ rf_catalog_source (jn_to_ref j) @ '')''))
          else (case join_ref_of_dict value of
              Inl _ \<Rightarrow> Inr (Some ''approved_join proposed_value is not a well-formed join'')
            | Inr value_ref \<Rightarrow>
                if fact_key E (JoinRef value_ref) ''approved_join'' None \<noteq> fact_key E ref ''approved_join'' None
                then Inr (Some ''approved_join proposed_value does not match ref (from/to/column_pairs/cardinality)'')
                else Inr None)
      | _ \<Rightarrow> Inr (Some ''approved_join requires an ApprovedJoinRef''))"

subsection \<open>Normal forms\<close>

lemma lower_char_cases:
  obtains "lower_char c = c"
  | n where "of_char c = (n :: nat)" "65 \<le> n \<and> n \<le> 90 \<or> 192 \<le> n \<and> n \<le> 222 \<and> n \<noteq> 215"
      "lower_char c = char_of (n + 32)" "of_char (lower_char c) = n + 32"
  by (cases "lower_char c = c") (auto simp: lower_char_def Let_def split: if_splits)

lemma lower_lower [simp]: "lower_char (lower_char c) = lower_char c"
proof (cases c rule: lower_char_cases)
  case (2 n)
  then show ?thesis
    unfolding lower_char_def [of "lower_char c"] Let_def 2(4) by auto
qed simp

lemma space_lower [simp]: "is_space_char (lower_char c) = is_space_char c"
proof (cases c rule: lower_char_cases)
  case (2 n)
  then show ?thesis
    by (auto simp: is_space_char_def)
qed simp

lemma dropWhile_stable: "(xs = [] \<or> \<not> P (hd xs)) \<Longrightarrow> dropWhile P xs = xs"
  by (cases xs) auto

lemma strip_strip [simp]: "strip (strip v) = strip v"
proof -
  let ?t = "dropWhile is_space_char v" and ?u = "strip v"
  have head: "?u = [] \<or> \<not> is_space_char (hd ?u)"
  proof (cases ?t)
    case (Cons c cs)
    then have "\<not> is_space_char c"
      using hd_dropWhile [of is_space_char v] by simp
    then have "\<exists>ys. dropWhile is_space_char (rev ?t) = ys @ [c]"
      unfolding Cons by (simp add: dropWhile_append)
    then obtain ys where "dropWhile is_space_char (rev ?t) = ys @ [c]" ..
    with \<open>\<not> is_space_char c\<close> show ?thesis
      by (simp add: strip_def)
  next
    case Nil
    then have "?u = []"
      by (simp only: strip_def) simp
    then show ?thesis by simp
  qed
  have "dropWhile is_space_char (rev ?u) = rev ?u"
    by (simp add: strip_def)
  then show ?thesis
    unfolding strip_def [of ?u] using dropWhile_stable [where P = is_space_char, OF head] by simp
qed

lemma strip_map_lower: "strip (map lower_char v) = map lower_char (strip v)"
  by (simp add: strip_def dropWhile_map rev_map comp_def)

lemma norm_norm [simp]: "norm_text (norm_text v) = norm_text v"
  by (simp add: norm_text_def strip_map_lower comp_def)

lemma endpoint_key_norm: "endpoint_order_key (ref_tuple r) =
    [norm_text (rf_catalog_source r), norm_text (rf_object_kind r), norm_text (rf_schema r), norm_text (rf_table r),
     (case rf_column r of None \<Rightarrow> [] | Some c \<Rightarrow> norm_text c)]"
  by (simp add: endpoint_order_key_def ref_tuple_def split: option.split)

lemma endpoint_key_of_dict: "endpoint_key_of (object_ref_dict r) = endpoint_order_key (ref_tuple r)"
  unfolding endpoint_key_norm
  by (simp add: endpoint_key_of_def endpoint_order_key_def ENDPOINT_FIELDS_def object_ref_dict_def split: option.split)

text \<open>A bridge the write gate admits: its endpoints lie in two catalogs.\<close>

definition two_catalogs :: "CatalogObjectRef \<Rightarrow> CatalogObjectRef \<Rightarrow> bool" where
  "two_catalogs l r \<longleftrightarrow> norm_text (rf_catalog_source l) \<noteq> norm_text (rf_catalog_source r)"

lemma two_catalogs_keys: "two_catalogs l r \<Longrightarrow> endpoint_order_key (ref_tuple l) \<noteq> endpoint_order_key (ref_tuple r)"
  by (simp add: two_catalogs_def endpoint_key_norm)

lemma endpoints_swap: "two_catalogs l r \<Longrightarrow> canonical_bridge_endpoints l r = canonical_bridge_endpoints r l"
  using two_catalogs_keys [of l r] by (auto simp: canonical_bridge_endpoints_def)

lemma endpoints_cases: "canonical_bridge_endpoints l r = (l, r) \<or> canonical_bridge_endpoints l r = (r, l)"
  by (simp add: canonical_bridge_endpoints_def)

lemma endpoints_idem: "canonical_bridge_endpoints l r = (l', r') \<Longrightarrow> canonical_bridge_endpoints l' r' = (l', r')"
  by (auto simp: canonical_bridge_endpoints_def split: if_splits)

subsection \<open>Reading references back\<close>

lemma opt_str_ostr [simp]: "opt_str (ostr x) = Inr x"
  by (cases x) simp_all

lemma object_ref_read [simp]: "object_ref_of_dict (object_ref_dict r) = Inr r"
  by (cases r) (simp add: object_ref_of_dict_def object_ref_dict_def keywords_ok_def text_arg_def split: option.split)

lemma pairs_read: "map_chain (pair_of_json \<circ> (\<lambda>p. JObj (pair_dict p))) ps = Inr ps"
proof (induction ps)
  case (Cons p ps)
  then show ?case
    by (cases p) (simp add: pair_dict_def keywords_ok_def text_arg_def)
qed simp

lemma map_chain_map: "map_chain f (map g xs) = map_chain (f \<circ> g) xs"
  by (induction xs) simp_all

lemma join_ref_read: "join_ref_of_dict (asdict_ref (JoinRef j)) = Inr j"
  by (cases j) (simp add: join_ref_of_dict_def map_chain_map pairs_read)

text \<open>A reference as the constructors make it: the endpoints of a bridge are in canonical order.\<close>

fun constructed :: "fact_ref \<Rightarrow> bool" where
  "constructed (BridgeRef b) \<longleftrightarrow> canonical_bridge_endpoints (br_left_ref b) (br_right_ref b) = (br_left_ref b, br_right_ref b)"
| "constructed _ \<longleftrightarrow> True"

lemma ref_from_payload_asdict: "constructed ref \<Longrightarrow> ref_from_payload (asdict_ref ref) = Inr ref"
proof (cases ref)
  case (ObjectRef r)
  then show ?thesis
    by (simp add: ref_from_payload_def) (simp add: object_ref_dict_def)
next
  case (JoinRef j)
  then show ?thesis
    using join_ref_read [of j] by (simp add: ref_from_payload_def)
next
  case (BridgeRef b)
  assume "constructed ref"
  with BridgeRef show ?thesis
    by (cases b) (simp add: ref_from_payload_def entity_bridge_ref_def)
qed

lemma entity_bridge_constructed: "constructed (BridgeRef (entity_bridge_ref e l r))"
  using endpoints_idem [of l r] by (simp add: entity_bridge_ref_def split: prod.split)

lemma ref_from_payload_constructed: "ref_from_payload d = Inr ref \<Longrightarrow> constructed ref"
  by (auto simp: ref_from_payload_def chain_eq_Inr entity_bridge_constructed simp del: constructed.simps(1) split: if_splits)

subsection \<open>What a key identifies\<close>

fun same_ref :: "fact_ref \<Rightarrow> fact_ref \<Rightarrow> bool" where
  "same_ref (ObjectRef a) (ObjectRef b) \<longleftrightarrow> ref_tuple a = ref_tuple b"
| "same_ref (JoinRef a) (JoinRef b) \<longleftrightarrow>
     ref_tuple (jn_from_ref a) = ref_tuple (jn_from_ref b) \<and> ref_tuple (jn_to_ref a) = ref_tuple (jn_to_ref b)
     \<and> map_option norm_text (jn_cardinality a) = map_option norm_text (jn_cardinality b)
     \<and> mset (map norm_pair (jn_column_pairs a)) = mset (map norm_pair (jn_column_pairs b))"
| "same_ref (BridgeRef a) (BridgeRef b) \<longleftrightarrow>
     norm_text (br_entity_id a) = norm_text (br_entity_id b)
     \<and> {#ref_tuple (br_left_ref a), ref_tuple (br_right_ref a)#} = {#ref_tuple (br_left_ref b), ref_tuple (br_right_ref b)#}"
| "same_ref _ _ \<longleftrightarrow> False"

fun legal_ref :: "fact_ref \<Rightarrow> bool" where
  "legal_ref (BridgeRef b) \<longleftrightarrow> two_catalogs (br_left_ref b) (br_right_ref b)"
| "legal_ref _ \<longleftrightarrow> True"

lemma sorted_objects_agree:
  assumes "sort_keys (JObj d) = sort_keys (JObj d')" "distinct (map fst d)" "distinct (map fst d')"
  shows "map_option sort_keys (map_of d k) = map_option sort_keys (map_of d' k)"
  by (rule json_dumps_object [OF _ assms(2,3)]) (simp only: json_dumps_inject assms(1))

lemma sort_keys_texts [simp]: "map sort_keys (map ostr xs) = map ostr xs" "map sort_keys (map JStr ys) = map JStr ys"
  "sort_keys (ostr x) = ostr x"
  by (simp_all, metis ostr.elims sort_keys.simps(3,6), metis ostr.elims sort_keys.simps(3,6))

lemma ostr_eq_iff [simp]: "ostr x = ostr y \<longleftrightarrow> x = y"
  by (cases x; cases y) simp_all

lemma sort_keys_ref_json [simp]: "sort_keys (ref_json r) = ref_json r"
  by (simp add: ref_json_def del: list.map_comp)

lemma ref_json_inject [simp]: "ref_json a = ref_json b \<longleftrightarrow> ref_tuple a = ref_tuple b"
  by (simp add: ref_json_def inj_map_eq_map inj_def)

lemma norm_pairs_inject: "norm_pairs a = norm_pairs b \<longleftrightarrow> mset (map norm_pair a) = mset (map norm_pair b)"
  by (metis mset_sort norm_pairs_def properties_for_sort sorted_sort)

lemma JStr_lists_inject [simp]:
  "map (\<lambda>p. JArr (map JStr p)) xs = map (\<lambda>p. JArr (map JStr p)) ys \<longleftrightarrow> xs = ys"
  by (rule inj_map_eq_map) (simp add: inj_def inj_map_eq_map)

lemma sort_keys_pairs [simp]: "map sort_keys (map (\<lambda>p. JArr (map JStr p)) xs) = map (\<lambda>p. JArr (map JStr p)) xs"
  by (induction xs) (simp_all del: map_map add: sort_keys_texts)

lemma bridge_identity:
  assumes "two_catalogs l r" "two_catalogs l' r'" "canonical_bridge_endpoints l r = (a, b)" "canonical_bridge_endpoints l' r' = (a', b')"
  shows "ref_tuple a = ref_tuple a' \<and> ref_tuple b = ref_tuple b' \<longleftrightarrow>
      {#ref_tuple l, ref_tuple r#} = {#ref_tuple l', ref_tuple r'#}"
proof -
  note keys = two_catalogs_keys [OF assms(1)] two_catalogs_keys [OF assms(2)]
  show ?thesis
    using assms(3,4) keys
    by (auto simp: canonical_bridge_endpoints_def add_eq_conv_ex add_mset_eq_single split: if_splits)
qed

fun kind_text :: "fact_ref \<Rightarrow> string" where
  "kind_text (ObjectRef _) = ''object''"
| "kind_text (JoinRef _) = ''relation''"
| "kind_text (BridgeRef _) = ''bridge''"

lemma identity_object: "canonical_identity r ft uc = JObj (as_dict (canonical_identity r ft uc))
    \<and> distinct (map fst (as_dict (canonical_identity r ft uc)))"
  by (cases r) (simp_all split: prod.split)

lemma identity_agrees:
  assumes "sort_keys (canonical_identity r ft uc) = sort_keys (canonical_identity r' ft' uc')"
  shows "map_option sort_keys (map_of (as_dict (canonical_identity r ft uc)) k)
    = map_option sort_keys (map_of (as_dict (canonical_identity r' ft' uc')) k)"
  by (rule sorted_objects_agree) (use assms identity_object in metis)+

lemma canonical_identity_eq:
  assumes "legal_ref r" "legal_ref r'"
  shows "sort_keys (canonical_identity r ft uc) = sort_keys (canonical_identity r' ft' uc') \<longleftrightarrow>
     same_ref r r' \<and> norm_text ft = norm_text ft' \<and> map_option norm_text uc = map_option norm_text uc'"
    (is "?keys \<longleftrightarrow> ?same")
proof
  assume same: ?same
  show ?keys
  proof (cases r)
    case (ObjectRef a)
    with same show ?thesis by (cases r') (auto simp: ref_json_def)
  next
    case (JoinRef a)
    with same obtain b where b: "r' = JoinRef b" by (cases r') auto
    then have "norm_pairs (jn_column_pairs a) = norm_pairs (jn_column_pairs b)"
      using same JoinRef by (simp add: norm_pairs_inject)
    then show ?thesis
      using same JoinRef b by (simp add: ref_json_def)
  next
    case (BridgeRef a)
    with same obtain b where b: "r' = BridgeRef b" by (cases r') auto
    show ?thesis
      using same BridgeRef b assms bridge_identity [of "br_left_ref a" "br_right_ref a" "br_left_ref b" "br_right_ref b"]
      by (cases "canonical_bridge_endpoints (br_left_ref a) (br_right_ref a)";
          cases "canonical_bridge_endpoints (br_left_ref b) (br_right_ref b)") (simp add: ref_json_def)
  qed
next
  assume ?keys
  note agree = identity_agrees [OF this]
  have "kind_text r = kind_text r'"
    using agree [of "''kind''"] by (cases r; cases r') (auto split: prod.splits)
  then consider (object) a b where "r = ObjectRef a" "r' = ObjectRef b" | (join) a b where "r = JoinRef a" "r' = JoinRef b"
    | (bridge) a b where "r = BridgeRef a" "r' = BridgeRef b"
    by (cases r; cases r') auto
  then show ?same
  proof cases
    case object
    then show ?thesis
      using agree [of "''ref''"] agree [of "''fact_type''"] agree [of "''use_case''"] by simp
  next
    case join
    then show ?thesis
      using agree [of "''from''"] agree [of "''to''"] agree [of "''cardinality''"] agree [of "''column_pairs''"]
        agree [of "''fact_type''"] agree [of "''use_case''"]
      by (simp add: norm_pairs_inject del: map_map)
  next
    case bridge
    obtain l1 r1 l2 r2 where c: "canonical_bridge_endpoints (br_left_ref a) (br_right_ref a) = (l1, r1)"
      "canonical_bridge_endpoints (br_left_ref b) (br_right_ref b) = (l2, r2)" by fastforce
    show ?thesis
      using agree [of "''endpoints''"] agree [of "''entity_id''"] agree [of "''fact_type''"] agree [of "''use_case''"]
        bridge_identity [OF _ _ c] assms bridge by (simp add: c)
  qed
qed

subsection \<open>Properties\<close>

text \<open>The messages the digest is asked for do not collide.\<close>

definition digests_apart :: "env \<Rightarrow> json set \<Rightarrow> bool" where
  "digests_apart E js \<longleftrightarrow> inj_on (sha256_of E) (json_dumps_ascii ` js)"

text \<open>
  C16: a fact key identifies exactly one fact.  If the digest does not collide on the two messages, two
  keys are equal precisely when the references are the same up to case and surrounding white space (a
  join's column pairs up to order, a bridge's endpoints up to which is left), and so are the fact type
  and the use case.  Bridges are the ones the write gate admits, between two catalogs.
\<close>

theorem fact_key_identifies:
  assumes "legal_ref r" "legal_ref r'"
    and "digests_apart E {canonical_identity r ft uc, canonical_identity r' ft' uc'}"
  shows "fact_key E r ft uc = fact_key E r' ft' uc' \<longleftrightarrow>
    same_ref r r' \<and> norm_text ft = norm_text ft' \<and> map_option norm_text uc = map_option norm_text uc'"
proof -
  have "fact_key E r ft uc = fact_key E r' ft' uc' \<longleftrightarrow>
      json_dumps_ascii (canonical_identity r ft uc) = json_dumps_ascii (canonical_identity r' ft' uc')"
    unfolding fact_key_def digest_def
    by (rule inj_on_eq_iff [OF assms(3) [unfolded digests_apart_def]]) simp_all
  also have "\<dots> \<longleftrightarrow> sort_keys (canonical_identity r ft uc) = sort_keys (canonical_identity r' ft' uc')"
    by (rule json_dumps_ascii_inject)
  finally show ?thesis
    unfolding canonical_identity_eq [OF assms(1,2)] .
qed

definition sample_column :: "string \<Rightarrow> string \<Rightarrow> CatalogObjectRef" where
  "sample_column source col = \<lparr>rf_catalog_source = source, rf_object_kind = ''column'', rf_schema = ''public'',
     rf_table = ''accounts'', rf_column = Some col\<rparr>"

lemmas norm_eval = sample_column_def ref_tuple_def norm_text_def strip_def is_space_char_def lower_char_def

lemma lower_eval: "(char_of (99 :: nat) :: char) = CHR ''c''" "(char_of (105 :: nat) :: char) = CHR ''i''" "(char_of (100 :: nat) :: char) = CHR ''d''"
  by code_simp+

theorem fact_key_identifies_witness:
  "fact_key sample_env (ObjectRef (sample_column ''Core'' '' ID'')) ''grain'' None = fact_key sample_env (ObjectRef (sample_column ''core'' ''id'')) ''grain'' None
   \<and> fact_key sample_env (ObjectRef (sample_column ''core'' ''id'')) ''grain'' None \<noteq> fact_key sample_env (ObjectRef (sample_column ''core'' ''no'')) ''grain'' None"
proof -
  have apart: "digests_apart sample_env js" for js
    by (simp add: digests_apart_def sample_env_def)
  have "ref_tuple (sample_column ''Core'' '' ID'') = ref_tuple (sample_column ''core'' ''id'')"
    "ref_tuple (sample_column ''core'' ''id'') \<noteq> ref_tuple (sample_column ''core'' ''no'')"
    by (simp_all add: norm_eval lower_eval)
  then show ?thesis
    using fact_key_identifies [OF _ _ apart, of "ObjectRef (sample_column ''Core'' '' ID'')" "ObjectRef (sample_column ''core'' ''id'')" "''grain''" None "''grain''" None]
      fact_key_identifies [OF _ _ apart, of "ObjectRef (sample_column ''core'' ''id'')" "ObjectRef (sample_column ''core'' ''no'')" "''grain''" None "''grain''" None]
    by simp
qed

text \<open>
  The reference an event stores reads back as the reference that was stored, and a reference that
  was read is one the constructors make, so that storing and reading it again changes nothing.
\<close>

theorem payload_ref_roundtrip:
  assumes "constructed ref"
  shows "ref_from_payload (asdict_ref ref) = Inr ref
    \<and> (\<forall>d. ref_from_payload d = Inr ref \<longrightarrow> ref_from_payload (asdict_ref ref) = ref_from_payload d)"
  using ref_from_payload_asdict [OF assms] by simp

definition sample_bridge :: fact_ref where
  "sample_bridge = BridgeRef (entity_bridge_ref ''customer'' (sample_column ''web'' ''user'') (sample_column ''core'' ''id''))"

theorem payload_ref_roundtrip_witness:
  "ref_from_payload (asdict_ref sample_bridge) = Inr sample_bridge \<and> br_left_ref (entity_bridge_ref ''customer'' (sample_column ''web'' ''user'') (sample_column ''core'' ''id'')) = sample_column ''core'' ''id''"
proof -
  have "br_left_ref (entity_bridge_ref ''customer'' (sample_column ''web'' ''user'') (sample_column ''core'' ''id'')) = sample_column ''core'' ''id''"
    by (simp add: entity_bridge_ref_def canonical_bridge_endpoints_def endpoint_order_key_def norm_eval less_char_def)
  then show ?thesis
    using payload_ref_roundtrip [of sample_bridge] entity_bridge_constructed by (simp add: sample_bridge_def del: constructed.simps)
qed

definition bridge_value :: "string \<Rightarrow> CatalogObjectRef \<Rightarrow> CatalogObjectRef \<Rightarrow> dict" where
  "bridge_value e l r = [(''entity_id'', JStr e), (''left_ref'', JObj (object_ref_dict l)), (''right_ref'', JObj (object_ref_dict r))]"

lemma canonical_value_of_bridge:
  "canonical_bridge_endpoints l r = (a, b) \<Longrightarrow> canonical_bridge_value (bridge_value e l r) = bridge_value e a b"
  by (auto simp: canonical_bridge_value_def bridge_value_def endpoint_key_of_dict canonical_bridge_endpoints_def with_endpoints_def
      split: if_splits)

text \<open>
  C39: naming a bridge the other way round is not a different fact.  The reference, the key and the
  fingerprint of a bridge between two catalogs are the same for both orders of its endpoints, so what a
  human rejected under one order is the same proposal under the other.
\<close>

theorem bridge_one_identity:
  assumes "two_catalogs l r"
  shows "entity_bridge_ref e l r = entity_bridge_ref e r l
    \<and> fact_key E (BridgeRef (entity_bridge_ref e l r)) ft uc = fact_key E (BridgeRef (entity_bridge_ref e r l)) ft uc
    \<and> fingerprint E (bridge_value e l r) pv th = fingerprint E (bridge_value e r l) pv th"
proof -
  obtain a b where ab: "canonical_bridge_endpoints l r = (a, b)" by fastforce
  then have "canonical_bridge_endpoints r l = (a, b)"
    using endpoints_swap [OF assms] by simp
  with ab show ?thesis
    by (simp add: entity_bridge_ref_def fingerprint_def canonical_value_of_bridge)
qed

theorem bridge_one_identity_witness:
  "fingerprint sample_env (bridge_value ''customer'' (sample_column ''web'' ''user'') (sample_column ''core'' ''id'')) JNull JNull
   = fingerprint sample_env (bridge_value ''customer'' (sample_column ''core'' ''id'') (sample_column ''web'' ''user'')) JNull JNull"
proof -
  have "two_catalogs (sample_column ''web'' ''user'') (sample_column ''core'' ''id'')"
    by (simp add: two_catalogs_def norm_eval)
  then show ?thesis
    using bridge_one_identity by blast
qed

end
