(* ===== verification/Isoformat.thy ===== *)
theory Isoformat
  imports Datetime Canonical_Json
begin

text \<open>
  \<open>datetime.fromisoformat\<close> on the texts \<open>isoformat()\<close> writes: the overlay stores the expiry of a fact
  as such a text in an event and reads it back.  Any other text raises \<open>ValueError\<close> here; Python
  accepts more spellings, which no modelled code produces.
\<close>

definition number_of :: "string \<Rightarrow> nat option" where
  "number_of s = (if s \<noteq> [] \<and> list_all digit s then Some (dec_value s) else None)"

definition year_start :: "nat \<Rightarrow> nat" where
  "year_start y = sum_list (map year_days [1970..<y])"

definition month_start :: "nat \<Rightarrow> nat \<Rightarrow> nat" where
  "month_start y m = sum_list (map (month_days y) [1..<m])"

definition days_of_date :: "nat \<Rightarrow> nat \<Rightarrow> nat \<Rightarrow> nat option" where
  "days_of_date y m d =
     (if 1970 \<le> y \<and> 1 \<le> m \<and> m \<le> 12 \<and> 1 \<le> d \<and> d \<le> month_days y m
      then Some (year_start y + month_start y m + (d - 1)) else None)"

text \<open>The fraction and the offset after the seconds.\<close>

definition fraction_of :: "string \<Rightarrow> nat option" where
  "fraction_of r =
     (if r = ''+00:00'' then Some 0
      else if length r = 13 \<and> take 1 r = ''.'' \<and> drop 7 r = ''+00:00'' then number_of (take 6 (drop 1 r)) else None)"

definition separators_ok :: "string \<Rightarrow> bool" where
  "separators_ok s \<longleftrightarrow> 19 \<le> length s \<and> s ! 4 = CHR ''-'' \<and> s ! 7 = CHR ''-'' \<and> s ! 10 = CHR ''T''
     \<and> s ! 13 = CHR '':'' \<and> s ! 16 = CHR '':''"

definition field_of :: "nat \<Rightarrow> nat \<Rightarrow> string \<Rightarrow> nat option" where
  "field_of i k s = number_of (take k (drop i s))"

definition fromisoformat :: "string \<Rightarrow> exn + int" where
  "fromisoformat s =
     (if \<not> separators_ok s then Inl ValueError
      else case (field_of 0 4 s, field_of 5 2 s, field_of 8 2 s, field_of 11 2 s, field_of 14 2 s, field_of 17 2 s, fraction_of (drop 19 s)) of
        (Some y, Some m, Some d, Some hh, Some mi, Some sec, Some us) \<Rightarrow>
          (case days_of_date y m d of
             None \<Rightarrow> Inl ValueError
           | Some days \<Rightarrow>
               if hh < 24 \<and> mi < 60 \<and> sec < 60
               then Inr (int days * usec_per_day + int (((hh * 60 + mi) * 60 + sec) * 1000000 + us))
               else Inl ValueError)
      | _ \<Rightarrow> Inl ValueError)"

subsection \<open>Reading back what was written\<close>

lemma dec_value_pad: "n < 10 ^ k \<Longrightarrow> dec_value (pad k n) = n"
proof (induction k arbitrary: n)
  case (Suc k)
  have "n div 10 < 10 ^ k"
    using Suc.prems by simp
  then show ?case
    using Suc.IH [of "n div 10"] by (simp add: dec_value_snoc)
qed simp

lemma pad_digits: "list_all digit (pad k n)"
  by (induction k arbitrary: n) (auto simp: digit_char)

lemma number_of_pad: "n < 10 ^ k \<Longrightarrow> 0 < k \<Longrightarrow> number_of (pad k n) = Some n"
  using length_pad [of k n] by (auto simp: number_of_def pad_digits dec_value_pad simp del: length_pad)

lemma split_year_start:
  "split_year y d = (y', d') \<Longrightarrow> y \<le> y' \<and> d = sum_list (map year_days [y..<y']) + d' \<and> d' < year_days y'"
proof (induction y d rule: split_year.induct)
  case (1 y d)
  show ?case
  proof (cases "d < year_days y")
    case True
    with "1.prems" show ?thesis
      by (simp add: split_year.simps [of y d])
  next
    case False
    then have "split_year (Suc y) (d - year_days y) = (y', d')"
      using "1.prems" by (simp add: split_year.simps [of y d])
    from "1.IH" [OF False this] False show ?thesis
      by (auto simp: upt_conv_Cons)
  qed
qed

lemma split_month_start:
  assumes "split_month y m d = (m', d')" "m \<le> 12"
  shows "m \<le> m' \<and> m' \<le> 12 \<and> d = sum_list (map (month_days y) [m..<m']) + d' \<and> (m' < 12 \<longrightarrow> d' < month_days y m')"
  using assms
proof (induction y m d rule: split_month.induct)
  case (1 y m d)
  show ?case
  proof (cases "d < month_days y m \<or> 12 \<le> m")
    case True
    with "1.prems" show ?thesis
      by (auto simp: split_month.simps [of y m d])
  next
    case False
    then have "split_month y (Suc m) (d - month_days y m) = (m', d')"
      using "1.prems" by (simp add: split_month.simps [of y m d])
    from "1.IH" [OF _ this] False show ?thesis
      by (auto simp: upt_conv_Cons)
  qed
qed

lemma year_by_months: "sum_list (map (month_days y) [1..<12]) + month_days y 12 = year_days y"
  by (simp add: month_days_def year_days_def upt_rec)

lemma days_of_civil:
  assumes "civil n = (y, m, d)"
  shows "days_of_date y m d = Some n"
proof -
  obtain yd where sy: "split_year 1970 n = (y, yd)"
    using assms by (auto simp: civil_def Let_def split: prod.splits)
  then obtain k where sm: "split_month y 1 yd = (m, k)" "d = Suc k"
    using assms by (auto simp: civil_def Let_def split: prod.splits)
  note yr = split_year_start [OF sy] and mo = split_month_start [OF sm(1)]
  have "k < month_days y m"
  proof (cases "m < 12")
    case False
    then have "m = 12" using mo by simp
    then show ?thesis
      using yr mo year_by_months [of y] by simp
  qed (use mo in simp)
  then show ?thesis
    using yr mo by (simp add: days_of_date_def sm(2) year_start_def month_start_def)
qed

lemma seconds_split: "(n div 3600 * 60 + n div 60 mod 60) * 60 + n mod 60 = (n :: nat)"
proof -
  have "n div 3600 = n div 60 div 60"
    by (simp add: div_mult2_eq [symmetric])
  then have "n div 3600 * 60 + n div 60 mod 60 = n div 60"
    by simp
  then show ?thesis
    by simp
qed

lemma fromisoformat_isoformat:
  assumes "valid_time t"
  shows "fromisoformat (isoformat t) = Inr t"
proof -
  obtain y m d where c: "civil (nat (day_of t)) = (y, m, d)"
    by (metis prod_cases3)
  have y: "y < 10 ^ 4" and md: "m < 10 ^ 2" "d < 10 ^ 2"
    using assms civil_bounds [OF c] by (auto simp: valid_time_def)
  let ?r = "nat (t mod usec_per_day)"
  let ?us = "?r mod 1000000" and ?sec = "?r div 1000000"
  have r: "?r < 86400000000"
    by (simp add: usec_per_day_def nat_less_iff)
  have lt: "?sec div 3600 < 24" "?sec div 60 mod 60 < 60" "?sec mod 60 < 60" "?us < 10 ^ 6"
    using r by (simp_all add: less_mult_imp_div_less)
  have two: "a < 60 \<Longrightarrow> a < 10 ^ 2" for a :: nat by simp
  let ?tail = "(if ?us = 0 then [] else ''.'' @ pad 6 ?us) @ ''+00:00''"
  have iso: "isoformat t = pad 4 y @ ''-'' @ pad 2 m @ ''-'' @ pad 2 d @ ''T'' @ pad 2 (?sec div 3600) @ '':''
      @ pad 2 (?sec div 60 mod 60) @ '':'' @ pad 2 (?sec mod 60) @ ?tail"
    unfolding isoformat_def c Let_def by simp
  have frac: "fraction_of ?tail = Some ?us"
    using number_of_pad [OF lt(4)] by (simp add: fraction_of_def del: pad.simps)
  have parts: "field_of 0 4 (isoformat t) = Some y" "field_of 5 2 (isoformat t) = Some m" "field_of 8 2 (isoformat t) = Some d"
    "field_of 11 2 (isoformat t) = Some (?sec div 3600)" "field_of 14 2 (isoformat t) = Some (?sec div 60 mod 60)"
    "field_of 17 2 (isoformat t) = Some (?sec mod 60)" "drop 19 (isoformat t) = ?tail"
    using y md lt by (simp_all add: field_of_def iso number_of_pad two del: pad.simps)
  have "separators_ok (isoformat t)"
    by (simp add: separators_ok_def iso nth_append del: pad.simps)
  then have "fromisoformat (isoformat t) = Inr (int (nat (day_of t)) * usec_per_day
      + int (((?sec div 3600 * 60 + ?sec div 60 mod 60) * 60 + ?sec mod 60) * 1000000 + ?us))"
    using lt by (simp add: fromisoformat_def parts frac days_of_civil [OF c])
  also have "\<dots> = Inr (int (nat (day_of t)) * usec_per_day + int ?r)"
    by (simp only: seconds_split div_mult_mod_eq)
  also have "\<dots> = Inr t"
    using assms by (simp add: valid_time_def day_of_def usec_per_day_def pos_imp_zdiv_nonneg_iff)
  finally show ?thesis .
qed

end
