(* ===== verification/Overlay_Catalog.thy ===== *)
theory Overlay_Catalog
  imports Overlay_Identity Isoformat "HOL-Library.AList"
begin

text \<open>
  What the overlay knows of a catalog and of its own configuration: \<open>overlay/catalog.py\<close> (the adapter
  interface and its in-memory implementation), \<open>overlay/config.py\<close>, \<open>overlay/dependencies.py\<close>, and
  the checks of \<open>overlay/_lifecycle.py\<close> and \<open>upload/join_referents.py\<close> that a value's referents still
  exist.  The locale \<open>catalog\<close> is the contract of an adapter: it answers for one catalog source only.
\<close>

subsection \<open>The adapter\<close>

record CatalogObject =
  ct_object_ref :: string
  ct_object_kind :: string
  ct_schema :: string
  ct_table :: string
  ct_column :: "string option"
  ct_data_type :: "string option"
  ct_native_oid :: "string option"
  ct_safety_fingerprint :: "string option"

record CatalogFact =
  cf_value :: json
  cf_authoritative :: bool

text \<open>
  The protocol \<open>CatalogAdapter\<close>; \<open>fingerprint\<close> is the association list of the objects by reference.
  \<open>graph_nodes\<close> is not part of it: for the sentinel \<open>UploadContextAdapter\<close>, which attests nothing,
  it holds the rows \<open>(catalog_source, object_ref)\<close> of the table \<open>graph_node\<close> that the code asks instead.
\<close>

record CatalogAdapter =
  catalog_source :: string
  get_fact :: "CatalogObjectRef \<Rightarrow> string \<Rightarrow> string option \<Rightarrow> CatalogFact option"
  owner_of :: "CatalogObjectRef \<Rightarrow> string option"
  catalog_fingerprint :: "(string \<times> CatalogObject) list"
  graph_nodes :: "(string \<times> string) list option"

locale catalog =
  fixes source :: string
    and owner :: "CatalogObjectRef \<Rightarrow> string option"
    and fact :: "CatalogObjectRef \<Rightarrow> string \<Rightarrow> string option \<Rightarrow> CatalogFact option"
  assumes foreign_owner: "rf_catalog_source r \<noteq> source \<Longrightarrow> owner r = None"
    and foreign_fact: "rf_catalog_source r \<noteq> source \<Longrightarrow> fact r fact_type use_case = None"
begin

lemma owner_source: "owner r = Some o' \<Longrightarrow> rf_catalog_source r = source"
  using foreign_owner by fastforce

lemma shared_owner_source:
  "owner a \<noteq> None \<Longrightarrow> owner a = owner b \<Longrightarrow> rf_catalog_source a = rf_catalog_source b"
  using foreign_owner by metis

end

text \<open>\<open>FixtureCatalog\<close>: objects, facts and owners by the displayed reference.\<close>

record FixtureCatalog =
  fx_catalog_source :: string
  fx_objects :: "(string \<times> CatalogObject) list"
  fx_facts :: "((string \<times> string \<times> string option) \<times> CatalogFact) list"
  fx_owners :: "(string \<times> string) list"

definition fx_add_object :: "CatalogObject \<Rightarrow> FixtureCatalog \<Rightarrow> FixtureCatalog" where
  "fx_add_object ob c = c\<lparr>fx_objects := AList.update (ct_object_ref ob) ob (fx_objects c)\<rparr>"

definition fx_set_owner :: "CatalogObjectRef \<Rightarrow> string \<Rightarrow> FixtureCatalog \<Rightarrow> FixtureCatalog" where
  "fx_set_owner r who c = c\<lparr>fx_owners := AList.update (display_object r) who (fx_owners c)\<rparr>"

definition fx_get_fact :: "FixtureCatalog \<Rightarrow> CatalogObjectRef \<Rightarrow> string \<Rightarrow> string option \<Rightarrow> CatalogFact option" where
  "fx_get_fact c r fact_type use_case =
     (if rf_catalog_source r \<noteq> fx_catalog_source c then None else map_of (fx_facts c) (display_object r, fact_type, use_case))"

definition fx_owner_of :: "FixtureCatalog \<Rightarrow> CatalogObjectRef \<Rightarrow> string option" where
  "fx_owner_of c r = (if rf_catalog_source r \<noteq> fx_catalog_source c then None else map_of (fx_owners c) (display_object r))"

definition fixture_adapter :: "FixtureCatalog \<Rightarrow> CatalogAdapter" where
  "fixture_adapter c = \<lparr>catalog_source = fx_catalog_source c, get_fact = fx_get_fact c, owner_of = fx_owner_of c,
     catalog_fingerprint = fx_objects c, graph_nodes = None\<rparr>"

interpretation fixture: catalog "fx_catalog_source c" "fx_owner_of c" "fx_get_fact c" for c
  by unfold_locales (simp_all add: fx_owner_of_def fx_get_fact_def)

subsection \<open>Configuration\<close>

text \<open>
  Durations are microseconds.  The jitter fraction is a number of millionths; the product of a
  duration with the fraction and with a number in \<open>[-1, 1)\<close> is floating-point arithmetic and is the
  parameter \<open>jittered\<close> of \<open>overlay_env\<close>.
\<close>

record ProfilerRule =
  rule_catalog_source :: string
  rule_schema :: string
  rule_table :: string
  rule_allow :: bool

record OverlayConfig =
  ttl_default :: int
  ttl_min :: int
  ttl_max :: int
  ttl_jitter_fraction :: int
  renewal_grace :: int
  drift_scan_interval :: int
  drift_freshness_sla :: int
  profiler_require_restricted_role :: bool
  ttl_by_fact_type :: "(string \<times> int) list"
  profiler_rules :: "ProfilerRule list"

definition overlay_config_ok :: "OverlayConfig \<Rightarrow> exn + unit" where
  "overlay_config_ok c =
     (if ttl_min c \<le> 0 then Inl OverlayConfigError
      else if ttl_max c < ttl_min c then Inl OverlayConfigError
      else if \<not> (ttl_min c \<le> ttl_default c \<and> ttl_default c \<le> ttl_max c) then Inl OverlayConfigError
      else if \<not> list_all (\<lambda>(_, ttl). ttl_min c \<le> ttl \<and> ttl \<le> ttl_max c) (ttl_by_fact_type c) then Inl OverlayConfigError
      else if \<not> (0 \<le> ttl_jitter_fraction c \<and> ttl_jitter_fraction c < 1000000) then Inl OverlayConfigError
      else if renewal_grace c \<le> 0 then Inl OverlayConfigError
      else if ttl_min c \<le> renewal_grace c then Inl OverlayConfigError
      else if drift_scan_interval c \<le> 0 then Inl OverlayConfigError
      else if drift_freshness_sla c < drift_scan_interval c then Inl OverlayConfigError
      else Inr ())"

text \<open>
  The calls into the upload package that keep its projections in step with a fact: each is one call
  site's function with its arguments.
\<close>

datatype upload_call =
    DemoteJoinEdges string string
  | DemoteSemanticBinding string string string
  | DemoteBridgeEdges string
  | DemoteRealizationsForBridge string string
  | DemoteRealizationsForDependency string string
  | ProjectSemanticBinding CatalogObjectRef string
  | ProjectBridge EntityBridgeRef

record overlay_env =
  core :: env
  validation_message :: "dict \<Rightarrow> dict \<Rightarrow> string"
  catalog_adapter :: "CatalogAdapter option"
  overlay_config :: "OverlayConfig option"
  jittered :: "int \<Rightarrow> int \<Rightarrow> string \<Rightarrow> int"
  known_entities :: "string list"
  bridge_catalog_write_error :: "fact_ref \<Rightarrow> db \<Rightarrow> string option"
  upload_hook :: "upload_call \<Rightarrow> unit dbprog"

text \<open>\<open>current_catalog_adapter()\<close> and \<open>current_overlay_config()\<close> fail closed.\<close>

definition current_catalog_adapter :: "overlay_env \<Rightarrow> exn + CatalogAdapter" where
  "current_catalog_adapter C = (case catalog_adapter C of None \<Rightarrow> Inl RuntimeError | Some a \<Rightarrow> Inr a)"

definition current_overlay_config :: "overlay_env \<Rightarrow> exn + OverlayConfig" where
  "current_overlay_config C = (case overlay_config C of None \<Rightarrow> Inl RuntimeError | Some c \<Rightarrow> Inr c)"

text \<open>180 days.\<close>

definition DEFAULT_TTL :: int where
  "DEFAULT_TTL = 180 * usec_per_day"

definition resolve_ttl :: "overlay_env \<Rightarrow> string \<Rightarrow> string \<Rightarrow> int" where
  "resolve_ttl C fact_type key =
     (case current_overlay_config C of
        Inl _ \<Rightarrow> DEFAULT_TTL
      | Inr c \<Rightarrow>
          let base = (case map_of (ttl_by_fact_type c) fact_type of None \<Rightarrow> ttl_default c | Some t \<Rightarrow> t);
              shifted = (if ttl_jitter_fraction c \<noteq> 0 then base + jittered C base (ttl_jitter_fraction c) key else base)
          in max (ttl_min c) (min (ttl_max c) shifted))"

subsection \<open>The objects a value refers to\<close>

definition table_obj :: "dict \<Rightarrow> exn + string" where
  "table_obj ref = chain (dict_str ref ''schema'') (\<lambda>schema. chain (dict_str ref ''table'') (\<lambda>table.
     Inr (dotted (filter (\<lambda>p. p \<noteq> []) [schema, table]))))"

definition column_obj :: "string \<Rightarrow> string \<Rightarrow> string" where
  "column_obj object_ref col = object_ref @ CHR ''.'' # col"

text \<open>\<open>d[k]\<close> where the code goes on to index the value by a name.\<close>

definition dict_at :: "dict \<Rightarrow> string \<Rightarrow> exn + dict" where
  "dict_at d k = chain (dict_item d k) (\<lambda>v. case v of JObj x \<Rightarrow> Inr x | _ \<Rightarrow> Inl TypeError)"

text \<open>\<open>f"{ref['column']}"\<close>: the text, or \<open>None\<close> written out.\<close>

definition column_text :: "dict \<Rightarrow> exn + string" where
  "column_text ref = chain (dict_item ref ''column'') (\<lambda>v. case v of JStr c \<Rightarrow> Inr c | JNull \<Rightarrow> Inr ''None'' | _ \<Rightarrow> Inl TypeError)"

definition list_of :: "json \<Rightarrow> exn + json list" where
  "list_of v = (case v of JArr xs \<Rightarrow> Inr xs | _ \<Rightarrow> Inl TypeError)"

definition pair_deps :: "string \<Rightarrow> string \<Rightarrow> string \<Rightarrow> string \<Rightarrow> json \<Rightarrow> exn + (string \<times> string) list" where
  "pair_deps from_src from_obj to_src to_obj pair =
     (case pair of
        JObj p \<Rightarrow> chain (dict_str p ''from_col'') (\<lambda>a. chain (dict_str p ''to_col'') (\<lambda>b.
          Inr [(from_src, column_obj from_obj a), (to_src, column_obj to_obj b)]))
      | _ \<Rightarrow> Inl TypeError)"

text \<open>The set is listed without repetition; every use of it iterates or tests membership.\<close>

definition fact_dependencies :: "string \<Rightarrow> string \<Rightarrow> dict \<Rightarrow> string option \<Rightarrow> exn + (string option \<times> string) list" where
  "fact_dependencies object_ref fact_type value source =
     (if fact_type = ''entity_bridge'' then
        chain (dict_at value ''left_ref'') (\<lambda>lr. chain (dict_at value ''right_ref'') (\<lambda>rr.
        chain (dict_str lr ''catalog_source'') (\<lambda>l_src. chain (dict_str rr ''catalog_source'') (\<lambda>r_src.
        chain (table_obj lr) (\<lambda>l_obj. chain (table_obj rr) (\<lambda>r_obj.
        chain (column_text lr) (\<lambda>l_col. chain (column_text rr) (\<lambda>r_col.
        Inr (remdups [(Some l_src, l_obj), (Some r_src, r_obj), (Some l_src, column_obj l_obj l_col),
               (Some r_src, column_obj r_obj r_col)])))))))))
      else if fact_type = ''approved_join'' then
        chain (dict_at value ''from_ref'') (\<lambda>fr. chain (dict_at value ''to_ref'') (\<lambda>tr.
        chain (dict_str fr ''catalog_source'') (\<lambda>from_src. chain (dict_str tr ''catalog_source'') (\<lambda>to_src.
        chain (table_obj fr) (\<lambda>from_obj. chain (table_obj tr) (\<lambda>to_obj.
        chain (list_of (dget_or value ''column_pairs'' (JArr []))) (\<lambda>pairs.
        chain (map_chain (pair_deps from_src from_obj to_src to_obj) pairs) (\<lambda>ds.
        Inr (remdups (map (\<lambda>(s, o'). (Some s, o')) ([(from_src, from_obj), (to_src, to_obj)] @ concat ds))))))))))) 
      else if fact_type = ''currency_binding'' then
        (case dget value ''currency_column'' of
           JNull \<Rightarrow> Inr [(source, object_ref)]
         | JObj cc \<Rightarrow> chain (table_obj cc) (\<lambda>t. chain (column_text cc) (\<lambda>c.
             Inr (remdups [(source, object_ref), (source, column_obj t c)])))
         | _ \<Rightarrow> Inl TypeError)
      else if fact_type = ''grain'' then
        chain (list_of (dget_or value ''columns'' (JArr []))) (\<lambda>cs.
        chain (map_chain (\<lambda>c. case c of JStr x \<Rightarrow> Inr x | _ \<Rightarrow> Inl TypeError) cs) (\<lambda>names.
        Inr (remdups ((source, object_ref) # map (\<lambda>c. (source, column_obj object_ref c)) names))))
      else if fact_type = ''availability_time'' then
        chain (dict_str value ''column'') (\<lambda>c. Inr [(source, object_ref), (source, column_obj object_ref c)])
      else if fact_type = ''scd_effective_dating'' then
        chain (dict_str value ''valid_from'') (\<lambda>a.
        let until = (if truthy (dget value ''valid_to'') then as_ostr (dget value ''valid_to'') else None)
        in Inr (remdups ([(source, object_ref), (source, column_obj object_ref a)]
             @ (case until of None \<Rightarrow> [] | Some b \<Rightarrow> [(source, column_obj object_ref b)]))))
      else Inr [(source, object_ref)])"

text \<open>\<open>getattr(ref, "catalog_source", None)\<close>.\<close>

fun single_source :: "fact_ref \<Rightarrow> string option" where
  "single_source (ObjectRef r) = Some (rf_catalog_source r)"
| "single_source _ = None"

definition source_text :: "string option \<Rightarrow> string" where
  "source_text x = (case x of None \<Rightarrow> ''None'' | Some v \<Rightarrow> v)"

definition referent_gap :: "CatalogAdapter \<Rightarrow> fact_ref \<Rightarrow> string \<Rightarrow> dict \<Rightarrow> exn + string option" where
  "referent_gap a ref fact_type value =
     chain (fact_dependencies (display_object_ref ref) fact_type value (single_source ref)) (\<lambda>deps.
     Inr (map_option (\<lambda>(src, referent).
            if src \<noteq> Some (catalog_source a)
            then ''referent catalog_source '' @ CHR 0x27 # source_text src @ [CHR 0x27] @ '' is not served by this adapter''
            else ''referent no longer in catalog: '' @ referent)
          (find (\<lambda>(src, referent). src \<noteq> Some (catalog_source a) \<or> map_of (catalog_fingerprint a) referent = None) deps)))"

text \<open>\<open>s.split(".")\<close> and the normal form of each segment.\<close>

fun split_dots :: "string \<Rightarrow> string list" where
  "split_dots [] = [[]]"
| "split_dots (c # cs) =
     (if c = CHR ''.'' then [] # split_dots cs
      else case split_dots cs of [] \<Rightarrow> [[c]] | seg # segs \<Rightarrow> (c # seg) # segs)"

definition norm_path :: "string \<Rightarrow> string" where
  "norm_path referent = dotted (map norm_text (split_dots referent))"

text \<open>\<open>lower(btrim(x))\<close>: \<open>btrim\<close> removes blanks only.\<close>

definition sql_norm :: "string \<Rightarrow> string" where
  "sql_norm x = map lower_char (rev (dropWhile (\<lambda>c. c = CHR '' '') (rev (dropWhile (\<lambda>c. c = CHR '' '') x))))"

definition graph_referent_gap :: "(string \<times> string) list \<Rightarrow> fact_ref \<Rightarrow> string \<Rightarrow> dict \<Rightarrow> exn + string option" where
  "graph_referent_gap nodes ref fact_type value =
     chain (fact_dependencies (display_object_ref ref) fact_type value (single_source ref)) (\<lambda>deps.
     chain (map_chain (\<lambda>(src, referent). case src of None \<Rightarrow> Inl TypeError | Some s \<Rightarrow> Inr (s, referent)) deps) (\<lambda>ds.
     Inr (map_option (\<lambda>(src, referent). ''join referent missing from graph: '' @ src @ CHR ''.'' # referent)
       (find (\<lambda>(src, referent). \<not> list_ex (\<lambda>(cs, o'). sql_norm cs = norm_text src \<and> sql_norm o' = norm_path referent) nodes) ds))))"

definition check_referents_exist :: "CatalogAdapter \<Rightarrow> fact_ref \<Rightarrow> string \<Rightarrow> dict \<Rightarrow> exn + string option" where
  "check_referents_exist a ref fact_type value =
     (case graph_nodes a of
        Some nodes \<Rightarrow> graph_referent_gap nodes ref fact_type value
      | None \<Rightarrow> referent_gap a ref fact_type value)"

end
