(* ===== verification/Overlay_Facts.thy ===== *)
theory Overlay_Facts
  imports Overlay_Catalog Aggregates
begin

text \<open>
  The facts of the overlay: \<open>overlay/facts.py\<close> (the schema of each fact type and of each event),
  \<open>overlay/state.py\<close> (the state a stream of events folds to) and \<open>overlay/store.py\<close> (the append that
  checks a value against its fact type before it is written).
\<close>

subsection \<open>Schemas\<close>

abbreviation typed :: "string \<Rightarrow> json" where "typed t \<equiv> JObj [(''type'', JStr t)]"

definition NSTR :: json where
  "NSTR = JObj [(''type'', JArr [JStr ''string'', JStr ''null''])]"

definition texts :: "string list \<Rightarrow> json" where
  "texts xs = JArr (map JStr xs)"

definition CATALOG_OBJECT_REF_SCHEMA :: json where
  "CATALOG_OBJECT_REF_SCHEMA = JObj [(''type'', JStr ''object''),
     (''required'', texts [''catalog_source'', ''object_kind'', ''schema'', ''table'']),
     (''properties'', JObj [(''catalog_source'', typed ''string''), (''object_kind'', typed ''string''),
        (''schema'', typed ''string''), (''table'', typed ''string''), (''column'', NSTR)]),
     (''additionalProperties'', JBool False)]"

definition closed_object :: "string list \<Rightarrow> dict \<Rightarrow> dict" where
  "closed_object required properties = [(''type'', JStr ''object''), (''required'', texts required),
     (''properties'', JObj properties), (''additionalProperties'', JBool False)]"

definition FACT_VALUE_SCHEMAS :: "(string \<times> dict) list" where
  "FACT_VALUE_SCHEMAS = [
     (''availability_time'', closed_object [''column'', ''basis'']
        [(''column'', typed ''string''),
         (''basis'', JObj [(''type'', JStr ''string''), (''enum'', texts [''posted_at'', ''ingested_at'', ''event_time_plus_lag''])]),
         (''lag_hours'', typed ''number'')]
        @ [(''if'', JObj [(''properties'', JObj [(''basis'', JObj [(''const'', JStr ''event_time_plus_lag'')])])]),
           (''then'', JObj [(''required'', texts [''lag_hours''])])]),
     (''grain'', closed_object [''columns'', ''is_unique'']
        [(''columns'', JObj [(''type'', JStr ''array''), (''items'', typed ''string''), (''minItems'', JInt 1), (''uniqueItems'', JBool True)]),
         (''is_unique'', typed ''boolean'')]),
     (''scd_effective_dating'', closed_object [''valid_from'', ''valid_to'']
        [(''valid_from'', typed ''string''), (''valid_to'', NSTR), (''current_flag'', typed ''string'')]),
     (''approved_join'', closed_object [''from_ref'', ''to_ref'', ''column_pairs'', ''cardinality'']
        [(''from_ref'', CATALOG_OBJECT_REF_SCHEMA), (''to_ref'', CATALOG_OBJECT_REF_SCHEMA),
         (''column_pairs'', JObj [(''type'', JStr ''array''), (''minItems'', JInt 1), (''uniqueItems'', JBool True),
            (''items'', JObj (closed_object [''from_col'', ''to_col''] [(''from_col'', typed ''string''), (''to_col'', typed ''string'')]))]),
         (''cardinality'', JObj [(''type'', texts [''string'', ''null'']), (''enum'', JArr [JStr ''1:1'', JStr ''1:N'', JStr ''N:1'', JNull])])]),
     (''entity_bridge'', closed_object [''entity_id'', ''left_ref'', ''right_ref'']
        [(''entity_id'', typed ''string''), (''left_ref'', CATALOG_OBJECT_REF_SCHEMA), (''right_ref'', CATALOG_OBJECT_REF_SCHEMA)]),
     (''entity_assignment'', closed_object [''entity_id'']
        [(''entity_id'', JObj [(''type'', JStr ''string''), (''minLength'', JInt 1)])]),
     (''currency_binding'', [(''type'', JStr ''object''), (''oneOf'', JArr [
        JObj [(''required'', texts [''currency_column'']), (''properties'', JObj [(''currency_column'', CATALOG_OBJECT_REF_SCHEMA)]),
              (''additionalProperties'', JBool False)],
        JObj [(''required'', texts [''currency_code'']),
              (''properties'', JObj [(''currency_code'', JObj [(''type'', JStr ''string''), (''pattern'', JStr ''^[A-Z]{3}$'')])]),
              (''additionalProperties'', JBool False)]])]),
     (''policy_tag'', closed_object [''decision'', ''basis'']
        [(''decision'', JObj [(''type'', JStr ''string''), (''enum'', texts [''allow'', ''deny'', ''restricted''])]),
         (''sensitivity'', typed ''string''), (''basis'', typed ''string'')])]"

text \<open>\<open>dict(value)\<close>: of the other values Python would accept only lists of pairs, which no caller passes.\<close>

fun py_dict :: "json \<Rightarrow> exn + dict" where
  "py_dict (JObj d) = Inr d"
| "py_dict (JArr []) = Inr []"
| "py_dict (JStr []) = Inr []"
| "py_dict (JStr _) = Inl ValueError"
| "py_dict _ = Inl TypeError"

definition validate_fact_value :: "overlay_env \<Rightarrow> string \<Rightarrow> json \<Rightarrow> string option \<Rightarrow> exn + unit" where
  "validate_fact_value C fact_type value use_case =
     (case map_of FACT_VALUE_SCHEMAS fact_type of
        None \<Rightarrow> Inl (FactValidationError (''unknown fact_type '' @ repr_str fact_type))
      | Some schema \<Rightarrow>
          if fact_type = ''policy_tag'' \<and> str_or use_case [] = [] then
            Inl (FactValidationError (fact_type @ '' requires a use_case''))
          else if fact_type \<noteq> ''policy_tag'' \<and> use_case \<noteq> None then
            Inl (FactValidationError (fact_type @ '' prohibits a use_case''))
          else
            chain (py_dict value) (\<lambda>d.
            if js_valid (core C) schema d then Inr ()
            else Inl (FactValidationError (fact_type @ '' value invalid: '' @ validation_message C schema d))))"

definition evt :: "dict \<Rightarrow> string list \<Rightarrow> dict" where
  "evt properties required = [(''type'', JStr ''object''), (''properties'', JObj properties), (''required'', texts required),
     (''additionalProperties'', JBool False)]"

definition CONFIRMER_SCHEMA :: json where
  "CONFIRMER_SCHEMA = JObj (closed_object [''subject'', ''role''] [(''subject'', typed ''string''), (''role'', typed ''string'')])"

definition confirmed_schema :: dict where
  "confirmed_schema =
     evt [(''value'', typed ''object''), (''confirmers'', JObj [(''type'', JStr ''array''), (''items'', CONFIRMER_SCHEMA)]),
          (''authority_basis'', JObj [(''type'', JStr ''string''), (''enum'', texts [''source_declared''])]),
          (''origin_type'', JObj [(''type'', JStr ''string''), (''enum'', texts [''upload'', ''connector'', ''resolution''])]),
          (''role_claims'', JObj [(''type'', JStr ''array''), (''items'', typed ''string'')]),
          (''expires_at'', NSTR), (''confirms_event_id'', typed ''string''), (''note'', NSTR)]
         [''value'', ''confirms_event_id'']
     @ [(''oneOf'', JArr [
          JObj [(''required'', texts [''confirmers'']), (''not'', JObj [(''required'', texts [''authority_basis''])])],
          JObj [(''required'', texts [''authority_basis'', ''origin_type'', ''role_claims'']),
                (''not'', JObj [(''required'', texts [''confirmers''])])]])]"

definition OVERLAY_EVENT_SCHEMAS :: "(string \<times> dict) list" where
  "OVERLAY_EVENT_SCHEMAS = [
     (''OVERLAY_FACT_PROPOSED'',
        evt [(''catalog_object_ref'', typed ''object''), (''object_ref'', typed ''string''), (''fact_type'', typed ''string''),
             (''use_case'', NSTR), (''proposed_value'', typed ''object''), (''proposal_fingerprint'', typed ''string''),
             (''evidence_ref'', NSTR), (''proposed_by'', typed ''string''), (''source_uploader'', typed ''string'')]
            [''catalog_object_ref'', ''object_ref'', ''fact_type'', ''proposed_value'', ''proposal_fingerprint'', ''proposed_by'']),
     (''OVERLAY_FACT_PARTIALLY_CONFIRMED'',
        evt [(''by_owner'', typed ''string''), (''role'', typed ''string''), (''draft_event_id'', typed ''string''), (''note'', NSTR)]
            [''by_owner'', ''role'', ''draft_event_id'']),
     (''OVERLAY_FACT_CONFIRMED'', confirmed_schema),
     (''OVERLAY_FACT_REJECTED'',
        evt [(''rejected_by'', typed ''string''), (''reason'', NSTR), (''category'', NSTR), (''target_event_id'', typed ''string''),
             (''retired_fingerprint'', NSTR)]
            [''rejected_by'', ''target_event_id'']),
     (''OVERLAY_FACT_EXPIRED'', evt [(''expires_confirmed_event_id'', typed ''string'')] [''expires_confirmed_event_id'']),
     (''OVERLAY_FACT_STALED'',
        evt [(''catalog_change_ref'', typed ''string''), (''stales_confirmed_event_id'', typed ''string'')]
            [''catalog_change_ref'', ''stales_confirmed_event_id''])]"

definition register_overlay_event_types :: "event_registry \<Rightarrow> event_registry" where
  "register_overlay_event_types registry =
     foldl (\<lambda>reg (type_name, schema). register_schema type_name 1 schema ''featuregen-overlay'' ''active'' reg)
       registry OVERLAY_EVENT_SCHEMAS"

subsection \<open>The state of a fact\<close>

text \<open>Fields that hold what a payload said are JSON values; \<open>JNull\<close> is \<open>None\<close>.\<close>

record OverlayState =
  os_status :: "string option"
  os_value :: json
  os_confirmers :: "json list"
  os_expires_at :: json
  os_confirmed_event_id :: "string option"
  os_draft_event_id :: "string option"
  os_proposal_fingerprint :: json
  os_partial_confirmers :: "json list"
  os_prior_value :: json
  os_evidence_ref :: json
  os_object_ref :: json
  os_fact_type :: json
  os_use_case :: json
  os_authority_basis :: json
  os_origin_type :: json
  os_role_claims :: "json list"

definition initial_state :: OverlayState where
  "initial_state = \<lparr>os_status = None, os_value = JNull, os_confirmers = [], os_expires_at = JNull, os_confirmed_event_id = None,
     os_draft_event_id = None, os_proposal_fingerprint = JNull, os_partial_confirmers = [], os_prior_value = JNull,
     os_evidence_ref = JNull, os_object_ref = JNull, os_fact_type = JNull, os_use_case = JNull, os_authority_basis = JNull,
     os_origin_type = JNull, os_role_claims = []\<rparr>"

definition authority_provenance :: "OverlayState \<Rightarrow> json" where
  "authority_provenance st =
     (if os_authority_basis st \<noteq> JNull then os_authority_basis st
      else if os_confirmers st \<noteq> [] then JStr ''legacy_unspecified'' else JNull)"

text \<open>\<open>list(payload.get(k) or [])\<close>.\<close>

definition list_or_empty :: "json \<Rightarrow> exn + json list" where
  "list_or_empty v = (if truthy v then list_of v else Inr [])"

definition fold_event :: "OverlayState \<Rightarrow> EventEnvelope \<Rightarrow> exn + OverlayState" where
  "fold_event st event =
     (let payload = ev_payload event in
      if ev_type event = ''OVERLAY_FACT_PROPOSED'' then
        if os_status st \<notin> {None, Some ''REJECTED''} then Inr st
        else
          chain (dict_item payload ''proposal_fingerprint'') (\<lambda>fp.
          chain (dict_item payload ''object_ref'') (\<lambda>object_ref.
          chain (dict_item payload ''fact_type'') (\<lambda>fact_type.
          Inr (st\<lparr>os_status := Some ''DRAFT'', os_draft_event_id := Some (ev_event_id event), os_proposal_fingerprint := fp,
            os_object_ref := object_ref, os_fact_type := fact_type, os_use_case := dget payload ''use_case'',
            os_evidence_ref := dget payload ''evidence_ref'', os_prior_value := JNull, os_value := JNull, os_confirmers := [],
            os_partial_confirmers := [], os_expires_at := JNull, os_confirmed_event_id := None, os_authority_basis := JNull,
            os_origin_type := JNull, os_role_claims := []\<rparr>))))
      else if ev_type event = ''OVERLAY_FACT_PARTIALLY_CONFIRMED'' then
        chain (dict_item payload ''by_owner'') (\<lambda>owner.
        chain (dict_item payload ''role'') (\<lambda>role.
        Inr (st\<lparr>os_status := Some ''PARTIALLY_CONFIRMED'',
          os_partial_confirmers := os_partial_confirmers st @ [JObj [(''subject'', owner), (''role'', role)]]\<rparr>)))
      else if ev_type event = ''OVERLAY_FACT_CONFIRMED'' then
        chain (dict_item payload ''value'') (\<lambda>value.
        chain (if has_key payload ''authority_basis'' then
            chain (list_or_empty (dget payload ''role_claims'')) (\<lambda>claims.
            Inr (dget payload ''authority_basis'', dget payload ''origin_type'', claims, []))
          else chain (chain (dict_item payload ''confirmers'') list_of) (\<lambda>cs. Inr (JNull, JNull, [], cs)))
          (\<lambda>(basis, origin, claims, confirmers).
        Inr (st\<lparr>os_status := Some ''VERIFIED'', os_value := value, os_authority_basis := basis, os_origin_type := origin,
          os_role_claims := claims, os_confirmers := confirmers, os_expires_at := dget payload ''expires_at'',
          os_confirmed_event_id := Some (ev_event_id event), os_prior_value := JNull, os_partial_confirmers := []\<rparr>)))
      else if ev_type event = ''OVERLAY_FACT_REJECTED'' then
        Inr (st\<lparr>os_status := Some ''REJECTED'', os_value := JNull\<rparr>)
      else if ev_type event = ''OVERLAY_FACT_EXPIRED'' then
        Inr (st\<lparr>os_status := Some ''REVERIFY'', os_prior_value := os_value st, os_value := JNull\<rparr>)
      else if ev_type event = ''OVERLAY_FACT_STALED'' then
        Inr (st\<lparr>os_status := Some ''STALE'', os_prior_value := os_value st, os_value := JNull\<rparr>)
      else Inr st)"

primrec fold_from :: "OverlayState \<Rightarrow> EventEnvelope list \<Rightarrow> exn + OverlayState" where
  "fold_from st [] = Inr st"
| "fold_from st (e # es) = chain (fold_event st e) (\<lambda>st'. fold_from st' es)"

definition fold_overlay_state :: "EventEnvelope list \<Rightarrow> exn + OverlayState" where
  "fold_overlay_state stream = fold_from initial_state stream"

subsection \<open>The store\<close>

abbreviation load_fact :: "overlay_env \<Rightarrow> string \<Rightarrow> EventEnvelope list dbprog" where
  "load_fact C key \<equiv> load_stream (core C) ''overlay_fact'' (Some key)"

definition is_proposed :: "EventEnvelope \<Rightarrow> bool" where
  "is_proposed e \<longleftrightarrow> ev_type e = ''OVERLAY_FACT_PROPOSED''"

text \<open>A \<open>fact_type\<close> that is not a text is no key of the table of schemas, so it is refused as unknown.\<close>

definition validate_typed :: "overlay_env \<Rightarrow> json \<Rightarrow> json \<Rightarrow> json \<Rightarrow> exn + unit" where
  "validate_typed C fact_type value use_case =
     (case fact_type of
        JStr t \<Rightarrow> chain (opt_str use_case) (\<lambda>u. validate_fact_value C t value u)
      | _ \<Rightarrow> Inl (FactValidationError ''unknown fact_type''))"

definition enforce_fact_value_schema :: "overlay_env \<Rightarrow> string \<Rightarrow> string \<Rightarrow> dict \<Rightarrow> unit dbprog" where
  "enforce_fact_value_schema C key typ payload =
     (if typ = ''OVERLAY_FACT_PROPOSED'' then
        if dget payload ''fact_type'' \<noteq> JNull \<and> dget payload ''proposed_value'' \<noteq> JNull
        then lift (validate_typed C (dget payload ''fact_type'') (dget payload ''proposed_value'') (dget payload ''use_case''))
        else ret ()
      else if typ = ''OVERLAY_FACT_CONFIRMED'' then
        if dget payload ''value'' = JNull then ret ()
        else
          andthen (load_fact C key) (\<lambda>stream.
          case find is_proposed stream of
            None \<Rightarrow> ret ()
          | Some p \<Rightarrow>
              if dget (ev_payload p) ''fact_type'' = JNull then ret ()
              else lift (validate_typed C (dget (ev_payload p) ''fact_type'') (dget payload ''value'') (dget (ev_payload p) ''use_case'')))
      else ret ())"

text \<open>The append with the optional arguments \<open>expected_version\<close> and \<open>caused_by\<close>; no caller passes a provenance.\<close>

definition overlay_spec :: "string \<Rightarrow> string \<Rightarrow> dict \<Rightarrow> IdentityEnvelope \<Rightarrow> int option \<Rightarrow> string option \<Rightarrow> append_spec" where
  "overlay_spec key typ payload actor expected_version caused_by =
     (event_spec ''overlay_fact'' (Some key) typ payload actor)
       \<lparr>ap_overlay_fact_id := Some key, ap_caused_by := caused_by, ap_expected_version := expected_version\<rparr>"

definition append_overlay_event ::
  "overlay_env \<Rightarrow> string \<Rightarrow> string \<Rightarrow> dict \<Rightarrow> IdentityEnvelope \<Rightarrow> int option \<Rightarrow> string option \<Rightarrow> EventEnvelope dbprog" where
  "append_overlay_event C key typ payload actor expected_version caused_by =
     andthen (enforce_fact_value_schema C key typ payload) (\<lambda>_.
     append (core C) (overlay_spec key typ payload actor expected_version caused_by))"

end
