(* ===== verification/Overlay_Authority.thy ===== *)
theory Overlay_Authority
  imports Overlay_Facts
begin

text \<open>
  Who may confirm a fact, \<open>overlay/authority.py\<close>: the authority a fact resolves to, the tasks it
  opens, whether an actor holds it, and the two four-eyes predicates.
\<close>

record Authority =
  at_role :: string
  at_gate :: string
  at_subjects :: "string option list"
  at_governance_queue :: bool
  at_dual :: bool
  at_admin_confirmable :: bool

text \<open>The keyword defaults \<open>dual = False\<close>, \<open>admin_confirmable = False\<close>.\<close>

definition authority :: "string \<Rightarrow> string \<Rightarrow> string option list \<Rightarrow> bool \<Rightarrow> Authority" where
  "authority role gate subjects unowned =
     \<lparr>at_role = role, at_gate = gate, at_subjects = subjects, at_governance_queue = unowned, at_dual = False,
      at_admin_confirmable = False\<rparr>"

text \<open>\<open>[s for s in self.subjects if s]\<close>.\<close>

definition known_subjects :: "Authority \<Rightarrow> string list" where
  "known_subjects a = filter (\<lambda>s. s \<noteq> []) (List.map_filter (\<lambda>s. s) (at_subjects a))"

definition eligible_assignees :: "Authority \<Rightarrow> dict" where
  "eligible_assignees a = [(''role'', JStr (at_role a))]
     @ (case known_subjects a of [] \<Rightarrow> [] | s # _ \<Rightarrow> [(''subject'', JStr s)])"

definition side_assignee :: "string \<Rightarrow> string option \<Rightarrow> dict" where
  "side_assignee side owner =
     (if str_or owner [] \<noteq> []
      then [(''role'', JStr ''data_owner''), (''subject'', JStr (str_or owner [])), (''side'', JStr side)]
      else [(''role'', JStr ''platform-admin''), (''side'', JStr side)])"

definition task_assignees :: "Authority \<Rightarrow> dict list" where
  "task_assignees a =
     (if at_role a = ''compliance'' then [[(''role'', JStr ''compliance'')]]
      else case at_subjects a of
        [from_owner, to_owner] \<Rightarrow>
          if from_owner \<noteq> None \<and> from_owner = to_owner
          then [[(''role'', JStr ''data_owner''), (''subject'', ostr from_owner)]]
          else [side_assignee ''from'' from_owner, side_assignee ''to'' to_owner]
      | _ \<Rightarrow>
          (case known_subjects a of
             s # _ \<Rightarrow> [[(''role'', JStr ''data_owner''), (''subject'', JStr s)]]
           | [] \<Rightarrow> [[(''role'', JStr ''platform-admin'')]]))"

definition SEMANTIC_TYPES :: "string list" where
  "SEMANTIC_TYPES = [''entity_assignment'', ''currency_binding'']"

definition resolve_authority :: "CatalogAdapter \<Rightarrow> fact_ref \<Rightarrow> string \<Rightarrow> exn + Authority" where
  "resolve_authority adapter ref fact_type =
     (if fact_type = ''policy_tag'' then Inr (authority ''compliance'' ''OVERLAY_COMPLIANCE'' [] False)
      else if fact_type = ''approved_join'' then
        (case ref of
           JoinRef j \<Rightarrow>
             let from_owner = owner_of adapter (jn_from_ref j); to_owner = owner_of adapter (jn_to_ref j);
                 unknown = from_owner = None \<or> to_owner = None;
                 same_owner = from_owner \<noteq> None \<and> from_owner = to_owner;
                 role = (if str_or from_owner [] \<noteq> [] \<or> str_or to_owner [] \<noteq> [] then ''data_owner'' else ''platform-admin'')
             in Inr ((authority role ''OVERLAY_DATA_OWNER'' [from_owner, to_owner] unknown)\<lparr>at_dual := \<not> same_owner\<rparr>)
         | _ \<Rightarrow> Inl TypeError)
      else if fact_type = ''entity_bridge'' then
        (case ref of
           BridgeRef b \<Rightarrow>
             let left_owner = owner_of adapter (br_left_ref b); right_owner = owner_of adapter (br_right_ref b)
             in if left_owner \<noteq> None \<and> left_owner = right_owner
                then Inr (authority ''data_owner'' ''OVERLAY_DATA_OWNER'' [left_owner] False)
                else Inr (authority ''platform-admin'' ''OVERLAY_DATA_OWNER'' [] True)
         | _ \<Rightarrow> Inl TypeError)
      else
        (case ref of
           ObjectRef r \<Rightarrow>
             (case owner_of adapter r of
                None \<Rightarrow> Inr (authority ''platform-admin'' ''OVERLAY_DATA_OWNER'' [] True)
              | Some owner \<Rightarrow>
                  Inr ((authority ''data_owner'' ''OVERLAY_DATA_OWNER'' [Some owner] False)
                    \<lparr>at_admin_confirmable := fact_type \<in> set SEMANTIC_TYPES\<rparr>))
         | _ \<Rightarrow> Inl TypeError))"

definition actor_is_authority :: "Authority \<Rightarrow> IdentityEnvelope \<Rightarrow> bool" where
  "actor_is_authority a actor \<longleftrightarrow>
     (if at_role a = ''compliance'' then ''compliance'' \<in> set (role_claims actor)
      else at_admin_confirmable a \<and> ''platform-admin'' \<in> set (role_claims actor)
        \<or> at_governance_queue a \<and> ''platform-admin'' \<in> set (role_claims actor)
        \<or> subject actor \<in> set (known_subjects a))"

text \<open>\<open>for e in reversed(stream): if e.type == PROPOSED\<close>.\<close>

definition latest_proposed :: "EventEnvelope list \<Rightarrow> EventEnvelope option" where
  "latest_proposed stream = find is_proposed (rev stream)"

definition proposer_ne_confirmer :: "EventEnvelope list \<Rightarrow> IdentityEnvelope \<Rightarrow> bool" where
  "proposer_ne_confirmer stream actor =
     (case latest_proposed stream of
        None \<Rightarrow> True
      | Some e \<Rightarrow> dget (ev_payload e) ''proposed_by'' \<noteq> JStr (subject actor))"

definition uploader_ne_confirmer :: "EventEnvelope list \<Rightarrow> IdentityEnvelope \<Rightarrow> bool" where
  "uploader_ne_confirmer stream actor =
     (case latest_proposed stream of
        None \<Rightarrow> True
      | Some e \<Rightarrow>
          let uploader = dget (ev_payload e) ''source_uploader''
          in uploader = JNull \<or> uploader \<noteq> JStr (subject actor))"

end
