(* ===== verification/Overlay_Lifecycle.thy ===== *)
theory Overlay_Lifecycle
  imports Overlay_Authority Gates Timers
begin

text \<open>
  The commands on a governed fact: \<open>overlay/_lifecycle.py\<close>, \<open>proposal_commands.py\<close>,
  \<open>confirmation_commands.py\<close>, \<open>join_confirmation.py\<close>, \<open>reverify_tasks.py\<close>, \<open>expiry.py\<close>,
  \<open>evidence.py\<close> and \<open>task_read.py\<close>.  The calls into the upload package go through \<open>upload_hook\<close>.
\<close>

subsection \<open>Shared steps\<close>

definition NON_TERMINAL :: "string list" where
  "NON_TERMINAL = [''DRAFT'', ''PARTIALLY_CONFIRMED'', ''VERIFIED'', ''REVERIFY'', ''STALE'']"

definition AWAITING_CONFIRMATION :: "string list" where
  "AWAITING_CONFIRMATION = [''DRAFT'', ''PARTIALLY_CONFIRMED'', ''REVERIFY'', ''STALE'']"

definition status_in :: "OverlayState \<Rightarrow> string list \<Rightarrow> bool" where
  "status_in st xs \<longleftrightarrow> (case os_status st of None \<Rightarrow> False | Some x \<Rightarrow> x \<in> set xs)"

definition within_renewal_grace :: "overlay_env \<Rightarrow> OverlayState \<Rightarrow> int \<Rightarrow> exn + bool" where
  "within_renewal_grace C st now =
     (if os_status st \<noteq> Some ''VERIFIED'' \<or> os_expires_at st = JNull then Inr False
      else case current_overlay_config C of
        Inl _ \<Rightarrow> Inr False
      | Inr c \<Rightarrow>
          (case os_expires_at st of
             JStr t \<Rightarrow> chain (fromisoformat t) (\<lambda>exp. Inr (exp - renewal_grace c \<le> now \<and> now < exp))
           | _ \<Rightarrow> Inl TypeError))"

definition deny_audited :: "overlay_env \<Rightarrow> Command \<Rightarrow> string \<Rightarrow> string \<Rightarrow> CommandResult dbprog" where
  "deny_audited C cmd key reason =
     andthen (record_denial (core C) (cmd\<lparr>cm_aggregate_id := Some key\<rparr>) reason) (\<lambda>_.
     ret (refuse (Some key) reason))"

text \<open>\<open>confirmed_event_id or draft_event_id\<close>.\<close>

definition cas_target :: "OverlayState \<Rightarrow> string option" where
  "cas_target st =
     (if os_status st = Some ''DRAFT'' then os_draft_event_id st
      else if os_status st = Some ''PARTIALLY_CONFIRMED'' then
        (if str_or (os_confirmed_event_id st) [] \<noteq> [] then os_confirmed_event_id st else os_draft_event_id st)
      else os_confirmed_event_id st)"

definition close_fact_tasks :: "string \<Rightarrow> string option \<Rightarrow> unit dbprog" where
  "close_fact_tasks key who =
     andthen (query (\<lambda>s. map tk_task_id (filter (\<lambda>t. tk_fact_key t = Some key \<and> tk_status t = ''open''
        \<and> (case who of None \<Rightarrow> True | Some x \<Rightarrow> dget (tk_eligible_assignees t) ''subject'' = JStr x)) (human_tasks s)))) (\<lambda>rows.
     andthen (for_each rows (\<lambda>task_id. cancel_task task_id ''cancelled'')) (\<lambda>_. ret ()))"

definition schedule_expiry :: "overlay_env \<Rightarrow> string \<Rightarrow> string \<Rightarrow> int \<Rightarrow> string dbprog" where
  "schedule_expiry C key confirmed_event_id expires_at =
     schedule_timer (core C) ''overlay_fact'' key
       \<lparr>nt_kind = ''overlay_expiry'', nt_fire_at = expires_at,
        nt_idempotency_key = ''overlay_expiry:'' @ key @ '':'' @ confirmed_event_id, nt_task_id = None,
        nt_business_calendar = None, nt_cas_task_version = None,
        nt_payload = [(''confirmed_event_id'', JStr confirmed_event_id)]\<rparr>"

text \<open>\<open>try: with conn.transaction(): hook() except Exception: log\<close>.\<close>

definition fail_soft :: "overlay_env \<Rightarrow> upload_call \<Rightarrow> unit dbprog" where
  "fail_soft C call = catch (savepoint rollback (upload_hook C call)) (\<lambda>_. ret ())"

definition demote_projected_join_edges :: "overlay_env \<Rightarrow> string \<Rightarrow> string \<Rightarrow> unit dbprog" where
  "demote_projected_join_edges C key status = fail_soft C (DemoteJoinEdges key status)"

definition demote_projected_semantic_binding :: "overlay_env \<Rightarrow> string \<Rightarrow> string \<Rightarrow> string \<Rightarrow> unit dbprog" where
  "demote_projected_semantic_binding C key fact_type status = fail_soft C (DemoteSemanticBinding key fact_type status)"

definition demote_projected_bridge_edges :: "overlay_env \<Rightarrow> string \<Rightarrow> unit dbprog" where
  "demote_projected_bridge_edges C key = fail_soft C (DemoteBridgeEdges key)"

text \<open>The arguments \<open>ref\<close>, \<open>fact_type\<close> and \<open>use_case\<close> every handler reads.\<close>

definition fact_args :: "dict \<Rightarrow> exn + fact_ref \<times> string \<times> string option" where
  "fact_args args =
     chain (dict_item args ''ref'') (\<lambda>r.
     chain (case r of JObj d \<Rightarrow> ref_from_payload d | _ \<Rightarrow> Inl TypeError) (\<lambda>ref.
     chain (dict_str args ''fact_type'') (\<lambda>fact_type.
     chain (opt_str (dget args ''use_case'')) (\<lambda>use_case.
     Inr (ref, fact_type, use_case)))))"

definition status_text :: "OverlayState \<Rightarrow> string" where
  "status_text st = (case os_status st of None \<Rightarrow> ''None'' | Some x \<Rightarrow> x)"

text \<open>\<open>try: validate_fact_value(...) except FactValidationError\<close>: the message, or \<open>None\<close> when the value is valid.\<close>

definition value_error :: "overlay_env \<Rightarrow> string \<Rightarrow> json \<Rightarrow> string option \<Rightarrow> exn + string option" where
  "value_error C fact_type value use_case =
     (case validate_fact_value C fact_type value use_case of
        Inr _ \<Rightarrow> Inr None
      | Inl (FactValidationError m) \<Rightarrow> Inr (Some m)
      | Inl e \<Rightarrow> Inl e)"

definition bridge_error :: "overlay_env \<Rightarrow> fact_ref \<Rightarrow> string \<Rightarrow> string option dbprog" where
  "bridge_error C ref fact_type =
     (if fact_type = ''entity_bridge'' then query (bridge_catalog_write_error C ref) else ret None)"

subsection \<open>Evidence\<close>

fun py_repr :: "json \<Rightarrow> string" where
  "py_repr JNull = ''None''"
| "py_repr (JBool b) = (if b then ''True'' else ''False'')"
| "py_repr (JInt n) = int_text n"
| "py_repr (JStr v) = repr_str v"
| "py_repr (JArr xs) = ''['' @ concat (case map py_repr xs of [] \<Rightarrow> [] | y # ys \<Rightarrow> y # map (\<lambda>z. '', '' @ z) ys) @ '']''"
| "py_repr (JObj kvs) = ''{'' @ concat (case map (\<lambda>(k, v). repr_str k @ '': '' @ py_repr v) kvs of [] \<Rightarrow> [] | y # ys \<Rightarrow> y # map (\<lambda>z. '', '' @ z) ys) @ ''}''"

definition EVIDENCE_PRODUCERS :: "string list" where
  "EVIDENCE_PRODUCERS = [''source'', ''structural_connector'', ''parser'', ''llm'', ''profiler'', ''taxonomy'', ''human'', ''legacy'']"

definition ASSERTION_STRENGTHS :: "string list" where
  "ASSERTION_STRENGTHS = [''proposed'', ''supported'', ''attested'', ''confirmed'']"

definition EVIDENCE_LIFECYCLES :: "string list" where
  "EVIDENCE_LIFECYCLES = [''active'', ''stale'', ''rejected'', ''superseded'']"

text \<open>\<open>EnumClass(value)\<close>: the message of the \<open>ValueError\<close> on a value that is no member.\<close>

definition member_of :: "string \<Rightarrow> string list \<Rightarrow> json \<Rightarrow> string + string" where
  "member_of cls members v =
     (case v of
        JStr x \<Rightarrow> if x \<in> set members then Inr x else Inl (py_repr v @ '' is not a valid '' @ cls)
      | _ \<Rightarrow> Inl (py_repr v @ '' is not a valid '' @ cls))"

definition RAW_EVIDENCE_REQUIRED :: "string list" where
  "RAW_EVIDENCE_REQUIRED = [''metric_values'', ''profile_version'', ''row_count'', ''sample_size'', ''table_snapshot_at'', ''thresholds'']"

definition RAW_EVIDENCE_OPTIONAL :: "string list" where
  "RAW_EVIDENCE_OPTIONAL = [''producer'', ''strength'', ''lifecycle'', ''producer_configuration_hash'', ''producer_item_ref'', ''evidence_spans'']"

record RawEvidence =
  rv_table_snapshot_at :: json
  rv_row_count :: int
  rv_sample_size :: int
  rv_profile_version :: string
  rv_thresholds_used :: dict
  rv_metric_values :: dict
  rv_producer :: string
  rv_strength :: string
  rv_lifecycle :: string
  rv_producer_configuration_hash :: json
  rv_producer_item_ref :: json
  rv_evidence_spans :: "json list"

definition count_of :: "dict \<Rightarrow> string \<Rightarrow> int option" where
  "count_of d k = (case dget d k of JInt n \<Rightarrow> if 0 \<le> n then Some n else None | _ \<Rightarrow> None)"

definition spans_of :: "json \<Rightarrow> json list option" where
  "spans_of v = (case v of
     JArr xs \<Rightarrow> if list_all (\<lambda>x. case x of JStr t \<Rightarrow> strip t \<noteq> [] | _ \<Rightarrow> False) xs then Some xs else None
   | _ \<Rightarrow> None)"

text \<open>\<open>Inl\<close> is the text of the \<open>ValueError\<close>.\<close>

definition raw_evidence_args :: "json \<Rightarrow> string + RawEvidence" where
  "raw_evidence_args payload =
     (case payload of
        JObj d \<Rightarrow>
          let keys = map fst d; missing = filter (\<lambda>k. k \<notin> set keys) RAW_EVIDENCE_REQUIRED;
              unknown = remdups (filter (\<lambda>k. k \<notin> set RAW_EVIDENCE_REQUIRED \<and> k \<notin> set RAW_EVIDENCE_OPTIONAL) keys)
          in if missing \<noteq> [] then Inl (''raw evidence missing fields '' @ py_repr (JArr (map JStr missing)))
             else if unknown \<noteq> [] then Inl (''raw evidence has unknown fields '' @ py_repr (JArr (map JStr (sort unknown))))
             else (case (dget d ''thresholds'', dget d ''metric_values'') of
               (JObj thresholds, JObj metrics) \<Rightarrow>
                 (case spans_of (dget_or d ''evidence_spans'' (JArr [])) of
                    None \<Rightarrow> Inl ''raw evidence evidence_spans must be a sequence of non-blank strings''
                  | Some spans \<Rightarrow>
                      (case (member_of ''EvidenceProducer'' EVIDENCE_PRODUCERS (dget_or d ''producer'' (JStr ''profiler'')),
                             member_of ''AssertionStrength'' ASSERTION_STRENGTHS (dget_or d ''strength'' (JStr ''supported'')),
                             member_of ''EvidenceLifecycle'' EVIDENCE_LIFECYCLES (dget_or d ''lifecycle'' (JStr ''active''))) of
                         (Inl m, _, _) \<Rightarrow> Inl (''raw evidence has an invalid provenance axis: '' @ m)
                       | (Inr _, Inl m, _) \<Rightarrow> Inl (''raw evidence has an invalid provenance axis: '' @ m)
                       | (Inr _, Inr _, Inl m) \<Rightarrow> Inl (''raw evidence has an invalid provenance axis: '' @ m)
                       | (Inr producer, Inr strength, Inr lifecycle) \<Rightarrow>
                           (case (count_of d ''row_count'', count_of d ''sample_size'') of
                              (None, _) \<Rightarrow> Inl ''raw evidence row_count must be a non-negative integer''
                            | (Some _, None) \<Rightarrow> Inl ''raw evidence sample_size must be a non-negative integer''
                            | (Some rows, Some sample) \<Rightarrow>
                                (case dget d ''profile_version'' of
                                   JStr v \<Rightarrow>
                                     if strip v = [] then Inl ''raw evidence profile_version must not be blank''
                                     else Inr \<lparr>rv_table_snapshot_at = dget d ''table_snapshot_at'', rv_row_count = rows,
                                       rv_sample_size = sample, rv_profile_version = v, rv_thresholds_used = thresholds,
                                       rv_metric_values = metrics, rv_producer = producer, rv_strength = strength,
                                       rv_lifecycle = lifecycle,
                                       rv_producer_configuration_hash = dget d ''producer_configuration_hash'',
                                       rv_producer_item_ref = dget d ''producer_item_ref'', rv_evidence_spans = spans\<rparr>
                                 | _ \<Rightarrow> Inl ''raw evidence profile_version must not be blank''))))
             | _ \<Rightarrow> Inl ''raw evidence thresholds and metric_values must be objects'')
      | _ \<Rightarrow> Inl ''raw evidence must be an object'')"

definition insert_evidence :: "evidence_row \<Rightarrow> unit dbprog" where
  "insert_evidence row = (\<lambda>s.
     if ov_evidence_id row \<in> ov_evidence_id ` set (overlay_evidence s) then (Inl (UniqueViolation ''overlay_evidence_pkey''), s)
     else (Inr (), s\<lparr>overlay_evidence := overlay_evidence s @ [row]\<rparr>))"

definition write_evidence :: "overlay_env \<Rightarrow> string \<Rightarrow> dict \<Rightarrow> RawEvidence \<Rightarrow> string dbprog" where
  "write_evidence C key created_by r =
     andthen (mint_id (core C) ''eviu'') (\<lambda>evidence_id.
     andthen (query clock) (\<lambda>now.
     andthen (insert_evidence \<lparr>ov_evidence_id = evidence_id, ov_fact_key = key, ov_table_snapshot_at = rv_table_snapshot_at r,
       ov_row_count = rv_row_count r, ov_sample_size = rv_sample_size r, ov_profile_version = rv_profile_version r,
       ov_thresholds_used = rv_thresholds_used r, ov_metric_values = rv_metric_values r, ov_created_by = created_by,
       ov_created_at = now, ov_producer = rv_producer r, ov_strength = rv_strength r, ov_lifecycle = rv_lifecycle r,
       ov_producer_configuration_hash = rv_producer_configuration_hash r, ov_producer_item_ref = rv_producer_item_ref r,
       ov_evidence_spans = rv_evidence_spans r\<rparr>) (\<lambda>_.
     ret evidence_id)))"

definition read_evidence :: "string \<Rightarrow> evidence_row dbprog" where
  "read_evidence evidence_id =
     andthen (query (\<lambda>s. find (\<lambda>r. ov_evidence_id r = evidence_id) (overlay_evidence s))) (\<lambda>row.
     case row of None \<Rightarrow> throw KeyError | Some r \<Rightarrow> ret r)"

end
