(* ===== verification/Overlay_Commands.thy ===== *)
theory Overlay_Commands
  imports Overlay_Lifecycle
begin

text \<open>
  The command handlers of the overlay: \<open>propose_fact\<close> (\<open>proposal_commands.py\<close>), \<open>confirm_fact\<close>,
  \<open>reject_fact\<close>, \<open>enter_fact\<close> (\<open>confirmation_commands.py\<close>) and the two-owner confirmation of a join
  (\<open>join_confirmation.py\<close>).
\<close>

subsection \<open>Proposing\<close>

definition gate_spec :: "string \<Rightarrow> string list \<Rightarrow> dict \<Rightarrow> string \<Rightarrow> string option \<Rightarrow> string option \<Rightarrow> string option \<Rightarrow> GateTaskSpec" where
  "gate_spec gate inputs eligible key draft target evidence =
     \<lparr>gs_gate = gate, gs_required_inputs = inputs, gs_eligible_assignees = eligible,
      gs_allowed_responses = [''confirm'', ''reject''], gs_run_id = None, gs_feature_id = None, gs_quorum_required = 1,
      gs_quorum_of_role = None, gs_delegation_allowed = True, gs_sla = None, gs_fact_key = Some key,
      gs_draft_event_id = draft, gs_target_event_id = target, gs_evidence_ref = evidence\<rparr>"

definition proposal_payload ::
  "fact_ref \<Rightarrow> string \<Rightarrow> string option \<Rightarrow> json \<Rightarrow> string \<Rightarrow> string option \<Rightarrow> IdentityEnvelope \<Rightarrow> dict" where
  "proposal_payload ref fact_type use_case value fp evidence_ref actor =
     [(''catalog_object_ref'', JObj (asdict_ref ref)), (''object_ref'', JStr (display_object_ref ref)),
      (''fact_type'', JStr fact_type), (''use_case'', ostr use_case), (''proposed_value'', value),
      (''proposal_fingerprint'', JStr fp), (''evidence_ref'', ostr evidence_ref), (''proposed_by'', JStr (subject actor))]"

definition head_version :: "EventEnvelope list \<Rightarrow> int" where
  "head_version stream = (if stream = [] then 0 else ev_stream_version (last stream))"

text \<open>Why a proposal with fingerprint \<open>fp\<close> may not replace what the stream holds.\<close>

definition replacement_denial :: "OverlayState \<Rightarrow> EventEnvelope list \<Rightarrow> string \<Rightarrow> string option" where
  "replacement_denial st existing fp =
     (if status_in st NON_TERMINAL then
        (case latest_proposed existing of
           Some p \<Rightarrow>
             if dget (ev_payload p) ''proposal_fingerprint'' = JStr fp then Some ''duplicate of a pending proposal (same fingerprint)''
             else Some (''a non-terminal fact already exists (status='' @ status_text st @ ''); cannot re-propose'')
         | None \<Rightarrow> Some (''a non-terminal fact already exists (status='' @ status_text st @ ''); cannot re-propose''))
      else if os_status st = Some ''REJECTED''
           \<and> list_ex (\<lambda>e. ev_type e = ''OVERLAY_FACT_REJECTED'' \<and> dget (ev_payload e) ''retired_fingerprint'' = JStr fp) existing
        then Some ''fingerprint previously rejected (sticky); change the proposal to re-submit''
      else None)"

text \<open>The evidence reference of the proposal, minted here when raw evidence was handed over; \<open>Inl\<close> is a refusal.\<close>

definition proposal_evidence :: "overlay_env \<Rightarrow> string \<Rightarrow> Command \<Rightarrow> (string + string option) dbprog" where
  "proposal_evidence C key cmd =
     andthen (lift (opt_str (dget (cm_args cmd) ''evidence_ref''))) (\<lambda>evidence_ref.
     if evidence_ref = None \<and> dget (cm_args cmd) ''evidence'' \<noteq> JNull then
       (case raw_evidence_args (dget (cm_args cmd) ''evidence'') of
          Inl m \<Rightarrow> ret (Inl m)
        | Inr r \<Rightarrow> andthen (write_evidence C key (identity_to_jsonb (cm_actor cmd)) r) (\<lambda>i. ret (Inr (Some i))))
     else ret (Inr evidence_ref))"

definition with_uploader :: "dict \<Rightarrow> dict \<Rightarrow> dict" where
  "with_uploader args payload =
     (if truthy (dget args ''source_uploader'') then payload @ [(''source_uploader'', dget args ''source_uploader'')] else payload)"

definition open_side_tasks ::
  "overlay_env \<Rightarrow> Authority \<Rightarrow> string list \<Rightarrow> string \<Rightarrow> string option \<Rightarrow> string option \<Rightarrow> string option \<Rightarrow> IdentityEnvelope \<Rightarrow> string list dbprog" where
  "open_side_tasks C a inputs key draft target evidence actor =
     for_each (task_assignees a) (\<lambda>eligible.
       open_task (core C) (gate_spec (at_gate a) inputs eligible key draft target evidence) actor)"

definition submit_proposal ::
  "overlay_env \<Rightarrow> CatalogAdapter \<Rightarrow> Command \<Rightarrow> fact_ref \<Rightarrow> string \<Rightarrow> string option \<Rightarrow> json \<Rightarrow> string \<Rightarrow> string
   \<Rightarrow> EventEnvelope list \<Rightarrow> string option \<Rightarrow> CommandResult dbprog" where
  "submit_proposal C adapter cmd ref fact_type use_case value key fp existing evidence_ref =
     andthen (lift (resolve_authority adapter ref fact_type)) (\<lambda>a.
     andthen (append_overlay_event C key ''OVERLAY_FACT_PROPOSED''
       (with_uploader (cm_args cmd) (proposal_payload ref fact_type use_case value fp evidence_ref (cm_actor cmd)))
       (cm_actor cmd) (Some (head_version existing)) None) (\<lambda>draft.
     andthen (open_side_tasks C a [''proposed_value''] key (Some (ev_event_id draft)) (Some (ev_event_id draft)) evidence_ref (cm_actor cmd)) (\<lambda>_.
     ret (accept (Some key) [ev_event_id draft]))))"

definition propose_fact :: "overlay_env \<Rightarrow> Command \<Rightarrow> CommandResult dbprog" where
  "propose_fact C cmd =
     andthen (lift (current_catalog_adapter C)) (\<lambda>adapter.
     andthen (lift (fact_args (cm_args cmd))) (\<lambda>(ref, fact_type, use_case).
     andthen (lift (dict_item (cm_args cmd) ''proposed_value'')) (\<lambda>value.
     andthen (lift (value_error C fact_type value use_case)) (\<lambda>invalid.
     case invalid of
       Some m \<Rightarrow> ret (refuse (Some []) (''invalid fact value: '' @ m))
     | None \<Rightarrow>
     andthen (lift (join_write_error (core C) (known_entities C) ref fact_type (as_dict value))) (\<lambda>join_err.
     case join_err of
       Some m \<Rightarrow> ret (refuse (Some []) m)
     | None \<Rightarrow>
     andthen (bridge_error C ref fact_type) (\<lambda>bridge_err.
     case bridge_err of
       Some m \<Rightarrow> ret (refuse (Some []) m)
     | None \<Rightarrow>
     (let key = fact_key (core C) ref fact_type use_case in
     andthen (lift (proposal_fingerprint (core C) (as_dict value) (dget (cm_args cmd) ''profile_version'') (dget (cm_args cmd) ''thresholds''))) (\<lambda>fp.
     andthen (load_fact C key) (\<lambda>existing.
     andthen (lift (fold_overlay_state existing)) (\<lambda>st.
     case replacement_denial st existing fp of
       Some m \<Rightarrow> ret (refuse (Some key) m)
     | None \<Rightarrow>
     andthen (proposal_evidence C key cmd) (\<lambda>evidence.
     case evidence of
       Inl m \<Rightarrow> ret (refuse (Some key) (''invalid raw evidence: '' @ m))
     | Inr evidence_ref \<Rightarrow> submit_proposal C adapter cmd ref fact_type use_case value key fp existing evidence_ref)))))))))))"

subsection \<open>Confirming\<close>

definition confirmer :: "string \<Rightarrow> string \<Rightarrow> json" where
  "confirmer who role = JObj [(''subject'', JStr who), (''role'', JStr role)]"

definition single_confirmers :: "string \<Rightarrow> string \<Rightarrow> json list" where
  "single_confirmers fact_type who =
     (if fact_type = ''approved_join'' then [confirmer who ''data_owner_from'', confirmer who ''data_owner_to'']
      else [confirmer who (if fact_type = ''policy_tag'' then ''compliance'' else ''data_owner'')])"

definition confirmed_payload :: "json \<Rightarrow> json list \<Rightarrow> int \<Rightarrow> json \<Rightarrow> dict" where
  "confirmed_payload value confirmers expires_at target =
     [(''value'', value), (''confirmers'', JArr confirmers), (''expires_at'', JStr (isoformat expires_at)),
      (''confirms_event_id'', target)]"

text \<open>The check, under a sealed configuration only, that the referents of \<open>value\<close> still exist.\<close>

definition referents_gap :: "overlay_env \<Rightarrow> CatalogAdapter \<Rightarrow> fact_ref \<Rightarrow> string \<Rightarrow> json \<Rightarrow> exn + string option" where
  "referents_gap C adapter ref fact_type value =
     (case current_overlay_config C of
        Inl _ \<Rightarrow> Inr None
      | Inr _ \<Rightarrow> (case value of JObj d \<Rightarrow> check_referents_exist adapter ref fact_type d | _ \<Rightarrow> Inl TypeError))"

definition confirm_default :: "OverlayState \<Rightarrow> EventEnvelope list \<Rightarrow> exn + json" where
  "confirm_default st stream =
     (if os_status st = Some ''VERIFIED'' then Inr (os_value st)
      else if os_status st \<in> {Some ''REVERIFY'', Some ''STALE''} then Inr (os_prior_value st)
      else case latest_proposed stream of None \<Rightarrow> Inl TypeError | Some p \<Rightarrow> dict_item (ev_payload p) ''proposed_value'')"

text \<open>What happens after the confirmation is written.\<close>

definition after_confirm :: "overlay_env \<Rightarrow> fact_ref \<Rightarrow> string \<Rightarrow> string \<Rightarrow> unit dbprog" where
  "after_confirm C ref fact_type key =
     andthen
       (if fact_type \<in> set SEMANTIC_TYPES then
          (case ref of ObjectRef r \<Rightarrow> upload_hook C (ProjectSemanticBinding r fact_type) | _ \<Rightarrow> throw TypeError)
        else if fact_type = ''entity_bridge'' then
          (case ref of BridgeRef b \<Rightarrow> upload_hook C (ProjectBridge b) | _ \<Rightarrow> throw TypeError)
        else ret ()) (\<lambda>_.
     if fact_type = ''grain'' then upload_hook C (DemoteRealizationsForDependency ''grain_fact'' key) else ret ())"

definition write_confirmation ::
  "overlay_env \<Rightarrow> Command \<Rightarrow> fact_ref \<Rightarrow> string \<Rightarrow> string \<Rightarrow> EventEnvelope list \<Rightarrow> json \<Rightarrow> CommandResult dbprog" where
  "write_confirmation C cmd ref fact_type key stream value =
     andthen (lift (dict_item (cm_args cmd) ''target_event_id'')) (\<lambda>target.
     andthen (query clock) (\<lambda>now.
     (let expires_at = now + resolve_ttl C fact_type key in
     andthen (append_overlay_event C key ''OVERLAY_FACT_CONFIRMED''
       (confirmed_payload value (single_confirmers fact_type (subject (cm_actor cmd))) expires_at target
          @ [(''note'', dget (cm_args cmd) ''note'')])
       (cm_actor cmd) (Some (head_version stream)) (as_ostr target)) (\<lambda>confirmed.
     andthen (schedule_expiry C key (ev_event_id confirmed) expires_at) (\<lambda>_.
     andthen (close_fact_tasks key None) (\<lambda>_.
     andthen (after_confirm C ref fact_type key) (\<lambda>_.
     ret (accept (Some key) [ev_event_id confirmed]))))))))"

text \<open>The message has an arrow, a code point above 255, between the two command names; it is written \<open>->\<close>.\<close>

definition OVERRIDE_DENIED :: string where
  "OVERRIDE_DENIED = ''value override denied on a semantic-binding confirm: a value change must go through propose->confirm (correct_binding), never single-party author+approve''"

definition confirm_single ::
  "overlay_env \<Rightarrow> CatalogAdapter \<Rightarrow> Command \<Rightarrow> fact_ref \<Rightarrow> string \<Rightarrow> string option \<Rightarrow> string \<Rightarrow> EventEnvelope list
   \<Rightarrow> OverlayState \<Rightarrow> Authority \<Rightarrow> CommandResult dbprog" where
  "confirm_single C adapter cmd ref fact_type use_case key stream st a =
     (let actor = cm_actor cmd; args = cm_args cmd in
      if \<not> actor_is_authority a actor then deny_audited C cmd key ''actor is not the resolved authority for this fact''
      else if \<not> proposer_ne_confirmer stream actor then deny_audited C cmd key ''four-eyes: a proposer may not confirm the same fact''
      else if \<not> uploader_ne_confirmer stream actor then
        deny_audited C cmd key ''four-eyes: the uploading principal who declared this value may not confirm it; a different reviewer must confirm''
      else
        andthen (lift (confirm_default st stream)) (\<lambda>default_value.
        if fact_type \<in> set SEMANTIC_TYPES \<and> has_key args ''value'' then
          deny_audited C cmd key OVERRIDE_DENIED
        else
          (let value = dget_or args ''value'' default_value in
          andthen (lift (value_error C fact_type value use_case)) (\<lambda>invalid.
          case invalid of
            Some m \<Rightarrow> ret (refuse (Some key) (''invalid confirmed value: '' @ m))
          | None \<Rightarrow>
          andthen (lift (join_write_error (core C) (known_entities C) ref fact_type (as_dict value))) (\<lambda>join_err.
          case join_err of
            Some m \<Rightarrow> deny_audited C cmd key m
          | None \<Rightarrow>
          andthen (bridge_error C ref fact_type) (\<lambda>bridge_err.
          case bridge_err of
            Some m \<Rightarrow> deny_audited C cmd key m
          | None \<Rightarrow>
          andthen (lift (if os_status st \<in> {Some ''STALE'', Some ''REVERIFY''} then referents_gap C adapter ref fact_type value else Inr None)) (\<lambda>gap.
          case gap of
            Some m \<Rightarrow> deny_audited C cmd key (''stale re-confirm blocked: '' @ m)
          | None \<Rightarrow> write_confirmation C cmd ref fact_type key stream value)))))))"

definition join_side :: "Authority \<Rightarrow> string \<Rightarrow> string" where
  "join_side a who =
     (let subs = at_subjects a in
      if subs \<noteq> [] \<and> subs ! 0 = Some who then ''from''
      else if 1 < length subs \<and> subs ! 1 = Some who then ''to''
      else if subs \<noteq> [] \<and> subs ! 0 = None then ''from''
      else if 1 < length subs \<and> subs ! 1 = None then ''to''
      else ''from'')"

definition join_confirmers :: "Authority \<Rightarrow> string \<Rightarrow> string \<Rightarrow> json list" where
  "join_confirmers a earlier second =
     (let first_side = join_side a earlier; side = join_side a second;
          second_side = (if first_side = side then (if first_side = ''from'' then ''to'' else ''from'') else side)
      in [confirmer earlier (''data_owner_'' @ first_side), confirmer second (''data_owner_'' @ second_side)])"

text \<open>\<open>_ref_from_payload(stream[0].payload["catalog_object_ref"])\<close>.\<close>

definition stream_ref :: "EventEnvelope list \<Rightarrow> exn + fact_ref" where
  "stream_ref stream =
     (case stream of
        [] \<Rightarrow> Inl IndexError
      | e # _ \<Rightarrow> chain (dict_item (ev_payload e) ''catalog_object_ref'') (\<lambda>d.
          case d of JObj d \<Rightarrow> ref_from_payload d | _ \<Rightarrow> Inl TypeError))"

text \<open>The gate of a drift-staled join: it runs before the first of the two confirmations.\<close>

definition stale_join_gap :: "overlay_env \<Rightarrow> CatalogAdapter \<Rightarrow> EventEnvelope list \<Rightarrow> OverlayState \<Rightarrow> exn + string option" where
  "stale_join_gap C adapter stream st =
     (if os_status st = Some ''STALE'' \<and> overlay_config C \<noteq> None then
        chain (if os_prior_value st \<noteq> JNull then Inr (os_prior_value st)
               else case latest_proposed stream of None \<Rightarrow> Inr JNull | Some p \<Rightarrow> dict_item (ev_payload p) ''proposed_value'') (\<lambda>value.
        chain (stream_ref stream) (\<lambda>ref. referents_gap C adapter ref ''approved_join'' value))
      else Inr None)"

definition confirm_first_owner ::
  "overlay_env \<Rightarrow> Command \<Rightarrow> string \<Rightarrow> EventEnvelope list \<Rightarrow> OverlayState \<Rightarrow> Authority \<Rightarrow> CommandResult dbprog" where
  "confirm_first_owner C cmd key stream st a =
     (let actor = cm_actor cmd in
     andthen (append_overlay_event C key ''OVERLAY_FACT_PARTIALLY_CONFIRMED''
       [(''by_owner'', JStr (subject actor)), (''role'', JStr (''data_owner_'' @ join_side a (subject actor))),
        (''draft_event_id'', ostr (os_draft_event_id st)), (''note'', dget (cm_args cmd) ''note'')]
       actor (Some (head_version stream)) (os_draft_event_id st)) (\<lambda>e.
     andthen (close_fact_tasks key (Some (subject actor))) (\<lambda>_.
     ret (accept (Some key) [ev_event_id e]))))"

definition confirm_second_owner ::
  "overlay_env \<Rightarrow> CatalogAdapter \<Rightarrow> Command \<Rightarrow> string \<Rightarrow> EventEnvelope list \<Rightarrow> OverlayState \<Rightarrow> Authority \<Rightarrow> string
   \<Rightarrow> CommandResult dbprog" where
  "confirm_second_owner C adapter cmd key stream st a earlier =
     (let actor = cm_actor cmd in
     andthen (lift (if os_status st \<in> {Some ''REVERIFY'', Some ''STALE''} then Inr (os_prior_value st)
                    else case latest_proposed stream of None \<Rightarrow> Inl TypeError | Some p \<Rightarrow> dict_item (ev_payload p) ''proposed_value'')) (\<lambda>value.
     andthen (lift (value_error C ''approved_join'' value None)) (\<lambda>invalid.
     case invalid of
       Some m \<Rightarrow> ret (refuse (Some key) (''invalid confirmed value: '' @ m))
     | None \<Rightarrow>
     andthen (lift (if overlay_config C = None then Inr None
                    else chain (stream_ref stream) (\<lambda>ref. referents_gap C adapter ref ''approved_join'' value))) (\<lambda>gap.
     case gap of
       Some m \<Rightarrow> deny_audited C cmd key (''join re-confirm blocked: '' @ m)
     | None \<Rightarrow>
     andthen (query clock) (\<lambda>now.
     (let expires_at = now + resolve_ttl C ''approved_join'' key; target = cas_target st in
     andthen (append_overlay_event C key ''OVERLAY_FACT_CONFIRMED''
       (confirmed_payload value (join_confirmers a earlier (subject actor)) expires_at (ostr target) @ [(''note'', dget (cm_args cmd) ''note'')])
       actor (Some (head_version stream)) target) (\<lambda>confirmed.
     andthen (schedule_expiry C key (ev_event_id confirmed) expires_at) (\<lambda>_.
     andthen (close_fact_tasks key None) (\<lambda>_.
     ret (accept (Some key) [ev_event_id confirmed]))))))))))"

definition confirm_approved_join ::
  "overlay_env \<Rightarrow> CatalogAdapter \<Rightarrow> Command \<Rightarrow> string \<Rightarrow> EventEnvelope list \<Rightarrow> OverlayState \<Rightarrow> Authority \<Rightarrow> CommandResult dbprog" where
  "confirm_approved_join C adapter cmd key stream st a =
     (let actor = cm_actor cmd; owners = known_subjects a in
      if \<not> (subject actor \<in> set owners \<or> at_governance_queue a \<and> ''platform-admin'' \<in> set (role_claims actor)) then
        deny_audited C cmd key ''actor is not an owner of either side of the join''
      else if \<not> proposer_ne_confirmer stream actor then deny_audited C cmd key (''proposer may not confirm (four-eyes, '' @ [CHR 0xA7] @ ''6.5)'')
      else
        andthen (lift (stale_join_gap C adapter stream st)) (\<lambda>gap.
        case gap of
          Some m \<Rightarrow> deny_audited C cmd key (''stale re-confirm blocked: '' @ m)
        | None \<Rightarrow>
            if os_partial_confirmers st = [] then confirm_first_owner C cmd key stream st a
            else
              andthen (lift (chain (case last (os_partial_confirmers st) of JObj d \<Rightarrow> Inr d | _ \<Rightarrow> Inl TypeError) (\<lambda>d. dict_str d ''subject''))) (\<lambda>earlier.
              if subject actor = earlier then deny_audited C cmd key ''this owner already confirmed; awaiting the other owner''
              else if at_governance_queue a \<and> owners \<noteq> [] \<and> earlier \<notin> set owners \<and> subject actor \<notin> set owners then
                deny_audited C cmd key ''a known owner must confirm their side of the join''
              else confirm_second_owner C adapter cmd key stream st a earlier)))"

text \<open>The fact a command is about, with its stream and state; the handlers of a decision start so.\<close>

definition cas_matches :: "Command \<Rightarrow> OverlayState \<Rightarrow> bool" where
  "cas_matches cmd st \<longleftrightarrow> dget (cm_args cmd) ''target_event_id'' = ostr (cas_target st)"

definition confirm_fact :: "overlay_env \<Rightarrow> Command \<Rightarrow> CommandResult dbprog" where
  "confirm_fact C cmd =
     (if actor_kind (cm_actor cmd) \<noteq> ''human'' then
        deny_audited C cmd (str_or (cm_aggregate_id cmd) []) ''confirm_fact requires a human authority''
      else
     andthen (lift (current_catalog_adapter C)) (\<lambda>adapter.
     andthen (lift (fact_args (cm_args cmd))) (\<lambda>(ref, fact_type, use_case).
     (let key = fact_key (core C) ref fact_type use_case in
     andthen (load_fact C key) (\<lambda>stream.
     if stream = [] then ret (refuse (Some key) ''fact does not exist'')
     else
     andthen (lift (fold_overlay_state stream)) (\<lambda>st.
     andthen (query clock) (\<lambda>now.
     andthen (lift (within_renewal_grace C st now)) (\<lambda>renewing.
     if \<not> status_in st AWAITING_CONFIRMATION \<and> \<not> renewing then
       ret (refuse (Some key) (''fact not awaiting confirmation (status='' @ status_text st @ '')''))
     else if \<not> cas_matches cmd st then
       ret (refuse (Some key) ''stale confirmation: target_event_id has been superseded'')
     else
     andthen (lift (resolve_authority adapter ref fact_type)) (\<lambda>a.
     if fact_type = ''approved_join'' \<and> at_dual a then
       if renewing \<and> os_status st = Some ''VERIFIED'' then
         ret (refuse (Some key) ''dual-owner approved_join cannot renew in place; it re-verifies via the expiry/reverify flow'')
       else confirm_approved_join C adapter cmd key stream st a
     else confirm_single C adapter cmd ref fact_type use_case key stream st a)))))))))"

subsection \<open>Rejecting\<close>

definition retired_fingerprint :: "overlay_env \<Rightarrow> EventEnvelope list \<Rightarrow> OverlayState \<Rightarrow> json" where
  "retired_fingerprint C stream st =
     (let proposed = latest_proposed stream;
          proposed_value = (case proposed of None \<Rightarrow> JNull | Some p \<Rightarrow> dget (ev_payload p) ''proposed_value'')
      in if os_status st \<in> {Some ''REVERIFY'', Some ''STALE''} \<and> os_prior_value st \<noteq> JNull \<and> os_prior_value st \<noteq> proposed_value
         then JStr (fingerprint (core C) (as_dict (os_prior_value st)) JNull JNull)
         else (case proposed of None \<Rightarrow> JNull | Some p \<Rightarrow> dget (ev_payload p) ''proposal_fingerprint''))"

definition after_reject :: "overlay_env \<Rightarrow> string \<Rightarrow> string \<Rightarrow> unit dbprog" where
  "after_reject C key fact_type =
     (if fact_type = ''approved_join'' then demote_projected_join_edges C key ''REJECTED''
      else if fact_type \<in> set SEMANTIC_TYPES then demote_projected_semantic_binding C key fact_type ''REJECTED''
      else if fact_type = ''entity_bridge'' then
        andthen (demote_projected_bridge_edges C key) (\<lambda>_. upload_hook C (DemoteRealizationsForBridge key ''rejected''))
      else ret ())"

definition reject_fact :: "overlay_env \<Rightarrow> Command \<Rightarrow> CommandResult dbprog" where
  "reject_fact C cmd =
     (if actor_kind (cm_actor cmd) \<noteq> ''human'' then
        deny_audited C cmd (str_or (cm_aggregate_id cmd) []) ''reject_fact requires a human authority''
      else
     andthen (lift (current_catalog_adapter C)) (\<lambda>adapter.
     andthen (lift (fact_args (cm_args cmd))) (\<lambda>(ref, fact_type, use_case).
     (let key = fact_key (core C) ref fact_type use_case; args = cm_args cmd in
     andthen (load_fact C key) (\<lambda>stream.
     if stream = [] then ret (refuse (Some key) ''fact does not exist'')
     else
     andthen (lift (fold_overlay_state stream)) (\<lambda>st.
     if \<not> status_in st AWAITING_CONFIRMATION then
       ret (refuse (Some key) (''fact not awaiting confirmation (status='' @ status_text st @ '')''))
     else if \<not> cas_matches cmd st then
       ret (refuse (Some key) ''stale rejection: target_event_id has been superseded'')
     else
     andthen (lift (resolve_authority adapter ref fact_type)) (\<lambda>a.
     if \<not> actor_is_authority a (cm_actor cmd) then deny_audited C cmd key ''actor is not the resolved authority for this fact''
     else
     andthen (lift (dict_item args ''target_event_id'')) (\<lambda>target.
     andthen (append_overlay_event C key ''OVERLAY_FACT_REJECTED''
       [(''rejected_by'', JStr (subject (cm_actor cmd))), (''reason'', dget args ''reason''), (''category'', dget args ''category''),
        (''target_event_id'', target), (''retired_fingerprint'', retired_fingerprint C stream st)]
       (cm_actor cmd) (Some (head_version stream)) (as_ostr target)) (\<lambda>rejected.
     andthen (after_reject C key fact_type) (\<lambda>_.
     andthen (close_fact_tasks key None) (\<lambda>_.
     ret (accept (Some key) [ev_event_id rejected]))))))))))))"

subsection \<open>Direct entry\<close>

definition enter_fact :: "overlay_env \<Rightarrow> Command \<Rightarrow> CommandResult dbprog" where
  "enter_fact C cmd =
     andthen (lift (current_catalog_adapter C)) (\<lambda>adapter.
     if actor_kind (cm_actor cmd) \<noteq> ''human'' then deny_audited C cmd [] ''self-confirm (enter_fact) requires a human authority''
     else
     andthen (lift (fact_args (cm_args cmd))) (\<lambda>(ref, fact_type, use_case).
     andthen (lift (dict_item (cm_args cmd) ''proposed_value'')) (\<lambda>value.
     andthen (lift (value_error C fact_type value use_case)) (\<lambda>invalid.
     case invalid of
       Some m \<Rightarrow> ret (refuse (Some []) (''invalid fact value: '' @ m))
     | None \<Rightarrow>
     andthen (lift (join_write_error (core C) (known_entities C) ref fact_type (as_dict value))) (\<lambda>join_err.
     case join_err of
       Some m \<Rightarrow> ret (refuse (Some []) m)
     | None \<Rightarrow>
     andthen (bridge_error C ref fact_type) (\<lambda>bridge_err.
     case bridge_err of
       Some m \<Rightarrow> ret (refuse (Some []) m)
     | None \<Rightarrow>
     (let key = fact_key (core C) ref fact_type use_case; actor = cm_actor cmd in
     if fact_type \<in> set SEMANTIC_TYPES then
       deny_audited C cmd key ''governed semantic fact requires the two-party propose/confirm flow (four-eyes)''
     else
     andthen (lift (resolve_authority adapter ref fact_type)) (\<lambda>a.
     if at_governance_queue a then
       deny_audited C cmd key ''unowned (governance-queue) fact cannot be self-confirmed; use propose/confirm''
     else if at_dual a then
       deny_audited C cmd key ''dual-owner approved_join cannot be self-confirmed; use the two-task flow''
     else if \<not> actor_is_authority a actor then deny_audited C cmd key ''actor is not the resolved authority for this fact''
     else
     andthen (load_fact C key) (\<lambda>existing.
     if existing \<noteq> [] then ret (refuse (Some key) ''fact already exists; use propose/confirm'')
     else
     andthen (append_overlay_event C key ''OVERLAY_FACT_PROPOSED''
       (proposal_payload ref fact_type use_case value (fingerprint (core C) (as_dict value) JNull JNull) None actor)
       actor (Some 0) None) (\<lambda>draft.
     andthen (query clock) (\<lambda>now.
     (let expires_at = now + resolve_ttl C fact_type key in
     andthen (append_overlay_event C key ''OVERLAY_FACT_CONFIRMED''
       (confirmed_payload value (single_confirmers fact_type (subject actor)) expires_at (JStr (ev_event_id draft)))
       actor None (Some (ev_event_id draft))) (\<lambda>confirmed.
     andthen (schedule_expiry C key (ev_event_id confirmed) expires_at) (\<lambda>_.
     ret (accept (Some key) [ev_event_id draft, ev_event_id confirmed])))))))))))))))"

end
