(* ===== verification/Overlay_Freshness.thy ===== *)
theory Overlay_Freshness
  imports Overlay_Commands
begin

text \<open>
  How a confirmed fact stops being current: the expiry and renewal pollers of \<open>overlay/expiry.py\<close>, the
  drift scan of \<open>overlay/catalog_changes.py\<close>, the tasks of \<open>overlay/reverify_tasks.py\<close>, the task-scoped
  read of \<open>overlay/task_read.py\<close> and the profiler's gate of \<open>overlay/profiler_command.py\<close>.
\<close>

subsection \<open>Re-verification tasks\<close>

definition open_reverify_task :: "overlay_env \<Rightarrow> string \<Rightarrow> string option \<Rightarrow> Authority \<Rightarrow> IdentityEnvelope \<Rightarrow> string list dbprog" where
  "open_reverify_task C key target a actor =
     open_side_tasks C a [''prior_value'', ''target_confirmed_event_id''] key None target None actor"

text \<open>The authority of the fact a stream is about, by the reference of its first event.\<close>

definition stream_authority :: "CatalogAdapter \<Rightarrow> EventEnvelope list \<Rightarrow> OverlayState \<Rightarrow> exn + Authority" where
  "stream_authority adapter stream st =
     chain (stream_ref stream) (\<lambda>ref.
     case os_fact_type st of JStr t \<Rightarrow> resolve_authority adapter ref t | _ \<Rightarrow> Inl TypeError)"

text \<open>\<open>ORDER BY created_at DESC LIMIT 1\<close>: rows are in the order of insertion.\<close>

definition open_fact_review_task :: "overlay_env \<Rightarrow> string \<Rightarrow> string \<Rightarrow> IdentityEnvelope \<Rightarrow> string dbprog" where
  "open_fact_review_task C key reason actor =
     andthen (query (\<lambda>s. find (\<lambda>t. tk_fact_key t = Some key \<and> tk_status t = ''open'') (rev (human_tasks s)))) (\<lambda>existing.
     case existing of
       Some t \<Rightarrow> ret (tk_task_id t)
     | None \<Rightarrow>
     andthen (load_fact C key) (\<lambda>stream.
     if stream = [] then throw OverlayCommandError
     else
     andthen (lift (fold_overlay_state stream)) (\<lambda>st.
     if os_status st \<noteq> Some ''VERIFIED'' \<or> str_or (os_confirmed_event_id st) [] = [] then throw OverlayCommandError
     else
     andthen (lift (stream_ref stream)) (\<lambda>ref.
     andthen (lift (current_catalog_adapter C)) (\<lambda>adapter.
     andthen (lift (case os_fact_type st of JStr t \<Rightarrow> resolve_authority adapter ref t | _ \<Rightarrow> Inl TypeError)) (\<lambda>a.
     open_task (core C) (gate_spec (at_gate a) [reason, ''target_confirmed_event_id''] (hd (task_assignees a)) key None
       (os_confirmed_event_id st) None) actor))))))"

subsection \<open>Expiry\<close>

definition expiry_target_current :: "OverlayState \<Rightarrow> string \<Rightarrow> bool" where
  "expiry_target_current st confirmed_event_id \<longleftrightarrow>
     os_status st = Some ''VERIFIED'' \<and> os_confirmed_event_id st = Some confirmed_event_id"

text \<open>The projections of a fact that has just left \<open>VERIFIED\<close>; the two callers differ in the grain's dependants.\<close>

definition after_leaving :: "overlay_env \<Rightarrow> string \<Rightarrow> json \<Rightarrow> string \<Rightarrow> unit dbprog" where
  "after_leaving C key fact_type status =
     (if fact_type = JStr ''approved_join'' then demote_projected_join_edges C key status
      else if fact_type \<in> JStr ` set SEMANTIC_TYPES then
        demote_projected_semantic_binding C key (str_or (as_ostr fact_type) []) status
      else if fact_type = JStr ''entity_bridge'' then
        andthen (demote_projected_bridge_edges C key) (\<lambda>_. upload_hook C (DemoteRealizationsForBridge key ''stale''))
      else ret ())"

definition apply_expiry :: "overlay_env \<Rightarrow> CatalogAdapter \<Rightarrow> IdentityEnvelope \<Rightarrow> string \<Rightarrow> string \<Rightarrow> bool dbprog" where
  "apply_expiry C adapter actor key confirmed_event_id =
     andthen (load_fact C key) (\<lambda>stream.
     if stream = [] then ret False
     else
     andthen (lift (fold_overlay_state stream)) (\<lambda>st.
     if \<not> expiry_target_current st confirmed_event_id then ret False
     else
     andthen (attempt (append_overlay_event C key ''OVERLAY_FACT_EXPIRED''
       [(''expires_confirmed_event_id'', JStr confirmed_event_id)] actor (Some (head_version stream)) None)) (\<lambda>r.
     case r of
       Inl e \<Rightarrow> if e = ConcurrencyError then ret False else throw e
     | Inr _ \<Rightarrow>
     andthen (after_leaving C key (os_fact_type st) ''REVERIFY'') (\<lambda>_.
     andthen (lift (stream_authority adapter stream st)) (\<lambda>a.
     andthen (open_reverify_task C key (Some confirmed_event_id) a actor) (\<lambda>_.
     ret True))))))"

definition poller_actor :: "string \<Rightarrow> string \<Rightarrow> exn + IdentityEnvelope" where
  "poller_actor who att = build_service_identity who [''overlay''] att [] None None False"

definition mark_fired :: "string \<Rightarrow> unit dbprog" where
  "mark_fired timer_id = update (\<lambda>s. s\<lparr>timers := map (\<lambda>r. if tm_timer_id r = timer_id then r\<lparr>tm_status := ''fired''\<rparr> else r) (timers s)\<rparr>)"

definition expiry_due :: "int \<Rightarrow> timer_row \<Rightarrow> bool" where
  "expiry_due now r \<longleftrightarrow> tm_kind r = ''overlay_expiry'' \<and> tm_status r = ''scheduled'' \<and> tm_fire_at r \<le> now"

definition fire_expiry :: "overlay_env \<Rightarrow> CatalogAdapter \<Rightarrow> IdentityEnvelope \<Rightarrow> timer_row \<Rightarrow> bool dbprog" where
  "fire_expiry C adapter actor row =
     andthen (lift (dict_str (tm_payload row) ''confirmed_event_id'')) (\<lambda>cid.
     andthen (apply_expiry C adapter actor (tm_aggregate_id row) cid) (\<lambda>applied.
     andthen (mark_fired (tm_timer_id row)) (\<lambda>_. ret applied)))"

definition fire_due_overlay_expiries :: "overlay_env \<Rightarrow> int \<Rightarrow> int dbprog" where
  "fire_due_overlay_expiries C now =
     andthen (lift (poller_actor ''service:overlay-freshness'' ''overlay-expiry-poller'')) (\<lambda>actor.
     andthen (lift (current_catalog_adapter C)) (\<lambda>adapter.
     andthen (query (\<lambda>s. filter (expiry_due now) (timers s))) (\<lambda>due.
     andthen (for_each due (fire_expiry C adapter actor)) (\<lambda>applied.
     ret (int (length (filter id applied)))))))"

text \<open>The candidates of the renewal poller in the read model, which lags; each is checked against its stream.\<close>

definition renewal_candidate :: "db \<Rightarrow> int \<Rightarrow> int \<Rightarrow> fact_state_row \<Rightarrow> bool" where
  "renewal_candidate s grace now r \<longleftrightarrow>
     fs_status r = ''VERIFIED'' \<and> (case fs_expires_at r of None \<Rightarrow> False | Some t \<Rightarrow> t \<le> now + grace \<and> now < t)
     \<and> fs_fact_type r \<noteq> ''approved_join''
     \<and> \<not> list_ex (\<lambda>t. tk_fact_key t = Some (fs_fact_key r) \<and> tk_status t = ''open'') (human_tasks s)"

definition renew_one :: "overlay_env \<Rightarrow> CatalogAdapter \<Rightarrow> IdentityEnvelope \<Rightarrow> int \<Rightarrow> string \<Rightarrow> bool dbprog" where
  "renew_one C adapter actor now key =
     andthen (load_fact C key) (\<lambda>stream.
     if stream = [] then ret False
     else
     andthen (lift (fold_overlay_state stream)) (\<lambda>st.
     andthen (lift (if os_status st \<noteq> Some ''VERIFIED'' then Inr False else within_renewal_grace C st now)) (\<lambda>renewable.
     if \<not> renewable then ret False
     else
     andthen (lift (stream_authority adapter stream st)) (\<lambda>a.
     andthen (open_reverify_task C key (os_confirmed_event_id st) a actor) (\<lambda>_.
     ret True)))))"

definition fire_due_overlay_renewals :: "overlay_env \<Rightarrow> int \<Rightarrow> int dbprog" where
  "fire_due_overlay_renewals C now =
     (case current_overlay_config C of
        Inl _ \<Rightarrow> ret 0
      | Inr c \<Rightarrow>
          andthen (lift (poller_actor ''service:overlay-renewal'' ''overlay-renewal-poller'')) (\<lambda>actor.
          andthen (lift (current_catalog_adapter C)) (\<lambda>adapter.
          andthen (query (\<lambda>s. map fs_fact_key (filter (renewal_candidate s (renewal_grace c) now) (overlay_fact_state s)))) (\<lambda>due.
          andthen (for_each due (renew_one C adapter actor now)) (\<lambda>opened.
          ret (int (length (filter id opened))))))))"

subsection \<open>Drift\<close>

definition drift_watermark :: "string \<Rightarrow> db \<Rightarrow> int option" where
  "drift_watermark source s = map_option wm_last_completed_at (find (\<lambda>r. wm_catalog_source r = source) (overlay_drift_watermark s))"

definition drift_head_seq :: "string \<Rightarrow> db \<Rightarrow> int option" where
  "drift_head_seq source s = map_option wm_head_seq (find (\<lambda>r. wm_catalog_source r = source) (overlay_drift_watermark s))"

definition write_watermark :: "overlay_env \<Rightarrow> string \<Rightarrow> int \<Rightarrow> unit dbprog" where
  "write_watermark C source now =
     andthen (query (\<lambda>s. fold max (map er_global_seq (events s)) 0)) (\<lambda>head_seq.
     andthen (mint_id (core C) ''drift'') (\<lambda>run_id.
     update (\<lambda>s. s\<lparr>overlay_drift_watermark :=
       (let row = \<lparr>wm_catalog_source = source, wm_last_completed_at = now, wm_last_run_id = run_id, wm_head_seq = head_seq\<rparr>
        in if list_ex (\<lambda>r. wm_catalog_source r = source) (overlay_drift_watermark s)
           then map (\<lambda>r. if wm_catalog_source r = source then row else r) (overlay_drift_watermark s)
           else overlay_drift_watermark s @ [row])\<rparr>)))"

record Change =
  ch_catalog_source :: string
  ch_object_ref :: string
  ch_kind :: string
  ch_native_oid :: "string option"
  ch_renamed_to :: "string option"

definition type_fingerprint :: "env \<Rightarrow> CatalogObject \<Rightarrow> string" where
  "type_fingerprint E ob =
     sha256_of E (ct_object_kind ob @ CHR ''|'' # source_text (ct_data_type ob)
       @ (case ct_safety_fingerprint ob of None \<Rightarrow> [] | Some f \<Rightarrow> CHR ''|'' # f))"

definition load_snapshot :: "string \<Rightarrow> db \<Rightarrow> (string \<times> string option \<times> string) list" where
  "load_snapshot source s = map (\<lambda>r. (cb_object_ref r, cb_native_oid r, cb_type_fingerprint r))
     (filter (\<lambda>r. cb_catalog_source r = source) (overlay_catalog_object s))"

definition save_snapshot :: "overlay_env \<Rightarrow> string \<Rightarrow> (string \<times> CatalogObject) list \<Rightarrow> unit dbprog" where
  "save_snapshot C source current = update (\<lambda>s. s\<lparr>overlay_catalog_object :=
     filter (\<lambda>r. cb_catalog_source r \<noteq> source) (overlay_catalog_object s)
     @ map (\<lambda>(ref, ob). \<lparr>cb_catalog_source = source, cb_object_ref = ref, cb_native_oid = ct_native_oid ob,
              cb_type_fingerprint = type_fingerprint (core C) ob\<rparr>) current\<rparr>)"

text \<open>
  The changes between a snapshot and the catalog.  The code collects references in sets; the model lists
  them in the order of the catalog and of the snapshot.  A dropped object whose stable id appears on an
  added one is a rename.
\<close>

definition renamed_to :: "(string \<times> CatalogObject) list \<Rightarrow> (string \<times> string option \<times> string) list \<Rightarrow> string option \<Rightarrow> string option" where
  "renamed_to current prior oid =
     (case oid of
        None \<Rightarrow> None
      | Some o' \<Rightarrow> if o' = [] then None
          else map_option fst (find (\<lambda>(ref, ob). ct_native_oid ob = Some o' \<and> map_of prior ref = None) (rev current)))"

text \<open>Of several dropped objects with one id only the last is the old side of a rename, as the dictionary keeps it.\<close>

definition last_with_oid :: "(string \<times> CatalogObject) list \<Rightarrow> (string \<times> string option \<times> string) list \<Rightarrow> string option \<Rightarrow> string option" where
  "last_with_oid current prior oid =
     map_option fst (find (\<lambda>(ref, o', _). o' = oid \<and> map_of current ref = None) (rev prior))"

definition drop_or_rename :: "string \<Rightarrow> (string \<times> CatalogObject) list \<Rightarrow> (string \<times> string option \<times> string) list
    \<Rightarrow> string \<times> string option \<times> string \<Rightarrow> Change" where
  "drop_or_rename source current prior = (\<lambda>(ref, oid, _).
     let target = (if last_with_oid current prior oid = Some ref then renamed_to current prior oid else None)
     in \<lparr>ch_catalog_source = source, ch_object_ref = ref, ch_kind = (if target = None then ''drop'' else ''rename''),
         ch_native_oid = oid, ch_renamed_to = target\<rparr>)"

definition catalog_diff :: "env \<Rightarrow> string \<Rightarrow> (string \<times> CatalogObject) list \<Rightarrow> (string \<times> string option \<times> string) list \<Rightarrow> Change list" where
  "catalog_diff E source current prior =
     (let gone = map (drop_or_rename source current prior) (filter (\<lambda>(ref, _). map_of current ref = None) prior);
          targets = List.map_filter ch_renamed_to gone
      in gone
       @ map (\<lambda>(ref, ob). \<lparr>ch_catalog_source = source, ch_object_ref = ref, ch_kind = ''add'', ch_native_oid = ct_native_oid ob, ch_renamed_to = None\<rparr>)
           (filter (\<lambda>(ref, _). map_of prior ref = None \<and> ref \<notin> set targets) current)
       @ map (\<lambda>(ref, ob). \<lparr>ch_catalog_source = source, ch_object_ref = ref, ch_kind = ''type_change'', ch_native_oid = ct_native_oid ob, ch_renamed_to = None\<rparr>)
           (filter (\<lambda>(ref, ob). case map_of prior ref of None \<Rightarrow> False | Some (_, f) \<Rightarrow> type_fingerprint E ob \<noteq> f) current))"

text \<open>\<open>dependents_of\<close>: the keys in order.\<close>

definition dependents_of :: "string \<Rightarrow> string \<Rightarrow> db \<Rightarrow> string list" where
  "dependents_of source ref s =
     sort (map fst (filter (\<lambda>(k, src, r). src = source \<and> r = ref) (overlay_fact_dependency s)))"

definition stale_one :: "overlay_env \<Rightarrow> CatalogAdapter \<Rightarrow> IdentityEnvelope \<Rightarrow> bool \<Rightarrow> string \<Rightarrow> string \<Rightarrow> string option dbprog" where
  "stale_one C adapter actor open_reverify change_ref key =
     andthen (load_fact C key) (\<lambda>stream.
     if stream = [] then ret None
     else
     andthen (lift (fold_overlay_state stream)) (\<lambda>st.
     if os_status st \<noteq> Some ''VERIFIED'' then ret None
     else
     andthen (append_overlay_event C key ''OVERLAY_FACT_STALED''
       [(''catalog_change_ref'', JStr change_ref), (''stales_confirmed_event_id'', ostr (os_confirmed_event_id st))]
       actor (Some (head_version stream)) None) (\<lambda>e.
     andthen (after_leaving C key (os_fact_type st) ''STALE'') (\<lambda>_.
     andthen (if os_fact_type st = JStr ''grain'' then upload_hook C (DemoteRealizationsForDependency ''grain_fact'' key) else ret ()) (\<lambda>_.
     andthen (if open_reverify then
         andthen (lift (stream_authority adapter stream st)) (\<lambda>a.
         andthen (open_reverify_task C key (os_confirmed_event_id st) a actor) (\<lambda>_. ret ()))
       else ret ()) (\<lambda>_.
     ret (Some (ev_event_id e))))))))"

definition stale_dependents :: "overlay_env \<Rightarrow> CatalogAdapter \<Rightarrow> IdentityEnvelope \<Rightarrow> bool \<Rightarrow> Change \<Rightarrow> unit dbprog" where
  "stale_dependents C adapter actor open_reverify ch =
     (if ch_kind ch \<notin> {''drop'', ''type_change'', ''rename''} then ret ()
      else
        andthen (query (dependents_of (ch_catalog_source ch) (ch_object_ref ch))) (\<lambda>keys.
        andthen (for_each keys (stale_one C adapter actor open_reverify (ch_kind ch @ CHR '':'' # ch_object_ref ch))) (\<lambda>_. ret ())))"

definition detect_catalog_changes :: "overlay_env \<Rightarrow> CatalogAdapter \<Rightarrow> IdentityEnvelope \<Rightarrow> int option \<Rightarrow> bool \<Rightarrow> Change list dbprog" where
  "detect_catalog_changes C adapter actor now open_reverify =
     (let source = catalog_source adapter; current = catalog_fingerprint adapter in
     andthen (query (load_snapshot source)) (\<lambda>prior.
     (let changes = catalog_diff (core C) source current prior in
     andthen (attempt (for_each changes (stale_dependents C adapter actor open_reverify))) (\<lambda>r.
     case r of
       Inl e \<Rightarrow> if e = ConcurrencyError then ret changes else throw e
     | Inr _ \<Rightarrow>
     andthen (save_snapshot C source current) (\<lambda>_.
     andthen (query clock) (\<lambda>t.
     andthen (write_watermark C source (case now of None \<Rightarrow> t | Some n \<Rightarrow> n)) (\<lambda>_.
     ret changes)))))))"

subsection \<open>What a task shows\<close>

definition task_reader :: "task_row \<Rightarrow> IdentityEnvelope \<Rightarrow> bool" where
  "task_reader t actor \<longleftrightarrow>
     (let role = dget (tk_eligible_assignees t) ''role''; who = dget (tk_eligible_assignees t) ''subject''
      in if who \<noteq> JNull then who = JStr (subject actor) else role \<noteq> JNull \<and> role \<in> JStr ` set (role_claims actor))"

record TaskProposal =
  tp_object_ref :: json
  tp_fact_type :: json
  tp_use_case :: json
  tp_proposed_value :: json
  tp_prior_value :: json
  tp_target_event_id :: "string option"
  tp_evidence :: "evidence_row option"

definition get_task_proposal :: "overlay_env \<Rightarrow> string \<Rightarrow> IdentityEnvelope \<Rightarrow> TaskProposal dbprog" where
  "get_task_proposal C task_id actor =
     andthen (query (find_task task_id)) (\<lambda>row.
     case row of
       None \<Rightarrow> throw OverlayCommandError
     | Some t \<Rightarrow>
         if tk_status t \<noteq> ''open'' then throw OverlayCommandError
         else if \<not> task_reader t actor then throw OverlayCommandError
         else
           andthen (load_stream (core C) ''overlay_fact'' (tk_fact_key t)) (\<lambda>stream.
           case latest_proposed stream of
             None \<Rightarrow> throw OverlayCommandError
           | Some p \<Rightarrow>
               andthen (lift (fold_overlay_state stream)) (\<lambda>st.
               andthen (lift (dict_item (ev_payload p) ''object_ref'')) (\<lambda>object_ref.
               andthen (lift (dict_item (ev_payload p) ''fact_type'')) (\<lambda>fact_type.
               andthen (lift (dict_item (ev_payload p) ''proposed_value'')) (\<lambda>value.
               andthen (if str_or (tk_evidence_ref t) [] \<noteq> []
                        then andthen (read_evidence (str_or (tk_evidence_ref t) [])) (\<lambda>e. ret (Some e)) else ret None) (\<lambda>evidence.
               ret \<lparr>tp_object_ref = object_ref, tp_fact_type = fact_type, tp_use_case = dget (ev_payload p) ''use_case'',
                 tp_proposed_value = value, tp_prior_value = os_prior_value st, tp_target_event_id = tk_target_event_id t,
                 tp_evidence = evidence\<rparr>)))))))"

subsection \<open>The profiler's gate\<close>

text \<open>\<open>caller\<close> is \<open>frozenset(args.get("allowed_schemas", ()))\<close>, listed without repetition.\<close>

definition profiler_denial :: "overlay_env \<Rightarrow> string list \<Rightarrow> CatalogAdapter \<Rightarrow> CatalogObjectRef \<Rightarrow> string option" where
  "profiler_denial C caller adapter ref =
     (case current_overlay_config C of
        Inl _ \<Rightarrow> Some ''profiler is not on the allowlist: no OverlayConfig is sealed (policy unconfigured)''
      | Inr c \<Rightarrow>
          let matching = filter (\<lambda>r. rule_catalog_source r = catalog_source adapter \<and> rule_schema r = rf_schema ref
                \<and> (rule_table r = rf_table ref \<or> rule_table r = ''*'')) (profiler_rules c);
              table = rf_schema ref @ ''.'' @ rf_table ref
          in if list_ex (\<lambda>r. \<not> rule_allow r) matching then Some (table @ '' is denied by profiler policy'')
             else if \<not> list_ex rule_allow matching then Some (table @ '' is not on the profiler allowlist (default deny)'')
             else if caller \<noteq> [] \<and> rf_schema ref \<notin> set caller then
               Some (''schema '' @ repr_str (rf_schema ref) @ '' is not on the caller allowlist '' @ py_repr (JArr (map JStr (sort caller))))
             else None)"

end
