(* ===== verification/Overlay_Rules.thy ===== *)
theory Overlay_Rules
  imports Overlay_Freshness
begin

text \<open>
  The rules a fact's stream obeys.  \<open>legal_next\<close> is the abstract specification: which event may follow
  a stream.  Every handler, poller and scan of the overlay extends each stream by legal events only
  (\<open>facts_step\<close>), so what holds of every legal stream holds of every stream the overlay writes: values
  fit their fact type, nobody confirms what they proposed, a join of two owners takes both, and a
  rejected proposal stays rejected.
\<close>

subsection \<open>Streams in a well-formed store\<close>

definition fact_events :: "string \<Rightarrow> db \<Rightarrow> EventEnvelope list" where
  "fact_events key s = map event_of (stream_rows ''overlay_fact'' (Some key) s)"

lemma load_fact_wf: "wf_store E s \<Longrightarrow> load_fact C key s = (Inr (fact_events key s), s)"
  by (simp add: load_stream_wf fact_events_def)

text \<open>The check of the store as a function of the stream.\<close>

definition checked :: "overlay_env \<Rightarrow> EventEnvelope list \<Rightarrow> string \<Rightarrow> dict \<Rightarrow> exn + unit" where
  "checked C stream typ payload =
     (if typ = ''OVERLAY_FACT_PROPOSED'' then
        if dget payload ''fact_type'' \<noteq> JNull \<and> dget payload ''proposed_value'' \<noteq> JNull
        then validate_typed C (dget payload ''fact_type'') (dget payload ''proposed_value'') (dget payload ''use_case'')
        else Inr ()
      else if typ = ''OVERLAY_FACT_CONFIRMED'' \<and> dget payload ''value'' \<noteq> JNull then
        (case find is_proposed stream of
           None \<Rightarrow> Inr ()
         | Some p \<Rightarrow>
             if dget (ev_payload p) ''fact_type'' = JNull then Inr ()
             else validate_typed C (dget (ev_payload p) ''fact_type'') (dget payload ''value'') (dget (ev_payload p) ''use_case''))
      else Inr ())"

lemma enforce_wf:
  "wf_store E s \<Longrightarrow> enforce_fact_value_schema C key typ payload s = (checked C (fact_events key s) typ payload, s)"
  by (auto simp: enforce_fact_value_schema_def checked_def andthen_Inr [OF load_fact_wf] split: option.split)

lemma overlay_spec_simps [simp]:
  "ap_aggregate (overlay_spec key typ payload actor v c) = ''overlay_fact''"
  "ap_aggregate_id (overlay_spec key typ payload actor v c) = Some key"
  "ap_type (overlay_spec key typ payload actor v c) = typ" "ap_payload (overlay_spec key typ payload actor v c) = payload"
  "ap_actor (overlay_spec key typ payload actor v c) = actor" "ap_expected_version (overlay_spec key typ payload actor v c) = v"
  by (simp_all add: overlay_spec_def event_spec_def)

lemma append_overlay_Inr:
  assumes "wf_store (core C) s" "append_overlay_event C key typ payload actor v c s = (Inr e, s')"
  shows "fact_events key s' = fact_events key s @ [e]" "k \<noteq> key \<Longrightarrow> fact_events k s' = fact_events k s"
    "ev_type e = typ" "ev_payload e = payload" "ev_actor e = actor" "checked C (fact_events key s) typ payload = Inr ()"
    "store_step (core C) s s'" "timers s' = timers s" "human_tasks s' = human_tasks s" "clock s' = clock s"
    "security_audit s' = security_audit s"
proof -
  let ?sp = "overlay_spec key typ payload actor v c"
  have ck: "checked C (fact_events key s) typ payload = Inr ()" and ap: "append (core C) ?sp s = (Inr e, s')"
    using assms(2) by (auto simp: append_overlay_event_def andthen_eq_Inr enforce_wf [OF assms(1)])
  obtain aid row n where r: "ap_aggregate_id ?sp = Some aid" "row_to_event row = Inr e"
    "row = event_row_of (new_event_of ?sp (clock s)) aid (next_event_id (core C) s) n
       (table_version_for (ap_aggregate ?sp) (ap_aggregate_id ?sp) s) (clock s) (gseq s + 1) (clock s)"
    "s' = s\<lparr>draws := Suc (draws s), gseq := gseq s + 1, events := events s @ [row]\<rparr>"
    using append_Inr [OF ap] by metis
  have aid: "aid = key"
    using r(1) by simp
  note env = row_to_event_appended [OF r(3)]
  show "fact_events key s' = fact_events key s @ [e]"
    unfolding fact_events_def r(4) stream_rows_snoc using r(2) by (simp add: r(3) aid event_of_def)
  show "k \<noteq> key \<Longrightarrow> fact_events k s' = fact_events k s"
    unfolding fact_events_def r(4) stream_rows_snoc by (simp add: r(3) aid)
  show "ev_type e = typ" "ev_payload e = payload" "ev_actor e = actor"
    using r(2) env by (auto simp: appended_envelope_def)
  show "checked C (fact_events key s) typ payload = Inr ()" by fact
  show "store_step (core C) s s'"
    by (rule keepsD [OF keeps_append_store ap])
  show "timers s' = timers s" "human_tasks s' = human_tasks s" "clock s' = clock s" "security_audit s' = security_audit s"
    by (simp_all add: r(4))
qed

lemma append_overlay_Inl:
  assumes "wf_store (core C) s" "append_overlay_event C key typ payload actor v c s = (Inl x, s')"
  shows "events s' = events s" "gseq s \<le> gseq s'" "timers s' = timers s" "human_tasks s' = human_tasks s"
    "security_audit s' = security_audit s"
proof -
  have "s' = s \<or> append (core C) (overlay_spec key typ payload actor v c) s = (Inl x, s')"
    using assms(2) by (auto simp: append_overlay_event_def andthen_def enforce_wf [OF assms(1)] split: sum.splits)
  then have "s' = s \<or> s' = s\<lparr>draws := Suc (draws s), gseq := gseq s + 1\<rparr>"
    using append_Inl by blast
  then show "events s' = events s" "gseq s \<le> gseq s'" "timers s' = timers s" "human_tasks s' = human_tasks s"
    "security_audit s' = security_audit s"
    by auto
qed

subsection \<open>The specification\<close>

text \<open>The fact's owner entered it directly: the stream is their own proposal, of a type that admits it.\<close>

definition self_entered :: "EventEnvelope list \<Rightarrow> EventEnvelope \<Rightarrow> bool" where
  "self_entered stream e \<longleftrightarrow>
     (case stream of
        [p] \<Rightarrow> is_proposed p \<and> dget (ev_payload p) ''proposed_by'' = JStr (subject (ev_actor e))
          \<and> dget (ev_payload p) ''fact_type'' \<notin> JStr ` set SEMANTIC_TYPES
      | _ \<Rightarrow> False)"

definition second_of_two :: "OverlayState \<Rightarrow> EventEnvelope \<Rightarrow> bool" where
  "second_of_two st e \<longleftrightarrow> os_partial_confirmers st \<noteq> []
     \<and> (case last (os_partial_confirmers st) of
          JObj d \<Rightarrow> (case dict_str d ''subject'' of Inr first_subject \<Rightarrow> first_subject \<noteq> subject (ev_actor e) | _ \<Rightarrow> False)
        | _ \<Rightarrow> False)"

definition retired :: "EventEnvelope list \<Rightarrow> json \<Rightarrow> bool" where
  "retired stream fp \<longleftrightarrow> list_ex (\<lambda>e. ev_type e = ''OVERLAY_FACT_REJECTED'' \<and> dget (ev_payload e) ''retired_fingerprint'' = fp) stream"

fun is_text :: "json \<Rightarrow> bool" where
  "is_text (JStr _) = True"
| "is_text _ = False"

lemma is_textE: "is_text v \<Longrightarrow> (\<And>t. v = JStr t \<Longrightarrow> P) \<Longrightarrow> P"
  by (cases v) auto

definition legal_in :: "overlay_env \<Rightarrow> EventEnvelope list \<Rightarrow> OverlayState \<Rightarrow> EventEnvelope \<Rightarrow> bool" where
  "legal_in C stream st e \<longleftrightarrow>
     checked C stream (ev_type e) (ev_payload e) = Inr ()
     \<and> (if ev_type e = ''OVERLAY_FACT_PROPOSED'' then
          is_text (dget (ev_payload e) ''fact_type'') \<and> os_status st \<in> {None, Some ''REJECTED''}
          \<and> (os_status st = Some ''REJECTED'' \<longrightarrow> \<not> retired stream (dget (ev_payload e) ''proposal_fingerprint''))
        else if ev_type e = ''OVERLAY_FACT_PARTIALLY_CONFIRMED'' then
          actor_kind (ev_actor e) = ''human'' \<and> status_in st AWAITING_CONFIRMATION
          \<and> os_partial_confirmers st = [] \<and> proposer_ne_confirmer stream (ev_actor e)
          \<and> dget (ev_payload e) ''by_owner'' = JStr (subject (ev_actor e))
        else if ev_type e = ''OVERLAY_FACT_CONFIRMED'' then
          actor_kind (ev_actor e) = ''human'' \<and> status_in st (''VERIFIED'' # AWAITING_CONFIRMATION)
          \<and> (self_entered stream e
             \<or> proposer_ne_confirmer stream (ev_actor e) \<and> (uploader_ne_confirmer stream (ev_actor e) \<or> second_of_two st e))
        else if ev_type e = ''OVERLAY_FACT_REJECTED'' then
          actor_kind (ev_actor e) = ''human'' \<and> status_in st AWAITING_CONFIRMATION
        else if ev_type e \<in> {''OVERLAY_FACT_EXPIRED'', ''OVERLAY_FACT_STALED''} then os_status st = Some ''VERIFIED''
        else False)"

definition legal_next :: "overlay_env \<Rightarrow> EventEnvelope list \<Rightarrow> EventEnvelope \<Rightarrow> bool" where
  "legal_next C stream e \<longleftrightarrow>
     (case fold_overlay_state stream of
        Inl _ \<Rightarrow> False
      | Inr st \<Rightarrow> legal_in C stream st e \<and> (case fold_event st e of Inl _ \<Rightarrow> False | Inr _ \<Rightarrow> True))"

definition grows1 :: "overlay_env \<Rightarrow> EventEnvelope list \<Rightarrow> EventEnvelope list \<Rightarrow> bool" where
  "grows1 C xs ys \<longleftrightarrow> (\<exists>e. ys = xs @ [e] \<and> legal_next C xs e)"

definition grows :: "overlay_env \<Rightarrow> EventEnvelope list \<Rightarrow> EventEnvelope list \<Rightarrow> bool" where
  "grows C = (grows1 C)\<^sup>*\<^sup>*"

definition facts_step :: "overlay_env \<Rightarrow> db \<Rightarrow> db \<Rightarrow> bool" where
  "facts_step C s s' \<longleftrightarrow>
     (wf_store (core C) s \<longrightarrow> store_step (core C) s s' \<and> (\<forall>key. grows C (fact_events key s) (fact_events key s')))"

lemma grows_refl [simp]: "grows C xs xs"
  by (simp add: grows_def)

lemma grows_trans: "grows C xs ys \<Longrightarrow> grows C ys zs \<Longrightarrow> grows C xs zs"
  by (simp add: grows_def)

interpretation overlay: state_rel "facts_step C" for C
proof
  show "facts_step C s s" for s
    by (simp add: facts_step_def log.rel_refl)
  show "facts_step C s t \<Longrightarrow> facts_step C t u \<Longrightarrow> facts_step C s u" for s t u
    unfolding facts_step_def by (meson grows_trans log.rel_trans store_step_def)
qed

text \<open>Steps that write no overlay event.\<close>

definition quiet :: "env \<Rightarrow> db \<Rightarrow> db \<Rightarrow> bool" where
  "quiet E s s' \<longleftrightarrow> store_step E s s' \<and> (\<forall>key. stream_rows ''overlay_fact'' (Some key) s' = stream_rows ''overlay_fact'' (Some key) s)"

interpretation quiet: state_rel "quiet E" for E
proof
  show "quiet E s s" for s
    by (simp add: quiet_def log.rel_refl)
  show "quiet E s t \<Longrightarrow> quiet E t u \<Longrightarrow> quiet E s u" for s t u
    unfolding quiet_def by (auto intro: log.rel_trans)
qed

lemma quiet_facts_step: "quiet (core C) s s' \<Longrightarrow> facts_step C s s'"
  by (simp add: quiet_def facts_step_def fact_events_def)

lemma keeps_quiet: "keeps (quiet (core C)) m \<Longrightarrow> keeps (facts_step C) m"
  by (simp add: keeps_def quiet_facts_step)

lemma quiet_frame: "events s' = events s \<Longrightarrow> gseq s \<le> gseq s' \<Longrightarrow> quiet E s s'"
  by (simp add: quiet_def store_step_frame stream_rows_def)

text \<open>Steps that write no event at all.\<close>

definition calm :: "db \<Rightarrow> db \<Rightarrow> bool" where
  "calm s s' \<longleftrightarrow> events s' = events s \<and> gseq s \<le> gseq s'"

interpretation calm: state_rel calm
  by unfold_locales (auto simp: calm_def)

lemma calm_quiet: "keeps calm m \<Longrightarrow> keeps (quiet E) m"
  by (simp add: keeps_def calm_def quiet_frame)

lemma calm_update: "(\<And>s. events (f s) = events s) \<Longrightarrow> (\<And>s. gseq (f s) = gseq s) \<Longrightarrow> keeps calm (update f)"
  by (simp add: keeps_def calm_def)

lemma calm_steps:
  "keeps calm (new_id F pre)" "keeps calm (mint_id F pre)" "keeps calm (insert_task tk)" "keeps calm (insert_timer tm)"
  "keeps calm (insert_timer_strict tm)" "keeps calm (insert_audit au)" "keeps calm (insert_evidence ov)"
  by (auto simp: keeps_def calm_def new_id_def mint_id_def insert_task_def insert_timer_def insert_timer_strict_def
      insert_audit_def insert_evidence_def Let_def)

lemma calm_record_denial: "keeps calm (record_denial F cmd reason)"
  unfolding record_denial_def record_security_event_def signing_key_def by (intro calm.keeps_rules calm_steps)

lemma calm_open_task: "keeps calm (open_task F spec actor)"
  unfolding open_task_def non_null_def by (intro calm.keeps_rules calm_steps)

lemma calm_cancel_task: "keeps calm (cancel_task task_id st)"
  unfolding cancel_task_def update_task_def cancel_timers_def by (intro calm.keeps_rules calm_update) simp_all

lemma calm_schedule_timer: "keeps calm (schedule_timer F agg aid timer)"
  unfolding schedule_timer_def by (intro calm.keeps_rules calm_steps)

lemma calm_overlay:
  "keeps calm (deny_audited C cmd key reason)" "keeps calm (close_fact_tasks key who)" "keeps calm (schedule_expiry C key cid t)"
  "keeps calm (bridge_error C ref fact_type)" "keeps calm (write_evidence C key created r)"
  "keeps calm (open_side_tasks C a inputs key draft target evidence actor)" "keeps calm (mark_fired timer_id)"
  "keeps calm (write_watermark C source t)" "keeps calm (save_snapshot C source current)"
  unfolding deny_audited_def close_fact_tasks_def schedule_expiry_def bridge_error_def write_evidence_def open_side_tasks_def
    mark_fired_def write_watermark_def save_snapshot_def
  by (intro calm.keeps_rules calm_steps calm_record_denial calm_open_task calm_cancel_task calm_schedule_timer calm_update;
      simp)+

lemma calm_proposal_evidence: "keeps calm (proposal_evidence C key cmd)"
  unfolding proposal_evidence_def by (intro calm.keeps_rules calm_overlay)

text \<open>The upload package's hooks write no overlay event and keep the log well formed.\<close>

definition hooks_quiet :: "overlay_env \<Rightarrow> bool" where
  "hooks_quiet C \<longleftrightarrow> (\<forall>call. keeps (quiet (core C)) (upload_hook C call))"

lemma quiet_savepoint: "keeps (quiet E) m \<Longrightarrow> keeps (quiet E) (savepoint rollback m)"
proof (rule quiet.keeps_savepoint)
  show "quiet E s (rollback s s')" if "quiet E s s'" for s s'
    using that by (intro quiet_frame) (auto simp: quiet_def store_step_def rollback_def)
qed

subsection \<open>Steps from a given state\<close>

text \<open>\<open>m\<close>, run in \<open>s\<close>, extends streams by legal events.\<close>

abbreviation lawful :: "overlay_env \<Rightarrow> db \<Rightarrow> 'a dbprog \<Rightarrow> bool" where
  "lawful C s m \<equiv> facts_step C s (snd (m s))"

lemma lawful_lift: "(\<And>x. r = Inr x \<Longrightarrow> lawful C s (f x)) \<Longrightarrow> lawful C s (andthen (lift r) f)"
  by (rule overlay.step_andthen) (auto simp: overlay.rel_refl)

lemma lawful_query: "lawful C s (f (q s)) \<Longrightarrow> lawful C s (andthen (query q) f)"
  by (rule overlay.step_andthen) (auto simp: overlay.rel_refl)

lemma lawful_load: "wf_store (core C) s \<Longrightarrow> lawful C s (f (fact_events key s)) \<Longrightarrow> lawful C s (andthen (load_fact C key) f)"
  by (rule overlay.step_andthen) (auto simp: overlay.rel_refl load_fact_wf)

lemma lawful_if: "(b \<Longrightarrow> lawful C s m) \<Longrightarrow> (\<not> b \<Longrightarrow> lawful C s n) \<Longrightarrow> lawful C s (if b then m else n)"
  by simp

lemma lawful_option:
  "(y = None \<Longrightarrow> lawful C s m) \<Longrightarrow> (\<And>x. y = Some x \<Longrightarrow> lawful C s (f x)) \<Longrightarrow>
     lawful C s (case y of None \<Rightarrow> m | Some x \<Rightarrow> f x)"
  by (cases y) simp_all

lemma lawful_sum:
  "(\<And>e. r = Inl e \<Longrightarrow> lawful C s (f e)) \<Longrightarrow> (\<And>x. r = Inr x \<Longrightarrow> lawful C s (g x)) \<Longrightarrow>
     lawful C s (case r of Inl e \<Rightarrow> f e | Inr x \<Rightarrow> g x)"
  by (cases r) simp_all

lemma lawful_prod: "(\<And>a b. p = (a, b) \<Longrightarrow> lawful C s (f a b)) \<Longrightarrow> lawful C s (case p of (a, b) \<Rightarrow> f a b)"
  by (cases p) simp

lemma lawful_let: "(\<And>x. x = a \<Longrightarrow> lawful C s (f x)) \<Longrightarrow> lawful C s (let x = a in f x)"
  by simp

lemma lawful_ret: "lawful C s (ret x)"
  by (simp add: overlay.rel_refl)

lemma lawful_keeps: "keeps (facts_step C) m \<Longrightarrow> lawful C s m"
  by (simp add: keeps_def)

lemma lawful_denied: "lawful C s (deny_audited C cmd key reason)"
  by (intro lawful_keeps keeps_quiet calm_quiet calm_overlay)

lemma lawful_bridge: "(\<And>x. lawful C s (f x)) \<Longrightarrow> lawful C s (andthen (bridge_error C ref fact_type) f)"
  by (rule overlay.step_andthen) (auto simp: bridge_error_def overlay.rel_refl split: if_splits)

lemma lawful_evidence:
  assumes "\<And>x s'. quiet (core C) s s' \<Longrightarrow> lawful C s' (f x)"
  shows "lawful C s (andthen (proposal_evidence C key cmd) f)"
proof (rule overlay.step_andthen)
  have q: "quiet (core C) s (snd (proposal_evidence C key cmd s))"
    using calm_quiet [OF calm_proposal_evidence] by (simp add: keeps_def)
  then show "lawful C s (proposal_evidence C key cmd)"
    by (rule quiet_facts_step)
  show "lawful C s' (f x)" if "proposal_evidence C key cmd s = (Inr x, s')" for x s'
    using assms q that by simp
qed

lemma append_extends:
  assumes wf: "wf_store (core C) s"
    and legal: "\<And>e. ev_type e = typ \<Longrightarrow> ev_payload e = payload \<Longrightarrow> ev_actor e = actor \<Longrightarrow>
      checked C (fact_events key s) typ payload = Inr () \<Longrightarrow> legal_next C (fact_events key s) e"
  shows "lawful C s (append_overlay_event C key typ payload actor v c)"
proof (cases "append_overlay_event C key typ payload actor v c s")
  case (Pair r s')
  show ?thesis
  proof (cases r)
    case (Inl x)
    show ?thesis
      using append_overlay_Inl [OF wf Pair [unfolded Inl]] Pair by (auto intro!: quiet_facts_step quiet_frame)
  next
    case (Inr e)
    note a = append_overlay_Inr [OF wf Pair [unfolded Inr]]
    have "grows C (fact_events k s) (fact_events k s')" for k
    proof (cases "k = key")
      case True
      have "legal_next C (fact_events key s) e"
        using legal [OF a(3,4,5,6)] by simp
      then show ?thesis
        using a(1) True by (auto simp: grows_def grows1_def)
    next
      case False
      then show ?thesis using a(2) by simp
    qed
    then show ?thesis
      using a(7) Pair by (simp add: facts_step_def)
  qed
qed

lemma lawful_append:
  assumes "wf_store (core C) s"
    and "\<And>e. ev_type e = typ \<Longrightarrow> ev_payload e = payload \<Longrightarrow> ev_actor e = actor \<Longrightarrow>
      checked C (fact_events key s) typ payload = Inr () \<Longrightarrow> legal_next C (fact_events key s) e"
    and "\<And>e. keeps (facts_step C) (f e)"
  shows "lawful C s (andthen (append_overlay_event C key typ payload actor v c) f)"
  using append_extends [OF assms(1,2)] assms(3) by (intro overlay.step_andthen) (auto simp: keeps_def)

lemmas lawful_rules =
  lawful_ret lawful_denied lawful_lift lawful_query lawful_load lawful_option lawful_sum lawful_prod lawful_let lawful_if lawful_bridge

text \<open>A program is lawful when it is so from well-formed stores.\<close>

lemma keeps_lawful: "(\<And>s. wf_store (core C) s \<Longrightarrow> lawful C s m) \<Longrightarrow> keeps (facts_step C) m"
  by (rule keepsI) (auto simp: facts_step_def)

lemma legal_nextI:
  "fold_overlay_state stream = Inr st \<Longrightarrow> \<exists>st'. fold_event st e = Inr st' \<Longrightarrow> legal_in C stream st e \<Longrightarrow> legal_next C stream e"
  by (auto simp: legal_next_def)

end
