(* ===== verification/Overlay_Refinement.thy ===== *)
theory Overlay_Refinement
  imports Overlay_Rules
begin

text \<open>
  The overlay's code refines the rules of a fact's stream: each command handler, poller and scan is a
  sequence of legal events (\<open>facts_step\<close>).
\<close>

subsection \<open>The fold\<close>

lemma fold_from_append: "fold_from st (xs @ ys) = chain (fold_from st xs) (\<lambda>st'. fold_from st' ys)"
  by (induction xs arbitrary: st) (auto simp: chain_def split: sum.splits)

lemma fold_snoc: "fold_overlay_state (xs @ [e]) = chain (fold_overlay_state xs) (\<lambda>st. fold_event st e)"
  by (simp add: fold_overlay_state_def fold_from_append) (simp add: chain_def split: sum.splits)

lemma fold_Nil: "fold_overlay_state [] = Inr initial_state"
  by (simp add: fold_overlay_state_def)

definition STATUSES :: "string list" where
  "STATUSES = ''REJECTED'' # NON_TERMINAL"

lemma fold_event_status:
  "fold_event st e = Inr st' \<Longrightarrow> os_status st = None \<or> status_in st STATUSES \<Longrightarrow> os_status st' = None \<or> status_in st' STATUSES"
  unfolding fold_event_def Let_def
  by (auto simp: chain_eq_Inr status_in_def STATUSES_def NON_TERMINAL_def split: if_splits option.splits prod.splits)

lemma fold_status: "fold_overlay_state xs = Inr st \<Longrightarrow> os_status st = None \<or> status_in st STATUSES"
proof (induction xs arbitrary: st rule: rev_induct)
  case Nil
  then show ?case by (auto simp: fold_Nil initial_state_def)
next
  case (snoc e xs)
  then show ?case by (auto simp: fold_snoc chain_eq_Inr dest: fold_event_status)
qed

lemma not_denied:
  assumes "fold_overlay_state existing = Inr st" "replacement_denial st existing fp = None"
  shows "os_status st \<in> {None, Some ''REJECTED''} \<and> (os_status st = Some ''REJECTED'' \<longrightarrow> \<not> retired existing (JStr fp))"
proof -
  have "\<not> status_in st NON_TERMINAL"
    using assms(2) by (auto simp: replacement_denial_def split: if_splits option.splits)
  then show ?thesis
    using fold_status [OF assms(1)] assms(2)
    by (auto simp: status_in_def STATUSES_def replacement_denial_def retired_def split: if_splits option.splits)
qed

text \<open>What the handlers write folds.\<close>

lemma foldable:
  "ev_type e = ''OVERLAY_FACT_PROPOSED'' \<Longrightarrow> ev_payload e = proposal_payload ref fact_type use_case v fp ev actor \<Longrightarrow>
     \<exists>st'. fold_event st e = Inr st'"
  "ev_type e = ''OVERLAY_FACT_PROPOSED'' \<Longrightarrow>
     ev_payload e = with_uploader args (proposal_payload ref fact_type use_case v fp ev actor) \<Longrightarrow> \<exists>st'. fold_event st e = Inr st'"
  "ev_type e = ''OVERLAY_FACT_CONFIRMED'' \<Longrightarrow> ev_payload e = confirmed_payload v cs t target \<Longrightarrow> \<exists>st'. fold_event st e = Inr st'"
  "ev_type e = ''OVERLAY_FACT_CONFIRMED'' \<Longrightarrow> ev_payload e = confirmed_payload v cs t target @ [(''note'', note)] \<Longrightarrow>
     \<exists>st'. fold_event st e = Inr st'"
  "ev_type e = ''OVERLAY_FACT_PARTIALLY_CONFIRMED'' \<Longrightarrow> ev_payload e = (''by_owner'', owner) # (''role'', role) # rest \<Longrightarrow>
     \<exists>st'. fold_event st e = Inr st'"
  by (auto simp: fold_event_def Let_def with_uploader_def proposal_payload_def confirmed_payload_def dict_item_def chain_def
      has_key_def list_of_def split: sum.splits prod.splits)

lemma foldable_end:
  "ev_type e = ''OVERLAY_FACT_REJECTED'' \<Longrightarrow> \<exists>st'. fold_event st e = Inr st'"
  "ev_type e = ''OVERLAY_FACT_EXPIRED'' \<Longrightarrow> \<exists>st'. fold_event st e = Inr st'"
  "ev_type e = ''OVERLAY_FACT_STALED'' \<Longrightarrow> \<exists>st'. fold_event st e = Inr st'"
  by (simp_all add: fold_event_def Let_def)

subsection \<open>Proposing\<close>

lemma proposed_fields:
  "dget (with_uploader args (proposal_payload ref fact_type use_case v fp evidence_ref actor)) ''proposal_fingerprint'' = JStr fp"
  "dget (with_uploader args (proposal_payload ref fact_type use_case v fp evidence_ref actor)) ''fact_type'' = JStr fact_type"
  by (simp_all add: with_uploader_def proposal_payload_def dget_def)

lemma lawful_submit:
  assumes "wf_store (core C) s" "fact_events key s = existing" "fold_overlay_state existing = Inr st"
    "replacement_denial st existing fp = None"
  shows "lawful C s (submit_proposal C adapter cmd ref fact_type use_case value key fp existing evidence_ref)"
  unfolding submit_proposal_def
proof (intro lawful_lift lawful_append assms(1), goal_cases)
  case (1 a e)
  then show ?case
    using not_denied [OF assms(3,4)] assms(2)
    by (intro legal_nextI [OF assms(3) [folded assms(2)]]) (erule (1) foldable | erule foldable_end | simp add: legal_in_def proposed_fields)+
next
  case (2 a e)
  show ?case
    by (intro overlay.keeps_rules keeps_quiet calm_quiet calm_overlay)
qed

lemma propose_lawful: "keeps (facts_step C) (propose_fact C cmd)"
proof (rule keeps_lawful)
  fix s
  assume wf: "wf_store (core C) s"
  have submit: "lawful C s' (submit_proposal C adapter cmd ref fact_type use_case v key fp (fact_events key s) evidence_ref)"
    if "quiet (core C) s s'" "fold_overlay_state (fact_events key s) = Inr st" "replacement_denial st (fact_events key s) fp = None"
    for s' adapter ref fact_type use_case v key fp st evidence_ref
    using that wf by (intro lawful_submit) (auto simp: quiet_def store_step_def fact_events_def)
  show "lawful C s (propose_fact C cmd)"
    unfolding propose_fact_def by (intro lawful_rules lawful_evidence wf) (erule submit; assumption)
qed

subsection \<open>Confirming\<close>

lemma keeps_hook: "hooks_quiet C \<Longrightarrow> keeps (facts_step C) (upload_hook C call)"
  by (rule keeps_quiet) (simp add: hooks_quiet_def)

lemma keeps_fail_soft: "hooks_quiet C \<Longrightarrow> keeps (facts_step C) (fail_soft C call)"
  unfolding fail_soft_def
  by (intro keeps_quiet quiet.keeps_catch quiet_savepoint quiet.keeps_ret) (simp add: hooks_quiet_def)

lemmas keeps_calm = keeps_quiet [OF calm_quiet]

lemma keeps_after_confirm: "hooks_quiet C \<Longrightarrow> keeps (facts_step C) (after_confirm C ref fact_type key)"
  unfolding after_confirm_def by (intro overlay.keeps_rules) (auto intro!: overlay.keeps_rules keeps_hook split: fact_ref.split)

lemma renewing_verified: "within_renewal_grace C st now = Inr True \<Longrightarrow> os_status st = Some ''VERIFIED''"
  by (auto simp: within_renewal_grace_def split: if_splits)

lemma lawful_write_confirmation:
  assumes "wf_store (core C) s" "hooks_quiet C" "fold_overlay_state (fact_events key s) = Inr st" "actor_kind (cm_actor cmd) = ''human''"
    "status_in st (''VERIFIED'' # AWAITING_CONFIRMATION)" "proposer_ne_confirmer (fact_events key s) (cm_actor cmd)"
    "uploader_ne_confirmer (fact_events key s) (cm_actor cmd)"
  shows "lawful C s (write_confirmation C cmd ref fact_type key (fact_events key s) value)"
  unfolding write_confirmation_def
proof (intro lawful_lift lawful_query lawful_let lawful_append assms(1), goal_cases)
  case (1 target expires_at e)
  then show ?case
    using assms(4-) by (intro legal_nextI [OF assms(3)]) (erule (1) foldable | erule foldable_end | simp add: legal_in_def)+
next
  case (2 target expires_at e)
  show ?case
    by (intro overlay.keeps_rules keeps_calm calm_overlay keeps_after_confirm assms(2))
qed

lemma lawful_confirm_single:
  assumes "wf_store (core C) s" "hooks_quiet C" "fold_overlay_state (fact_events key s) = Inr st" "actor_kind (cm_actor cmd) = ''human''"
    "status_in st (''VERIFIED'' # AWAITING_CONFIRMATION)"
  shows "lawful C s (confirm_single C adapter cmd ref fact_type use_case key (fact_events key s) st a)"
  unfolding confirm_single_def
  by (intro lawful_rules lawful_write_confirmation [OF assms]) simp_all

lemma lawful_first_owner:
  assumes "wf_store (core C) s" "fold_overlay_state (fact_events key s) = Inr st" "actor_kind (cm_actor cmd) = ''human''"
    "status_in st AWAITING_CONFIRMATION" "proposer_ne_confirmer (fact_events key s) (cm_actor cmd)" "os_partial_confirmers st = []"
  shows "lawful C s (confirm_first_owner C cmd key (fact_events key s) st a)"
  unfolding confirm_first_owner_def
proof (intro lawful_let lawful_append assms(1), goal_cases)
  case (1 actor e)
  then show ?case
    using assms(3-) by (intro legal_nextI [OF assms(2)]) (erule (1) foldable | erule foldable_end | simp add: legal_in_def dget_def)+
next
  case (2 actor e)
  show ?case
    by (intro overlay.keeps_rules keeps_calm calm_overlay)
qed

lemma status_in_mono: "status_in st xs \<Longrightarrow> set xs \<subseteq> set ys \<Longrightarrow> status_in st ys"
  by (auto simp: status_in_def split: option.splits)

lemma lawful_second_owner:
  assumes "wf_store (core C) s" "fold_overlay_state (fact_events key s) = Inr st" "actor_kind (cm_actor cmd) = ''human''"
    "status_in st AWAITING_CONFIRMATION" "proposer_ne_confirmer (fact_events key s) (cm_actor cmd)" "os_partial_confirmers st \<noteq> []"
    "chain (case last (os_partial_confirmers st) of JObj d \<Rightarrow> Inr d | _ \<Rightarrow> Inl TypeError) (\<lambda>d. dict_str d ''subject'') = Inr earlier"
    "subject (cm_actor cmd) \<noteq> earlier"
  shows "lawful C s (confirm_second_owner C adapter cmd key (fact_events key s) st a earlier)"
  unfolding confirm_second_owner_def
proof (intro lawful_rules lawful_append assms(1), goal_cases)
  case (1 actor v invalid gap expires_at target e)
  have "second_of_two st e"
    using assms(6-8) 1 by (auto simp: second_of_two_def chain_eq_Inr split: json.splits)
  then show ?case
    using 1 assms(3-5) status_in_mono [OF assms(4), of "''VERIFIED'' # AWAITING_CONFIRMATION"]
    by (intro legal_nextI [OF assms(2)]) (erule (1) foldable | erule foldable_end | auto simp: legal_in_def)+
next
  case (2 actor v invalid gap expires_at target e)
  show ?case
    by (intro overlay.keeps_rules keeps_calm calm_overlay)
qed

lemma lawful_confirm_join:
  assumes "wf_store (core C) s" "fold_overlay_state (fact_events key s) = Inr st" "actor_kind (cm_actor cmd) = ''human''"
    "status_in st AWAITING_CONFIRMATION"
  shows "lawful C s (confirm_approved_join C adapter cmd key (fact_events key s) st a)"
  unfolding confirm_approved_join_def
  by (intro lawful_rules lawful_first_owner [OF assms] lawful_second_owner [OF assms]) simp_all

lemma awaiting:
  assumes "within_renewal_grace C st now = Inr renewing" "\<not> (\<not> status_in st AWAITING_CONFIRMATION \<and> \<not> renewing)"
  shows "status_in st (''VERIFIED'' # AWAITING_CONFIRMATION)"
    "\<not> (renewing \<and> os_status st = Some ''VERIFIED'') \<Longrightarrow> status_in st AWAITING_CONFIRMATION"
  using assms renewing_verified [of C st now] by (cases renewing; force simp: status_in_def split: option.splits)+

lemma confirm_lawful: "hooks_quiet C \<Longrightarrow> keeps (facts_step C) (confirm_fact C cmd)"
proof (rule keeps_lawful)
  fix s
  assume h: "hooks_quiet C" and wf: "wf_store (core C) s"
  show "lawful C s (confirm_fact C cmd)"
    unfolding confirm_fact_def
    by (intro lawful_rules lawful_confirm_single lawful_confirm_join h wf) (use awaiting in \<open>(fastforce | metis)+\<close>)
qed

subsection \<open>Rejecting\<close>

lemma keeps_demote:
  assumes "hooks_quiet C"
  shows "keeps (facts_step C) (demote_projected_join_edges C key st)"
    "keeps (facts_step C) (demote_projected_semantic_binding C key fact_type st)"
    "keeps (facts_step C) (demote_projected_bridge_edges C key)"
  unfolding demote_projected_join_edges_def demote_projected_semantic_binding_def demote_projected_bridge_edges_def
  using assms by (simp_all add: keeps_fail_soft)

lemma keeps_after_reject: "hooks_quiet C \<Longrightarrow> keeps (facts_step C) (after_reject C key fact_type)"
  unfolding after_reject_def by (intro overlay.keeps_rules keeps_demote keeps_hook)

lemma reject_lawful: "hooks_quiet C \<Longrightarrow> keeps (facts_step C) (reject_fact C cmd)"
proof (rule keeps_lawful)
  fix s
  assume h: "hooks_quiet C" and wf: "wf_store (core C) s"
  show "lawful C s (reject_fact C cmd)"
    unfolding reject_fact_def
    by (intro lawful_rules lawful_append overlay.keeps_rules keeps_after_reject keeps_calm calm_overlay h wf)
      (erule legal_nextI, erule foldable_end, simp add: legal_in_def)
qed

subsection \<open>Direct entry\<close>

text \<open>The confirmation that follows the proposal of the same command.\<close>

lemma proposal_fields:
  "dget (proposal_payload ref fact_type use_case v fp ev actor) ''proposed_by'' = JStr (subject actor)"
  "dget (proposal_payload ref fact_type use_case v fp ev actor) ''fact_type'' = JStr fact_type"
  "dget (proposal_payload ref fact_type use_case v fp ev actor) ''proposed_value'' = v"
  "dget (proposal_payload ref fact_type use_case v fp ev actor) ''use_case'' = ostr use_case"
  "dget (proposal_payload ref fact_type use_case v fp ev actor) ''proposal_fingerprint'' = JStr fp"
  by (simp_all add: proposal_payload_def dget_def)

lemma fold_draft:
  assumes "ev_type p = ''OVERLAY_FACT_PROPOSED''" "ev_payload p = proposal_payload ref fact_type use_case v fp ev actor"
  obtains st where "fold_overlay_state [p] = Inr st" "os_status st = Some ''DRAFT''"
proof -
  have "\<exists>st. fold_overlay_state [p] = Inr st \<and> os_status st = Some ''DRAFT''"
    by (simp add: fold_overlay_state_def fold_event_def assms initial_state_def proposal_payload_def dict_item_def chain_def)
  then show ?thesis using that by blast
qed

lemma self_confirm_legal:
  assumes p: "ev_type p = ''OVERLAY_FACT_PROPOSED''" "ev_payload p = proposal_payload ref fact_type use_case v fp ev actor"
    and a: "actor_kind actor = ''human''" "fact_type \<notin> set SEMANTIC_TYPES"
    and e: "ev_type e = ''OVERLAY_FACT_CONFIRMED''" "ev_payload e = confirmed_payload w cs t target" "ev_actor e = actor"
      "checked C [p] ''OVERLAY_FACT_CONFIRMED'' (confirmed_payload w cs t target) = Inr ()"
  shows "legal_next C [p] e"
proof -
  obtain st where st: "fold_overlay_state [p] = Inr st" "os_status st = Some ''DRAFT''"
    using fold_draft [OF p] by blast
  have "self_entered [p] e"
    using a(2) by (auto simp: self_entered_def is_proposed_def p e proposal_fields)
  then show ?thesis
    using e a st by (intro legal_nextI [OF st(1)]) (erule (1) foldable | erule foldable_end | simp add: legal_in_def status_in_def AWAITING_CONFIRMATION_def)+
qed

text \<open>An append followed by steps that rely on the event it wrote.\<close>

lemma lawful_append_then:
  assumes wf: "wf_store (core C) s"
    and legal: "\<And>e. ev_type e = typ \<Longrightarrow> ev_payload e = payload \<Longrightarrow> ev_actor e = actor \<Longrightarrow>
      checked C (fact_events key s) typ payload = Inr () \<Longrightarrow> legal_next C (fact_events key s) e"
    and rest: "\<And>e s'. ev_type e = typ \<Longrightarrow> ev_payload e = payload \<Longrightarrow> ev_actor e = actor \<Longrightarrow> wf_store (core C) s' \<Longrightarrow>
      fact_events key s' = fact_events key s @ [e] \<Longrightarrow> lawful C s' (f e)"
  shows "lawful C s (andthen (append_overlay_event C key typ payload actor v c) f)"
proof (rule overlay.step_andthen)
  show "lawful C s (append_overlay_event C key typ payload actor v c)"
    by (rule append_extends [OF wf legal])
  show "lawful C s' (f e)" if "append_overlay_event C key typ payload actor v c s = (Inr e, s')" for e s'
    using append_overlay_Inr [OF wf that] wf by (intro rest) (simp_all add: store_step_def)
qed

lemma enter_lawful: "keeps (facts_step C) (enter_fact C cmd)"
proof (rule keeps_lawful)
  fix s
  assume wf: "wf_store (core C) s"
  show "lawful C s (enter_fact C cmd)"
    unfolding enter_fact_def
  proof (intro lawful_rules lawful_append_then wf, goal_cases)
    case 1
    have "os_status initial_state = None"
      by (simp add: initial_state_def)
    with 1 show ?case by (intro legal_nextI [of _ initial_state]) (erule (1) foldable | erule foldable_end | simp add: fold_Nil legal_in_def proposal_fields)+
  next
    case 2
    then show ?case by simp
  next
    case (3 _ _ _ _ _ _ _ _ _ _ _ _ _ p)
    then show ?case
      using self_confirm_legal [of p] by simp
  next
    case 4
    then show ?case
      by (intro lawful_keeps overlay.keeps_rules keeps_calm calm_overlay)
  qed
qed

subsection \<open>Expiry, renewal and drift\<close>

lemma keeps_open_reverify: "keeps (facts_step C) (open_reverify_task C key target a actor)"
  unfolding open_reverify_task_def by (intro keeps_calm calm_overlay)

lemma keeps_after_leaving: "hooks_quiet C \<Longrightarrow> keeps (facts_step C) (after_leaving C key fact_type status)"
  unfolding after_leaving_def by (intro overlay.keeps_rules keeps_demote keeps_hook)

lemma lawful_attempt_append:
  assumes "wf_store (core C) s"
    and "\<And>e. ev_type e = typ \<Longrightarrow> checked C (fact_events key s) typ payload = Inr () \<Longrightarrow> ev_payload e = payload
      \<Longrightarrow> legal_next C (fact_events key s) e"
    and "\<And>r. keeps (facts_step C) (f r)"
  shows "lawful C s (andthen (attempt (append_overlay_event C key typ payload actor v c)) f)"
proof (rule overlay.step_andthen)
  have "lawful C s (append_overlay_event C key typ payload actor v c)"
    by (rule append_extends [OF assms(1)]) (rule assms(2))
  then show "lawful C s (attempt (append_overlay_event C key typ payload actor v c))"
    by (cases "append_overlay_event C key typ payload actor v c s") (simp add: attempt_def)
qed (use assms(3) in \<open>simp add: keeps_def\<close>)

lemma expiry_lawful: "hooks_quiet C \<Longrightarrow> keeps (facts_step C) (apply_expiry C adapter actor key cid)"
proof (rule keeps_lawful)
  fix s
  assume h: "hooks_quiet C" and wf: "wf_store (core C) s"
  show "lawful C s (apply_expiry C adapter actor key cid)"
    unfolding apply_expiry_def
  proof (intro lawful_rules lawful_attempt_append wf, goal_cases)
    case 1
    then show ?case by (intro legal_nextI) (erule (1) foldable | erule foldable_end | auto simp: legal_in_def expiry_target_current_def)+
  next
    case 2
    show ?case
      by (intro overlay.keeps_rules keeps_after_leaving keeps_open_reverify h)
  qed
qed

lemma stale_lawful: "hooks_quiet C \<Longrightarrow> keeps (facts_step C) (stale_one C adapter actor open_reverify change key)"
proof (rule keeps_lawful)
  fix s
  assume h: "hooks_quiet C" and wf: "wf_store (core C) s"
  show "lawful C s (stale_one C adapter actor open_reverify change key)"
    unfolding stale_one_def
  proof (intro lawful_rules lawful_append wf, goal_cases)
    case 1
    then show ?case by (intro legal_nextI) (erule (1) foldable | erule foldable_end | auto simp: legal_in_def)+
  next
    case 2
    show ?case
      by (intro overlay.keeps_rules keeps_after_leaving keeps_open_reverify keeps_hook h)
  qed
qed

lemma keeps_load_fact: "keeps (facts_step C) (load_fact C key)"
  by (simp add: keeps_def load_stream_state overlay.rel_refl)

lemma pollers_lawful:
  assumes "hooks_quiet C"
  shows "keeps (facts_step C) (fire_due_overlay_expiries C now)" "keeps (facts_step C) (fire_due_overlay_renewals C now)"
    "keeps (facts_step C) (detect_catalog_changes C adapter actor at open_reverify)"
  unfolding fire_due_overlay_expiries_def fire_expiry_def fire_due_overlay_renewals_def renew_one_def
    detect_catalog_changes_def stale_dependents_def
  by (intro overlay.keeps_rules expiry_lawful stale_lawful keeps_open_reverify keeps_load_fact keeps_calm [OF calm_overlay(7)]
      keeps_calm [OF calm_overlay(8)] keeps_calm [OF calm_overlay(9)] assms; fail)+

end
