(* ===== verification/Overlay_Guarantees.thy ===== *)
theory Overlay_Guarantees
  imports Overlay_Refinement
begin

text \<open>
  What holds of every fact after any run of the overlay's operations: its values fit its type, it is
  confirmed by a human other than its proposer, a rejected proposal stays rejected, a fact that is not
  verified has no current value, and a refused command changes no stream.
\<close>

subsection \<open>Legal streams\<close>

text \<open>Every event of the stream was legal after the events before it.\<close>

definition legal_stream :: "overlay_env \<Rightarrow> EventEnvelope list \<Rightarrow> bool" where
  "legal_stream C xs \<longleftrightarrow> (\<forall>pre e post. xs = pre @ e # post \<longrightarrow> legal_next C pre e)"

lemma legal_stream_snoc: "legal_stream C xs \<Longrightarrow> legal_next C xs e \<Longrightarrow> legal_stream C (xs @ [e])"
  unfolding legal_stream_def by (metis append_butlast_last_id butlast.simps(2) butlast_append butlast_snoc last.simps last_appendR
      list.distinct(1) self_append_conv)

lemma legal_streamD: "legal_stream C (xs @ e # ys) \<Longrightarrow> legal_next C xs e"
  by (auto simp: legal_stream_def)

lemma legal_stream_prefix: "legal_stream C (xs @ ys) \<Longrightarrow> legal_stream C xs"
  by (auto simp: legal_stream_def)

lemma legal_stream_Nil: "legal_stream C []"
  by (simp add: legal_stream_def)

lemma grows_legal:
  assumes "grows C xs ys" "legal_stream C xs"
  shows "legal_stream C ys"
  using assms(1) unfolding grows_def
  by (induction rule: rtranclp_induct) (auto simp: assms(2) grows1_def intro: legal_stream_snoc)

lemma legal_in_cases:
  assumes "legal_in C xs st e"
  obtains (proposed) t where "ev_type e = ''OVERLAY_FACT_PROPOSED''" "dget (ev_payload e) ''fact_type'' = JStr t"
      "os_status st \<in> {None, Some ''REJECTED''}"
  | (partially) "ev_type e = ''OVERLAY_FACT_PARTIALLY_CONFIRMED''" "status_in st AWAITING_CONFIRMATION"
  | (confirmed) "ev_type e = ''OVERLAY_FACT_CONFIRMED''" "status_in st (''VERIFIED'' # AWAITING_CONFIRMATION)"
  | (rejected) "ev_type e = ''OVERLAY_FACT_REJECTED''" "status_in st AWAITING_CONFIRMATION"
  | (lapsed) "ev_type e \<in> {''OVERLAY_FACT_EXPIRED'', ''OVERLAY_FACT_STALED''}" "os_status st = Some ''VERIFIED''"
  using assms unfolding legal_in_def by (auto elim: is_textE split: if_splits)

lemma legal_foldE:
  assumes "legal_stream C (xs @ e # ys)"
  obtains st where "fold_overlay_state xs = Inr st" "legal_in C xs st e"
  using legal_streamD [OF assms] by (auto simp: legal_next_def split: sum.splits)

text \<open>The state of a legal stream is read off its last event.\<close>

lemma legal_last:
  assumes "legal_stream C (xs @ [e])" "fold_overlay_state (xs @ [e]) = Inr st"
  shows "os_status st = Some (if ev_type e = ''OVERLAY_FACT_PROPOSED'' then ''DRAFT''
      else if ev_type e = ''OVERLAY_FACT_PARTIALLY_CONFIRMED'' then ''PARTIALLY_CONFIRMED''
      else if ev_type e = ''OVERLAY_FACT_CONFIRMED'' then ''VERIFIED''
      else if ev_type e = ''OVERLAY_FACT_REJECTED'' then ''REJECTED''
      else if ev_type e = ''OVERLAY_FACT_EXPIRED'' then ''REVERIFY'' else ''STALE'')"
proof -
  obtain st0 where st0: "fold_overlay_state xs = Inr st0" "legal_in C xs st0 e"
    using legal_foldE [of C xs e "[]"] assms(1) by blast
  have step: "fold_event st0 e = Inr st"
    using assms(2) st0(1) by (simp add: fold_snoc)
  show ?thesis
    using st0(2)
    by (rule legal_in_cases) (use step in \<open>auto simp: fold_event_def Let_def chain_eq_Inr split: prod.splits if_splits\<close>)
qed

lemma legal_status_None: "legal_stream C xs \<Longrightarrow> fold_overlay_state xs = Inr st \<Longrightarrow> os_status st = None \<Longrightarrow> xs = []"
  using legal_last [of C "butlast xs" "last xs" st] by (cases "xs = []") auto

lemma current_is_confirmed:
  assumes "legal_stream C xs" "fold_overlay_state xs = Inr st" "os_status st = Some ''VERIFIED''"
  shows "\<exists>e \<in> set xs. ev_type e = ''OVERLAY_FACT_CONFIRMED''"
proof -
  have "xs \<noteq> []"
    using assms(2,3) by (auto simp: fold_Nil initial_state_def)
  moreover from this have "ev_type (last xs) = ''OVERLAY_FACT_CONFIRMED''"
    using legal_last [of C "butlast xs" "last xs" st] assms by (auto split: if_splits)
  ultimately show ?thesis
    using last_in_set by blast
qed

text \<open>A stream starts with a proposal.\<close>

lemma legal_first:
  assumes "legal_stream C (e # xs)"
  shows "is_proposed e" "\<exists>t. dget (ev_payload e) ''fact_type'' = JStr t"
proof -
  obtain st where st: "fold_overlay_state [] = Inr st" "legal_in C [] st e"
    using legal_foldE [of C "[]" e xs] assms by auto
  have "os_status st = None"
    using st(1) by (auto simp: fold_Nil initial_state_def)
  with st(2) show "is_proposed e" "\<exists>t. dget (ev_payload e) ''fact_type'' = JStr t"
    by (auto elim!: legal_in_cases simp: is_proposed_def status_in_def)
qed

lemma current_value_verified:
  assumes "legal_stream C xs" "fold_overlay_state xs = Inr st" "os_status st \<noteq> Some ''VERIFIED''"
  shows "os_value st = JNull"
  using assms
proof (induction xs arbitrary: st rule: rev_induct)
  case Nil
  then show ?case by (auto simp: fold_Nil initial_state_def)
next
  case (snoc e xs)
  obtain st0 where st0: "fold_overlay_state xs = Inr st0" "legal_in C xs st0 e"
    using legal_foldE [of C xs e "[]"] snoc.prems(1) by blast
  have step: "fold_event st0 e = Inr st"
    using snoc.prems(2) st0(1) by (simp add: fold_snoc)
  note IH = snoc.IH [OF legal_stream_prefix [OF snoc.prems(1)] st0(1)]
  show ?case
    using st0(2)
  proof (cases rule: legal_in_cases)
    case partially
    then have "os_value st0 = JNull"
      by (intro IH) (auto simp: status_in_def AWAITING_CONFIRMATION_def)
    then show ?thesis using partially step by (auto simp: fold_event_def Let_def chain_eq_Inr)
  qed (use step snoc.prems(3) in \<open>auto simp: fold_event_def Let_def chain_eq_Inr split: prod.splits\<close>)
qed

text \<open>The first proposal fixes the fact's type.\<close>

lemma find_proposed:
  assumes "legal_stream C xs" "xs \<noteq> []"
  obtains t where "find is_proposed xs = Some (hd xs)" "dget (ev_payload (hd xs)) ''fact_type'' = JStr t"
  using assms legal_first [of C "hd xs" "tl xs"] by (cases xs) auto

text \<open>An event after the first has the fact's state before it.\<close>

lemma confirmed_after:
  assumes "legal_stream C (pre @ e # post)" "ev_type e = ''OVERLAY_FACT_CONFIRMED''"
  shows "pre \<noteq> []"
proof
  assume "pre = []"
  then obtain st where "fold_overlay_state [] = Inr st" "legal_in C [] st e"
    using legal_foldE [of C "[]" e post] assms(1) by auto
  then show False
    using assms(2) by (auto simp: fold_Nil initial_state_def status_in_def elim!: legal_in_cases)
qed

lemma confirmed_fits:
  assumes "legal_stream C (pre @ e # post)" "ev_type e = ''OVERLAY_FACT_CONFIRMED''" "dget (ev_payload e) ''value'' \<noteq> JNull"
  shows "\<exists>t. dget (ev_payload (hd pre)) ''fact_type'' = JStr t
    \<and> validate_typed C (JStr t) (dget (ev_payload e) ''value'') (dget (ev_payload (hd pre)) ''use_case'') = Inr ()"
proof -
  have ne: "pre \<noteq> []"
    by (rule confirmed_after [OF assms(1,2)])
  obtain t where t: "find is_proposed pre = Some (hd pre)" "dget (ev_payload (hd pre)) ''fact_type'' = JStr t"
    using find_proposed [OF legal_stream_prefix [OF assms(1)] ne] by blast
  obtain st where "legal_in C pre st e"
    using legal_foldE [OF assms(1)] by blast
  then have "checked C pre (ev_type e) (ev_payload e) = Inr ()"
    by (simp add: legal_in_def)
  then show ?thesis
    using assms(2,3) t by (auto simp: checked_def)
qed

lemma confirmed_by_another:
  assumes "legal_stream C (pre @ e # post)" "ev_type e = ''OVERLAY_FACT_CONFIRMED''"
  shows "actor_kind (ev_actor e) = ''human'' \<and> (self_entered pre e \<or> proposer_ne_confirmer pre (ev_actor e))"
  using legal_foldE [OF assms(1)] assms(2) by (auto simp: legal_in_def)

lemma rejected_stays:
  assumes "legal_stream C (pre @ e # post)" "ev_type e = ''OVERLAY_FACT_PROPOSED''"
  shows "\<not> retired pre (dget (ev_payload e) ''proposal_fingerprint'')"
proof -
  obtain st where st: "fold_overlay_state pre = Inr st" "legal_in C pre st e"
    using legal_foldE [OF assms(1)] by blast
  show ?thesis
  proof (cases "os_status st")
    case None
    then have "pre = []"
      using legal_status_None [OF legal_stream_prefix [OF assms(1)] st(1)] by simp
    then show ?thesis by (simp add: retired_def)
  qed (use st(2) assms(2) in \<open>auto simp: legal_in_def\<close>)
qed

subsection \<open>Runs\<close>

datatype overlay_op =
    ProposeFact Command
  | ConfirmFact Command
  | RejectFact Command
  | EnterFact Command
  | FireExpiries int
  | FireRenewals int
  | ScanCatalog CatalogAdapter IdentityEnvelope "int option" bool
  | PassTime int

text \<open>The database after an operation; a result or an exception is the caller's.\<close>

primrec overlay_exec :: "overlay_env \<Rightarrow> overlay_op \<Rightarrow> db \<Rightarrow> db" where
  "overlay_exec C (ProposeFact cmd) s = snd (propose_fact C cmd s)"
| "overlay_exec C (ConfirmFact cmd) s = snd (confirm_fact C cmd s)"
| "overlay_exec C (RejectFact cmd) s = snd (reject_fact C cmd s)"
| "overlay_exec C (EnterFact cmd) s = snd (enter_fact C cmd s)"
| "overlay_exec C (FireExpiries now) s = snd (fire_due_overlay_expiries C now s)"
| "overlay_exec C (FireRenewals now) s = snd (fire_due_overlay_renewals C now s)"
| "overlay_exec C (ScanCatalog adapter actor now tasks) s = snd (detect_catalog_changes C adapter actor now tasks s)"
| "overlay_exec C (PassTime d) s = s\<lparr>clock := clock s + d\<rparr>"

definition overlay_run :: "overlay_env \<Rightarrow> overlay_op list \<Rightarrow> db \<Rightarrow> db" where
  "overlay_run C ops s = foldl (\<lambda>t op. overlay_exec C op t) s ops"

lemma exec_lawful: "hooks_quiet C \<Longrightarrow> facts_step C s (overlay_exec C op s)"
  by (cases op)
    (use propose_lawful confirm_lawful reject_lawful enter_lawful pollers_lawful in
      \<open>simp_all add: keeps_def quiet_facts_step quiet_frame\<close>)

lemma run_lawful:
  assumes "hooks_quiet C"
  shows "facts_step C s (overlay_run C ops s)"
proof -
  have "facts_step C s (foldl (\<lambda>t op. overlay_exec C op t) s ops)"
  proof (induction ops rule: rev_induct)
    case Nil
    then show ?case by (simp add: overlay.rel_refl)
  next
    case (snoc op ops)
    then show ?case by (simp add: overlay.rel_trans [OF _ exec_lawful [OF assms]])
  qed
  then show ?thesis by (simp add: overlay_run_def)
qed

lemma run_legal_from:
  assumes "hooks_quiet C" "wf_store (core C) s" "legal_stream C (fact_events key s)"
  shows "legal_stream C (fact_events key (overlay_run C ops s))"
  using run_lawful [OF assms(1), of s ops] grows_legal [OF _ assms(3)] assms(2) by (simp add: facts_step_def)

lemma fact_events_empty: "fact_events key empty_db = []"
  by (simp add: fact_events_def stream_rows_def empty_db_def)

lemma run_legal: "hooks_quiet C \<Longrightarrow> legal_stream C (fact_events key (overlay_run C ops empty_db))"
  by (rule run_legal_from) (simp_all add: wf_empty_db legal_stream_Nil fact_events_empty)

lemma run_wf: "hooks_quiet C \<Longrightarrow> wf_store (core C) (overlay_run C ops empty_db)"
  using run_lawful [of C empty_db ops] by (simp add: facts_step_def store_step_def wf_empty_db)

lemma legal_folds: "legal_stream C xs \<Longrightarrow> \<exists>st. fold_overlay_state xs = Inr st"
proof (induction xs rule: rev_induct)
  case (snoc e xs)
  then have "legal_next C xs e"
    using legal_streamD [of C xs e "[]"] by simp
  then show ?case
    by (auto simp: legal_next_def fold_snoc chain_def split: sum.splits)
qed (simp add: fold_Nil)

subsection \<open>Refusals\<close>

text \<open>A refusal says why, and writes no event; an accepting program never refuses.\<close>

definition refuses_quietly :: "CommandResult dbprog \<Rightarrow> bool" where
  "refuses_quietly m \<longleftrightarrow> (\<forall>s r s'. m s = (Inr r, s') \<longrightarrow> \<not> accepted r \<longrightarrow> calm s s' \<and> denied_reason r \<noteq> None)"

definition accepting :: "CommandResult dbprog \<Rightarrow> bool" where
  "accepting m \<longleftrightarrow> (\<forall>s r s'. m s = (Inr r, s') \<longrightarrow> accepted r)"

lemma accepting_ret: "accepting (ret (accept aid ids))"
  by (simp add: accepting_def)

lemma accepting_andthen: "(\<And>x. accepting (f x)) \<Longrightarrow> accepting (andthen m f)"
  by (auto simp: accepting_def andthen_eq_Inr)

lemma accepting_quiet: "accepting m \<Longrightarrow> refuses_quietly m"
  by (auto simp: accepting_def refuses_quietly_def)

lemma refuses_refuse: "refuses_quietly (ret (refuse aid reason))"
  by (simp add: refuses_quietly_def calm.rel_refl)

lemma refuses_throw: "refuses_quietly (throw e)"
  by (simp add: refuses_quietly_def)

lemma refuses_andthen:
  assumes "keeps calm m" "\<And>x. refuses_quietly (f x)"
  shows "refuses_quietly (andthen m f)"
  unfolding refuses_quietly_def
proof (intro allI impI)
  fix s r s'
  assume "andthen m f s = (Inr r, s')" "\<not> accepted r"
  then obtain x t where x: "m s = (Inr x, t)" "f x t = (Inr r, s')"
    by (auto simp: andthen_eq_Inr)
  with assms(2) [of x] \<open>\<not> accepted r\<close> have "calm t s'" "denied_reason r \<noteq> None"
    by (auto simp: refuses_quietly_def)
  then show "calm s s' \<and> denied_reason r \<noteq> None"
    using keepsD [OF assms(1) x(1)] calm.rel_trans by blast
qed

lemma refuses_if: "refuses_quietly m \<Longrightarrow> refuses_quietly n \<Longrightarrow> refuses_quietly (if b then m else n)"
  by simp

lemma refuses_let: "(\<And>x. refuses_quietly (f x)) \<Longrightarrow> refuses_quietly (let x = a in f x)"
  by simp

lemma refuses_option:
  "refuses_quietly m \<Longrightarrow> (\<And>x. refuses_quietly (f x)) \<Longrightarrow> refuses_quietly (case y of None \<Rightarrow> m | Some x \<Rightarrow> f x)"
  by (cases y) simp_all

lemma refuses_sum:
  "(\<And>x. refuses_quietly (f x)) \<Longrightarrow> (\<And>x. refuses_quietly (g x)) \<Longrightarrow> refuses_quietly (case y of Inl x \<Rightarrow> f x | Inr x \<Rightarrow> g x)"
  by (cases y) simp_all

lemma refuses_prod: "(\<And>a b. refuses_quietly (f a b)) \<Longrightarrow> refuses_quietly (case p of (a, b) \<Rightarrow> f a b)"
  by (cases p) simp

lemma calm_load: "keeps calm (load_fact C key)"
  by (simp add: keeps_def load_stream_state calm.rel_refl)

lemma refuses_denied: "refuses_quietly (deny_audited C cmd key reason)"
  unfolding deny_audited_def by (intro refuses_andthen refuses_refuse calm_record_denial)

lemmas refuses_rules = refuses_refuse refuses_denied refuses_throw refuses_if refuses_let refuses_option refuses_sum refuses_prod

lemmas calm_reads = calm.keeps_lift calm.keeps_query calm_load calm_overlay(4) calm_proposal_evidence

lemma accepting_submit: "refuses_quietly (submit_proposal C adapter cmd ref fact_type use_case v key fp existing evidence_ref)"
  unfolding submit_proposal_def by (intro accepting_quiet accepting_andthen accepting_ret)

lemma propose_refuses: "refuses_quietly (propose_fact C cmd)"
  unfolding propose_fact_def
  by (intro refuses_rules accepting_submit | rule refuses_andthen, rule calm_reads)+

lemma confirm_single_refuses: "refuses_quietly (confirm_single C adapter cmd ref fact_type use_case key stream st a)"
proof -
  have w: "refuses_quietly (write_confirmation C cmd ref fact_type key stream v)" for v
    unfolding write_confirmation_def by (simp only: Let_def) (intro accepting_quiet accepting_andthen accepting_ret)
  show ?thesis
    unfolding confirm_single_def by (intro refuses_rules w | rule refuses_andthen, rule calm_reads)+
qed

lemma confirm_join_refuses: "refuses_quietly (confirm_approved_join C adapter cmd key stream st a)"
proof -
  have first_owner: "refuses_quietly (confirm_first_owner C cmd key stream st a)"
    unfolding confirm_first_owner_def by (simp only: Let_def) (intro accepting_quiet accepting_andthen accepting_ret)
  have written: "refuses_quietly (andthen (append_overlay_event C key ty payload actor v c)
      (\<lambda>e. andthen (schedule_expiry C key (ev_event_id e) t) (\<lambda>_. andthen (close_fact_tasks key None) (\<lambda>_.
        ret (accept (Some key) [ev_event_id e])))))" for ty payload actor v c t
    by (intro accepting_quiet accepting_andthen accepting_ret)
  have second_owner: "refuses_quietly (confirm_second_owner C adapter cmd key stream st a earlier)" for earlier
    unfolding confirm_second_owner_def by (intro refuses_rules written | rule refuses_andthen, rule calm_reads)+
  show ?thesis
    unfolding confirm_approved_join_def
    by (intro refuses_rules first_owner second_owner | rule refuses_andthen, rule calm_reads)+
qed

lemma confirm_refuses: "refuses_quietly (confirm_fact C cmd)"
  unfolding confirm_fact_def
  by (intro refuses_rules confirm_single_refuses confirm_join_refuses | rule refuses_andthen, rule calm_reads)+

lemma decided_accepts:
  "refuses_quietly (andthen (append_overlay_event C key typ payload actor v c)
     (\<lambda>e. andthen (m e) (\<lambda>_. andthen (n e) (\<lambda>_. ret (accept (aid e) (ids e))))))"
  "refuses_quietly (andthen (append_overlay_event C key typ payload actor v c)
     (\<lambda>d. andthen (query q) (\<lambda>x. let t = h x in andthen (append_overlay_event C key typ' (payload' d t) actor v' (c' d))
       (\<lambda>e. andthen (k e t) (\<lambda>_. ret (accept (aid e) (ids' d e)))))))"
  by (simp_all only: Let_def) (intro accepting_quiet accepting_andthen accepting_ret)+

lemma reject_refuses: "refuses_quietly (reject_fact C cmd)"
  unfolding reject_fact_def
  by (intro refuses_rules decided_accepts | rule refuses_andthen, rule calm_reads)+

lemma enter_refuses: "refuses_quietly (enter_fact C cmd)"
  unfolding enter_fact_def
  by (intro refuses_rules decided_accepts | rule refuses_andthen, rule calm_reads)+

end
