(* ===== verification/Overlay_Read.thy ===== *)
theory Overlay_Read
  imports Overlay_Guarantees Projections
begin

text \<open>
  The read side of the overlay: the projection of a fact's stream to the tables \<open>overlay_fact_state\<close>,
  \<open>overlay_proposal\<close> and \<open>overlay_fact_dependency\<close> (\<open>overlay/projection.py\<close>), and the resolver that
  serves a value only when it is verified and provably fresh (\<open>overlay/resolve.py\<close>).
\<close>

subsection \<open>The projection\<close>

text \<open>\<open>_catalog_source\<close>.\<close>

definition payload_source :: "dict \<Rightarrow> exn + string" where
  "payload_source payload =
     chain (dict_at payload ''catalog_object_ref'') (\<lambda>cor.
     if has_key cor ''from_ref'' then chain (dict_at cor ''from_ref'') (\<lambda>r. dict_str r ''catalog_source'')
     else dict_str cor ''catalog_source'')"

definition drop_dependencies :: "string \<Rightarrow> unit dbprog" where
  "drop_dependencies fk = update (\<lambda>s. s\<lparr>overlay_fact_dependency := filter (\<lambda>(k, _, _). k \<noteq> fk) (overlay_fact_dependency s)\<rparr>)"

definition insert_dependency :: "string \<Rightarrow> string option \<times> string \<Rightarrow> unit dbprog" where
  "insert_dependency fk dep =
     (case dep of
        (None, _) \<Rightarrow> throw NotNullViolation
      | (Some source, object_ref) \<Rightarrow>
          update (\<lambda>s. if (fk, source, object_ref) \<in> set (overlay_fact_dependency s) then s
            else s\<lparr>overlay_fact_dependency := overlay_fact_dependency s @ [(fk, source, object_ref)]\<rparr>))"

definition refresh_dependencies :: "string \<Rightarrow> string \<Rightarrow> string \<Rightarrow> json \<Rightarrow> string option \<Rightarrow> unit dbprog" where
  "refresh_dependencies fk object_ref fact_type value source =
     andthen (drop_dependencies fk) (\<lambda>_.
     andthen (lift (case value of JObj d \<Rightarrow> fact_dependencies object_ref fact_type d source | _ \<Rightarrow> Inl TypeError)) (\<lambda>deps.
     andthen (for_each deps (insert_dependency fk)) (\<lambda>_. ret ())))"

text \<open>\<open>UPDATE ... WHERE fact_key = fk AND updated_seq < seq\<close>, which also sets \<open>updated_seq\<close>.\<close>

definition update_state :: "string \<Rightarrow> int \<Rightarrow> (fact_state_row \<Rightarrow> fact_state_row) \<Rightarrow> unit dbprog" where
  "update_state fk seq f = update (\<lambda>s. s\<lparr>overlay_fact_state :=
     map (\<lambda>r. if fs_fact_key r = fk \<and> fs_updated_seq r < seq then (f r)\<lparr>fs_updated_seq := seq\<rparr> else r) (overlay_fact_state s)\<rparr>)"

definition update_proposal :: "string \<Rightarrow> int \<Rightarrow> (proposal_row \<Rightarrow> proposal_row) \<Rightarrow> unit dbprog" where
  "update_proposal fk seq f = update (\<lambda>s. s\<lparr>overlay_proposal :=
     map (\<lambda>r. if pr_fact_key r = fk \<and> pr_updated_seq r < seq then (f r)\<lparr>pr_updated_seq := seq\<rparr> else r) (overlay_proposal s)\<rparr>)"

definition current_fact :: "string \<Rightarrow> db \<Rightarrow> fact_state_row option" where
  "current_fact fk s = find (\<lambda>r. fs_fact_key r = fk) (overlay_fact_state s)"

definition read_proposal :: "string \<Rightarrow> db \<Rightarrow> proposal_row option" where
  "read_proposal fk s = find (\<lambda>r. pr_fact_key r = fk) (overlay_proposal s)"

definition upsert_proposal :: "proposal_row \<Rightarrow> unit dbprog" where
  "upsert_proposal row = update (\<lambda>s. s\<lparr>overlay_proposal :=
     (if read_proposal (pr_fact_key row) s = None then overlay_proposal s @ [row]
      else map (\<lambda>r. if pr_fact_key r = pr_fact_key row \<and> pr_updated_seq r < pr_updated_seq row then row else r) (overlay_proposal s))\<rparr>)"

definition project_proposed :: "EventEnvelope \<Rightarrow> string \<Rightarrow> unit dbprog" where
  "project_proposed event fk =
     (let payload = ev_payload event; seq = ev_global_seq event in
      if dget payload ''fact_type'' = JStr ''entity_bridge'' then
        andthen (lift (dict_str payload ''object_ref'')) (\<lambda>object_ref.
        andthen (lift (dict_item payload ''proposed_value'')) (\<lambda>v.
        refresh_dependencies fk object_ref ''entity_bridge'' v (Some [])))
      else
        andthen (lift (dict_item payload ''proposed_value'')) (\<lambda>v.
        andthen (lift (dict_str payload ''proposal_fingerprint'')) (\<lambda>fp.
        andthen (lift (dict_str payload ''object_ref'')) (\<lambda>object_ref.
        andthen (lift (payload_source payload)) (\<lambda>source.
        andthen (lift (dict_str payload ''fact_type'')) (\<lambda>fact_type.
        andthen (lift (opt_str (dget payload ''use_case''))) (\<lambda>use_case.
        andthen (lift (opt_str (dget payload ''evidence_ref''))) (\<lambda>evidence_ref.
        andthen (upsert_proposal \<lparr>pr_fact_key = fk, pr_status = ''DRAFT'', pr_proposed_value = v, pr_proposal_fingerprint = fp,
          pr_draft_event_id = ev_event_id event, pr_target_event_id = None, pr_evidence_ref = evidence_ref,
          pr_partial_confirmers = [], pr_object_ref = object_ref, pr_catalog_source = source, pr_fact_type = fact_type,
          pr_use_case = use_case, pr_prior_value = JNull, pr_updated_seq = seq\<rparr>) (\<lambda>_.
        andthen (update_state fk seq (\<lambda>r. r\<lparr>fs_status := ''DRAFT'', fs_value := JNull, fs_prior_value := JNull, fs_expires_at := None\<rparr>)) (\<lambda>_.
        refresh_dependencies fk object_ref fact_type v (Some source)))))))))))"

text \<open>The row a confirmation inserts, from the proposal's row.\<close>

definition confirmed_row :: "proposal_row \<Rightarrow> json \<Rightarrow> json list \<Rightarrow> int \<Rightarrow> int option \<Rightarrow> string \<Rightarrow> int \<Rightarrow> fact_state_row" where
  "confirmed_row p v confirmers confirmed_at expires_at event_id seq =
     \<lparr>fs_fact_key = pr_fact_key p, fs_object_ref = pr_object_ref p, fs_catalog_source = pr_catalog_source p,
      fs_fact_type = pr_fact_type p, fs_use_case = pr_use_case p, fs_status = ''VERIFIED'', fs_value = v,
      fs_confirmers = confirmers, fs_confirmed_at = Some confirmed_at, fs_expires_at = expires_at, fs_prior_value = JNull,
      fs_confirmed_event_id = Some event_id, fs_updated_seq = seq\<rparr>"

definition upsert_confirmed :: "string \<Rightarrow> json \<Rightarrow> json list \<Rightarrow> int \<Rightarrow> int option \<Rightarrow> string \<Rightarrow> int \<Rightarrow> unit dbprog" where
  "upsert_confirmed fk v confirmers confirmed_at expires_at event_id seq = update (\<lambda>s.
     case read_proposal fk s of
       None \<Rightarrow> s
     | Some p \<Rightarrow> s\<lparr>overlay_fact_state :=
         (if current_fact fk s = None then overlay_fact_state s @ [confirmed_row p v confirmers confirmed_at expires_at event_id seq]
          else map (\<lambda>r. if fs_fact_key r = fk \<and> fs_updated_seq r < seq
             then r\<lparr>fs_status := ''VERIFIED'', fs_value := v, fs_confirmers := confirmers, fs_confirmed_at := Some confirmed_at,
               fs_expires_at := expires_at, fs_prior_value := JNull, fs_confirmed_event_id := Some event_id, fs_updated_seq := seq\<rparr>
             else r) (overlay_fact_state s))\<rparr>)"

text \<open>The \<open>timestamptz\<close> the database reads from a text.\<close>

definition opt_time :: "json \<Rightarrow> exn + int option" where
  "opt_time v = (case v of JNull \<Rightarrow> Inr None | JStr t \<Rightarrow> chain (fromisoformat t) (\<lambda>x. Inr (Some x)) | _ \<Rightarrow> Inl TypeError)"

definition project_confirmed :: "EventEnvelope \<Rightarrow> string \<Rightarrow> unit dbprog" where
  "project_confirmed event fk =
     (let payload = ev_payload event; seq = ev_global_seq event in
      andthen (lift (dict_item payload ''value'')) (\<lambda>v.
      andthen (lift (list_or_empty (dget payload ''confirmers''))) (\<lambda>confirmers.
      andthen (lift (opt_time (dget payload ''expires_at''))) (\<lambda>expires_at.
      andthen (upsert_confirmed fk v confirmers (ev_occurred_at event) expires_at (ev_event_id event) seq) (\<lambda>_.
      andthen (update_proposal fk seq (\<lambda>r. r\<lparr>pr_status := ''VERIFIED'', pr_target_event_id := Some (ev_event_id event), pr_prior_value := JNull\<rparr>)) (\<lambda>_.
      andthen (query (read_proposal fk)) (\<lambda>prop.
      case prop of
        None \<Rightarrow> ret ()
      | Some p \<Rightarrow> refresh_dependencies fk (pr_object_ref p) (pr_fact_type p) v (Some (pr_catalog_source p)))))))))"

text \<open>The proposal's row takes its prior value from the state's row, if there is one.\<close>

definition carry_prior :: "string \<Rightarrow> int \<Rightarrow> string \<Rightarrow> string \<Rightarrow> unit dbprog" where
  "carry_prior fk seq status target =
     andthen (query (current_fact fk)) (\<lambda>row.
     case row of
       None \<Rightarrow> ret ()
     | Some r \<Rightarrow> update_proposal fk seq (\<lambda>p. p\<lparr>pr_status := status, pr_prior_value := fs_prior_value r, pr_target_event_id := Some target\<rparr>))"

definition overlay_apply :: "EventEnvelope \<Rightarrow> unit dbprog" where
  "overlay_apply event =
     (if ev_aggregate event \<noteq> ''overlay_fact'' then ret ()
      else
        let seq = ev_global_seq event; fk = ev_aggregate_id event; payload = ev_payload event in
        if ev_type event = ''OVERLAY_FACT_PROPOSED'' then project_proposed event fk
        else if ev_type event = ''OVERLAY_FACT_PARTIALLY_CONFIRMED'' then
          andthen (lift (dict_item payload ''by_owner'')) (\<lambda>owner.
          andthen (lift (dict_item payload ''role'')) (\<lambda>role.
          update_proposal fk seq (\<lambda>p. p\<lparr>pr_status := ''PARTIALLY_CONFIRMED'',
            pr_partial_confirmers := pr_partial_confirmers p @ [JObj [(''subject'', owner), (''role'', role)]]\<rparr>)))
        else if ev_type event = ''OVERLAY_FACT_CONFIRMED'' then project_confirmed event fk
        else if ev_type event = ''OVERLAY_FACT_EXPIRED'' then
          andthen (update_state fk seq (\<lambda>r. r\<lparr>fs_status := ''REVERIFY'', fs_prior_value := fs_value r, fs_value := JNull, fs_expires_at := None\<rparr>)) (\<lambda>_.
          andthen (lift (dict_str payload ''expires_confirmed_event_id'')) (\<lambda>target. carry_prior fk seq ''REVERIFY'' target))
        else if ev_type event = ''OVERLAY_FACT_STALED'' then
          andthen (update_state fk seq (\<lambda>r. r\<lparr>fs_status := ''STALE'', fs_prior_value := fs_value r, fs_value := JNull\<rparr>)) (\<lambda>_.
          andthen (lift (dict_str payload ''stales_confirmed_event_id'')) (\<lambda>target. carry_prior fk seq ''STALE'' target))
        else if ev_type event = ''OVERLAY_FACT_REJECTED'' then
          andthen (update_state fk seq (\<lambda>r. r\<lparr>fs_status := ''REJECTED'', fs_value := JNull\<rparr>)) (\<lambda>_.
          update_proposal fk seq (\<lambda>p. p\<lparr>pr_status := ''REJECTED''\<rparr>))
        else ret ())"

definition overlay_reset :: "unit dbprog" where
  "overlay_reset = update (\<lambda>s. s\<lparr>overlay_fact_state := [], overlay_proposal := [], overlay_fact_dependency := []\<rparr>)"

subsection \<open>The resolver\<close>

definition REASON_BY_STATUS :: "(string \<times> string) list" where
  "REASON_BY_STATUS = [(''DRAFT'', ''draft_unconfirmed''), (''PARTIALLY_CONFIRMED'', ''partial_confirmation_pending''),
     (''REJECTED'', ''rejected''), (''REVERIFY'', ''reverification_required''), (''STALE'', ''stale_catalog_change'')]"

record ResolvedFact =
  rs_value :: json
  rs_status :: string
  rs_source :: string
  rs_catalog_object :: string
  rs_fact_type :: string
  rs_use_case :: "string option"
  rs_provenance :: "dict option"
  rs_confirmed_by :: "json list"
  rs_confirmed_at :: "int option"
  rs_expires_at :: "int option"
  rs_reason_if_missing :: "string option"
  rs_prior_value :: json

text \<open>What the constructors of a result share; a time is kept as the instant \<open>_iso\<close> writes.\<close>

definition no_value :: "string \<Rightarrow> string \<Rightarrow> string \<Rightarrow> string \<Rightarrow> string option \<Rightarrow> ResolvedFact" where
  "no_value status source obj_ref fact_type use_case =
     \<lparr>rs_value = JNull, rs_status = status, rs_source = source, rs_catalog_object = obj_ref, rs_fact_type = fact_type,
      rs_use_case = use_case, rs_provenance = None, rs_confirmed_by = [], rs_confirmed_at = None, rs_expires_at = None,
      rs_reason_if_missing = None, rs_prior_value = JNull\<rparr>"

definition source_provenance :: "fact_ref \<Rightarrow> dict" where
  "source_provenance ref = [(''catalog_source'', ostr (single_source ref))]"

definition catalog_verified :: "CatalogFact \<Rightarrow> fact_ref \<Rightarrow> string \<Rightarrow> string \<Rightarrow> string option \<Rightarrow> ResolvedFact" where
  "catalog_verified f ref obj_ref fact_type use_case =
     (no_value ''VERIFIED'' ''catalog'' obj_ref fact_type use_case)
       \<lparr>rs_value := cf_value f, rs_provenance := Some (source_provenance ref)\<rparr>"

definition catalog_invalid :: "fact_ref \<Rightarrow> string \<Rightarrow> string \<Rightarrow> string option \<Rightarrow> ResolvedFact" where
  "catalog_invalid ref obj_ref fact_type use_case =
     (no_value ''missing'' ''catalog'' obj_ref fact_type use_case)
       \<lparr>rs_provenance := Some (source_provenance ref), rs_reason_if_missing := Some ''catalog_value_invalid''\<rparr>"

definition missing_fact :: "string \<Rightarrow> string \<Rightarrow> string \<Rightarrow> string option \<Rightarrow> ResolvedFact" where
  "missing_fact reason obj_ref fact_type use_case =
     (no_value ''missing'' ''missing'' obj_ref fact_type use_case)\<lparr>rs_reason_if_missing := Some reason\<rparr>"

definition overlay_verified :: "fact_state_row \<Rightarrow> string \<Rightarrow> string \<Rightarrow> string option \<Rightarrow> exn + ResolvedFact" where
  "overlay_verified row obj_ref fact_type use_case =
     chain (map_chain (\<lambda>c. case c of JObj d \<Rightarrow> dict_item d ''subject'' | _ \<Rightarrow> Inl TypeError) (fs_confirmers row)) (\<lambda>subjects.
     Inr ((no_value ''VERIFIED'' ''overlay'' obj_ref fact_type use_case)
       \<lparr>rs_value := fs_value row, rs_provenance := Some [(''confirmed_event_id'', ostr (fs_confirmed_event_id row))],
        rs_confirmed_by := subjects, rs_confirmed_at := fs_confirmed_at row, rs_expires_at := fs_expires_at row\<rparr>))"

definition overlay_blocked ::
  "string \<Rightarrow> string \<Rightarrow> string \<Rightarrow> string \<Rightarrow> string option \<Rightarrow> json \<Rightarrow> int option \<Rightarrow> dict option \<Rightarrow> ResolvedFact" where
  "overlay_blocked status reason obj_ref fact_type use_case prior expires_at provenance =
     (no_value status ''overlay'' obj_ref fact_type use_case)
       \<lparr>rs_prior_value := prior, rs_expires_at := expires_at, rs_provenance := provenance, rs_reason_if_missing := Some reason\<rparr>"

text \<open>The distinct sources of a fact's referents, in order.\<close>

definition dependent_sources :: "string \<Rightarrow> db \<Rightarrow> string list" where
  "dependent_sources key s = sort (remdups (map (\<lambda>(_, source, _). source) (filter (\<lambda>(k, _, _). k = key) (overlay_fact_dependency s))))"

text \<open>Why a source does not attest the fact: no fresh scan of it, or a scan whose events are not projected yet.\<close>

definition source_gap :: "db \<Rightarrow> int \<Rightarrow> int \<Rightarrow> string \<Rightarrow> (string \<times> string) option" where
  "source_gap s now sla source =
     (case drift_watermark source s of
        None \<Rightarrow> Some (''drift_stale_pending_scan'', ''stale_source'')
      | Some wm \<Rightarrow>
          if now - wm > sla then Some (''drift_stale_pending_scan'', ''stale_source'')
          else case drift_head_seq source s of
            None \<Rightarrow> None
          | Some head \<Rightarrow> if head > checkpoint_seq ''overlay'' s then Some (''drift_projection_lagging'', ''lagging_source'') else None)"

definition stale_provenance :: "fact_state_row \<Rightarrow> dict" where
  "stale_provenance row = [(''confirmed_event_id'', ostr (fs_confirmed_event_id row)), (''catalog_source'', JStr (fs_catalog_source row))]"

definition drift_block :: "overlay_env \<Rightarrow> db \<Rightarrow> string \<Rightarrow> int \<Rightarrow> fact_state_row \<Rightarrow> string \<Rightarrow> string \<Rightarrow> string option \<Rightarrow> ResolvedFact option" where
  "drift_block C s key now row obj_ref fact_type use_case =
     (case current_overlay_config C of
        Inl _ \<Rightarrow> None
      | Inr c \<Rightarrow>
          let sources = dependent_sources key s; blocked = (\<lambda>reason prov.
                overlay_blocked ''REVERIFY'' reason obj_ref fact_type use_case (fs_value row) (fs_expires_at row) (Some prov))
          in if sources = [] then Some (blocked ''no_freshness_proof'' (stale_provenance row))
             else (case find (\<lambda>src. source_gap s now (drift_freshness_sla c) src \<noteq> None) sources of
               None \<Rightarrow> None
             | Some src \<Rightarrow> (case source_gap s now (drift_freshness_sla c) src of
                 None \<Rightarrow> None
               | Some (reason, field) \<Rightarrow> Some (blocked reason (stale_provenance row @ [(field, JStr src)])))))"

definition resolve_row :: "overlay_env \<Rightarrow> db \<Rightarrow> string \<Rightarrow> int \<Rightarrow> fact_state_row \<Rightarrow> string \<Rightarrow> string \<Rightarrow> string option \<Rightarrow> exn + ResolvedFact" where
  "resolve_row C s key now row obj_ref fact_type use_case =
     (if fs_status row = ''VERIFIED'' then
        if (case fs_expires_at row of None \<Rightarrow> False | Some t \<Rightarrow> t \<le> now) then
          Inr (overlay_blocked ''REVERIFY'' ''expired_pending_reverify'' obj_ref fact_type use_case (fs_value row) (fs_expires_at row)
            (Some (stale_provenance row)))
        else case drift_block C s key now row obj_ref fact_type use_case of
          Some r \<Rightarrow> Inr r
        | None \<Rightarrow> overlay_verified row obj_ref fact_type use_case
      else Inr (overlay_blocked (fs_status row)
        (case map_of REASON_BY_STATUS (fs_status row) of None \<Rightarrow> ''no_confirmed_fact'' | Some r \<Rightarrow> r) obj_ref fact_type use_case
        (if fs_status row \<in> {''REVERIFY'', ''STALE''} then fs_prior_value row else JNull) None None))"

text \<open>A catalog speaks of objects only: for a bridge \<open>get_fact\<close> has no answer and raises.\<close>

definition authoritative_fact :: "CatalogAdapter \<Rightarrow> fact_ref \<Rightarrow> string \<Rightarrow> string option \<Rightarrow> exn + CatalogFact option" where
  "authoritative_fact a ref fact_type use_case =
     (if fact_type = ''approved_join'' then Inr None
      else case ref of
        ObjectRef r \<Rightarrow> Inr (case get_fact a r fact_type use_case of None \<Rightarrow> None | Some f \<Rightarrow> if cf_authoritative f then Some f else None)
      | _ \<Rightarrow> Inl TypeError)"

definition resolve_fact :: "overlay_env \<Rightarrow> CatalogAdapter \<Rightarrow> fact_ref \<Rightarrow> string \<Rightarrow> string option \<Rightarrow> int option \<Rightarrow> ResolvedFact dbprog" where
  "resolve_fact C a ref fact_type use_case at =
     andthen (query clock) (\<lambda>t.
     (let now = (case at of None \<Rightarrow> t | Some n \<Rightarrow> n); key = fact_key (core C) ref fact_type use_case; obj_ref = display_object_ref ref in
     andthen (lift (authoritative_fact a ref fact_type use_case)) (\<lambda>found.
     case found of
       Some f \<Rightarrow>
         (case validate_fact_value C fact_type (cf_value f) use_case of
            Inl _ \<Rightarrow> ret (catalog_invalid ref obj_ref fact_type use_case)
          | Inr _ \<Rightarrow> ret (catalog_verified f ref obj_ref fact_type use_case))
     | None \<Rightarrow>
     andthen (query (current_fact key)) (\<lambda>row.
     case row of
       None \<Rightarrow>
         andthen (query (read_proposal key)) (\<lambda>prop.
         case prop of
           None \<Rightarrow> ret (missing_fact ''no_confirmed_fact'' obj_ref fact_type use_case)
         | Some p \<Rightarrow>
             (case map_of REASON_BY_STATUS (pr_status p) of
                None \<Rightarrow> ret (missing_fact ''no_confirmed_fact'' obj_ref fact_type use_case)
              | Some reason \<Rightarrow> ret (overlay_blocked (pr_status p) reason obj_ref fact_type use_case JNull None None)))
     | Some r \<Rightarrow>
         andthen (query id) (\<lambda>s. lift (resolve_row C s key now r obj_ref fact_type use_case))))))"

subsection \<open>What is served\<close>

text \<open>
  The fact has referents, and every catalog they are in has been scanned within the limit of the
  configuration \<open>c\<close>, and what the scan wrote is projected.
\<close>

definition proven_fresh :: "OverlayConfig \<Rightarrow> db \<Rightarrow> string \<Rightarrow> int \<Rightarrow> bool" where
  "proven_fresh c s key now \<longleftrightarrow>
     dependent_sources key s \<noteq> []
     \<and> (\<forall>src \<in> set (dependent_sources key s). \<exists>wm. drift_watermark src s = Some wm \<and> now - wm \<le> drift_freshness_sla c
          \<and> (\<forall>head. drift_head_seq src s = Some head \<longrightarrow> head \<le> checkpoint_seq ''overlay'' s))"

lemma no_gap:
  "source_gap s now sla src = None \<Longrightarrow>
     \<exists>wm. drift_watermark src s = Some wm \<and> now - wm \<le> sla
       \<and> (\<forall>head. drift_head_seq src s = Some head \<longrightarrow> head \<le> checkpoint_seq ''overlay'' s)"
  by (auto simp: source_gap_def split: option.splits if_splits)

lemma not_blocked:
  assumes b: "drift_block C s key now row obj_ref fact_type use_case = None" and c: "overlay_config C = Some c"
  shows "proven_fresh c s key now"
proof -
  have cfg: "current_overlay_config C = Inr c"
    by (simp add: current_overlay_config_def c)
  have ne: "dependent_sources key s \<noteq> []"
    using b by (auto simp: drift_block_def cfg Let_def)
  have "find (\<lambda>src. source_gap s now (drift_freshness_sla c) src \<noteq> None) (dependent_sources key s) = None"
  proof (rule ccontr)
    assume "find (\<lambda>src. source_gap s now (drift_freshness_sla c) src \<noteq> None) (dependent_sources key s) \<noteq> None"
    then obtain src where f: "find (\<lambda>src. source_gap s now (drift_freshness_sla c) src \<noteq> None) (dependent_sources key s) = Some src"
      by blast
    then obtain reason field where "source_gap s now (drift_freshness_sla c) src = Some (reason, field)"
      by (auto simp: find_Some_iff)
    then show False
      using b ne f by (simp add: drift_block_def cfg Let_def)
  qed
  then have "source_gap s now (drift_freshness_sla c) src = None" if "src \<in> set (dependent_sources key s)" for src
    using that unfolding find_None_iff by blast
  then show ?thesis
    using ne no_gap unfolding proven_fresh_def by blast
qed

lemma resolve_fact_eq:
  "resolve_fact C a ref fact_type use_case at s =
     (let now = (case at of None \<Rightarrow> clock s | Some n \<Rightarrow> n); key = fact_key (core C) ref fact_type use_case; obj_ref = display_object_ref ref
      in case authoritative_fact a ref fact_type use_case of
           Inl e \<Rightarrow> (Inl e, s)
         | Inr (Some f) \<Rightarrow>
             (Inr (case validate_fact_value C fact_type (cf_value f) use_case of
                Inl _ \<Rightarrow> catalog_invalid ref obj_ref fact_type use_case
              | Inr _ \<Rightarrow> catalog_verified f ref obj_ref fact_type use_case), s)
         | Inr None \<Rightarrow>
             (case current_fact key s of
                None \<Rightarrow>
                  (Inr (case read_proposal key s of
                     None \<Rightarrow> missing_fact ''no_confirmed_fact'' obj_ref fact_type use_case
                   | Some p \<Rightarrow> (case map_of REASON_BY_STATUS (pr_status p) of
                       None \<Rightarrow> missing_fact ''no_confirmed_fact'' obj_ref fact_type use_case
                     | Some reason \<Rightarrow> overlay_blocked (pr_status p) reason obj_ref fact_type use_case JNull None None)), s)
              | Some row \<Rightarrow> (resolve_row C s key now row obj_ref fact_type use_case, s)))"
  by (simp add: resolve_fact_def andthen_def lift_def query_def ret_def Let_def split: sum.split option.split)

lemma blocked_no_value:
  "rs_value (catalog_invalid ref obj_ref fact_type use_case) = JNull" "rs_value (missing_fact reason obj_ref fact_type use_case) = JNull"
  "rs_value (overlay_blocked status reason obj_ref fact_type use_case prior t prov) = JNull"
  by (simp_all add: catalog_invalid_def missing_fact_def overlay_blocked_def no_value_def)

lemma drift_block_value: "drift_block C s key now row obj_ref fact_type use_case = Some r \<Longrightarrow> rs_value r = JNull"
  by (auto simp: drift_block_def Let_def blocked_no_value split: sum.splits if_splits option.splits)

lemma resolve_row_value:
  assumes "resolve_row C s key now row obj_ref fact_type use_case = Inr rf" "rs_value rf \<noteq> JNull"
  shows "fs_status row = ''VERIFIED''" "\<forall>t. fs_expires_at row = Some t \<longrightarrow> now < t" "\<forall>c. overlay_config C = Some c \<longrightarrow> proven_fresh c s key now"
    "overlay_verified row obj_ref fact_type use_case = Inr rf"
proof -
  show v: "fs_status row = ''VERIFIED''"
    using assms by (auto simp: resolve_row_def blocked_no_value split: if_splits)
  show e: "\<forall>t. fs_expires_at row = Some t \<longrightarrow> now < t"
    using assms v by (auto simp: resolve_row_def blocked_no_value split: if_splits)
  have x: "(case fs_expires_at row of None \<Rightarrow> False | Some t \<Rightarrow> t \<le> now) = False"
    using e by (auto split: option.split)
  have d: "drift_block C s key now row obj_ref fact_type use_case = None"
    using assms v x drift_block_value by (fastforce simp: resolve_row_def split: option.splits)
  then show "\<forall>c. overlay_config C = Some c \<longrightarrow> proven_fresh c s key now"
    by (blast intro: not_blocked)
  show "overlay_verified row obj_ref fact_type use_case = Inr rf"
    using assms(1) v x d by (simp add: resolve_row_def)
qed

lemma resolved_overlay_row:
  assumes "resolve_fact C a ref fact_type use_case at s = (Inr rf, s')" "rs_value rf \<noteq> JNull" "rs_source rf = ''overlay''"
  shows "\<exists>row. current_fact (fact_key (core C) ref fact_type use_case) s = Some row \<and> fs_status row = ''VERIFIED'' \<and> rs_value rf = fs_value row"
proof -
  let ?k = "fact_key (core C) ref fact_type use_case"
  obtain row now where row: "current_fact ?k s = Some row" and r: "resolve_row C s ?k now row (display_object_ref ref) fact_type use_case = Inr rf"
    using assms by (auto simp: resolve_fact_eq Let_def blocked_no_value catalog_verified_def no_value_def split: sum.splits option.splits)
  have "rs_value rf = fs_value row"
    using resolve_row_value(4) [OF r assms(2)] by (auto simp: overlay_verified_def chain_eq_Inr no_value_def)
  then show ?thesis
    using row resolve_row_value(1) [OF r assms(2)] by blast
qed

text \<open>
  C8: only a verified, unexpired value is served, and under a sealed configuration only a provably fresh
  one.  Whenever the resolver returns a value, the fact is verified, and either the catalog is authoritative
  for it and the value passes the check of its type, or the read model holds it verified and not yet expired.
  In the second case, if an overlay configuration is sealed, the fact has referents, every catalog they are
  in was scanned within the configuration's limit, and the events of that scan are projected; without a
  configuration the code switches this guard off, and nothing is said of freshness.  Reading writes nothing.
\<close>

theorem served_values_are_fresh:
  assumes "resolve_fact C a ref fact_type use_case at s = (Inr rf, s')" "rs_value rf \<noteq> JNull"
    "now = (case at of None \<Rightarrow> clock s | Some n \<Rightarrow> n)" "key = fact_key (core C) ref fact_type use_case"
  shows "s' = s \<and> rs_status rf = ''VERIFIED''
    \<and> ((\<exists>f. rs_source rf = ''catalog'' \<and> authoritative_fact a ref fact_type use_case = Inr (Some f) \<and> rs_value rf = cf_value f
          \<and> validate_fact_value C fact_type (cf_value f) use_case = Inr ())
       \<or> (\<exists>row. rs_source rf = ''overlay'' \<and> current_fact key s = Some row \<and> fs_status row = ''VERIFIED'' \<and> rs_value rf = fs_value row
          \<and> (\<forall>t. fs_expires_at row = Some t \<longrightarrow> now < t)
          \<and> (\<forall>c. overlay_config C = Some c \<longrightarrow> proven_fresh c s key now)))"
proof -
  obtain found where found: "authoritative_fact a ref fact_type use_case = Inr found"
    using assms(1) by (auto simp: resolve_fact_eq Let_def split: sum.splits)
  show ?thesis
  proof (cases found)
    case (Some f)
    then have "rf = catalog_verified f ref (display_object_ref ref) fact_type use_case" "s' = s"
      "validate_fact_value C fact_type (cf_value f) use_case = Inr ()"
      using assms(1,2) found by (auto simp: resolve_fact_eq Let_def blocked_no_value split: sum.splits)
    then show ?thesis
      using found Some by (auto simp: catalog_verified_def no_value_def)
  next
    case None
    show ?thesis
    proof (cases "current_fact key s")
      case None
      then have False
        using assms(1,2,4) found \<open>found = None\<close> by (auto simp: resolve_fact_eq Let_def blocked_no_value split: option.splits)
      then show ?thesis ..
    next
      case (Some row)
      then have r: "resolve_row C s key now row (display_object_ref ref) fact_type use_case = Inr rf" and "s' = s"
        using assms(1,3,4) found None by (auto simp: resolve_fact_eq Let_def)
      moreover have "rs_status rf = ''VERIFIED'' \<and> rs_source rf = ''overlay'' \<and> rs_value rf = fs_value row"
        using resolve_row_value(4) [OF r assms(2)] by (auto simp: overlay_verified_def chain_eq_Inr no_value_def)
      ultimately show ?thesis
        using Some resolve_row_value(1-3) [OF r assms(2)] by simp
    qed
  qed
qed

end
