(* ===== verification/Overlay_Mirror.thy ===== *)
theory Overlay_Mirror
  imports Overlay_Read
begin

text \<open>
  The read model mirrors the streams: projecting the events of the log in order leaves, for each fact, the
  status and the values its stream folds to, so that a row says \<open>VERIFIED\<close> exactly when the fold does.
\<close>

subsection \<open>Rows of a fact\<close>

lemma find_update:
  assumes "\<And>x. P x \<Longrightarrow> P (g x)"
  shows "find P (map (\<lambda>r. if P r \<and> Q r then g r else r) xs) = map_option (\<lambda>r. if Q r then g r else r) (find P xs)"
  by (induction xs) (auto simp: assms)

lemma find_update_other:
  assumes "\<And>x. Q x \<Longrightarrow> \<not> P x \<and> \<not> P (g x)"
  shows "find P (map (\<lambda>r. if Q r then g r else r) xs) = find P xs"
  by (induction xs) (auto dest: assms)

lemma find_end: "find P (xs @ [y]) = (case find P xs of None \<Rightarrow> if P y then Some y else None | Some x \<Rightarrow> Some x)"
  by (induction xs) auto

text \<open>Steps that change neither of the two tables.\<close>

definition same_rows :: "db \<Rightarrow> db \<Rightarrow> bool" where
  "same_rows s s' \<longleftrightarrow> overlay_fact_state s' = overlay_fact_state s \<and> overlay_proposal s' = overlay_proposal s"

interpretation rows: state_rel same_rows
  by unfold_locales (auto simp: same_rows_def)

lemma refresh_rows: "keeps same_rows (refresh_dependencies fk object_ref fact_type v source)"
  unfolding refresh_dependencies_def drop_dependencies_def insert_dependency_def
  by (intro rows.keeps_rules rows.keeps_update) (auto simp: same_rows_def split: prod.split option.split)

lemma refresh_unit: "refresh_dependencies fk object_ref fact_type v source s = (Inr x, s') \<Longrightarrow> same_rows s s'"
  by (rule keepsD [OF refresh_rows])

lemma same_rows_lookup: "same_rows s s' \<Longrightarrow> current_fact k s' = current_fact k s \<and> read_proposal k s' = read_proposal k s"
  by (simp add: same_rows_def current_fact_def read_proposal_def)

lemma update_state_lookup:
  assumes "update_state fk seq f s = (Inr x, s')" "\<And>r. fs_fact_key (f r) = fs_fact_key r"
  shows "current_fact fk s' = map_option (\<lambda>r. if fs_updated_seq r < seq then (f r)\<lparr>fs_updated_seq := seq\<rparr> else r) (current_fact fk s)"
    "k \<noteq> fk \<Longrightarrow> current_fact k s' = current_fact k s" "read_proposal k s' = read_proposal k s"
  using assms(1) find_update [of "\<lambda>r. fs_fact_key r = fk" "\<lambda>r. (f r)\<lparr>fs_updated_seq := seq\<rparr>" "\<lambda>r. fs_updated_seq r < seq" "overlay_fact_state s"]
    find_update_other [of "\<lambda>r. fs_fact_key r = fk \<and> fs_updated_seq r < seq" "\<lambda>r. fs_fact_key r = k" "\<lambda>r. (f r)\<lparr>fs_updated_seq := seq\<rparr>" "overlay_fact_state s"]
  by (auto simp: update_state_def update_def current_fact_def read_proposal_def assms(2))

lemma update_proposal_lookup:
  assumes "update_proposal fk seq f s = (Inr x, s')" "\<And>r. pr_fact_key (f r) = pr_fact_key r"
  shows "read_proposal fk s' = map_option (\<lambda>r. if pr_updated_seq r < seq then (f r)\<lparr>pr_updated_seq := seq\<rparr> else r) (read_proposal fk s)"
    "k \<noteq> fk \<Longrightarrow> read_proposal k s' = read_proposal k s" "current_fact k s' = current_fact k s"
  using assms(1) find_update [of "\<lambda>r. pr_fact_key r = fk" "\<lambda>r. (f r)\<lparr>pr_updated_seq := seq\<rparr>" "\<lambda>r. pr_updated_seq r < seq" "overlay_proposal s"]
    find_update_other [of "\<lambda>r. pr_fact_key r = fk \<and> pr_updated_seq r < seq" "\<lambda>r. pr_fact_key r = k" "\<lambda>r. (f r)\<lparr>pr_updated_seq := seq\<rparr>" "overlay_proposal s"]
  by (auto simp: update_proposal_def update_def current_fact_def read_proposal_def assms(2))

lemma upsert_proposal_lookup:
  assumes "upsert_proposal row s = (Inr x, s')"
  shows "read_proposal (pr_fact_key row) s' =
      Some (case read_proposal (pr_fact_key row) s of None \<Rightarrow> row | Some r \<Rightarrow> if pr_updated_seq r < pr_updated_seq row then row else r)"
    "k \<noteq> pr_fact_key row \<Longrightarrow> read_proposal k s' = read_proposal k s" "current_fact k s' = current_fact k s"
  using assms find_update [of "\<lambda>r. pr_fact_key r = pr_fact_key row" "\<lambda>_. row" "\<lambda>r. pr_updated_seq r < pr_updated_seq row" "overlay_proposal s"]
    find_update_other [of "\<lambda>r. pr_fact_key r = pr_fact_key row \<and> pr_updated_seq r < pr_updated_seq row" "\<lambda>r. pr_fact_key r = k" "\<lambda>_. row" "overlay_proposal s"]
  by (auto simp: upsert_proposal_def update_def current_fact_def read_proposal_def find_end split: option.splits if_splits)

lemma upsert_confirmed_lookup:
  assumes "upsert_confirmed fk v cs at expires i seq s = (Inr x, s')" "read_proposal fk s = Some p" "pr_fact_key p = fk"
  shows "\<exists>r'. current_fact fk s' = Some r' \<and>
      (case current_fact fk s of
         None \<Rightarrow> r' = confirmed_row p v cs at expires i seq
       | Some r \<Rightarrow> fs_updated_seq r < seq \<longrightarrow> fs_status r' = ''VERIFIED'' \<and> fs_value r' = v \<and> fs_prior_value r' = JNull \<and> fs_updated_seq r' = seq)"
    "k \<noteq> fk \<Longrightarrow> current_fact k s' = current_fact k s" "read_proposal k s' = read_proposal k s"
proof -
  let ?g = "\<lambda>r. r\<lparr>fs_status := ''VERIFIED'', fs_value := v, fs_confirmers := cs, fs_confirmed_at := Some at,
    fs_expires_at := expires, fs_prior_value := JNull, fs_confirmed_event_id := Some i, fs_updated_seq := seq\<rparr>"
  show "\<exists>r'. current_fact fk s' = Some r' \<and>
      (case current_fact fk s of
         None \<Rightarrow> r' = confirmed_row p v cs at expires i seq
       | Some r \<Rightarrow> fs_updated_seq r < seq \<longrightarrow> fs_status r' = ''VERIFIED'' \<and> fs_value r' = v \<and> fs_prior_value r' = JNull \<and> fs_updated_seq r' = seq)"
    using assms find_update [of "\<lambda>r. fs_fact_key r = fk" ?g "\<lambda>r. fs_updated_seq r < seq" "overlay_fact_state s"]
    by (cases "current_fact fk s")
      (auto simp: upsert_confirmed_def update_def current_fact_def read_proposal_def find_end confirmed_row_def)
  show "k \<noteq> fk \<Longrightarrow> current_fact k s' = current_fact k s" "read_proposal k s' = read_proposal k s"
    using assms find_update_other [of "\<lambda>r. fs_fact_key r = fk \<and> fs_updated_seq r < seq" "\<lambda>r. fs_fact_key r = k" ?g "overlay_fact_state s"]
    by (auto simp: upsert_confirmed_def update_def current_fact_def read_proposal_def find_end confirmed_row_def split: option.splits)
qed

lemma read_proposal_key: "read_proposal fk s = Some p \<Longrightarrow> pr_fact_key p = fk"
  by (auto simp: read_proposal_def find_Some_iff)

subsection \<open>The mirror\<close>

text \<open>What the state row says of the fold: the first half of a confirmation does not touch it.\<close>

abbreviation row_tells :: "OverlayState \<Rightarrow> fact_state_row \<Rightarrow> bool" where
  "row_tells st r \<equiv> fs_value r = os_value st \<and> fs_prior_value r = os_prior_value st
     \<and> (if os_status st = Some ''PARTIALLY_CONFIRMED'' then fs_status r \<in> {''DRAFT'', ''REVERIFY'', ''STALE''}
        else os_status st = Some (fs_status r))"

text \<open>The rows of a fact whose stream is \<open>xs\<close>, all written by events up to \<open>n\<close>.\<close>

definition mirrors :: "string \<Rightarrow> EventEnvelope list \<Rightarrow> int \<Rightarrow> db \<Rightarrow> bool" where
  "mirrors fk xs n s \<longleftrightarrow> (\<exists>st. fold_overlay_state xs = Inr st
     \<and> (case read_proposal fk s of
          None \<Rightarrow> xs = []
        | Some p \<Rightarrow> xs \<noteq> [] \<and> os_status st = Some (pr_status p) \<and> pr_updated_seq p \<le> n)
     \<and> (case current_fact fk s of
          None \<Rightarrow> \<forall>e \<in> set xs. ev_type e \<noteq> ''OVERLAY_FACT_CONFIRMED''
        | Some r \<Rightarrow> xs \<noteq> [] \<and> row_tells st r \<and> fs_updated_seq r \<le> n))"

lemma mirrors_mono: "mirrors fk xs n s \<Longrightarrow> n \<le> m \<Longrightarrow> mirrors fk xs m s"
  by (auto simp: mirrors_def split: option.splits)

lemma mirrors_same:
  "mirrors fk xs n s \<Longrightarrow> current_fact fk s' = current_fact fk s \<Longrightarrow> read_proposal fk s' = read_proposal fk s \<Longrightarrow> mirrors fk xs n s'"
  by (simp add: mirrors_def)

text \<open>An event of another fact leaves the rows of this one.\<close>

definition same_fact :: "string \<Rightarrow> db \<Rightarrow> db \<Rightarrow> bool" where
  "same_fact fk s s' \<longleftrightarrow> current_fact fk s' = current_fact fk s \<and> read_proposal fk s' = read_proposal fk s"

interpretation row_frame: state_rel "same_fact fk" for fk
  by unfold_locales (auto simp: same_fact_def)

lemma writes_succeed:
  "update_state k seq f s = (Inr (), snd (update_state k seq f s))" "update_proposal k seq g s = (Inr (), snd (update_proposal k seq g s))"
  "upsert_proposal row s = (Inr (), snd (upsert_proposal row s))"
  "upsert_confirmed k v cs at expires i seq s = (Inr (), snd (upsert_confirmed k v cs at expires i seq s))"
  by (simp_all add: update_state_def update_proposal_def upsert_proposal_def upsert_confirmed_def update_def)

lemma same_fact_steps:
  assumes "k \<noteq> fk"
  shows "(\<And>r. fs_fact_key (f r) = fs_fact_key r) \<Longrightarrow> keeps (same_fact fk) (update_state k seq f)"
    "(\<And>r. pr_fact_key (g r) = pr_fact_key r) \<Longrightarrow> keeps (same_fact fk) (update_proposal k seq g)"
    "pr_fact_key row = k \<Longrightarrow> keeps (same_fact fk) (upsert_proposal row)"
    "keeps (same_fact fk) (upsert_confirmed k v cs at expires i seq)"
proof -
  have ne: "fk \<noteq> k"
    using assms by simp
  show "keeps (same_fact fk) (update_state k seq f)" if "\<And>r. fs_fact_key (f r) = fs_fact_key r"
    by (rule keepsI) (use update_state_lookup(2,3) [OF writes_succeed(1) that] ne in \<open>simp add: same_fact_def\<close>)
  show "keeps (same_fact fk) (update_proposal k seq g)" if "\<And>r. pr_fact_key (g r) = pr_fact_key r"
    by (rule keepsI) (use update_proposal_lookup(2,3) [OF writes_succeed(2) that] ne in \<open>simp add: same_fact_def\<close>)
  show "keeps (same_fact fk) (upsert_proposal row)" if "pr_fact_key row = k"
    by (rule keepsI) (use upsert_proposal_lookup(2,3) [OF writes_succeed(3)] ne that in \<open>simp add: same_fact_def\<close>)
  show "keeps (same_fact fk) (upsert_confirmed k v cs at expires i seq)"
  proof (rule keepsI)
    fix s
    show "same_fact fk s (snd (upsert_confirmed k v cs at expires i seq s))"
    proof (cases "read_proposal k s")
      case None
      then show ?thesis by (simp add: upsert_confirmed_def update_def same_fact_def)
    next
      case (Some p)
      then show ?thesis
        using upsert_confirmed_lookup(2,3) [OF writes_succeed(4) Some read_proposal_key [OF Some]] ne by (simp add: same_fact_def)
    qed
  qed
qed

lemma same_fact_refresh: "keeps (same_fact fk) (refresh_dependencies k object_ref fact_type v source)"
  using refresh_rows [of k object_ref fact_type v source] same_rows_lookup by (simp add: keeps_def same_fact_def)

lemma apply_other:
  assumes "ev_aggregate e \<noteq> ''overlay_fact'' \<or> ev_aggregate_id e \<noteq> fk"
  shows "keeps (same_fact fk) (overlay_apply e)"
proof (cases "ev_aggregate e = ''overlay_fact''")
  case True
  then have k: "ev_aggregate_id e \<noteq> fk"
    using assms by simp
  show ?thesis
    unfolding overlay_apply_def project_proposed_def project_confirmed_def carry_prior_def Let_def
    by (intro row_frame.keeps_rules same_fact_steps [OF k] same_fact_refresh) simp_all
qed (simp add: overlay_apply_def row_frame.keeps_ret)

text \<open>The mirror of a state, given the two rows.\<close>

definition row_pair :: "OverlayState \<Rightarrow> bool \<Rightarrow> int \<Rightarrow> proposal_row option \<Rightarrow> fact_state_row option \<Rightarrow> bool" where
  "row_pair st confirmed n p r \<longleftrightarrow>
     (case p of None \<Rightarrow> False | Some p \<Rightarrow> os_status st = Some (pr_status p) \<and> pr_updated_seq p \<le> n)
     \<and> (case r of
          None \<Rightarrow> \<not> confirmed
        | Some r \<Rightarrow> row_tells st r \<and> fs_updated_seq r \<le> n)"

lemma mirrors_rows:
  "xs \<noteq> [] \<Longrightarrow> fold_overlay_state xs = Inr st \<Longrightarrow>
     mirrors fk xs n s \<longleftrightarrow> row_pair st (\<exists>e \<in> set xs. ev_type e = ''OVERLAY_FACT_CONFIRMED'') n (read_proposal fk s) (current_fact fk s)"
  by (auto simp: mirrors_def row_pair_def split: option.splits)

lemma row_pair_reject:
  assumes "row_pair st c n (read_proposal fk s) (current_fact fk s)" "n < seq"
    "andthen (update_state fk seq (\<lambda>r. r\<lparr>fs_status := ''REJECTED'', fs_value := JNull\<rparr>)) (\<lambda>_.
       update_proposal fk seq (\<lambda>p. p\<lparr>pr_status := ''REJECTED''\<rparr>)) s = (Inr x, s')"
  shows "row_pair (st\<lparr>os_status := Some ''REJECTED'', os_value := JNull\<rparr>) c seq (read_proposal fk s') (current_fact fk s')"
proof -
  obtain t where u: "update_state fk seq (\<lambda>r. r\<lparr>fs_status := ''REJECTED'', fs_value := JNull\<rparr>) s = (Inr (), t)"
    and v: "update_proposal fk seq (\<lambda>p. p\<lparr>pr_status := ''REJECTED''\<rparr>) t = (Inr x, s')"
    using assms(3) by (auto simp: andthen_eq_Inr)
  show ?thesis
    using assms(1,2) update_state_lookup [OF u] update_proposal_lookup [OF v] by (auto simp: row_pair_def split: option.splits)
qed

lemma row_pair_lapse:
  assumes "row_pair st c n (read_proposal fk s) (current_fact fk s)" "n < seq" "c"
    "\<And>r. fs_fact_key (f r) = fs_fact_key r \<and> fs_status (f r) = status \<and> fs_value (f r) = JNull \<and> fs_prior_value (f r) = fs_value r" "status \<noteq> ''PARTIALLY_CONFIRMED''"
    "andthen (update_state fk seq f) (\<lambda>_. andthen (lift target) (\<lambda>t. carry_prior fk seq status t)) s = (Inr x, s')"
  shows "row_pair (st\<lparr>os_status := Some status, os_prior_value := os_value st, os_value := JNull\<rparr>) c seq
    (read_proposal fk s') (current_fact fk s')"
proof -
  obtain t tg where u: "update_state fk seq f s = (Inr (), t)" and v: "carry_prior fk seq status tg t = (Inr x, s')"
    using assms(6) by (auto simp: andthen_eq_Inr)
  note l = update_state_lookup [OF u]
  obtain r where r: "current_fact fk s = Some r" "fs_updated_seq r < seq" "fs_value r = os_value st"
    using assms(1-3) by (auto simp: row_pair_def split: option.splits)
  then have cf: "current_fact fk t = Some ((f r)\<lparr>fs_updated_seq := seq\<rparr>)"
    using l(1) assms(4) by simp
  then have w: "update_proposal fk seq (\<lambda>p. p\<lparr>pr_status := status, pr_prior_value := fs_prior_value (f r), pr_target_event_id := Some tg\<rparr>) t = (Inr x, s')"
    using v by (simp add: carry_prior_def andthen_def query_def)
  show ?thesis
    using assms(1,2) update_proposal_lookup [OF w] l(3) assms(4,5) cf r by (auto simp: row_pair_def split: option.splits)
qed

lemma row_pair_lapsed:
  assumes "row_pair st c n (read_proposal fk s) (current_fact fk s)" "n < ev_global_seq e" "c"
    "ev_aggregate e = ''overlay_fact''" "ev_aggregate_id e = fk" "ev_type e \<in> {''OVERLAY_FACT_EXPIRED'', ''OVERLAY_FACT_STALED''}"
    "overlay_apply e s = (Inr x, s')"
  shows "row_pair (st\<lparr>os_status := Some (if ev_type e = ''OVERLAY_FACT_EXPIRED'' then ''REVERIFY'' else ''STALE''),
      os_prior_value := os_value st, os_value := JNull\<rparr>) c (ev_global_seq e) (read_proposal fk s') (current_fact fk s')"
proof (cases "ev_type e = ''OVERLAY_FACT_EXPIRED''")
  case True
  have "andthen (update_state fk (ev_global_seq e) (\<lambda>r. r\<lparr>fs_status := ''REVERIFY'', fs_prior_value := fs_value r,
        fs_value := JNull, fs_expires_at := None\<rparr>))
      (\<lambda>_. andthen (lift (dict_str (ev_payload e) ''expires_confirmed_event_id''))
        (carry_prior fk (ev_global_seq e) ''REVERIFY'')) s = (Inr x, s')"
    using assms(4,5,7) True by (simp add: overlay_apply_def Let_def)
  note r = row_pair_lapse [OF assms(1-3) _ _ this]
  show ?thesis
    using r True by simp
next
  case False
  then have staled: "ev_type e = ''OVERLAY_FACT_STALED''"
    using assms(6) by simp
  have "andthen (update_state fk (ev_global_seq e) (\<lambda>r. r\<lparr>fs_status := ''STALE'', fs_prior_value := fs_value r, fs_value := JNull\<rparr>))
      (\<lambda>_. andthen (lift (dict_str (ev_payload e) ''stales_confirmed_event_id''))
        (carry_prior fk (ev_global_seq e) ''STALE'')) s = (Inr x, s')"
    using assms(4,5,7) staled by (simp add: overlay_apply_def Let_def)
  note r = row_pair_lapse [OF assms(1-3) _ _ this]
  show ?thesis
    using r False by simp
qed

lemma row_pair_partial:
  assumes "row_pair st c n (read_proposal fk s) (current_fact fk s)" "n < seq" "status_in st AWAITING_CONFIRMATION"
    "update_proposal fk seq (\<lambda>p. p\<lparr>pr_status := ''PARTIALLY_CONFIRMED'', pr_partial_confirmers := pr_partial_confirmers p @ added\<rparr>) s = (Inr x, s')"
    "os_status st' = Some ''PARTIALLY_CONFIRMED''" "os_value st' = os_value st" "os_prior_value st' = os_prior_value st"
  shows "row_pair st' c seq (read_proposal fk s') (current_fact fk s')"
  using assms(1-3,5-7) update_proposal_lookup [OF assms(4)]
  by (auto simp: row_pair_def status_in_def AWAITING_CONFIRMATION_def split: option.splits)

lemma row_pair_confirmed:
  assumes "row_pair st c n (read_proposal fk s) (current_fact fk s)" "n < seq" "project_confirmed e fk s = (Inr x, s')" "ev_global_seq e = seq"
    "dict_item (ev_payload e) ''value'' = Inr v" "os_status st' = Some ''VERIFIED''" "os_value st' = v" "os_prior_value st' = JNull"
  shows "row_pair st' True seq (read_proposal fk s') (current_fact fk s')"
proof -
  obtain p where p: "read_proposal fk s = Some p"
    using assms(1) by (auto simp: row_pair_def split: option.splits)
  obtain cs ex t1 t2 where u: "upsert_confirmed fk v cs (ev_occurred_at e) ex (ev_event_id e) seq s = (Inr (), t1)"
    and w: "update_proposal fk seq (\<lambda>r. r\<lparr>pr_status := ''VERIFIED'', pr_target_event_id := Some (ev_event_id e), pr_prior_value := JNull\<rparr>) t1 = (Inr (), t2)"
    and z: "same_rows t2 s'"
    using assms(3-5) by (auto simp: project_confirmed_def Let_def andthen_eq_Inr same_rows_def dest!: refresh_unit split: option.splits)
  note a = upsert_confirmed_lookup [OF u p read_proposal_key [OF p]] and b = update_proposal_lookup [OF w]
  show ?thesis
    using assms(1,2,6-8) a b same_rows_lookup [OF z, of fk] p
    by (auto simp: row_pair_def confirmed_row_def split: option.splits)
qed

lemma row_pair_proposed:
  assumes "n < seq" "case read_proposal fk s of None \<Rightarrow> True | Some p \<Rightarrow> pr_updated_seq p \<le> n"
    "case current_fact fk s of None \<Rightarrow> \<not> c | Some r \<Rightarrow> fs_updated_seq r \<le> n"
    "project_proposed e fk s = (Inr x, s')" "ev_global_seq e = seq" "dget (ev_payload e) ''fact_type'' \<noteq> JStr ''entity_bridge''"
    "os_status st' = Some ''DRAFT''" "os_value st' = JNull" "os_prior_value st' = JNull"
  shows "row_pair st' c seq (read_proposal fk s') (current_fact fk s')"
proof -
  obtain row t1 t2 where row: "pr_fact_key row = fk" "pr_status row = ''DRAFT''" "pr_updated_seq row = seq"
    and u: "upsert_proposal row s = (Inr (), t1)"
    and w: "update_state fk seq (\<lambda>r. r\<lparr>fs_status := ''DRAFT'', fs_value := JNull, fs_prior_value := JNull, fs_expires_at := None\<rparr>) t1 = (Inr (), t2)"
    and z: "same_rows t2 s'"
  proof -
    assume that: "\<And>row t1 t2. pr_fact_key row = fk \<Longrightarrow> pr_status row = ''DRAFT'' \<Longrightarrow> pr_updated_seq row = seq \<Longrightarrow>
      upsert_proposal row s = (Inr (), t1) \<Longrightarrow>
      update_state fk seq (\<lambda>r. r\<lparr>fs_status := ''DRAFT'', fs_value := JNull, fs_prior_value := JNull, fs_expires_at := None\<rparr>) t1 = (Inr (), t2) \<Longrightarrow>
      same_rows t2 s' \<Longrightarrow> thesis"
    obtain v fp ob src ft uc er t1 t2 where
      "upsert_proposal \<lparr>pr_fact_key = fk, pr_status = ''DRAFT'', pr_proposed_value = v, pr_proposal_fingerprint = fp,
          pr_draft_event_id = ev_event_id e, pr_target_event_id = None, pr_evidence_ref = er,
          pr_partial_confirmers = [], pr_object_ref = ob, pr_catalog_source = src, pr_fact_type = ft,
          pr_use_case = uc, pr_prior_value = JNull, pr_updated_seq = seq\<rparr> s = (Inr (), t1)"
      "update_state fk seq (\<lambda>r. r\<lparr>fs_status := ''DRAFT'', fs_value := JNull, fs_prior_value := JNull, fs_expires_at := None\<rparr>) t1 = (Inr (), t2)"
      "refresh_dependencies fk ob ft v (Some src) t2 = (Inr x, s')"
      using assms(4-6) by (auto simp: project_proposed_def Let_def andthen_eq_Inr)
    then show thesis
      by (intro that [OF _ _ _ _ _ refresh_unit]) simp_all
  qed
  note a = upsert_proposal_lookup [OF u, unfolded row] and b = update_state_lookup [OF w]
  show ?thesis
    using assms(1-3,7-9) a b same_rows_lookup [OF z, of fk] row
    by (auto simp: row_pair_def split: option.splits)
qed

definition bridge_proposal :: "EventEnvelope \<Rightarrow> bool" where
  "bridge_proposal e \<longleftrightarrow> is_proposed e \<and> dget (ev_payload e) ''fact_type'' = JStr ''entity_bridge''"

lemma apply_mirrors:
  assumes m: "mirrors fk xs n s" and l: "legal_stream C (xs @ [e])" and e: "ev_aggregate e = ''overlay_fact''" "ev_aggregate_id e = fk"
    and n: "n < ev_global_seq e" and nb: "\<not> bridge_proposal e"
    and ap: "overlay_apply e s = (Inr x, s')"
  shows "mirrors fk (xs @ [e]) (ev_global_seq e) s'"
proof -
  obtain st0 where st0: "fold_overlay_state xs = Inr st0" "legal_in C xs st0 e"
    using legal_foldE [of C xs e "[]"] l by auto
  obtain st where st: "fold_overlay_state (xs @ [e]) = Inr st"
    using legal_folds [OF l] by blast
  then have step: "fold_event st0 e = Inr st"
    using st0(1) by (simp add: fold_snoc)
  let ?c = "\<exists>e \<in> set xs. ev_type e = ''OVERLAY_FACT_CONFIRMED''"
  have old: "row_pair st0 ?c n (read_proposal fk s) (current_fact fk s)" if "os_status st0 \<noteq> None"
  proof -
    have "xs \<noteq> []"
      using that st0(1) by (auto simp: fold_Nil initial_state_def)
    then show ?thesis using m mirrors_rows [OF _ st0(1)] by blast
  qed
  have "row_pair st (\<exists>e \<in> set (xs @ [e]). ev_type e = ''OVERLAY_FACT_CONFIRMED'') (ev_global_seq e) (read_proposal fk s') (current_fact fk s')"
    using st0(2)
  proof (cases rule: legal_in_cases)
    case (proposed t)
    have a: "project_proposed e fk s = (Inr x, s')"
      using ap e proposed(1) by (simp add: overlay_apply_def)
    have d: "os_status st = Some ''DRAFT''" "os_value st = JNull" "os_prior_value st = JNull"
      using step proposed(1,3) by (auto simp: fold_event_def Let_def chain_eq_Inr)
    have b: "case read_proposal fk s of None \<Rightarrow> True | Some p \<Rightarrow> pr_updated_seq p \<le> n"
      "case current_fact fk s of None \<Rightarrow> \<not> ?c | Some r \<Rightarrow> fs_updated_seq r \<le> n"
      using m by (auto simp: mirrors_def split: option.splits)
    show ?thesis
      using row_pair_proposed [OF n b a refl _ d] nb proposed(1) by (simp add: bridge_proposal_def is_proposed_def)
  next
    case partially
    then obtain owner role where w: "update_proposal fk (ev_global_seq e) (\<lambda>p. p\<lparr>pr_status := ''PARTIALLY_CONFIRMED'',
        pr_partial_confirmers := pr_partial_confirmers p @ [JObj [(''subject'', owner), (''role'', role)]]\<rparr>) s = (Inr x, s')"
      using ap e by (auto simp: overlay_apply_def Let_def andthen_eq_Inr)
    have "os_status st = Some ''PARTIALLY_CONFIRMED''" "os_value st = os_value st0" "os_prior_value st = os_prior_value st0"
      using step partially(1) by (auto simp: fold_event_def Let_def chain_eq_Inr)
    moreover have "os_status st0 \<noteq> None"
      using partially(2) by (auto simp: status_in_def split: option.splits)
    ultimately show ?thesis
      using row_pair_partial [OF old n partially(2) w] partially(1) by simp
  next
    case confirmed
    then have a: "project_confirmed e fk s = (Inr x, s')"
      using ap e by (simp add: overlay_apply_def)
    obtain v where v: "dict_item (ev_payload e) ''value'' = Inr v" "os_status st = Some ''VERIFIED''" "os_value st = v" "os_prior_value st = JNull"
      using step confirmed(1) by (auto simp: fold_event_def Let_def chain_eq_Inr split: prod.splits)
    have "os_status st0 \<noteq> None"
      using confirmed(2) by (auto simp: status_in_def split: option.splits)
    then show ?thesis
      using row_pair_confirmed [OF old n a refl v] confirmed(1) by simp
  next
    case rejected
    have "st = st0\<lparr>os_status := Some ''REJECTED'', os_value := JNull\<rparr>"
      using step rejected(1) by (simp add: fold_event_def Let_def)
    moreover have "os_status st0 \<noteq> None"
      using rejected(2) by (auto simp: status_in_def split: option.splits)
    ultimately show ?thesis
      using row_pair_reject [OF old n, of x s'] ap e rejected(1) by (simp add: overlay_apply_def Let_def)
  next
    case lapsed
    then have "os_status st0 = Some ''VERIFIED''" "xs \<noteq> []"
      using st0(1) by (auto simp: fold_Nil initial_state_def)
    then have c: ?c and ne: "os_status st0 \<noteq> None"
      using current_is_confirmed [OF legal_stream_prefix [OF l] st0(1)] by auto
    have st': "st = st0\<lparr>os_status := Some (if ev_type e = ''OVERLAY_FACT_EXPIRED'' then ''REVERIFY'' else ''STALE''),
        os_prior_value := os_value st0, os_value := JNull\<rparr>"
      using step lapsed(1) by (auto simp: fold_event_def Let_def)
    have cc: "(\<exists>e' \<in> set (xs @ [e]). ev_type e' = ''OVERLAY_FACT_CONFIRMED'') = ?c"
      using c by auto
    show ?thesis
      unfolding cc st' by (rule row_pair_lapsed [OF old [OF ne] n c e lapsed(1) ap])
  qed
  then show ?thesis
    using mirrors_rows [of "xs @ [e]" st fk "ev_global_seq e" s'] st by simp
qed

subsection \<open>Projecting the log\<close>

definition of_fact :: "string \<Rightarrow> EventEnvelope \<Rightarrow> bool" where
  "of_fact fk e \<longleftrightarrow> ev_aggregate e = ''overlay_fact'' \<and> ev_aggregate_id e = fk"

lemma project_from:
  assumes "mirrors fk (filter (of_fact fk) ps) n s" "sorted_wrt (<) (map ev_global_seq (filter (of_fact fk) es))"
    "\<forall>e \<in> set es. of_fact fk e \<longrightarrow> n < ev_global_seq e \<and> \<not> bridge_proposal e"
    "legal_stream C (filter (of_fact fk) (ps @ es))" "for_each es overlay_apply s = (Inr ys, s')"
  shows "\<exists>m. mirrors fk (filter (of_fact fk) (ps @ es)) m s'"
  using assms
proof (induction es arbitrary: ps n s ys)
  case Nil
  then show ?case by auto
next
  case (Cons e es)
  obtain t ys' where t: "overlay_apply e s = (Inr (), t)" "for_each es overlay_apply t = (Inr ys', s')"
    using Cons.prems(5) by (auto simp: andthen_eq_Inr)
  show ?case
  proof (cases "of_fact fk e")
    case True
    have "legal_stream C (filter (of_fact fk) ps @ [e])"
      using Cons.prems(4) legal_stream_prefix [of C "filter (of_fact fk) ps @ [e]" "filter (of_fact fk) es"] True by simp
    from apply_mirrors [OF Cons.prems(1) this _ _ _ _ t(1)]
    have "mirrors fk (filter (of_fact fk) (ps @ [e])) (ev_global_seq e) t"
      using Cons.prems(3) True by (simp add: of_fact_def)
    then show ?thesis
      using Cons.IH [of "ps @ [e]" "ev_global_seq e" t ys'] Cons.prems(2-4) t(2) True by simp
  next
    case False
    have "same_fact fk s t"
      by (rule keepsD [OF apply_other t(1)]) (use False in \<open>auto simp: of_fact_def\<close>)
    then have "mirrors fk (filter (of_fact fk) (ps @ [e])) n t"
      using mirrors_same [OF Cons.prems(1)] False by (simp add: same_fact_def)
    then show ?thesis
      using Cons.IH [of "ps @ [e]" n t ys'] Cons.prems(2-4) t(2) False by simp
  qed
qed

text \<open>
  What the projection may be asked of a fact: its events in the log are a legal stream in the order of
  their sequence numbers, and its proposals all are of bridges or none is, as a fact's key fixes its type.
\<close>

definition projectable :: "overlay_env \<Rightarrow> string \<Rightarrow> EventEnvelope list \<Rightarrow> bool" where
  "projectable C fk es \<longleftrightarrow>
     (let xs = filter (of_fact fk) es
      in legal_stream C xs \<and> sorted_wrt (<) (map ev_global_seq xs)
         \<and> ((\<forall>e \<in> set xs. is_proposed e \<longrightarrow> bridge_proposal e) \<or> (\<forall>e \<in> set xs. \<not> bridge_proposal e)))"

definition rebuild :: "EventEnvelope list \<Rightarrow> unit list dbprog" where
  "rebuild es = andthen overlay_reset (\<lambda>_. for_each es overlay_apply)"

lemma mirrors_reset: "mirrors fk [] n (snd (overlay_reset s))"
  by (simp add: mirrors_def overlay_reset_def update_def read_proposal_def current_fact_def fold_Nil)

lemma rebuild_run:
  assumes "rebuild es s = (Inr ys, s')"
  shows "for_each es overlay_apply (snd (overlay_reset s)) = (Inr ys, s')"
  using assms by (auto simp: rebuild_def andthen_eq_Inr overlay_reset_def update_def)

lemma below_all: "\<exists>n. \<forall>x \<in> set xs. n < (f x :: int)"
proof (intro exI ballI)
  fix x
  assume "x \<in> set xs"
  then have "Min (insert 0 (f ` set xs)) \<le> f x"
    by (intro Min_le) simp_all
  then show "Min (insert 0 (f ` set xs)) - 1 < f x"
    by simp
qed

lemma rebuild_mirrors:
  assumes "projectable C fk es" "rebuild es s = (Inr ys, s')" "\<forall>e \<in> set (filter (of_fact fk) es). \<not> bridge_proposal e"
  shows "\<exists>m. mirrors fk (filter (of_fact fk) es) m s'"
proof -
  obtain n where n: "\<forall>e \<in> set es. n < ev_global_seq e"
    using below_all [of es ev_global_seq] by blast
  show ?thesis
    using project_from [of fk "[]" n "snd (overlay_reset s)" es C ys s'] assms(1,3) rebuild_run [OF assms(2)] n
    by (simp add: mirrors_reset projectable_def Let_def)
qed

subsection \<open>Bridges\<close>

text \<open>A bridge has no row: its proposal only writes dependencies, and the other events find no row to write.\<close>

definition bare :: "string \<Rightarrow> db \<Rightarrow> bool" where
  "bare fk s \<longleftrightarrow> read_proposal fk s = None \<and> current_fact fk s = None"

definition stays_bare :: "string \<Rightarrow> db \<Rightarrow> db \<Rightarrow> bool" where
  "stays_bare fk s s' \<longleftrightarrow> (bare fk s \<longrightarrow> bare fk s')"

interpretation bareness: state_rel "stays_bare fk" for fk
  by unfold_locales (auto simp: stays_bare_def)

lemma stays_bare_steps:
  shows "(\<And>r. fs_fact_key (f r) = fs_fact_key r) \<Longrightarrow> keeps (stays_bare fk) (update_state fk seq f)"
    "(\<And>r. pr_fact_key (g r) = pr_fact_key r) \<Longrightarrow> keeps (stays_bare fk) (update_proposal fk seq g)"
    "keeps (stays_bare fk) (upsert_confirmed fk v cs at expires i seq)"
    "keeps (stays_bare fk) (refresh_dependencies fk object_ref fact_type v source)"
proof -
  show "keeps (stays_bare fk) (update_state fk seq f)" if "\<And>r. fs_fact_key (f r) = fs_fact_key r"
    by (rule keepsI) (use update_state_lookup(1,3) [OF writes_succeed(1) that] in \<open>simp add: stays_bare_def bare_def\<close>)
  show "keeps (stays_bare fk) (update_proposal fk seq g)" if "\<And>r. pr_fact_key (g r) = pr_fact_key r"
    by (rule keepsI) (use update_proposal_lookup(1,3) [OF writes_succeed(2) that] in \<open>simp add: stays_bare_def bare_def\<close>)
  show "keeps (stays_bare fk) (upsert_confirmed fk v cs at expires i seq)"
    by (rule keepsI) (simp add: stays_bare_def bare_def upsert_confirmed_def update_def)
  show "keeps (stays_bare fk) (refresh_dependencies fk object_ref fact_type v source)"
  proof (rule keepsI)
    fix s
    have "same_rows s (snd (refresh_dependencies fk object_ref fact_type v source s))"
      using refresh_rows by (simp add: keeps_def)
    from same_rows_lookup [OF this] show "stays_bare fk s (snd (refresh_dependencies fk object_ref fact_type v source s))"
      by (simp add: stays_bare_def bare_def)
  qed
qed

lemma apply_bare:
  assumes "of_fact fk e \<longrightarrow> is_proposed e \<longrightarrow> bridge_proposal e"
  shows "keeps (stays_bare fk) (overlay_apply e)"
proof (cases "of_fact fk e")
  case True
  then have e: "ev_aggregate_id e = fk" "ev_aggregate e = ''overlay_fact''"
    by (simp_all add: of_fact_def)
  show ?thesis
  proof (cases "is_proposed e")
    case True
    then have "dget (ev_payload e) ''fact_type'' = JStr ''entity_bridge''" "ev_type e = ''OVERLAY_FACT_PROPOSED''"
      using assms \<open>of_fact fk e\<close> by (simp_all add: bridge_proposal_def is_proposed_def)
    then show ?thesis
      unfolding overlay_apply_def project_proposed_def Let_def e
      by simp (intro bareness.keeps_rules stays_bare_steps)
  next
    case False
    then have "ev_type e \<noteq> ''OVERLAY_FACT_PROPOSED''"
      by (simp add: is_proposed_def)
    then show ?thesis
      unfolding overlay_apply_def project_confirmed_def carry_prior_def Let_def e
      by (simp only: if_False) (intro bareness.keeps_rules stays_bare_steps; simp)
  qed
next
  case False
  then have "keeps (same_fact fk) (overlay_apply e)"
    by (intro apply_other) (auto simp: of_fact_def)
  then show ?thesis
    by (simp add: keeps_def same_fact_def stays_bare_def bare_def)
qed

lemma rebuild_bridge:
  assumes "rebuild es s = (Inr ys, s')" "\<forall>e \<in> set (filter (of_fact fk) es). is_proposed e \<longrightarrow> bridge_proposal e"
  shows "bare fk s'"
proof -
  have "keeps (stays_bare fk) (for_each es overlay_apply)"
    using assms(2)
  proof (induction es)
    case (Cons e es)
    then show ?case
      by (auto intro!: bareness.keeps_rules apply_bare)
  qed (simp add: bareness.keeps_ret)
  from keepsD [OF this rebuild_run [OF assms(1)]] show ?thesis
    by (simp add: stays_bare_def bare_def overlay_reset_def update_def read_proposal_def current_fact_def)
qed

end
