(* ===== verification/Overlay_Outcomes.thy ===== *)
theory Overlay_Outcomes
  imports Overlay_Guarantees
begin

text \<open>
  What an accepted command does to the fact's stream and the properties of the overlay over runs of
  its commands, its pollers and its catalog scan.
\<close>

subsection \<open>The stream after an accepted command\<close>

definition gives :: "overlay_env \<Rightarrow> string \<Rightarrow> (EventEnvelope list \<Rightarrow> bool) \<Rightarrow> db \<Rightarrow> CommandResult dbprog \<Rightarrow> bool" where
  "gives C key P s m \<longleftrightarrow> (\<forall>r s'. m s = (Inr r, s') \<longrightarrow> accepted r \<longrightarrow> P (fact_events key s'))"

lemma gives_refuse: "gives C key P s (ret (refuse aid reason))"
  by (simp add: gives_def)

lemma gives_denied: "gives C key P s (deny_audited C cmd k reason)"
  by (auto simp: gives_def deny_audited_def andthen_eq_Inr)

lemma gives_lift: "(\<And>x. r = Inr x \<Longrightarrow> gives C key P s (f x)) \<Longrightarrow> gives C key P s (andthen (lift r) f)"
  by (auto simp: gives_def andthen_eq_Inr)

lemma gives_query: "gives C key P s (f (q s)) \<Longrightarrow> gives C key P s (andthen (query q) f)"
  by (auto simp: gives_def andthen_eq_Inr)

lemma gives_load: "wf_store (core C) s \<Longrightarrow> gives C key P s (f (fact_events k s)) \<Longrightarrow> gives C key P s (andthen (load_fact C k) f)"
  by (auto simp: gives_def andthen_eq_Inr load_fact_wf)

lemma gives_if: "(b \<Longrightarrow> gives C key P s m) \<Longrightarrow> (\<not> b \<Longrightarrow> gives C key P s n) \<Longrightarrow> gives C key P s (if b then m else n)"
  by simp

lemma gives_option:
  "(y = None \<Longrightarrow> gives C key P s m) \<Longrightarrow> (\<And>x. y = Some x \<Longrightarrow> gives C key P s (f x)) \<Longrightarrow>
     gives C key P s (case y of None \<Rightarrow> m | Some x \<Rightarrow> f x)"
  by (cases y) simp_all

lemma gives_prod: "(\<And>a b. p = (a, b) \<Longrightarrow> gives C key P s (f a b)) \<Longrightarrow> gives C key P s (case p of (a, b) \<Rightarrow> f a b)"
  by (cases p) simp

lemma gives_let: "(\<And>x. x = a \<Longrightarrow> gives C key P s (f x)) \<Longrightarrow> gives C key P s (let x = a in f x)"
  by simp

lemma gives_bridge: "(\<And>x. gives C key P s (f x)) \<Longrightarrow> gives C key P s (andthen (bridge_error C ref fact_type) f)"
  by (auto simp: gives_def andthen_eq_Inr bridge_error_def split: if_splits)

text \<open>An append, followed by steps that write no event of a fact.\<close>

lemma gives_append:
  assumes wf: "wf_store (core C) s"
    and P: "\<And>e. ev_type e = typ \<Longrightarrow> ev_payload e = payload \<Longrightarrow> ev_actor e = actor \<Longrightarrow> P (fact_events key s @ [e])"
    and rest: "\<And>e. keeps (quiet (core C)) (f e)"
  shows "gives C key P s (andthen (append_overlay_event C key typ payload actor v c) f)"
  unfolding gives_def
proof (intro allI impI)
  fix r s'
  assume "andthen (append_overlay_event C key typ payload actor v c) f s = (Inr r, s')"
  then obtain e t where e: "append_overlay_event C key typ payload actor v c s = (Inr e, t)" "f e t = (Inr r, s')"
    by (auto simp: andthen_eq_Inr)
  note a = append_overlay_Inr [OF wf e(1)]
  have "fact_events key s' = fact_events key t"
    using keepsD [OF rest e(2)] by (simp add: quiet_def fact_events_def)
  then show "P (fact_events key s')"
    using P [OF a(3-5)] a(1) by simp
qed

lemmas gives_rules = gives_refuse gives_denied gives_lift gives_query gives_load gives_option gives_prod gives_let gives_if gives_bridge

lemma quiet_after_confirm: "hooks_quiet C \<Longrightarrow> keeps (quiet (core C)) (after_confirm C ref fact_type key)"
  unfolding after_confirm_def
  by (intro quiet.keeps_rules) (auto intro!: quiet.keeps_rules simp: hooks_quiet_def split: fact_ref.split)

subsection \<open>Confirming\<close>

text \<open>The fact is verified with this value, until the end of its time to live, by the actor of the command.\<close>

definition confirmed_now :: "overlay_env \<Rightarrow> Command \<Rightarrow> string \<Rightarrow> string \<Rightarrow> int \<Rightarrow> EventEnvelope list \<Rightarrow> json \<Rightarrow> EventEnvelope list \<Rightarrow> bool" where
  "confirmed_now C cmd fact_type key now stream v stream' \<longleftrightarrow>
     (\<exists>e st. stream' = stream @ [e] \<and> ev_actor e = cm_actor cmd \<and> fold_overlay_state stream' = Inr st
        \<and> os_status st = Some ''VERIFIED'' \<and> os_value st = v
        \<and> os_confirmers st = single_confirmers fact_type (subject (cm_actor cmd))
        \<and> os_expires_at st = JStr (isoformat (now + resolve_ttl C fact_type key))
        \<and> os_confirmed_event_id st = Some (ev_event_id e) \<and> os_partial_confirmers st = [] \<and> os_prior_value st = JNull)"

lemma confirmed_nowI:
  assumes "fold_overlay_state stream = Inr st" "ev_type e = ''OVERLAY_FACT_CONFIRMED''" "ev_actor e = cm_actor cmd"
    "ev_payload e = confirmed_payload v (single_confirmers fact_type (subject (cm_actor cmd))) (now + resolve_ttl C fact_type key) target
       @ [(''note'', note)]"
  shows "confirmed_now C cmd fact_type key now stream v (stream @ [e])"
  unfolding confirmed_now_def
  by (simp add: fold_snoc assms fold_event_def Let_def confirmed_payload_def dict_item_def dget_def has_key_def list_of_def chain_def)

lemma gives_write_confirmation:
  assumes "wf_store (core C) s" "hooks_quiet C" "fold_overlay_state (fact_events key s) = Inr st"
  shows "gives C key (confirmed_now C cmd fact_type key (clock s) (fact_events key s) v) s
    (write_confirmation C cmd ref fact_type key (fact_events key s) v)"
  unfolding write_confirmation_def
proof (intro gives_rules gives_append assms(1), goal_cases)
  case (1 target expires_at e)
  then show ?case by (intro confirmed_nowI [OF assms(3)]) simp_all
next
  case 2
  show ?case
    by (intro quiet.keeps_rules calm_quiet [OF calm_overlay(3)] calm_quiet [OF calm_overlay(2)] quiet_after_confirm assms(2))
qed

lemma gives_mono: "gives C key P s m \<Longrightarrow> (\<And>xs. P xs \<Longrightarrow> Q xs) \<Longrightarrow> gives C key Q s m"
  by (auto simp: gives_def)

lemma gives_confirm_single:
  assumes "wf_store (core C) s" "hooks_quiet C" "fold_overlay_state (fact_events key s) = Inr st"
    "\<And>d xs. confirm_default st (fact_events key s) = Inr d \<Longrightarrow>
       fact_type \<in> set SEMANTIC_TYPES \<longrightarrow> \<not> has_key (cm_args cmd) ''value'' \<Longrightarrow>
       confirmed_now C cmd fact_type key (clock s) (fact_events key s) (dget_or (cm_args cmd) ''value'' d) xs \<Longrightarrow> P xs"
  shows "gives C key P s (confirm_single C adapter cmd ref fact_type use_case key (fact_events key s) st a)"
  unfolding confirm_single_def
  by (intro gives_rules) (auto intro: gives_mono [OF gives_write_confirmation [OF assms(1-3)]] assms(4))

text \<open>A join whose two sides have different owners, which takes two confirmations.\<close>

definition two_owner_join :: "overlay_env \<Rightarrow> fact_ref \<Rightarrow> string \<Rightarrow> bool" where
  "two_owner_join C ref fact_type \<longleftrightarrow> fact_type = ''approved_join'' \<and>
     (\<exists>adapter a. current_catalog_adapter C = Inr adapter \<and> resolve_authority adapter ref fact_type = Inr a \<and> at_dual a)"

lemma gives_confirm:
  assumes "wf_store (core C) s" "hooks_quiet C" "fact_args (cm_args cmd) = Inr (ref, fact_type, use_case)"
    "\<not> two_owner_join C ref fact_type" "key = fact_key (core C) ref fact_type use_case"
    "\<And>st d xs. fold_overlay_state (fact_events key s) = Inr st \<Longrightarrow> confirm_default st (fact_events key s) = Inr d \<Longrightarrow>
       fact_type \<in> set SEMANTIC_TYPES \<longrightarrow> \<not> has_key (cm_args cmd) ''value'' \<Longrightarrow>
       confirmed_now C cmd fact_type key (clock s) (fact_events key s) (dget_or (cm_args cmd) ''value'' d) xs \<Longrightarrow> P xs"
  shows "gives C key P s (confirm_fact C cmd)"
  unfolding confirm_fact_def
  by (intro gives_rules assms(1)) (use assms(3-5) in \<open>auto simp: two_owner_join_def intro!: gives_confirm_single [OF assms(1,2)] assms(6)\<close>)

lemma gives_first_owner:
  assumes "wf_store (core C) s"
    "\<And>e. ev_type e = ''OVERLAY_FACT_PARTIALLY_CONFIRMED'' \<Longrightarrow> ev_actor e = cm_actor cmd \<Longrightarrow> P (fact_events key s @ [e])"
  shows "gives C key P s (confirm_first_owner C cmd key (fact_events key s) st a)"
  unfolding confirm_first_owner_def
  by (intro gives_rules gives_append assms quiet.keeps_rules calm_quiet [OF calm_overlay(2)]) simp_all

lemma gives_second_owner:
  assumes "wf_store (core C) s"
    "\<And>e v t target note. ev_type e = ''OVERLAY_FACT_CONFIRMED'' \<Longrightarrow> ev_actor e = cm_actor cmd \<Longrightarrow>
       ev_payload e = confirmed_payload v (join_confirmers a earlier (subject (cm_actor cmd))) t target @ [(''note'', note)] \<Longrightarrow>
       P (fact_events key s @ [e])"
  shows "gives C key P s (confirm_second_owner C adapter cmd key (fact_events key s) st a earlier)"
  unfolding confirm_second_owner_def
proof (intro gives_rules gives_append assms(1), goal_cases)
  case 1
  then show ?case by (intro assms(2)) simp_all
next
  case 2
  show ?case
    by (intro quiet.keeps_rules calm_quiet [OF calm_overlay(3)] calm_quiet [OF calm_overlay(2)])
qed

text \<open>The actor may speak for a side of the join, and no one speaks for both.\<close>

definition speaks_for_join :: "Authority \<Rightarrow> IdentityEnvelope \<Rightarrow> bool" where
  "speaks_for_join a actor \<longleftrightarrow>
     subject actor \<in> set (known_subjects a) \<or> at_governance_queue a \<and> ''platform-admin'' \<in> set (role_claims actor)"

definition join_decision :: "Authority \<Rightarrow> IdentityEnvelope \<Rightarrow> OverlayState \<Rightarrow> EventEnvelope \<Rightarrow> bool" where
  "join_decision a actor st e \<longleftrightarrow>
     speaks_for_join a actor \<and> ev_actor e = actor
     \<and> (if os_partial_confirmers st = [] then ev_type e = ''OVERLAY_FACT_PARTIALLY_CONFIRMED''
        else ev_type e = ''OVERLAY_FACT_CONFIRMED'' \<and> second_of_two st e
          \<and> (\<exists>earlier. earlier \<noteq> subject actor \<and> dget (ev_payload e) ''confirmers'' = JArr (join_confirmers a earlier (subject actor))))"

lemma gives_confirm_join:
  assumes "wf_store (core C) s" "fold_overlay_state (fact_events key s) = Inr st"
    "\<And>e. join_decision a (cm_actor cmd) st e \<Longrightarrow> P (fact_events key s @ [e])"
  shows "gives C key P s (confirm_approved_join C adapter cmd key (fact_events key s) st a)"
  unfolding confirm_approved_join_def
proof (intro gives_rules gives_first_owner gives_second_owner assms(1,3), goal_cases)
  case 1
  then show ?case by (simp add: join_decision_def speaks_for_join_def)
next
  case (2 actor owners gap earlier e v t target more_note)
  then have "second_of_two st e"
    by (auto simp: second_of_two_def chain_eq_Inr split: json.splits)
  moreover have "dget (ev_payload e) ''confirmers'' = JArr (join_confirmers a earlier (subject (cm_actor cmd)))"
    "earlier \<noteq> subject (cm_actor cmd)"
    using 2 by (auto simp: confirmed_payload_def dget_def)
  ultimately show ?case
    using 2 unfolding join_decision_def speaks_for_join_def by auto
qed

lemma gives_confirm_dual:
  assumes "wf_store (core C) s" "fact_args (cm_args cmd) = Inr (ref, ''approved_join'', use_case)"
    "current_catalog_adapter C = Inr adapter" "resolve_authority adapter ref ''approved_join'' = Inr a" "at_dual a"
    "key = fact_key (core C) ref ''approved_join'' use_case"
    "\<And>st e. fold_overlay_state (fact_events key s) = Inr st \<Longrightarrow> join_decision a (cm_actor cmd) st e \<Longrightarrow> P (fact_events key s @ [e])"
  shows "gives C key P s (confirm_fact C cmd)"
  unfolding confirm_fact_def
  by (intro gives_rules assms(1)) (use assms(2-7) in \<open>auto intro!: gives_confirm_join [OF assms(1)]\<close>)

subsection \<open>Properties of every run\<close>

text \<open>
  C5: the overlay's code refines the rules of a fact's stream.  From any well-formed store, whatever
  commands are handled, whenever the pollers fire and whatever the catalog scan finds, each fact's
  stream grows by events the rules allow (\<open>legal_next\<close>), and the event log stays well formed.
\<close>

theorem overlay_refines_rules:
  assumes "hooks_quiet C" "wf_store (core C) s"
  shows "wf_store (core C) (overlay_run C ops s) \<and> (\<forall>key. grows C (fact_events key s) (fact_events key (overlay_run C ops s)))"
  using run_lawful [OF assms(1), of s ops] assms(2) by (simp add: facts_step_def store_step_def)

text \<open>
  C12: a value that becomes current fits its fact's type.  In every run from an empty database, each
  confirmation of a value in a fact's stream comes after the proposal that fixed the fact's type, and the
  value passes the check of that type and use case, whichever handler wrote it.
\<close>

theorem confirmed_values_fit_type:
  assumes "hooks_quiet C" "fact_events key (overlay_run C ops empty_db) = pre @ e # post"
    "ev_type e = ''OVERLAY_FACT_CONFIRMED''" "dget (ev_payload e) ''value'' \<noteq> JNull"
  shows "pre \<noteq> [] \<and> is_proposed (hd pre) \<and> (\<exists>t. dget (ev_payload (hd pre)) ''fact_type'' = JStr t
    \<and> validate_typed C (JStr t) (dget (ev_payload e) ''value'') (dget (ev_payload (hd pre)) ''use_case'') = Inr ())"
proof -
  have l: "legal_stream C (pre @ e # post)"
    using run_legal [OF assms(1), of key ops] assms(2) by simp
  have "pre \<noteq> []"
    by (rule confirmed_after [OF l assms(3)])
  moreover from this have "is_proposed (hd pre)"
    using legal_first [of C "hd pre" "tl pre"] legal_stream_prefix [OF l] by simp
  ultimately show ?thesis
    using confirmed_fits [OF l assms(3,4)] by blast
qed


text \<open>
  C9: a rejection is sticky in the fact lifecycle.  Whatever the commands, the pollers and the catalog scan
  do to a store with legal streams, no proposal in a fact's stream has the fingerprint that an earlier
  rejection of the fact retired, even after other proposals have come and gone.  The upload's
  \<open>_assert_fact\<close> (\<open>upload/ingest.py\<close>) does not ask for retired fingerprints and is no operation of these runs;
  the upload's hooks in the commands write no event of a fact.
\<close>

theorem rejected_fingerprint_never_returns:
  assumes "hooks_quiet C" "wf_store (core C) s" "legal_stream C (fact_events key s)"
    "fact_events key (overlay_run C ops s) = pre @ r # mid @ p # post"
    "ev_type r = ''OVERLAY_FACT_REJECTED''" "ev_type p = ''OVERLAY_FACT_PROPOSED''"
  shows "dget (ev_payload p) ''proposal_fingerprint'' \<noteq> dget (ev_payload r) ''retired_fingerprint''"
proof -
  have "legal_stream C ((pre @ r # mid) @ p # post)"
    using run_legal_from [OF assms(1-3), of ops] assms(4) by simp
  then show ?thesis
    using rejected_stays assms(5,6) by (fastforce simp: retired_def)
qed

text \<open>
  C13: the fold of a stream is fail-closed.  In every run each fact's stream folds to a state; a fact with
  no event has no status; and a fact that is not verified (a draft, half-confirmed, rejected, due for
  re-verification or stale) has no current value.
\<close>

theorem only_verified_facts_have_a_value:
  assumes "hooks_quiet C"
  shows "\<exists>st. fold_overlay_state (fact_events key (overlay_run C ops empty_db)) = Inr st
    \<and> (os_status st = None \<longleftrightarrow> fact_events key (overlay_run C ops empty_db) = [])
    \<and> (os_status st \<noteq> Some ''VERIFIED'' \<longrightarrow> os_value st = JNull)"
proof -
  note l = run_legal [OF assms, of key ops]
  obtain st where st: "fold_overlay_state (fact_events key (overlay_run C ops empty_db)) = Inr st"
    using legal_folds [OF l] by blast
  have "os_status st = None \<longleftrightarrow> fact_events key (overlay_run C ops empty_db) = []"
    using legal_status_None [OF l st] st by (auto simp: fold_Nil initial_state_def)
  then show ?thesis
    using st current_value_verified [OF l st] by (intro exI [of _ st]) simp
qed

subsection \<open>Properties of the handlers\<close>

text \<open>
  C14: a refused command changes no fact.  When \<open>propose_fact\<close>, \<open>confirm_fact\<close>, \<open>reject_fact\<close> or
  \<open>enter_fact\<close> does not accept, it says why and the event log is as it was.
\<close>

theorem refused_command_changes_no_fact:
  assumes "h \<in> {propose_fact C, confirm_fact C, reject_fact C, enter_fact C}" "h cmd s = (Inr r, s')" "\<not> accepted r"
  shows "events s' = events s \<and> denied_reason r \<noteq> None"
proof -
  have "refuses_quietly (h cmd)"
    using assms(1) propose_refuses confirm_refuses reject_refuses enter_refuses by auto
  then show ?thesis
    using assms(2,3) by (auto simp: refuses_quietly_def calm_def)
qed

text \<open>
  C11: an accepted confirmation makes the fact current, unless the fact is a join of two owners (whose first
  confirmation is only half of one, C10).  It appends one event, after which the fact is verified with the
  value the command carried, or else with what the stream proposed (or last verified, after an expiry or a
  drift), until its time to live ends; a semantic fact is confirmed exactly as it stood, never with a value
  brought along.
\<close>

theorem confirm_makes_current:
  assumes "hooks_quiet C" "wf_store (core C) s" "confirm_fact C cmd s = (Inr r, s')" "accepted r"
    "fact_args (cm_args cmd) = Inr (ref, fact_type, use_case)" "\<not> two_owner_join C ref fact_type"
    "key = fact_key (core C) ref fact_type use_case"
  shows "\<exists>st d. fold_overlay_state (fact_events key s) = Inr st \<and> confirm_default st (fact_events key s) = Inr d
    \<and> (fact_type \<in> set SEMANTIC_TYPES \<longrightarrow> \<not> has_key (cm_args cmd) ''value'')
    \<and> confirmed_now C cmd fact_type key (clock s) (fact_events key s) (dget_or (cm_args cmd) ''value'' d) (fact_events key s')"
proof -
  let ?P = "\<lambda>xs. \<exists>st d. fold_overlay_state (fact_events key s) = Inr st \<and> confirm_default st (fact_events key s) = Inr d
    \<and> (fact_type \<in> set SEMANTIC_TYPES \<longrightarrow> \<not> has_key (cm_args cmd) ''value'')
    \<and> confirmed_now C cmd fact_type key (clock s) (fact_events key s) (dget_or (cm_args cmd) ''value'' d) xs"
  have "gives C key ?P s (confirm_fact C cmd)"
    by (rule gives_confirm [OF assms(2,1,5-7)]) (intro exI conjI; assumption)
  then show ?thesis
    using assms(3,4) by (simp add: gives_def)
qed

text \<open>
  C10: a join of two owners takes both.  An accepted confirmation of such a join is either the first,
  which only half-confirms it, or the second, which is by somebody else than the first and records both;
  and each is by someone who speaks for a side.
\<close>

theorem dual_join_takes_two:
  assumes "wf_store (core C) s" "confirm_fact C cmd s = (Inr r, s')" "accepted r"
    "fact_args (cm_args cmd) = Inr (ref, ''approved_join'', use_case)" "current_catalog_adapter C = Inr adapter"
    "resolve_authority adapter ref ''approved_join'' = Inr a" "at_dual a" "key = fact_key (core C) ref ''approved_join'' use_case"
  shows "\<exists>st e. fold_overlay_state (fact_events key s) = Inr st \<and> fact_events key s' = fact_events key s @ [e]
    \<and> join_decision a (cm_actor cmd) st e"
proof -
  have "gives C key (\<lambda>xs. \<exists>st e. fold_overlay_state (fact_events key s) = Inr st \<and> xs = fact_events key s @ [e]
      \<and> join_decision a (cm_actor cmd) st e) s (confirm_fact C cmd)"
    by (rule gives_confirm_dual [OF assms(1,4-8)]) auto
  then show ?thesis
    using assms(2,3) by (simp add: gives_def)
qed

end
