(* ===== verification/Overlay_History.thy ===== *)
theory Overlay_History
  imports Overlay_Outcomes "HOL-Library.Code_Target_Nat"
begin

text \<open>
  Histories of one fact, on which the properties of the overlay are evaluated: the grain of a table is
  entered by the table's owner, or proposed by somebody else and confirmed or rejected by the owner.
\<close>

definition sample_table :: CatalogObjectRef where
  "sample_table = \<lparr>rf_catalog_source = ''c'', rf_object_kind = ''table'', rf_schema = ''s'', rf_table = ''t'', rf_column = None\<rparr>"

definition sample_catalog :: CatalogAdapter where
  "sample_catalog = fixture_adapter \<lparr>fx_catalog_source = ''c'', fx_objects = [], fx_facts = [],
     fx_owners = [(''s.t'', ''bob''), (''s.u'', ''eve'')]\<rparr>"

definition fact_events_registered :: "string list" where
  "fact_events_registered = [''OVERLAY_FACT_PROPOSED'', ''OVERLAY_FACT_PARTIALLY_CONFIRMED'', ''OVERLAY_FACT_CONFIRMED'', ''OVERLAY_FACT_REJECTED'']"

definition sample_registry :: event_registry where
  "sample_registry = \<lparr>rg_schemas = map (\<lambda>t. ((t, 1), [])) fact_events_registered, rg_owners = map (\<lambda>t. ((t, 1), ''o'')) fact_events_registered,
     rg_status = map (\<lambda>t. ((t, 1), ''active'')) fact_events_registered, rg_upcasters = []\<rparr>"

text \<open>The digest of the sample is the length of the text.\<close>

definition sample_overlay :: overlay_env where
  "sample_overlay = \<lparr>core = sample_env\<lparr>env_registry := sample_registry, sha256_of := (\<lambda>t. dec (length t))\<rparr>,
     validation_message = (\<lambda>_ _. []), catalog_adapter = Some sample_catalog, overlay_config = None, jittered = (\<lambda>_ _ _. 0),
     known_entities = [], bridge_catalog_write_error = (\<lambda>_ _. None), upload_hook = (\<lambda>_. ret ())\<rparr>"

definition author_actor :: IdentityEnvelope where
  "author_actor = sample_actor\<lparr>subject := ''ana''\<rparr>"

definition owner_actor :: IdentityEnvelope where
  "owner_actor = sample_actor\<lparr>subject := ''bob'', role_claims := [''data_owner'']\<rparr>"

definition fact_command :: "string \<Rightarrow> IdentityEnvelope \<Rightarrow> dict \<Rightarrow> Command" where
  "fact_command action actor args = \<lparr>cm_action = action, cm_aggregate = ''overlay_fact'', cm_aggregate_id = None,
     cm_args = [(''ref'', JObj (object_ref_dict sample_table)), (''fact_type'', JStr ''grain'')] @ args, cm_actor = actor,
     cm_idempotency_key = ''k'', cm_expected_version = None\<rparr>"

definition grain_of :: "string list \<Rightarrow> json" where
  "grain_of cols = JObj [(''columns'', JArr (map JStr cols)), (''is_unique'', JBool True)]"

definition sample_key :: string where
  "sample_key = fact_key (core sample_overlay) (ObjectRef sample_table) ''grain'' None"

text \<open>What the evaluation looks at in an event: type, actor, proposed value, value.\<close>

definition summary :: "EventEnvelope \<Rightarrow> string \<times> string \<times> json \<times> json" where
  "summary e = (ev_type e, subject (ev_actor e), dget (ev_payload e) ''proposed_value'', dget (ev_payload e) ''value'')"

text \<open>The digits of an id without the nested quotients of the loop.\<close>

lemma encode_loop_digits: "encode_loop v k out = map (\<lambda>i. CROCKFORD ! (v div 32 ^ (k - Suc i) mod 32)) [0..<k] @ out"
proof (induction k arbitrary: v out)
  case (Suc k)
  have "map (\<lambda>i. CROCKFORD ! (v div 32 div 32 ^ (k - Suc i) mod 32)) [0..<k] = map (\<lambda>i. CROCKFORD ! (v div 32 ^ (Suc k - Suc i) mod 32)) [0..<k]"
    by (intro map_cong refl) (simp add: div_mult2_eq [symmetric] power_Suc [symmetric] Suc_diff_Suc del: power_Suc)
  then show ?case by (simp add: Suc)
qed simp

lemma encode_digits [code]: "encode v k = map (\<lambda>i. CROCKFORD ! (v div 32 ^ (k - Suc i) mod 32)) [0..<k]"
  by (simp add: encode_def encode_loop_digits)

text \<open>The equations of a program applied to its state, so that a step is evaluated at a concrete state only.\<close>

lemma applied_steps [code]:
  "mint_id E pre s = (Inr (mint_id_text pre (nat (clock s div 1000)) (urandom E (draws s))), s\<lparr>draws := Suc (draws s)\<rparr>)"
  "andthen m f s = (case m s of (Inl e, s') \<Rightarrow> (Inl e, s') | (Inr x, s') \<Rightarrow> f x s')"
  "savepoint undo m s = (case m s of (Inl e, s') \<Rightarrow> (Inl e, undo s s') | (Inr x, s') \<Rightarrow> (Inr x, s'))"
  "catch m h s = (case m s of (Inl e, s') \<Rightarrow> h e s' | (Inr x, s') \<Rightarrow> (Inr x, s'))"
  "attempt m s = (case m s of (r, s') \<Rightarrow> (Inr r, s'))"
  by (auto simp: mint_id_def andthen_def savepoint_def catch_def attempt_def split: prod.split sum.split)

lemmas handlers_at [code] =
  propose_fact_def [THEN fun_cong, unfolded prog_simps] confirm_fact_def [THEN fun_cong, unfolded prog_simps]
  reject_fact_def [THEN fun_cong, unfolded prog_simps] enter_fact_def [THEN fun_cong, unfolded prog_simps]
  submit_proposal_def [THEN fun_cong, unfolded prog_simps] confirm_single_def [THEN fun_cong, unfolded prog_simps]
  write_confirmation_def [THEN fun_cong, unfolded prog_simps] append_overlay_event_def [THEN fun_cong, unfolded prog_simps]
  append_def [THEN fun_cong, unfolded prog_simps] open_task_def [THEN fun_cong, unfolded prog_simps]

text \<open>The owner of the table enters its grain directly.\<close>

definition entry_ops :: "overlay_op list" where
  "entry_ops = [EnterFact (fact_command ''enter_fact'' owner_actor [(''proposed_value'', grain_of [''id''])])]"

lemma entry_run:
  "map summary (fact_events sample_key (overlay_run sample_overlay entry_ops empty_db)) =
     [(''OVERLAY_FACT_PROPOSED'', ''bob'', grain_of [''id''], JNull), (''OVERLAY_FACT_CONFIRMED'', ''bob'', JNull, grain_of [''id''])]"
  by code_simp

lemma sample_hooks: "hooks_quiet sample_overlay"
  by (simp add: hooks_quiet_def sample_overlay_def quiet.keeps_ret)

lemma entry_events:
  obtains p c where "fact_events sample_key (overlay_run sample_overlay entry_ops empty_db) = [p, c]"
    "ev_type c = ''OVERLAY_FACT_CONFIRMED''" "dget (ev_payload c) ''value'' = grain_of [''id'']"
  using entry_run by (auto simp: map_eq_Cons_conv summary_def)

theorem overlay_refines_rules_witness:
  "\<exists>p c. fact_events sample_key (overlay_run sample_overlay entry_ops empty_db) = [p, c] \<and> grows sample_overlay [] [p, c]"
proof -
  obtain p c where e: "fact_events sample_key (overlay_run sample_overlay entry_ops empty_db) = [p, c]"
    using entry_events by metis
  then show ?thesis
    using overlay_refines_rules [OF sample_hooks wf_empty_db, of entry_ops] by (metis fact_events_empty)
qed

theorem confirmed_values_fit_type_witness:
  "\<exists>p c t. fact_events sample_key (overlay_run sample_overlay entry_ops empty_db) = [p, c] \<and> dget (ev_payload p) ''fact_type'' = JStr t
     \<and> validate_typed sample_overlay (JStr t) (grain_of [''id'']) (dget (ev_payload p) ''use_case'') = Inr ()"
proof -
  obtain p c where e: "fact_events sample_key (overlay_run sample_overlay entry_ops empty_db) = [p, c]"
    "ev_type c = ''OVERLAY_FACT_CONFIRMED''" "dget (ev_payload c) ''value'' = grain_of [''id'']"
    using entry_events by metis
  then show ?thesis
    using confirmed_values_fit_type [OF sample_hooks, of sample_key entry_ops "[p]" c "[]"] by (auto simp: grain_of_def)
qed

theorem only_verified_facts_have_a_value_witness:
  "\<exists>st. fold_overlay_state (fact_events sample_key (overlay_run sample_overlay entry_ops empty_db)) = Inr st
    \<and> os_status st \<noteq> None \<and> (os_status st \<noteq> Some ''VERIFIED'' \<longrightarrow> os_value st = JNull)"
proof -
  obtain p c where "fact_events sample_key (overlay_run sample_overlay entry_ops empty_db) = [p, c]"
    using entry_events by metis
  then show ?thesis
    using only_verified_facts_have_a_value [OF sample_hooks, of sample_key entry_ops] by auto
qed

definition bad_proposal :: Command where
  "bad_proposal = fact_command ''propose_fact'' author_actor [(''proposed_value'', JObj [])]"

lemma bad_proposal_refused:
  "case propose_fact sample_overlay bad_proposal empty_db of (Inl _, _) \<Rightarrow> False | (Inr r, _) \<Rightarrow> \<not> accepted r"
  by code_simp

theorem refused_command_changes_no_fact_witness:
  "\<exists>r s'. propose_fact sample_overlay bad_proposal empty_db = (Inr r, s') \<and> \<not> accepted r \<and> events s' = [] \<and> denied_reason r \<noteq> None"
proof -
  obtain r s' where r: "propose_fact sample_overlay bad_proposal empty_db = (Inr r, s')" "\<not> accepted r"
    using bad_proposal_refused by (auto split: prod.splits sum.splits)
  then show ?thesis
    using refused_command_changes_no_fact [of "propose_fact sample_overlay" sample_overlay bad_proposal empty_db r s']
    by (simp add: empty_db_def)
qed

subsection \<open>A store with a fact in it\<close>

definition fact_row :: "string \<Rightarrow> nat \<Rightarrow> string \<Rightarrow> dict \<Rightarrow> IdentityEnvelope \<Rightarrow> event_row" where
  "fact_row key n typ payload actor =
     event_row_of (new_event_of (overlay_spec key typ payload actor None None) 0) key (replicate n CHR ''e'') (int n) 1 0 (int n) 0"

definition store_of :: "event_row list \<Rightarrow> db" where
  "store_of rows = empty_db\<lparr>events := rows, gseq := 9\<rparr>"

lemma fact_row_event:
  "ev_type (event_of (fact_row key n typ payload actor)) = typ" "ev_payload (event_of (fact_row key n typ payload actor)) = payload"
  "ev_actor (event_of (fact_row key n typ payload actor)) = actor" "decodable (fact_row key n typ payload actor)"
  "ev_aggregate (event_of (fact_row key n typ payload actor)) = ''overlay_fact''"
  "ev_aggregate_id (event_of (fact_row key n typ payload actor)) = key"
  "ev_global_seq (event_of (fact_row key n typ payload actor)) = int n"
  using row_to_event_appended [OF refl, of "new_event_of (overlay_spec key typ payload actor None None) 0" key "replicate n CHR ''e''" "int n" 1 0 "int n" 0]
  by (simp_all add: fact_row_def event_of_def decodable_def appended_envelope_def new_event_of_def event_row_of_def)

lemma fact_row_fields [simp]:
  "er_aggregate (fact_row key n typ payload actor) = ''overlay_fact''" "er_aggregate_id (fact_row key n typ payload actor) = key"
  "er_stream_version (fact_row key n typ payload actor) = int n" "er_global_seq (fact_row key n typ payload actor) = int n"
  "er_event_id (fact_row key n typ payload actor) = replicate n CHR ''e''" "er_payload (fact_row key n typ payload actor) = payload"
  "er_type (fact_row key n typ payload actor) = typ" "er_schema_version (fact_row key n typ payload actor) = 1"
  by (simp_all add: fact_row_def event_row_of_def new_event_of_def)

lemma store_of_events: "events (store_of rows) = rows" "gseq (store_of rows) = 9"
  by (simp_all add: store_of_def empty_db_def)

lemma registered_schema: "typ \<in> set fact_events_registered \<Longrightarrow> map_of (rg_schemas sample_registry) (typ, 1) = Some []"
proof -
  have "map_of (map (\<lambda>t. ((t, 1 :: int), [] :: dict)) ts) (typ, 1) = Some []" if "typ \<in> set ts" for ts
    using that by (induction ts) auto
  then show "typ \<in> set fact_events_registered \<Longrightarrow> map_of (rg_schemas sample_registry) (typ, 1) = Some []"
    by (simp add: sample_registry_def)
qed

lemma fact_row_ok:
  assumes "clean payload" "typ \<in> set fact_events_registered"
  shows "row_ok (core sample_overlay) (fact_row key n typ payload actor)"
proof -
  have "js_valid (core sample_overlay) [] payload"
    by (simp add: sample_overlay_def sample_env_def schema_subset_valid_def dget_def list_all_iff split_beta)
  moreover have "env_registry (core sample_overlay) = sample_registry"
    by (simp add: sample_overlay_def)
  ultimately show ?thesis
    by (simp add: row_ok_def fact_row_event registry_validate_def registered_schema assms)
qed

definition grain_proposal :: "string list \<Rightarrow> string \<Rightarrow> dict" where
  "grain_proposal cols fp = proposal_payload (ObjectRef sample_table) ''grain'' None (grain_of cols) fp None author_actor"

definition proposed_row :: "nat \<Rightarrow> string list \<Rightarrow> string \<Rightarrow> event_row" where
  "proposed_row n cols fp = fact_row sample_key n ''OVERLAY_FACT_PROPOSED'' (grain_proposal cols fp) author_actor"

definition rejected_row :: event_row where
  "rejected_row = fact_row sample_key 2 ''OVERLAY_FACT_REJECTED''
     [(''rejected_by'', JStr ''bob''), (''target_event_id'', JStr ''e''), (''retired_fingerprint'', JStr ''94'')] owner_actor"

lemma sample_payloads_clean:
  "clean (grain_proposal [''id''] ''94'')" "clean (grain_proposal [''id'', ''at''] ''100'')"
  "clean [(''rejected_by'', JStr ''bob''), (''target_event_id'', JStr ''e''), (''retired_fingerprint'', JStr ''94'')]"
  by code_simp+

definition disputed_rows :: "event_row list" where
  "disputed_rows = [proposed_row 1 [''id''] ''94'', rejected_row, proposed_row 3 [''id'', ''at''] ''100'']"

lemma disputed_wf: "wf_store (core sample_overlay) (store_of disputed_rows)"
  by (auto simp: wf_store_def store_of_events disputed_rows_def proposed_row_def rejected_row_def contiguous_def stream_rows_def
      fact_row_ok sample_payloads_clean fact_events_registered_def upt_rec numeral_eq_Suc)

lemma disputed_stream: "fact_events sample_key (store_of disputed_rows) = map event_of disputed_rows"
  by (simp add: fact_events_def stream_rows_def store_of_events disputed_rows_def proposed_row_def rejected_row_def)

lemma disputed_legal: "legal_stream sample_overlay (map event_of disputed_rows)"
proof -
  have "legal_next sample_overlay [] (event_of (proposed_row 1 [''id''] ''94''))"
    "legal_next sample_overlay [event_of (proposed_row 1 [''id''] ''94'')] (event_of rejected_row)"
    "legal_next sample_overlay [event_of (proposed_row 1 [''id''] ''94''), event_of rejected_row] (event_of (proposed_row 3 [''id'', ''at''] ''100''))"
    by code_simp+
  then have "legal_stream sample_overlay ((([] @ [event_of (proposed_row 1 [''id''] ''94'')]) @ [event_of rejected_row]) @ [event_of (proposed_row 3 [''id'', ''at''] ''100'')])"
    by (intro legal_stream_snoc legal_stream_Nil) simp_all
  then show ?thesis by (simp add: disputed_rows_def)
qed

text \<open>The owner rejects the second proposal too.\<close>

definition sticky_ops :: "overlay_op list" where
  "sticky_ops = [RejectFact (fact_command ''reject_fact'' owner_actor [(''target_event_id'', JStr ''eee'')])]"

lemma sticky_run:
  "map summary (fact_events sample_key (overlay_run sample_overlay sticky_ops (store_of disputed_rows))) =
     [(''OVERLAY_FACT_PROPOSED'', ''ana'', grain_of [''id''], JNull), (''OVERLAY_FACT_REJECTED'', ''bob'', JNull, JNull),
      (''OVERLAY_FACT_PROPOSED'', ''ana'', grain_of [''id'', ''at''], JNull), (''OVERLAY_FACT_REJECTED'', ''bob'', JNull, JNull)]"
  by code_simp

theorem rejected_fingerprint_never_returns_witness:
  "\<exists>p r q d. fact_events sample_key (overlay_run sample_overlay sticky_ops (store_of disputed_rows)) = [p, r, q, d]
     \<and> ev_type r = ''OVERLAY_FACT_REJECTED'' \<and> ev_type q = ''OVERLAY_FACT_PROPOSED''
     \<and> dget (ev_payload q) ''proposal_fingerprint'' \<noteq> dget (ev_payload r) ''retired_fingerprint''"
proof -
  obtain p r q d where e: "fact_events sample_key (overlay_run sample_overlay sticky_ops (store_of disputed_rows)) = [p, r, q, d]"
    "ev_type r = ''OVERLAY_FACT_REJECTED''" "ev_type q = ''OVERLAY_FACT_PROPOSED''"
    using sticky_run by (auto simp: map_eq_Cons_conv summary_def)
  then show ?thesis
    using rejected_fingerprint_never_returns [OF sample_hooks disputed_wf, of sample_key sticky_ops "[p]" r "[]" q "[d]"]
      disputed_legal disputed_stream by simp
qed

definition drafted_store :: db where
  "drafted_store = store_of [proposed_row 1 [''id''] ''94'']"

definition sample_confirm :: Command where
  "sample_confirm = fact_command ''confirm_fact'' owner_actor [(''target_event_id'', JStr ''e'')]"

lemma sample_confirm_accepted:
  "case confirm_fact sample_overlay sample_confirm drafted_store of (Inl _, _) \<Rightarrow> False | (Inr r, _) \<Rightarrow> accepted r"
  by code_simp

lemma sample_confirm_args: "fact_args (cm_args sample_confirm) = Inr (ObjectRef sample_table, ''grain'', None)"
  by code_simp

lemma drafted_wf: "wf_store (core sample_overlay) drafted_store"
  by (auto simp: wf_store_def drafted_store_def store_of_events proposed_row_def contiguous_def stream_rows_def
      fact_row_ok sample_payloads_clean fact_events_registered_def)




theorem confirm_makes_current_witness:
  "\<exists>r s' d. confirm_fact sample_overlay sample_confirm drafted_store = (Inr r, s')
     \<and> confirmed_now sample_overlay sample_confirm ''grain'' sample_key 0 (fact_events sample_key drafted_store) d (fact_events sample_key s')"
proof -
  obtain r s' where r: "confirm_fact sample_overlay sample_confirm drafted_store = (Inr r, s')" "accepted r"
    using sample_confirm_accepted by (auto split: prod.splits sum.splits)
  have "clock drafted_store = 0"
    by (simp add: drafted_store_def store_of_def empty_db_def)
  then show ?thesis
    using confirm_makes_current [OF sample_hooks drafted_wf r sample_confirm_args _ sample_key_def] r(1)
    by (auto simp: two_owner_join_def)
qed

subsection \<open>A join of two owners\<close>

definition sample_join :: fact_ref where
  "sample_join = JoinRef \<lparr>jn_from_ref = sample_table, jn_to_ref = sample_table\<lparr>rf_table := ''u''\<rparr>,
     jn_column_pairs = [\<lparr>cp_from_col = ''id'', cp_to_col = ''id''\<rparr>], jn_cardinality = Some ''1:1''\<rparr>"

definition join_key :: string where
  "join_key = fact_key (core sample_overlay) sample_join ''approved_join'' None"

definition join_row :: event_row where
  "join_row = fact_row join_key 1 ''OVERLAY_FACT_PROPOSED''
     (proposal_payload sample_join ''approved_join'' None (JObj (asdict_ref sample_join)) ''7'' None author_actor) author_actor"

definition join_confirm :: Command where
  "join_confirm = \<lparr>cm_action = ''confirm_fact'', cm_aggregate = ''overlay_fact'', cm_aggregate_id = None,
     cm_args = [(''ref'', JObj (asdict_ref sample_join)), (''fact_type'', JStr ''approved_join''), (''target_event_id'', JStr ''e'')],
     cm_actor = owner_actor, cm_idempotency_key = ''k'', cm_expected_version = None\<rparr>"

definition join_authority :: Authority where
  "join_authority = (authority ''data_owner'' ''OVERLAY_DATA_OWNER'' [Some ''bob'', Some ''eve''] False)\<lparr>at_dual := True\<rparr>"

lemma join_adapter: "current_catalog_adapter sample_overlay = Inr sample_catalog"
  by (simp add: current_catalog_adapter_def sample_overlay_def)

lemma join_facts:
  "fact_args (cm_args join_confirm) = Inr (sample_join, ''approved_join'', None)"
  "resolve_authority sample_catalog sample_join ''approved_join'' = Inr join_authority" "at_dual join_authority"
  "clean (proposal_payload sample_join ''approved_join'' None (JObj (asdict_ref sample_join)) ''7'' None author_actor)"
  by code_simp+

lemma join_accepted:
  "case confirm_fact sample_overlay join_confirm (store_of [join_row]) of (Inl _, _) \<Rightarrow> False | (Inr r, _) \<Rightarrow> accepted r"
  by code_simp

lemma join_wf: "wf_store (core sample_overlay) (store_of [join_row])"
  by (auto simp: wf_store_def store_of_events join_row_def contiguous_def stream_rows_def fact_row_ok join_facts fact_events_registered_def)

theorem dual_join_takes_two_witness:
  "\<exists>r s' st e. confirm_fact sample_overlay join_confirm (store_of [join_row]) = (Inr r, s')
     \<and> fact_events join_key s' = fact_events join_key (store_of [join_row]) @ [e] \<and> join_decision join_authority owner_actor st e"
proof -
  obtain r s' where r: "confirm_fact sample_overlay join_confirm (store_of [join_row]) = (Inr r, s')" "accepted r"
    using join_accepted by (auto split: prod.splits sum.splits)
  have "cm_actor join_confirm = owner_actor"
    by (simp add: join_confirm_def)
  then show ?thesis
    using dual_join_takes_two [OF join_wf r join_facts(1) join_adapter join_facts(2,3) join_key_def] r(1) by auto
qed

end
