(* ===== verification/Overlay_Serving.thy ===== *)
theory Overlay_Serving
  imports Overlay_Mirror Overlay_History
begin

text \<open>
  From the log to the reader: what the resolver serves out of a rebuilt read model is what the fact's
  stream last confirmed.
\<close>

text \<open>
  C15: the read model says what the streams say.  Take a rebuild from a log in which the fact's stream is
  legal, in order, and of a bridge throughout or not at all (\<open>projectable\<close>).  A fact whose proposals are
  of a bridge has no row (the tables do not model bridges).  Any other fact has a proposal row exactly when
  it has events, with the status its stream folds to; and once it was ever confirmed it has a state row,
  which holds the current and the prior value of the fold, and its status too - except while the fact is
  half confirmed, where the state row keeps the \<open>DRAFT\<close>, \<open>REVERIFY\<close> or \<open>STALE\<close> it said before.  So it says
  \<open>VERIFIED\<close> exactly when the fold does.
\<close>

theorem read_model_mirrors_streams:
  assumes "projectable C fk es" "rebuild es s = (Inr ys, s')" "xs = filter (of_fact fk) es"
  shows "if list_ex bridge_proposal xs then read_proposal fk s' = None \<and> current_fact fk s' = None
    else \<exists>st. fold_overlay_state xs = Inr st
    \<and> (case read_proposal fk s' of None \<Rightarrow> xs = [] | Some p \<Rightarrow> xs \<noteq> [] \<and> os_status st = Some (pr_status p))
    \<and> (case current_fact fk s' of
         None \<Rightarrow> \<forall>e \<in> set xs. ev_type e \<noteq> ''OVERLAY_FACT_CONFIRMED''
       | Some r \<Rightarrow> fs_value r = os_value st \<and> fs_prior_value r = os_prior_value st
           \<and> (if os_status st = Some ''PARTIALLY_CONFIRMED'' then fs_status r \<in> {''DRAFT'', ''REVERIFY'', ''STALE''}
              else os_status st = Some (fs_status r)))"
proof (cases "list_ex bridge_proposal xs")
  case True
  then have "\<forall>e \<in> set (filter (of_fact fk) es). is_proposed e \<longrightarrow> bridge_proposal e"
    using assms(1,3) by (auto simp: projectable_def Let_def list_ex_iff)
  then show ?thesis
    using True rebuild_bridge [OF assms(2)] by (simp add: bare_def)
next
  case False
  then have "\<forall>e \<in> set (filter (of_fact fk) es). \<not> bridge_proposal e"
    using assms(3) by (auto simp: list_ex_iff)
  then obtain m where "mirrors fk xs m s'"
    using rebuild_mirrors [OF assms(1,2)] assms(3) by blast
  then show ?thesis
    using False unfolding mirrors_def by (auto split: option.splits)
qed

text \<open>
  C7: what is served is what was confirmed.  A value the resolver serves from a read model rebuilt from
  a log that is \<open>projectable\<close> for the fact is the current value of the fact's stream, which folds to \<open>VERIFIED\<close>.
\<close>

theorem served_value_is_the_confirmed_one:
  assumes "projectable C (fact_key (core C) ref fact_type use_case) es" "rebuild es s = (Inr ys, s1)"
    "resolve_fact C a ref fact_type use_case at s1 = (Inr rf, s2)" "rs_source rf = ''overlay''" "rs_value rf \<noteq> JNull"
  shows "\<exists>st. fold_overlay_state (filter (of_fact (fact_key (core C) ref fact_type use_case)) es) = Inr st
    \<and> os_status st = Some ''VERIFIED'' \<and> os_value st = rs_value rf"
proof -
  let ?k = "fact_key (core C) ref fact_type use_case"
  obtain row where row: "current_fact ?k s1 = Some row" "fs_status row = ''VERIFIED''" "rs_value rf = fs_value row"
    using resolved_overlay_row [OF assms(3,5,4)] by blast
  have "\<not> (\<forall>e \<in> set (filter (of_fact ?k) es). is_proposed e \<longrightarrow> bridge_proposal e)"
  proof
    assume "\<forall>e \<in> set (filter (of_fact ?k) es). is_proposed e \<longrightarrow> bridge_proposal e"
    from rebuild_bridge [OF assms(2) this] row(1) show False
      by (simp add: bare_def)
  qed
  then have "\<forall>e \<in> set (filter (of_fact ?k) es). \<not> bridge_proposal e"
    using assms(1) by (auto simp: projectable_def Let_def)
  from rebuild_mirrors [OF assms(1,2) this] show ?thesis
    using row by (auto simp: mirrors_def split: option.splits if_splits)
qed

subsection \<open>The history of a served fact\<close>

definition confirmed_event_row :: event_row where
  "confirmed_event_row = fact_row sample_key 2 ''OVERLAY_FACT_CONFIRMED''
     [(''value'', grain_of [''id'']), (''confirmers'', JArr [confirmer ''bob'' ''data_owner'']), (''confirms_event_id'', JStr ''e'')] owner_actor"

definition served_log :: "EventEnvelope list" where
  "served_log = [event_of (proposed_row 1 [''id''] ''94''), event_of confirmed_event_row]"

lemma served_legal: "legal_stream sample_overlay served_log"
proof -
  have "legal_next sample_overlay [] (event_of (proposed_row 1 [''id''] ''94''))"
    "legal_next sample_overlay [event_of (proposed_row 1 [''id''] ''94'')] (event_of confirmed_event_row)"
    by code_simp+
  then have "legal_stream sample_overlay (([] @ [event_of (proposed_row 1 [''id''] ''94'')]) @ [event_of confirmed_event_row])"
    by (intro legal_stream_snoc legal_stream_Nil) simp_all
  then show ?thesis by (simp add: served_log_def)
qed

lemma served_of_fact: "filter (of_fact fk) served_log = (if fk = sample_key then served_log else [])"
  by (auto simp: served_log_def of_fact_def proposed_row_def confirmed_event_row_def fact_row_event)

lemma served_no_bridge: "\<not> list_ex bridge_proposal served_log"
  by (simp add: bridge_proposal_def served_log_def proposed_row_def confirmed_event_row_def fact_row_event grain_proposal_def
      proposal_payload_def dget_def)

lemma served_projectable: "projectable sample_overlay fk served_log"
proof -
  have "sorted_wrt (<) (map ev_global_seq served_log)"
    by (simp add: served_log_def proposed_row_def confirmed_event_row_def fact_row_event)
  moreover have "\<forall>e \<in> set served_log. \<not> bridge_proposal e"
    using served_no_bridge by (simp add: list_ex_iff)
  ultimately show ?thesis
    by (simp add: projectable_def served_of_fact served_legal legal_stream_Nil Let_def)
qed

lemma served_run:
  "case rebuild served_log empty_db of
     (Inl _, _) \<Rightarrow> False
   | (Inr _, s1) \<Rightarrow> (case resolve_fact sample_overlay sample_catalog (ObjectRef sample_table) ''grain'' None None s1 of
       (Inl _, _) \<Rightarrow> False
     | (Inr rf, _) \<Rightarrow> rs_source rf = ''overlay'' \<and> rs_value rf = grain_of [''id''])"
  by code_simp

lemma served_results:
  obtains ys s1 rf s2 where "rebuild served_log empty_db = (Inr ys, s1)"
    "resolve_fact sample_overlay sample_catalog (ObjectRef sample_table) ''grain'' None None s1 = (Inr rf, s2)"
    "rs_source rf = ''overlay''" "rs_value rf = grain_of [''id'']" "rs_value rf \<noteq> JNull"
  using served_run by (auto simp: grain_of_def split: prod.splits sum.splits)

theorem read_model_mirrors_streams_witness:
  "\<exists>ys s1 st r. rebuild served_log empty_db = (Inr ys, s1) \<and> fold_overlay_state served_log = Inr st
     \<and> (case read_proposal sample_key s1 of None \<Rightarrow> False | Some p \<Rightarrow> os_status st = Some (pr_status p))
     \<and> current_fact sample_key s1 = Some r \<and> fs_value r = os_value st"
proof -
  obtain ys s1 where r: "rebuild served_log empty_db = (Inr ys, s1)"
    using served_results by metis
  have "event_of confirmed_event_row \<in> set served_log" "ev_type (event_of confirmed_event_row) = ''OVERLAY_FACT_CONFIRMED''"
    by (simp_all add: served_log_def confirmed_event_row_def fact_row_event)
  then show ?thesis
    using read_model_mirrors_streams [OF served_projectable r, of served_log sample_key] r served_no_bridge
    by (auto simp: served_of_fact split: option.splits)
qed

theorem served_value_is_the_confirmed_one_witness:
  "\<exists>st. fold_overlay_state served_log = Inr st \<and> os_status st = Some ''VERIFIED'' \<and> os_value st = grain_of [''id'']"
proof -
  obtain ys s1 rf s2 where r: "rebuild served_log empty_db = (Inr ys, s1)"
    "resolve_fact sample_overlay sample_catalog (ObjectRef sample_table) ''grain'' None None s1 = (Inr rf, s2)"
    "rs_source rf = ''overlay''" "rs_value rf = grain_of [''id'']" "rs_value rf \<noteq> JNull"
    using served_results by metis
  then show ?thesis
    using served_value_is_the_confirmed_one [OF served_projectable r(1-3,5)] by (simp add: served_of_fact sample_key_def [symmetric])
qed

text \<open>The same under a sealed configuration, with the table's catalog scanned ten microseconds ago.\<close>

definition sealed_config :: OverlayConfig where
  "sealed_config = \<lparr>ttl_default = 60, ttl_min = 20, ttl_max = 90, ttl_jitter_fraction = 0, renewal_grace = 5, drift_scan_interval = 10,
     drift_freshness_sla = 30, profiler_require_restricted_role = False, ttl_by_fact_type = [], profiler_rules = []\<rparr>"

definition sealed_overlay :: overlay_env where
  "sealed_overlay = sample_overlay\<lparr>overlay_config := Some sealed_config\<rparr>"

definition scanned_db :: db where
  "scanned_db = empty_db\<lparr>clock := 100,
     projection_checkpoints := [\<lparr>ck_projection_name = ''overlay'', ck_checkpoint_seq = 2, ck_head_seq = 2, ck_is_analytics = False\<rparr>],
     overlay_drift_watermark := [\<lparr>wm_catalog_source = ''c'', wm_last_completed_at = 90, wm_last_run_id = ''drift'', wm_head_seq = 2\<rparr>]\<rparr>"

lemma sealed_run:
  "overlay_config_ok sealed_config = Inr ()"
  "case rebuild served_log scanned_db of
     (Inl _, _) \<Rightarrow> False
   | (Inr _, s1) \<Rightarrow> dependent_sources sample_key s1 = [''c'']
      \<and> (case resolve_fact sealed_overlay sample_catalog (ObjectRef sample_table) ''grain'' None None s1 of
       (Inl _, _) \<Rightarrow> False
     | (Inr rf, _) \<Rightarrow> rs_source rf = ''overlay'' \<and> rs_value rf = grain_of [''id''])"
  by code_simp+

theorem served_values_are_fresh_witness:
  "\<exists>ys s1 rf s2. rebuild served_log scanned_db = (Inr ys, s1)
     \<and> resolve_fact sealed_overlay sample_catalog (ObjectRef sample_table) ''grain'' None None s1 = (Inr rf, s2)
     \<and> rs_source rf = ''overlay'' \<and> rs_status rf = ''VERIFIED'' \<and> s2 = s1
     \<and> overlay_config sealed_overlay = Some sealed_config \<and> proven_fresh sealed_config s1 sample_key (clock s1)
     \<and> dependent_sources sample_key s1 = [''c'']"
proof -
  obtain ys s1 rf s2 where r: "rebuild served_log scanned_db = (Inr ys, s1)" "dependent_sources sample_key s1 = [''c'']"
    "resolve_fact sealed_overlay sample_catalog (ObjectRef sample_table) ''grain'' None None s1 = (Inr rf, s2)"
    "rs_source rf = ''overlay''" "rs_value rf = grain_of [''id'']"
    using sealed_run(2) by (auto split: prod.splits sum.splits)
  have v: "rs_value rf \<noteq> JNull"
    using r(5) by (simp add: grain_of_def)
  have c: "overlay_config sealed_overlay = Some sealed_config" "fact_key (core sealed_overlay) (ObjectRef sample_table) ''grain'' None = sample_key"
    by (simp_all add: sealed_overlay_def sample_key_def)
  show ?thesis
    using served_values_are_fresh [OF r(3) v refl refl] r c by auto
qed

end
