(* ===== verification/Safety_Floor.thy ===== *)
theory Safety_Floor
  imports Overlay_Rules
begin

text \<open>
  The sensitivity floor of \<open>overlay/safety_floor.py\<close>: evidence only raises a fact's sensitivity, and only
  a governed override takes it below its floor.
\<close>

definition SENSITIVITY_ORDER :: "string list" where
  "SENSITIVITY_ORDER = [''public'', ''internal'', ''confidential'', ''restricted'', ''prohibited'']"

definition PROHIBITED :: string where "PROHIBITED = ''prohibited''"

datatype GovernanceAuthority = DATA_OWNER | SECURITY | PRIVACY | MODEL_RISK

definition DOWNGRADE_AUTHORITIES :: "GovernanceAuthority list" where
  "DOWNGRADE_AUTHORITIES = [PRIVACY, SECURITY]"

primrec authority_value :: "GovernanceAuthority \<Rightarrow> string" where
  "authority_value DATA_OWNER = ''data_owner''"
| "authority_value SECURITY = ''security''"
| "authority_value PRIVACY = ''privacy''"
| "authority_value MODEL_RISK = ''model_risk''"

record SafetyOverride =
  sf_fact_key :: string
  sf_field :: string
  sf_previous_floor :: string
  sf_override_value :: string
  sf_approved_by_authority :: GovernanceAuthority
  sf_rationale :: string
  sf_policy_reference :: string
  sf_effective_from :: "int option"
  sf_effective_until :: "int option"

record SafetyOverrideRecord =
  sr_override_id :: string
  sr_override :: SafetyOverride
  sr_created_by :: dict
  sr_created_at :: int

text \<open>\<open>tuple.index\<close>.\<close>

primrec index_of :: "'a \<Rightarrow> 'a list \<Rightarrow> nat" where
  "index_of x [] = 0"
| "index_of x (y # ys) = (if x = y then 0 else Suc (index_of x ys))"

definition rank :: "string \<Rightarrow> nat" where
  "rank v = (if v \<in> set SENSITIVITY_ORDER then index_of v SENSITIVITY_ORDER else index_of PROHIBITED SENSITIVITY_ORDER)"

definition normalize :: "string \<Rightarrow> string" where
  "normalize v = (if v \<in> set SENSITIVITY_ORDER then v else PROHIBITED)"

definition override_is_effective :: "SafetyOverride \<Rightarrow> int \<Rightarrow> bool" where
  "override_is_effective ov now \<longleftrightarrow>
     (case sf_effective_from ov of None \<Rightarrow> True | Some t \<Rightarrow> \<not> now < t)
     \<and> (case sf_effective_until ov of None \<Rightarrow> True | Some t \<Rightarrow> \<not> now > t)"

definition override_permits_downgrade :: "SafetyOverride option \<Rightarrow> string \<Rightarrow> string \<Rightarrow> int \<Rightarrow> bool" where
  "override_permits_downgrade ov floor force_to now =
     (case ov of
        None \<Rightarrow> False
      | Some x \<Rightarrow> sf_field x = ''sensitivity'' \<and> sf_previous_floor x = floor \<and> sf_override_value x = force_to
          \<and> sf_approved_by_authority x \<in> set DOWNGRADE_AUTHORITIES \<and> override_is_effective x now)"

text \<open>\<open>max(xs, key=_rank)\<close> keeps the first of the greatest.\<close>

definition most_restrictive :: "string \<Rightarrow> string list \<Rightarrow> string" where
  "most_restrictive floor proposals = foldl (\<lambda>best v. if rank best < rank v then v else best) floor proposals"

definition apply_sensitivity_floor ::
  "string \<Rightarrow> string list \<Rightarrow> SafetyOverride option \<Rightarrow> string option \<Rightarrow> int \<Rightarrow> exn + string" where
  "apply_sensitivity_floor floor proposals ov force_to now =
     (let effective = normalize (most_restrictive floor proposals) in
      case force_to of
        None \<Rightarrow> Inr effective
      | Some v \<Rightarrow>
          if rank (normalize v) \<ge> rank effective then Inr (normalize v)
          else if \<not> override_permits_downgrade ov floor v now then Inl PermissionError
          else Inr (normalize v))"

definition insert_override :: "override_row \<Rightarrow> unit dbprog" where
  "insert_override row = (\<lambda>s.
     if so_override_id row \<in> so_override_id ` set (safety_override s) then (Inl (UniqueViolation ''safety_override_pkey''), s)
     else (Inr (), s\<lparr>safety_override := safety_override s @ [row]\<rparr>))"

definition record_safety_override :: "env \<Rightarrow> string \<Rightarrow> SafetyOverride \<Rightarrow> dict \<Rightarrow> string dbprog" where
  "record_safety_override E key ov created_by =
     (if key \<noteq> sf_fact_key ov then throw ValueError
      else
     andthen (mint_id E ''sfo'') (\<lambda>override_id.
     andthen (query clock) (\<lambda>now.
     andthen (insert_override \<lparr>so_override_id = override_id, so_fact_key = key, so_field = sf_field ov,
       so_previous_floor = sf_previous_floor ov, so_override_value = sf_override_value ov,
       so_approved_by_authority = authority_value (sf_approved_by_authority ov), so_rationale = sf_rationale ov,
       so_policy_reference = sf_policy_reference ov, so_effective_from = sf_effective_from ov,
       so_effective_until = sf_effective_until ov, so_created_by = created_by, so_created_at = now\<rparr>) (\<lambda>_.
     ret override_id))))"

text \<open>\<open>GovernanceAuthority(value)\<close>.\<close>

definition authority_of_value :: "string \<Rightarrow> exn + GovernanceAuthority" where
  "authority_of_value v =
     (case find (\<lambda>a. authority_value a = v) [DATA_OWNER, SECURITY, PRIVACY, MODEL_RISK] of
        None \<Rightarrow> Inl ValueError
      | Some a \<Rightarrow> Inr a)"

definition read_safety_override :: "string \<Rightarrow> SafetyOverrideRecord dbprog" where
  "read_safety_override override_id =
     andthen (query (\<lambda>s. find (\<lambda>r. so_override_id r = override_id) (safety_override s))) (\<lambda>row.
     case row of
       None \<Rightarrow> throw KeyError
     | Some r \<Rightarrow>
         andthen (lift (authority_of_value (so_approved_by_authority r))) (\<lambda>a.
         ret \<lparr>sr_override_id = so_override_id r,
           sr_override = \<lparr>sf_fact_key = so_fact_key r, sf_field = so_field r, sf_previous_floor = so_previous_floor r,
             sf_override_value = so_override_value r, sf_approved_by_authority = a, sf_rationale = so_rationale r,
             sf_policy_reference = so_policy_reference r, sf_effective_from = so_effective_from r,
             sf_effective_until = so_effective_until r\<rparr>,
           sr_created_by = so_created_by r, sr_created_at = so_created_at r\<rparr>))"

subsection \<open>The floor\<close>

lemma normalize_known: "normalize v \<in> set SENSITIVITY_ORDER"
  by (simp add: normalize_def SENSITIVITY_ORDER_def PROHIBITED_def)

lemma rank_normalize [simp]: "rank (normalize v) = rank v"
  by (simp add: rank_def normalize_def SENSITIVITY_ORDER_def PROHIBITED_def)

lemma most_restrictive_bounds: "v \<in> set (floor # proposals) \<Longrightarrow> rank v \<le> rank (most_restrictive floor proposals)"
proof (induction proposals arbitrary: v rule: rev_induct)
  case (snoc p ps)
  have step: "most_restrictive floor (ps @ [p])
      = (if rank (most_restrictive floor ps) < rank p then p else most_restrictive floor ps)"
    by (simp add: most_restrictive_def)
  have "v = p \<or> rank v \<le> rank (most_restrictive floor ps)"
    using snoc by auto
  then show ?case by (auto simp: step)
qed (simp add: most_restrictive_def)

text \<open>
  C40: sensitivity only goes up, unless the right people let it down.  What the floor resolves to is one of
  the five labels, and is at least as restrictive as the floor and as every piece of evidence (a label
  nobody knows counts as prohibited), unless an override that is in force, names exactly this floor and
  this value, and is approved by privacy or security, takes it below.
\<close>

theorem floor_never_undercut:
  assumes "apply_sensitivity_floor floor proposals ov force_to now = Inr v"
  shows "v \<in> set SENSITIVITY_ORDER
    \<and> ((\<forall>p \<in> set (floor # proposals). rank p \<le> rank v)
       \<or> (\<exists>x t. ov = Some x \<and> force_to = Some t \<and> v = normalize t \<and> sf_previous_floor x = floor \<and> sf_override_value x = t
            \<and> sf_approved_by_authority x \<in> {PRIVACY, SECURITY} \<and> override_is_effective x now))"
proof (cases force_to)
  case None
  then have "v = normalize (most_restrictive floor proposals)"
    using assms by (simp add: apply_sensitivity_floor_def Let_def)
  then show ?thesis
    using most_restrictive_bounds normalize_known by simp
next
  case (Some t)
  then have v: "v = normalize t"
    and d: "rank (most_restrictive floor proposals) \<le> rank t \<or> override_permits_downgrade ov floor t now"
    using assms by (auto simp: apply_sensitivity_floor_def Let_def split: if_splits)
  show ?thesis
  proof (cases "rank (most_restrictive floor proposals) \<le> rank t")
    case True
    then have "\<forall>p \<in> set (floor # proposals). rank p \<le> rank v"
      using most_restrictive_bounds [of _ floor proposals] by (auto simp: v intro: le_trans)
    then show ?thesis using v normalize_known by simp
  next
    case False
    then obtain x where "ov = Some x" "sf_previous_floor x = floor" "sf_override_value x = t"
        "sf_approved_by_authority x \<in> {PRIVACY, SECURITY}" "override_is_effective x now"
      using d by (auto simp: override_permits_downgrade_def DOWNGRADE_AUTHORITIES_def split: option.splits)
    then show ?thesis using v Some normalize_known by blast
  qed
qed

definition sample_override :: SafetyOverride where
  "sample_override = \<lparr>sf_fact_key = ''f'', sf_field = ''sensitivity'', sf_previous_floor = ''restricted'', sf_override_value = ''internal'',
     sf_approved_by_authority = PRIVACY, sf_rationale = ''r'', sf_policy_reference = ''p'', sf_effective_from = Some 1, sf_effective_until = Some 9\<rparr>"

theorem floor_never_undercut_witness:
  "apply_sensitivity_floor ''internal'' [''public'', ''top secret''] None None 5 = Inr ''prohibited''
   \<and> rank ''top secret'' \<le> rank ''prohibited''
   \<and> apply_sensitivity_floor ''restricted'' [] (Some sample_override) (Some ''internal'') 5 = Inr ''internal''
   \<and> apply_sensitivity_floor ''restricted'' [] (Some sample_override) (Some ''internal'') 10 = Inl PermissionError"
proof -
  have e: "apply_sensitivity_floor ''internal'' [''public'', ''top secret''] None None 5 = Inr ''prohibited''"
    "apply_sensitivity_floor ''restricted'' [] (Some sample_override) (Some ''internal'') 5 = Inr ''internal''"
    "apply_sensitivity_floor ''restricted'' [] (Some sample_override) (Some ''internal'') 10 = Inl PermissionError"
    by code_simp+
  then show ?thesis
    using floor_never_undercut [OF e(1)] by simp
qed

subsection \<open>The record of an override\<close>

lemma find_appended: "find P (xs @ ys) = (case find P xs of None \<Rightarrow> find P ys | Some x \<Rightarrow> Some x)"
  by (induction xs) auto

text \<open>
  The record of a downgrade reads back as it was approved.  An override that was recorded is read
  under its id with every field it had, and recording it, with a key that is not its own, is refused.
\<close>

theorem override_reads_back:
  "(record_safety_override E key ov created_by s = (Inr i, s') \<longrightarrow>
      read_safety_override i s' = (Inr \<lparr>sr_override_id = i, sr_override = ov, sr_created_by = created_by, sr_created_at = clock s\<rparr>, s'))
   \<and> (key \<noteq> sf_fact_key ov \<longrightarrow> record_safety_override E key ov created_by s = (Inl ValueError, s))"
proof (intro conjI impI)
  assume r: "record_safety_override E key ov created_by s = (Inr i, s')"
  then have k: "key = sf_fact_key ov" and "i \<notin> so_override_id ` set (safety_override s)"
    by (auto simp: record_safety_override_def andthen_eq_Inr mint_id_def insert_override_def split: if_splits)
  then have n: "find (\<lambda>r. so_override_id r = i) (safety_override s) = None"
    by (auto simp: find_None_iff)
  have "authority_of_value (authority_value a) = Inr a" for a
    by (cases a) (simp_all add: authority_of_value_def)
  then show "read_safety_override i s' = (Inr \<lparr>sr_override_id = i, sr_override = ov, sr_created_by = created_by, sr_created_at = clock s\<rparr>, s')"
    using r n k by (auto simp: record_safety_override_def read_safety_override_def andthen_eq_Inr mint_id_def insert_override_def
        andthen_def find_appended split: if_splits option.split)
qed (simp add: record_safety_override_def)

theorem override_reads_back_witness:
  "\<exists>i s'. record_safety_override sample_env ''f'' sample_override [] empty_db = (Inr i, s')
     \<and> map_sum id sr_override (fst (read_safety_override i s')) = Inr sample_override"
proof -
  obtain i s' where r: "record_safety_override sample_env ''f'' sample_override [] empty_db = (Inr i, s')"
    by (auto simp: record_safety_override_def sample_override_def andthen_def mint_id_def insert_override_def empty_db_def)
  then have "read_safety_override i s' = (Inr \<lparr>sr_override_id = i, sr_override = sample_override, sr_created_by = [], sr_created_at = clock empty_db\<rparr>, s')"
    using override_reads_back [of sample_env "''f''" sample_override "[]" empty_db i s'] by blast
  with r show ?thesis by simp
qed

end
