(* ===== verification/Spec2Isabelle.thy ===== *)
theory Spec2Isabelle
  imports Worker Overlay_Serving Safety_Floor
begin

text \<open>
  FeatureGen is a contract-driven feature-engineering platform on PostgreSQL.  This development models the
  foundations that every sub-project of it rests on, the package \<open>src/src/featuregen\<close>: an append-only event
  store, the aggregates folded from it, the single command entry point with its idempotency and
  authorization, human gates, documents, read models, the security audit chain, and the durable runtime of
  queue, timers, outbox, external commands and step dispatch; and, on top of them, the metadata overlay
  \<open>overlay/*.py\<close>, whose facts about catalog tables are proposed, confirmed by a second person, expire, go
  stale with the catalog and are served fail-closed.

  \<^bold>\<open>How the program is modelled.\<close>  A Python function that reads and writes the database is a program
  \<open>db \<Rightarrow> (exn + 'a) \<times> db\<close> (\<open>Prelude\<close>): it returns or raises, and keeps the writes made so far;
  \<open>savepoint rollback\<close> is \<open>with conn.transaction()\<close>.  The record \<open>db\<close> (\<open>Database\<close>) has one field per
  table, the sequence, the clock and the number of random draws; constraints of the migrations are branches
  of the inserts.  One program is one transaction; a race is stated on the two halves of an operation, or as
  a sequence of transactions.  Code outside of the repository (the JSON-schema validator, \<open>ulid\<close>, the
  operating system's randomness, HMAC-SHA256, exception texts) is the record \<open>env\<close>; what a theorem needs of
  it is a hypothesis, and its witness instantiates it.

  \<^bold>\<open>The theories, in the order of their imports.\<close>
  \<^item> \<open>Prelude\<close>, \<open>Contracts\<close>: JSON values, exceptions, programs, the locale \<open>state_rel\<close> of relations that
    programs keep; the records of \<open>contracts/\<close>.
  \<^item> \<open>Identity\<close>, \<open>Serde\<close>, \<open>Ids\<close>, \<open>Datetime\<close>, \<open>Canonical_Json\<close>: identities and their trust boundary,
    the jsonb codecs, minted ids, ISO timestamps, the canonical JSON text.
  \<^item> \<open>Guard_Expr\<close>, \<open>Transition_Engine\<close>: the guard language and the table-driven state machine.
  \<^item> \<open>Event_Registry\<close>, \<open>Event_Schemas\<close>, \<open>Privacy_Scan\<close>, \<open>Database\<close>, \<open>Event_Store\<close>: schema evolution, the
    inline-PII guard, the tables, and append and load under the optimistic version check.
  \<^item> \<open>Governance\<close>, \<open>Aggregates\<close>, \<open>Work_Tables\<close>, \<open>Features\<close>: activation guards and the request, run and
    feature commands.
  \<^item> \<open>Security_Audit\<close>, \<open>Authz\<close>, \<open>Gates\<close>: the hash chain and break glass, policy and segregation of
    duties, human tasks with delegation and quorum.
  \<^item> \<open>Documents\<close>, \<open>Projections\<close>: documents and their lineage, drafts, the stage primary; the projection
    runner, rebuild, repair and aliases.
  \<^item> \<open>Commands\<close>, \<open>Catalogue\<close>: the entry point \<open>execute_command\<close>, the catalogue of handlers, the process
    after its bootstraps and all reachable stores.
  \<^item> \<open>Table_History\<close>: tables whose rows are only added or changed in place, as the locale \<open>row_rel\<close>.
  \<^item> \<open>Queue\<close>, \<open>Timers\<close>, \<open>Outbox\<close>, \<open>External\<close>: \<open>runtime/queue.py\<close> with its leases, lanes and fences,
    \<open>runtime/timers.py\<close> with business calendars, \<open>runtime/outbox.py\<close> with its relay, and
    \<open>runtime/external_commands.py\<close> with the cost budget.
  \<^item> \<open>Dispatch\<close>, \<open>Worker\<close>: the atomic step, the ledger of processed messages and the dispatch of one message
    (\<open>runtime/step.py\<close>, \<open>ledger.py\<close>, \<open>dispatch.py\<close>), and the worker's stages.
  \<^item> \<open>Overlay_Identity\<close>, \<open>Isoformat\<close>, \<open>Overlay_Catalog\<close>: \<open>overlay/identity.py\<close> with the digest of a fact and
    the write gates; \<open>datetime.fromisoformat\<close>; the catalog adapter as the locale \<open>catalog\<close>, the
    configuration, the time to live (\<open>catalog.py\<close>, \<open>config.py\<close>, \<open>dependencies.py\<close>).
  \<^item> \<open>Overlay_Facts\<close>, \<open>Overlay_Authority\<close>, \<open>Overlay_Lifecycle\<close>, \<open>Overlay_Commands\<close>, \<open>Overlay_Freshness\<close>: value
    schemas, the fold of a stream and the checked append (\<open>facts.py\<close>, \<open>state.py\<close>, \<open>store.py\<close>); who decides;
    the handlers of \<open>proposal_commands.py\<close>, \<open>confirmation_commands.py\<close>, \<open>join_confirmation.py\<close>; the pollers
    and the scan of \<open>expiry.py\<close> and \<open>catalog_changes.py\<close>.
  \<^item> \<open>Overlay_Rules\<close>, \<open>Overlay_Refinement\<close>, \<open>Overlay_Guarantees\<close>, \<open>Overlay_Outcomes\<close>, \<open>Overlay_History\<close>: the
    abstract specification \<open>legal_next\<close> of which event may follow a stream, that every handler, poller and scan
    implements it, what every legal stream has, the properties of commands, and a concrete overlay on
    which they are evaluated.
  \<^item> \<open>Overlay_Read\<close>, \<open>Overlay_Mirror\<close>, \<open>Overlay_Serving\<close>, \<open>Safety_Floor\<close>: the read model and the resolver
    (\<open>projection.py\<close>, \<open>resolve.py\<close>), that the rebuilt rows mirror the streams, what is served; the sensitivity
    floor (\<open>safety_floor.py\<close>).

  \<^bold>\<open>How the parts interact.\<close>  Every command goes through \<open>execute_command\<close>: it claims its key, asks the
  authorizer (which writes denials to the audit chain), refuses degraded aggregates, and runs the handler,
  which appends events and touches the tables of its aggregate.  Read models follow the log; one that meets
  a poison event marks its aggregate degraded, which blocks commands until \<open>resolve_degraded\<close> has proven
  the projection past the event.  The events of a step go out through the outbox, whose relay enqueues them;
  due timers enqueue too; the worker leases a message, runs its handler and commits the declared result with
  the ledger row of the message, or reschedules it.
  The overlay's handlers are commands of the same kind: they read a fact's stream from the event store, decide
  by authority and four eyes, append under the version they read, open and cancel human tasks and arm the
  expiry timer.  Its pollers and the catalog scan append the events by which a fact leaves \<open>VERIFIED\<close>; the
  projection turns the log into the rows that \<open>resolve_fact\<close> serves from.

  \<^bold>\<open>The interfaces.\<close>  \<open>aggregate_rel\<close> and \<open>feature_rel\<close> state what a relation must keep to be kept by all
  handlers; they are interpreted on the run history, on the active map and on the frame of the tables that
  aggregates do not own.  \<open>read_model\<close> is the contract of a projection and its runner, interpreted on the
  stage primary; \<open>repair_view\<close> carries a frame through the runner; \<open>command_clients\<close> is what the entry point
  needs of authorizers and handlers, and \<open>command_rel\<close> carries a relation through it; both are interpreted
  on the worker's process.  \<open>row_rel\<close> carries the history of a table; the tasks, the queue, the timers and
  the outbox interpret it.  The invariants of the runtime (one lease per partition, sent messages queued,
  costs counted once, the ledger) are \<open>state_rel\<close> interpretations, each kept by every operation of its
  theory and then by every run of them.
  \<open>overlay\<close>, \<open>quiet\<close> and \<open>calm\<close> are such relations for the overlay's streams: extended only by legal events,
  not extended, and untouched.

  \<^bold>\<open>Bounds and fuel.\<close>  Recursion is structural, or has a measure, except for two loops.  The guard
  expression parser takes as fuel the number of its tokens, which \<open>guard_expr_roundtrip\<close> shows is enough.
  The replay loops take one more step than there are events; \<open>replay_terminates\<close> shows that this is enough, so
  that \<open>Diverges\<close> is never returned.  The days of a business deadline are counted on the calendar's finite
  range of dates, past which the code overflows.  Timestamps are microseconds in \<open>int\<close>; a character is a code point
  below 256.

  \<^bold>\<open>Not modelled.\<close>  HTTP, LLM and connector code and the formula, materialisation and analysis
  sub-projects, which are separate programs on top of these foundations.  Of the overlay: the upload
  package, whose calls from the fact lifecycle are the parameter \<open>upload_hook\<close> of \<open>overlay_env\<close> (their
  hypothesis \<open>hooks_quiet\<close>: they append no event to a fact's stream) and whose ingestion (\<open>_assert_fact\<close> in \<open>upload/ingest.py\<close>) proposes
  and confirms a fact on the authority of its source, outside the runs stated here; conflict review, field evidence and the
  profiler; the rounding of the jitter, a parameter too; the sink of deferred invalidations and the counters.  The
  document schema registry, crypto shredding and the migration runner; the worker's tick that sequences all
  stages with the lanes of those sub-projects, its threads and its process loop; retry policies and repair
  loops of the business layer; the effect of isolation levels beyond
  the races stated; logging and metrics.
\<close>

end
